(* ===== verification/Prelude.thy ===== *)
theory Prelude
  imports
    Main
    "HOL-Library.Word"
    "HOL-Library.Signed_Division"
    "HOL-Library.Char_ord"
    "HOL-Library.List_Lexorder"
    "HOL-Library.Product_Lexorder"
    "HOL-Library.Sublist"
begin

text \<open>
  Shared vocabulary of the development: machine-integer and string types, the effectful
  operations the services are written against, the parts of Rust's \<open>str\<close> API the
  sources use, and a small theory of SQL tables (lists of rows with \<open>UPDATE\<close>,
  \<open>DELETE\<close> and \<open>SELECT\<close> by a row predicate) on which every component over the database
  rests.
\<close>

named_theorems table_simps \<open>rewrite rules for table statements\<close>
named_theorems at_file_simps \<open>what a statement about one file does to the rows of every file\<close>

section \<open>Types\<close>

text \<open>
  \<open>i64\<close> and \<open>i32\<close> are kept at their width where the code computes with them (part
  geometry). Columns of the database and values that are only compared are \<open>int\<close>.
  Strings are Rust strings: lists of UTF-8 bytes. Times are microseconds.
\<close>

type_synonym i64 = "64 word"
type_synonym i32 = "32 word"
type_synonym uuid = nat
type_synonym timestamp = int

definition secs :: "int \<Rightarrow> int" where
  "secs n = n * 1000000"

lemma secs_pos [simp]: "0 < n \<Longrightarrow> 0 < secs n"
  by (simp add: secs_def)

lemma secs_mono [simp]: "secs m \<le> secs n \<longleftrightarrow> m \<le> n" "secs m < secs n \<longleftrightarrow> m < n"
  by (simp_all add: secs_def)

section \<open>Effects\<close>

text \<open>
  An asynchronous operation of the services reads and changes a state and ends with a
  value or an error. It may have changed the state even when it reports an error.
\<close>

type_synonym ('s, 'e, 'a) eff = "'s \<Rightarrow> ('e + 'a) \<times> 's"

definition ret_ok :: "'a \<Rightarrow> ('s, 'e, 'a) eff" where
  "ret_ok a s = (Inr a, s)"

text \<open>Rust's \<open>operation.await.map_err(f)?\<close> followed by the rest of the function.\<close>

definition try_eff :: "('s, 'e, 'a) eff \<Rightarrow> ('e \<Rightarrow> 'f) \<Rightarrow> ('a \<Rightarrow> ('s, 'f, 'b) eff) \<Rightarrow> ('s, 'f, 'b) eff" where
  "try_eff op wrap rest s =
     (case op s of (Inl e, s') \<Rightarrow> (Inl (wrap e), s') | (Inr a, s') \<Rightarrow> rest a s')"

lemma try_eff_Inl [simp]: "op s = (Inl e, s') \<Longrightarrow> try_eff op w k s = (Inl (w e), s')"
  by (simp add: try_eff_def)

lemma try_eff_Inr [simp]: "op s = (Inr a, s') \<Longrightarrow> try_eff op w k s = k a s'"
  by (simp add: try_eff_def)

lemma try_effE:
  assumes "try_eff op w k s = (r, s')"
  obtains e s1 where "op s = (Inl e, s1)" "r = Inl (w e)" "s' = s1"
  | a s1 where "op s = (Inr a, s1)" "k a s1 = (r, s')"
  using assms by (cases "op s"; cases "fst (op s)") (auto simp: try_eff_def)

section \<open>Strings\<close>

definition code :: "char \<Rightarrow> nat" where
  "code c = of_char c"

definition is_digit :: "char \<Rightarrow> bool" where
  "is_digit c \<longleftrightarrow> 48 \<le> code c \<and> code c \<le> 57"

definition is_lower :: "char \<Rightarrow> bool" where
  "is_lower c \<longleftrightarrow> 97 \<le> code c \<and> code c \<le> 122"

definition is_hexdigit :: "char \<Rightarrow> bool" where
  "is_hexdigit c \<longleftrightarrow> is_digit c \<or> (97 \<le> code c \<and> code c \<le> 102) \<or> (65 \<le> code c \<and> code c \<le> 70)"

definition ascii_lower :: "char \<Rightarrow> char" where
  "ascii_lower c = (if 65 \<le> code c \<and> code c \<le> 90 then char_of (code c + 32) else c)"

text \<open>\<open>str::eq_ignore_ascii_case\<close>; also SQL's \<open>lower(a) = lower(b)\<close> on hex digests.\<close>

definition eq_ic :: "string \<Rightarrow> string \<Rightarrow> bool" where
  "eq_ic a b \<longleftrightarrow> map ascii_lower a = map ascii_lower b"

lemma eq_ic_refl [simp]: "eq_ic a a"
  by (simp add: eq_ic_def)

lemma eq_ic_sym: "eq_ic a b \<longleftrightarrow> eq_ic b a"
  by (auto simp: eq_ic_def)

lemma eq_ic_trans: "eq_ic a b \<Longrightarrow> eq_ic b c \<Longrightarrow> eq_ic a c"
  by (simp add: eq_ic_def)

lemma eq_ic_length: "eq_ic a b \<Longrightarrow> length a = length b"
  unfolding eq_ic_def by (metis length_map)

text \<open>\<open>str::split\<close> on one character: always at least one piece.\<close>

fun split_on :: "char \<Rightarrow> string \<Rightarrow> string list" where
  "split_on d [] = [[]]"
| "split_on d (c # cs) =
     (if c = d then [] # split_on d cs
      else case split_on d cs of [] \<Rightarrow> [[c]] | p # ps \<Rightarrow> (c # p) # ps)"

lemma split_on_nonempty [simp]: "split_on d s \<noteq> []"
  by (induction s) (auto split: list.splits)

text \<open>\<open>[T]::join\<close>, its inverse.\<close>

fun join_with :: "char \<Rightarrow> string list \<Rightarrow> string" where
  "join_with d [] = []"
| "join_with d [p] = p"
| "join_with d (p # q # ps) = p @ d # join_with d (q # ps)"

lemma join_split [simp]: "join_with d (split_on d s) = s"
proof (induction s)
  case (Cons c cs)
  then show ?case
    by (cases "split_on d cs"; cases "tl (split_on d cs)") auto
qed simp

lemma split_on_no_sep: "p \<in> set (split_on d s) \<Longrightarrow> d \<notin> set p"
proof (induction s arbitrary: p)
  case (Cons c cs)
  then show ?case by (cases "split_on d cs") (auto split: if_splits)
qed simp

lemma split_on_id: "d \<notin> set s \<Longrightarrow> split_on d s = [s]"
  by (induction s) auto

lemma split_on_append: "d \<notin> set p \<Longrightarrow> split_on d (p @ d # s) = p # split_on d s"
  by (induction p) auto

lemma split_join: "ps \<noteq> [] \<Longrightarrow> (\<forall>p \<in> set ps. d \<notin> set p) \<Longrightarrow> split_on d (join_with d ps) = ps"
  by (induction d ps rule: join_with.induct) (auto simp: split_on_id split_on_append)

text \<open>\<open>str::split_once\<close>.\<close>

fun split_once :: "char \<Rightarrow> string \<Rightarrow> (string \<times> string) option" where
  "split_once d [] = None"
| "split_once d (c # cs) =
     (if c = d then Some ([], cs) else map_option (\<lambda>(a, b). (c # a, b)) (split_once d cs))"

lemma split_once_Some: "split_once d s = Some (a, b) \<Longrightarrow> s = a @ d # b \<and> d \<notin> set a"
  by (induction s arbitrary: a) (auto split: if_splits)

lemma split_once_None: "split_once d s = None \<longleftrightarrow> d \<notin> set s"
  by (induction s) auto

lemma split_once_append [simp]: "d \<notin> set a \<Longrightarrow> split_once d (a @ d # b) = Some (a, b)"
  by (induction a) auto

text \<open>
  \<open>str::trim\<close>: the encodings of the code points with the Unicode property White\_Space are
  removed from both ends.
\<close>

definition bytes :: "nat list \<Rightarrow> string" where
  "bytes ns = map char_of ns"

definition white_space :: "string list" where
  "white_space =
     map (\<lambda>n. bytes [n]) [9, 10, 11, 12, 13, 32] @
     map bytes [[194, 133], [194, 160], [225, 154, 128]] @
     map (\<lambda>n. bytes [226, 128, n]) [128, 129, 130, 131, 132, 133, 134, 135, 136, 137, 138, 168, 169, 175] @
     map bytes [[226, 129, 159], [227, 128, 128]]"

lemma white_space_nonempty: "w \<in> set white_space \<Longrightarrow> w \<noteq> []"
  by (auto simp: white_space_def bytes_def)

function strip_prefixes :: "string list \<Rightarrow> string \<Rightarrow> string" where
  "strip_prefixes ws s =
     (case find (\<lambda>w. w \<noteq> [] \<and> prefix w s) ws of
        None \<Rightarrow> s
      | Some w \<Rightarrow> strip_prefixes ws (drop (length w) s))"
  by pat_completeness auto
termination
proof (relation "measure (\<lambda>(ws, s). length s)")
  fix ws s w
  assume "find (\<lambda>w. w \<noteq> [] \<and> prefix w s) ws = Some w"
  then have "w \<noteq> []" "prefix w s"
    by (auto simp: find_Some_iff)
  then have "s \<noteq> []" and "length w > 0"
    by auto
  then show "((ws, drop (length w) s), (ws, s)) \<in> measure (\<lambda>(ws, s). length s)"
    by simp
qed simp

declare strip_prefixes.simps [simp del]

definition trim :: "string \<Rightarrow> string" where
  "trim s = rev (strip_prefixes (map rev white_space) (rev (strip_prefixes white_space s)))"

text \<open>A text that starts and ends with a printable ASCII character is not trimmed.\<close>

definition printable :: "char \<Rightarrow> bool" where
  "printable c \<longleftrightarrow> 33 \<le> code c \<and> code c \<le> 126"

lemma strip_prefixes_none: "(\<And>w. w \<in> set ws \<Longrightarrow> w \<noteq> [] \<Longrightarrow> \<not> prefix w s) \<Longrightarrow> strip_prefixes ws s = s"
  by (subst strip_prefixes.simps) (auto simp: find_None_iff split: option.splits dest!: find_Some_iff [THEN iffD1])

lemma white_space_ends: "w \<in> set white_space \<Longrightarrow> \<not> printable (hd w) \<and> \<not> printable (last w)"
  by (auto simp: white_space_def bytes_def printable_def code_def simp del: of_char_eq_iff)

lemma trim_ascii: "s \<noteq> [] \<Longrightarrow> printable (hd s) \<Longrightarrow> printable (last s) \<Longrightarrow> trim s = s"
proof -
  assume s: "s \<noteq> []" "printable (hd s)" "printable (last s)"
  have "strip_prefixes white_space s = s"
    using s(2) white_space_ends by (intro strip_prefixes_none) (metis prefix_def hd_append2)
  moreover have "strip_prefixes (map rev white_space) (rev s) = rev s"
  proof (rule strip_prefixes_none)
    fix w assume "w \<in> set (map rev white_space)" "w \<noteq> []"
    then obtain v where "v \<in> set white_space" "w = rev v" "v \<noteq> []" by auto
    then show "\<not> prefix w (rev s)"
      using s(3) white_space_ends by (auto simp: suffix_to_prefix [symmetric] suffix_def)
  qed
  ultimately show ?thesis by (simp add: trim_def)
qed

text \<open>\<open>str::trim_matches\<close> on one character.\<close>

definition trim_char :: "char \<Rightarrow> string \<Rightarrow> string" where
  "trim_char c s = rev (dropWhile (\<lambda>x. x = c) (rev (dropWhile (\<lambda>x. x = c) s)))"

text \<open>\<open>str::split_ascii_whitespace\<close>: pieces between runs of space, tab, LF, FF and CR.\<close>

definition is_ascii_space :: "char \<Rightarrow> bool" where
  "is_ascii_space c \<longleftrightarrow> code c \<in> {9, 10, 12, 13, 32}"

fun ascii_words :: "string \<Rightarrow> string \<Rightarrow> string list" where
  "ascii_words acc [] = (if acc = [] then [] else [rev acc])"
| "ascii_words acc (c # cs) =
     (if is_ascii_space c then (if acc = [] then ascii_words [] cs else rev acc # ascii_words [] cs)
      else ascii_words (c # acc) cs)"

text \<open>\<open>str::parse\<close> for a signed integer with the given bounds.\<close>

fun digits_value :: "int \<Rightarrow> string \<Rightarrow> int option" where
  "digits_value acc [] = Some acc"
| "digits_value acc (c # cs) =
     (if is_digit c then digits_value (acc * 10 + int (code c - 48)) cs else None)"

definition parse_signed :: "int \<Rightarrow> int \<Rightarrow> string \<Rightarrow> int option" where
  "parse_signed lo hi s =
     (let (neg, ds) = (case s of
         [] \<Rightarrow> (False, [])
       | c # cs \<Rightarrow> if c = CHR ''-'' then (True, cs) else if c = CHR ''+'' then (False, cs) else (False, s))
      in if ds = [] then None
         else case digits_value 0 ds of
           None \<Rightarrow> None
         | Some v \<Rightarrow> (let n = (if neg then - v else v) in if lo \<le> n \<and> n \<le> hi then Some n else None))"

definition parse_i32 :: "string \<Rightarrow> int option" where
  "parse_i32 = parse_signed (- (2 ^ 31)) (2 ^ 31 - 1)"

definition parse_i64 :: "string \<Rightarrow> int option" where
  "parse_i64 = parse_signed (- (2 ^ 63)) (2 ^ 63 - 1)"

lemma parse_signed_bounds: "parse_signed lo hi s = Some n \<Longrightarrow> lo \<le> n \<and> n \<le> hi"
  by (auto simp: parse_signed_def Let_def split: prod.splits option.splits if_splits list.splits)

section \<open>Tables\<close>

text \<open>
  A table is the list of its rows. \<open>UPDATE t SET u WHERE p\<close> is \<open>update_where p u\<close>,
  \<open>DELETE\<close> is \<open>delete_where\<close>, \<open>SELECT EXISTS\<close> is \<open>exists_where\<close>,
  \<open>fetch_optional\<close> is \<open>find\<close> and \<open>rows_affected()\<close> counts the rows that match.
\<close>

definition update_where :: "('r \<Rightarrow> bool) \<Rightarrow> ('r \<Rightarrow> 'r) \<Rightarrow> 'r list \<Rightarrow> 'r list" where
  "update_where p u rows = map (\<lambda>r. if p r then u r else r) rows"

definition delete_where :: "('r \<Rightarrow> bool) \<Rightarrow> 'r list \<Rightarrow> 'r list" where
  "delete_where p rows = filter (\<lambda>r. \<not> p r) rows"

definition exists_where :: "('r \<Rightarrow> bool) \<Rightarrow> 'r list \<Rightarrow> bool" where
  "exists_where p rows = list_ex p rows"

definition count_where :: "('r \<Rightarrow> bool) \<Rightarrow> 'r list \<Rightarrow> nat" where
  "count_where p rows = length (filter p rows)"

lemma set_update_where [table_simps]:
  "set (update_where p u rows) = (\<lambda>r. if p r then u r else r) ` set rows"
  by (simp add: update_where_def)

lemma set_delete_where [table_simps]: "set (delete_where p rows) = {r \<in> set rows. \<not> p r}"
  by (auto simp: delete_where_def)

lemma exists_where_iff [table_simps]: "exists_where p rows \<longleftrightarrow> (\<exists>r \<in> set rows. p r)"
  by (simp add: exists_where_def list_ex_iff)

lemma count_where_0 [table_simps]: "count_where p rows = 0 \<longleftrightarrow> (\<forall>r \<in> set rows. \<not> p r)"
  by (simp add: count_where_def filter_empty_conv)

lemma count_where_pos [table_simps]: "0 < count_where p rows \<longleftrightarrow> (\<exists>r \<in> set rows. p r)"
  by (simp add: count_where_def filter_empty_conv)

lemma map_update_where:
  assumes "\<And>r. p r \<Longrightarrow> k (u r) = k r"
  shows "map k (update_where p u rows) = map k rows"
  using assms by (auto simp: update_where_def)

lemma map_delete_where_distinct:
  "distinct (map k rows) \<Longrightarrow> distinct (map k (delete_where p rows))"
  by (simp add: delete_where_def distinct_map_filter)

lemma update_where_none: "(\<And>r. r \<in> set rows \<Longrightarrow> \<not> p r) \<Longrightarrow> update_where p u rows = rows"
  unfolding update_where_def by (induction rows) auto

lemma exists_update_where:
  "(\<And>r. q r \<Longrightarrow> p (u r) = p r) \<Longrightarrow> exists_where p (update_where q u rows) = exists_where p rows"
  unfolding exists_where_def update_where_def by (induction rows) auto

lemma delete_where_none: "(\<And>r. r \<in> set rows \<Longrightarrow> \<not> p r) \<Longrightarrow> delete_where p rows = rows"
  by (simp add: delete_where_def)

lemma find_where_None: "find p rows = None \<longleftrightarrow> (\<forall>r \<in> set rows. \<not> p r)"
  by (auto simp: find_None_iff)

lemma find_where_Some: "find p rows = Some r \<Longrightarrow> r \<in> set rows \<and> p r"
  by (auto simp: find_Some_iff)

text \<open>Rows of a table with a primary key are determined by it.\<close>

lemma key_unique:
  "distinct (map k rows) \<Longrightarrow> r \<in> set rows \<Longrightarrow> r' \<in> set rows \<Longrightarrow> k r = k r' \<Longrightarrow> r = r'"
  by (induction rows) (auto simp: rev_image_eqI)

lemma count_by_key_le_1:
  assumes "distinct (map k rows)"
  shows "count_where (\<lambda>r. k r = a \<and> q r) rows \<le> 1"
  using assms unfolding count_where_def
proof (induction rows)
  case (Cons x xs)
  show ?case
  proof (cases "k x = a")
    case True
    with Cons.prems have "filter (\<lambda>r. k r = a \<and> q r) xs = []"
      by (auto simp: filter_empty_conv) (metis imageI)
    then show ?thesis by simp
  next
    case False
    with Cons show ?thesis by simp
  qed
qed simp

end
