(* ===== verification/Management_Policy.thy ===== *)
theory Management_Policy
  imports Prelude
begin

text \<open>
  The crate \<open>grove-management-policy\<close>: the pure authorization decision of the management plane
  (\<open>identity.rs\<close>, \<open>policy.rs\<close>). Every path of \<open>authorize\<close> is kept, denials included.
\<close>

section \<open>identity.rs\<close>

datatype role = Reader | Writer | Admin
datatype account_state = AccountActive | AccountDisabled | AccountDeleted
datatype credential_state = CredActive | CredExpired | CredRevoked | CredInvalid
datatype actor = User role account_state
datatype auth_method = UserSession | ManagementToken
datatype surface = Console | Cli | Mcp | ResourceApi

record caller =
  c_actor :: actor
  c_method :: auth_method
  c_credential_state :: credential_state

section \<open>policy.rs\<close>

datatype action =
    ReadResources | WriteResources | ManageServiceCredentials
  | ReadOwnSessions | RevokeOwnSessions
  | ReadIdentities | ManageIdentities
  | ReadAuditHistory | ReadInvocationHistory | ReadSecurityEvents

datatype scope = Installation | SelfOnly

datatype denial =
    InvalidCredential | InactiveAccount | InvalidAuthenticationContext
  | ConsoleSessionRequired | InsufficientRole

definition require_active :: "account_state \<Rightarrow> denial + unit" where
  "require_active st = (if st \<noteq> AccountActive then Inl InactiveAccount else Inr ())"

fun effective_role :: "actor \<Rightarrow> denial + role" where
  "effective_role (User role st) =
     (case require_active st of Inl d \<Rightarrow> Inl d | Inr _ \<Rightarrow> Inr role)"

definition require_console_session :: "caller \<Rightarrow> denial + unit" where
  "require_console_session c =
     (if c_method c \<noteq> UserSession then Inl ConsoleSessionRequired else Inr ())"

fun context_ok :: "actor \<Rightarrow> auth_method \<Rightarrow> surface \<Rightarrow> bool" where
  "context_ok (User _ _) UserSession Console = True"
| "context_ok (User _ _) ManagementToken Cli = True"
| "context_ok (User _ _) ManagementToken Mcp = True"
| "context_ok (User _ _) ManagementToken ResourceApi = True"
| "context_ok _ _ _ = False"

definition decide :: "caller \<Rightarrow> role \<Rightarrow> action \<Rightarrow> denial + scope" where
  "decide c role act = (case act of
     ReadResources \<Rightarrow> Inr Installation
   | WriteResources \<Rightarrow> (case role of Reader \<Rightarrow> Inl InsufficientRole | _ \<Rightarrow> Inr Installation)
   | ManageServiceCredentials \<Rightarrow> (case role of Reader \<Rightarrow> Inl InsufficientRole | _ \<Rightarrow> Inr Installation)
   | ReadOwnSessions \<Rightarrow> (case require_console_session c of Inl d \<Rightarrow> Inl d | Inr _ \<Rightarrow> Inr SelfOnly)
   | RevokeOwnSessions \<Rightarrow> (case require_console_session c of Inl d \<Rightarrow> Inl d | Inr _ \<Rightarrow> Inr SelfOnly)
   | ReadAuditHistory \<Rightarrow> (case require_console_session c of Inl d \<Rightarrow> Inl d
       | Inr _ \<Rightarrow> Inr (case role of Admin \<Rightarrow> Installation | _ \<Rightarrow> SelfOnly))
   | ReadInvocationHistory \<Rightarrow> (case require_console_session c of Inl d \<Rightarrow> Inl d
       | Inr _ \<Rightarrow> Inr (case role of Admin \<Rightarrow> Installation | _ \<Rightarrow> SelfOnly))
   | _ \<Rightarrow> (case require_console_session c of Inl d \<Rightarrow> Inl d
       | Inr _ \<Rightarrow> (case role of Admin \<Rightarrow> Inr Installation | _ \<Rightarrow> Inl InsufficientRole)))"

definition authorize :: "caller \<Rightarrow> surface \<Rightarrow> action \<Rightarrow> denial + scope" where
  "authorize c sf act =
     (if c_credential_state c \<noteq> CredActive then Inl InvalidCredential
      else case effective_role (c_actor c) of
        Inl d \<Rightarrow> Inl d
      | Inr role \<Rightarrow>
          if \<not> context_ok (c_actor c) (c_method c) sf then Inl InvalidAuthenticationContext
          else decide c role act)"

section \<open>Properties\<close>

lemmas authorize_defs = authorize_def decide_def require_console_session_def require_active_def

fun role_of :: "actor \<Rightarrow> role" where
  "role_of (User r _) = r"

text \<open>The roles as an order, by what they may do.\<close>

fun role_level :: "role \<Rightarrow> nat" where
  "role_level Reader = 0"
| "role_level Writer = 1"
| "role_level Admin = 2"

fun scope_level :: "denial + scope \<Rightarrow> nat" where
  "scope_level (Inl _) = 0"
| "scope_level (Inr SelfOnly) = 1"
| "scope_level (Inr Installation) = 2"

lemma context_ok_iff:
  "context_ok a m s \<longleftrightarrow> (m = UserSession \<and> s = Console) \<or> (m = ManagementToken \<and> s \<noteq> Console)"
  by (cases a; cases m; cases s) auto

text \<open>
  Any authorized request comes from an active account over an unexpired credential, through
  the surface that belongs to its authentication method; a management token reaches resource
  actions only, and an action beyond one's own data asks for the role the policy names.
\<close>

theorem authorize_sound:
  assumes "authorize c sf act = Inr sc"
  shows "c_credential_state c = CredActive \<and> (\<exists>r. c_actor c = User r AccountActive) \<and>
    (c_method c = UserSession \<longleftrightarrow> sf = Console) \<and>
    (c_method c = ManagementToken \<longrightarrow> act \<in> {ReadResources, WriteResources, ManageServiceCredentials}) \<and>
    (act \<in> {ReadIdentities, ManageIdentities, ReadSecurityEvents} \<longrightarrow> role_of (c_actor c) = Admin) \<and>
    (act \<in> {WriteResources, ManageServiceCredentials} \<longrightarrow> role_of (c_actor c) \<noteq> Reader) \<and>
    (sc = Installation \<and> act \<in> {ReadAuditHistory, ReadInvocationHistory} \<longrightarrow> role_of (c_actor c) = Admin)"
proof -
  obtain r st where a: "c_actor c = User r st" by (cases "c_actor c")
  have cr: "c_credential_state c = CredActive" and st: "st = AccountActive"
    and cx: "context_ok (User r st) (c_method c) sf" and d: "decide c r act = Inr sc"
    using assms a by (auto simp: authorize_def require_active_def split: if_splits)
  have m: "c_method c = UserSession \<longleftrightarrow> sf = Console"
    using cx by (cases "c_method c") (auto simp: context_ok_iff)
  from d cr st a m show ?thesis
    by (cases act; cases r; cases "c_method c")
      (auto simp: decide_def require_console_session_def)
qed

theorem authorize_sound_witness:
  "authorize \<lparr>c_actor = User Admin AccountActive, c_method = UserSession, c_credential_state = CredActive\<rparr>
     Console ManageIdentities = Inr Installation \<and>
   (UserSession = UserSession \<longleftrightarrow> Console = Console)"
proof -
  let ?c = "\<lparr>c_actor = User Admin AccountActive, c_method = UserSession, c_credential_state = CredActive\<rparr>"
  have h: "authorize ?c Console ManageIdentities = Inr Installation"
    by (simp add: authorize_defs)
  show ?thesis using h authorize_sound [OF h] by simp
qed

text \<open>
  Permissions grow with the role: whatever the caller's other attributes, raising the role
  never turns an allowed action into a denied one and never narrows its scope.
\<close>

theorem authorize_monotone_in_role:
  assumes "role_level r \<le> role_level r'" "c_actor c = User r st"
  shows "scope_level (authorize c sf act) \<le> scope_level (authorize (c\<lparr>c_actor := User r' st\<rparr>) sf act)"
  using assms
  by (cases r; cases r'; cases act) (auto simp: authorize_defs context_ok_iff)

theorem authorize_monotone_in_role_witness:
  "scope_level (authorize \<lparr>c_actor = User Reader AccountActive, c_method = UserSession,
       c_credential_state = CredActive\<rparr> Console ReadAuditHistory) \<le>
   scope_level (authorize \<lparr>c_actor = User Admin AccountActive, c_method = UserSession,
       c_credential_state = CredActive\<rparr> Console ReadAuditHistory)"
  using authorize_monotone_in_role [of Reader Admin "\<lparr>c_actor = User Reader AccountActive,
      c_method = UserSession, c_credential_state = CredActive\<rparr>" AccountActive Console ReadAuditHistory]
  by simp

end
