(* ===== verification/Command_Catalog.thy ===== *)
theory Command_Catalog
  imports Prelude Management_Policy
begin

text \<open>
  The crate \<open>grove-management-command\<close>: the catalog of the registry commands with their wire names,
  permissions and effects (\<open>catalog.rs\<close>), decoding and validation of their inputs (\<open>lib.rs\<close>, \<open>input.rs\<close>,
  \<open>metadata.rs\<close>) and the errors (\<open>error.rs\<close>). A \<open>serde_json::Value\<close> is the type \<open>json\<close>: numbers are
  integers or the text of a float, objects are lists of fields with distinct names. The length of a
  value's JSON text is a parameter. Schemas and serialization for delivery are left out.
\<close>

section \<open>JSON values\<close>

datatype json =
    JNull | JBool bool | JInt int | JFloat string | JStr string | JArr "json list" | JObj "(string \<times> json) list"

definition json_fields :: "string list \<Rightarrow> json \<Rightarrow> (string \<times> json) list option" where
  "json_fields allowed v = (case v of
      JObj fs \<Rightarrow> if list_all (\<lambda>f. fst f \<in> set allowed) fs then Some fs else None
    | _ \<Rightarrow> None)"

definition required_string :: "string \<Rightarrow> (string \<times> json) list \<Rightarrow> string option" where
  "required_string k fs = (case map_of fs k of Some (JStr s) \<Rightarrow> Some s | _ \<Rightarrow> None)"

definition optional_string :: "string \<Rightarrow> (string \<times> json) list \<Rightarrow> string option option" where
  "optional_string k fs = (case map_of fs k of
      None \<Rightarrow> Some None
    | Some JNull \<Rightarrow> Some None
    | Some (JStr s) \<Rightarrow> Some (Some s)
    | Some _ \<Rightarrow> None)"

definition default_bool :: "string \<Rightarrow> (string \<times> json) list \<Rightarrow> bool option" where
  "default_bool k fs = (case map_of fs k of None \<Rightarrow> Some False | Some (JBool b) \<Rightarrow> Some b | Some _ \<Rightarrow> None)"

definition required_i64 :: "string \<Rightarrow> (string \<times> json) list \<Rightarrow> int option" where
  "required_i64 k fs = (case map_of fs k of
      Some (JInt n) \<Rightarrow> if - (2 ^ 63) \<le> n \<and> n < 2 ^ 63 then Some n else None
    | _ \<Rightarrow> None)"

section \<open>error.rs\<close>

datatype error_code =
    ProtocolIncompatible | UnknownCommand | InvalidCommandInput | CmdUnauthorized | CmdForbidden | CmdNotFound
  | CmdConflict | CmdRateLimited | CmdRequestRejected | InvalidResponse | CmdUnavailable | CmdInternal

datatype command_outcome = NotApplied | Applied | OutcomeNotKnown

record command_error =
  ce_code :: error_code
  ce_outcome :: command_outcome

definition rejected :: "error_code \<Rightarrow> command_error" where
  "rejected c = \<lparr>ce_code = c, ce_outcome = NotApplied\<rparr>"

section \<open>input.rs\<close>

datatype storage_kind = KindS3 | KindFs

text \<open>A unit variant is its name or an object of that one name and \<open>null\<close>.\<close>

definition kind_of_json :: "json \<Rightarrow> storage_kind option" where
  "kind_of_json v =
     (let name = (case v of JStr s \<Rightarrow> Some s | JObj [(s, JNull)] \<Rightarrow> Some s | _ \<Rightarrow> None)
      in if name = Some ''s3'' then Some KindS3 else if name = Some ''fs'' then Some KindFs else None)"

definition s3_kind :: "(string \<times> json) list \<Rightarrow> storage_kind option" where
  "s3_kind fs = (case map_of fs ''kind'' of
      None \<Rightarrow> Some KindS3
    | Some v \<Rightarrow> (case kind_of_json v of Some KindS3 \<Rightarrow> Some KindS3 | _ \<Rightarrow> None))"

record submitted_storage =
  sx_kind :: storage_kind
  sx_force_relay :: bool
  sx_root_path :: "string option"
  sx_endpoint :: "string option"
  sx_public_endpoint :: "string option"
  sx_region :: "string option"
  sx_bucket :: "string option"
  sx_force_path_style :: bool
  sx_access_key :: "string option"
  sx_secret_key :: "string option"
  sx_capacity_bytes :: int

definition SPEC_FIELDS :: "string list" where
  "SPEC_FIELDS = [''kind'', ''force_relay'', ''root_path'', ''endpoint'', ''public_endpoint'', ''region'', ''bucket'',
     ''force_path_style'', ''access_key'', ''secret_key'', ''capacity_bytes'']"

definition decode_spec :: "json \<Rightarrow> submitted_storage option" where
  "decode_spec v = Option.bind (json_fields SPEC_FIELDS v) (\<lambda>fs.
     Option.bind (s3_kind fs) (\<lambda>kind.
     Option.bind (default_bool ''force_relay'' fs) (\<lambda>force_relay.
     Option.bind (optional_string ''root_path'' fs) (\<lambda>root_path.
     Option.bind (optional_string ''endpoint'' fs) (\<lambda>endpoint.
     Option.bind (optional_string ''public_endpoint'' fs) (\<lambda>public_endpoint.
     Option.bind (optional_string ''region'' fs) (\<lambda>region.
     Option.bind (optional_string ''bucket'' fs) (\<lambda>bucket.
     Option.bind (default_bool ''force_path_style'' fs) (\<lambda>force_path_style.
     Option.bind (optional_string ''access_key'' fs) (\<lambda>access_key.
     Option.bind (optional_string ''secret_key'' fs) (\<lambda>secret_key.
     Option.bind (required_i64 ''capacity_bytes'' fs) (\<lambda>capacity_bytes.
       Some \<lparr>sx_kind = kind, sx_force_relay = force_relay, sx_root_path = root_path, sx_endpoint = endpoint,
             sx_public_endpoint = public_endpoint, sx_region = region, sx_bucket = bucket,
             sx_force_path_style = force_path_style, sx_access_key = access_key, sx_secret_key = secret_key,
             sx_capacity_bytes = capacity_bytes\<rparr>))))))))))))"

definition DEFAULT_HISTORY_DAYS :: int where
  "DEFAULT_HISTORY_DAYS = 90"

definition history_days :: "(string \<times> json) list \<Rightarrow> int option" where
  "history_days fs = (case map_of fs ''days'' of
      None \<Rightarrow> Some DEFAULT_HISTORY_DAYS
    | Some (JInt n) \<Rightarrow> if 0 \<le> n \<and> n < 2 ^ 16 then Some n else None
    | Some _ \<Rightarrow> None)"

text \<open>\<open>chars().any(char::is_control)\<close> on the UTF-8 bytes: U+0000--U+001F, U+007F and U+0080--U+009F.\<close>

fun has_control :: "string \<Rightarrow> bool" where
  "has_control [] \<longleftrightarrow> False"
| "has_control (b # bs) \<longleftrightarrow> code b < 32 \<or> code b = 127 \<or>
     (code b = 194 \<and> (case bs of c # _ \<Rightarrow> 128 \<le> code c \<and> code c \<le> 159 | [] \<Rightarrow> False)) \<or> has_control bs"

definition resource_id :: "string \<Rightarrow> bool" where
  "resource_id v \<longleftrightarrow> v \<noteq> [] \<and> v \<notin> {''.'', ''..''} \<and> \<not> has_control v"

definition key_hash :: "string \<Rightarrow> bool" where
  "key_hash v \<longleftrightarrow> prefix ''sha256:'' v \<and>
     (let digest = drop 7 v in length digest = 64 \<and> list_all (\<lambda>b. is_digit b \<or> (97 \<le> code b \<and> code b \<le> 102)) digest)"

section \<open>metadata.rs\<close>

definition MAX_METADATA_BYTES :: nat where
  "MAX_METADATA_BYTES = 8192"

definition no_nul :: "string \<Rightarrow> bool" where
  "no_nul s \<longleftrightarrow> CHR 0x00 \<notin> set s"

text \<open>\<open>object.len().saturating_mul(2).saturating_sub(1)\<close>; \<open>json_bytes\<close> is the length of \<open>serde_json::to_vec\<close>.\<close>

definition separators :: "(string \<times> json) list \<Rightarrow> nat" where
  "separators fs = 2 * length fs - 1"

definition valid_metadata :: "(json \<Rightarrow> nat) \<Rightarrow> json \<Rightarrow> bool" where
  "valid_metadata json_bytes v = (case v of
      JObj fs \<Rightarrow> list_all (\<lambda>(k, x). no_nul k \<and> (case x of JStr s \<Rightarrow> no_nul s | _ \<Rightarrow> False)) fs \<and>
        json_bytes v + separators fs \<le> MAX_METADATA_BYTES
    | _ \<Rightarrow> False)"

section \<open>catalog.rs\<close>

datatype effect = ReadEffect | MutationEffect

datatype command_name =
    StatusCmd | StorageList | StorageShow | StorageMetadataShow | StorageMetadataReplace | StorageTest
  | StorageCreate | StorageReplace | StorageDelete | ClientList | ClientShow | ClientMetadataShow
  | ClientMetadataReplace | ClientCreate | ClientDelete | CredentialList | CredentialCreate | CredentialDelete
  | ClientKeyList | ClientKeyRegister | ClientKeyDelete | UsageStorages | UsageClients | UsageHistory

text \<open>The macro's table: variant, name, action, effect.\<close>

definition CATALOG :: "(command_name \<times> string \<times> action \<times> effect) list" where
  "CATALOG = [
     (StatusCmd, ''status'', ReadResources, ReadEffect),
     (StorageList, ''storage.list'', ReadResources, ReadEffect),
     (StorageShow, ''storage.show'', ReadResources, ReadEffect),
     (StorageMetadataShow, ''storage.metadata.show'', ReadResources, ReadEffect),
     (StorageMetadataReplace, ''storage.metadata.replace'', WriteResources, MutationEffect),
     (StorageTest, ''storage.test'', ReadResources, ReadEffect),
     (StorageCreate, ''storage.create'', WriteResources, MutationEffect),
     (StorageReplace, ''storage.replace'', WriteResources, MutationEffect),
     (StorageDelete, ''storage.delete'', WriteResources, MutationEffect),
     (ClientList, ''client.list'', ReadResources, ReadEffect),
     (ClientShow, ''client.show'', ReadResources, ReadEffect),
     (ClientMetadataShow, ''client.metadata.show'', ReadResources, ReadEffect),
     (ClientMetadataReplace, ''client.metadata.replace'', WriteResources, MutationEffect),
     (ClientCreate, ''client.create'', WriteResources, MutationEffect),
     (ClientDelete, ''client.delete'', WriteResources, MutationEffect),
     (CredentialList, ''credential.list'', ManageServiceCredentials, ReadEffect),
     (CredentialCreate, ''credential.create'', ManageServiceCredentials, MutationEffect),
     (CredentialDelete, ''credential.delete'', ManageServiceCredentials, MutationEffect),
     (ClientKeyList, ''client-key.list'', ManageServiceCredentials, ReadEffect),
     (ClientKeyRegister, ''client-key.register'', ManageServiceCredentials, MutationEffect),
     (ClientKeyDelete, ''client-key.delete'', ManageServiceCredentials, MutationEffect),
     (UsageStorages, ''usage.storages'', ReadResources, ReadEffect),
     (UsageClients, ''usage.clients'', ReadResources, ReadEffect),
     (UsageHistory, ''usage.history'', ReadResources, ReadEffect)]"

definition ALL_COMMANDS :: "command_name list" where
  "ALL_COMMANDS = map fst CATALOG"

definition catalog_entry :: "command_name \<Rightarrow> string \<times> action \<times> effect" where
  "catalog_entry n = the (map_of CATALOG n)"

definition command_text :: "command_name \<Rightarrow> string" where
  "command_text n = fst (catalog_entry n)"

definition required_action :: "command_name \<Rightarrow> action" where
  "required_action n = fst (snd (catalog_entry n))"

definition command_effect :: "command_name \<Rightarrow> effect" where
  "command_effect n = snd (snd (catalog_entry n))"

definition parse_command :: "string \<Rightarrow> command_name option" where
  "parse_command s = map_option fst (find (\<lambda>e. fst (snd e) = s) CATALOG)"

datatype command =
    DoStatus | DoStorageList | DoStorageShow string | DoStorageMetadataShow string
  | DoStorageMetadataReplace string json | DoStorageTest string | DoStorageCreate string submitted_storage
  | DoStorageReplace string submitted_storage | DoStorageDelete string | DoClientList | DoClientShow string
  | DoClientMetadataShow string | DoClientMetadataReplace string json | DoClientCreate string string
  | DoClientDelete string | DoCredentialList string | DoCredentialCreate string | DoCredentialDelete string string
  | DoClientKeyList string | DoClientKeyRegister string string | DoClientKeyDelete string string
  | DoUsageStorages | DoUsageClients | DoUsageHistory int

fun command_name_of :: "command \<Rightarrow> command_name" where
  "command_name_of DoStatus = StatusCmd"
| "command_name_of DoStorageList = StorageList"
| "command_name_of (DoStorageShow _) = StorageShow"
| "command_name_of (DoStorageMetadataShow _) = StorageMetadataShow"
| "command_name_of (DoStorageMetadataReplace _ _) = StorageMetadataReplace"
| "command_name_of (DoStorageTest _) = StorageTest"
| "command_name_of (DoStorageCreate _ _) = StorageCreate"
| "command_name_of (DoStorageReplace _ _) = StorageReplace"
| "command_name_of (DoStorageDelete _) = StorageDelete"
| "command_name_of DoClientList = ClientList"
| "command_name_of (DoClientShow _) = ClientShow"
| "command_name_of (DoClientMetadataShow _) = ClientMetadataShow"
| "command_name_of (DoClientMetadataReplace _ _) = ClientMetadataReplace"
| "command_name_of (DoClientCreate _ _) = ClientCreate"
| "command_name_of (DoClientDelete _) = ClientDelete"
| "command_name_of (DoCredentialList _) = CredentialList"
| "command_name_of (DoCredentialCreate _) = CredentialCreate"
| "command_name_of (DoCredentialDelete _ _) = CredentialDelete"
| "command_name_of (DoClientKeyList _) = ClientKeyList"
| "command_name_of (DoClientKeyRegister _ _) = ClientKeyRegister"
| "command_name_of (DoClientKeyDelete _ _) = ClientKeyDelete"
| "command_name_of DoUsageStorages = UsageStorages"
| "command_name_of DoUsageClients = UsageClients"
| "command_name_of (DoUsageHistory _) = UsageHistory"

definition decode_one :: "string \<Rightarrow> (string \<Rightarrow> command) \<Rightarrow> json \<Rightarrow> command option" where
  "decode_one k mk v = Option.bind (json_fields [k] v) (\<lambda>fs. map_option mk (required_string k fs))"

definition decode_two :: "string \<Rightarrow> string \<Rightarrow> (string \<Rightarrow> string \<Rightarrow> command) \<Rightarrow> json \<Rightarrow> command option" where
  "decode_two k1 k2 mk v = Option.bind (json_fields [k1, k2] v) (\<lambda>fs.
     Option.bind (required_string k1 fs) (\<lambda>a. map_option (mk a) (required_string k2 fs)))"

definition decode_none :: "command \<Rightarrow> json \<Rightarrow> command option" where
  "decode_none c v = map_option (\<lambda>_. c) (json_fields [] v)"

definition decode_metadata :: "(string \<Rightarrow> json \<Rightarrow> command) \<Rightarrow> json \<Rightarrow> command option" where
  "decode_metadata mk v = Option.bind (json_fields [''id'', ''metadata''] v) (\<lambda>fs.
     Option.bind (required_string ''id'' fs) (\<lambda>i. map_option (mk i) (map_of fs ''metadata'')))"

definition decode_storage :: "(string \<Rightarrow> submitted_storage \<Rightarrow> command) \<Rightarrow> json \<Rightarrow> command option" where
  "decode_storage mk v = Option.bind (json_fields [''id'', ''spec''] v) (\<lambda>fs.
     Option.bind (required_string ''id'' fs) (\<lambda>i. Option.bind (map_of fs ''spec'') (\<lambda>s. map_option (mk i) (decode_spec s))))"

definition decode_input :: "command_name \<Rightarrow> json \<Rightarrow> command option" where
  "decode_input n = (case n of
      StatusCmd \<Rightarrow> decode_none DoStatus
    | StorageList \<Rightarrow> decode_none DoStorageList
    | StorageShow \<Rightarrow> decode_one ''id'' DoStorageShow
    | StorageMetadataShow \<Rightarrow> decode_one ''id'' DoStorageMetadataShow
    | StorageMetadataReplace \<Rightarrow> decode_metadata DoStorageMetadataReplace
    | StorageTest \<Rightarrow> decode_one ''id'' DoStorageTest
    | StorageCreate \<Rightarrow> decode_storage DoStorageCreate
    | StorageReplace \<Rightarrow> decode_storage DoStorageReplace
    | StorageDelete \<Rightarrow> decode_one ''id'' DoStorageDelete
    | ClientList \<Rightarrow> decode_none DoClientList
    | ClientShow \<Rightarrow> decode_one ''id'' DoClientShow
    | ClientMetadataShow \<Rightarrow> decode_one ''id'' DoClientMetadataShow
    | ClientMetadataReplace \<Rightarrow> decode_metadata DoClientMetadataReplace
    | ClientCreate \<Rightarrow> decode_two ''id'' ''storage_id'' DoClientCreate
    | ClientDelete \<Rightarrow> decode_one ''id'' DoClientDelete
    | CredentialList \<Rightarrow> decode_one ''client_id'' DoCredentialList
    | CredentialCreate \<Rightarrow> decode_one ''client_id'' DoCredentialCreate
    | CredentialDelete \<Rightarrow> decode_two ''client_id'' ''access_key_id'' DoCredentialDelete
    | ClientKeyList \<Rightarrow> decode_one ''client_id'' DoClientKeyList
    | ClientKeyRegister \<Rightarrow> decode_two ''client_id'' ''key_hash'' DoClientKeyRegister
    | ClientKeyDelete \<Rightarrow> decode_two ''client_id'' ''key_hash'' DoClientKeyDelete
    | UsageStorages \<Rightarrow> decode_none DoUsageStorages
    | UsageClients \<Rightarrow> decode_none DoUsageClients
    | UsageHistory \<Rightarrow> (\<lambda>v. Option.bind (json_fields [''days''] v) (\<lambda>fs. map_option DoUsageHistory (history_days fs))))"

fun valid_command :: "(json \<Rightarrow> nat) \<Rightarrow> command \<Rightarrow> bool" where
  "valid_command jb DoStatus = True"
| "valid_command jb DoStorageList = True"
| "valid_command jb (DoStorageShow i) = resource_id i"
| "valid_command jb (DoStorageMetadataShow i) = resource_id i"
| "valid_command jb (DoStorageMetadataReplace i x) = (resource_id i \<and> valid_metadata jb x)"
| "valid_command jb (DoStorageTest i) = resource_id i"
| "valid_command jb (DoStorageCreate i s) = (resource_id i \<and> 0 \<le> sx_capacity_bytes s \<and> sx_kind s = KindS3)"
| "valid_command jb (DoStorageReplace i s) = (resource_id i \<and> 0 \<le> sx_capacity_bytes s \<and> sx_kind s = KindS3)"
| "valid_command jb (DoStorageDelete i) = resource_id i"
| "valid_command jb DoClientList = True"
| "valid_command jb (DoClientShow i) = resource_id i"
| "valid_command jb (DoClientMetadataShow i) = resource_id i"
| "valid_command jb (DoClientMetadataReplace i x) = (resource_id i \<and> valid_metadata jb x)"
| "valid_command jb (DoClientCreate i st) = (resource_id i \<and> resource_id st)"
| "valid_command jb (DoClientDelete i) = resource_id i"
| "valid_command jb (DoCredentialList c) = resource_id c"
| "valid_command jb (DoCredentialCreate c) = resource_id c"
| "valid_command jb (DoCredentialDelete c k) = (resource_id c \<and> 8 \<le> length k \<and> length k \<le> 64 \<and>
     list_all (\<lambda>b. is_lower b \<or> is_digit b) k)"
| "valid_command jb (DoClientKeyList c) = resource_id c"
| "valid_command jb (DoClientKeyRegister c h) = (resource_id c \<and> key_hash h)"
| "valid_command jb (DoClientKeyDelete c h) = (resource_id c \<and> key_hash h)"
| "valid_command jb DoUsageStorages = True"
| "valid_command jb DoUsageClients = True"
| "valid_command jb (DoUsageHistory n) = (1 \<le> n \<and> n \<le> 3650)"

definition validate_command :: "(json \<Rightarrow> nat) \<Rightarrow> command \<Rightarrow> command_error + unit" where
  "validate_command jb c = (if valid_command jb c then Inr () else Inl (rejected InvalidCommandInput))"

section \<open>lib.rs\<close>

definition COMMAND_PROTOCOL_VERSION :: int where
  "COMMAND_PROTOCOL_VERSION = 1"

definition is_object :: "json \<Rightarrow> bool" where
  "is_object v = (case v of JObj _ \<Rightarrow> True | _ \<Rightarrow> False)"

definition decode_command :: "(json \<Rightarrow> nat) \<Rightarrow> int \<Rightarrow> string \<Rightarrow> json \<Rightarrow> command_error + command" where
  "decode_command jb protocol name v =
     (if protocol \<noteq> COMMAND_PROTOCOL_VERSION then Inl (rejected ProtocolIncompatible)
      else case parse_command name of
          None \<Rightarrow> Inl (rejected UnknownCommand)
        | Some n \<Rightarrow>
            if \<not> is_object v then Inl (rejected InvalidCommandInput)
            else (case decode_input n v of
                None \<Rightarrow> Inl (rejected InvalidCommandInput)
              | Some c \<Rightarrow> (case validate_command jb c of Inl e \<Rightarrow> Inl e | Inr _ \<Rightarrow> Inr c)))"

section \<open>The catalog\<close>

lemma ALL_COMMANDS: "n \<in> set ALL_COMMANDS"
  by (cases n) (simp_all add: ALL_COMMANDS_def CATALOG_def)

lemma parse_command_text: "parse_command (command_text n) = Some n"
proof -
  have "list_all (\<lambda>n. parse_command (command_text n) = Some n) ALL_COMMANDS" by code_simp
  then show ?thesis using ALL_COMMANDS by (auto simp: list_all_iff)
qed

lemma command_text_parse: "parse_command s = Some n \<Longrightarrow> command_text n = s"
proof -
  assume "parse_command s = Some n"
  then obtain e where e: "find (\<lambda>e. fst (snd e) = s) CATALOG = Some e" "fst e = n" by (auto simp: parse_command_def)
  from e(1) have "e \<in> set CATALOG" "fst (snd e) = s" by (auto dest!: find_Some_iff [THEN iffD1] simp: in_set_conv_nth)
  moreover have "list_all (\<lambda>e. command_text (fst e) = fst (snd e)) CATALOG" by code_simp
  ultimately show ?thesis using e(2) by (auto simp: list_all_iff)
qed

lemma decode_input_name: "decode_input n v = Some c \<Longrightarrow> command_name_of c = n"
  by (cases n)
    (auto simp: decode_input_def decode_one_def decode_two_def decode_none_def decode_metadata_def decode_storage_def
       bind_eq_Some_conv)

lemma mutation_actions: "command_effect n = MutationEffect \<Longrightarrow> required_action n \<in> {WriteResources, ManageServiceCredentials}"
  by (cases n) (simp_all add: command_effect_def required_action_def catalog_entry_def CATALOG_def)

lemma decode_command_Inr:
  assumes "decode_command jb protocol name v = Inr c"
  shows "protocol = 1" "command_text (command_name_of c) = name" "valid_command jb c" "is_object v"
  using assms
  by (auto simp: decode_command_def validate_command_def COMMAND_PROTOCOL_VERSION_def
        dest!: decode_input_name command_text_parse split: if_splits option.splits)

end
