(* ===== verification/Schema.thy ===== *)
theory Schema
  imports Prelude
begin

text \<open>
  The tables of \<open>db/migrations\<close> that file transfer works on, as the record \<open>db\<close>: one list of
  rows per table, rows as records, enumerated text columns as datatypes. \<open>schema_ok\<close> collects
  the keys and foreign keys. \<open>row_locks\<close> lists the file rows that an open relay-upload
  transaction holds (\<open>FOR UPDATE\<close>). \<open>view\<close> gathers what the tables say of one file.
  \<open>created_at\<close>/\<open>updated_at\<close> columns that no statement reads are left out.
\<close>

section \<open>Rows\<close>

datatype file_state = Pending | Active | Deleted | Reclaimed
datatype lease_kind = Write | Read
datatype lease_state = Issued | Committed | Expired | Canceled
datatype part_state = PartClaimed | PartDone
datatype protocol = Native | S3
datatype upload_state = Open | Completing | Cleaning

record storage_row =
  st_id :: string
  st_kind :: string
  st_force_relay :: bool
  st_endpoint :: "string option"
  st_public_endpoint :: "string option"
  st_region :: "string option"
  st_bucket :: "string option"
  st_force_path_style :: bool
  st_access_key :: "string option"
  st_secret_ciphertext :: "string option"
  st_secret_nonce :: "string option"
  st_enc_key_id :: "string option"
  st_capacity_bytes :: int

record client_row =
  cl_id :: string
  cl_storage :: string

record file_row =
  f_id :: uuid
  f_client :: string
  f_state :: file_state
  f_declared_size :: int
  f_content_type :: "string option"
  f_declared_md5 :: "string option"
  f_etag :: "string option"
  f_part_size :: "int option"
  f_created_at :: timestamp
  f_committed_at :: "timestamp option"
  f_deleted_at :: "timestamp option"
  f_recovery_after :: timestamp

record location_row =
  l_file :: uuid
  l_storage :: string
  l_object_key :: string

record lease_row =
  le_id :: uuid
  le_file :: uuid
  le_kind :: lease_kind
  le_state :: lease_state
  le_expires_at :: timestamp
  le_secret_hash :: "string option"
  le_uploaded_size :: "int option"
  le_uploaded_md5 :: "string option"
  le_upload_id :: "string option"
  le_created_at :: timestamp

record part_row =
  lp_lease :: uuid
  lp_no :: int
  lp_state :: part_state
  lp_size :: "int option"
  lp_md5 :: "string option"

record upload_row =
  u_file :: uuid
  u_protocol :: protocol
  u_key :: "string option"
  u_multipart :: bool
  u_if_none_match :: bool
  u_state :: upload_state
  u_expected_size :: "int option"
  u_expected_etag :: "string option"
  u_recovery_after :: timestamp

record key_row =
  k_client :: string
  k_key :: string
  k_file :: uuid

record history_row =
  h_at :: timestamp
  h_file :: uuid
  h_storage :: string
  h_client :: string
  h_kind :: lease_kind
  h_size :: int

record db =
  storages :: "storage_row list"
  clients :: "client_row list"
  files :: "file_row list"
  locations :: "location_row list"
  leases :: "lease_row list"
  lease_parts :: "part_row list"
  uploads :: "upload_row list"
  object_keys :: "key_row list"
  lease_history :: "history_row list"
  row_locks :: "uuid list"

text \<open>What PostgreSQL reports when a statement breaks a constraint, and what the driver reports when a
  row is missing or does not decode.\<close>

datatype db_error = UniqueViolation | ForeignKeyViolation | CheckViolation | RowNotFound | DecodeError

section \<open>Constraints\<close>

definition secret_hash_ok :: "string \<Rightarrow> bool" where
  "secret_hash_ok h \<longleftrightarrow> take 7 h = ''sha256:'' \<and> length h = 71 \<and>
     list_all (\<lambda>c. is_digit c \<or> (97 \<le> code c \<and> code c \<le> 102)) (drop 7 h)"

definition file_check :: "file_row \<Rightarrow> bool" where
  "file_check f \<longleftrightarrow> 0 \<le> f_declared_size f \<and> (\<forall>p. f_part_size f = Some p \<longrightarrow> 0 < p) \<and>
     (f_state f = Active \<longrightarrow> f_committed_at f \<noteq> None) \<and>
     (f_state f = Deleted \<longrightarrow> f_committed_at f \<noteq> None \<and> f_deleted_at f \<noteq> None)"

definition lease_check :: "lease_row \<Rightarrow> bool" where
  "lease_check l \<longleftrightarrow> (\<forall>h. le_secret_hash l = Some h \<longrightarrow> secret_hash_ok h) \<and>
     (\<forall>n. le_uploaded_size l = Some n \<longrightarrow> 0 \<le> n)"

definition part_check :: "part_row \<Rightarrow> bool" where
  "part_check p \<longleftrightarrow> 1 \<le> lp_no p \<and> (\<forall>n. lp_size p = Some n \<longrightarrow> 0 \<le> n) \<and>
     (lp_state p = PartDone \<longrightarrow> lp_size p \<noteq> None \<and> lp_md5 p \<noteq> None)"

text \<open>\<open>uploads_protocol_shape\<close> of migration 0006.\<close>

definition upload_check :: "upload_row \<Rightarrow> bool" where
  "upload_check u \<longleftrightarrow> (\<forall>n. u_expected_size u = Some n \<longrightarrow> 0 \<le> n) \<and>
     (case u_protocol u of
        Native \<Rightarrow> u_key u = None \<and> u_multipart u \<and> \<not> u_if_none_match u \<and>
          u_state u \<in> {Completing, Cleaning} \<and> u_expected_size u = None \<and> u_expected_etag u \<noteq> None
      | S3 \<Rightarrow> u_key u \<noteq> None \<and>
          (if u_state u = Completing then u_expected_size u \<noteq> None \<and> u_expected_etag u \<noteq> None
           else u_expected_size u = None \<and> u_expected_etag u = None))"

definition is_write :: "lease_row \<Rightarrow> bool" where
  "is_write l \<longleftrightarrow> le_kind l = Write"

text \<open>Primary keys, unique indexes, foreign keys and the part rows' checks.\<close>

definition schema_tables :: "file_row list \<Rightarrow> location_row list \<Rightarrow> lease_row list \<Rightarrow> part_row list
    \<Rightarrow> upload_row list \<Rightarrow> key_row list \<Rightarrow> bool" where
  "schema_tables fs ls les ps us ks \<longleftrightarrow>
     distinct (map f_id fs) \<and>
     distinct (map l_file ls) \<and>
     distinct (map (\<lambda>l. (l_storage l, l_object_key l)) ls) \<and>
     distinct (map le_id les) \<and>
     distinct (map (\<lambda>p. (lp_lease p, lp_no p)) ps) \<and>
     distinct (map u_file us) \<and>
     distinct (map (\<lambda>k. (k_client k, k_key k)) ks) \<and>
     (\<forall>p \<in> set ps. part_check p) \<and>
     lp_lease ` set ps \<subseteq> le_id ` set les \<and>
     l_file ` set ls \<subseteq> f_id ` set fs \<and>
     le_file ` set les \<subseteq> f_id ` set fs \<and>
     u_file ` set us \<subseteq> f_id ` set fs \<and>
     (\<lambda>k. (k_client k, k_file k)) ` set ks \<subseteq> (\<lambda>f. (f_client f, f_id f)) ` set fs"

definition schema_ok :: "db \<Rightarrow> bool" where
  "schema_ok d \<longleftrightarrow> schema_tables (files d) (locations d) (leases d) (lease_parts d) (uploads d) (object_keys d)"

lemma schema_okD:
  assumes "schema_ok d"
  shows "distinct (map f_id (files d))" "distinct (map l_file (locations d))"
    "distinct (map le_id (leases d))" "distinct (map (\<lambda>p. (lp_lease p, lp_no p)) (lease_parts d))"
    "distinct (map u_file (uploads d))" "distinct (map (\<lambda>k. (k_client k, k_key k)) (object_keys d))"
    "lp_lease ` set (lease_parts d) \<subseteq> le_id ` set (leases d)"
    "l_file ` set (locations d) \<subseteq> f_id ` set (files d)"
    "le_file ` set (leases d) \<subseteq> f_id ` set (files d)"
    "u_file ` set (uploads d) \<subseteq> f_id ` set (files d)"
    "distinct (map (\<lambda>l. (l_storage l, l_object_key l)) (locations d))"
    "\<And>p. p \<in> set (lease_parts d) \<Longrightarrow> part_check p"
  using assms by (simp_all add: schema_ok_def schema_tables_def)

section \<open>Subqueries the statements share\<close>

definition has_upload :: "db \<Rightarrow> uuid \<Rightarrow> bool" where
  "has_upload d i \<longleftrightarrow> exists_where (\<lambda>u. u_file u = i) (uploads d)"

definition has_native_upload :: "db \<Rightarrow> uuid \<Rightarrow> bool" where
  "has_native_upload d i \<longleftrightarrow> exists_where (\<lambda>u. u_file u = i \<and> u_protocol u = Native) (uploads d)"

definition has_location :: "db \<Rightarrow> uuid \<Rightarrow> bool" where
  "has_location d i \<longleftrightarrow> exists_where (\<lambda>l. l_file l = i) (locations d)"

text \<open>
  \<open>SELECT EXISTS (SELECT 1 FROM lease_parts lp JOIN leases le ON le.id = lp.lease_id WHERE
  le.file_id = $1 AND le.kind = 'write' AND lp.state = 'claimed')\<close>
\<close>

definition part_uploading :: "db \<Rightarrow> uuid \<Rightarrow> bool" where
  "part_uploading d i \<longleftrightarrow>
     exists_where (\<lambda>p. lp_state p = PartClaimed \<and>
       exists_where (\<lambda>l. le_id l = lp_lease p \<and> le_file l = i \<and> le_kind l = Write) (leases d)) (lease_parts d)"

text \<open>\<open>UPDATE leases SET state = ... WHERE file_id = $1 AND kind = 'write' AND state = 'issued'\<close>\<close>

definition issued_write :: "uuid \<Rightarrow> lease_row \<Rightarrow> bool" where
  "issued_write i l \<longleftrightarrow> le_file l = i \<and> le_kind l = Write \<and> le_state l = Issued"

definition settle_write :: "lease_state \<Rightarrow> uuid \<Rightarrow> lease_row list \<Rightarrow> lease_row list" where
  "settle_write st i ls = update_where (issued_write i) (\<lambda>l. l\<lparr>le_state := st\<rparr>) ls"

definition renew_write :: "timestamp \<Rightarrow> uuid \<Rightarrow> lease_row list \<Rightarrow> lease_row list" where
  "renew_write t i ls = update_where (issued_write i) (\<lambda>l. l\<lparr>le_expires_at := t\<rparr>) ls"

section \<open>What the tables say of one file\<close>

record file_view =
  v_file :: "file_row option"
  v_loc :: "location_row option"
  v_leases :: "lease_row list"
  v_parts :: "part_row list"
  v_upload :: "upload_row option"

definition write_leases :: "db \<Rightarrow> uuid \<Rightarrow> lease_row list" where
  "write_leases d i = filter (\<lambda>l. le_file l = i \<and> le_kind l = Write) (leases d)"

definition parts_of :: "lease_row list \<Rightarrow> part_row list \<Rightarrow> part_row list" where
  "parts_of ls ps = filter (\<lambda>p. exists_where (\<lambda>l. le_id l = lp_lease p) ls) ps"

definition view :: "db \<Rightarrow> uuid \<Rightarrow> file_view" where
  "view d i = \<lparr>v_file = find (\<lambda>f. f_id f = i) (files d),
               v_loc = find (\<lambda>l. l_file l = i) (locations d),
               v_leases = write_leases d i,
               v_parts = parts_of (write_leases d i) (lease_parts d),
               v_upload = find (\<lambda>u. u_file u = i) (uploads d)\<rparr>"

lemma view_simps [simp]:
  "v_file (view d i) = find (\<lambda>f. f_id f = i) (files d)"
  "v_loc (view d i) = find (\<lambda>l. l_file l = i) (locations d)"
  "v_leases (view d i) = write_leases d i"
  "v_parts (view d i) = parts_of (write_leases d i) (lease_parts d)"
  "v_upload (view d i) = find (\<lambda>u. u_file u = i) (uploads d)"
  by (simp_all add: view_def)

end
