(* ===== verification/Lifecycle.thy ===== *)
theory Lifecycle
  imports Schema
begin

text \<open>
  The contract that the transactions of \<open>db/src/files\<close>, \<open>db/src/s3_registry\<close> and
  \<open>db/src/upload_recovery.rs\<close> keep for one file: \<open>vstep\<close> lists the moves a file's rows may
  make, \<open>view_ok\<close> is the invariant of its rows, \<open>sim\<close> says that a database change is, for every
  file, a sequence of such moves. Every operation is proved to be one (component theories); the
  invariants of this theory then hold for the whole system.
\<close>

section \<open>The invariant of a file's rows\<close>

definition file_history_ok :: "file_row \<Rightarrow> bool" where
  "file_history_ok f \<longleftrightarrow> file_check f \<and>
     (if f_state f \<in> {Active, Deleted} then f_etag f \<noteq> None
      else f_etag f = None \<and> f_committed_at f = None \<and> f_deleted_at f = None)"

definition cleaning :: "upload_row option \<Rightarrow> bool" where
  "cleaning u \<longleftrightarrow> (case u of None \<Rightarrow> False | Some u \<Rightarrow> u_state u = Cleaning)"

definition completing :: "upload_row option \<Rightarrow> bool" where
  "completing u \<longleftrightarrow> (case u of None \<Rightarrow> False | Some u \<Rightarrow> u_state u = Completing)"

definition native_cleaning :: "upload_row option \<Rightarrow> bool" where
  "native_cleaning u \<longleftrightarrow> (case u of None \<Rightarrow> False | Some u \<Rightarrow> u_state u = Cleaning \<and> u_protocol u = Native)"

lemma cleaning_simps [simp]:
  "cleaning None = False" "cleaning (Some u) \<longleftrightarrow> u_state u = Cleaning"
  "completing None = False" "completing (Some u) \<longleftrightarrow> u_state u = Completing"
  "native_cleaning None = False" "native_cleaning (Some u) \<longleftrightarrow> u_state u = Cleaning \<and> u_protocol u = Native"
  by (simp_all add: cleaning_def completing_def native_cleaning_def)

definition upload_ok :: "file_row \<Rightarrow> upload_row \<Rightarrow> bool" where
  "upload_ok f u \<longleftrightarrow> f_state f = Pending \<and> upload_check u \<and> u_file u = f_id f \<and>
     (u_multipart u \<longleftrightarrow> f_part_size f \<noteq> None)"

text \<open>The write lease agrees with the file's state.\<close>

definition lease_ok :: "file_row \<Rightarrow> upload_row option \<Rightarrow> lease_row list \<Rightarrow> bool" where
  "lease_ok f u ls \<longleftrightarrow> length ls \<le> 1 \<and>
     (f_state f = Pending \<longrightarrow> ls \<noteq> []) \<and>
     (\<forall>l \<in> set ls.
        (le_state l = Issued \<longrightarrow> f_state f = Pending) \<and>
        (f_state f = Pending \<longrightarrow> le_state l = Issued \<or> (le_state l = Expired \<and> cleaning u)) \<and>
        (native_cleaning u \<longrightarrow> le_state l \<noteq> Issued) \<and>
        (le_state l = Committed \<longrightarrow> f_state f \<in> {Active, Deleted}))"

definition view_ok :: "file_view \<Rightarrow> bool" where
  "view_ok v \<longleftrightarrow> (case v_file v of
       None \<Rightarrow> v_loc v = None \<and> v_leases v = [] \<and> v_parts v = [] \<and> v_upload v = None
     | Some f \<Rightarrow>
         file_history_ok f \<and>
         (f_state f \<in> {Pending, Active} \<longrightarrow> v_loc v \<noteq> None) \<and>
         (\<forall>u. v_upload v = Some u \<longrightarrow> upload_ok f u) \<and>
         lease_ok f (v_upload v) (v_leases v) \<and>
         (v_leases v = [] \<longrightarrow> v_parts v = []) \<and>
         (f_part_size f = None \<longrightarrow> v_parts v = []) \<and>
         (completing (v_upload v) \<longrightarrow> (\<forall>p \<in> set (v_parts v). lp_state p = PartDone)) \<and>
         (f_state f = Reclaimed \<and> v_loc v \<noteq> None \<longrightarrow> v_leases v \<noteq> []))"

lemma view_ok_upload:
  assumes "view_ok v" "v_upload v = Some u"
  obtains f where "v_file v = Some f" "upload_ok f u" "f_state f = Pending"
proof (cases "v_file v")
  case None
  with assms show thesis by (simp add: view_ok_def)
next
  case (Some f)
  with assms have "upload_ok f u" by (simp add: view_ok_def)
  with Some that show thesis by (simp add: upload_ok_def)
qed

section \<open>The moves\<close>

definition same_identity :: "lease_row \<Rightarrow> lease_row \<Rightarrow> bool" where
  "same_identity l l' \<longleftrightarrow> le_id l' = le_id l \<and> le_file l' = le_file l \<and> le_kind l' = le_kind l"

definition settle :: "lease_state \<Rightarrow> lease_row list \<Rightarrow> lease_row list" where
  "settle st ls = map (\<lambda>l. if le_state l = Issued then l\<lparr>le_state := st\<rparr> else l) ls"

inductive vstep :: "file_view \<Rightarrow> file_view \<Rightarrow> bool" where
  create: "v_file v = None \<Longrightarrow> f_state f = Pending \<Longrightarrow> file_history_ok f \<Longrightarrow> le_state l = Issued \<Longrightarrow>
     (\<And>u. up = Some u \<Longrightarrow> upload_ok f u \<and> u_state u = Open) \<Longrightarrow>
     vstep v \<lparr>v_file = Some f, v_loc = Some loc, v_leases = [l], v_parts = [], v_upload = up\<rparr>"
| touch_lease: "(\<And>l. same_identity l (g l) \<and> le_state (g l) = le_state l) \<Longrightarrow>
     vstep v (v\<lparr>v_leases := map g (v_leases v)\<rparr>)"
| touch_parts: "\<not> completing (v_upload v) \<Longrightarrow> (v_leases v = [] \<Longrightarrow> ps = []) \<Longrightarrow>
     (\<And>f. v_file v = Some f \<Longrightarrow> f_part_size f = None \<Longrightarrow> ps = []) \<Longrightarrow> vstep v (v\<lparr>v_parts := ps\<rparr>)"
| own: "v_file v = Some f \<Longrightarrow> f_state f = Pending \<Longrightarrow> u_state u = Completing \<Longrightarrow> upload_ok f u \<Longrightarrow>
     v_upload v = None \<or> (\<exists>w. v_upload v = Some w \<and> u_state w = Open) \<Longrightarrow>
     (\<forall>p \<in> set (v_parts v). lp_state p = PartDone) \<Longrightarrow>
     (\<forall>l \<in> set (v_leases v). le_state l = Issued) \<Longrightarrow>
     vstep v (v\<lparr>v_upload := Some u\<rparr>)"
| reopen: "completing (v_upload v) \<Longrightarrow> v_file v = Some f \<Longrightarrow>
     (\<And>u. up = Some u \<Longrightarrow> upload_ok f u \<and> u_state u = Open) \<Longrightarrow> (\<forall>l \<in> set (v_leases v). le_state l = Issued) \<Longrightarrow>
     vstep v (v\<lparr>v_upload := up\<rparr>)"
| clean: "v_file v = Some f \<Longrightarrow> v_upload v \<noteq> None \<Longrightarrow> upload_ok f u \<Longrightarrow> u_state u = Cleaning \<Longrightarrow>
     st = Issued \<or> st = Expired \<Longrightarrow> (u_protocol u = Native \<Longrightarrow> st = Expired) \<Longrightarrow>
     vstep v (v\<lparr>v_upload := Some u, v_leases := settle st (v_leases v)\<rparr>)"
| activate: "v_file v = Some f \<Longrightarrow> f_state f = Pending \<Longrightarrow> v_upload v = None \<or> completing (v_upload v) \<Longrightarrow>
     0 \<le> sz \<Longrightarrow>
     vstep v (v\<lparr>v_file := Some (f\<lparr>f_state := Active, f_declared_size := sz, f_etag := Some t, f_committed_at := Some now\<rparr>),
                v_leases := settle Committed (v_leases v), v_upload := None\<rparr>)"
| reclaim_keep: "v_file v = Some f \<Longrightarrow> f_state f = Pending \<Longrightarrow> v_upload v = None \<Longrightarrow>
     vstep v (v\<lparr>v_file := Some (f\<lparr>f_state := Reclaimed, f_recovery_after := t\<rparr>),
                v_leases := settle Expired (v_leases v)\<rparr>)"
| reclaim_drop: "v_file v = Some f \<Longrightarrow> f_state f = Pending \<Longrightarrow> \<not> completing (v_upload v) \<Longrightarrow>
     vstep v (v\<lparr>v_file := Some (f\<lparr>f_state := Reclaimed\<rparr>), v_loc := None,
                v_leases := settle Expired (v_leases v), v_upload := None\<rparr>)"
| drop_location: "v_file v = Some f \<Longrightarrow> f_state f \<in> {Deleted, Reclaimed} \<Longrightarrow> vstep v (v\<lparr>v_loc := None\<rparr>)"
| detach: "v_file v = Some f \<Longrightarrow> f_state f = Active \<Longrightarrow>
     vstep v (v\<lparr>v_file := Some (f\<lparr>f_state := Deleted, f_deleted_at := Some now, f_recovery_after := t\<rparr>)\<rparr>)"
| touch_file: "v_file v = Some f \<Longrightarrow> vstep v (v\<lparr>v_file := Some (f\<lparr>f_recovery_after := t\<rparr>)\<rparr>)"
| touch_upload: "v_upload v = Some u \<Longrightarrow> vstep v (v\<lparr>v_upload := Some (u\<lparr>u_recovery_after := t\<rparr>)\<rparr>)"
| prune_leases: "v_upload v = None \<Longrightarrow> v_file v = Some f \<Longrightarrow> \<not> (f_state f = Reclaimed \<and> v_loc v \<noteq> None) \<Longrightarrow>
     (\<forall>l \<in> set (v_leases v). le_state l \<noteq> Issued) \<Longrightarrow>
     vstep v (v\<lparr>v_leases := [], v_parts := []\<rparr>)"
| prune_file: "v_file v = Some f \<Longrightarrow> f_state f \<in> {Deleted, Reclaimed} \<Longrightarrow> v_loc v = None \<Longrightarrow> v_leases v = [] \<Longrightarrow>
     v_upload v = None \<Longrightarrow> vstep v (v\<lparr>v_file := None\<rparr>)"

lemma set_settle: "set (settle st ls) = (\<lambda>l. if le_state l = Issued then l\<lparr>le_state := st\<rparr> else l) ` set ls"
  by (simp add: settle_def)

lemma ball_settle: "(\<forall>l \<in> set (settle st ls). P l) \<longleftrightarrow>
    (\<forall>l \<in> set ls. P (if le_state l = Issued then l\<lparr>le_state := st\<rparr> else l))"
  unfolding settle_def set_map by (rule ball_simps)

lemma settle_empty [simp]: "settle st ls = [] \<longleftrightarrow> ls = []" "length (settle st ls) = length ls"
  by (simp_all add: settle_def)

lemma settle_Issued [simp]: "settle Issued ls = ls"
  by (induction ls) (auto simp: settle_def)

lemmas view_defs = view_ok_def lease_ok_def upload_ok_def file_history_ok_def file_check_def

section \<open>Every move keeps the invariant\<close>

lemma touch_upload_ok [simp]:
  "upload_ok f (u\<lparr>u_recovery_after := t\<rparr>) = upload_ok f u"
  "lease_ok f (Some (u\<lparr>u_recovery_after := t\<rparr>)) ls = lease_ok f (Some u) ls"
  by (cases "u_protocol u"; simp add: upload_ok_def upload_check_def lease_ok_def)+

theorem vstep_keeps_view_ok:
  assumes "vstep v v'" "view_ok v"
  shows "view_ok v'"
  using assms
proof (induction rule: vstep.induct)
  case (create v f l up loc)
  then show ?case by (cases up) (auto simp: view_ok_def lease_ok_def)
next
  case (touch_lease g v)
  have st: "le_state (g l) = le_state l" for l
    using touch_lease(1) by blast
  show ?case
  proof (cases "v_file v")
    case None
    with touch_lease(2) show ?thesis by (simp add: view_ok_def)
  next
    case (Some f)
    with touch_lease(2) show ?thesis by (simp add: view_ok_def lease_ok_def st)
  qed
next
  case (touch_parts v ps)
  show ?case
  proof (cases "v_file v")
    case None
    with touch_parts(4) have "v_leases v = []" by (simp add: view_ok_def)
    with touch_parts(2) have "ps = []" by blast
    with None touch_parts(4) show ?thesis by (simp add: view_ok_def)
  next
    case (Some f)
    with touch_parts(1,4) show ?thesis using touch_parts(2,3) by (simp add: view_ok_def)
  qed
next
  case (touch_upload v u t)
  then show ?case by (cases "v_file v") (simp_all add: view_ok_def)
next
  case (prune_leases v f)
  then show ?case by (cases "v_leases v") (auto simp add: view_ok_def lease_ok_def)
next
  case (own v f u)
  then show ?case by (simp add: view_ok_def lease_ok_def)
next
  case (reopen v f up)
  show ?case
  proof (cases up)
    case None
    with reopen show ?thesis by (simp add: view_ok_def lease_ok_def)
  next
    case (Some u)
    with reopen(3) have "upload_ok f u" "u_state u = Open" by blast+
    with Some reopen(1,2,4,5) show ?thesis by (simp add: view_ok_def lease_ok_def)
  qed
next
  case (clean v f u st)
  then have "f_state f = Pending" by (simp add: upload_ok_def)
  with clean show ?case
    by (elim disjE) (simp_all add: view_ok_def lease_ok_def ball_settle, blast+)
next
  case (activate v f sz t now)
  then show ?case by (auto simp: view_ok_def lease_ok_def ball_settle file_history_ok_def file_check_def)
next
  case (reclaim_keep v f t)
  then show ?case by (auto simp: view_ok_def lease_ok_def ball_settle file_history_ok_def file_check_def)
next
  case (reclaim_drop v f)
  then show ?case by (auto simp: view_ok_def lease_ok_def ball_settle file_history_ok_def file_check_def)
next
  case (drop_location v f)
  then show ?case by (auto simp: view_ok_def)
next
  case (detach v f now t)
  then show ?case by (auto simp: view_ok_def lease_ok_def file_history_ok_def file_check_def upload_ok_def)
next
  case (touch_file v f t)
  then show ?case by (simp add: view_ok_def lease_ok_def file_history_ok_def file_check_def upload_ok_def)
next
  case (prune_file v f)
  then show ?case by (simp add: view_ok_def lease_ok_def)
qed

section \<open>What every move leaves alone\<close>

definition fixed_columns :: "file_row \<Rightarrow> file_row \<Rightarrow> bool" where
  "fixed_columns f f' \<longleftrightarrow> f_id f' = f_id f \<and> f_client f' = f_client f \<and>
     f_content_type f' = f_content_type f \<and> f_declared_md5 f' = f_declared_md5 f \<and>
     f_part_size f' = f_part_size f \<and> f_created_at f' = f_created_at f"

definition settled :: "file_row \<Rightarrow> bool" where
  "settled f \<longleftrightarrow> f_state f \<in> {Active, Deleted}"

lemma vstep_fixed_columns:
  "vstep v v' \<Longrightarrow> v_file v = Some f \<Longrightarrow> v_file v' = Some f' \<Longrightarrow> fixed_columns f f'"
  by (induction rule: vstep.induct) (auto simp: fixed_columns_def)

lemma vstep_settled:
  "vstep v v' \<Longrightarrow> v_file v = Some f \<Longrightarrow> settled f \<Longrightarrow> v_file v' = Some f' \<Longrightarrow>
     settled f' \<and> f_etag f' = f_etag f \<and> f_declared_size f' = f_declared_size f \<and>
     f_committed_at f' = f_committed_at f \<and> (f_state f = Deleted \<longrightarrow> f_state f' = Deleted)"
  by (induction rule: vstep.induct) (auto simp: settled_def)

lemma vstep_location:
  "vstep v v' \<Longrightarrow> v_file v \<noteq> None \<Longrightarrow> v_loc v' = v_loc v \<or> v_loc v' = None"
  by (induction rule: vstep.induct) auto

lemma vstep_ledger_frozen:
  "vstep v v' \<Longrightarrow> v_file v \<noteq> None \<Longrightarrow> completing (v_upload v) \<Longrightarrow> completing (v_upload v') \<Longrightarrow> v_parts v' = v_parts v"
  by (induction rule: vstep.induct) auto

section \<open>The abstract life cycle\<close>

datatype phase = Absent | Uploading | Completion | Cleanup | Live | Detached | Gone

definition phase :: "file_view \<Rightarrow> phase" where
  "phase v = (case v_file v of
       None \<Rightarrow> Absent
     | Some f \<Rightarrow> (case f_state f of
           Pending \<Rightarrow> if completing (v_upload v) then Completion
                      else if cleaning (v_upload v) then Cleanup else Uploading
         | Active \<Rightarrow> Live
         | Deleted \<Rightarrow> Detached
         | Reclaimed \<Rightarrow> Gone))"

inductive phase_step :: "phase \<Rightarrow> phase \<Rightarrow> bool" where
  "phase_step Absent Uploading"
| "phase_step Uploading Completion"
| "phase_step Completion Uploading"
| "phase_step Uploading Cleanup"
| "phase_step Completion Cleanup"
| "phase_step Uploading Live"
| "phase_step Completion Live"
| "phase_step Uploading Gone"
| "phase_step Cleanup Gone"
| "phase_step Live Detached"
| "phase_step Detached Absent"
| "phase_step Gone Absent"

inductive_simps phase_step_simps [simp]:
  "phase_step Absent q" "phase_step Uploading q" "phase_step Completion q" "phase_step Cleanup q"
  "phase_step Live q" "phase_step Detached q" "phase_step Gone q"

lemma not_cleaning_Open: "u_state u = Open \<Longrightarrow> \<not> cleaning (Some u) \<and> \<not> completing (Some u)"
  by simp


section \<open>Database changes as moves\<close>

definition sim :: "db \<Rightarrow> db \<Rightarrow> bool" where
  "sim d d' \<longleftrightarrow> (\<forall>i. vstep\<^sup>*\<^sup>* (view d i) (view d' i))"

lemma sim_refl [simp]: "sim d d"
  by (simp add: sim_def)

lemma sim_trans: "sim d d' \<Longrightarrow> sim d' d'' \<Longrightarrow> sim d d''"
  unfolding sim_def by (meson rtranclp_trans)

lemma sim_same_view: "(\<And>i. view d' i = view d i) \<Longrightarrow> sim d d'"
  by (simp add: sim_def)

lemma sim_at:
  assumes "vstep (view d i) (view d' i) \<or> view d' i = view d i" "\<And>j. j \<noteq> i \<Longrightarrow> view d' j = view d j"
  shows "sim d d'"
  unfolding sim_def
proof
  fix j
  show "vstep\<^sup>*\<^sup>* (view d j) (view d' j)"
    using assms by (cases "j = i") auto
qed

lemma sim_pointwise: "(\<And>i. vstep (view d i) (view d' i) \<or> view d' i = view d i) \<Longrightarrow> sim d d'"
  unfolding sim_def by (metis r_into_rtranclp rtranclp.rtrancl_refl)

lemma vsteps_keep_view_ok: "vstep\<^sup>*\<^sup>* v v' \<Longrightarrow> view_ok v \<Longrightarrow> view_ok v'"
proof (induction rule: rtranclp_induct)
  case (step v1 v2)
  then show ?case using vstep_keeps_view_ok by blast
qed

definition db_ok :: "db \<Rightarrow> bool" where
  "db_ok d \<longleftrightarrow> schema_ok d \<and> (\<forall>i. view_ok (view d i))"

lemma db_ok_sim: "db_ok d \<Longrightarrow> sim d d' \<Longrightarrow> schema_ok d' \<Longrightarrow> db_ok d'"
  unfolding db_ok_def sim_def using vsteps_keep_view_ok by blast


end
