(* ===== verification/Tables.thy ===== *)
theory Tables
  imports Lifecycle
begin

text \<open>
  How the table statements act on the view of a file and on the keys: the rewrite rules with
  which every transaction is proved to be a move of the life cycle. \<open>transaction\<close> is the
  contract of a database operation: it keeps the keys, it is a move, and a failed one changes
  nothing.
\<close>

section \<open>Rows by key\<close>

lemma find_map_key:
  assumes "\<And>r. k (h r) = k r"
  shows "find (\<lambda>r. k r = j) (map h rows) = map_option h (find (\<lambda>r. k r = j) rows)"
  using assms by (induction rows) auto

lemma find_update_where [table_simps]:
  assumes "\<And>r. p r \<Longrightarrow> k (u r) = k r"
  shows "find (\<lambda>r. k r = j) (update_where p u rows) =
    map_option (\<lambda>r. if p r then u r else r) (find (\<lambda>r. k r = j) rows)"
  unfolding update_where_def by (rule find_map_key) (simp add: assms)

lemma find_delete_where:
  assumes "distinct (map k rows)"
  shows "find (\<lambda>r. k r = j) (delete_where p rows) =
    (case find (\<lambda>r. k r = j) rows of None \<Rightarrow> None | Some r \<Rightarrow> if p r then None else Some r)"
  using assms unfolding delete_where_def
proof (induction rows)
  case (Cons x xs)
  show ?case
  proof (cases "k x = j \<and> p x")
    case True
    with Cons.prems have "find (\<lambda>r. k r = j) (filter (\<lambda>r. \<not> p r) xs) = None"
      by (auto simp: find_None_iff) (metis imageI)
    with True show ?thesis by simp
  next
    case False
    with Cons show ?thesis by auto
  qed
qed simp

lemma find_append_row [table_simps]:
  "find P (rows @ [r]) = (case find P rows of None \<Rightarrow> if P r then Some r else None | Some x \<Rightarrow> Some x)"
  by (induction rows) auto

lemma find_append: "find P (xs @ ys) = (case find P xs of None \<Rightarrow> find P ys | Some x \<Rightarrow> Some x)"
  by (induction xs) auto

lemma find_never [simp]: "find (\<lambda>r. False) rows = None"
  by (induction rows) auto

lemma find_fresh: "j \<notin> k ` set rows \<Longrightarrow> find (\<lambda>r. k r = j) rows = None"
  by (induction rows) auto

lemma find_key:
  "find (\<lambda>r. k r = j) rows = Some r \<Longrightarrow> k r = j"
  by (auto simp: find_Some_iff)

lemma row_found:
  assumes "distinct (map k rows)" "r \<in> set rows"
  shows "find (\<lambda>x. k x = k r) rows = Some r"
proof -
  have "find (\<lambda>x. k x = k r) rows \<noteq> None" using assms(2) by (auto simp: find_None_iff)
  then obtain x where x: "find (\<lambda>x. k x = k r) rows = Some x" by blast
  with find_where_Some [OF x] key_unique [OF assms(1) _ assms(2)] show ?thesis by auto
qed

lemma exists_key [table_simps]:
  "exists_where (\<lambda>r. k r = j) rows \<longleftrightarrow> find (\<lambda>r. k r = j) rows \<noteq> None"
  by (auto simp: exists_where_iff find_None_iff)

lemma exists_by_key:
  assumes "distinct (map k rows)"
  shows "(\<exists>r \<in> set rows. k r = j \<and> p r) \<longleftrightarrow>
    (case find (\<lambda>r. k r = j) rows of None \<Rightarrow> False | Some r \<Rightarrow> p r)"
proof (cases "find (\<lambda>r. k r = j) rows")
  case None
  then have "\<forall>r \<in> set rows. k r \<noteq> j" by (auto simp: find_None_iff)
  with None show ?thesis by simp
next
  case (Some r)
  then have "r \<in> set rows" "k r = j" by (auto simp: find_Some_iff)
  then show ?thesis using Some key_unique [OF assms] by auto
qed

lemma count_by_key:
  assumes "distinct (map k rows)"
  shows "count_where (\<lambda>r. k r = j \<and> p r) rows = 0 \<longleftrightarrow>
    (case find (\<lambda>r. k r = j) rows of None \<Rightarrow> True | Some r \<Rightarrow> \<not> p r)"
  using exists_by_key [OF assms, of j p] by (auto simp: count_where_0 split: option.splits)

lemma filter_update_where:
  assumes "\<And>r. p r \<Longrightarrow> q (u r) = q r"
  shows "filter q (update_where p u rows) = update_where p u (filter q rows)"
  using assms unfolding update_where_def by (induction rows) auto

lemma in_update_where:
  assumes "x \<in> set (update_where p u rows)"
  obtains r where "r \<in> set rows" "x = (if p r then u r else r)"
  using assms unfolding set_update_where by (elim imageE) (rule that; assumption)

lemma filter_outside:
  "(\<And>r. p r \<Longrightarrow> \<not> q r \<and> \<not> q (u r)) \<Longrightarrow> filter q (update_where p u rows) = filter q rows"
  unfolding update_where_def by (induction rows) auto

lemma filter_delete_outside:
  "(\<And>r. p r \<Longrightarrow> \<not> q r) \<Longrightarrow> filter q (delete_where p rows) = filter q rows"
  unfolding delete_where_def by (induction rows) auto

lemma update_where_id:
  "(\<And>r. r \<in> set rows \<Longrightarrow> \<not> p r) \<Longrightarrow> update_where p u rows = rows"
  by (rule update_where_none)

lemma find_by_key:
  assumes "distinct (map k rows)"
  shows "find (\<lambda>r. k r = j \<and> q r) rows =
    (case find (\<lambda>r. k r = j) rows of None \<Rightarrow> None | Some r \<Rightarrow> if q r then Some r else None)"
  using assms
proof (induction rows)
  case (Cons x xs)
  have "find (\<lambda>r. k r = j \<and> q r) xs = None" if "k x = j"
    using Cons.prems that by (auto simp: find_None_iff) (metis imageI)
  with Cons show ?case by auto
qed simp

lemma foreign_key:
  assumes "a ` X \<subseteq> b ` Y" "x \<in> X"
  obtains y where "y \<in> Y" "b y = a x"
proof -
  from assms have "a x \<in> b ` Y" by blast
  then show thesis using that by (auto elim: imageE)
qed

section \<open>Views of changed tables\<close>

lemma view_updates:
  "view (d\<lparr>files := F\<rparr>) j = (view d j)\<lparr>v_file := find (\<lambda>f. f_id f = j) F\<rparr>"
  "view (d\<lparr>locations := L\<rparr>) j = (view d j)\<lparr>v_loc := find (\<lambda>l. l_file l = j) L\<rparr>"
  "view (d\<lparr>uploads := U\<rparr>) j = (view d j)\<lparr>v_upload := find (\<lambda>u. u_file u = j) U\<rparr>"
  "view (d\<lparr>object_keys := K\<rparr>) j = view d j"
  "view (d\<lparr>lease_history := H\<rparr>) j = view d j"
  "view (d\<lparr>row_locks := R\<rparr>) j = view d j"
  "view (d\<lparr>lease_parts := P\<rparr>) j = (view d j)\<lparr>v_parts := parts_of (write_leases d j) P\<rparr>"
  by (simp_all add: view_def write_leases_def)

lemmas view_untouched [at_file_simps] = view_updates(4-6)

lemma parts_of_cong: "map le_id ls = map le_id ls' \<Longrightarrow> parts_of ls ps = parts_of ls' ps"
proof -
  assume "map le_id ls = map le_id ls'"
  then have "le_id ` set ls = le_id ` set ls'" by (metis list.set_map)
  then have "(\<exists>l \<in> set ls. le_id l = x) \<longleftrightarrow> (\<exists>l \<in> set ls'. le_id l = x)" for x
    by (metis (mono_tags, lifting) imageE imageI)
  then show ?thesis by (simp add: parts_of_def exists_where_iff)
qed

lemma write_leases_fields [simp]:
  "write_leases (d\<lparr>files := F\<rparr>) j = write_leases d j"
  "write_leases (d\<lparr>locations := L\<rparr>) j = write_leases d j"
  "write_leases (d\<lparr>uploads := U\<rparr>) j = write_leases d j"
  "write_leases (d\<lparr>object_keys := K\<rparr>) j = write_leases d j"
  "write_leases (d\<lparr>lease_history := H\<rparr>) j = write_leases d j"
  "write_leases (d\<lparr>row_locks := R\<rparr>) j = write_leases d j"
  "write_leases (d\<lparr>lease_parts := P\<rparr>) j = write_leases d j"
  by (simp_all add: write_leases_def)

text \<open>An update of lease rows that keeps their identity acts on the write leases of each file.\<close>

lemma view_update_leases:
  assumes "\<And>l. p l \<Longrightarrow> le_id (u l) = le_id l \<and> le_file (u l) = le_file l \<and> le_kind (u l) = le_kind l"
  shows "view (d\<lparr>leases := update_where p u (leases d)\<rparr>) j =
    (view d j)\<lparr>v_leases := update_where p u (write_leases d j)\<rparr>"
proof -
  have w: "filter (\<lambda>l. le_file l = j \<and> le_kind l = Write) (update_where p u (leases d)) =
      update_where p u (write_leases d j)"
    unfolding write_leases_def by (rule filter_update_where) (use assms in auto)
  have "map le_id (update_where p u (write_leases d j)) = map le_id (write_leases d j)"
    by (rule map_update_where) (use assms in auto)
  then have "parts_of (update_where p u (write_leases d j)) (lease_parts d) = parts_of (write_leases d j) (lease_parts d)"
    by (rule parts_of_cong)
  then show ?thesis by (simp add: view_def write_leases_def w [unfolded write_leases_def])
qed

lemma in_write_leases: "l \<in> set (write_leases d j) \<longleftrightarrow> l \<in> set (leases d) \<and> le_file l = j \<and> le_kind l = Write"
  by (auto simp: write_leases_def)

lemma settle_write_leases:
  "update_where (issued_write i) (\<lambda>l. l\<lparr>le_state := st\<rparr>) (write_leases d j) =
    (if j = i then settle st (write_leases d j) else write_leases d j)"
proof (cases "j = i")
  case True
  have "(\<lambda>l. if issued_write i l then l\<lparr>le_state := st\<rparr> else l) l = (\<lambda>l. if le_state l = Issued then l\<lparr>le_state := st\<rparr> else l) l"
    if "l \<in> set (write_leases d j)" for l
    using that True by (auto simp: in_write_leases issued_write_def)
  with True show ?thesis by (simp add: update_where_def settle_def)
next
  case False
  have "update_where (issued_write i) (\<lambda>l. l\<lparr>le_state := st\<rparr>) (write_leases d j) = write_leases d j"
    by (rule update_where_none) (use False in \<open>auto simp: in_write_leases issued_write_def\<close>)
  with False show ?thesis by simp
qed

lemma view_settle_write [at_file_simps]:
  "L = leases d \<Longrightarrow> view (d\<lparr>leases := settle_write st i L\<rparr>) j =
    (if j = i then (view d i)\<lparr>v_leases := settle st (write_leases d i)\<rparr> else view d j)"
proof -
  assume L: "L = leases d"
  have "view (d\<lparr>leases := settle_write st i (leases d)\<rparr>) j =
      (view d j)\<lparr>v_leases := update_where (issued_write i) (\<lambda>l. l\<lparr>le_state := st\<rparr>) (write_leases d j)\<rparr>"
    unfolding settle_write_def by (rule view_update_leases) simp
  also have "\<dots> = (if j = i then (view d i)\<lparr>v_leases := settle st (write_leases d i)\<rparr> else view d j)"
    unfolding settle_write_leases by (simp add: view_def)
  finally show ?thesis using L by simp
qed

text \<open>Statements about one file, in the shape the sources give them.\<close>

lemma view_update_file [at_file_simps]:
  assumes "F = files d" "\<And>f. f_id (g f) = f_id f"
  shows "view (d\<lparr>files := update_where (\<lambda>f. f_id f = i \<and> q f) g F\<rparr>) j =
    (if j = i then (view d i)\<lparr>v_file := map_option (\<lambda>f. if q f then g f else f) (find (\<lambda>f. f_id f = i) (files d))\<rparr>
     else view d j)"
proof (cases "find (\<lambda>f. f_id f = j) (files d)")
  case None
  with assms show ?thesis by (cases "j = i") (simp_all add: view_updates find_update_where view_def)
next
  case (Some f)
  then have "f_id f = j" by (rule find_key)
  with Some assms show ?thesis by (auto simp: view_updates find_update_where view_def)
qed

lemma view_update_upload [at_file_simps]:
  assumes "U = uploads d" "\<And>u. u_file (g u) = u_file u"
  shows "view (d\<lparr>uploads := update_where (\<lambda>u. u_file u = i \<and> q u) g U\<rparr>) j =
    (if j = i then (view d i)\<lparr>v_upload := map_option (\<lambda>u. if q u then g u else u) (find (\<lambda>u. u_file u = i) (uploads d))\<rparr>
     else view d j)"
proof (cases "find (\<lambda>u. u_file u = j) (uploads d)")
  case None
  with assms show ?thesis by (cases "j = i") (simp_all add: view_updates find_update_where view_def)
next
  case (Some u)
  then have "u_file u = j" by (rule find_key)
  with Some assms show ?thesis by (auto simp: view_updates find_update_where view_def)
qed

lemma view_delete_upload [at_file_simps]:
  assumes "schema_ok d" "U = uploads d"
  shows "view (d\<lparr>uploads := delete_where (\<lambda>u. u_file u = i \<and> q u) U\<rparr>) j =
    (if j = i then (view d i)\<lparr>v_upload := (case find (\<lambda>u. u_file u = i) (uploads d) of None \<Rightarrow> None
        | Some u \<Rightarrow> if q u then None else Some u)\<rparr> else view d j)"
proof (cases "find (\<lambda>u. u_file u = j) (uploads d)")
  case None
  with assms show ?thesis by (cases "j = i") (simp_all add: view_updates find_delete_where schema_okD view_def)
next
  case (Some u)
  then have "u_file u = j" by (rule find_key)
  with Some assms show ?thesis by (auto simp: view_updates find_delete_where schema_okD view_def)
qed

lemma view_delete_location [at_file_simps]:
  assumes "schema_ok d" "L = locations d"
  shows "view (d\<lparr>locations := delete_where (\<lambda>l. l_file l = i \<and> q l) L\<rparr>) j =
    (if j = i then (view d i)\<lparr>v_loc := (case find (\<lambda>l. l_file l = i) (locations d) of None \<Rightarrow> None
        | Some l \<Rightarrow> if q l then None else Some l)\<rparr> else view d j)"
proof (cases "find (\<lambda>l. l_file l = j) (locations d)")
  case None
  with assms show ?thesis by (cases "j = i") (simp_all add: view_updates find_delete_where schema_okD view_def)
next
  case (Some l)
  then have "l_file l = j" by (rule find_key)
  with Some assms show ?thesis by (auto simp: view_updates find_delete_where schema_okD view_def)
qed

definition renew :: "timestamp \<Rightarrow> lease_row list \<Rightarrow> lease_row list" where
  "renew t ls = map (\<lambda>l. if le_state l = Issued then l\<lparr>le_expires_at := t\<rparr> else l) ls"

lemma vstep_renew: "vstep v (v\<lparr>v_leases := renew t (v_leases v)\<rparr>)"
  unfolding renew_def by (rule vstep.touch_lease) (simp add: same_identity_def)

lemma renew_states [simp]: "map le_state (renew t ls) = map le_state ls" "renew t ls = [] \<longleftrightarrow> ls = []"
  "(\<forall>l \<in> set (renew t ls). P (le_state l)) \<longleftrightarrow> (\<forall>l \<in> set ls. P (le_state l))"
proof -
  show m: "map le_state (renew t ls) = map le_state ls" by (simp add: renew_def)
  show "renew t ls = [] \<longleftrightarrow> ls = []" by (simp add: renew_def)
  have "(\<forall>s \<in> set (map le_state (renew t ls)). P s) \<longleftrightarrow> (\<forall>s \<in> set (map le_state ls). P s)"
    unfolding m ..
  then show "(\<forall>l \<in> set (renew t ls). P (le_state l)) \<longleftrightarrow> (\<forall>l \<in> set ls. P (le_state l))" by simp
qed

lemma view_renew_write [at_file_simps]:
  assumes "L = leases d"
  shows "view (d\<lparr>leases := renew_write t i L\<rparr>) j =
    (if j = i then (view d i)\<lparr>v_leases := renew t (write_leases d i)\<rparr> else view d j)"
proof -
  have "update_where (issued_write i) (\<lambda>l. l\<lparr>le_expires_at := t\<rparr>) (write_leases d j) =
      (if j = i then renew t (write_leases d j) else write_leases d j)"
    unfolding update_where_def renew_def by (auto simp: in_write_leases issued_write_def intro!: map_cong map_idI)
  note u = this
  have "view (d\<lparr>leases := renew_write t i (leases d)\<rparr>) j =
      (view d j)\<lparr>v_leases := update_where (issued_write i) (\<lambda>l. l\<lparr>le_expires_at := t\<rparr>) (write_leases d j)\<rparr>"
    unfolding renew_write_def by (rule view_update_leases) simp
  also have "\<dots> = (if j = i then (view d i)\<lparr>v_leases := renew t (write_leases d i)\<rparr> else view d j)"
    unfolding u by (simp add: view_def)
  finally show ?thesis using assms by simp
qed

text \<open>The upload row of a file.\<close>

lemma upload_exists: "schema_ok d \<Longrightarrow>
    exists_where (\<lambda>u. u_file u = i \<and> q u) (uploads d) \<longleftrightarrow> (\<exists>u. v_upload (view d i) = Some u \<and> q u)"
  using exists_by_key [OF schema_okD(5), of d i q] by (auto simp: exists_where_iff split: option.splits)

lemma upload_count: "schema_ok d \<Longrightarrow>
    count_where (\<lambda>u. u_file u = i \<and> q u) (uploads d) = 0 \<longleftrightarrow> \<not> (\<exists>u. v_upload (view d i) = Some u \<and> q u)"
  using count_by_key [OF schema_okD(5), of d i q] by (auto split: option.splits)

lemma view_insert_upload [at_file_simps]:
  assumes "U = uploads d" "find (\<lambda>v. u_file v = u_file u) (uploads d) = None"
  shows "view (d\<lparr>uploads := U @ [u]\<rparr>) j = (if j = u_file u then (view d j)\<lparr>v_upload := Some u\<rparr> else view d j)"
  using assms by (auto simp: view_updates find_append_row) (simp add: view_def split: option.splits)

lemma schema_insert_upload [at_file_simps]:
  assumes "schema_tables fs ls les ps us ks" "find (\<lambda>v. u_file v = u_file u) us = None" "u_file u \<in> f_id ` set fs"
  shows "schema_tables fs ls les ps (us @ [u]) ks"
  using assms by (auto simp: schema_tables_def find_where_None)

lemmas view_delete_all_uploads [at_file_simps] = view_delete_upload [where q = "\<lambda>_. True", simplified]
lemmas view_delete_all_locations [at_file_simps] = view_delete_location [where q = "\<lambda>_. True", simplified]

section \<open>Shared subqueries, on views\<close>

lemma has_upload_view [table_simps]: "has_upload d i \<longleftrightarrow> v_upload (view d i) \<noteq> None"
  by (simp add: has_upload_def exists_key)

lemma has_native_upload_view:
  "schema_ok d \<Longrightarrow> has_native_upload d i \<longleftrightarrow> (\<exists>u. v_upload (view d i) = Some u \<and> u_protocol u = Native)"
  using exists_by_key [of u_file "uploads d" i] schema_okD(5)
  by (auto simp: has_native_upload_def exists_where_iff split: option.splits)

lemma has_location_view [table_simps]: "has_location d i \<longleftrightarrow> v_loc (view d i) \<noteq> None"
  by (simp add: has_location_def exists_key)

lemma part_uploading_view [table_simps]:
  "part_uploading d i \<longleftrightarrow> (\<exists>p \<in> set (v_parts (view d i)). lp_state p = PartClaimed)"
  by (auto simp: part_uploading_def exists_where_iff parts_of_def write_leases_def)

lemma parts_all_done: "\<not> part_uploading d i \<Longrightarrow> p \<in> set (v_parts (view d i)) \<Longrightarrow> lp_state p = PartDone"
  unfolding part_uploading_view by (cases "lp_state p") auto

lemma v_file_id: "v_file (view d i) = Some f \<Longrightarrow> f_id f = i"
  unfolding view_simps by (rule find_key)

section \<open>Keys under updates\<close>

lemma schema_update_files [at_file_simps]:
  assumes "\<And>f. p f \<Longrightarrow> f_id (u f) = f_id f \<and> f_client (u f) = f_client f"
  shows "schema_tables (update_where p u fs) ls les ps us ks = schema_tables fs ls les ps us ks"
proof -
  have "map f_id (update_where p u fs) = map f_id fs"
    by (rule map_update_where) (simp add: assms)
  moreover have "map (\<lambda>f. (f_client f, f_id f)) (update_where p u fs) = map (\<lambda>f. (f_client f, f_id f)) fs"
    by (rule map_update_where) (simp add: assms)
  ultimately show ?thesis
    unfolding schema_tables_def set_map [symmetric] by simp
qed

lemma schema_update_leases [at_file_simps]:
  assumes "\<And>l. p l \<Longrightarrow> le_id (u l) = le_id l \<and> le_file (u l) = le_file l"
  shows "schema_tables fs ls (update_where p u les) ps us ks = schema_tables fs ls les ps us ks"
proof -
  have "map le_id (update_where p u les) = map le_id les"
    by (rule map_update_where) (simp add: assms)
  moreover have "map le_file (update_where p u les) = map le_file les"
    by (rule map_update_where) (simp add: assms)
  ultimately show ?thesis
    unfolding schema_tables_def set_map [symmetric] by simp
qed

lemma schema_update_parts [at_file_simps]:
  assumes "schema_tables fs ls les ps us ks"
    "\<And>p. q p \<Longrightarrow> lp_lease (u p) = lp_lease p \<and> lp_no (u p) = lp_no p"
    "\<And>p. q p \<Longrightarrow> part_check p \<Longrightarrow> part_check (u p)"
  shows "schema_tables fs ls les (update_where q u ps) us ks"
proof -
  have "map (\<lambda>p. (lp_lease p, lp_no p)) (update_where q u ps) = map (\<lambda>p. (lp_lease p, lp_no p)) ps"
    by (rule map_update_where) (simp add: assms)
  moreover have "map lp_lease (update_where q u ps) = map lp_lease ps"
    by (rule map_update_where) (simp add: assms)
  moreover have "\<forall>p \<in> set (update_where q u ps). part_check p"
    using assms(1,3) by (auto simp: set_update_where schema_tables_def)
  ultimately show ?thesis
    using assms(1) unfolding schema_tables_def set_map [symmetric] by simp
qed

lemma schema_update_uploads [at_file_simps]:
  assumes "\<And>u. q u \<Longrightarrow> u_file (g u) = u_file u"
  shows "schema_tables fs ls les ps (update_where q g us) ks = schema_tables fs ls les ps us ks"
proof -
  have "map u_file (update_where q g us) = map u_file us"
    by (rule map_update_where) (simp add: assms)
  then show ?thesis
    unfolding schema_tables_def set_map [symmetric] by simp
qed

lemma schema_settle_write [at_file_simps]:
  "schema_tables fs ls (settle_write st i les) ps us ks = schema_tables fs ls les ps us ks"
  "schema_tables fs ls (renew_write t i les) ps us ks = schema_tables fs ls les ps us ks"
  by (simp_all add: settle_write_def renew_write_def schema_update_leases)

lemma delete_where_subset: "set (delete_where p rows) \<subseteq> set rows"
  by (auto simp: table_simps)

lemma image_delete_where: "f ` set rows \<subseteq> A \<Longrightarrow> f ` set (delete_where p rows) \<subseteq> A"
  using delete_where_subset by fastforce

lemma schema_delete_locations [at_file_simps]:
  "schema_tables fs ls les ps us ks \<Longrightarrow> schema_tables fs (delete_where p ls) les ps us ks"
  unfolding schema_tables_def
  by (elim conjE, intro conjI; (assumption | rule map_delete_where_distinct | rule image_delete_where)+)

lemma schema_delete_parts [at_file_simps]:
  assumes "schema_tables fs ls les ps us ks"
  shows "schema_tables fs ls les (delete_where p ps) us ks"
proof -
  have "lp_lease ` set (delete_where p ps) \<subseteq> le_id ` set les"
    using assms by (intro image_delete_where) (simp add: schema_tables_def)
  moreover have "\<forall>x \<in> set (delete_where p ps). part_check x"
    using assms by (simp add: schema_tables_def set_delete_where)
  ultimately show ?thesis
    using assms by (simp add: schema_tables_def map_delete_where_distinct)
qed

lemma schema_delete_uploads [at_file_simps]:
  "schema_tables fs ls les ps us ks \<Longrightarrow> schema_tables fs ls les ps (delete_where p us) ks"
  unfolding schema_tables_def
  by (elim conjE, intro conjI; (assumption | rule map_delete_where_distinct | rule image_delete_where)+)

lemma schema_delete_keys [at_file_simps]:
  "schema_tables fs ls les ps us ks \<Longrightarrow> schema_tables fs ls les ps us (delete_where p ks)"
  unfolding schema_tables_def
  by (elim conjE, intro conjI; (assumption | rule map_delete_where_distinct | rule image_delete_where)+)

text \<open>A change at one file: what its rows become, and that no other file's rows change.\<close>

definition at_file :: "db \<Rightarrow> uuid \<Rightarrow> file_view \<Rightarrow> db \<Rightarrow> bool" where
  "at_file d i v d' \<longleftrightarrow> schema_ok d' \<and> view d' i = v \<and> (\<forall>j. j \<noteq> i \<longrightarrow> view d' j = view d j)"

lemma at_file_move: "at_file d i v d' \<Longrightarrow> vstep (view d i) v \<Longrightarrow> sim d d' \<and> schema_ok d'"
  unfolding at_file_def by (auto intro!: sim_at [where i = i])

lemma at_file_moves: "at_file d i v d' \<Longrightarrow> vstep\<^sup>*\<^sup>* (view d i) v \<Longrightarrow> sim d d' \<and> schema_ok d'"
  unfolding at_file_def sim_def by (metis rtranclp.rtrancl_refl)

lemma at_fileD: "at_file d i v d' \<Longrightarrow> schema_ok d'" "at_file d i v d' \<Longrightarrow> view d' i = v"
  "at_file d i v d' \<Longrightarrow> j \<noteq> i \<Longrightarrow> view d' j = view d j"
  by (auto simp: at_file_def)

lemma at_file_fields:
  assumes "at_file d i v d'"
  shows "find (\<lambda>f. f_id f = i) (files d') = v_file v" "find (\<lambda>l. l_file l = i) (locations d') = v_loc v"
    "write_leases d' i = v_leases v" "parts_of (write_leases d' i) (lease_parts d') = v_parts v"
    "find (\<lambda>u. u_file u = i) (uploads d') = v_upload v"
  using assms by (auto simp: at_file_def view_def)

lemma schema_ok_updates [at_file_simps]:
  "schema_ok (d\<lparr>files := F\<rparr>) = schema_tables F (locations d) (leases d) (lease_parts d) (uploads d) (object_keys d)"
  "schema_ok (d\<lparr>locations := L\<rparr>) = schema_tables (files d) L (leases d) (lease_parts d) (uploads d) (object_keys d)"
  "schema_ok (d\<lparr>leases := Le\<rparr>) = schema_tables (files d) (locations d) Le (lease_parts d) (uploads d) (object_keys d)"
  "schema_ok (d\<lparr>lease_parts := P\<rparr>) = schema_tables (files d) (locations d) (leases d) P (uploads d) (object_keys d)"
  "schema_ok (d\<lparr>uploads := U\<rparr>) = schema_tables (files d) (locations d) (leases d) (lease_parts d) U (object_keys d)"
  "schema_ok (d\<lparr>object_keys := K\<rparr>) = schema_tables (files d) (locations d) (leases d) (lease_parts d) (uploads d) K"
  "schema_ok (d\<lparr>lease_history := H\<rparr>) = schema_ok d"
  "schema_ok (d\<lparr>row_locks := R\<rparr>) = schema_ok d"
  by (simp_all add: schema_ok_def)

lemma schema_of_ok [at_file_simps]: "schema_ok d \<Longrightarrow>
    schema_tables (files d) (locations d) (leases d) (lease_parts d) (uploads d) (object_keys d)"
  by (simp add: schema_ok_def)

text \<open>A conditional update of one file either affects no row or the file's only row.\<close>

lemma file_hit_cases:
  assumes "schema_ok d"
  obtains (no_row) "count_where (\<lambda>f. f_id f = i \<and> q f) (files d) = 0"
      "\<And>f. find (\<lambda>f. f_id f = i) (files d) = Some f \<Longrightarrow> \<not> q f"
      "\<And>f. f \<in> set (files d) \<Longrightarrow> f_id f = i \<Longrightarrow> \<not> q f"
  | (one_row) f where "count_where (\<lambda>f. f_id f = i \<and> q f) (files d) = 1"
      "find (\<lambda>f. f_id f = i) (files d) = Some f" "q f" "f \<in> set (files d)" "f_id f = i"
proof (cases "count_where (\<lambda>f. f_id f = i \<and> q f) (files d) = 0")
  case True
  then show thesis
    by (intro no_row) (auto simp: count_where_0 dest: find_where_Some)
next
  case False
  then obtain f where f: "find (\<lambda>f. f_id f = i) (files d) = Some f" "q f"
    using count_by_key [OF schema_okD(1) [OF assms], of i q] by (auto split: option.splits)
  have "count_where (\<lambda>f. f_id f = i \<and> q f) (files d) = 1"
    using False count_by_key_le_1 [OF schema_okD(1) [OF assms], of i q] by simp
  then show thesis using f find_where_Some [OF f(1)] by (intro one_row) auto
qed

lemma issued_count: "count_where (issued_write i) (leases d) = 0 \<longleftrightarrow> (\<forall>l \<in> set (write_leases d i). le_state l \<noteq> Issued)"
  by (auto simp: count_where_0 in_write_leases issued_write_def)

text \<open>The write lease of a file is unique in a well-formed database.\<close>

lemma write_lease_unique:
  assumes "view_ok (view d i)" "l \<in> set (write_leases d i)"
  shows "write_leases d i = [l]"
proof -
  have "length (write_leases d i) \<le> 1"
    using assms by (cases "find (\<lambda>f. f_id f = i) (files d)") (auto simp: view_ok_def lease_ok_def)
  with assms(2) show ?thesis by (cases "write_leases d i") auto
qed

section \<open>Changes that are moves by their shape\<close>

lemma sim_touch_leases:
  assumes "\<And>l. p l \<Longrightarrow> same_identity l (u l) \<and> le_state (u l) = le_state l"
  shows "sim d (d\<lparr>leases := update_where p u (leases d)\<rparr>)"
proof (rule sim_pointwise)
  fix i
  have "view (d\<lparr>leases := update_where p u (leases d)\<rparr>) i =
      (view d i)\<lparr>v_leases := map (\<lambda>l. if p l then u l else l) (v_leases (view d i))\<rparr>"
    using assms by (subst view_update_leases) (auto simp: same_identity_def update_where_def)
  moreover have "vstep (view d i) ((view d i)\<lparr>v_leases := map (\<lambda>l. if p l then u l else l) (v_leases (view d i))\<rparr>)"
    by (rule vstep.touch_lease) (use assms in \<open>auto simp: same_identity_def\<close>)
  ultimately show "vstep (view d i) (view (d\<lparr>leases := update_where p u (leases d)\<rparr>) i) \<or>
      view (d\<lparr>leases := update_where p u (leases d)\<rparr>) i = view d i"
    by simp
qed

lemma schema_touch_leases:
  assumes "schema_ok d" "\<And>l. p l \<Longrightarrow> same_identity l (u l)"
  shows "schema_ok (d\<lparr>leases := update_where p u (leases d)\<rparr>)"
  using assms by (simp add: at_file_simps same_identity_def)

lemma sim_trans_same_view: "sim d d' \<Longrightarrow> (\<And>i. view d'' i = view d' i) \<Longrightarrow> sim d d''"
  by (meson sim_same_view sim_trans)

text \<open>Changes of part rows of one lease.\<close>

lemma parts_of_other_lease:
  assumes "filter (\<lambda>p. lp_lease p \<noteq> lease) P = filter (\<lambda>p. lp_lease p \<noteq> lease) ps" "lease \<notin> le_id ` set ls"
  shows "parts_of ls P = parts_of ls ps"
proof -
  have r: "parts_of ls ps = filter (\<lambda>p. exists_where (\<lambda>l. le_id l = lp_lease p) ls) (filter (\<lambda>p. lp_lease p \<noteq> lease) ps)" for ps
    using assms(2) unfolding parts_of_def filter_filter
    by (intro filter_cong refl) (auto simp: exists_where_iff image_iff)
  show ?thesis unfolding r [of P] r [of ps] assms(1) ..
qed

lemma sim_lease_parts:
  assumes ok: "schema_ok d" and l: "l \<in> set (leases d)" "le_id l = lease"
    and open_ledger: "le_kind l = Write \<Longrightarrow> \<not> completing (v_upload (view d (le_file l)))"
    and multipart: "\<And>f. le_kind l = Write \<Longrightarrow> v_file (view d (le_file l)) = Some f \<Longrightarrow> f_part_size f \<noteq> None"
    and P: "filter (\<lambda>p. lp_lease p \<noteq> lease) P = filter (\<lambda>p. lp_lease p \<noteq> lease) (lease_parts d)"
  shows "sim d (d\<lparr>lease_parts := P\<rparr>)"
proof (rule sim_pointwise)
  fix j
  let ?d = "d\<lparr>lease_parts := P\<rparr>"
  have v: "view ?d j = (view d j)\<lparr>v_parts := parts_of (write_leases d j) P\<rparr>"
    by (simp add: view_updates)
  show "vstep (view d j) (view ?d j) \<or> view ?d j = view d j"
  proof (cases "lease \<in> le_id ` set (write_leases d j)")
    case True
    then obtain m where m: "m \<in> set (leases d)" "le_file m = j" "le_kind m = Write" "le_id m = lease"
      by (auto simp: in_write_leases)
    then have "m = l" using l key_unique [OF schema_okD(3) [OF ok]] by metis
    with m open_ledger have "vstep (view d j) ((view d j)\<lparr>v_parts := parts_of (write_leases d j) P\<rparr>)"
      using multipart by (intro vstep.touch_parts) (auto simp: parts_of_def exists_where_def)
    then show ?thesis unfolding v by (rule disjI1)
  next
    case False
    have "(view d j)\<lparr>v_parts := parts_of (write_leases d j) P\<rparr> = view d j"
      unfolding parts_of_other_lease [OF P False] by (simp add: view_def)
    then show ?thesis unfolding v by (rule disjI2)
  qed
qed

section \<open>The contract of a database operation\<close>

locale transaction =
  fixes op :: "(db, db_error, 'a) eff"
  assumes simulates: "db_ok d \<Longrightarrow> op d = (r, d') \<Longrightarrow> sim d d'"
    and keeps_schema: "db_ok d \<Longrightarrow> op d = (r, d') \<Longrightarrow> schema_ok d'"
    and failed: "op d = (Inl e, d') \<Longrightarrow> d'\<lparr>row_locks := row_locks d\<rparr> = d"
begin

lemma keeps_db_ok: "db_ok d \<Longrightarrow> op d = (r, d') \<Longrightarrow> db_ok d'"
proof -
  assume a: "db_ok d" "op d = (r, d')"
  show "db_ok d'"
    by (rule db_ok_sim [OF a(1) simulates [OF a] keeps_schema [OF a]])
qed

lemma keeps_view_ok: "db_ok d \<Longrightarrow> op d = (r, d') \<Longrightarrow> view_ok (view d' i)"
  by (drule (1) keeps_db_ok) (simp add: db_ok_def)

end

lemma db_okD: "db_ok d \<Longrightarrow> schema_ok d" "db_ok d \<Longrightarrow> view_ok (view d i)"
  by (simp_all add: db_ok_def)

text \<open>An operation behind a guard that answers without touching the database.\<close>

lemma guarded_transaction:
  assumes "transaction op" "\<And>d. op' d = (if \<not> g d then (x, d) else op d)"
  shows "transaction op'"
proof
  fix d r d'
  assume a: "db_ok d" "op' d = (r, d')"
  then show "sim d d'" "schema_ok d'"
    using transaction.simulates [OF assms(1) a(1)] transaction.keeps_schema [OF assms(1) a(1)]
    by (auto simp: assms(2) db_okD split: if_splits)
next
  fix d e d'
  assume "op' d = (Inl e, d')"
  then show "d'\<lparr>row_locks := row_locks d\<rparr> = d"
    using transaction.failed [OF assms(1)] by (auto simp: assms(2) split: if_splits)
qed

section \<open>Operations that only renew leases\<close>

definition lease_touch :: "db \<Rightarrow> db \<Rightarrow> bool" where
  "lease_touch d d' \<longleftrightarrow> (\<exists>p u. (\<forall>l. p l \<longrightarrow> same_identity l (u l) \<and> le_state (u l) = le_state l) \<and>
     d' = d\<lparr>leases := update_where p u (leases d)\<rparr>)"

lemma lease_touchI:
  "(\<And>l. p l \<Longrightarrow> same_identity l (u l) \<and> le_state (u l) = le_state l) \<Longrightarrow>
    lease_touch d (d\<lparr>leases := update_where p u (leases d)\<rparr>)"
  unfolding lease_touch_def by blast

lemma lease_touch_ok: "db_ok d \<Longrightarrow> lease_touch d d' \<Longrightarrow> sim d d' \<and> schema_ok d'"
  unfolding lease_touch_def using sim_touch_leases schema_touch_leases db_okD(1) by blast

lemma touch_transaction:
  assumes "\<And>d r d'. op d = (r, d') \<Longrightarrow> d' = d \<or> lease_touch d d'"
    and "\<And>d e d'. op d = (Inl e, d') \<Longrightarrow> d' = d"
  shows "transaction op"
proof
  fix d r d'
  assume ok: "db_ok d" and run: "op d = (r, d')"
  from assms(1) [OF run] have "sim d d' \<and> schema_ok d'"
    using lease_touch_ok [OF ok] ok by (auto simp: db_okD)
  then show "sim d d'" "schema_ok d'" by auto
next
  fix d e d'
  assume "op d = (Inl e, d')"
  then have "d' = d" by (rule assms(2))
  then show "d'\<lparr>row_locks := row_locks d\<rparr> = d" by simp
qed

lemma renew_write_touch [intro]: "lease_touch d (d\<lparr>leases := renew_write t i (leases d)\<rparr>)"
  unfolding renew_write_def by (rule lease_touchI) (simp add: same_identity_def)

end
