(* ===== verification/S3_Credentials.thy ===== *)
theory S3_Credentials
  imports Tables
begin

text \<open>
  \<open>db/src/s3_registry/credentials.rs\<close> over the table \<open>client_s3_credentials\<close>: storage and lookup of
  the encrypted secrets with which SigV4 requests are verified. The clients that exist are a
  parameter of the foreign key; \<open>created_at\<close> is the transaction time of the insert.
\<close>

record credential_row =
  cr_access_key :: string
  cr_client :: string
  cr_ciphertext :: "nat list"
  cr_nonce :: "nat list"
  cr_enc_key :: string
  cr_created_at :: timestamp

record s3_credential =
  sk_client :: string
  sk_ciphertext :: "nat list"
  sk_nonce :: "nat list"
  sk_enc_key :: string

datatype credential_error = CredentialExists | NoSuchClient | CredentialCheck

text \<open>\<open>access_key_id ~ '^[a-z0-9]{8,64}$'\<close> and the nonce length.\<close>

definition credential_check :: "credential_row \<Rightarrow> bool" where
  "credential_check c \<longleftrightarrow> 8 \<le> length (cr_access_key c) \<and> length (cr_access_key c) \<le> 64 \<and>
     list_all (\<lambda>x. is_lower x \<or> is_digit x) (cr_access_key c) \<and> length (cr_nonce c) = 12"

definition insert_credential :: "string list \<Rightarrow> timestamp \<Rightarrow> string \<Rightarrow> string \<Rightarrow> nat list \<Rightarrow> nat list \<Rightarrow> string
    \<Rightarrow> (credential_row list, credential_error, unit) eff" where
  "insert_credential known_clients now access_key client ciphertext nonce enc_key t =
     (let c = \<lparr>cr_access_key = access_key, cr_client = client, cr_ciphertext = ciphertext, cr_nonce = nonce,
               cr_enc_key = enc_key, cr_created_at = now\<rparr>
      in if \<not> credential_check c then (Inl CredentialCheck, t)
         else if exists_where (\<lambda>r. cr_access_key r = access_key) t then (Inl CredentialExists, t)
         else if client \<notin> set known_clients then (Inl NoSuchClient, t)
         else (Inr (), t @ [c]))"

definition get_credential :: "string \<Rightarrow> credential_row list \<Rightarrow> s3_credential option" where
  "get_credential access_key t =
     map_option (\<lambda>r. \<lparr>sk_client = cr_client r, sk_ciphertext = cr_ciphertext r, sk_nonce = cr_nonce r, sk_enc_key = cr_enc_key r\<rparr>)
       (find (\<lambda>r. cr_access_key r = access_key) t)"

definition list_credentials :: "string \<Rightarrow> credential_row list \<Rightarrow> string list" where
  "list_credentials client t = map cr_access_key (sort_key cr_created_at (filter (\<lambda>r. cr_client r = client) t))"

definition delete_credential :: "string \<Rightarrow> string \<Rightarrow> (credential_row list, credential_error, nat) eff" where
  "delete_credential client access_key t =
     (let hit = (\<lambda>r. cr_access_key r = access_key \<and> cr_client r = client)
      in (Inr (count_where hit t), delete_where hit t))"

definition credentials_ok :: "credential_row list \<Rightarrow> bool" where
  "credentials_ok t \<longleftrightarrow> distinct (map cr_access_key t) \<and> (\<forall>c \<in> set t. credential_check c)"

section \<open>The table is a map\<close>

lemma find_credential_delete:
  assumes "distinct (map cr_access_key t)"
  shows "find (\<lambda>r. cr_access_key r = k) (delete_where (\<lambda>r. cr_access_key r = a \<and> cr_client r = c) t) =
    (case find (\<lambda>r. cr_access_key r = k) t of None \<Rightarrow> None | Some r \<Rightarrow> if k = a \<and> cr_client r = c then None else Some r)"
  unfolding find_delete_where [OF assms]
  by (auto split: option.splits dest!: find_where_Some)

text \<open>
  Credentials form a map from access key ids that only its own client can shrink: after an
  insert the lookup returns exactly what was stored and every other key is unchanged; deleting
  removes the key only for the client that owns it, reports 1 exactly then, and a repeated delete
  reports 0. Each operation keeps keys unique and rows checked.
\<close>

theorem credential_table_is_a_map:
  assumes "credentials_ok t"
  shows "(case insert_credential known_clients now a c ct n ek t of
      (Inl e, t') \<Rightarrow> t' = t
    | (Inr _, t') \<Rightarrow> credentials_ok t' \<and> get_credential a t = None \<and>
        (\<forall>k. get_credential k t' = (if k = a then Some \<lparr>sk_client = c, sk_ciphertext = ct, sk_nonce = n, sk_enc_key = ek\<rparr>
           else get_credential k t))) \<and>
    (case delete_credential c a t of (r, t') \<Rightarrow>
       credentials_ok t' \<and>
       r = Inr (if map_option sk_client (get_credential a t) = Some c then 1 else 0) \<and>
       fst (delete_credential c a t') = Inr 0 \<and>
       (\<forall>k. get_credential k t' = (if k = a \<and> map_option sk_client (get_credential a t) = Some c then None
          else get_credential k t)))"
proof (intro conjI)
  have D: "distinct (map cr_access_key t)" using assms by (simp add: credentials_ok_def)
  show "case insert_credential known_clients now a c ct n ek t of
      (Inl e, t') \<Rightarrow> t' = t
    | (Inr _, t') \<Rightarrow> credentials_ok t' \<and> get_credential a t = None \<and>
        (\<forall>k. get_credential k t' = (if k = a then Some \<lparr>sk_client = c, sk_ciphertext = ct, sk_nonce = n, sk_enc_key = ek\<rparr>
           else get_credential k t))"
  proof (cases "fst (insert_credential known_clients now a c ct n ek t)")
    case (Inl e)
    then show ?thesis by (auto simp: insert_credential_def Let_def split: if_splits)
  next
    case (Inr u)
    let ?c = "\<lparr>cr_access_key = a, cr_client = c, cr_ciphertext = ct, cr_nonce = n, cr_enc_key = ek, cr_created_at = now\<rparr>"
    have new: "credential_check ?c" "\<forall>r \<in> set t. cr_access_key r \<noteq> a"
      and run: "insert_credential known_clients now a c ct n ek t = (Inr (), t @ [?c])"
      using Inr by (auto simp: insert_credential_def Let_def exists_where_iff split: if_splits)
    have fresh: "find (\<lambda>r. cr_access_key r = a) t = None" using new(2) by (auto simp: find_where_None)
    have "credentials_ok (t @ [?c])" using assms new by (auto simp: credentials_ok_def)
    moreover have "get_credential a t = None" by (simp add: get_credential_def fresh)
    moreover have "get_credential k (t @ [?c]) = (if k = a then Some \<lparr>sk_client = c, sk_ciphertext = ct, sk_nonce = n, sk_enc_key = ek\<rparr>
           else get_credential k t)" for k
      by (simp add: get_credential_def find_append_row fresh split: option.splits)
    ultimately show ?thesis by (simp add: run)
  qed
  let ?hit = "\<lambda>r. cr_access_key r = a \<and> cr_client r = c"
  have del: "delete_credential c a t = (Inr (count_where ?hit t), delete_where ?hit t)"
    by (simp add: delete_credential_def Let_def)
  have one: "count_where ?hit t = (if map_option sk_client (get_credential a t) = Some c then 1 else 0)"
  proof (cases "find (\<lambda>r. cr_access_key r = a) t")
    case None
    then have "count_where ?hit t = 0" by (auto simp: count_where_0 find_where_None)
    with None show ?thesis by (simp add: get_credential_def)
  next
    case (Some r)
    from find_where_Some [OF Some] have r: "r \<in> set t" "cr_access_key r = a" by auto
    have "count_where ?hit t \<noteq> 0 \<longleftrightarrow> cr_client r = c"
      using r key_unique [OF D] by (auto simp: count_where_0)
    moreover have "count_where ?hit t \<le> 1" by (rule count_by_key_le_1 [OF D])
    ultimately have "count_where ?hit t = (if cr_client r = c then 1 else 0)" by auto
    with Some show ?thesis by (simp add: get_credential_def)
  qed
  have ok': "credentials_ok (delete_where ?hit t)"
    using assms by (auto simp: credentials_ok_def map_delete_where_distinct set_delete_where)
  have again: "count_where ?hit (delete_where ?hit t) = 0" by (auto simp: count_where_0 set_delete_where)
  have get: "get_credential k (delete_where ?hit t) = (if k = a \<and> map_option sk_client (get_credential a t) = Some c then None
      else get_credential k t)" for k
    by (auto simp: get_credential_def find_credential_delete [OF D] split: option.splits)
  show "case delete_credential c a t of (r, t') \<Rightarrow>
       credentials_ok t' \<and>
       r = Inr (if map_option sk_client (get_credential a t) = Some c then 1 else 0) \<and>
       fst (delete_credential c a t') = Inr 0 \<and>
       (\<forall>k. get_credential k t' = (if k = a \<and> map_option sk_client (get_credential a t) = Some c then None
          else get_credential k t))"
    using ok' get by (simp add: del one) (simp add: delete_credential_def Let_def again)
qed

theorem credential_table_is_a_map_witness:
  "fst (delete_credential ''c'' ''abcdefgh'' (snd (insert_credential [''c''] 0 ''abcdefgh'' ''c'' [] (replicate 12 0) ''k'' []))) = Inr 1"
proof -
  obtain r t where run: "insert_credential [''c''] 0 ''abcdefgh'' ''c'' [] (replicate 12 0) ''k'' [] = (r, t)" by fastforce
  have "fst (insert_credential [''c''] 0 ''abcdefgh'' ''c'' [] (replicate 12 0) ''k'' []) = Inr ()" by code_simp
  then have r: "r = Inr ()" by (simp add: run)
  have "credentials_ok []" by (simp add: credentials_ok_def)
  from credential_table_is_a_map [OF this, where known_clients = "[''c'']" and now = 0 and a = "''abcdefgh''" and c = "''c''"
        and ct = "[]" and n = "replicate 12 0" and ek = "''k''"]
  have t: "credentials_ok t" "get_credential ''abcdefgh'' t =
      Some \<lparr>sk_client = ''c'', sk_ciphertext = [], sk_nonce = replicate 12 0, sk_enc_key = ''k''\<rparr>"
    unfolding run r by auto
  from credential_table_is_a_map [OF t(1), where a = "''abcdefgh''" and c = "''c''", THEN conjunct2] t(2) show ?thesis
    unfolding run by (auto split: prod.splits)
qed

end
