(* ===== verification/Example_Run.thy ===== *)
theory Example_Run
  imports Tables
begin

text \<open>
  One concrete database on which the witnesses of the development run: a file in every phase of
  the life cycle, native and S3, with its location, write lease, parts, session and key.
\<close>

section \<open>Checking a database row by row\<close>

lemma db_okI:
  assumes "schema_ok d" "\<forall>f \<in> set (files d). view_ok (view d (f_id f))"
  shows "db_ok d"
  unfolding db_ok_def
proof (intro conjI allI)
  fix i
  note S = schema_okD [OF assms(1)]
  show "view_ok (view d i)"
  proof (cases "i \<in> f_id ` set (files d)")
    case True
    with assms(2) show ?thesis by blast
  next
    case False
    have "find (\<lambda>f. f_id f = i) (files d) = None" by (rule find_fresh) (rule False)
    moreover have "find (\<lambda>l. l_file l = i) (locations d) = None" by (rule find_fresh) (use False S(8) in blast)
    moreover have "find (\<lambda>u. u_file u = i) (uploads d) = None" by (rule find_fresh) (use False S(10) in blast)
    moreover have "i \<notin> le_file ` set (leases d)" using False S(9) by blast
    then have "write_leases d i = []" by (fastforce simp: write_leases_def filter_empty_conv image_iff)
    moreover from this have "parts_of (write_leases d i) (lease_parts d) = []" by (simp add: parts_of_def exists_where_def)
    ultimately show ?thesis by (simp add: view_def view_ok_def)
  qed
qed (rule assms(1))

section \<open>The database\<close>

definition demo_storage :: storage_row where
  "demo_storage = \<lparr>st_id = ''s1'', st_kind = ''s3'', st_force_relay = False, st_endpoint = Some ''i'', st_public_endpoint = Some ''p'',
     st_region = Some ''r'', st_bucket = Some ''b'', st_force_path_style = True, st_access_key = Some ''a'',
     st_secret_ciphertext = Some ''sk'', st_secret_nonce = Some ''nonce-nonce1'', st_enc_key_id = Some ''v1'', st_capacity_bytes = 1000\<rparr>"

definition demo_hash :: string where
  "demo_hash = ''sha256:'' @ replicate 64 CHR ''0''"

definition demo_file :: "uuid \<Rightarrow> file_state \<Rightarrow> int option \<Rightarrow> file_row" where
  "demo_file i st part_size = \<lparr>f_id = i, f_client = ''c1'', f_state = st, f_declared_size = 5, f_content_type = None,
     f_declared_md5 = None, f_etag = (if st \<in> {Active, Deleted} then Some ''e'' else None), f_part_size = part_size,
     f_created_at = 0, f_committed_at = (if st \<in> {Active, Deleted} then Some 1 else None),
     f_deleted_at = (if st = Deleted then Some 2 else None), f_recovery_after = 0\<rparr>"

definition demo_lease :: "uuid \<Rightarrow> lease_state \<Rightarrow> lease_row" where
  "demo_lease i st = \<lparr>le_id = i + 10, le_file = i, le_kind = Write, le_state = st, le_expires_at = 100,
     le_secret_hash = Some demo_hash, le_uploaded_size = None, le_uploaded_md5 = None, le_upload_id = Some ''v'', le_created_at = 0\<rparr>"

definition demo_upload :: "uuid \<Rightarrow> bool \<Rightarrow> bool \<Rightarrow> upload_state \<Rightarrow> upload_row" where
  "demo_upload i multipart if_none_match st = \<lparr>u_file = i, u_protocol = S3, u_key = Some ''k'', u_multipart = multipart,
     u_if_none_match = if_none_match, u_state = st,
     u_expected_size = (if st = Completing then Some 5 else None),
     u_expected_etag = (if st = Completing then Some ''e'' else None), u_recovery_after = 0\<rparr>"

definition demo_native :: "uuid \<Rightarrow> upload_state \<Rightarrow> upload_row" where
  "demo_native i st = \<lparr>u_file = i, u_protocol = Native, u_key = None, u_multipart = True, u_if_none_match = False,
     u_state = st, u_expected_size = None, u_expected_etag = Some ''e'', u_recovery_after = 0\<rparr>"

definition demo_location :: "uuid \<Rightarrow> location_row" where
  "demo_location i = \<lparr>l_file = i, l_storage = ''s1'', l_object_key = replicate (i + 20) CHR ''o''\<rparr>"

text \<open>
  Files 1 and 2: pending native, single and multipart. 3 and 5: open S3 sessions, single and
  multipart. 4 and 7: \<open>If-None-Match\<close> completions of one key. 6: the active file of key a.
  8 and 11: a native completion and its cleanup. 9: detached. 10: reclaimed, physical cleanup due.
  12: an S3 session being cleaned.
\<close>

definition demo_db :: db where
  "demo_db = \<lparr>storages = [demo_storage], clients = [\<lparr>cl_id = ''c1'', cl_storage = ''s1''\<rparr>],
     files = [demo_file 1 Pending None, demo_file 2 Pending (Some 5), demo_file 3 Pending None, demo_file 4 Pending None,
       demo_file 5 Pending (Some 5), demo_file 6 Active None, demo_file 7 Pending None, demo_file 8 Pending (Some 5),
       demo_file 9 Deleted None, demo_file 10 Reclaimed None, demo_file 11 Pending (Some 5), demo_file 12 Pending None],
     locations = map demo_location [1, 2, 3, 4, 5, 6, 7, 8, 9, 10, 11, 12],
     leases = map (\<lambda>i. demo_lease i Issued) [1, 2, 3, 4, 5, 7, 8] @
       [demo_lease 6 Committed, demo_lease 9 Committed, demo_lease 10 Expired, demo_lease 11 Expired, demo_lease 12 Expired],
     lease_parts = [\<lparr>lp_lease = 12, lp_no = 1, lp_state = PartDone, lp_size = Some 5, lp_md5 = Some ''m''\<rparr>,
       \<lparr>lp_lease = 15, lp_no = 1, lp_state = PartDone, lp_size = Some 5, lp_md5 = Some ''m''\<rparr>],
     uploads = [demo_upload 3 False False Open, demo_upload 4 False True Completing, demo_upload 5 True False Open,
       demo_upload 7 False True Completing, demo_native 8 Completing, demo_native 11 Cleaning, demo_upload 12 False False Cleaning],
     object_keys = [\<lparr>k_client = ''c1'', k_key = ''a'', k_file = 6\<rparr>], lease_history = [], row_locks = []\<rparr>"

lemmas demo_row_defs = demo_file_def demo_lease_def demo_upload_def demo_native_def demo_location_def

lemma demo_schema: "schema_ok demo_db"
  by (simp add: schema_ok_def schema_tables_def demo_db_def demo_row_defs part_check_def replicate_eq_replicate)

lemma demo_db_ok: "db_ok demo_db"
proof (rule db_okI [OF demo_schema])
  have "view_ok (view demo_db i)" if "i \<in> {1, 2, 3, 4, 5, 6, 7, 8, 9, 10, 11, 12}" for i
    using that
    by (elim insertE emptyE)
      (simp_all add: view_def demo_db_def write_leases_def parts_of_def exists_where_def view_ok_def lease_ok_def
        file_history_ok_def file_check_def upload_ok_def upload_check_def demo_row_defs)
  then show "\<forall>f \<in> set (files demo_db). view_ok (view demo_db (f_id f))"
    by (simp add: demo_db_def demo_file_def)
qed

text \<open>How a witness names the result of a run that it evaluates.\<close>

lemma run_prod: "fst x = a \<Longrightarrow> x = (a, snd x)"
  by (cases x) simp

end
