(* ===== verification/Usage.thy ===== *)
theory Usage
  imports Example_Run "HOL-Library.List_Lexorder"
begin

text \<open>
  \<open>db/src/usage.rs\<close>: the usage an operator sees, computed from files and locations, and the daily
  snapshots of it. A day is its number since the epoch, in UTC. \<open>sum(bigint)\<close> is exact and the cast
  back to \<open>bigint\<close> fails on overflow. \<open>usage_snapshots\<close> is a table of its own.
\<close>

section \<open>Sums\<close>

datatype usage_error = BigintOutOfRange

definition bigint :: "int \<Rightarrow> usage_error + int" where
  "bigint n = (if - (2 ^ 63) \<le> n \<and> n < 2 ^ 63 then Inr n else Inl BigintOutOfRange)"

text \<open>One failing row fails the query.\<close>

fun collect_rows :: "('a \<Rightarrow> 'e + 'b) \<Rightarrow> 'a list \<Rightarrow> 'e + 'b list" where
  "collect_rows f [] = Inr []"
| "collect_rows f (x # xs) = (case f x of Inl e \<Rightarrow> Inl e | Inr y \<Rightarrow>
     (case collect_rows f xs of Inl e \<Rightarrow> Inl e | Inr ys \<Rightarrow> Inr (y # ys)))"

lemma collect_rows_Inr: "collect_rows f xs = Inr ys \<longleftrightarrow> list_all2 (\<lambda>x y. f x = Inr y) xs ys"
proof (induction xs arbitrary: ys)
  case (Cons x xs)
  show ?case
  proof (cases "f x")
    case (Inr y)
    show ?thesis
    proof (cases "collect_rows f xs")
      case (Inl e)
      with Cons [of "tl ys"] \<open>f x = Inr y\<close> show ?thesis by (cases ys) auto
    next
      case (Inr zs)
      with Cons \<open>f x = Inr y\<close> show ?thesis by (cases ys) auto
    qed
  qed (cases ys; simp)
qed auto

definition total_of :: "('a \<Rightarrow> int) \<Rightarrow> ('a \<Rightarrow> bool) \<Rightarrow> 'a list \<Rightarrow> int" where
  "total_of g p xs = sum_list (map g (filter p xs))"

section \<open>by\_storage\<close>

record storage_usage =
  us_storage_id :: string
  us_kind :: string
  us_capacity_bytes :: int
  us_reserved_bytes :: int
  us_active_bytes :: int
  us_purge_pending_bytes :: int
  us_reserved_files :: nat
  us_active_files :: nat
  us_purge_pending_files :: nat

text \<open>The files that occupy a storage: the joined rows of one group.\<close>

definition located :: "db \<Rightarrow> (location_row \<times> file_row) list" where
  "located d = [(l, f). l \<leftarrow> locations d, f \<leftarrow> files d, f_id f = l_file l]"

definition stored_in :: "db \<Rightarrow> string \<Rightarrow> file_row list" where
  "stored_in d st = map snd (filter (\<lambda>(l, f). l_storage l = st) (located d))"

definition is_reserved :: "file_row \<Rightarrow> bool" where
  "is_reserved f \<longleftrightarrow> f_state f = Pending"

definition is_active :: "file_row \<Rightarrow> bool" where
  "is_active f \<longleftrightarrow> f_state f = Active"

definition purge_pending :: "file_row \<Rightarrow> bool" where
  "purge_pending f \<longleftrightarrow> f_state f \<in> {Deleted, Reclaimed}"

definition storage_group :: "db \<Rightarrow> storage_row \<Rightarrow> usage_error + storage_usage" where
  "storage_group d s =
     (let fs = stored_in d (st_id s); bytes = (\<lambda>p. bigint (total_of f_declared_size p fs)) in
      case (bytes is_reserved, bytes is_active, bytes purge_pending) of
        (Inr r, Inr a, Inr p) \<Rightarrow> Inr \<lparr>us_storage_id = st_id s, us_kind = st_kind s,
          us_capacity_bytes = st_capacity_bytes s, us_reserved_bytes = r, us_active_bytes = a, us_purge_pending_bytes = p,
          us_reserved_files = count_where is_reserved fs, us_active_files = count_where is_active fs,
          us_purge_pending_files = count_where purge_pending fs\<rparr>
      | _ \<Rightarrow> Inl BigintOutOfRange)"

definition by_storage :: "db \<Rightarrow> usage_error + storage_usage list" where
  "by_storage d = collect_rows (storage_group d) (sort_key st_id (storages d))"

section \<open>by\_client\<close>

record client_usage =
  uc_client_id :: string
  uc_storage_id :: string
  uc_active_files :: nat
  uc_active_bytes :: int

text \<open>The active files of each pair, and the pairs that have any.\<close>

definition stock :: "(file_row \<Rightarrow> bool) \<Rightarrow> db \<Rightarrow> (location_row \<times> file_row) list" where
  "stock p d = filter (\<lambda>(l, f). is_active f \<and> p f) (located d)"

definition pair_of :: "location_row \<times> file_row \<Rightarrow> string \<times> string" where
  "pair_of x = (case x of (l, f) \<Rightarrow> (f_client f, l_storage l))"

definition size_of_row :: "location_row \<times> file_row \<Rightarrow> int" where
  "size_of_row x = f_declared_size (snd x)"

definition client_group :: "(location_row \<times> file_row) list \<Rightarrow> string \<times> string \<Rightarrow> usage_error + client_usage" where
  "client_group rows q = (case bigint (total_of size_of_row (\<lambda>x. pair_of x = q) rows) of
      Inl e \<Rightarrow> Inl e
    | Inr b \<Rightarrow> Inr \<lparr>uc_client_id = fst q, uc_storage_id = snd q,
        uc_active_files = count_where (\<lambda>x. pair_of x = q) rows, uc_active_bytes = b\<rparr>)"

definition by_client :: "db \<Rightarrow> usage_error + client_usage list" where
  "by_client d = collect_rows (client_group (stock (\<lambda>_. True) d)) (sort (remdups (map pair_of (stock (\<lambda>_. True) d))))"

section \<open>Daily snapshots\<close>

record snapshot_row =
  sn_day :: int
  sn_storage :: string
  sn_client :: string
  sn_active_bytes :: int
  sn_active_files :: nat
  sn_observed_at :: "timestamp option"

definition day_micros :: int where
  "day_micros = secs 86400"

text \<open>\<open>(day + 1)::timestamp AT TIME ZONE 'UTC'\<close> and \<open>date_naive()\<close> of an instant.\<close>

definition day_end :: "int \<Rightarrow> timestamp" where
  "day_end day = (day + 1) * day_micros"

definition day_of :: "timestamp \<Rightarrow> int" where
  "day_of t = t div day_micros"

definition snapshot_key :: "snapshot_row \<Rightarrow> int \<times> string \<times> string" where
  "snapshot_key r = (sn_day r, sn_storage r, sn_client r)"

text \<open>The pairs of the registry and those of the stock.\<close>

definition snapshot_pairs :: "(location_row \<times> file_row) list \<Rightarrow> db \<Rightarrow> (string \<times> string) list" where
  "snapshot_pairs rows d = remdups (map (\<lambda>c. (cl_id c, cl_storage c)) (clients d) @ map pair_of rows)"

definition snapshot_of :: "timestamp \<Rightarrow> int \<Rightarrow> client_usage \<Rightarrow> snapshot_row" where
  "snapshot_of now day u = \<lparr>sn_day = day, sn_storage = uc_storage_id u, sn_client = uc_client_id u,
     sn_active_bytes = uc_active_bytes u, sn_active_files = uc_active_files u, sn_observed_at = Some now\<rparr>"

text \<open>The \<open>INSERT\<close>: a row whose key is taken is skipped.\<close>

definition insert_snapshot :: "timestamp \<Rightarrow> int \<Rightarrow> db \<Rightarrow> (snapshot_row list, usage_error, nat) eff" where
  "insert_snapshot now day d snaps =
     (let rows = stock (\<lambda>f. f_created_at f < day_end day) d in
      case collect_rows (client_group rows) (snapshot_pairs rows d) of
        Inl e \<Rightarrow> (Inl e, snaps)
      | Inr us \<Rightarrow> (let fresh = filter (\<lambda>r. snapshot_key r \<notin> snapshot_key ` set snaps) (map (snapshot_of now day) us)
                  in (Inr (length fresh), snaps @ fresh)))"

text \<open>The guard and the insertion are two statements: \<open>meanwhile\<close> is what others insert in between.\<close>

definition record_snapshot :: "(snapshot_row list \<Rightarrow> snapshot_row list) \<Rightarrow> timestamp \<Rightarrow> int \<Rightarrow> db
    \<Rightarrow> (snapshot_row list, usage_error, nat) eff" where
  "record_snapshot meanwhile now day d snaps =
     (if exists_where (\<lambda>r. sn_day r = day) snaps then (Inr 0, snaps)
      else insert_snapshot now day d (meanwhile snaps))"

definition snapshot_history :: "timestamp \<Rightarrow> int \<Rightarrow> snapshot_row list \<Rightarrow> snapshot_row list" where
  "snapshot_history now days snaps = sort_key snapshot_key (filter (\<lambda>r. day_of now - days \<le> sn_day r) snaps)"

section \<open>Every file is counted once\<close>

lemma total_of_partition:
  assumes "distinct qs" "\<And>x. x \<in> set xs \<Longrightarrow> k x \<in> set qs"
  shows "(\<Sum>q \<leftarrow> qs. total_of g (\<lambda>x. k x = q) xs) = sum_list (map g xs)"
  using assms(2)
proof (induction xs)
  case (Cons x xs)
  have "(\<Sum>q \<leftarrow> qs. total_of g (\<lambda>x. k x = q) (x # xs)) =
        (\<Sum>q \<leftarrow> qs. (if k x = q then g x else 0) + total_of g (\<lambda>x. k x = q) xs)"
    by (rule arg_cong [where f = sum_list], rule map_cong) (auto simp: total_of_def)
  also have "\<dots> = (\<Sum>q \<leftarrow> qs. if k x = q then g x else 0) + (\<Sum>q \<leftarrow> qs. total_of g (\<lambda>x. k x = q) xs)"
    by (rule sum_list_addf)
  also have "(\<Sum>q \<leftarrow> qs. if k x = q then g x else 0) = g x"
    using assms(1) Cons.prems [of x] by (simp add: sum_list_distinct_conv_sum_set)
  finally show ?case using Cons by simp
qed (simp add: total_of_def)

lemma bigint_Inr [simp]: "bigint n = Inr m \<longleftrightarrow> m = n \<and> - (2 ^ 63) \<le> n \<and> n < 2 ^ 63"
  by (auto simp: bigint_def)

lemma client_groups:
  assumes "collect_rows (client_group rows) qs = Inr us"
  shows "map (\<lambda>u. (uc_client_id u, uc_storage_id u)) us = qs"
    and "map uc_active_bytes us = map (\<lambda>q. total_of size_of_row (\<lambda>x. pair_of x = q) rows) qs"
proof -
  have one: "client_group rows q = Inr u \<Longrightarrow> (uc_client_id u, uc_storage_id u) = q \<and>
      uc_active_bytes u = total_of size_of_row (\<lambda>x. pair_of x = q) rows" for q u
    by (auto simp: client_group_def split: sum.splits)
  from assms have "list_all2 (\<lambda>q u. client_group rows q = Inr u) qs us" by (simp add: collect_rows_Inr)
  then have "list_all2 (\<lambda>q u. (uc_client_id u, uc_storage_id u) = q \<and>
      uc_active_bytes u = total_of size_of_row (\<lambda>x. pair_of x = q) rows) qs us"
    by (rule list_all2_mono) (rule one)
  then show "map (\<lambda>u. (uc_client_id u, uc_storage_id u)) us = qs"
    "map uc_active_bytes us = map (\<lambda>q. total_of size_of_row (\<lambda>x. pair_of x = q) rows) qs"
    by (induction) auto
qed

text \<open>
  C25. The daily snapshot loses no byte and no client: when nothing of the day is recorded yet, the rows it
  adds sum up to the sizes of all active, located files created before the day's end, every
  registered client has a row, nothing older changes, and a second run records nothing.
\<close>

theorem snapshot_conserves_stock:
  assumes "record_snapshot meanwhile now day d snaps = (Inr n, snaps')"
    and "\<not> exists_where (\<lambda>r. sn_day r = day) snaps" "\<not> exists_where (\<lambda>r. sn_day r = day) (meanwhile snaps)"
  shows "(\<Sum>r \<leftarrow> drop (length (meanwhile snaps)) snaps'. sn_active_bytes r) =
           (\<Sum>x \<leftarrow> stock (\<lambda>f. f_created_at f < day_end day) d. size_of_row x) \<and>
         (\<lambda>c. (day, cl_storage c, cl_id c)) ` set (clients d) \<subseteq> snapshot_key ` set snaps' \<and>
         take (length (meanwhile snaps)) snaps' = meanwhile snaps \<and>
         n = count_where (\<lambda>r. sn_day r = day) snaps' \<and>
         (clients d \<noteq> [] \<longrightarrow> record_snapshot meanwhile' now' day d' snaps' = (Inr 0, snaps'))"
proof -
  define rows where "rows = stock (\<lambda>f. f_created_at f < day_end day) d"
  have ins: "insert_snapshot now day d (meanwhile snaps) = (Inr n, snaps')"
    using assms(1,2) by (simp add: record_snapshot_def)
  then obtain us where us: "collect_rows (client_group rows) (snapshot_pairs rows d) = Inr us"
    by (auto simp: insert_snapshot_def Let_def rows_def split: sum.splits)
  have day: "sn_day (snapshot_of now day u) = day" for u by (simp add: snapshot_of_def)
  have "filter (\<lambda>r. snapshot_key r \<notin> snapshot_key ` set (meanwhile snaps)) (map (snapshot_of now day) us) = map (snapshot_of now day) us"
    using assms(3) day by (intro filter_True) (auto simp: snapshot_key_def exists_where_iff)
  with ins us have new: "snaps' = meanwhile snaps @ map (snapshot_of now day) us" and n: "n = length us"
    by (simp_all add: insert_snapshot_def Let_def rows_def)
  note g = client_groups [OF us]
  have pairs: "distinct (snapshot_pairs rows d)" "\<And>x. x \<in> set rows \<Longrightarrow> pair_of x \<in> set (snapshot_pairs rows d)"
    by (auto simp: snapshot_pairs_def)
  have "(\<Sum>r \<leftarrow> map (snapshot_of now day) us. sn_active_bytes r) = sum_list (map uc_active_bytes us)"
    by (rule arg_cong [where f = sum_list]) (simp add: snapshot_of_def)
  also have "\<dots> = (\<Sum>x \<leftarrow> rows. size_of_row x)"
    unfolding g(2) by (rule total_of_partition [OF pairs])
  finally have sums: "(\<Sum>r \<leftarrow> map (snapshot_of now day) us. sn_active_bytes r) = (\<Sum>x \<leftarrow> rows. size_of_row x)" .
  have each: "(day, cl_storage c, cl_id c) \<in> snapshot_key ` set snaps'" if "c \<in> set (clients d)" for c
  proof -
    have "(cl_id c, cl_storage c) \<in> set (snapshot_pairs rows d)" using that by (auto simp: snapshot_pairs_def)
    then obtain u where u: "u \<in> set us" "(uc_client_id u, uc_storage_id u) = (cl_id c, cl_storage c)"
      unfolding g(1) [symmetric] by auto
    then have "snapshot_key (snapshot_of now day u) = (day, cl_storage c, cl_id c)"
      by (simp add: snapshot_key_def snapshot_of_def)
    with u(1) show ?thesis unfolding new by (metis UnCI image_eqI set_append set_map)
  qed
  have count: "count_where (\<lambda>r. sn_day r = day) snaps' = n"
    unfolding new n count_where_def using assms(3) day by (simp add: exists_where_iff filter_empty_conv comp_def)
  have again: "record_snapshot meanwhile' now' day d' snaps' = (Inr 0, snaps')" if "clients d \<noteq> []"
  proof -
    obtain c where "c \<in> set (clients d)" using \<open>clients d \<noteq> []\<close> by (cases "clients d") auto
    from each [OF this] have "exists_where (\<lambda>r. sn_day r = day) snaps'"
      by (auto simp: exists_where_iff snapshot_key_def)
    then show ?thesis by (simp add: record_snapshot_def)
  qed
  show ?thesis using sums each count again by (auto simp: new rows_def)
qed

theorem snapshot_conserves_stock_witness:
  "map sn_active_bytes (snd (record_snapshot id 0 3 demo_db [])) = [5] \<and>
   (\<Sum>x \<leftarrow> stock (\<lambda>f. f_created_at f < day_end 3) demo_db. size_of_row x) = 5"
proof -
  have a: "fst (record_snapshot id 0 3 demo_db []) = Inr 1" by code_simp
  have s: "map sn_active_bytes (snd (record_snapshot id 0 3 demo_db [])) = [5]" by code_simp
  have e: "\<not> exists_where (\<lambda>r. sn_day r = 3) []" "\<not> exists_where (\<lambda>r. sn_day r = 3) (id [])"
    by (simp_all add: exists_where_def)
  from snapshot_conserves_stock [OF run_prod [OF a] e] s show ?thesis by simp
qed

end
