(* ===== verification/S3_Protocol.thy ===== *)
theory S3_Protocol
  imports Prelude
begin

text \<open>
  The crate \<open>s3-protocol\<close>: what of a request decides the operation, the shape of SigV4 credentials,
  the canonical query, request digests, the completion document and the reconciliation of a part
  list with the measured ledger. Base64, hex, SHA-256, HMAC and the XML parser are crates outside
  the repository and arguments of the definitions that use them.
\<close>

section \<open>auth.rs\<close>

fun adjacent_ex :: "('a \<Rightarrow> 'a \<Rightarrow> bool) \<Rightarrow> 'a list \<Rightarrow> bool" where
  "adjacent_ex p (a # b # rest) \<longleftrightarrow> p a b \<or> adjacent_ex p (b # rest)"
| "adjacent_ex p _ \<longleftrightarrow> False"

record credential_fields =
  sc_access_key :: string
  sc_date :: string
  sc_region :: string

definition credential_scope :: "string \<Rightarrow> string + credential_fields" where
  "credential_scope value = (case split_on (CHR ''/'') value of
      [access_key, date, region, service, terminator] \<Rightarrow>
        if service \<noteq> ''s3'' \<or> terminator \<noteq> ''aws4_request''
        then Inl ''credential scope must be <key>/<date>/<region>/s3/aws4_request''
        else if access_key = [] \<or> region = [] \<or> length date \<noteq> 8 \<or> \<not> list_all is_digit date
        then Inl ''invalid credential scope''
        else Inr \<lparr>sc_access_key = access_key, sc_date = date, sc_region = region\<rparr>
    | _ \<Rightarrow> Inl ''credential scope must be <key>/<date>/<region>/s3/aws4_request'')"

definition header_name_char :: "char \<Rightarrow> bool" where
  "header_name_char c \<longleftrightarrow> is_lower c \<or> is_digit c \<or> c \<in> set (bytes [33, 35, 36, 37, 38, 39, 42, 43, 45, 46, 94, 95, 96, 124, 126])"

definition signed_headers :: "string \<Rightarrow> string + string list" where
  "signed_headers value =
     (let names = split_on (CHR '';'') value in
      if ''host'' \<notin> set names \<or> adjacent_ex (\<lambda>a b. b \<le> a) names
        \<or> list_ex (\<lambda>name. name = [] \<or> \<not> list_all header_name_char name) names
      then Inl ''SignedHeaders must contain host and be lowercase, sorted and unique''
      else Inr names)"

definition presigned_expiry :: "string \<Rightarrow> string + int" where
  "presigned_expiry value =
     (if value = [] \<or> \<not> list_all is_digit value then Inl ''invalid X-Amz-Expires''
      else case parse_i64 value of
          None \<Rightarrow> Inl ''X-Amz-Expires must be between 1 and 604800 seconds''
        | Some n \<Rightarrow> if 1 \<le> n \<and> n \<le> 604800 then Inr n
            else Inl ''X-Amz-Expires must be between 1 and 604800 seconds'')"

definition valid_payload_hash :: "string \<Rightarrow> bool" where
  "valid_payload_hash value \<longleftrightarrow>
     value = ''UNSIGNED-PAYLOAD'' \<or> (length value = 64 \<and> list_all is_hexdigit value)"

definition payload_matches :: "(string \<Rightarrow> string) \<Rightarrow> string \<Rightarrow> string \<Rightarrow> bool" where
  "payload_matches sha256_hex expected body \<longleftrightarrow>
     expected = ''UNSIGNED-PAYLOAD'' \<or> eq_ic (sha256_hex body) expected"

definition canonical_header_value :: "string \<Rightarrow> string" where
  "canonical_header_value value = join_with (CHR '' '') (ascii_words [] value)"

section \<open>signing.rs\<close>

text \<open>
  \<open>hmac\<close> is HMAC-SHA256, which takes keys of any length: the branch of the code for a rejected key
  is unreachable and left out.
\<close>

definition sign :: "(string \<Rightarrow> string \<Rightarrow> string) \<Rightarrow> (string \<Rightarrow> string) \<Rightarrow> string \<Rightarrow> string \<Rightarrow> string \<Rightarrow> string \<Rightarrow> string" where
  "sign hmac hex_encode secret scope_date region string_to_sign =
     (let k_date = hmac (''AWS4'' @ secret) scope_date;
          k_region = hmac k_date region;
          k_service = hmac k_region ''s3'';
          k_signing = hmac k_service ''aws4_request''
      in hex_encode (hmac k_signing string_to_sign))"

definition key_value :: "string \<Rightarrow> string \<times> string" where
  "key_value p = (case split_once (CHR ''='') p of Some kv \<Rightarrow> kv | None \<Rightarrow> (p, []))"

definition query_pairs :: "string \<Rightarrow> (string \<times> string) list" where
  "query_pairs query =
     filter (\<lambda>(k, _). k \<noteq> ''X-Amz-Signature'')
       (map key_value (filter (\<lambda>s. s \<noteq> []) (split_on (CHR ''&'') query)))"

definition canonicalize_query :: "string \<Rightarrow> string" where
  "canonicalize_query query =
     join_with (CHR ''&'') (map (\<lambda>(k, v). k @ CHR ''='' # v) (sort (query_pairs query)))"

section \<open>operation.rs\<close>

datatype operation =
    Put | Get | Head | DeleteObject | CreateMultipart
  | UploadPart string int | CompleteMultipart string | AbortMultipart string

datatype route_error = InvalidArgument | NotImplemented | MethodNotAllowed

definition query_flag :: "string \<Rightarrow> string \<Rightarrow> bool" where
  "query_flag query key \<longleftrightarrow>
     list_ex (\<lambda>pair. pair = key \<or> (case split_once (CHR ''='') pair of None \<Rightarrow> False | Some (k, _) \<Rightarrow> k = key))
       (split_on (CHR ''&'') query)"

definition query_value :: "string \<Rightarrow> string \<Rightarrow> string option" where
  "query_value query key =
     map_option snd (find (\<lambda>(k, _). k = key)
       (List.map_filter (split_once (CHR ''='')) (split_on (CHR ''&'') query)))"

definition unsupported_flags :: "string list" where
  "unsupported_flags = [''acl'', ''tagging'', ''versionId'', ''torrent'', ''restore'', ''retention'',
     ''legal-hold'', ''attributes'', ''select'', ''select-type'']"

definition key_count :: "string \<Rightarrow> string \<Rightarrow> nat" where
  "key_count query key =
     length (filter (\<lambda>pair. hd (split_on (CHR ''='') pair) = key) (split_on (CHR ''&'') query))"

definition part_number_of :: "string option \<Rightarrow> int option" where
  "part_number_of v = (case Option.bind v parse_i32 of None \<Rightarrow> None
     | Some n \<Rightarrow> if 1 \<le> n \<and> n \<le> 10000 then Some n else None)"

text \<open>The requests with an \<open>uploadId\<close>.\<close>

definition classify_session :: "string \<Rightarrow> string \<Rightarrow> bool \<Rightarrow> route_error + operation" where
  "classify_session method query has_part =
     (case query_value query ''uploadId'' of
        None \<Rightarrow> Inl InvalidArgument
      | Some i \<Rightarrow>
          if i = [] then Inl InvalidArgument
          else if method = ''PUT'' then
            (case part_number_of (query_value query ''partNumber'') of
               None \<Rightarrow> Inl InvalidArgument
             | Some n \<Rightarrow> Inr (UploadPart i n))
          else if method = ''POST'' \<and> \<not> has_part then Inr (CompleteMultipart i)
          else if method = ''DELETE'' \<and> \<not> has_part then Inr (AbortMultipart i)
          else if method = ''POST'' \<or> method = ''DELETE'' then Inl InvalidArgument
          else Inl NotImplemented)"

definition classify :: "string \<Rightarrow> string \<Rightarrow> bool \<Rightarrow> route_error + operation" where
  "classify method query copy_source =
     (if copy_source \<or> list_ex (query_flag query) unsupported_flags then Inl NotImplemented
      else let uploads = query_flag query ''uploads''; has_id = query_flag query ''uploadId'';
               has_part = query_flag query ''partNumber''
        in if list_ex (\<lambda>key. 1 < key_count query key) [''uploads'', ''uploadId'', ''partNumber'']
           then Inl InvalidArgument
           else if uploads then
             (if method = ''POST'' \<and> \<not> has_id \<and> \<not> has_part then Inr CreateMultipart
              else if has_id \<or> has_part then Inl InvalidArgument
              else Inl NotImplemented)
           else if has_id then classify_session method query has_part
           else if has_part then Inl (if method = ''PUT'' then InvalidArgument else NotImplemented)
           else if method = ''PUT'' then Inr Put
           else if method = ''GET'' then Inr Get
           else if method = ''HEAD'' then Inr Head
           else if method = ''DELETE'' then Inr DeleteObject
           else Inl MethodNotAllowed)"

subsection \<open>The canonical query determines the operation\<close>

definition plain_key :: "string \<Rightarrow> bool" where
  "plain_key key \<longleftrightarrow> key \<noteq> [] \<and> CHR ''='' \<notin> set key \<and> key \<noteq> ''X-Amz-Signature''"

abbreviation has_key :: "string \<Rightarrow> string \<times> string \<Rightarrow> bool" where
  "has_key key kv \<equiv> fst kv = key"

definition value_or_empty :: "string \<Rightarrow> string \<Rightarrow> string" where
  "value_or_empty query key = (case query_value query key of None \<Rightarrow> [] | Some v \<Rightarrow> v)"

lemma key_value_no_eq: "CHR ''='' \<notin> set (fst (key_value p))"
  by (auto simp: key_value_def split_once_None dest: split_once_Some split: option.splits)

lemma hd_split_eq: "hd (split_on (CHR ''='') p) = fst (key_value p)"
proof (cases "split_once (CHR ''='') p")
  case None
  then have "CHR ''='' \<notin> set p" by (simp add: split_once_None)
  with None show ?thesis by (simp add: key_value_def split_on_id)
next
  case (Some kv)
  then show ?thesis
    by (cases kv) (auto simp: key_value_def split_on_append dest: split_once_Some)
qed

lemma key_value_rebuild: "CHR ''='' \<notin> set k \<Longrightarrow> key_value (k @ CHR ''='' # v) = (k, v)"
  by (simp add: key_value_def)

lemma filter_query_pairs:
  assumes "plain_key key"
  shows "filter (has_key key) (query_pairs query) = filter (has_key key) (map key_value (split_on (CHR ''&'') query))"
proof -
  have nonempty: "filter (has_key key) (map key_value (filter (\<lambda>s. s \<noteq> []) segs)) = filter (has_key key) (map key_value segs)" for segs
    using assms by (induction segs) (auto simp: plain_key_def key_value_def)
  have unsigned: "filter (has_key key) (filter (\<lambda>(k, _). k \<noteq> ''X-Amz-Signature'') kvs) = filter (has_key key) kvs"
    for kvs :: "(string \<times> string) list"
    using assms by (induction kvs) (auto simp: plain_key_def)
  show ?thesis
    by (simp only: query_pairs_def unsigned nonempty)
qed

lemma key_count_pairs:
  "plain_key key \<Longrightarrow> key_count query key = length (filter (has_key key) (query_pairs query))"
  by (simp add: key_count_def filter_query_pairs hd_split_eq filter_map comp_def)

lemma query_flag_pairs:
  assumes "plain_key key"
  shows "query_flag query key \<longleftrightarrow> filter (has_key key) (query_pairs query) \<noteq> []"
proof -
  have "(pair = key \<or> (case split_once (CHR ''='') pair of None \<Rightarrow> False | Some (k, _) \<Rightarrow> k = key))
      \<longleftrightarrow> fst (key_value pair) = key" for pair
  proof (cases "split_once (CHR ''='') pair")
    case (Some kv)
    then have "pair \<noteq> key"
      using assms split_once_None [of "CHR ''=''" pair] by (auto simp: plain_key_def)
    with Some show ?thesis by (auto simp: key_value_def)
  qed (simp add: key_value_def)
  then show ?thesis
    by (simp add: query_flag_def filter_query_pairs [OF assms] list_ex_iff filter_empty_conv)
qed

lemma query_flag_count: "plain_key key \<Longrightarrow> query_flag query key \<longleftrightarrow> 0 < key_count query key"
  by (simp add: query_flag_pairs key_count_pairs)

lemma value_or_empty_pairs:
  assumes "plain_key key" "key_count query key \<le> 1"
  shows "value_or_empty query key =
     (case filter (has_key key) (query_pairs query) of [] \<Rightarrow> [] | kv # _ \<Rightarrow> snd kv)"
proof -
  have "length (filter (has_key key) (map key_value segs)) \<le> 1 \<Longrightarrow>
      (case map_option snd (find (\<lambda>(k, _). k = key) (List.map_filter (split_once (CHR ''='')) segs)) of None \<Rightarrow> [] | Some v \<Rightarrow> v) =
      (case filter (has_key key) (map key_value segs) of [] \<Rightarrow> [] | kv # _ \<Rightarrow> snd kv)" for segs
  proof (induction segs)
    case (Cons seg segs)
    show ?case
    proof (cases "split_once (CHR ''='') seg")
      case None
      then have kv: "key_value seg = (seg, [])" by (simp add: key_value_def)
      show ?thesis
      proof (cases "seg = key")
        case True
        with kv Cons.prems have none: "filter (has_key key) (map key_value segs) = []"
          by (simp add: filter_map)
        with Cons.IH have "(case map_option snd (find (\<lambda>(k, _). k = key) (List.map_filter (split_once (CHR ''='')) segs)) of None \<Rightarrow> [] | Some v \<Rightarrow> v) = []"
          by simp
        with None True kv none show ?thesis
          by (simp add: map_filter_simps)
      next
        case False
        with None Cons kv show ?thesis by (simp add: map_filter_simps)
      qed
    next
      case (Some kv)
      with Cons show ?thesis by (cases kv) (auto simp: key_value_def map_filter_simps)
    qed
  qed (simp add: map_filter_simps)
  with assms show ?thesis
    by (simp add: value_or_empty_def query_value_def key_count_pairs filter_query_pairs)
qed

lemma query_pairs_pieces:
  "(k, v) \<in> set (query_pairs query) \<Longrightarrow>
     CHR ''='' \<notin> set k \<and> CHR ''&'' \<notin> set (k @ CHR ''='' # v) \<and> k \<noteq> ''X-Amz-Signature''"
proof -
  assume "(k, v) \<in> set (query_pairs query)"
  then obtain p where p: "p \<in> set (split_on (CHR ''&'') query)" "key_value p = (k, v)" "k \<noteq> ''X-Amz-Signature''"
    by (auto simp: query_pairs_def)
  then have "CHR ''&'' \<notin> set p"
    by (blast dest: split_on_no_sep)
  then have "CHR ''&'' \<notin> set k \<union> set v"
    using p(2) by (auto simp: key_value_def dest!: split_once_Some split: option.splits)
  then show ?thesis
    using p key_value_no_eq [of p] by simp
qed

lemma query_pairs_canonical: "query_pairs (canonicalize_query query) = sort (query_pairs query)"
proof -
  define kvs where "kvs = sort (query_pairs query)"
  define render where "render = (\<lambda>(k :: string, v). k @ CHR ''='' # v)"
  have ok: "CHR ''='' \<notin> set k \<and> CHR ''&'' \<notin> set (render (k, v)) \<and> k \<noteq> ''X-Amz-Signature''" if "(k, v) \<in> set kvs" for k v
    using query_pairs_pieces [of k v query] that by (simp add: kvs_def render_def)
  then have "\<forall>p \<in> set (map render kvs). CHR ''&'' \<notin> set p"
    by auto
  then have "filter (\<lambda>s. s \<noteq> []) (split_on (CHR ''&'') (join_with (CHR ''&'') (map render kvs))) = map render kvs"
    by (cases "kvs = []") (auto simp: split_join filter_id_conv render_def)
  moreover have "map key_value (map render kvs) = kvs"
    using ok by (auto simp: render_def key_value_rebuild intro!: map_idI)
  moreover have "filter (\<lambda>(k, _). k \<noteq> ''X-Amz-Signature'') kvs = kvs"
    using ok by (auto simp: filter_id_conv)
  ultimately have "query_pairs (join_with (CHR ''&'') (map render kvs)) = kvs"
    unfolding query_pairs_def by simp
  then show ?thesis
    by (simp add: canonicalize_query_def render_def kvs_def)
qed

text \<open>
  What the server reads of a key that occurs at most once is the same in the query it received and
  in the query that was signed.
\<close>

lemma length_filter_sort: "length (filter p (sort xs)) = length (filter p xs)"
  by (simp add: filter_sort)

lemma single_filter_sort:
  "length (filter p xs) \<le> 1 \<Longrightarrow> filter p (sort xs) = filter p xs"
proof -
  assume "length (filter p xs) \<le> 1"
  then have "sort (filter p xs) = filter p xs"
    by (cases "filter p xs"; cases "tl (filter p xs)") auto
  then show ?thesis
    by (simp add: filter_sort)
qed

lemma signed_query_same:
  assumes "plain_key key"
  shows "key_count (canonicalize_query query) key = key_count query key"
    and "query_flag (canonicalize_query query) key = query_flag query key"
    and "key_count query key \<le> 1 \<Longrightarrow> value_or_empty (canonicalize_query query) key = value_or_empty query key"
proof -
  show count: "key_count (canonicalize_query query) key = key_count query key"
    by (simp add: key_count_pairs [OF assms] query_pairs_canonical length_filter_sort)
  then show "query_flag (canonicalize_query query) key = query_flag query key"
    by (simp add: query_flag_count [OF assms])
  assume "key_count query key \<le> 1"
  with count show "value_or_empty (canonicalize_query query) key = value_or_empty query key"
    by (simp add: value_or_empty_pairs [OF assms] query_pairs_canonical key_count_pairs [OF assms] single_filter_sort)
qed

lemma part_number_empty: "part_number_of (query_value query key) = part_number_of (Some (value_or_empty query key))"
  by (cases "query_value query key") (simp_all add: part_number_of_def value_or_empty_def parse_i32_def parse_signed_def)

lemma classify_session_values:
  "classify_session method query has_part =
     (let i = value_or_empty query ''uploadId'' in
      if i = [] then Inl InvalidArgument
      else if method = ''PUT'' then
        (case part_number_of (Some (value_or_empty query ''partNumber'')) of
           None \<Rightarrow> Inl InvalidArgument
         | Some n \<Rightarrow> Inr (UploadPart i n))
      else if method = ''POST'' \<and> \<not> has_part then Inr (CompleteMultipart i)
      else if method = ''DELETE'' \<and> \<not> has_part then Inr (AbortMultipart i)
      else if method = ''POST'' \<or> method = ''DELETE'' then Inl InvalidArgument
      else Inl NotImplemented)"
  unfolding classify_session_def part_number_empty
  by (cases "query_value query ''uploadId''") (simp_all add: value_or_empty_def [of query "''uploadId''"])

lemma signed_session_same:
  assumes "key_count query ''uploadId'' \<le> 1" "key_count query ''partNumber'' \<le> 1"
  shows "classify_session method (canonicalize_query query) has_part = classify_session method query has_part"
proof -
  have "plain_key ''uploadId''" "plain_key ''partNumber''"
    by (simp_all add: plain_key_def)
  then show ?thesis
    unfolding classify_session_values by (simp only: signed_query_same(3) assms)
qed

lemma signed_flags_same:
  "list_all plain_key keys \<Longrightarrow> list_ex (query_flag (canonicalize_query query)) keys = list_ex (query_flag query) keys"
  by (induction keys) (simp_all add: signed_query_same)

lemma classify_canonical:
  "classify method (canonicalize_query query) copy_source = classify method query copy_source"
proof -
  have keys: "plain_key ''uploads''" "plain_key ''uploadId''" "plain_key ''partNumber''"
    by (simp_all add: plain_key_def)
  have "list_all plain_key unsupported_flags"
    by (simp add: plain_key_def unsupported_flags_def)
  note flags = signed_flags_same [OF this, of query] signed_query_same(1,2) [of _ query, OF keys(1)]
    signed_query_same(1,2) [of _ query, OF keys(2)] signed_query_same(1,2) [of _ query, OF keys(3)]
  have counts: "list_ex (\<lambda>key. 1 < key_count (canonicalize_query query) key) [''uploads'', ''uploadId'', ''partNumber''] =
      list_ex (\<lambda>key. 1 < key_count query key) [''uploads'', ''uploadId'', ''partNumber'']"
    by (simp add: flags)
  show ?thesis
  proof (cases "list_ex (\<lambda>key. 1 < key_count query key) [''uploads'', ''uploadId'', ''partNumber'']")
    case True
    then have "classify method q copy_source = (if copy_source \<or> list_ex (query_flag q) unsupported_flags
        then Inl NotImplemented else Inl InvalidArgument)" if "q \<in> {query, canonicalize_query query}" for q
      using that counts unfolding classify_def Let_def by (elim insertE emptyE) (simp_all only: if_True)
    then show ?thesis
      by (simp add: flags)
  next
    case False
    then have "classify_session method (canonicalize_query query) has_part = classify_session method query has_part" for has_part
      by (intro signed_session_same) (simp_all add: not_less)
    then show ?thesis
      unfolding classify_def counts flags by (simp only:)
  qed
qed

text \<open>
  C15. The signature of a request covers the operation: a request is classified by the query as it
  arrived, but the server would reach the same operation, upload id and part number, or the same
  refusal, from the canonical query that went into the signature. Reordering, dropping empty
  segments, adding a second signature parameter or any other change that keeps the signature valid
  cannot turn one operation into another.
\<close>

theorem signature_covers_operation:
  "classify method (canonicalize_query query) copy_source = classify method query copy_source"
  by (rule classify_canonical)

section \<open>completion.rs\<close>

definition MIN_PART_BYTES :: int where
  "MIN_PART_BYTES = 5 * 1024 * 1024"

datatype completion_error = InvalidPart | InvalidPartOrder | EntityTooSmall

definition completion_error_code :: "completion_error \<Rightarrow> string" where
  "completion_error_code e = (case e of InvalidPart \<Rightarrow> ''InvalidPart''
     | InvalidPartOrder \<Rightarrow> ''InvalidPartOrder'' | EntityTooSmall \<Rightarrow> ''EntityTooSmall'')"

definition completion_error_message :: "completion_error \<Rightarrow> string" where
  "completion_error_message e = (case e of
       InvalidPart \<Rightarrow> ''a listed part is invalid, missing or has a mismatched etag''
     | InvalidPartOrder \<Rightarrow> ''parts must be in ascending order without duplicates''
     | EntityTooSmall \<Rightarrow> ''each non-final part must be at least 5 MiB'')"

text \<open>Collecting into a hash map: a later entry for the same number replaces an earlier one.\<close>

definition ledger_entry :: "(int \<times> int \<times> string) list \<Rightarrow> int \<Rightarrow> (int \<times> string) option" where
  "ledger_entry ledger = map_of (rev ledger)"

fun reconcile_each :: "(int \<times> int \<times> string) list \<Rightarrow> (int \<times> string) list \<Rightarrow> completion_error + (int \<times> int \<times> string) list" where
  "reconcile_each ledger [] = Inr []"
| "reconcile_each ledger ((number, etag) # rest) = (case ledger_entry ledger number of
      None \<Rightarrow> Inl InvalidPart
    | Some (sz, recorded) \<Rightarrow>
        if sz < 0 \<or> \<not> eq_ic recorded (trim_char (CHR 0x22) etag) then Inl InvalidPart
        else (case reconcile_each ledger rest of
            Inl e \<Rightarrow> Inl e
          | Inr completion \<Rightarrow> Inr ((number, sz, recorded) # completion)))"

definition reconcile :: "(int \<times> string) list \<Rightarrow> (int \<times> int \<times> string) list \<Rightarrow> completion_error + (int \<times> int \<times> string) list" where
  "reconcile client_parts ledger =
     (if client_parts = [] \<or> list_ex (\<lambda>(n, _). \<not> (1 \<le> n \<and> n \<le> 10000)) client_parts then Inl InvalidPart
      else if adjacent_ex (\<lambda>a b. fst b \<le> fst a) client_parts then Inl InvalidPartOrder
      else case reconcile_each ledger client_parts of
          Inl e \<Rightarrow> Inl e
        | Inr completion \<Rightarrow>
            if list_ex (\<lambda>(_, sz, _). sz < MIN_PART_BYTES) (take (length completion - 1) completion)
            then Inl EntityTooSmall
            else Inr completion)"

text \<open>A part of the request and the part of the ledger that answers it.\<close>

definition part_answers :: "(int \<times> int \<times> string) list \<Rightarrow> int \<times> string \<Rightarrow> int \<times> int \<times> string \<Rightarrow> bool" where
  "part_answers ledger asked p = (case p of (n, sz, recorded) \<Rightarrow>
     n = fst asked \<and> ledger_entry ledger n = Some (sz, recorded) \<and> 0 \<le> sz \<and>
     eq_ic recorded (trim_char (CHR 0x22) (snd asked)))"

lemma ascending_iff: "\<not> adjacent_ex (\<lambda>a b. f b \<le> f a) xs \<longleftrightarrow> sorted_wrt (\<lambda>a b. f a < f b) xs" for f :: "'a \<Rightarrow> int"
  by (induction xs rule: induct_list012) (auto simp: not_le intro: less_trans)

lemma reconcile_each_iff: "reconcile_each ledger parts = Inr completion \<longleftrightarrow> list_all2 (part_answers ledger) parts completion"
proof (induction parts arbitrary: completion)
  case (Cons part parts)
  obtain n etag where part: "part = (n, etag)" by (cases part)
  show ?case
  proof (cases "ledger_entry ledger n")
    case None
    then show ?thesis by (auto simp: part part_answers_def list_all2_Cons1)
  next
    case (Some found)
    obtain sz recorded where found: "found = (sz, recorded)" by (cases found)
    show ?thesis
      unfolding part list_all2_Cons1 Cons.IH [symmetric]
      by (cases "reconcile_each ledger parts") (auto simp: Some found part_answers_def)
  qed
qed auto

text \<open>
  C16. CompleteMultipartUpload accepts exactly the part lists that describe the upload: a non-empty
  list of part numbers from 1 to 10000 in strictly ascending order, every one measured in the ledger
  with an ETag equal to the client's (up to case and quotes), every part but the last at least
  5 MiB. What it then completes are the ledger's sizes and ETags of exactly those parts, in order.
\<close>

theorem reconcile_exact:
  "reconcile parts ledger = Inr completion \<longleftrightarrow>
     parts \<noteq> [] \<and> list_all (\<lambda>(n, _). 1 \<le> n \<and> n \<le> 10000) parts \<and> sorted_wrt (\<lambda>a b. fst a < fst b) parts \<and>
     list_all2 (part_answers ledger) parts completion \<and>
     list_all (\<lambda>(_, sz, _). MIN_PART_BYTES \<le> sz) (butlast completion)"
proof -
  have range: "list_ex (\<lambda>(n, _). \<not> (1 \<le> n \<and> n \<le> 10000)) parts \<longleftrightarrow> \<not> list_all (\<lambda>(n, _). 1 \<le> n \<and> n \<le> 10000) parts"
    by (induction parts) auto
  have small: "list_ex (\<lambda>(_, sz, _). sz < MIN_PART_BYTES) (take (length c - 1) c)
      \<longleftrightarrow> \<not> list_all (\<lambda>(_, sz, _). MIN_PART_BYTES \<le> sz) (butlast c)" for c :: "(int \<times> int \<times> string) list"
    by (auto simp: butlast_conv_take list_ex_iff list_all_iff not_le split_beta)
  show ?thesis
    unfolding reconcile_def range small ascending_iff [symmetric] reconcile_each_iff [symmetric]
    by (cases "reconcile_each ledger parts") auto
qed

section \<open>integrity.rs\<close>

datatype digest_error = InvalidDigest | BadDigest

definition digest_error_code :: "digest_error \<Rightarrow> string" where
  "digest_error_code e = (case e of InvalidDigest \<Rightarrow> ''InvalidDigest'' | BadDigest \<Rightarrow> ''BadDigest'')"

definition verify_base64 :: "(string \<Rightarrow> string option) \<Rightarrow> string \<Rightarrow> string \<Rightarrow> digest_error + unit" where
  "verify_base64 base64_decode expected actual = (case base64_decode expected of
      None \<Rightarrow> Inl InvalidDigest
    | Some decoded \<Rightarrow> if length decoded \<noteq> length actual then Inl InvalidDigest
        else if decoded \<noteq> actual then Inl BadDigest else Inr ())"

definition verify_hex :: "(string \<Rightarrow> string option) \<Rightarrow> (string \<Rightarrow> string option) \<Rightarrow> string \<Rightarrow> string \<Rightarrow> digest_error + unit" where
  "verify_hex base64_decode hex_decode expected actual = (case hex_decode actual of
      None \<Rightarrow> Inl BadDigest
    | Some bs \<Rightarrow> verify_base64 base64_decode expected bs)"

definition is_conditional_header :: "string \<Rightarrow> bool" where
  "is_conditional_header name \<longleftrightarrow> name \<in> set [''if-match'', ''if-none-match'', ''if-modified-since'',
     ''if-unmodified-since'', ''if-range'', ''x-amz-if-match-size'', ''x-amz-if-match-last-modified-time'']"

definition if_match_matches :: "string \<Rightarrow> string option \<Rightarrow> bool" where
  "if_match_matches value etag \<longleftrightarrow>
     (if trim value = ''*'' then True
      else case etag of
          None \<Rightarrow> False
        | Some e \<Rightarrow> list_ex (\<lambda>candidate. trim candidate = CHR 0x22 # e @ [CHR 0x22]) (split_on (CHR '','') value))"

section \<open>multipart.rs\<close>

text \<open>
  The document as the XML crate presents it: elements with a namespace and a local name, text, and
  other nodes (comments, processing instructions). The parser is an argument.
\<close>

datatype xml = Element (xml_namespace: "string option") (xml_name: string) (xml_children: "xml list") | XmlText string | OtherNode

definition is_element :: "xml \<Rightarrow> bool" where
  "is_element node = (case node of Element _ _ _ \<Rightarrow> True | _ \<Rightarrow> False)"

definition S3_NAMESPACE :: string where
  "S3_NAMESPACE = ''http://s3.amazonaws.com/doc/2006-03-01/''"

definition text_of :: "xml list \<Rightarrow> string" where
  "text_of nodes = concat (map (\<lambda>node. case node of XmlText t \<Rightarrow> t | _ \<Rightarrow> []) nodes)"

definition part_field :: "xml \<Rightarrow> string \<Rightarrow> string + string" where
  "part_field part name =
     (case filter (\<lambda>node. is_element node \<and> xml_name node = name \<and> xml_namespace node = xml_namespace part) (xml_children part) of
        [] \<Rightarrow> Inl ''missing part field''
      | node # others \<Rightarrow>
          if others \<noteq> [] \<or> list_ex is_element (xml_children node) then Inl ''invalid part field''
          else Inr (text_of (xml_children node)))"

fun parse_parts :: "string option \<Rightarrow> xml list \<Rightarrow> string + (int \<times> string) list" where
  "parse_parts ns [] = Inr []"
| "parse_parts ns (part # rest) =
     (if xml_name part \<noteq> ''Part'' \<or> xml_namespace part \<noteq> ns then Inl ''expected Part''
      else case part_field part ''PartNumber'' of
          Inl e \<Rightarrow> Inl e
        | Inr number \<Rightarrow> (case part_field part ''ETag'' of
              Inl e \<Rightarrow> Inl e
            | Inr etag \<Rightarrow> (case parse_i32 (trim number) of
                  None \<Rightarrow> Inl ''invalid PartNumber''
                | Some n \<Rightarrow> (case parse_parts ns rest of
                      Inl e \<Rightarrow> Inl e
                    | Inr ps \<Rightarrow> Inr ((n, trim_char (CHR 0x22) (trim etag)) # ps)))))"

definition parse_complete_multipart :: "(string \<Rightarrow> xml option) \<Rightarrow> string \<Rightarrow> string + (int \<times> string) list" where
  "parse_complete_multipart parse body = (case parse body of
      None \<Rightarrow> Inl ''invalid XML document''
    | Some root \<Rightarrow>
        if xml_name root \<noteq> ''CompleteMultipartUpload'' \<or>
           \<not> (xml_namespace root = None \<or> xml_namespace root = Some S3_NAMESPACE)
        then Inl ''expected CompleteMultipartUpload''
        else (case parse_parts (xml_namespace root) (filter is_element (xml_children root)) of
            Inl e \<Rightarrow> Inl e
          | Inr parts \<Rightarrow> if parts = [] then Inl ''the part list is empty'' else Inr parts))"

end
