(* ===== verification/S3_Provider.thy ===== *)
theory S3_Provider
  imports Prelude
begin

text \<open>
  \<open>storage-provider/src/s3.rs\<close>: what the program makes of the answers of an S3-compatible
  provider. The SDK's calls are a parameter, the record \<open>sdk\<close>, over a state \<open>'w\<close> of the outside
  world; the metrics wrapper around each call returns the call's result and is left out. A loop
  that a misbehaving provider can keep alive is a \<open>partial_function\<close>: \<open>None\<close> means that it
  never returns.
\<close>

section \<open>The SDK\<close>

record sdk_error =
  se_not_found :: bool
  se_status :: "nat option"

datatype provider_error = Sdk sdk_error | ProviderMessage string

record head_output =
  ho_length :: "int option"
  ho_etag :: "string option"

record get_output =
  go_length :: "int option"
  go_body :: string

record part_item =
  pi_number :: "int option"
  pi_size :: "int option"
  pi_etag :: "string option"

record parts_page =
  pp_parts :: "part_item list"
  pp_truncated :: "bool option"
  pp_next :: "string option"

record upload_item =
  ui_key :: "string option"
  ui_upload_id :: "string option"

record uploads_page =
  up_uploads :: "upload_item list"
  up_truncated :: "bool option"
  up_next_key :: "string option"
  up_next_upload_id :: "string option"

text \<open>Every call takes the bucket first.\<close>

record 'w sdk =
  sdk_head :: "string \<Rightarrow> string \<Rightarrow> ('w, sdk_error, head_output) eff"
  sdk_get :: "string \<Rightarrow> string \<Rightarrow> string option \<Rightarrow> ('w, sdk_error, get_output) eff"
  sdk_delete :: "string \<Rightarrow> string \<Rightarrow> ('w, sdk_error, unit) eff"
  sdk_put :: "string \<Rightarrow> string \<Rightarrow> string option \<Rightarrow> string \<Rightarrow> ('w, sdk_error, unit) eff"
  sdk_create_multipart :: "string \<Rightarrow> string \<Rightarrow> string option \<Rightarrow> ('w, sdk_error, string option) eff"
  sdk_upload_part :: "string \<Rightarrow> string \<Rightarrow> string \<Rightarrow> int \<Rightarrow> string \<Rightarrow> ('w, sdk_error, string option) eff"
  sdk_list_parts :: "string \<Rightarrow> string \<Rightarrow> string \<Rightarrow> string option \<Rightarrow> ('w, sdk_error, parts_page) eff"
  sdk_complete :: "string \<Rightarrow> string \<Rightarrow> string \<Rightarrow> (int \<times> string) list \<Rightarrow> ('w, sdk_error, string option) eff"
  sdk_abort :: "string \<Rightarrow> string \<Rightarrow> string \<Rightarrow> ('w, sdk_error, unit) eff"
  sdk_list_uploads :: "string \<Rightarrow> string \<Rightarrow> string option \<Rightarrow> string option \<Rightarrow> ('w, sdk_error, uploads_page) eff"
  sdk_presign_put :: "string \<Rightarrow> string \<Rightarrow> string option \<Rightarrow> int \<Rightarrow> ('w, sdk_error, string) eff"
  sdk_presign_get :: "string \<Rightarrow> string \<Rightarrow> string option \<Rightarrow> int \<Rightarrow> ('w, sdk_error, string) eff"
  sdk_presign_part :: "string \<Rightarrow> string \<Rightarrow> string \<Rightarrow> int \<Rightarrow> int \<Rightarrow> ('w, sdk_error, string) eff"

section \<open>Storage settings and the client cache\<close>

record storage_spec =
  ss_endpoint :: string
  ss_public_endpoint :: string
  ss_region :: string
  ss_bucket :: string
  ss_force_path_style :: bool
  ss_access_key :: string
  ss_secret_key :: string

datatype address = InternalAddress | PublicAddress

definition endpoint_of :: "storage_spec \<Rightarrow> address \<Rightarrow> string" where
  "endpoint_of spec address = (case address of InternalAddress \<Rightarrow> ss_endpoint spec | PublicAddress \<Rightarrow> ss_public_endpoint spec)"

text \<open>
  \<open>S3ClientCache\<close>: entries by (storage id, address). \<open>build\<close> is the construction of a client by the
  SDK; a poisoned lock skips the read or the write.
\<close>

type_synonym 'c client_cache = "string \<times> address \<Rightarrow> (storage_spec \<times> 'c) option"

definition cache_get :: "(storage_spec \<Rightarrow> address \<Rightarrow> 'c) \<Rightarrow> bool \<Rightarrow> bool \<Rightarrow> string \<Rightarrow> storage_spec \<Rightarrow> address
    \<Rightarrow> 'c client_cache \<Rightarrow> 'c \<times> 'c client_cache" where
  "cache_get build readable writable i spec address cache =
     (let fresh = build spec address;
          stored = (if writable then cache((i, address) \<mapsto> (spec, fresh)) else cache)
      in if readable then
           (case cache (i, address) of
              Some (cached_spec, storage) \<Rightarrow> if cached_spec = spec then (storage, cache) else (fresh, stored)
            | None \<Rightarrow> (fresh, stored))
         else (fresh, stored))"

definition cache_ok :: "(storage_spec \<Rightarrow> address \<Rightarrow> 'c) \<Rightarrow> 'c client_cache \<Rightarrow> bool" where
  "cache_ok build cache \<longleftrightarrow> (\<forall>i a spec c. cache (i, a) = Some (spec, c) \<longrightarrow> c = build spec a)"

section \<open>Single objects\<close>

definition strip_etag :: "string option \<Rightarrow> string \<Rightarrow> provider_error + string" where
  "strip_etag etag op = (case etag of
      None \<Rightarrow> Inl (ProviderMessage (op @ '' returned no etag''))
    | Some e \<Rightarrow> Inr (trim_char (CHR 0x22) e))"

definition head_object :: "'w sdk \<Rightarrow> string \<Rightarrow> string \<Rightarrow> ('w, provider_error, (int \<times> string) option) eff" where
  "head_object S bucket key w = (case sdk_head S bucket key w of
      (Inr head, w') \<Rightarrow>
        (case ho_length head of
           None \<Rightarrow> (Inl (ProviderMessage ''head_object returned no content length''), w')
         | Some sz \<Rightarrow> (case strip_etag (ho_etag head) ''head_object'' of
               Inl e \<Rightarrow> (Inl e, w')
             | Inr etag \<Rightarrow> (Inr (Some (sz, etag)), w')))
    | (Inl e, w') \<Rightarrow> if se_not_found e then (Inr None, w') else (Inl (Sdk e), w'))"

definition open_read :: "'w sdk \<Rightarrow> string \<Rightarrow> string \<Rightarrow> ('w, provider_error, (string \<times> int) option) eff" where
  "open_read S bucket key w = (case sdk_get S bucket key None w of
      (Inr out, w') \<Rightarrow> (case go_length out of
          None \<Rightarrow> (Inl (ProviderMessage ''get_object returned no content length''), w')
        | Some len \<Rightarrow> (Inr (Some (go_body out, len)), w'))
    | (Inl e, w') \<Rightarrow> if se_not_found e then (Inr None, w') else (Inl (Sdk e), w'))"

text \<open>\<open>show_int\<close> prints an \<open>i64\<close> in decimal.\<close>

definition open_read_range :: "(int \<Rightarrow> string) \<Rightarrow> 'w sdk \<Rightarrow> string \<Rightarrow> string \<Rightarrow> int \<Rightarrow> int
    \<Rightarrow> ('w, provider_error, (string \<times> int) option) eff" where
  "open_read_range show_int S bucket key start final w =
     (case sdk_get S bucket key (Some (''bytes='' @ show_int start @ ''-'' @ show_int final)) w of
      (Inr out, w') \<Rightarrow> (Inr (Some (go_body out, (case go_length out of None \<Rightarrow> final - start + 1 | Some len \<Rightarrow> len))), w')
    | (Inl e, w') \<Rightarrow> if se_not_found e then (Inr None, w') else (Inl (Sdk e), w'))"

definition sdk_result :: "(sdk_error + 'a) \<times> 'w \<Rightarrow> (provider_error + 'a) \<times> 'w" where
  "sdk_result x = (case x of (Inl e, w) \<Rightarrow> (Inl (Sdk e), w) | (Inr a, w) \<Rightarrow> (Inr a, w))"

definition put_object_from_path :: "'w sdk \<Rightarrow> string \<Rightarrow> string \<Rightarrow> string \<Rightarrow> string option \<Rightarrow> ('w, provider_error, unit) eff" where
  "put_object_from_path S bucket key body content_type w = sdk_result (sdk_put S bucket key content_type body w)"

definition delete_object :: "'w sdk \<Rightarrow> string \<Rightarrow> string \<Rightarrow> ('w, provider_error, unit) eff" where
  "delete_object S bucket key w = sdk_result (sdk_delete S bucket key w)"

section \<open>File names in headers\<close>

definition attr_char :: "char \<Rightarrow> bool" where
  "attr_char c \<longleftrightarrow> is_digit c \<or> is_lower c \<or> (65 \<le> code c \<and> code c \<le> 90) \<or> c \<in> set ''!#$&+-.^_`|~''"

definition hex_upper :: "nat \<Rightarrow> char" where
  "hex_upper n = (if n < 10 then char_of (48 + n) else char_of (55 + n))"

definition percent :: "char \<Rightarrow> string" where
  "percent c = [CHR ''%'', hex_upper (code c div 16), hex_upper (code c mod 16)]"

definition rfc5987_encode :: "string \<Rightarrow> string" where
  "rfc5987_encode value = concat (map (\<lambda>c. if attr_char c then [c] else percent c) value)"

section \<open>Presigned URLs\<close>

definition presign_put :: "'w sdk \<Rightarrow> string \<Rightarrow> string \<Rightarrow> string option \<Rightarrow> int \<Rightarrow> ('w, provider_error, string) eff" where
  "presign_put S bucket key content_type expires_in w = sdk_result (sdk_presign_put S bucket key content_type expires_in w)"

definition presign_get :: "'w sdk \<Rightarrow> string \<Rightarrow> string \<Rightarrow> string option \<Rightarrow> int \<Rightarrow> ('w, provider_error, string) eff" where
  "presign_get S bucket key filename expires_in w = sdk_result (sdk_presign_get S bucket key
     (map_option (\<lambda>n. ''attachment; filename*=UTF-8'' @ [CHR 0x27, CHR 0x27] @ rfc5987_encode n) filename) expires_in w)"

definition presign_upload_part :: "'w sdk \<Rightarrow> string \<Rightarrow> string \<Rightarrow> string \<Rightarrow> int \<Rightarrow> int \<Rightarrow> ('w, provider_error, string) eff" where
  "presign_upload_part S bucket key upload_id n expires_in w = sdk_result (sdk_presign_part S bucket key upload_id n expires_in w)"

section \<open>Multipart\<close>

definition create_multipart :: "'w sdk \<Rightarrow> string \<Rightarrow> string \<Rightarrow> string option \<Rightarrow> ('w, provider_error, string) eff" where
  "create_multipart S bucket key content_type w = (case sdk_create_multipart S bucket key content_type w of
      (Inl e, w') \<Rightarrow> (Inl (Sdk e), w')
    | (Inr None, w') \<Rightarrow> (Inl (ProviderMessage ''create_multipart returned no upload id''), w')
    | (Inr (Some i), w') \<Rightarrow> (Inr i, w'))"

definition upload_part_from_path :: "'w sdk \<Rightarrow> string \<Rightarrow> string \<Rightarrow> string \<Rightarrow> int \<Rightarrow> string \<Rightarrow> ('w, provider_error, string) eff" where
  "upload_part_from_path S bucket key upload_id n body w = (case sdk_upload_part S bucket key upload_id n body w of
      (Inl e, w') \<Rightarrow> (Inl (Sdk e), w')
    | (Inr etag, w') \<Rightarrow> (strip_etag etag ''upload_part'', w'))"

definition read_part :: "part_item \<Rightarrow> provider_error + (int \<times> int \<times> string)" where
  "read_part p = (case pi_number p of
      None \<Rightarrow> Inl (ProviderMessage ''list_parts returned a part without number'')
    | Some n \<Rightarrow> (case pi_size p of
          None \<Rightarrow> Inl (ProviderMessage ''list_parts returned a part without size'')
        | Some sz \<Rightarrow> (case pi_etag p of
              None \<Rightarrow> Inl (ProviderMessage ''list_parts returned a part without etag'')
            | Some etag \<Rightarrow> Inr (n, sz, trim_char (CHR 0x22) etag))))"

fun read_parts :: "part_item list \<Rightarrow> provider_error + (int \<times> int \<times> string) list" where
  "read_parts [] = Inr []"
| "read_parts (p # ps) = (case read_part p of
      Inl e \<Rightarrow> Inl e
    | Inr x \<Rightarrow> (case read_parts ps of Inl e \<Rightarrow> Inl e | Inr xs \<Rightarrow> Inr (x # xs)))"

partial_function (option) list_parts_loop :: "'w sdk \<Rightarrow> string \<Rightarrow> string \<Rightarrow> string \<Rightarrow> string option
    \<Rightarrow> (int \<times> int \<times> string) list \<Rightarrow> 'w \<Rightarrow> ((provider_error + (int \<times> int \<times> string) list) \<times> 'w) option" where
  "list_parts_loop S bucket key upload_id marker acc w =
     (case sdk_list_parts S bucket key upload_id marker w of
        (Inl e, w') \<Rightarrow> Some (Inl (Sdk e), w')
      | (Inr out, w') \<Rightarrow>
          (case read_parts (pp_parts out) of
             Inl e \<Rightarrow> Some (Inl e, w')
           | Inr ps \<Rightarrow>
               if pp_truncated out = Some True then
                 (if pp_next out = None \<or> pp_next out = marker then Some (Inr (acc @ ps), w')
                  else list_parts_loop S bucket key upload_id (pp_next out) (acc @ ps) w')
               else Some (Inr (acc @ ps), w')))"

declare list_parts_loop.simps [code]

definition list_parts :: "'w sdk \<Rightarrow> string \<Rightarrow> string \<Rightarrow> string \<Rightarrow> 'w \<Rightarrow> ((provider_error + (int \<times> int \<times> string) list) \<times> 'w) option" where
  "list_parts S bucket key upload_id w = list_parts_loop S bucket key upload_id None [] w"

definition complete_multipart :: "'w sdk \<Rightarrow> string \<Rightarrow> string \<Rightarrow> string \<Rightarrow> (int \<times> string) list \<Rightarrow> ('w, provider_error, string) eff" where
  "complete_multipart S bucket key upload_id parts w = (case sdk_complete S bucket key upload_id parts w of
      (Inl e, w') \<Rightarrow> (Inl (Sdk e), w')
    | (Inr etag, w') \<Rightarrow> (strip_etag etag ''complete_multipart'', w'))"

definition abort_multipart :: "'w sdk \<Rightarrow> string \<Rightarrow> string \<Rightarrow> string \<Rightarrow> ('w, provider_error, unit) eff" where
  "abort_multipart S bucket key upload_id w = (case sdk_abort S bucket key upload_id w of
      (Inr _, w') \<Rightarrow> (Inr (), w')
    | (Inl e, w') \<Rightarrow> if se_status e = Some 404 then (Inr (), w') else (Inl (Sdk e), w'))"

fun abort_all :: "'w sdk \<Rightarrow> string \<Rightarrow> string \<Rightarrow> string list \<Rightarrow> ('w, provider_error, unit) eff" where
  "abort_all S bucket key [] w = (Inr (), w)"
| "abort_all S bucket key (u # us) w = (case abort_multipart S bucket key u w of
      (Inl e, w') \<Rightarrow> (Inl e, w')
    | (Inr _, w') \<Rightarrow> abort_all S bucket key us w')"

definition MAX_PAGES :: nat where
  "MAX_PAGES = 1000"

definition sessions_of :: "string \<Rightarrow> uploads_page \<Rightarrow> string list" where
  "sessions_of key out = List.map_filter ui_upload_id (filter (\<lambda>u. ui_key u = Some key) (up_uploads out))"

function abort_by_key_loop :: "'w sdk \<Rightarrow> string \<Rightarrow> string \<Rightarrow> string option \<Rightarrow> string option
    \<Rightarrow> (string option \<times> string option) list \<Rightarrow> ('w, provider_error, unit) eff" where
  "abort_by_key_loop S bucket key key_marker id_marker seen w =
     (if \<not> length seen < MAX_PAGES then (Inl (ProviderMessage ''multipart cleanup page limit exceeded''), w)
      else if (key_marker, id_marker) \<in> set seen
      then (Inl (ProviderMessage ''list_multipart_uploads repeated a pagination marker''), w)
      else case sdk_list_uploads S bucket key key_marker id_marker w of
          (Inl e, w1) \<Rightarrow> (Inl (Sdk e), w1)
        | (Inr out, w1) \<Rightarrow>
            (case abort_all S bucket key (sessions_of key out) w1 of
               (Inl e, w2) \<Rightarrow> (Inl e, w2)
             | (Inr _, w2) \<Rightarrow>
                 if up_truncated out \<noteq> Some True then (Inr (), w2)
                 else if up_next_key out = None \<or> up_next_key out = Some []
                 then (Inl (ProviderMessage ''list_multipart_uploads truncated without a next key marker''), w2)
                 else abort_by_key_loop S bucket key (up_next_key out) (up_next_upload_id out)
                        ((key_marker, id_marker) # seen) w2))"
  by pat_completeness auto
termination
  by (relation "measure (\<lambda>(S, bucket, key, km, im, seen, w). MAX_PAGES - length seen)") auto

declare abort_by_key_loop.simps [simp del]

definition abort_multipart_by_key :: "'w sdk \<Rightarrow> string \<Rightarrow> string \<Rightarrow> ('w, provider_error, unit) eff" where
  "abort_multipart_by_key S bucket key w = abort_by_key_loop S bucket key None None [] w"

section \<open>The cache is transparent\<close>

text \<open>
  The client cache is transparent: whatever is cached, and whether or not its locks are
  usable, a lookup returns the client of exactly the requested settings and address, and the
  cache keeps this property; changed credentials or endpoints are therefore used at once.
\<close>

theorem client_cache_transparent:
  assumes "cache_ok build cache"
  shows "fst (cache_get build readable writable i spec address cache) = build spec address \<and>
    cache_ok build (snd (cache_get build readable writable i spec address cache))"
proof -
  have stored: "cache_ok build (if writable then cache((i, address) \<mapsto> (spec, build spec address)) else cache)"
    using assms by (auto simp: cache_ok_def)
  show ?thesis
  proof (cases "cache (i, address)")
    case None
    with stored show ?thesis by (simp add: cache_get_def Let_def)
  next
    case (Some entry)
    obtain s c where e: "entry = (s, c)" by (cases entry)
    have "c = build s address" using assms Some e by (simp add: cache_ok_def)
    with Some e stored assms show ?thesis by (auto simp: cache_get_def Let_def)
  qed
qed

theorem client_cache_transparent_witness:
  "let spec = \<lparr>ss_endpoint = ''i'', ss_public_endpoint = ''p'', ss_region = ''r'', ss_bucket = ''b'', ss_force_path_style = True,
         ss_access_key = ''a'', ss_secret_key = ''k''\<rparr>
   in fst (cache_get endpoint_of True True ''s'' spec PublicAddress
        (snd (cache_get endpoint_of True True ''s'' spec InternalAddress Map.empty))) = ''p''"
proof -
  let ?spec = "\<lparr>ss_endpoint = ''i'', ss_public_endpoint = ''p'', ss_region = ''r'', ss_bucket = ''b'', ss_force_path_style = True,
         ss_access_key = ''a'', ss_secret_key = ''k''\<rparr>"
  have "cache_ok endpoint_of Map.empty" by (simp add: cache_ok_def)
  then have "cache_ok endpoint_of (snd (cache_get endpoint_of True True ''s'' ?spec InternalAddress Map.empty))"
    using client_cache_transparent by blast
  from client_cache_transparent [OF this, of True True "''s''" ?spec PublicAddress] show ?thesis
    by (simp add: endpoint_of_def)
qed

section \<open>Encoded names can be read back\<close>

text \<open>The reader of RFC 3986: a percent sign and two hex digits stand for a byte.\<close>

definition hex_digit_value :: "char \<Rightarrow> nat" where
  "hex_digit_value c = (if is_digit c then code c - 48 else if is_lower c then code c - 87 else code c - 55)"

fun percent_decode :: "string \<Rightarrow> string" where
  "percent_decode (c # a # b # cs) =
     (if c = CHR ''%'' \<and> is_hexdigit a \<and> is_hexdigit b
      then char_of (16 * hex_digit_value a + hex_digit_value b) # percent_decode cs
      else c # percent_decode (a # b # cs))"
| "percent_decode (c # cs) = c # percent_decode cs"
| "percent_decode [] = []"

lemma code_char_of [simp]: "n < 256 \<Longrightarrow> code (char_of n) = n"
  by (simp add: code_def)

lemma hex_upper_value: "n < 16 \<Longrightarrow> is_hexdigit (hex_upper n) \<and> hex_digit_value (hex_upper n) = n"
  by (simp add: hex_upper_def is_hexdigit_def is_digit_def is_lower_def hex_digit_value_def)

lemma code_bound: "code c < 256"
  by (simp add: code_def)

lemma percent_value: "16 * hex_digit_value (hex_upper (code c div 16)) + hex_digit_value (hex_upper (code c mod 16)) = code c"
  using hex_upper_value [of "code c div 16"] hex_upper_value [of "code c mod 16"] code_bound [of c] by simp

lemma percent_hex: "is_hexdigit (hex_upper (code c div 16))" "is_hexdigit (hex_upper (code c mod 16))"
  using hex_upper_value [of "code c div 16"] hex_upper_value [of "code c mod 16"] code_bound [of c] by auto

lemma percent_decode_percent [simp]: "percent_decode (percent c @ cs) = c # percent_decode cs"
  using percent_hex [of c] by (simp add: percent_def percent_value) (simp add: code_def)

lemma percent_decode_plain [simp]: "c \<noteq> CHR ''%'' \<Longrightarrow> percent_decode (c # cs) = c # percent_decode cs"
  by (cases "(c # cs)" rule: percent_decode.cases) auto

lemma attr_char_not_percent: "attr_char c \<Longrightarrow> c \<noteq> CHR ''%''"
  by (auto simp: attr_char_def is_digit_def is_lower_def code_def)

text \<open>
  An encoded file name contains nothing but the characters RFC 5987 allows and percent signs
  (no quote, semicolon, control character or non-ASCII byte reaches the header), and decodes to the
  name it was made from.
\<close>

theorem rfc5987_roundtrip:
  "percent_decode (rfc5987_encode s) = s \<and> list_all (\<lambda>c. attr_char c \<or> c = CHR ''%'') (rfc5987_encode s)"
proof -
  have "attr_char (hex_upper n)" if "n < 16" for n
    using that by (simp add: hex_upper_def attr_char_def is_digit_def is_lower_def)
  then have hex: "attr_char (hex_upper (code c div 16))" "attr_char (hex_upper (code c mod 16))" for c
    using code_bound [of c] by simp_all
  have enc: "rfc5987_encode (c # cs) = (if attr_char c then [c] else percent c) @ rfc5987_encode cs" for c cs
    by (simp add: rfc5987_encode_def)
  have nil: "rfc5987_encode [] = []" by (simp add: rfc5987_encode_def)
  show ?thesis
  proof (induction s)
    case (Cons c cs)
    then show ?case
      using hex [of c] by (cases "attr_char c") (auto simp: enc attr_char_not_percent, auto simp: percent_def)
  qed (simp add: nil)
qed

section \<open>Listing parts\<close>

text \<open>The pages a provider serves for one listing, one after the other.\<close>

fun serves :: "'w sdk \<Rightarrow> string \<Rightarrow> string \<Rightarrow> string \<Rightarrow> string option \<Rightarrow> parts_page list \<Rightarrow> 'w \<Rightarrow> 'w \<Rightarrow> bool" where
  "serves S bucket key u marker [] w w' \<longleftrightarrow> False"
| "serves S bucket key u marker (out # outs) w w' \<longleftrightarrow> (case sdk_list_parts S bucket key u marker w of
      (Inl e, w1) \<Rightarrow> False
    | (Inr out', w1) \<Rightarrow> out' = out \<and>
        (if outs = [] then pp_truncated out \<noteq> Some True \<and> w' = w1
         else pp_truncated out = Some True \<and> pp_next out \<noteq> None \<and> pp_next out \<noteq> marker \<and>
           serves S bucket key u (pp_next out) outs w1 w'))"

lemma list_parts_loop_serves:
  assumes "serves S bucket key u marker outs w w'" "list_all2 (\<lambda>out ps. read_parts (pp_parts out) = Inr ps) outs pss"
  shows "list_parts_loop S bucket key u marker acc w = Some (Inr (acc @ concat pss), w')"
  using assms
proof (induction outs arbitrary: marker acc w pss)
  case (Cons out outs)
  from Cons.prems(2) obtain ps pss' where pss: "pss = ps # pss'" "read_parts (pp_parts out) = Inr ps"
    "list_all2 (\<lambda>out ps. read_parts (pp_parts out) = Inr ps) outs pss'"
    by (auto simp: list_all2_Cons1)
  from Cons.prems(1) obtain w1 where w1: "sdk_list_parts S bucket key u marker w = (Inr out, w1)"
    by (auto split: prod.splits sum.splits)
  show ?case
  proof (cases "outs = []")
    case True
    with Cons.prems(1) w1 pss show ?thesis by (subst list_parts_loop.simps) auto
  next
    case False
    with Cons.prems(1) w1 have "pp_truncated out = Some True" "pp_next out \<noteq> None" "pp_next out \<noteq> marker"
      and rest: "serves S bucket key u (pp_next out) outs w1 w'" by auto
    then show ?thesis
      using w1 pss(1,2) Cons.IH [OF rest pss(3), of "acc @ ps"] by (subst list_parts_loop.simps) auto
  qed
qed simp

text \<open>
  Listing the parts of an upload follows the pages to the end: if the provider serves a finite
  sequence of pages whose markers advance and whose parts are complete, the call returns their
  concatenation in order.
\<close>

theorem list_parts_collects_pages:
  assumes "serves S bucket key u None outs w w'" "list_all2 (\<lambda>out ps. read_parts (pp_parts out) = Inr ps) outs pss"
  shows "list_parts S bucket key u w = Some (Inr (concat pss), w')"
  using list_parts_loop_serves [OF assms, of "[]"] by (simp add: list_parts_def)

text \<open>
  C9. The guard of the pagination loop is not enough to end it: a provider whose pages are all
  truncated and whose next marker merely differs from the current one (two markers that alternate,
  say) keeps \<open>list_parts\<close> running for ever, whatever has been collected.
\<close>

theorem list_parts_may_not_return:
  assumes "\<And>marker w. \<exists>out w'. sdk_list_parts S bucket key u marker w = (Inr out, w') \<and> pp_parts out = [] \<and>
      pp_truncated out = Some True \<and> pp_next out \<noteq> None \<and> pp_next out \<noteq> marker"
  shows "list_parts S bucket key u w = None"
proof -
  have never: "T = S \<and> b = bucket \<and> k = key \<and> v = u \<longrightarrow> False" if "list_parts_loop T b k v m acc x = Some y" for T b k v m acc x y
  proof (rule list_parts_loop.raw_induct [OF _ that, where P = "\<lambda>T b k v m acc x y. T = S \<and> b = bucket \<and> k = key \<and> v = u \<longrightarrow> False"])
    fix loop T b k v m acc x and y :: "(provider_error + (int \<times> int \<times> string) list) \<times> 'a"
    assume IH: "\<And>T b k v m acc x y. loop T b k v m acc x = Some y \<Longrightarrow> T = S \<and> b = bucket \<and> k = key \<and> v = u \<longrightarrow> False"
      and body: "(case sdk_list_parts T b k v m x of
        (Inl e, w') \<Rightarrow> Some (Inl (Sdk e), w')
      | (Inr out, w') \<Rightarrow>
          (case read_parts (pp_parts out) of
             Inl e \<Rightarrow> Some (Inl e, w')
           | Inr ps \<Rightarrow>
               if pp_truncated out = Some True then
                 (if pp_next out = None \<or> pp_next out = m then Some (Inr (acc @ ps), w')
                  else loop T b k v (pp_next out) (acc @ ps) w')
               else Some (Inr (acc @ ps), w'))) = Some y"
    show "T = S \<and> b = bucket \<and> k = key \<and> v = u \<longrightarrow> False"
    proof
      assume eq: "T = S \<and> b = bucket \<and> k = key \<and> v = u"
      obtain out w' where out: "sdk_list_parts S bucket key u m x = (Inr out, w')" "pp_parts out = []"
        "pp_truncated out = Some True" "pp_next out \<noteq> None" "pp_next out \<noteq> m"
        using assms by blast
      with body eq have "loop T b k v (pp_next out) (acc @ []) w' = Some y" by simp
      from IH [OF this] eq show False by blast
    qed
  qed
  show ?thesis
  proof (cases "list_parts_loop S bucket key u None [] w")
    case (Some y)
    from never [OF this] show ?thesis by simp
  qed (simp add: list_parts_def)
qed

section \<open>Aborting every session of a key\<close>

lemma abort_all_effect:
  assumes ends: "\<And>u w x w'. sdk_abort S bucket key u w = (x, w') \<Longrightarrow>
      (\<forall>v. live w' v \<longrightarrow> live w v) \<and> ((case x of Inr _ \<Rightarrow> True | Inl e \<Rightarrow> se_status e = Some 404) \<longrightarrow> \<not> live w' u)"
    and "abort_all S bucket key us w = (Inr (), w')"
  shows "(\<forall>v. live w' v \<longrightarrow> live w v \<and> v \<notin> set us)"
  using assms(2)
proof (induction us arbitrary: w)
  case (Cons u us)
  obtain x w1 where a: "sdk_abort S bucket key u w = (x, w1)" by fastforce
  with Cons.prems have ok: "case x of Inr _ \<Rightarrow> True | Inl e \<Rightarrow> se_status e = Some 404"
    and rest: "abort_all S bucket key us w1 = (Inr (), w')"
    by (auto simp: abort_multipart_def split: sum.splits if_splits)
  from ends [OF a] ok Cons.IH [OF rest] show ?case by auto
qed simp

lemma abort_by_key_loop_closes:
  assumes ends: "\<And>u w x w'. sdk_abort S bucket key u w = (x, w') \<Longrightarrow>
      (\<forall>v. live w' v \<longrightarrow> live w v) \<and> ((case x of Inr _ \<Rightarrow> True | Inl e \<Rightarrow> se_status e = Some 404) \<longrightarrow> \<not> live w' u)"
    and lists: "\<And>km im w out w'. sdk_list_uploads S bucket key km im w = (Inr out, w') \<Longrightarrow>
      (\<forall>v. live w' v \<longrightarrow> live w v) \<and>
      (\<forall>v. live w v \<and> after (km, im) v \<longrightarrow> v \<in> set (sessions_of key out) \<or>
         up_truncated out = Some True \<and> after (up_next_key out, up_next_upload_id out) v)"
  shows "abort_by_key_loop S bucket key km im seen w = (Inr (), w') \<Longrightarrow> \<forall>v. live w v \<longrightarrow> after (km, im) v \<Longrightarrow>
    \<not> live w' v"
proof (induction "MAX_PAGES - length seen" arbitrary: km im seen w rule: less_induct)
  case less
  obtain o1 w1 where l: "sdk_list_uploads S bucket key km im w = (o1, w1)" by fastforce
  with less.prems(1) obtain out where out: "o1 = Inr out"
    by (subst (asm) abort_by_key_loop.simps) (auto split: if_splits sum.splits)
  note listed = lists [OF l [unfolded out]]
  obtain a w2 where ab: "abort_all S bucket key (sessions_of key out) w1 = (a, w2)" by fastforce
  with less.prems(1) l out have a: "a = Inr ()" and small: "length seen < MAX_PAGES"
    by (subst (asm) abort_by_key_loop.simps, auto split: if_splits sum.splits)+
  have gone: "\<forall>v. live w2 v \<longrightarrow> live w1 v \<and> v \<notin> set (sessions_of key out)"
    by (rule abort_all_effect [OF ends ab [unfolded a]])
  show ?case
  proof (cases "up_truncated out = Some True")
    case False
    then have "w' = w2" using less.prems(1) l out ab a
      by (subst (asm) abort_by_key_loop.simps) (auto split: if_splits)
    with False gone listed less.prems(2) show ?thesis by blast
  next
    case True
    then have rest: "abort_by_key_loop S bucket key (up_next_key out) (up_next_upload_id out) ((km, im) # seen) w2 = (Inr (), w')"
      using less.prems(1) l out ab a by (subst (asm) abort_by_key_loop.simps) (auto split: if_splits)
    show ?thesis
    proof (rule less.hyps [OF _ rest])
      show "MAX_PAGES - length ((km, im) # seen) < MAX_PAGES - length seen" using small by simp
      show "\<forall>v. live w2 v \<longrightarrow> after (up_next_key out, up_next_upload_id out) v"
        using gone listed less.prems(2) by blast
    qed
  qed
qed

text \<open>
  C8. When aborting by key reports success, no multipart session of that key is left: given that
  an abort the provider acknowledges (or answers with 404) ends the session, and that a page lists
  every live session of the key after its marker that the next page will not (the documented
  listing order, \<open>after\<close>), every live session has been ended. The loop makes at most \<open>MAX_PAGES\<close>
  listings, so it always returns.
\<close>

theorem abort_by_key_closes_all_sessions:
  assumes "\<And>u w x w'. sdk_abort S bucket key u w = (x, w') \<Longrightarrow>
      (\<forall>v. live w' v \<longrightarrow> live w v) \<and> ((case x of Inr _ \<Rightarrow> True | Inl e \<Rightarrow> se_status e = Some 404) \<longrightarrow> \<not> live w' u)"
    and "\<And>km im w out w'. sdk_list_uploads S bucket key km im w = (Inr out, w') \<Longrightarrow>
      (\<forall>v. live w' v \<longrightarrow> live w v) \<and>
      (\<forall>v. live w v \<and> after (km, im) v \<longrightarrow> v \<in> set (sessions_of key out) \<or>
         up_truncated out = Some True \<and> after (up_next_key out, up_next_upload_id out) v)"
    and "\<And>v. after (None, None) v"
    and "abort_multipart_by_key S bucket key w = (Inr (), w')"
  shows "\<not> live w' v"
  by (rule abort_by_key_loop_closes [OF assms(1,2) assms(4) [unfolded abort_multipart_by_key_def]])
    (use assms(3) in auto)


section \<open>Concrete providers\<close>

definition refusing_sdk :: "'w sdk" where
  "refusing_sdk = (let no = \<lparr>se_not_found = False, se_status = None\<rparr> in
     \<lparr>sdk_head = \<lambda>b k w. (Inl no, w), sdk_get = \<lambda>b k r w. (Inl no, w), sdk_delete = \<lambda>b k w. (Inl no, w),
      sdk_put = \<lambda>b k ct body w. (Inl no, w), sdk_create_multipart = \<lambda>b k ct w. (Inl no, w),
      sdk_upload_part = \<lambda>b k u n body w. (Inl no, w), sdk_list_parts = \<lambda>b k u m w. (Inl no, w),
      sdk_complete = \<lambda>b k u ps w. (Inl no, w), sdk_abort = \<lambda>b k u w. (Inl no, w),
      sdk_list_uploads = \<lambda>b k km im w. (Inl no, w), sdk_presign_put = \<lambda>b k ct t w. (Inl no, w),
      sdk_presign_get = \<lambda>b k ct t w. (Inl no, w), sdk_presign_part = \<lambda>b k u n t w. (Inl no, w)\<rparr>)"

definition two_pages :: "parts_page list" where
  "two_pages = [\<lparr>pp_parts = [\<lparr>pi_number = Some 1, pi_size = Some 5, pi_etag = Some ''a''\<rparr>], pp_truncated = Some True, pp_next = Some ''1''\<rparr>,
     \<lparr>pp_parts = [\<lparr>pi_number = Some 2, pi_size = Some 3, pi_etag = Some ''b''\<rparr>], pp_truncated = None, pp_next = None\<rparr>]"

definition paged_sdk :: "unit sdk" where
  "paged_sdk = refusing_sdk\<lparr>sdk_list_parts := \<lambda>b k u m w. (Inr (two_pages ! (if m = None then 0 else 1)), w)\<rparr>"

theorem list_parts_collects_pages_witness:
  "list_parts paged_sdk ''b'' ''k'' ''u'' () = Some (Inr [(1, 5, ''a''), (2, 3, ''b'')], ())"
proof -
  have "serves paged_sdk ''b'' ''k'' ''u'' None two_pages () ()"
    by (simp add: paged_sdk_def two_pages_def)
  moreover have "list_all2 (\<lambda>out ps. read_parts (pp_parts out) = Inr ps) two_pages [[(1, 5, ''a'')], [(2, 3, ''b'')]]"
    by (simp add: two_pages_def read_part_def trim_char_def)
  ultimately show ?thesis using list_parts_collects_pages by fastforce
qed

definition alternating_sdk :: "unit sdk" where
  "alternating_sdk = refusing_sdk\<lparr>sdk_list_parts := \<lambda>b k u m w.
     (Inr \<lparr>pp_parts = [], pp_truncated = Some True, pp_next = Some (if m = Some ''a'' then ''b'' else ''a'')\<rparr>, w)\<rparr>"

theorem list_parts_may_not_return_witness:
  "list_parts alternating_sdk ''b'' ''k'' ''u'' () = None"
  by (rule list_parts_may_not_return) (simp add: alternating_sdk_def)

text \<open>Multipart sessions of one key, listed one to a page.\<close>

definition sessions_sdk :: "string \<Rightarrow> string list sdk" where
  "sessions_sdk key = refusing_sdk\<lparr>
     sdk_abort := \<lambda>b k u w. (Inr (), filter (\<lambda>v. v \<noteq> u) w),
     sdk_list_uploads := \<lambda>b k km im w. (Inr \<lparr>up_uploads = map (\<lambda>u. \<lparr>ui_key = Some key, ui_upload_id = Some u\<rparr>) (take 1 w),
       up_truncated = Some (1 < length w), up_next_key = Some key, up_next_upload_id = Some (hd w)\<rparr>, w)\<rparr>"

theorem abort_by_key_closes_all_sessions_witness:
  "\<exists>w'. abort_multipart_by_key (sessions_sdk ''k'') ''b'' ''k'' [''u'', ''v''] = (Inr (), w') \<and> ''v'' \<notin> set w'"
proof -
  have run: "abort_multipart_by_key (sessions_sdk ''k'') ''b'' ''k'' [''u'', ''v''] = (Inr (), [])"
    by (simp add: abort_multipart_by_key_def abort_by_key_loop.simps sessions_sdk_def MAX_PAGES_def sessions_of_def
        map_filter_simps abort_multipart_def)
  have "\<not> ''v'' \<in> set ([] :: string list)"
  proof (rule abort_by_key_closes_all_sessions [where S = "sessions_sdk ''k''" and bucket = "''b''" and key = "''k''"
        and live = "\<lambda>w v. v \<in> set w" and after = "\<lambda>m v. True", OF _ _ _ run])
    fix u w x w' assume "sdk_abort (sessions_sdk ''k'') ''b'' ''k'' u w = (x, w')"
    then show "(\<forall>v. v \<in> set w' \<longrightarrow> v \<in> set w) \<and> ((case x of Inr _ \<Rightarrow> True | Inl e \<Rightarrow> se_status e = Some 404) \<longrightarrow> u \<notin> set w')"
      by (auto simp: sessions_sdk_def)
  next
    fix km im w out w' assume l: "sdk_list_uploads (sessions_sdk ''k'') ''b'' ''k'' km im w = (Inr out, w')"
    show "(\<forall>v. v \<in> set w' \<longrightarrow> v \<in> set w) \<and> (\<forall>v. v \<in> set w \<and> True \<longrightarrow>
        v \<in> set (sessions_of ''k'' out) \<or> up_truncated out = Some True \<and> True)"
      using l by (cases w) (auto simp: sessions_sdk_def sessions_of_def map_filter_simps)
  qed simp
  with run show ?thesis by blast
qed

end
