(* ===== verification/Spool.thy ===== *)
theory Spool
  imports Prelude
begin

text \<open>
  \<open>api/src/spool.rs\<close>: admission of transfers to the local spool, and the bounded receive loop that
  measures a request body while writing it to a temporary file. Instants are nanoseconds since the
  receive started. A body is the list of what its stream delivers, each with the instant at which it
  is ready; after the last element the stream stays silent for ever. The hash functions are
  arguments: updating a hasher chunk by chunk is hashing the concatenation.
\<close>

section \<open>Admission\<close>

definition BUDGET_UNIT :: int where
  "BUDGET_UNIT = 1024 * 1024"

definition SPOOL_CONCURRENCY_LIMIT :: int where
  "SPOOL_CONCURRENCY_LIMIT = 16"

text \<open>The permits still available of the two semaphores, and the capacity the budget was made with.\<close>

record spool_budget =
  bu_slots :: int
  bu_bytes :: int
  bu_capacity :: int

definition div_ceil :: "int \<Rightarrow> int \<Rightarrow> int" where
  "div_ceil a b = (a + b - 1) div b"

definition budget_new :: "int \<Rightarrow> spool_budget" where
  "budget_new max_bytes = \<lparr>bu_slots = SPOOL_CONCURRENCY_LIMIT, bu_bytes = max_bytes div BUDGET_UNIT,
     bu_capacity = max_bytes div BUDGET_UNIT\<rparr>"

text \<open>
  A permit is the number of units it holds. A refusal leaves the budget as it was: the slot taken
  before the bytes are refused is dropped at once.
\<close>

definition spool_try_acquire :: "int \<Rightarrow> spool_budget \<Rightarrow> int option \<times> spool_budget" where
  "spool_try_acquire declared_size b =
     (let units = div_ceil declared_size BUDGET_UNIT in
      if declared_size < 0 \<or> 2 ^ 32 \<le> units \<or> bu_slots b < 1 \<or> bu_bytes b < units then (None, b)
      else (Some units, b\<lparr>bu_slots := bu_slots b - 1, bu_bytes := bu_bytes b - units\<rparr>))"

definition release_permit :: "int \<Rightarrow> spool_budget \<Rightarrow> spool_budget" where
  "release_permit units b = b\<lparr>bu_slots := bu_slots b + 1, bu_bytes := bu_bytes b + units\<rparr>"

definition reservations :: "spool_budget \<Rightarrow> int \<times> int \<times> int" where
  "reservations b = ((bu_capacity b - bu_bytes b) * BUDGET_UNIT, bu_capacity b * BUDGET_UNIT, SPOOL_CONCURRENCY_LIMIT - bu_slots b)"

text \<open>What a list of live permits holds of the budget.\<close>

definition budget_ok :: "int list \<Rightarrow> spool_budget \<Rightarrow> bool" where
  "budget_ok held b \<longleftrightarrow> bu_slots b + int (length held) = SPOOL_CONCURRENCY_LIMIT \<and>
     bu_bytes b + sum_list held = bu_capacity b \<and> 0 \<le> bu_slots b \<and> 0 \<le> bu_bytes b \<and> list_all (\<lambda>u. 0 \<le> u) held"

lemma budget_new_ok: "0 \<le> max_bytes \<Longrightarrow> budget_ok [] (budget_new max_bytes)"
  by (simp add: budget_ok_def budget_new_def SPOOL_CONCURRENCY_LIMIT_def BUDGET_UNIT_def pos_imp_zdiv_nonneg_iff)

lemma div_ceil_bounds: "0 < b \<Longrightarrow> a \<le> div_ceil a b * b \<and> div_ceil a b * b < a + b"
  unfolding div_ceil_def
  by (smt (verit) div_mult_mod_eq pos_mod_bound pos_mod_sign)

lemma spool_try_acquire_ok:
  assumes "budget_ok held b" "spool_try_acquire n b = (Some units, b')"
  shows "budget_ok (units # held) b' \<and> 0 \<le> n \<and> n \<le> units * BUDGET_UNIT \<and> bu_capacity b' = bu_capacity b"
proof -
  have "0 \<le> div_ceil n BUDGET_UNIT" if "0 \<le> n"
    using that by (simp add: div_ceil_def BUDGET_UNIT_def)
  moreover have "n \<le> div_ceil n BUDGET_UNIT * BUDGET_UNIT"
    using div_ceil_bounds [of BUDGET_UNIT n] by (simp add: BUDGET_UNIT_def)
  ultimately show ?thesis
    using assms by (auto simp: spool_try_acquire_def budget_ok_def Let_def split: if_splits)
qed

lemma release_permit_ok:
  assumes "budget_ok held b" "units \<in> set held"
  shows "budget_ok (remove1 units held) (release_permit units b)"
proof -
  have "length (remove1 units held) + 1 = length held"
    using assms(2) by (simp add: length_remove1) (metis One_nat_def Suc_pred length_pos_if_in_set)
  moreover have "sum_list (remove1 units held) + units = sum_list held"
    using assms(2) by (induction held) auto
  moreover have "list_all (\<lambda>u. 0 \<le> u) (remove1 units held)" "0 \<le> units"
    using assms by (auto simp: budget_ok_def list_all_iff dest: notin_set_remove1)
  ultimately show ?thesis
    using assms(1) by (auto simp: budget_ok_def release_permit_def)
qed

section \<open>The receive loop\<close>

definition NANOS :: int where
  "NANOS = 1000000000"

definition STREAM_IDLE_TIMEOUT :: int where
  "STREAM_IDLE_TIMEOUT = 30 * NANOS"

definition MIN_BYTES_PER_SECOND :: int where
  "MIN_BYTES_PER_SECOND = 64 * 1024"

definition PROGRESS_WINDOW :: int where
  "PROGRESS_WINDOW = 30 * NANOS"

datatype spool_error = Idle | TooSlow | Deadline | Aborted | TooLarge | Io

record measured =
  ms_written :: int
  ms_md5_hex :: string
  ms_sha256_hex :: "string option"
  ms_crc32 :: "32 word option"

record hashes =
  hs_md5_hex :: "string \<Rightarrow> string"
  hs_sha256_hex :: "string \<Rightarrow> string"
  hs_crc32 :: "string \<Rightarrow> 32 word"

text \<open>When a write to the spool is done, or fails.\<close>

datatype write_end = WriteOk int | WriteFails int

datatype body_event =
    Chunk int string write_end
  | BodyError int
  | BodyEnd int write_end

fun ready_at :: "body_event list \<Rightarrow> int option" where
  "ready_at [] = None"
| "ready_at (Chunk t _ _ # _) = Some t"
| "ready_at (BodyError t # _) = Some t"
| "ready_at (BodyEnd t _ # _) = Some t"

text \<open>\<open>timeout\_at(deadline, write)\<close>: the instant at which it returns and its error, if any.\<close>

definition timed_write :: "int \<Rightarrow> int \<Rightarrow> write_end \<Rightarrow> int \<times> spool_error option" where
  "timed_write deadline now w = (case w of
      WriteOk t \<Rightarrow> if max now t \<le> deadline then (max now t, None) else (deadline, Some Deadline)
    | WriteFails t \<Rightarrow> if max now t \<le> deadline then (max now t, Some Io) else (deadline, Some Deadline))"

record receive =
  rc_now :: int
  rc_idle :: int
  rc_tick :: int
  rc_window_start :: int
  rc_window_written :: int
  rc_data :: string

abbreviation written :: "receive \<Rightarrow> int" where
  "written s \<equiv> int (length (rc_data s))"

text \<open>The instant at which the \<open>select!\<close> wakes: the earliest of its timers and the stream, or at once.\<close>

definition wake :: "int \<Rightarrow> receive \<Rightarrow> body_event list \<Rightarrow> int" where
  "wake deadline s body =
     max (rc_now s) (min deadline (min (rc_idle s) (min (rc_tick s)
       (case ready_at body of None \<Rightarrow> deadline | Some t \<Rightarrow> t))))"

text \<open>The next tick of an interval that skips missed ticks.\<close>

definition next_tick :: "int \<Rightarrow> int \<Rightarrow> int" where
  "next_tick tick now = now + PROGRESS_WINDOW - (now - tick) mod PROGRESS_WINDOW"

definition too_slow :: "receive \<Rightarrow> int \<Rightarrow> bool" where
  "too_slow s now \<longleftrightarrow> (written s - rc_window_written s) * 1000000000 < MIN_BYTES_PER_SECOND * (now - rc_window_start s)"

lemma next_tick_later: "now < next_tick tick now"
  by (simp add: next_tick_def PROGRESS_WINDOW_def NANOS_def)

function receive_loop :: "int \<Rightarrow> int \<Rightarrow> receive \<Rightarrow> body_event list \<Rightarrow> (spool_error + string) \<times> int" where
  "receive_loop declared_size deadline s body =
     (let now = wake deadline s body in
      if deadline \<le> now then (Inl Deadline, now)
      else if rc_idle s \<le> now then (Inl Idle, now)
      else if rc_tick s \<le> now then
        (if too_slow s now then (Inl TooSlow, now)
         else receive_loop declared_size deadline
           (s\<lparr>rc_now := now, rc_tick := next_tick (rc_tick s) now, rc_window_start := now, rc_window_written := written s\<rparr>) body)
      else (case body of
          [] \<Rightarrow> (Inl Deadline, deadline)
        | BodyError _ # _ \<Rightarrow> (Inl Aborted, now)
        | BodyEnd _ flushed # _ \<Rightarrow> (case timed_write deadline now flushed of
              (t, Some e) \<Rightarrow> (Inl e, t)
            | (t, None) \<Rightarrow> (Inr (rc_data s), t))
        | Chunk _ chunk stored # rest \<Rightarrow>
            (let s' = s\<lparr>rc_data := rc_data s @ chunk, rc_idle := (if chunk = [] then rc_idle s else now + STREAM_IDLE_TIMEOUT)\<rparr> in
             if declared_size < written s' then (Inl TooLarge, now)
             else (case timed_write deadline now stored of
                 (t, Some e) \<Rightarrow> (Inl e, t)
               | (t, None) \<Rightarrow> receive_loop declared_size deadline (s'\<lparr>rc_now := t\<rparr>) rest))))"
  by pat_completeness auto
termination
proof (relation "measures [\<lambda>(_, _, _, body). length body, \<lambda>(_, deadline, s, _). nat (deadline - rc_tick s)]")
  fix declared_size deadline :: int and s :: receive and body now
  assume now: "now = wake deadline s body" "\<not> deadline \<le> now" "rc_tick s \<le> now"
  then show "((declared_size, deadline, s\<lparr>rc_now := now, rc_tick := next_tick (rc_tick s) now, rc_window_start := now, rc_window_written := written s\<rparr>, body),
      declared_size, deadline, s, body) \<in> measures [\<lambda>(_, _, _, body). length body, \<lambda>(_, deadline, s, _). nat (deadline - rc_tick s)]"
    using next_tick_later [of now "rc_tick s"] by simp
qed auto

declare receive_loop.simps [simp del]

definition spool_deadline :: "int \<Rightarrow> int" where
  "spool_deadline declared_size = PROGRESS_WINDOW + div_ceil (max 0 declared_size) MIN_BYTES_PER_SECOND * NANOS"

definition receive_start :: receive where
  "receive_start = \<lparr>rc_now = 0, rc_idle = STREAM_IDLE_TIMEOUT, rc_tick = PROGRESS_WINDOW, rc_window_start = 0,
     rc_window_written = 0, rc_data = []\<rparr>"

definition measure_data :: "hashes \<Rightarrow> bool \<Rightarrow> string \<Rightarrow> measured" where
  "measure_data H want_s3_checksums data =
     \<lparr>ms_written = int (length data), ms_md5_hex = hs_md5_hex H data,
      ms_sha256_hex = (if want_s3_checksums then Some (hs_sha256_hex H data) else None),
      ms_crc32 = (if want_s3_checksums then Some (hs_crc32 H data) else None)\<rparr>"

text \<open>The measurement with the bytes left in the temporary file; every error removes the file.\<close>

definition spool_to_temp :: "hashes \<Rightarrow> body_event list \<Rightarrow> int \<Rightarrow> bool \<Rightarrow> spool_error + measured \<times> string" where
  "spool_to_temp H body declared_size want_s3_checksums =
     (case fst (receive_loop declared_size (spool_deadline declared_size) receive_start body) of
        Inl e \<Rightarrow> Inl e
      | Inr data \<Rightarrow> Inr (measure_data H want_s3_checksums data, data))"

section \<open>What a receive guarantees\<close>

text \<open>The bytes of a body that is delivered to its end, and the instant at which its end is ready.\<close>

fun delivered :: "body_event list \<Rightarrow> (string \<times> int) option" where
  "delivered [] = None"
| "delivered (BodyError _ # _) = None"
| "delivered (BodyEnd t _ # _) = Some ([], t)"
| "delivered (Chunk _ chunk _ # rest) = map_option (\<lambda>(data, t). (chunk @ data, t)) (delivered rest)"

definition steady :: "int \<Rightarrow> receive \<Rightarrow> bool" where
  "steady deadline s \<longleftrightarrow> rc_now s \<le> deadline \<and> rc_tick s \<le> rc_window_start s + PROGRESS_WINDOW \<and>
     MIN_BYTES_PER_SECOND * rc_window_start s \<le> rc_window_written s * 1000000000 \<and> rc_window_written s \<le> written s"

lemma next_tick_bound: "next_tick tick now \<le> now + PROGRESS_WINDOW"
  by (simp add: next_tick_def PROGRESS_WINDOW_def NANOS_def)

lemma wake_le: "rc_now s \<le> deadline \<Longrightarrow> wake deadline s body \<le> deadline"
  by (simp add: wake_def)

lemma timed_write_le: "now \<le> deadline \<Longrightarrow> timed_write deadline now w = (t, e) \<Longrightarrow> t \<le> deadline"
  by (auto simp: timed_write_def split: write_end.splits if_splits)

lemma steady_tick:
  assumes "steady deadline s" "\<not> too_slow s now" "now \<le> deadline"
  shows "steady deadline (s\<lparr>rc_now := now, rc_tick := next_tick (rc_tick s) now, rc_window_start := now, rc_window_written := written s\<rparr>)"
  using assms next_tick_bound [of "rc_tick s" now]
  by (simp add: steady_def too_slow_def algebra_simps)

lemma steady_chunk:
  assumes "steady deadline s" "t \<le> deadline"
  shows "steady deadline (s\<lparr>rc_data := rc_data s @ chunk, rc_idle := i, rc_now := t\<rparr>)"
  using assms by (simp add: steady_def)

text \<open>One turn of the loop, by what ends it.\<close>

lemma receive_loop_cases:
  assumes run: "receive_loop n deadline s body = (r, t)" and "rc_now s \<le> deadline"
  obtains e where "r = Inl e" "t \<le> deadline"
  | now where "now = wake deadline s body" "now \<le> deadline" "\<not> too_slow s now"
      "receive_loop n deadline (s\<lparr>rc_now := now, rc_tick := next_tick (rc_tick s) now, rc_window_start := now, rc_window_written := written s\<rparr>) body = (r, t)"
      "now < deadline" "rc_idle s > now" "rc_tick s \<le> now"
  | e flushed rest now where "body = BodyEnd e flushed # rest" "r = Inr (rc_data s)" "t \<le> deadline" "e \<le> now" "now < rc_tick s"
  | e chunk stored rest now t1 where "body = Chunk e chunk stored # rest" "now = wake deadline s body" "t1 \<le> deadline"
      "written s + int (length chunk) \<le> n"
      "receive_loop n deadline (s\<lparr>rc_data := rc_data s @ chunk, rc_idle := (if chunk = [] then rc_idle s else now + STREAM_IDLE_TIMEOUT), rc_now := t1\<rparr>) rest = (r, t)"
proof -
  define now where "now = wake deadline s body"
  have le: "now \<le> deadline" using wake_le [OF assms(2)] by (simp add: now_def)
  consider "deadline \<le> now" | "now < deadline" "rc_idle s \<le> now"
    | "now < deadline" "now < rc_idle s" "rc_tick s \<le> now" | "now < deadline" "now < rc_idle s" "now < rc_tick s"
    by linarith
  then show thesis
  proof cases
    case 1
    then have "r = Inl Deadline" "t = now"
      using run by (simp_all add: receive_loop.simps [of n deadline s body] now_def Let_def)
    with le show thesis by (intro that(1)) simp_all
  next
    case 2
    then have "r = Inl Idle" "t = now"
      using run by (simp_all add: receive_loop.simps [of n deadline s body] now_def Let_def)
    with le show thesis by (intro that(1)) simp_all
  next
    case 3
    show thesis
    proof (cases "too_slow s now")
      case True
      with 3 have "r = Inl TooSlow" "t = now"
        using run by (simp_all add: receive_loop.simps [of n deadline s body] now_def Let_def)
      with le show thesis by (intro that(1)) simp_all
    next
      case False
      with 3 have "receive_loop n deadline (s\<lparr>rc_now := now, rc_tick := next_tick (rc_tick s) now, rc_window_start := now, rc_window_written := written s\<rparr>) body = (r, t)"
        using run by (simp add: receive_loop.simps [of n deadline s body] now_def Let_def)
      with 3 False le show thesis by (intro that(2) [of now]) (simp_all add: now_def)
    qed
  next
    case 4
    have ready: "e \<le> now" if "ready_at body = Some e" for e
      using 4 that by (auto simp: now_def wake_def min_def max_def split: if_splits)
    note step = run [unfolded receive_loop.simps [of n deadline s body] now_def [symmetric] Let_def]
    show thesis
    proof (cases body)
      case Nil
      with 4 step have "r = Inl Deadline" "t = deadline" by simp_all
      then show thesis by (intro that(1)) simp_all
    next
      case (Cons ev rest)
      show thesis
      proof (cases ev)
        case (BodyError e)
        with Cons 4 step have "r = Inl Aborted" "t = now" by simp_all
        with le show thesis by (intro that(1)) simp_all
      next
        case (BodyEnd e flushed)
        obtain t1 f where w: "timed_write deadline now flushed = (t1, f)" by fastforce
        with Cons 4 BodyEnd step have "r = (case f of None \<Rightarrow> Inr (rc_data s) | Some x \<Rightarrow> Inl x)" "t = t1"
          by (cases f; simp)+
        with timed_write_le [OF le w] ready [of e] Cons BodyEnd 4 show thesis
          by (cases f) (auto intro: that(1) that(3))
      next
        case (Chunk e chunk stored)
        obtain t1 f where w: "timed_write deadline now stored = (t1, f)" by fastforce
        have t1: "t1 \<le> deadline" using timed_write_le [OF le w] .
        show thesis
        proof (cases "n < written s + int (length chunk)")
          case True
          with Cons Chunk 4 step have "r = Inl TooLarge" "t = now" by simp_all
          with le show thesis by (intro that(1)) simp_all
        next
          case False
          show thesis
          proof (cases f)
            case None
            with False Cons Chunk 4 step w have "receive_loop n deadline (s\<lparr>rc_data := rc_data s @ chunk, rc_idle := (if chunk = [] then rc_idle s else now + STREAM_IDLE_TIMEOUT), rc_now := t1\<rparr>) rest = (r, t)"
              by simp
            with False Cons Chunk t1 show thesis
              by (intro that(4) [of e chunk stored rest now t1]) (simp_all add: now_def)
          next
            case (Some x)
            with False Cons Chunk 4 step w have "r = Inl x" "t = t1" by simp_all
            with t1 show thesis by (intro that(1)) simp_all
          qed
        qed
      qed
    qed
  qed
qed

definition received_ok :: "int \<Rightarrow> string \<Rightarrow> body_event list \<Rightarrow> string \<Rightarrow> bool" where
  "received_ok n got body data \<longleftrightarrow> (\<exists>more e. delivered body = Some (more, e) \<and> data = got @ more \<and>
     int (length data) \<le> max n (int (length got)) \<and>
     MIN_BYTES_PER_SECOND * (e - PROGRESS_WINDOW) \<le> int (length data) * 1000000000)"

lemma received_ok_chunk:
  assumes "received_ok n (got @ chunk) rest data" "int (length got) + int (length chunk) \<le> n"
  shows "received_ok n got (Chunk e chunk stored # rest) data"
proof -
  obtain more t where "delivered rest = Some (more, t)" "data = got @ chunk @ more"
    "int (length data) \<le> n" "MIN_BYTES_PER_SECOND * (t - PROGRESS_WINDOW) \<le> int (length data) * 1000000000"
    using assms by (auto simp: received_ok_def)
  then show ?thesis
    unfolding received_ok_def by (intro exI [of _ "chunk @ more"] exI [of _ t]) simp
qed

lemma receive_loop_bounded:
  assumes "receive_loop n deadline s body = (r, t)" "steady deadline s"
  shows "t \<le> deadline \<and> pred_sum (\<lambda>_. True) (received_ok n (rc_data s) body) r"
  using assms
proof (induction "length body" arbitrary: body s rule: less_induct)
  case (less body)
  note shorter = less.hyps
  from less.prems show ?case
  proof (induction "nat (deadline - rc_tick s)" arbitrary: s rule: less_induct)
    case (less s)
    have "rc_now s \<le> deadline" using less.prems(2) by (simp add: steady_def)
    from less.prems(1) this show ?case
    proof (cases rule: receive_loop_cases)
      case (1 e)
      then show ?thesis by simp
    next
      case (2 now)
      then have "nat (deadline - next_tick (rc_tick s) now) < nat (deadline - rc_tick s)"
        using next_tick_later [of now "rc_tick s"] by simp
      with steady_tick [OF less.prems(2) 2(3,2)] less.hyps [OF _ 2(4)] show ?thesis
        by simp
    next
      case (3 e flushed rest now)
      have "MIN_BYTES_PER_SECOND * (e - PROGRESS_WINDOW) \<le> MIN_BYTES_PER_SECOND * rc_window_start s"
        using 3(4,5) less.prems(2) by (intro mult_left_mono) (simp_all add: steady_def MIN_BYTES_PER_SECOND_def)
      also have "\<dots> \<le> written s * 1000000000"
        using less.prems(2) by (simp add: steady_def)
      finally show ?thesis using 3 by (simp add: received_ok_def)
    next
      case (4 e chunk stored rest now t1)
      have "length rest < length body" using 4(1) by simp
      from shorter [OF this 4(5) steady_chunk [OF less.prems(2) 4(3)]] 4(1)
      show ?thesis
        by (cases r) (simp_all add: received_ok_chunk [OF _ 4(4)])
    qed
  qed
qed

lemma receive_start_steady: "steady (spool_deadline n) receive_start"
proof -
  have "0 \<le> spool_deadline n"
    by (simp add: spool_deadline_def div_ceil_def PROGRESS_WINDOW_def NANOS_def MIN_BYTES_PER_SECOND_def)
  then show ?thesis
    by (simp add: steady_def receive_start_def PROGRESS_WINDOW_def NANOS_def MIN_BYTES_PER_SECOND_def)
qed

text \<open>
  C19. Receiving a body is bounded in time and space: it ends, one way or another, at the latest 30 s
  plus one second per 64 KiB of the declared size after it started, however slow or silent the
  sender is. When it succeeds the whole body was delivered and no more than the declared size was
  taken, the measurement is that of exactly the bytes left in the spool file, and the sender kept up
  at least 64 KiB/s but for one window of 30 s.
\<close>

theorem receive_is_bounded:
  "snd (receive_loop n (spool_deadline n) receive_start body) \<le> spool_deadline n \<and>
   (case spool_to_temp H body n checksums of
      Inl e \<Rightarrow> True
    | Inr (m, data) \<Rightarrow> (\<exists>e. delivered body = Some (data, e) \<and> m = measure_data H checksums data \<and>
        int (length data) \<le> max n 0 \<and>
        MIN_BYTES_PER_SECOND * (e - PROGRESS_WINDOW) \<le> int (length data) * 1000000000))"
proof -
  obtain r t where run: "receive_loop n (spool_deadline n) receive_start body = (r, t)" by fastforce
  from receive_loop_bounded [OF run receive_start_steady] run show ?thesis
    by (cases r) (auto simp: spool_to_temp_def received_ok_def receive_start_def max.commute)
qed

end
