(* ===== verification/Object_Policy.thy ===== *)
theory Object_Policy
  imports Prelude
begin

text \<open>
  The crate \<open>grove-object-policy\<close>: multipart geometry (\<open>multipart.rs\<close>), upload declarations
  (\<open>validation.rs\<close>) and the recovery decision for an interrupted completion
  (\<open>completion.rs\<close>). Geometry is computed on 64- and 32-bit words with the wrap-around of a
  release build; a division by zero (or \<open>i64::MIN / -1\<close>) panics and is \<open>None\<close>. MD5 and hex
  coding come from third-party crates and are parameters.
\<close>

section \<open>Machine arithmetic\<close>

lemma sint_i64 [simp]: "- (2 ^ 63) \<le> x \<Longrightarrow> x < 2 ^ 63 \<Longrightarrow> sint (word_of_int x :: i64) = x"
  by (simp add: sint_sbintrunc' signed_take_bit_int_eq_self)

lemma sint_i32 [simp]: "- (2 ^ 31) \<le> x \<Longrightarrow> x < 2 ^ 31 \<Longrightarrow> sint (word_of_int x :: i32) = x"
  by (simp add: sint_sbintrunc' signed_take_bit_int_eq_self)

lemma sint_eq_iff: "sint a = sint b \<longleftrightarrow> a = b"
  by (auto dest: signed_word_eqI)

lemma i64_bounds: "- (2 ^ 63) \<le> sint (x :: i64) \<and> sint x < 2 ^ 63"
  using sint_ge [of x] sint_lt [of x] by simp

lemma i64_add: "- (2 ^ 63) \<le> sint a + sint b \<Longrightarrow> sint a + sint b < 2 ^ 63 \<Longrightarrow>
    sint (a + b :: i64) = sint a + sint b"
  by (simp add: sint_word_ariths signed_take_bit_int_eq_self)

lemma i64_diff: "- (2 ^ 63) \<le> sint a - sint b \<Longrightarrow> sint a - sint b < 2 ^ 63 \<Longrightarrow>
    sint (a - b :: i64) = sint a - sint b"
  by (simp add: sint_word_ariths signed_take_bit_int_eq_self)

lemma i64_mult: "- (2 ^ 63) \<le> sint a * sint b \<Longrightarrow> sint a * sint b < 2 ^ 63 \<Longrightarrow>
    sint (a * b :: i64) = sint a * sint b"
  by (simp add: sint_word_ariths signed_take_bit_int_eq_self)

lemma i32_diff: "- (2 ^ 31) \<le> sint a - sint b \<Longrightarrow> sint a - sint b < 2 ^ 31 \<Longrightarrow>
    sint (a - b :: i32) = sint a - sint b"
  by (simp add: sint_word_ariths signed_take_bit_int_eq_self)

text \<open>The casts \<open>x as i32\<close> (keeps the low bits) and \<open>i64::from(x)\<close> (exact).\<close>

definition as_i32 :: "i64 \<Rightarrow> i32" where
  "as_i32 x = word_of_int (sint x)"

definition i64_from :: "i32 \<Rightarrow> i64" where
  "i64_from x = word_of_int (sint x)"

lemma sint_as_i32: "- (2 ^ 31) \<le> sint x \<Longrightarrow> sint x < 2 ^ 31 \<Longrightarrow> sint (as_i32 x) = sint x"
  unfolding as_i32_def by (rule sint_i32)

lemma sint_i64_from [simp]: "sint (i64_from x) = sint x"
proof -
  have "- (2 ^ 31) \<le> sint x" "sint x < 2 ^ 31"
    using sint_ge [of x] sint_lt [of x] by simp_all
  then show ?thesis unfolding i64_from_def by (intro sint_i64) auto
qed

text \<open>Rust's \<open>/\<close> on \<open>i64\<close>: truncating; panics on a zero divisor and on overflow.\<close>

definition i64_div :: "i64 \<Rightarrow> i64 \<Rightarrow> i64 option" where
  "i64_div a b =
     (if sint b = 0 \<or> (sint a = - (2 ^ 63) \<and> sint b = - 1) then None
      else Some (word_of_int (sint a sdiv sint b)))"

definition i64_saturating_mul :: "i64 \<Rightarrow> i64 \<Rightarrow> i64" where
  "i64_saturating_mul a b = word_of_int (max (- (2 ^ 63)) (min (2 ^ 63 - 1) (sint a * sint b)))"

lemma sint_saturating_mul [simp]:
  "sint (i64_saturating_mul a b) = max (- (2 ^ 63)) (min (2 ^ 63 - 1) (sint a * sint b))"
  unfolding i64_saturating_mul_def by (rule sint_i64) auto

lemma sdiv_nonneg: "0 \<le> (a::int) \<Longrightarrow> 0 \<le> b \<Longrightarrow> a sdiv b = a div b"
  by (auto simp: signed_divide_int_def sgn_if)

lemma i64_div_pos:
  assumes "0 \<le> sint a" "0 < sint b"
  shows "\<exists>q. i64_div a b = Some q \<and> sint q = sint a div sint b"
proof -
  have "sint a div sint b \<le> sint a" "0 \<le> sint a div sint b"
    using assms zdiv_mono2 [of "sint a" 1 "sint b"] by (simp_all add: pos_imp_zdiv_nonneg_iff)
  then show ?thesis
    using assms i64_bounds [of a] by (auto simp: i64_div_def sdiv_nonneg)
qed

section \<open>multipart.rs\<close>

definition MAX_PARTS :: i32 where
  "MAX_PARTS = 10000"

definition part_count :: "i64 \<Rightarrow> i64 \<Rightarrow> i32 option" where
  "part_count declared_size part_size =
     map_option as_i32 (i64_div (declared_size + part_size - 1) part_size)"

definition part_expected_size :: "i64 \<Rightarrow> i64 \<Rightarrow> i32 \<Rightarrow> i64 option" where
  "part_expected_size declared_size part_size part_no =
     (case part_count declared_size part_size of
        None \<Rightarrow> None
      | Some count \<Rightarrow>
          Some (if part_no = count
                then declared_size - i64_from (part_no - 1) * part_size
                else part_size))"

definition part_offset :: "i64 \<Rightarrow> i32 \<Rightarrow> 64 word" where
  "part_offset part_size part_no = i64_from (part_no - 1) * part_size"

definition part_number_ok :: "i32 \<Rightarrow> i32 \<Rightarrow> bool" where
  "part_number_ok part_no count \<longleftrightarrow> 1 \<le> sint part_no \<and> sint part_no \<le> sint count"

text \<open>
  \<open>composite_etag\<close>: \<open>md5_hex\<close> is the lower-case hex digest of the concatenated raw digests,
  \<open>hex_decode\<close> the partial decoder whose failure counts as no bytes.
\<close>

fun decimal :: "nat \<Rightarrow> string" where
  "decimal n = (if n < 10 then [char_of (48 + n)] else decimal (n div 10) @ [char_of (48 + n mod 10)])"

declare decimal.simps [simp del]

definition composite_etag :: "(string \<Rightarrow> string) \<Rightarrow> (string \<Rightarrow> string option) \<Rightarrow> string list \<Rightarrow> string" where
  "composite_etag md5_hex hex_decode part_md5s =
     md5_hex (concat (map (\<lambda>m. case hex_decode m of None \<Rightarrow> [] | Some b \<Rightarrow> b) part_md5s))
     @ ''-'' @ decimal (length part_md5s)"

section \<open>validation.rs\<close>

definition MAX_SINGLE_PUT_BYTES :: i64 where
  "MAX_SINGLE_PUT_BYTES = 5 * 1024 * 1024 * 1024"

definition content_type_ok :: "string \<Rightarrow> bool" where
  "content_type_ok content_type \<longleftrightarrow>
     length content_type \<le> 255 \<and> list_all (\<lambda>b. 32 \<le> code b \<and> code b < 127) content_type"

definition classify_upload :: "i64 \<Rightarrow> i64 \<Rightarrow> i64 \<Rightarrow> bool \<Rightarrow> string + bool" where
  "classify_upload declared_size multipart_threshold part_size has_declared_md5 =
     (if sint declared_size < 0 then Inl ''declared_size must be >= 0''
      else
        let multipart = sint declared_size > sint multipart_threshold in
        if multipart then
          (if sint declared_size > sint (i64_saturating_mul part_size (i64_from MAX_PARTS))
           then Inl ''declared_size exceeds the multipart limit''
           else if has_declared_md5
           then Inl ''declared_md5 is not accepted for multipart uploads (verification is per part)''
           else Inr multipart)
        else if sint declared_size > sint MAX_SINGLE_PUT_BYTES
        then Inl ''declared_size exceeds the single-upload limit (5 GiB)''
        else Inr multipart)"

definition declared_md5_format_ok :: "string \<Rightarrow> bool" where
  "declared_md5_format_ok md5 \<longleftrightarrow> length md5 = 32 \<and> list_all is_hexdigit md5"

section \<open>completion.rs\<close>

record object_observation =
  obs_size :: int
  obs_etag :: string

datatype completion_action = Finalize | Reopen | Cleanup

definition completion_action ::
  "int \<Rightarrow> string \<Rightarrow> bool \<Rightarrow> ('e + object_observation option) \<Rightarrow> 'e + completion_action" where
  "completion_action expected_size expected_etag multipart observation =
     (case observation of
        Inl e \<Rightarrow> Inl e
      | Inr None \<Rightarrow> Inr (if multipart then Reopen else Cleanup)
      | Inr (Some observed) \<Rightarrow>
          Inr (if obs_size observed = expected_size \<and> eq_ic (obs_etag observed) expected_etag
               then Finalize else Cleanup))"

section \<open>Geometry of an accepted upload\<close>

lemma MAX_PARTS_val [simp]: "sint MAX_PARTS = 10000"
  by (simp add: MAX_PARTS_def)

lemma part_count_spec:
  assumes "1 \<le> sint d" "1 \<le> sint p" "sint d + sint p \<le> 2 ^ 63" "sint d \<le> sint p * 10000"
  shows "\<exists>c. part_count d p = Some c \<and> sint c = (sint d + sint p - 1) div sint p
    \<and> 1 \<le> sint c \<and> sint c \<le> 10000"
proof -
  let ?n = "sint d + sint p - 1"
  have e: "d + p - 1 = d + (p - 1)" by simp
  have "sint (p - 1) = sint p - 1" using assms i64_bounds [of p] by (subst i64_diff) auto
  then have s: "sint (d + p - 1) = ?n"
    unfolding e using assms by (subst i64_add) auto
  obtain q where q: "i64_div (d + p - 1) p = Some q" "sint q = ?n div sint p"
    using i64_div_pos [of "d + p - 1" p] assms s by auto
  have lo: "1 \<le> ?n div sint p"
    using assms pos_imp_zdiv_pos_iff [of "sint p" ?n] by linarith
  have "?n div sint p < 10001"
  proof (rule ccontr)
    assume "\<not> ?thesis"
    then have "10001 * sint p \<le> (?n div sint p) * sint p"
      using assms by (intro mult_right_mono) auto
    also have "\<dots> \<le> ?n"
      using assms div_mult_mod_eq [of ?n "sint p"] pos_mod_sign [of "sint p" ?n] by linarith
    finally show False using assms by linarith
  qed
  with lo q have "sint (as_i32 q) = ?n div sint p"
    by (subst sint_as_i32) auto
  with lo q \<open>?n div sint p < 10001\<close> show ?thesis
    by (auto simp: part_count_def)
qed

lemma ceil_div_bounds:
  fixes d p :: int
  assumes "1 \<le> d" "1 \<le> p"
  shows "((d + p - 1) div p - 1) * p < d" "d \<le> ((d + p - 1) div p) * p"
proof -
  let ?q = "(d + p - 1) div p"
  have "?q * p + (d + p - 1) mod p = d + p - 1" by simp
  moreover have "0 \<le> (d + p - 1) mod p" "(d + p - 1) mod p < p" using assms by auto
  ultimately have "?q * p \<le> d + p - 1" "d + p - 1 < ?q * p + p" by linarith+
  then show "(?q - 1) * p < d" "d \<le> ?q * p" by (auto simp: algebra_simps)
qed

text \<open>
  The sizes the configuration admits (\<open>core/src/config.rs\<close>: parts between 5 MiB and 5 GiB,
  a positive threshold) keep every intermediate product within 64 bits.
\<close>

definition part_size_configured :: "i64 \<Rightarrow> bool" where
  "part_size_configured p \<longleftrightarrow> 5 * 1024 * 1024 \<le> sint p \<and> sint p \<le> 5 * 1024 * 1024 * 1024"

lemma classify_multipart_bounds:
  assumes "classify_upload d thr p md5 = Inr True" "part_size_configured p" "1 \<le> sint thr"
  shows "1 \<le> sint d" "sint d \<le> sint p * 10000" "1 \<le> sint p" "sint p \<le> 5368709120"
    "sint d + sint p \<le> 2 ^ 63"
  using assms by (auto simp: classify_upload_def part_size_configured_def Let_def split: if_splits)

lemma part_expected_size_spec:
  assumes "1 \<le> sint d" "1 \<le> sint p" "sint p \<le> 5368709120" "sint d \<le> sint p * 10000"
    and c: "part_count d p = Some c" and k: "1 \<le> sint k" "sint k \<le> sint c"
  shows "\<exists>s. part_expected_size d p k = Some s \<and>
    sint s = (if sint k = sint c then sint d - (sint c - 1) * sint p else sint p)"
proof -
  have "sint d + sint p \<le> 2 ^ 63" using assms by simp
  from part_count_spec [OF assms(1,2) this assms(4)] c
  have sc: "sint c = (sint d + sint p - 1) div sint p" "sint c \<le> 10000" by auto
  show ?thesis
  proof (cases "k = c")
    case True
    have k1: "sint (c - 1) = sint c - 1" using k True sc by (subst i32_diff) auto
    have b: "0 \<le> (sint c - 1) * sint p" "(sint c - 1) * sint p < sint d"
      using ceil_div_bounds(1) [OF assms(1,2)] k True assms(2) by (auto simp: sc(1))
    have m: "sint (i64_from (c - 1) * p) = (sint c - 1) * sint p"
      using b i64_bounds [of d] by (subst i64_mult) (auto simp: k1)
    have "sint (d - i64_from (c - 1) * p) = sint d - (sint c - 1) * sint p"
      using b i64_bounds [of d] by (subst i64_diff) (auto simp: m)
    then show ?thesis using True c by (simp add: part_expected_size_def)
  next
    case False
    then have "sint k \<noteq> sint c" by (simp add: sint_eq_iff)
    then show ?thesis using False c by (simp add: part_expected_size_def)
  qed
qed

text \<open>The byte range of part \<open>k\<close>, as the code's own functions give it.\<close>

definition part_range :: "i64 \<Rightarrow> i64 \<Rightarrow> i32 \<Rightarrow> (int \<times> int) option" where
  "part_range d p k = map_option (\<lambda>s. (uint (part_offset p k), uint (part_offset p k) + sint s)) (part_expected_size d p k)"

lemma part_offset_spec:
  assumes "1 \<le> sint k" "0 \<le> (sint k - 1) * sint p" "(sint k - 1) * sint p < 2 ^ 63"
  shows "uint (part_offset p k) = (sint k - 1) * sint p"
proof -
  have k1: "sint (k - 1) = sint k - 1"
    using assms sint_lt [of k] by (subst i32_diff) auto
  have m: "sint (i64_from (k - 1) * p) = (sint k - 1) * sint p"
    using assms by (subst i64_mult) (auto simp: k1)
  have "uint (i64_from (k - 1) * p) = sint (i64_from (k - 1) * p)"
    using m assms(2,3) by (simp add: uint_sint take_bit_int_eq_self)
  then show ?thesis using m by (simp add: part_offset_def)
qed

text \<open>
  C1. An upload that \<open>classify_upload\<close> routes to multipart, under a configured part size, is cut
  into between 1 and \<open>MAX_PARTS\<close> parts whose byte ranges, computed with the code's wrapping
  arithmetic, start at 0, follow each other without gap or overlap, all have the part size
  except the last, and end exactly at the declared size.
\<close>

theorem multipart_parts_tile:
  assumes "classify_upload d thr p md5 = Inr True" "part_size_configured p" "1 \<le> sint thr"
  shows "\<exists>c. part_count d p = Some c \<and> 1 \<le> sint c \<and> sint c \<le> sint MAX_PARTS \<and>
    (\<forall>k. part_number_ok k c \<longrightarrow>
      (\<exists>lo hi. part_range d p k = Some (lo, hi) \<and> lo = (sint k - 1) * sint p \<and> lo < hi \<and>
        hi = (if k = c then sint d else lo + sint p)))"
proof -
  note b = classify_multipart_bounds [OF assms]
  obtain c where c: "part_count d p = Some c"
      "sint c = (sint d + sint p - 1) div sint p" "1 \<le> sint c" "sint c \<le> 10000"
    using part_count_spec [OF b(1,3,5,2)] by auto
  have last: "(sint c - 1) * sint p < sint d"
    using ceil_div_bounds(1) [OF b(1,3)] by (simp add: c(2))
  have "\<exists>lo hi. part_range d p k = Some (lo, hi) \<and> lo = (sint k - 1) * sint p \<and> lo < hi \<and>
        hi = (if k = c then sint d else lo + sint p)" if k: "part_number_ok k c" for k
  proof -
    have k1: "1 \<le> sint k" "sint k \<le> sint c" using k by (auto simp: part_number_ok_def)
    have m: "(sint k - 1) * sint p \<le> (sint c - 1) * sint p"
      using k1 b(3) by (intro mult_right_mono) auto
    have "0 \<le> (sint k - 1) * sint p" using k1 b(3) by simp
    moreover have "(sint k - 1) * sint p < 2 ^ 63" using m last i64_bounds [of d] by linarith
    ultimately have o: "uint (part_offset p k) = (sint k - 1) * sint p"
      by (intro part_offset_spec k1)
    obtain s where "part_expected_size d p k = Some s"
        "sint s = (if sint k = sint c then sint d - (sint c - 1) * sint p else sint p)"
      using part_expected_size_spec [OF b(1,3,4,2) c(1) k1] by auto
    then show ?thesis
      using b(3) last by (auto simp: part_range_def o sint_eq_iff)
  qed
  with c show ?thesis by auto
qed

theorem multipart_parts_tile_witness:
  "classify_upload 20000000 10000000 8388608 False = Inr True \<and>
   (\<exists>c. part_count 20000000 8388608 = Some c \<and> 1 \<le> sint c \<and> sint c \<le> sint MAX_PARTS)"
proof -
  have h: "classify_upload 20000000 10000000 8388608 False = Inr True"
    by (simp add: classify_upload_def MAX_SINGLE_PUT_BYTES_def)
  have "\<exists>c. part_count 20000000 8388608 = Some c \<and> 1 \<le> sint c \<and> sint c \<le> sint MAX_PARTS"
    using multipart_parts_tile [OF h] by (auto simp: part_size_configured_def)
  with h show ?thesis by simp
qed

text \<open>
  The declaration check is decided in the documented order and accepts exactly the sizes the
  two upload routes can carry: a single upload of at most 5 GiB up to the threshold, a multipart
  upload without a whole-object MD5 and of at most \<open>MAX_PARTS\<close> full parts above it.
\<close>

theorem classify_upload_accepts:
  "classify_upload d thr p md5 = Inr m \<longleftrightarrow>
     0 \<le> sint d \<and> m = (sint thr < sint d) \<and>
     (if m then \<not> md5 \<and> sint d \<le> max (- (2 ^ 63)) (min (2 ^ 63 - 1) (sint p * 10000))
      else sint d \<le> 5 * 1024 ^ 3)"
proof -
  have "sint MAX_SINGLE_PUT_BYTES = 5 * 1024 ^ 3"
    by (simp add: MAX_SINGLE_PUT_BYTES_def)
  then show ?thesis
    by (auto simp: classify_upload_def Let_def)
qed

text \<open>
  The recovery decision finalizes only an observed object whose size and ETag are the
  expected ones, reopens only a multipart upload whose object is absent, and passes an
  observation failure on instead of treating it as absence.
\<close>

theorem completion_action_sound:
  "(completion_action sz etag multipart obs = Inr Finalize \<longleftrightarrow>
     (\<exists>ob. obs = Inr (Some ob) \<and> obs_size ob = sz \<and> eq_ic (obs_etag ob) etag)) \<and>
   (completion_action sz etag multipart obs = Inr Reopen \<longleftrightarrow> obs = Inr None \<and> multipart) \<and>
   (completion_action sz etag multipart obs = Inl e \<longleftrightarrow> obs = Inl e)"
  by (auto simp: completion_action_def split: sum.splits option.splits)

end
