(* ===== verification/S3_Http.thy ===== *)
theory S3_Http
  imports S3_Protocol S3_Provider Spool Object_Policy
begin

text \<open>
  What the handlers of the S3 surface share: the headers of a request, the XML answers
  (\<open>s3/xml.rs\<close>), request checksums and read conditions (\<open>s3/integrity.rs\<close>), ranges and response
  overrides (\<open>s3/object_response.rs\<close>).
\<close>

section \<open>Libraries and headers\<close>

text \<open>
  The crates the surface relies on: which header values are readable text and which bytes may be a
  header value (\<open>http\<close>), percent decoding with replacement of invalid UTF-8, the clock format of
  SigV4, UUIDs, HMAC, base64, hex, XML and the CRC-32 of a body.
\<close>

record s3_lib =
  sl_readable :: "string \<Rightarrow> bool"
  sl_header_ok :: "string \<Rightarrow> bool"
  sl_percent_bytes :: "string \<Rightarrow> string"
  sl_lossy :: "string \<Rightarrow> string"
  sl_amz_time :: "string \<Rightarrow> timestamp option"
  sl_uuid :: "string \<Rightarrow> uuid option"
  sl_hmac :: "string \<Rightarrow> string \<Rightarrow> string"
  sl_hex_encode :: "string \<Rightarrow> string"
  sl_hex_decode :: "string \<Rightarrow> string option"
  sl_base64_decode :: "string \<Rightarrow> string option"
  sl_xml :: "string \<Rightarrow> xml option"
  sl_utf8 :: "string \<Rightarrow> bool"
  sl_hashes :: hashes

text \<open>Header names are lower case; a name may occur several times.\<close>

type_synonym headers = "(string \<times> string) list"

definition get_all :: "headers \<Rightarrow> string \<Rightarrow> string list" where
  "get_all hs name = map snd (filter (\<lambda>(n, _). n = name) hs)"

definition has_header :: "headers \<Rightarrow> string \<Rightarrow> bool" where
  "has_header hs name \<longleftrightarrow> get_all hs name \<noteq> []"

definition header_str :: "s3_lib \<Rightarrow> headers \<Rightarrow> string \<Rightarrow> string option" where
  "header_str L hs name = (case get_all hs name of
      [] \<Rightarrow> None
    | v # _ \<Rightarrow> if sl_readable L v then Some v else None)"

definition put_header :: "string \<Rightarrow> string \<Rightarrow> headers \<Rightarrow> headers" where
  "put_header name value hs = (name, value) # filter (\<lambda>(n, _). n \<noteq> name) hs"

text \<open>\<open>if let Ok(value) = HeaderValue::from\_str(..) { headers.insert(..) }\<close>\<close>

definition try_header :: "s3_lib \<Rightarrow> string \<Rightarrow> string \<Rightarrow> headers \<Rightarrow> headers" where
  "try_header L name value hs = (if sl_header_ok L value then put_header name value hs else hs)"

section \<open>xml.rs\<close>

text \<open>
  An answer. Two constructors stand for handlers that give none: \<open>Panic\<close> and \<open>Stalled\<close> (an await
  that never completes).
\<close>

datatype s3_response =
    Reply (rs_status: nat) (rs_headers: headers) (rs_body: string)
  | Panic
  | Stalled

definition quoted :: "string \<Rightarrow> string" where
  "quoted s = CHR 0x22 # s @ [CHR 0x22]"

definition xml_prolog :: string where
  "xml_prolog = ''<?xml version='' @ quoted ''1.0'' @ '' encoding='' @ quoted ''UTF-8'' @ ''?>'' @ [CHR 0x0A]"

definition xml_reply :: "nat \<Rightarrow> string \<Rightarrow> s3_response" where
  "xml_reply st body = Reply st [(''content-type'', ''application/xml'')] (xml_prolog @ body)"

definition xml_error :: "nat \<Rightarrow> string \<Rightarrow> string \<Rightarrow> s3_response" where
  "xml_error st err message =
     xml_reply st (''<Error><Code>'' @ err @ ''</Code><Message>'' @ message @ ''</Message></Error>'')"

definition access_denied :: "string \<Rightarrow> s3_response" where
  "access_denied message = xml_error 403 ''AccessDenied'' message"

definition no_such_key :: s3_response where
  "no_such_key = xml_error 404 ''NoSuchKey'' ''the specified key does not exist''"

definition no_such_upload :: s3_response where
  "no_such_upload = xml_error 404 ''NoSuchUpload'' ''the specified multipart upload does not exist''"

definition escape_char :: "char \<Rightarrow> string" where
  "escape_char c = (if c = CHR ''&'' then ''&amp;'' else if c = CHR ''<'' then ''&lt;''
     else if c = CHR ''>'' then ''&gt;'' else [c])"

text \<open>
  The three replacements one after another: the ampersands they insert are not replaced again, so
  the result is that of one pass over the characters.
\<close>

definition xml_escape :: "string \<Rightarrow> string" where
  "xml_escape value =
     (let amp = concat (map (\<lambda>c. if c = CHR ''&'' then ''&amp;'' else [c]) value);
          lt = concat (map (\<lambda>c. if c = CHR ''<'' then ''&lt;'' else [c]) amp)
      in concat (map (\<lambda>c. if c = CHR ''>'' then ''&gt;'' else [c]) lt))"

definition initiate_result :: "string \<Rightarrow> string \<Rightarrow> string \<Rightarrow> s3_response" where
  "initiate_result bucket key upload_id = xml_reply 200
     (''<InitiateMultipartUploadResult><Bucket>'' @ xml_escape bucket @ ''</Bucket><Key>'' @ xml_escape key @
      ''</Key><UploadId>'' @ xml_escape upload_id @ ''</UploadId></InitiateMultipartUploadResult>'')"

definition complete_result :: "string \<Rightarrow> string \<Rightarrow> string \<Rightarrow> s3_response" where
  "complete_result bucket key etag = xml_reply 200
     (''<CompleteMultipartUploadResult><Bucket>'' @ xml_escape bucket @ ''</Bucket><Key>'' @ xml_escape key @
      ''</Key><ETag>'' @ quoted (xml_escape etag) @ ''</ETag></CompleteMultipartUploadResult>'')"

definition xml_internal :: s3_response where
  "xml_internal = xml_error 500 ''InternalError'' ''internal error''"

definition xml_storage_error :: s3_response where
  "xml_storage_error = xml_error 503 ''ServiceUnavailable'' ''the backend storage is unavailable; retry''"

definition unavailable :: "string \<Rightarrow> s3_response" where
  "unavailable message = xml_error 503 ''ServiceUnavailable'' message"

subsection \<open>Escaping\<close>

lemma xml_escape_chars: "xml_escape s = concat (map escape_char s)"
  by (induction s) (simp_all add: xml_escape_def escape_char_def)

fun unescape :: "string \<Rightarrow> string" where
  "unescape [] = []"
| "unescape (c # cs) =
     (if take 4 cs = ''amp;'' \<and> c = CHR ''&'' then CHR ''&'' # unescape (drop 4 cs)
      else if take 3 cs = ''lt;'' \<and> c = CHR ''&'' then CHR ''<'' # unescape (drop 3 cs)
      else if take 3 cs = ''gt;'' \<and> c = CHR ''&'' then CHR ''>'' # unescape (drop 3 cs)
      else c # unescape cs)"

lemma unescape_escape: "unescape (xml_escape s) = s"
  unfolding xml_escape_chars by (induction s) (simp_all add: escape_char_def)

lemma xml_escape_no_markup: "CHR ''<'' \<notin> set (xml_escape s) \<and> CHR ''>'' \<notin> set (xml_escape s)"
  unfolding xml_escape_chars by (induction s) (simp_all add: escape_char_def)

section \<open>integrity.rs\<close>

definition verify_read_condition :: "s3_lib \<Rightarrow> headers \<Rightarrow> string option \<Rightarrow> s3_response option" where
  "verify_read_condition L hs etag =
     (let values = get_all hs ''if-match'' in
      if values = [] then None
      else if list_all (sl_readable L) values \<and> if_match_matches (join_with (CHR '','') values) etag then None
      else Some (xml_error 412 ''PreconditionFailed'' ''the object etag does not match''))"

text \<open>\<open>u32::to\_be\_bytes\<close>\<close>

definition be_bytes :: "32 word \<Rightarrow> string" where
  "be_bytes w = map (\<lambda>k. char_of (unat (drop_bit (8 * k) w) mod 256)) [3, 2, 1, 0]"

definition digest_matches :: "s3_lib \<Rightarrow> measured \<Rightarrow> string \<Rightarrow> string \<Rightarrow> digest_error + unit" where
  "digest_matches L m name expected =
     (if name = ''content-md5'' then verify_hex (sl_base64_decode L) (sl_hex_decode L) expected (ms_md5_hex m)
      else if name = ''x-amz-checksum-sha256''
      then verify_hex (sl_base64_decode L) (sl_hex_decode L) expected (case ms_sha256_hex m of None \<Rightarrow> [] | Some h \<Rightarrow> h)
      else verify_base64 (sl_base64_decode L) expected (be_bytes (case ms_crc32 m of None \<Rightarrow> 0 | Some c \<Rightarrow> c)))"

fun verify_digests :: "s3_lib \<Rightarrow> headers \<Rightarrow> measured \<Rightarrow> string list \<Rightarrow> s3_response option" where
  "verify_digests L hs m [] = None"
| "verify_digests L hs m (name # names) = (case get_all hs name of
      [] \<Rightarrow> verify_digests L hs m names
    | [value] \<Rightarrow>
        if \<not> sl_readable L value then Some (xml_error 400 ''InvalidDigest'' ''invalid checksum header'')
        else (case digest_matches L m name value of
            Inl e \<Rightarrow> Some (xml_error 400 (digest_error_code e) ''invalid or mismatched request checksum'')
          | Inr _ \<Rightarrow> verify_digests L hs m names)
    | _ \<Rightarrow> Some (xml_error 400 ''InvalidDigest'' ''duplicate checksum header''))"

definition unsupported_checksum :: "string \<Rightarrow> bool" where
  "unsupported_checksum name \<longleftrightarrow> prefix ''x-amz-checksum-'' name \<and>
     name \<noteq> ''x-amz-checksum-crc32'' \<and> name \<noteq> ''x-amz-checksum-sha256''"

text \<open>The digest header that a declared checksum algorithm requires; \<open>None\<close> for an unsupported one.\<close>

definition required_digest :: "string \<Rightarrow> string option" where
  "required_digest algorithm = (if algorithm = ''CRC32'' then Some ''x-amz-checksum-crc32''
     else if algorithm = ''SHA256'' then Some ''x-amz-checksum-sha256'' else None)"

definition verify_checksums :: "s3_lib \<Rightarrow> headers \<Rightarrow> measured \<Rightarrow> s3_response option" where
  "verify_checksums L hs m =
     (if list_ex (\<lambda>(name, _). unsupported_checksum name) hs
      then Some (xml_error 501 ''NotImplemented'' ''this checksum option is not supported'')
      else (case (case header_str L hs ''x-amz-sdk-checksum-algorithm'' of
            None \<Rightarrow> None
          | Some algorithm \<Rightarrow> (case required_digest algorithm of
                None \<Rightarrow> Some (xml_error 501 ''NotImplemented'' ''this checksum algorithm is not supported'')
              | Some required \<Rightarrow> if has_header hs required then None
                  else Some (xml_error 400 ''BadDigest'' ''checksum algorithm requires a matching digest''))) of
          Some answer \<Rightarrow> Some answer
        | None \<Rightarrow>
            if (case header_str L hs ''x-amz-content-sha256'' of
                  None \<Rightarrow> False
                | Some expected \<Rightarrow> expected \<noteq> ''UNSIGNED-PAYLOAD'' \<and>
                    \<not> (case ms_sha256_hex m of None \<Rightarrow> False | Some hash \<Rightarrow> eq_ic hash expected))
            then Some (xml_error 400 ''XAmzContentSHA256Mismatch'' ''the signed payload hash does not match the body'')
            else verify_digests L hs m [''content-md5'', ''x-amz-checksum-crc32'', ''x-amz-checksum-sha256'']))"

section \<open>object\_response.rs\<close>

datatype range_req = FullRange | Span int int | Unsatisfiable

definition parse_range :: "s3_lib \<Rightarrow> headers \<Rightarrow> int \<Rightarrow> range_req" where
  "parse_range L hs len = (case header_str L hs ''range'' of
      None \<Rightarrow> FullRange
    | Some raw \<Rightarrow>
        if \<not> prefix ''bytes='' raw then FullRange
        else (case split_once (CHR ''-'') (drop (length ''bytes='') raw) of
            None \<Rightarrow> FullRange
          | Some (first_pos, last_pos) \<Rightarrow> (case parse_i64 first_pos of
                None \<Rightarrow> FullRange
              | Some s \<Rightarrow>
                  if len \<le> s then Unsatisfiable
                  else if last_pos = [] then Span s (len - 1)
                  else (case parse_i64 last_pos of
                      None \<Rightarrow> FullRange
                    | Some e \<Rightarrow> if s \<le> e then Span s (min e (len - 1)) else FullRange))))"

definition response_override :: "s3_lib \<Rightarrow> string \<Rightarrow> string \<Rightarrow> unit + string option" where
  "response_override L query name = (case query_value query name of
      None \<Rightarrow> Inr None
    | Some raw \<Rightarrow> (let decoded = sl_percent_bytes L raw in
        if sl_header_ok L decoded then Inr (Some decoded) else Inl ()))"

record response_overrides =
  ro_cache_control :: "string option"
  ro_content_disposition :: "string option"
  ro_content_type :: "string option"

definition overrides_from_query :: "s3_lib \<Rightarrow> string \<Rightarrow> unit + response_overrides" where
  "overrides_from_query L query =
     (case response_override L query ''response-cache-control'' of Inl e \<Rightarrow> Inl e | Inr cc \<Rightarrow>
     (case response_override L query ''response-content-disposition'' of Inl e \<Rightarrow> Inl e | Inr cd \<Rightarrow>
     (case response_override L query ''response-content-type'' of Inl e \<Rightarrow> Inl e | Inr ct \<Rightarrow>
       Inr \<lparr>ro_cache_control = cc, ro_content_disposition = cd, ro_content_type = ct\<rparr>)))"

definition put_some :: "string \<Rightarrow> string option \<Rightarrow> headers \<Rightarrow> headers" where
  "put_some name value hs = (case value of None \<Rightarrow> hs | Some v \<Rightarrow> put_header name v hs)"

definition apply_overrides :: "response_overrides \<Rightarrow> headers \<Rightarrow> headers" where
  "apply_overrides ro hs = put_some ''content-type'' (ro_content_type ro)
     (put_some ''content-disposition'' (ro_content_disposition ro)
       (put_some ''cache-control'' (ro_cache_control ro) hs))"

definition invalid_response_override :: s3_response where
  "invalid_response_override = xml_error 400 ''InvalidArgument'' ''invalid object response header override''"

text \<open>An integer in a format string.\<close>

definition show_int :: "int \<Rightarrow> string" where
  "show_int n = (if n < 0 then CHR ''-'' # decimal (nat (- n)) else decimal (nat n))"

definition add_headers :: "(headers \<Rightarrow> headers) \<Rightarrow> s3_response \<Rightarrow> s3_response" where
  "add_headers f r = (case r of Reply st hs body \<Rightarrow> Reply st (f hs) body | _ \<Rightarrow> r)"

definition range_not_satisfiable :: "s3_lib \<Rightarrow> int \<Rightarrow> s3_response" where
  "range_not_satisfiable L len =
     add_headers (try_header L ''content-range'' (''bytes */'' @ show_int len))
       (xml_error 416 ''InvalidRange'' ''the requested range is not satisfiable'')"

subsection \<open>A satisfiable range lies inside the object\<close>

lemma digits_value_nonneg: "digits_value acc s = Some n \<Longrightarrow> 0 \<le> acc \<Longrightarrow> 0 \<le> n"
  by (induction acc s rule: digits_value.induct) (auto split: if_splits)

lemma parse_i64_nonneg: "parse_i64 s = Some n \<Longrightarrow> CHR ''-'' \<notin> set s \<Longrightarrow> 0 \<le> n"
  by (auto simp: parse_i64_def parse_signed_def Let_def dest!: digits_value_nonneg
      split: list.splits if_splits option.splits prod.splits)

lemma parse_range_inside:
  assumes "parse_range L hs len = Span s e"
  shows "0 \<le> s \<and> s \<le> e \<and> e < len"
proof -
  obtain raw a b where "split_once (CHR ''-'') raw = Some (a, b)" "parse_i64 a = Some s" "s < len"
    "(b = [] \<and> e = len - 1) \<or> (\<exists>x. parse_i64 b = Some x \<and> s \<le> x \<and> e = min x (len - 1))"
    using assms by (auto simp: parse_range_def split: option.splits if_splits)
  moreover have "0 \<le> s"
    using calculation split_once_Some parse_i64_nonneg by blast
  ultimately show ?thesis by auto
qed

end
