(* ===== verification/Core_Crypto.thy ===== *)
theory Core_Crypto
  imports Prelude
begin

text \<open>
  \<open>core/src/crypto.rs\<close> and \<open>hash.rs\<close>: the two keys derived from a master secret, the choice of the
  key by its label, encryption of stored secrets and derivation of relay secrets. HKDF, AES-256-GCM,
  SHA-256 and hex encoding are the record \<open>primitives\<close>; \<open>Zeroize\<close> and redacted \<open>Debug\<close> output have
  no counterpart.
\<close>

section \<open>Text\<close>

text \<open>\<open>String::from_utf8\<close> accepts exactly the well-formed byte sequences.\<close>

definition utf8_tail :: "char \<Rightarrow> bool" where
  "utf8_tail b \<longleftrightarrow> 128 \<le> code b \<and> code b \<le> 191"

fun utf8_ok :: "string \<Rightarrow> bool" where
  "utf8_ok [] = True"
| "utf8_ok (a # rest) =
     (if code a < 128 then utf8_ok rest
      else if 194 \<le> code a \<and> code a \<le> 223 then
        (case rest of b # r \<Rightarrow> utf8_tail b \<and> utf8_ok r | _ \<Rightarrow> False)
      else if 224 \<le> code a \<and> code a \<le> 239 then
        (case rest of b # c # r \<Rightarrow> utf8_tail b \<and> utf8_tail c \<and> (code a = 224 \<longrightarrow> 160 \<le> code b) \<and>
             (code a = 237 \<longrightarrow> code b \<le> 159) \<and> utf8_ok r
         | _ \<Rightarrow> False)
      else if 240 \<le> code a \<and> code a \<le> 244 then
        (case rest of b # c # d # r \<Rightarrow> utf8_tail b \<and> utf8_tail c \<and> utf8_tail d \<and> (code a = 240 \<longrightarrow> 144 \<le> code b) \<and>
             (code a = 244 \<longrightarrow> code b \<le> 143) \<and> utf8_ok r
         | _ \<Rightarrow> False)
      else False)"

lemma ascii_utf8: "list_all (\<lambda>c. code c < 128) s \<Longrightarrow> utf8_ok s"
  by (induction s) auto

section \<open>Keys\<close>

datatype core_error = ConfigError string | InternalError string

definition KEY_LEN :: nat where
  "KEY_LEN = 32"

definition NONCE_LEN :: nat where
  "NONCE_LEN = 12"

definition MIN_ROOT_LEN :: nat where
  "MIN_ROOT_LEN = 32"

definition STORAGE_SECRET_LABEL :: string where
  "STORAGE_SECRET_LABEL = ''filegate/enc/storage-secret/v1''"

definition RELAY_SECRET_LABEL :: string where
  "RELAY_SECRET_LABEL = ''filegate/mac/relay-secret/v1''"

text \<open>
  \<open>hkdf secret info n\<close> expands \<open>n\<close> bytes (\<open>None\<close>: the length is not supported); \<open>seal\<close> and \<open>unseal\<close>
  take key, nonce and associated data.
\<close>

record primitives =
  hkdf :: "string \<Rightarrow> string \<Rightarrow> nat \<Rightarrow> string option"
  seal :: "string \<Rightarrow> string \<Rightarrow> string \<Rightarrow> string \<Rightarrow> string option"
  unseal :: "string \<Rightarrow> string \<Rightarrow> string \<Rightarrow> string \<Rightarrow> string option"
  sha256 :: "string \<Rightarrow> string"
  hex :: "string \<Rightarrow> string"

record key_entry =
  ke_key :: string
  ke_relay_key :: string
  ke_id :: string

record crypto =
  cr_active :: key_entry
  cr_prev :: "key_entry option"

record encrypted_secret =
  es_ciphertext :: string
  es_nonce :: string

definition derive :: "primitives \<Rightarrow> string \<Rightarrow> string \<Rightarrow> core_error + key_entry" where
  "derive P key_id root =
     (if trim key_id = [] then Inl (ConfigError ''enc key id must not be empty'')
      else if length root < MIN_ROOT_LEN then Inl (ConfigError ''enc root secret must be at least 32 bytes'')
      else case hkdf P root (STORAGE_SECRET_LABEL @ ''/'' @ key_id) KEY_LEN of
          None \<Rightarrow> Inl (InternalError ''hkdf expand failed'')
        | Some k \<Rightarrow>
            (case hkdf P root (RELAY_SECRET_LABEL @ ''/'' @ key_id) KEY_LEN of
               None \<Rightarrow> Inl (InternalError ''hkdf expand failed'')
             | Some rk \<Rightarrow> Inr \<lparr>ke_key = k, ke_relay_key = rk, ke_id = key_id\<rparr>))"

definition relay_secret_with :: "primitives \<Rightarrow> key_entry \<Rightarrow> string \<Rightarrow> core_error + string" where
  "relay_secret_with P entry lease_id = (case hkdf P (ke_relay_key entry) lease_id KEY_LEN of
      None \<Rightarrow> Inl (InternalError ''hkdf expand failed'')
    | Some out \<Rightarrow> Inr (hex P out))"

definition crypto_new :: "primitives \<Rightarrow> string \<Rightarrow> string \<Rightarrow> core_error + crypto" where
  "crypto_new P key_id root = (case derive P key_id root of
      Inl e \<Rightarrow> Inl e
    | Inr k \<Rightarrow> Inr \<lparr>cr_active = k, cr_prev = None\<rparr>)"

definition with_prev :: "primitives \<Rightarrow> crypto \<Rightarrow> string \<Rightarrow> string \<Rightarrow> core_error + crypto" where
  "with_prev P c key_id root =
     (if key_id = ke_id (cr_active c)
      then Inl (ConfigError ''prev enc key id must differ from the active key id'')
      else case derive P key_id root of
          Inl e \<Rightarrow> Inl e
        | Inr k \<Rightarrow> Inr (c\<lparr>cr_prev := Some k\<rparr>))"

definition active_key_id :: "crypto \<Rightarrow> string" where
  "active_key_id c = ke_id (cr_active c)"

definition relay_secret :: "primitives \<Rightarrow> crypto \<Rightarrow> string \<Rightarrow> core_error + string" where
  "relay_secret P c lease_id = relay_secret_with P (cr_active c) lease_id"

definition relay_secret_prev :: "primitives \<Rightarrow> crypto \<Rightarrow> string \<Rightarrow> core_error + string option" where
  "relay_secret_prev P c lease_id = (case cr_prev c of
      None \<Rightarrow> Inr None
    | Some k \<Rightarrow> (case relay_secret_with P k lease_id of Inl e \<Rightarrow> Inl e | Inr s \<Rightarrow> Inr (Some s)))"

definition key_for :: "crypto \<Rightarrow> string \<Rightarrow> core_error + key_entry" where
  "key_for c key_id =
     (if key_id = ke_id (cr_active c) then Inr (cr_active c)
      else case cr_prev c of
          Some p \<Rightarrow> if key_id = ke_id p then Inr p
            else Inl (InternalError (''unknown enc_key_id '' @ [CHR 0x27] @ key_id @ [CHR 0x27] @ '' (known: '' @ ke_id (cr_active c) @ '', '' @ ke_id p @ '')''))
        | None \<Rightarrow> Inl (InternalError (''unknown enc_key_id '' @ [CHR 0x27] @ key_id @ [CHR 0x27] @ '' (known: '' @ ke_id (cr_active c) @ '')'')))"

text \<open>The random nonce is an argument.\<close>

definition encrypt :: "primitives \<Rightarrow> crypto \<Rightarrow> string \<Rightarrow> string \<Rightarrow> string \<Rightarrow> core_error + encrypted_secret" where
  "encrypt P c nonce aad plaintext =
     (if length (ke_key (cr_active c)) \<noteq> KEY_LEN then Inl (InternalError ''invalid cipher key'')
      else case seal P (ke_key (cr_active c)) nonce aad plaintext of
          None \<Rightarrow> Inl (InternalError ''encrypt failed'')
        | Some ct \<Rightarrow> Inr \<lparr>es_ciphertext = ct, es_nonce = nonce\<rparr>)"

definition decrypt :: "primitives \<Rightarrow> crypto \<Rightarrow> string \<Rightarrow> string \<Rightarrow> encrypted_secret \<Rightarrow> core_error + string" where
  "decrypt P c key_id aad secret =
     (if length (es_nonce secret) \<noteq> NONCE_LEN then Inl (InternalError ''invalid nonce length'')
      else case key_for c key_id of
          Inl e \<Rightarrow> Inl e
        | Inr entry \<Rightarrow>
            if length (ke_key entry) \<noteq> KEY_LEN then Inl (InternalError ''invalid cipher key'')
            else (case unseal P (ke_key entry) (es_nonce secret) aad (es_ciphertext secret) of
               None \<Rightarrow> Inl (InternalError ''decrypt failed (tampered or wrong key/aad)'')
             | Some m \<Rightarrow> if utf8_ok m then Inr m else Inl (InternalError ''decrypted secret is not utf8'')))"

definition client_key_hash :: "primitives \<Rightarrow> string \<Rightarrow> string" where
  "client_key_hash P raw = ''sha256:'' @ hex P (sha256 P raw)"

section \<open>Key rotation\<close>

lemma derive_id: "derive P key_id root = Inr k \<Longrightarrow> ke_id k = key_id"
  by (auto simp: derive_def split: if_splits option.splits)

text \<open>
  C14. Key rotation loses nothing: after the active key is replaced by one with another label and
  the old one is kept as the previous key, a secret stored under the old label still decrypts to
  what was encrypted, the relay secrets of uploads in progress can be derived again, new secrets
  carry the new label, and once the previous key is dropped the old label is refused. The
  hypothesis about the cipher is that decryption inverts encryption.
\<close>

theorem rotation_keeps_secrets:
  assumes "\<And>k n a m ct. seal P k n a m = Some ct \<Longrightarrow> unseal P k n a ct = Some m"
    and "crypto_new P old_id old_root = Inr c_old" "crypto_new P new_id new_root = Inr c_new"
    and "with_prev P c_new old_id old_root = Inr c"
    and "encrypt P c_old nonce aad m = Inr e" "length nonce = NONCE_LEN" "utf8_ok m"
  shows "decrypt P c old_id aad e = Inr m \<and> active_key_id c = new_id \<and> new_id \<noteq> old_id \<and>
    (\<forall>l. relay_secret_prev P c l = (case relay_secret P c_old l of Inl x \<Rightarrow> Inl x | Inr s \<Rightarrow> Inr (Some s))) \<and>
    (\<exists>x. decrypt P c_new old_id aad e = Inl x)"
proof -
  from assms(2) obtain k where k: "derive P old_id old_root = Inr k" "c_old = \<lparr>cr_active = k, cr_prev = None\<rparr>"
    by (auto simp: crypto_new_def split: sum.splits)
  from assms(3) obtain k' where k': "derive P new_id new_root = Inr k'" "c_new = \<lparr>cr_active = k', cr_prev = None\<rparr>"
    by (auto simp: crypto_new_def split: sum.splits)
  note ids = derive_id [OF k(1)] derive_id [OF k'(1)]
  from assms(4) k k' ids have c: "c = \<lparr>cr_active = k', cr_prev = Some k\<rparr>" "new_id \<noteq> old_id"
    by (simp_all add: with_prev_def split: if_splits)
  from assms(5) [unfolded k(2) encrypt_def] obtain ct where ct: "length (ke_key k) = KEY_LEN" "seal P (ke_key k) nonce aad m = Some ct"
    "e = \<lparr>es_ciphertext = ct, es_nonce = nonce\<rparr>"
    by (auto split: if_splits option.splits)
  from assms(1) [OF ct(2)] have "unseal P (ke_key k) nonce aad ct = Some m" .
  note inv = this
  have "key_for c old_id = Inr k" using c ids by (simp add: key_for_def)
  then have "decrypt P c old_id aad e = Inr m"
    using inv ct assms(6,7) by (simp add: decrypt_def)
  moreover have "\<exists>x. key_for c_new old_id = Inl x" using k' ids c(2) by (simp add: key_for_def)
  then have "\<exists>x. decrypt P c_new old_id aad e = Inl x" by (auto simp: decrypt_def)
  moreover have "relay_secret_prev P c l = (case relay_secret P c_old l of Inl x \<Rightarrow> Inl x | Inr s \<Rightarrow> Inr (Some s))" for l
    by (simp add: relay_secret_prev_def relay_secret_def c(1) k(2))
  moreover have "active_key_id c = new_id" by (simp add: active_key_id_def c(1) ids(2))
  ultimately show ?thesis using c(2) by blast
qed

text \<open>A cipher that only prepends key, nonce and associated data, and its inverse.\<close>

definition toy_primitives :: primitives where
  "toy_primitives = \<lparr>hkdf = \<lambda>s info n. Some (replicate n CHR ''k''),
     seal = \<lambda>k n a m. Some (k @ n @ a @ m),
     unseal = \<lambda>k n a ct. let p = k @ n @ a in if take (length p) ct = p then Some (drop (length p) ct) else None,
     sha256 = id, hex = id\<rparr>"

definition toy_key :: "string \<Rightarrow> key_entry" where
  "toy_key i = \<lparr>ke_key = replicate KEY_LEN CHR ''k'', ke_relay_key = replicate KEY_LEN CHR ''k'', ke_id = i\<rparr>"

lemma toy_new: "trim i \<noteq> [] \<Longrightarrow> derive toy_primitives i (replicate 32 CHR ''r'') = Inr (toy_key i)"
  by (simp add: derive_def toy_primitives_def toy_key_def MIN_ROOT_LEN_def)

theorem rotation_keeps_secrets_witness:
  "decrypt toy_primitives \<lparr>cr_active = toy_key ''v2'', cr_prev = Some (toy_key ''v1'')\<rparr> ''v1'' ''s1''
     \<lparr>es_ciphertext = replicate KEY_LEN CHR ''k'' @ ''nonce-nonce1'' @ ''s1'' @ ''secret'', es_nonce = ''nonce-nonce1''\<rparr> = Inr ''secret''"
proof -
  let ?root = "replicate 32 CHR ''r''"
  have ids: "trim ''v1'' \<noteq> []" "trim ''v2'' \<noteq> []" by code_simp+
  have law: "unseal toy_primitives k n a ct = Some m" if "seal toy_primitives k n a m = Some ct" for k n a m ct
    using that by (auto simp: toy_primitives_def)
  have "crypto_new toy_primitives ''v1'' ?root = Inr \<lparr>cr_active = toy_key ''v1'', cr_prev = None\<rparr>"
    "crypto_new toy_primitives ''v2'' ?root = Inr \<lparr>cr_active = toy_key ''v2'', cr_prev = None\<rparr>"
    by (simp_all add: crypto_new_def toy_new ids)
  moreover have "with_prev toy_primitives \<lparr>cr_active = toy_key ''v2'', cr_prev = None\<rparr> ''v1'' ?root =
      Inr \<lparr>cr_active = toy_key ''v2'', cr_prev = Some (toy_key ''v1'')\<rparr>"
    by (simp add: with_prev_def toy_new ids) (simp add: toy_key_def)
  moreover have "encrypt toy_primitives \<lparr>cr_active = toy_key ''v1'', cr_prev = None\<rparr> ''nonce-nonce1'' ''s1'' ''secret'' =
      Inr \<lparr>es_ciphertext = replicate KEY_LEN CHR ''k'' @ ''nonce-nonce1'' @ ''s1'' @ ''secret'', es_nonce = ''nonce-nonce1''\<rparr>"
    by (simp add: encrypt_def toy_key_def toy_primitives_def)
  moreover have "length ''nonce-nonce1'' = NONCE_LEN" by (simp add: NONCE_LEN_def)
  moreover have "utf8_ok ''secret''" by (simp add: ascii_utf8 code_def)
  ultimately show ?thesis using rotation_keeps_secrets [OF law] by blast
qed

end
