(* ===== verification/Storage_Access.thy ===== *)
theory Storage_Access
  imports S3_Provider Core_Crypto Schema Object_Policy
begin

text \<open>
  \<open>infra/src/s3_io.rs\<close> and \<open>api/src/storage_access.rs\<close>: from a row of the registry to a backend with
  decrypted credentials, and the physical operations the object paths perform on it. \<open>conn\<close> gives
  the SDK client of settings and address, as the client cache does. The spool file is its content.
\<close>

section \<open>Backends\<close>

record storage_backend =
  sb_spec :: storage_spec
  sb_force_relay :: bool

definition is_relay :: "storage_backend \<Rightarrow> bool" where
  "is_relay b = sb_force_relay b"

definition missing :: "storage_row \<Rightarrow> string \<Rightarrow> core_error" where
  "missing row name = InternalError (''storage '' @ [CHR 0x27] @ st_id row @ [CHR 0x27] @ '' is missing '' @ name)"

definition field :: "storage_row \<Rightarrow> string option \<Rightarrow> string \<Rightarrow> core_error + string" where
  "field row value name = (case value of None \<Rightarrow> Inl (missing row name) | Some v \<Rightarrow> Inr v)"

text \<open>Rust's \<open>?\<close> on a result.\<close>

definition and_then :: "'e + 'a \<Rightarrow> ('a \<Rightarrow> 'e + 'b) \<Rightarrow> 'e + 'b" where
  "and_then r k = (case r of Inl e \<Rightarrow> Inl e | Inr a \<Rightarrow> k a)"

lemma and_then_simps [simp]: "and_then (Inl e) k = Inl e" "and_then (Inr a) k = k a"
  by (simp_all add: and_then_def)

lemma and_then_Inr: "and_then r k = Inr b \<longleftrightarrow> (\<exists>a. r = Inr a \<and> k a = Inr b)"
  by (cases r) auto

definition backend_from_row :: "primitives \<Rightarrow> crypto \<Rightarrow> storage_row \<Rightarrow> core_error + storage_backend" where
  "backend_from_row P c row =
     (if st_kind row = ''s3'' then
        and_then (field row (st_enc_key_id row) ''enc_key_id'') (\<lambda>key_id.
        and_then (field row (st_secret_ciphertext row) ''secret_key_ciphertext'') (\<lambda>ciphertext.
        and_then (field row (st_secret_nonce row) ''secret_key_nonce'') (\<lambda>nonce.
        and_then (decrypt P c key_id (st_id row) \<lparr>es_ciphertext = ciphertext, es_nonce = nonce\<rparr>) (\<lambda>secret_key.
        and_then (field row (st_endpoint row) ''endpoint'') (\<lambda>endpoint.
        and_then (field row (st_public_endpoint row) ''public_endpoint'') (\<lambda>public_endpoint.
        and_then (field row (st_region row) ''region'') (\<lambda>region.
        and_then (field row (st_bucket row) ''bucket'') (\<lambda>bucket.
        and_then (field row (st_access_key row) ''access_key'') (\<lambda>access_key.
          Inr \<lparr>sb_spec = \<lparr>ss_endpoint = endpoint, ss_public_endpoint = public_endpoint, ss_region = region,
                 ss_bucket = bucket, ss_force_path_style = st_force_path_style row, ss_access_key = access_key,
                 ss_secret_key = secret_key\<rparr>,
               sb_force_relay = st_force_relay row\<rparr>)))))))))
      else Inl (InternalError (''storage '' @ [CHR 0x27] @ st_id row @ [CHR 0x27] @ '' has unknown kind '' @
             [CHR 0x27] @ st_kind row @ [CHR 0x27])))"

type_synonym 'w connections = "storage_spec \<Rightarrow> address \<Rightarrow> 'w sdk"

abbreviation bucket_of :: "storage_backend \<Rightarrow> string" where
  "bucket_of b \<equiv> ss_bucket (sb_spec b)"

section \<open>Physical operations\<close>

definition observe_backend_object :: "'w connections \<Rightarrow> storage_backend \<Rightarrow> string
    \<Rightarrow> ('w, provider_error, object_observation option) eff" where
  "observe_backend_object conn b key w = (case head_object (conn (sb_spec b) InternalAddress) (bucket_of b) key w of
      (Inl e, w') \<Rightarrow> (Inl e, w')
    | (Inr seen, w') \<Rightarrow> (Inr (map_option (\<lambda>(sz, etag). \<lparr>obs_size = sz, obs_etag = etag\<rparr>) seen), w'))"

definition cleanup_backend_upload :: "'w connections \<Rightarrow> storage_backend \<Rightarrow> string \<Rightarrow> string option \<Rightarrow> bool
    \<Rightarrow> ('w, provider_error, unit) eff" where
  "cleanup_backend_upload conn b key upload_id multipart w =
     (let S = conn (sb_spec b) InternalAddress;
          (aborted, w1) = (case upload_id of
              Some u \<Rightarrow> abort_multipart S (bucket_of b) key u w
            | None \<Rightarrow> if multipart then abort_multipart_by_key S (bucket_of b) key w else (Inr (), w));
          (deleted, w2) = delete_object S (bucket_of b) key w1
      in ((case aborted of Inl e \<Rightarrow> Inl e | Inr _ \<Rightarrow> deleted), w2))"

definition commit_temp_to_backend :: "'w connections \<Rightarrow> storage_backend \<Rightarrow> string \<Rightarrow> string \<Rightarrow> string option
    \<Rightarrow> ('w, provider_error, unit) eff" where
  "commit_temp_to_backend conn b spooled key content_type =
     put_object_from_path (conn (sb_spec b) InternalAddress) (bucket_of b) key spooled content_type"

section \<open>Backends decrypt under their own row\<close>

text \<open>
  A backend is built only from a complete row of a known kind, with the row's own settings, and
  with the credential that decrypts under the key the row names and the row's own id; every gap is
  an error and never a default.
\<close>

theorem backend_from_row_sound:
  "backend_from_row P c row = Inr b \<longleftrightarrow>
     st_kind row = ''s3'' \<and> sb_force_relay b = st_force_relay row \<and>
     (\<exists>k ct n. st_enc_key_id row = Some k \<and> st_secret_ciphertext row = Some ct \<and> st_secret_nonce row = Some n \<and>
        decrypt P c k (st_id row) \<lparr>es_ciphertext = ct, es_nonce = n\<rparr> = Inr (ss_secret_key (sb_spec b))) \<and>
     st_endpoint row = Some (ss_endpoint (sb_spec b)) \<and> st_public_endpoint row = Some (ss_public_endpoint (sb_spec b)) \<and>
     st_region row = Some (ss_region (sb_spec b)) \<and> st_bucket row = Some (bucket_of b) \<and>
     st_force_path_style row = ss_force_path_style (sb_spec b) \<and> st_access_key row = Some (ss_access_key (sb_spec b))"
proof -
  have field_Inr: "field row v name = Inr x \<longleftrightarrow> v = Some x" for v name x
    by (simp add: field_def split: option.splits)
  show ?thesis
    by (cases b; cases "sb_spec b") (auto simp: backend_from_row_def and_then_Inr field_Inr)
qed

section \<open>Cleanup attempts both halves\<close>

lemma cleanup_split:
  assumes "cleanup_backend_upload conn b key upload_id multipart w = (r, w')"
  obtains a w1 x where "(case upload_id of Some u \<Rightarrow> abort_multipart (conn (sb_spec b) InternalAddress) (bucket_of b) key u w
        | None \<Rightarrow> if multipart then abort_multipart_by_key (conn (sb_spec b) InternalAddress) (bucket_of b) key w else (Inr (), w)) = (a, w1)"
    "sdk_delete (conn (sb_spec b) InternalAddress) (bucket_of b) key w1 = (x, w')"
    "r = Inr () \<longleftrightarrow> a = Inr () \<and> x = Inr ()"
proof -
  let ?S = "conn (sb_spec b) InternalAddress"
  let ?abort = "case upload_id of Some u \<Rightarrow> abort_multipart ?S (bucket_of b) key u w
        | None \<Rightarrow> if multipart then abort_multipart_by_key ?S (bucket_of b) key w else (Inr (), w)"
  obtain a w1 where a: "?abort = (a, w1)" by fastforce
  obtain x w2 where x: "sdk_delete ?S (bucket_of b) key w1 = (x, w2)" by fastforce
  have "r = (case a of Inl e \<Rightarrow> Inl e | Inr _ \<Rightarrow> (case x of Inl e \<Rightarrow> Inl (Sdk e) | Inr u \<Rightarrow> Inr u))" "w' = w2"
    using assms a x unfolding cleanup_backend_upload_def Let_def delete_object_def sdk_result_def
    by (auto split: sum.splits)
  then show thesis using that [OF a] x by (auto split: sum.splits)
qed

text \<open>
  Cleanup ends with a deletion whatever became of the sessions, and reports success only when
  nothing is left: the object is gone, the named session is closed, or, when no session is named,
  every session of the key is. A caller that releases its recovery record on success alone never
  forgets bytes that may still be there. The hypotheses are the provider's: an acknowledged abort
  (or 404) ends a session, listings are complete, an acknowledged delete removes the object.
\<close>

theorem cleanup_success_leaves_nothing:
  assumes "\<And>u w x w'. sdk_abort (conn (sb_spec b) InternalAddress) (bucket_of b) key u w = (x, w') \<Longrightarrow>
      (\<forall>v. live w' v \<longrightarrow> live w v) \<and> ((case x of Inr _ \<Rightarrow> True | Inl e \<Rightarrow> se_status e = Some 404) \<longrightarrow> \<not> live w' u)"
    and "\<And>km im w out w'. sdk_list_uploads (conn (sb_spec b) InternalAddress) (bucket_of b) key km im w = (Inr out, w') \<Longrightarrow>
      (\<forall>v. live w' v \<longrightarrow> live w v) \<and>
      (\<forall>v. live w v \<and> after (km, im) v \<longrightarrow> v \<in> set (sessions_of key out) \<or>
         up_truncated out = Some True \<and> after (up_next_key out, up_next_upload_id out) v)"
    and "\<And>v. after (None, None) v"
    and "\<And>w x w'. sdk_delete (conn (sb_spec b) InternalAddress) (bucket_of b) key w = (x, w') \<Longrightarrow>
      (\<forall>v. live w' v \<longrightarrow> live w v) \<and> (x = Inr () \<longrightarrow> \<not> present w')"
    and "cleanup_backend_upload conn b key upload_id True w = (r, w')"
  shows "(\<exists>w1. w' = snd (sdk_delete (conn (sb_spec b) InternalAddress) (bucket_of b) key w1)) \<and>
    (r = Inr () \<longrightarrow> \<not> present w' \<and> (case upload_id of None \<Rightarrow> \<forall>v. \<not> live w' v | Some u \<Rightarrow> \<not> live w' u))"
  using assms(5)
proof (cases rule: cleanup_split)
  case (1 a w1 x)
  note del = assms(4) [OF 1(2)]
  have "w' = snd (sdk_delete (conn (sb_spec b) InternalAddress) (bucket_of b) key w1)" using 1(2) by simp
  moreover have "\<not> present w' \<and> (case upload_id of None \<Rightarrow> \<forall>v. \<not> live w' v | Some u \<Rightarrow> \<not> live w' u)" if "r = Inr ()"
  proof (cases upload_id)
    case None
    with 1(1,3) that have run: "abort_by_key_loop (conn (sb_spec b) InternalAddress) (bucket_of b) key None None [] w = (Inr (), w1)"
      by (simp add: abort_multipart_by_key_def)
    have "\<not> live w1 v" for v
      by (rule abort_by_key_loop_closes [OF assms(1,2) run]) (use assms(3) in auto)
    with None 1(3) that del show ?thesis by auto
  next
    case (Some u)
    with 1(1,3) that have "abort_multipart (conn (sb_spec b) InternalAddress) (bucket_of b) key u w = (Inr (), w1)" by simp
    then obtain y where y: "sdk_abort (conn (sb_spec b) InternalAddress) (bucket_of b) key u w = (y, w1)"
      "case y of Inr _ \<Rightarrow> True | Inl e \<Rightarrow> se_status e = Some 404"
      by (auto simp: abort_multipart_def split: prod.splits sum.splits if_splits)
    from assms(1) [OF y(1)] y(2) have "\<not> live w1 u" by blast
    with Some 1(3) that del show ?thesis by auto
  qed
  ultimately show ?thesis by blast
qed

text \<open>A provider that keeps the sessions of one key and whether its object is there.\<close>

definition bucket_sdk :: "string \<Rightarrow> (string list \<times> bool) sdk" where
  "bucket_sdk key = refusing_sdk\<lparr>
     sdk_abort := \<lambda>b k u (ss, there). (Inr (), (filter (\<lambda>v. v \<noteq> u) ss, there)),
     sdk_delete := \<lambda>b k (ss, there). (Inr (), (ss, False)),
     sdk_list_uploads := \<lambda>b k km im (ss, there). (Inr \<lparr>up_uploads = map (\<lambda>u. \<lparr>ui_key = Some key, ui_upload_id = Some u\<rparr>) ss,
       up_truncated = Some False, up_next_key = None, up_next_upload_id = None\<rparr>, (ss, there))\<rparr>"

definition demo_backend :: storage_backend where
  "demo_backend = \<lparr>sb_spec = \<lparr>ss_endpoint = ''e'', ss_public_endpoint = ''p'', ss_region = ''r'', ss_bucket = ''b'',
     ss_force_path_style = True, ss_access_key = ''a'', ss_secret_key = ''s''\<rparr>, sb_force_relay = True\<rparr>"

theorem cleanup_success_leaves_nothing_witness:
  "\<exists>ss. cleanup_backend_upload (\<lambda>_ _. bucket_sdk ''k'') demo_backend ''k'' None True ([''u'', ''v''], True) = (Inr (), (ss, False)) \<and>
     ''v'' \<notin> set ss"
proof -
  let ?b = "demo_backend" and ?conn = "\<lambda>_ _. bucket_sdk ''k''"
  have run: "cleanup_backend_upload ?conn ?b ''k'' None True ([''u'', ''v''], True) = (Inr (), ([], False))"
    by (simp add: cleanup_backend_upload_def delete_object_def sdk_result_def abort_multipart_by_key_def
        abort_by_key_loop.simps bucket_sdk_def MAX_PAGES_def sessions_of_def map_filter_simps abort_multipart_def)
  have all: "(\<exists>w1. w' = snd (sdk_delete (bucket_sdk ''k'') (bucket_of ?b) ''k'' w1)) \<and>
    (r = Inr () \<longrightarrow> \<not> snd w' \<and> (case (None :: string option) of None \<Rightarrow> \<forall>v. \<not> v \<in> set (fst w') | Some u \<Rightarrow> \<not> u \<in> set (fst w')))"
    if "cleanup_backend_upload ?conn ?b ''k'' None True ([''u'', ''v''], True) = (r, w')" for r w'
  proof (rule cleanup_success_leaves_nothing [where conn = ?conn and b = ?b and key = "''k''"
        and live = "\<lambda>w v. v \<in> set (fst w)" and after = "\<lambda>m v. True" and present = snd, OF _ _ _ _ that])
    fix u w x w' assume "sdk_abort (bucket_sdk ''k'') (bucket_of ?b) ''k'' u w = (x, w')"
    then show "(\<forall>v. v \<in> set (fst w') \<longrightarrow> v \<in> set (fst w)) \<and> ((case x of Inr _ \<Rightarrow> True | Inl e \<Rightarrow> se_status e = Some 404) \<longrightarrow> u \<notin> set (fst w'))"
      by (auto simp: bucket_sdk_def split: prod.splits)
  next
    fix km im w out w' assume l: "sdk_list_uploads (bucket_sdk ''k'') (bucket_of ?b) ''k'' km im w = (Inr out, w')"
    have mf: "List.map_filter ui_upload_id (map (\<lambda>u. \<lparr>ui_key = Some ''k'', ui_upload_id = Some u\<rparr>) ss) = ss" for ss
      by (induction ss) (auto simp: map_filter_simps)
    show "(\<forall>v. v \<in> set (fst w') \<longrightarrow> v \<in> set (fst w)) \<and> (\<forall>v. v \<in> set (fst w) \<and> True \<longrightarrow>
        v \<in> set (sessions_of ''k'' out) \<or> up_truncated out = Some True \<and> True)"
      using l by (cases w) (auto simp: bucket_sdk_def sessions_of_def filter_map comp_def mf)
  next
    fix w x w' assume "sdk_delete (bucket_sdk ''k'') (bucket_of ?b) ''k'' w = (x, w')"
    then show "(\<forall>v. v \<in> set (fst w') \<longrightarrow> v \<in> set (fst w)) \<and> (x = Inr () \<longrightarrow> \<not> snd w')"
      by (auto simp: bucket_sdk_def split: prod.splits)
  qed simp
  have "\<forall>v. v \<notin> set (fst ([] :: string list, False))"
    using all [OF run] by (elim conjE impE) (rule refl, simp only: option.case simp_thms)
  then have "''v'' \<notin> set (fst ([] :: string list, False))" by (rule spec)
  with run show ?thesis by (intro exI [of _ "[]"] conjI) (simp_all only: fst_conv not_False_eq_True)
qed

end
