(* ===== verification/Api_Error.thy ===== *)
theory Api_Error
  imports Storage_Access
begin

text \<open>
  \<open>api/src/error.rs\<close> and the classification of rejected writes in \<open>db/src/registry.rs\<close>: how the
  failures below the handlers become HTTP answers. Two constructors of \<open>api_error\<close> stand for handlers
  that give no answer at all: \<open>Panicked\<close> (a division by zero ends the task) and \<open>Diverges\<close> (an await
  that never completes).
\<close>

datatype write_op = Insert | Delete

datatype write_violation = Duplicate | MissingRef string | InUse | Invalid

text \<open>The constraint's name is reported by the database beside the class of the error.\<close>

definition write_violation_of :: "string \<Rightarrow> db_error \<Rightarrow> write_op \<Rightarrow> write_violation option" where
  "write_violation_of constraint e op = (case e of
      UniqueViolation \<Rightarrow> Some Duplicate
    | ForeignKeyViolation \<Rightarrow> (case op of Insert \<Rightarrow> Some (MissingRef constraint) | Delete \<Rightarrow> Some InUse)
    | CheckViolation \<Rightarrow> Some Invalid
    | _ \<Rightarrow> None)"

datatype api_error =
    Status nat string
  | Db db_error write_op
  | Internal core_error
  | Storage provider_error
  | Panicked
  | Diverges

definition bad_request :: "string \<Rightarrow> api_error" where
  "bad_request message = Status 400 message"

definition not_found :: "string \<Rightarrow> api_error" where
  "not_found message = Status 404 message"

definition unauthorized :: "string \<Rightarrow> api_error" where
  "unauthorized message = Status 401 message"

definition conflict :: "string \<Rightarrow> api_error" where
  "conflict message = Status 409 message"

definition internal :: "string \<Rightarrow> api_error" where
  "internal detail = Internal (InternalError detail)"

text \<open>\<open>Display\<close> of \<open>grove\_core::Error\<close>, where a handler wraps one error in another.\<close>

definition show_core_error :: "core_error \<Rightarrow> string" where
  "show_core_error e = (case e of ConfigError m \<Rightarrow> ''config error: '' @ m | InternalError m \<Rightarrow> ''internal error: '' @ m)"

definition from_db_error :: "db_error \<Rightarrow> api_error" where
  "from_db_error e = Db e Insert"

definition still_referenced :: string where
  "still_referenced = ''still referenced '' @ bytes [226, 128, 148] @ '' delete dependent clients/files first''"

text \<open>The answer: status and message; \<open>None\<close> where there is none.\<close>

definition into_response :: "string \<Rightarrow> api_error \<Rightarrow> (nat \<times> string) option" where
  "into_response constraint e = (case e of
      Status status message \<Rightarrow> Some (status, message)
    | Db error op \<Rightarrow> (case write_violation_of constraint error op of
          Some Duplicate \<Rightarrow> Some (409, ''already exists'')
        | Some (MissingRef name) \<Rightarrow> Some (404,
            if sublist ''storage'' name then ''storage not found''
            else if sublist ''client'' name then ''client not found''
            else ''referenced registration not found'')
        | Some InUse \<Rightarrow> Some (409, still_referenced)
        | Some Invalid \<Rightarrow> Some (400, ''invalid field (id slug, capacity_bytes >= 0, key hash format)'')
        | None \<Rightarrow> Some (500, ''database error''))
    | Internal _ \<Rightarrow> Some (500, ''internal error'')
    | Storage _ \<Rightarrow> Some (502, ''storage unavailable'')
    | Panicked \<Rightarrow> None
    | Diverges \<Rightarrow> None)"

text \<open>
  An answer never carries what went wrong below: two failures of the database, of the storage
  provider or of the program itself that are of the same kind give the same answer whatever their
  details (credentials, addresses, messages of the provider), and none of them is a success.
\<close>

theorem answers_hide_details:
  "into_response c (Internal a) = into_response c (Internal b) \<and>
   into_response c (Storage p) = into_response c (Storage q) \<and>
   (case into_response c (Db x op) of None \<Rightarrow> False
    | Some (status, m) \<Rightarrow> status \<in> {400, 404, 409, 500} \<and>
        m \<in> {''already exists'', ''storage not found'', ''client not found'', ''referenced registration not found'',
          still_referenced,
          ''invalid field (id slug, capacity_bytes >= 0, key hash format)'', ''database error''})"
  by (cases x; cases op) (simp_all add: into_response_def write_violation_of_def)

end
