(* ===== verification/Files_Create.thy ===== *)
theory Files_Create
  imports Example_Run
begin

text \<open>
  \<open>db/src/files/create.rs\<close>: the pending file, its location, its write lease and the history
  row, written in one transaction. The random ids (\<open>gen_random_uuid()\<close>), the text of a uuid
  and \<open>chrono\<close>'s \<open>%Y/%m\<close> of a time are arguments; so is the transaction's time.
\<close>

section \<open>Object keys\<close>

definition ext_for :: "string option \<Rightarrow> string option" where
  "ext_for ct = (case ct of None \<Rightarrow> None | Some t \<Rightarrow>
     if t = ''image/png'' then Some ''png''
     else if t = ''image/jpeg'' then Some ''jpg''
     else if t = ''image/gif'' then Some ''gif''
     else if t = ''image/webp'' then Some ''webp''
     else if t = ''application/pdf'' then Some ''pdf''
     else if t = ''text/plain'' then Some ''txt''
     else if t = ''text/markdown'' then Some ''md''
     else if t = ''application/json'' then Some ''json''
     else if t = ''application/zip'' then Some ''zip''
     else if t = ''video/mp4'' then Some ''mp4''
     else if t = ''audio/mpeg'' then Some ''mp3''
     else None)"

definition object_key :: "(uuid \<Rightarrow> string) \<Rightarrow> (timestamp \<Rightarrow> string) \<Rightarrow> string \<Rightarrow> uuid \<Rightarrow> string option \<Rightarrow> timestamp \<Rightarrow> string" where
  "object_key uuid_text year_month client file_id ct now =
     (let date = year_month now;
          name = (case ext_for ct of Some ext \<Rightarrow> uuid_text file_id @ ''.'' @ ext | None \<Rightarrow> uuid_text file_id)
      in ''fg/'' @ client @ ''/'' @ date @ ''/'' @ name)"

lemma ext_for_alnum: "ext_for ct = Some e \<Longrightarrow> CHR ''/'' \<notin> set e \<and> CHR ''.'' \<notin> set e"
  by (auto simp: ext_for_def split: option.splits if_splits)

section \<open>The transaction\<close>

record create_spec =
  cs_client :: string
  cs_declared_size :: int
  cs_content_type :: "string option"
  cs_declared_md5 :: "string option"
  cs_lease_ttl_secs :: int
  cs_part_size :: "int option"

record created_file =
  cf_file_id :: uuid
  cf_lease_id :: uuid
  cf_object_key :: string
  cf_storage :: storage_row

datatype create_outcome = Created created_file | NoClient

definition owned_storage :: "db \<Rightarrow> string \<Rightarrow> storage_row option" where
  "owned_storage d client =
     find (\<lambda>s. exists_where (\<lambda>c. cl_storage c = st_id s \<and> cl_id c = client) (clients d)) (storages d)"

text \<open>The rows the four \<open>INSERT\<close> statements write, defaults included.\<close>

definition new_file :: "timestamp \<Rightarrow> uuid \<Rightarrow> create_spec \<Rightarrow> file_row" where
  "new_file now i c = \<lparr>f_id = i, f_client = cs_client c, f_state = Pending, f_declared_size = cs_declared_size c,
     f_content_type = cs_content_type c, f_declared_md5 = cs_declared_md5 c, f_etag = None,
     f_part_size = cs_part_size c, f_created_at = now, f_committed_at = None, f_deleted_at = None,
     f_recovery_after = now\<rparr>"

definition new_lease :: "timestamp \<Rightarrow> timestamp \<Rightarrow> uuid \<Rightarrow> uuid \<Rightarrow> lease_kind \<Rightarrow> string option \<Rightarrow> lease_row" where
  "new_lease now expires l i k h = \<lparr>le_id = l, le_file = i, le_kind = k, le_state = Issued,
     le_expires_at = expires, le_secret_hash = h, le_uploaded_size = None, le_uploaded_md5 = None,
     le_upload_id = None, le_created_at = now\<rparr>"

definition create_in_tx :: "(uuid \<Rightarrow> string) \<Rightarrow> (timestamp \<Rightarrow> string) \<Rightarrow> timestamp \<Rightarrow> uuid \<Rightarrow> uuid
    \<Rightarrow> create_spec \<Rightarrow> (db, db_error, create_outcome) eff" where
  "create_in_tx uuid_text year_month now file_id lease_id c d =
     (case owned_storage d (cs_client c) of
        None \<Rightarrow> (Inr NoClient, d)
      | Some st \<Rightarrow>
          (let f = new_file now file_id c;
               key = object_key uuid_text year_month (cs_client c) file_id (cs_content_type c) now
           in if cs_declared_size c < 0 \<or> (case cs_part_size c of None \<Rightarrow> False | Some p \<Rightarrow> p \<le> 0)
              then (Inl CheckViolation, d)
              else if exists_where (\<lambda>f. f_id f = file_id) (files d) then (Inl UniqueViolation, d)
              else if exists_where (\<lambda>l. l_storage l = st_id st \<and> l_object_key l = key) (locations d)
              then (Inl UniqueViolation, d)
              else if exists_where (\<lambda>l. le_id l = lease_id) (leases d) then (Inl UniqueViolation, d)
              else (Inr (Created \<lparr>cf_file_id = file_id, cf_lease_id = lease_id, cf_object_key = key, cf_storage = st\<rparr>),
                    d\<lparr>files := files d @ [f],
                      locations := locations d @ [\<lparr>l_file = file_id, l_storage = st_id st, l_object_key = key\<rparr>],
                      leases := leases d @ [new_lease now (now + secs (cs_lease_ttl_secs c)) lease_id file_id Write None],
                      lease_history := lease_history d @ [\<lparr>h_at = now, h_file = file_id, h_storage = st_id st,
                        h_client = cs_client c, h_kind = Write, h_size = cs_declared_size c\<rparr>]\<rparr>)))"

definition create :: "(uuid \<Rightarrow> string) \<Rightarrow> (timestamp \<Rightarrow> string) \<Rightarrow> timestamp \<Rightarrow> uuid \<Rightarrow> uuid
    \<Rightarrow> create_spec \<Rightarrow> (db, db_error, create_outcome) eff" where
  "create uuid_text year_month now file_id lease_id c d =
     (case create_in_tx uuid_text year_month now file_id lease_id c d of
        (Inl e, _) \<Rightarrow> (Inl e, d)
      | (Inr NoClient, _) \<Rightarrow> (Inr NoClient, d)
      | (Inr (Created f), d') \<Rightarrow> (Inr (Created f), d'))"

lemma new_row_simps [simp]:
  "f_id (new_file now i c) = i" "f_state (new_file now i c) = Pending" "f_client (new_file now i c) = cs_client c"
  "f_part_size (new_file now i c) = cs_part_size c" "f_declared_size (new_file now i c) = cs_declared_size c"
  "le_id (new_lease now e l i k h) = l" "le_file (new_lease now e l i k h) = i"
  "le_kind (new_lease now e l i k h) = k" "le_state (new_lease now e l i k h) = Issued"
  "le_secret_hash (new_lease now e l i k h) = h" "le_expires_at (new_lease now e l i k h) = e"
  by (simp_all add: new_file_def new_lease_def)

section \<open>Inserting the rows of a new file\<close>

definition with_file :: "file_row \<Rightarrow> location_row \<Rightarrow> lease_row \<Rightarrow> upload_row list \<Rightarrow> history_row \<Rightarrow> db \<Rightarrow> db" where
  "with_file f loc le us h d = d\<lparr>files := files d @ [f], locations := locations d @ [loc],
     leases := leases d @ [le], uploads := uploads d @ us, lease_history := lease_history d @ [h]\<rparr>"

text \<open>What the inserts require: a fresh file id, address and lease id.\<close>

definition fresh_rows :: "file_row \<Rightarrow> location_row \<Rightarrow> lease_row \<Rightarrow> upload_row list \<Rightarrow> db \<Rightarrow> bool" where
  "fresh_rows f loc le us d \<longleftrightarrow>
     f_id f \<notin> f_id ` set (files d) \<and> l_file loc = f_id f \<and> le_file le = f_id f \<and>
     (l_storage loc, l_object_key loc) \<notin> (\<lambda>l. (l_storage l, l_object_key l)) ` set (locations d) \<and>
     le_id le \<notin> le_id ` set (leases d) \<and> le_kind le = Write \<and> le_state le = Issued \<and>
     f_state f = Pending \<and> file_history_ok f \<and>
     length us \<le> 1 \<and> (\<forall>u \<in> set us. upload_ok f u \<and> u_state u = Open)"

lemma fresh_rowsD:
  assumes "fresh_rows f loc le us d"
  shows "f_id f \<notin> f_id ` set (files d)" "l_file loc = f_id f" "le_file le = f_id f"
    "le_id le \<notin> le_id ` set (leases d)" "le_kind le = Write"
    "\<And>u. u \<in> set us \<Longrightarrow> u_file u = f_id f" "us = [] \<or> (\<exists>u. us = [u])"
  using assms by (auto simp: fresh_rows_def upload_ok_def length_Suc_conv le_Suc_eq)

lemma view_with_file_new:
  assumes "schema_ok d" "fresh_rows f loc le us d"
  shows "view (with_file f loc le us h d) (f_id f) =
    \<lparr>v_file = Some f, v_loc = Some loc, v_leases = [le], v_parts = [],
     v_upload = (case us of [] \<Rightarrow> None | u # _ \<Rightarrow> Some u)\<rparr>"
proof -
  note S = schema_okD [OF assms(1)] and F = fresh_rowsD [OF assms(2)]
  have nf: "find (\<lambda>g. f_id g = f_id f) (files d) = None"
    by (rule find_fresh) (rule F(1))
  have nl: "find (\<lambda>l. l_file l = f_id f) (locations d) = None"
    by (rule find_fresh) (use F(1) S(8) in blast)
  have nu: "find (\<lambda>u. u_file u = f_id f) (uploads d) = None"
    by (rule find_fresh) (use F(1) S(10) in blast)
  have "f_id f \<notin> le_file ` set (leases d)" using F(1) S(9) by blast
  then have nw: "filter (\<lambda>l. le_file l = f_id f \<and> le_kind l = Write) (leases d) = []"
    by (fastforce simp: filter_empty_conv image_iff)
  have "le_id le \<notin> lp_lease ` set (lease_parts d)" using F(4) S(7) by blast
  then have np: "filter (\<lambda>p. le_id le = lp_lease p) (lease_parts d) = []"
    by (fastforce simp: filter_empty_conv image_iff)
  have fu: "find (\<lambda>u. u_file u = f_id f) us = (case us of [] \<Rightarrow> None | u # _ \<Rightarrow> Some u)"
    using F(6,7) by auto
  show ?thesis
    unfolding view_def with_file_def write_leases_def parts_of_def
    by (simp add: find_append nf nl nu nw np fu F exists_where_def)
qed

lemma view_with_file_other:
  assumes "fresh_rows f loc le us d" "j \<noteq> f_id f"
  shows "view (with_file f loc le us h d) j = view d j"
proof -
  note F = fresh_rowsD [OF assms(1)]
  have "find (\<lambda>u. u_file u = j) us = None"
    using assms(2) F(6) by (auto simp: find_None_iff)
  then show ?thesis
    unfolding view_def with_file_def write_leases_def parts_of_def
    using assms(2) F by (simp add: find_append option.case_eq_if)
qed

lemma schema_with_file:
  assumes "schema_ok d" "fresh_rows f loc le us d"
  shows "schema_ok (with_file f loc le us h d)"
proof -
  note S = assms(1) [unfolded schema_ok_def schema_tables_def]
  have u: "u_file u = f_id f" if "u \<in> set us" for u
    using that assms(2) by (auto simp: fresh_rows_def upload_ok_def)
  have fl: "f_id f \<notin> l_file ` set (locations d)" and fu: "f_id f \<notin> u_file ` set (uploads d)"
    using S assms(2) by (auto simp: fresh_rows_def)
  have us: "us = [] \<or> (\<exists>u. us = [u])"
    using assms(2) by (cases us; cases "tl us") (auto simp: fresh_rows_def)
  have "distinct (map u_file (uploads d @ us))"
    using us u fu S by (auto simp: image_iff)
  then show ?thesis
    using S assms(2) u fl
    by (auto simp: schema_ok_def schema_tables_def with_file_def fresh_rows_def image_iff)
qed

lemma with_file_is_a_move:
  assumes "schema_ok d" "fresh_rows f loc le us d" "v_file (view d (f_id f)) = None"
  shows "sim d (with_file f loc le us h d)"
proof (rule sim_at [where i = "f_id f"])
  have "vstep (view d (f_id f)) \<lparr>v_file = Some f, v_loc = Some loc, v_leases = [le], v_parts = [],
      v_upload = (case us of [] \<Rightarrow> None | u # _ \<Rightarrow> Some u)\<rparr>"
    by (rule vstep.create) (use assms in \<open>auto simp: fresh_rows_def split: list.splits\<close>)
  then show "vstep (view d (f_id f)) (view (with_file f loc le us h d) (f_id f)) \<or>
      view (with_file f loc le us h d) (f_id f) = view d (f_id f)"
    using view_with_file_new [OF assms(1,2)] by simp
next
  fix j assume "j \<noteq> f_id f"
  then show "view (with_file f loc le us h d) j = view d j"
    using view_with_file_other [OF assms(2)] by simp
qed

section \<open>What the transaction does\<close>

lemma create_in_tx_cases:
  assumes "create_in_tx ut ym now i l c d = (r, d')"
  obtains (failed) e where "r = Inl e" "d' = d"
  | (no_client) "r = Inr NoClient" "d' = d" "owned_storage d (cs_client c) = None"
  | (created) st where "owned_storage d (cs_client c) = Some st"
      "r = Inr (Created \<lparr>cf_file_id = i, cf_lease_id = l,
         cf_object_key = object_key ut ym (cs_client c) i (cs_content_type c) now, cf_storage = st\<rparr>)"
      "\<And>us. length us \<le> 1 \<Longrightarrow> (\<And>u. u \<in> set us \<Longrightarrow> upload_ok (new_file now i c) u \<and> u_state u = Open) \<Longrightarrow>
         fresh_rows (new_file now i c)
           \<lparr>l_file = i, l_storage = st_id st, l_object_key = object_key ut ym (cs_client c) i (cs_content_type c) now\<rparr>
           (new_lease now (now + secs (cs_lease_ttl_secs c)) l i Write None) us d"
      "d' = with_file (new_file now i c)
         \<lparr>l_file = i, l_storage = st_id st, l_object_key = object_key ut ym (cs_client c) i (cs_content_type c) now\<rparr>
         (new_lease now (now + secs (cs_lease_ttl_secs c)) l i Write None) []
         \<lparr>h_at = now, h_file = i, h_storage = st_id st, h_client = cs_client c, h_kind = Write,
          h_size = cs_declared_size c\<rparr> d"
proof (cases "owned_storage d (cs_client c)")
  case None
  with assms show thesis by (auto simp: create_in_tx_def intro: no_client)
next
  case (Some st)
  show thesis
  proof (cases "r")
    case (Inl e)
    with assms Some have "d' = d" by (auto simp: create_in_tx_def Let_def split: if_splits)
    with Inl show thesis by (rule failed)
  next
    case (Inr a)
    have h: "file_history_ok (new_file now i c)"
      using assms Some Inr
      by (auto simp: create_in_tx_def Let_def new_file_def file_history_ok_def file_check_def
          split: if_splits option.splits)
    have fr: "i \<notin> f_id ` set (files d)" "l \<notin> le_id ` set (leases d)"
      "(st_id st, object_key ut ym (cs_client c) i (cs_content_type c) now) \<notin>
         (\<lambda>l. (l_storage l, l_object_key l)) ` set (locations d)"
      using assms Some Inr
      by (auto simp: create_in_tx_def Let_def exists_where_iff split: if_splits)
    show thesis
    proof (rule created [OF Some])
      show "r = Inr (Created \<lparr>cf_file_id = i, cf_lease_id = l,
         cf_object_key = object_key ut ym (cs_client c) i (cs_content_type c) now, cf_storage = st\<rparr>)"
        using assms Some Inr by (auto simp: create_in_tx_def Let_def split: if_splits)
      show "d' = with_file (new_file now i c)
         \<lparr>l_file = i, l_storage = st_id st, l_object_key = object_key ut ym (cs_client c) i (cs_content_type c) now\<rparr>
         (new_lease now (now + secs (cs_lease_ttl_secs c)) l i Write None) []
         \<lparr>h_at = now, h_file = i, h_storage = st_id st, h_client = cs_client c, h_kind = Write,
          h_size = cs_declared_size c\<rparr> d"
        using assms Some Inr by (auto simp: create_in_tx_def Let_def with_file_def split: if_splits)
    qed (use h fr in \<open>simp add: fresh_rows_def\<close>)
  qed
qed

lemma create_cases:
  assumes "create ut ym now i l c d = (r, d')"
  obtains (unchanged) "d' = d" "\<forall>f. r \<noteq> Inr (Created f)"
  | (created) f where "r = Inr (Created f)" "create_in_tx ut ym now i l c d = (r, d')"
  using assms by (auto simp: create_def split: prod.splits sum.splits create_outcome.splits)

interpretation create: transaction "create ut ym now i l c" for ut ym now i l c
proof
  fix d r d'
  assume ok: "db_ok d" and run: "create ut ym now i l c d = (r, d')"
  have "sim d d' \<and> schema_ok d'"
    using run
  proof (cases rule: create_cases)
    case unchanged
    with ok show ?thesis by (simp add: db_ok_def)
  next
    case (created f)
    from created(2) show ?thesis
    proof (cases rule: create_in_tx_cases)
      case (created st)
      note fresh = created(3) [of "[]", simplified]
      have "v_file (view d i) = None"
        using fresh_rowsD(1) [OF fresh] by (simp add: find_fresh)
      then show ?thesis
        using with_file_is_a_move [OF db_okD(1) [OF ok] fresh] schema_with_file [OF db_okD(1) [OF ok] fresh]
        by (simp add: created(4))
    qed (use ok in \<open>simp_all add: db_ok_def\<close>)
  qed
  then show "sim d d'" "schema_ok d'" by auto
next
  fix d e d'
  assume "create ut ym now i l c d = (Inl e, d')"
  then show "d'\<lparr>row_locks := row_locks d\<rparr> = d" by (cases rule: create_cases) auto
qed


text \<open>
  Object keys never collide: two different files get different keys, whatever their clients,
  content types and dates, as long as distinct uuids have distinct texts, without a slash or a
  dot.
\<close>

theorem object_key_injective:
  assumes "inj ut" "\<And>i. CHR ''/'' \<notin> set (ut i) \<and> CHR ''.'' \<notin> set (ut i)"
    and "object_key ut ym c i ct now = object_key ut ym c' i' ct' now'"
  shows "i = i'"
proof -
  define name where "name i ct = (case ext_for ct of Some ext \<Rightarrow> ut i @ ''.'' @ ext | None \<Rightarrow> ut i)" for i ct
  have no_slash: "CHR ''/'' \<notin> set (name i ct)" for i ct
    using assms(2) by (auto simp: name_def ext_for_alnum split: option.splits)
  have last: "takeWhile (\<lambda>x. x \<noteq> CHR ''/'') (rev (object_key ut ym c i ct now)) = rev (name i ct)" for c i ct now
  proof -
    have "rev (object_key ut ym c i ct now) = rev (name i ct) @ CHR ''/'' # rev (''fg/'' @ c @ ''/'' @ ym now)"
      by (simp add: object_key_def Let_def name_def split: option.splits)
    with no_slash [of i ct] show ?thesis
      by (simp add: takeWhile_append)
  qed
  have "name i ct = name i' ct'"
    using last [of c i ct now] last [of c' i' ct' now'] assms(3) by simp
  moreover have "takeWhile (\<lambda>x. x \<noteq> CHR ''.'') (name i ct) = ut i" for i ct
    using assms(2) [of i] by (auto simp: name_def takeWhile_append split: option.splits)
  ultimately have "ut i = ut i'" by metis
  with assms(1) show ?thesis by (simp add: inj_eq)
qed


theorem object_key_injective_witness:
  "object_key (\<lambda>i. replicate i CHR ''u'') (\<lambda>_. ''2026/01'') ''a'' 3 None 0 \<noteq>
   object_key (\<lambda>i. replicate i CHR ''u'') (\<lambda>_. ''2026/01'') ''b'' 4 (Some ''image/png'') 9"
proof
  have ut: "inj (\<lambda>i. replicate i CHR ''u'')"
    "\<And>i. CHR ''/'' \<notin> set (replicate i CHR ''u'') \<and> CHR ''.'' \<notin> set (replicate i CHR ''u'')"
    by (auto simp: inj_def)
  assume "object_key (\<lambda>i. replicate i CHR ''u'') (\<lambda>_. ''2026/01'') ''a'' 3 None 0 =
    object_key (\<lambda>i. replicate i CHR ''u'') (\<lambda>_. ''2026/01'') ''b'' 4 (Some ''image/png'') 9"
  from object_key_injective [OF ut this] show False by simp
qed

end
