(* ===== verification/Files_Commit.thy ===== *)
theory Files_Commit
  imports Files_Create
begin

text \<open>
  \<open>db/src/files/commit.rs\<close>, \<open>relay_upload.rs\<close> and \<open>recovery.rs\<close>: the pending-to-active
  transition, the file lock that a single relay PUT holds, and the retry claim of the background
  jobs. \<open>now\<close> is \<open>transaction_now()\<close>, \<open>wall\<close> is \<open>wall_now()\<close>.
\<close>

section \<open>Commit\<close>

definition committable :: "db \<Rightarrow> uuid \<Rightarrow> file_row \<Rightarrow> bool" where
  "committable d i f \<longleftrightarrow> f_id f = i \<and> (f_state f = Pending \<and> \<not> has_upload d i)"

definition finalize_commit :: "timestamp \<Rightarrow> uuid \<Rightarrow> string \<Rightarrow> (db, db_error, bool) eff" where
  "finalize_commit now i etag d =
     (let transitioned = count_where (committable d i) (files d);
          d1 = d\<lparr>files := update_where (committable d i)
                  (\<lambda>f. f\<lparr>f_state := Active, f_etag := Some etag, f_committed_at := Some now\<rparr>) (files d)\<rparr>
      in if transitioned = 0 then (Inr False, d)
         else (Inr True, d1\<lparr>leases := settle_write Committed i (leases d1)\<rparr>))"

lemma committable_fun: "committable d i = (\<lambda>f. f_id f = i \<and> (f_state f = Pending \<and> \<not> has_upload d i))"
  by (simp add: fun_eq_iff committable_def)

lemma finalize_commit_cases:
  assumes "db_ok d" "finalize_commit now i etag d = (r, d')"
  obtains (refused) "r = Inr False" "d' = d"
      "\<forall>f. v_file (view d i) = Some f \<longrightarrow> f_state f \<noteq> Pending \<or> v_upload (view d i) \<noteq> None"
  | (committed) f where "r = Inr True" "v_file (view d i) = Some f" "f_state f = Pending" "v_upload (view d i) = None"
      "at_file d i ((view d i)\<lparr>v_file := Some (f\<lparr>f_state := Active, f_etag := Some etag, f_committed_at := Some now\<rparr>),
          v_leases := settle Committed (v_leases (view d i))\<rparr>) d'"
proof -
  note ok = db_okD(1) [OF assms(1)]
  let ?u = "\<lambda>f. f\<lparr>f_state := Active, f_etag := Some etag, f_committed_at := Some now\<rparr>"
  show thesis
  using ok
  proof (cases rule: file_hit_cases [where i = i and q = "\<lambda>f. f_state f = Pending \<and> \<not> has_upload d i"])
    case no_row
    with assms(2) show thesis
      by (intro refused) (auto simp: finalize_commit_def committable_fun has_upload_view)
  next
    case (one_row f)
    then have d': "r = Inr True" "d' = d\<lparr>files := update_where (\<lambda>f. f_id f = i \<and> (f_state f = Pending \<and> \<not> has_upload d i))
                  ?u (files d), leases := settle_write Committed i (leases d)\<rparr>"
      using assms(2) by (auto simp: finalize_commit_def Let_def committable_fun)
    show thesis
      by (rule committed [of f], unfold d')
        (use one_row ok in \<open>auto simp: at_file_def at_file_simps has_upload_view\<close>)
  qed
qed

interpretation finalize_commit: transaction "finalize_commit now i etag" for now i etag
proof
  fix d r d'
  assume ok: "db_ok d" and run: "finalize_commit now i etag d = (r, d')"
  have "sim d d' \<and> schema_ok d'"
    using ok run
  proof (cases rule: finalize_commit_cases)
    case refused
    with ok show ?thesis by (simp add: db_okD)
  next
    case (committed f)
    have "0 \<le> f_declared_size f"
      using db_okD(2) [OF ok, of i] committed(2) by (simp add: view_defs)
    then have "vstep (view d i) ((view d i)\<lparr>v_file := Some (f\<lparr>f_state := Active, f_declared_size := f_declared_size f,
        f_etag := Some etag, f_committed_at := Some now\<rparr>),
        v_leases := settle Committed (v_leases (view d i)), v_upload := None\<rparr>)"
      using committed by (intro vstep.activate) auto
    with committed show ?thesis by (intro at_file_move) (auto simp: view_def)
  qed
  then show "sim d d'" "schema_ok d'" by auto
qed (auto simp: finalize_commit_def Let_def split: if_splits)

section \<open>Observed commit\<close>

record observed_commit_candidate =
  oc_file_id :: uuid
  oc_declared_size :: int
  oc_declared_md5 :: "string option"
  oc_object_key :: string
  oc_storage :: storage_row

definition storage_of :: "db \<Rightarrow> uuid \<Rightarrow> storage_row option" where
  "storage_of d i =
     find (\<lambda>s. exists_where (\<lambda>l. l_storage l = st_id s \<and> l_file l = i) (locations d)) (storages d)"

definition observable :: "timestamp \<Rightarrow> db \<Rightarrow> (file_row \<times> location_row) list" where
  "observable now d =
     [(f, l). f \<leftarrow> files d, l \<leftarrow> locations d, l_file l = f_id f,
              le \<leftarrow> leases d, le_file le = f_id f, le_kind le = Write,
              f_state f = Pending, f_part_size f = None, \<not> has_upload d (f_id f),
              le_state le = Issued, now < le_expires_at le, f_recovery_after f \<le> now]"

text \<open>
  The storage of each candidate is read by a second query. \<open>later i\<close> is the database at the
  time of the one for file \<open>i\<close>; a location that is gone by then is skipped.
\<close>

definition observed_commit_candidates ::
    "timestamp \<Rightarrow> nat \<Rightarrow> db \<Rightarrow> (uuid \<Rightarrow> db) \<Rightarrow> observed_commit_candidate list" where
  "observed_commit_candidates now limit d later =
     [\<lparr>oc_file_id = f_id f, oc_declared_size = f_declared_size f, oc_declared_md5 = f_declared_md5 f,
       oc_object_key = l_object_key l, oc_storage = st\<rparr>.
       (f, l) \<leftarrow> take limit (sort_key (\<lambda>(f, l). (f_recovery_after f, f_id f)) (observable now d)),
       st \<leftarrow> (case storage_of (later (f_id f)) (f_id f) of None \<Rightarrow> [] | Some st \<Rightarrow> [st])]"

section \<open>A single relay PUT\<close>

record relay_upload_claim =
  ru_file :: uuid
  ru_lease_id :: uuid
  ru_recorded :: "(int \<times> string) option"
  ru_declared_md5 :: "string option"

definition zip_option :: "'a option \<Rightarrow> 'b option \<Rightarrow> ('a \<times> 'b) option" where
  "zip_option a b = (case (a, b) of (Some x, Some y) \<Rightarrow> Some (x, y) | _ \<Rightarrow> None)"

definition claim_relay_upload :: "timestamp \<Rightarrow> uuid \<Rightarrow> uuid \<Rightarrow> (db, db_error, relay_upload_claim option) eff" where
  "claim_relay_upload wall i lease d =
     (case find (\<lambda>f. f_id f = i \<and> f_state f = Pending \<and> f_part_size f = None \<and> i \<notin> set (row_locks d)) (files d) of
        None \<Rightarrow> (Inr None, d)
      | Some f \<Rightarrow>
          (case find (\<lambda>l. le_id l = lease \<and> le_file l = i \<and> le_kind l = Write \<and> le_state l = Issued \<and>
                 wall < le_expires_at l \<and> le_secret_hash l \<noteq> None \<and> \<not> has_upload d i) (leases d) of
             None \<Rightarrow> (Inr None, d)
           | Some l \<Rightarrow>
               (Inr (Some \<lparr>ru_file = i, ru_lease_id = lease,
                  ru_recorded = zip_option (le_uploaded_size l) (le_uploaded_md5 l),
                  ru_declared_md5 = f_declared_md5 f\<rparr>),
                d\<lparr>row_locks := i # row_locks d\<rparr>)))"

text \<open>\<open>done\<close> commits the measurement and gives the lock back; a claim that is dropped, or whose
  update fails, only gives it back.\<close>

definition relay_upload_drop :: "relay_upload_claim \<Rightarrow> db \<Rightarrow> db" where
  "relay_upload_drop c d = d\<lparr>row_locks := remove1 (ru_file c) (row_locks d)\<rparr>"

definition relay_upload_done :: "timestamp \<Rightarrow> relay_upload_claim \<Rightarrow> int \<Rightarrow> string \<Rightarrow> int \<Rightarrow> (db, db_error, unit) eff" where
  "relay_upload_done wall c sz md5 ttl d =
     (let hit = (\<lambda>l. le_id l = ru_lease_id c) in
      if exists_where hit (leases d) \<and> sz < 0 then (Inl CheckViolation, relay_upload_drop c d)
      else (Inr (), relay_upload_drop c (d\<lparr>leases := update_where hit
             (\<lambda>l. l\<lparr>le_uploaded_size := Some sz, le_uploaded_md5 := Some md5,
                    le_expires_at := max (le_expires_at l) (wall + secs ttl)\<rparr>) (leases d)\<rparr>)))"

section \<open>Retry claims\<close>

datatype recovery_job = Observe | Reclaim | Purge

fun recovery_state :: "recovery_job \<Rightarrow> file_state" where
  "recovery_state Observe = Pending"
| "recovery_state Reclaim = Reclaimed"
| "recovery_state Purge = Deleted"

definition recovery_due :: "timestamp \<Rightarrow> db \<Rightarrow> recovery_job \<Rightarrow> file_row \<Rightarrow> bool" where
  "recovery_due wall d job f \<longleftrightarrow> f_state f = recovery_state job \<and> f_recovery_after f \<le> wall \<and>
     \<not> has_upload d (f_id f) \<and> has_location d (f_id f) \<and>
     (recovery_state job \<noteq> Pending \<or>
      f_part_size f = None \<and>
      exists_where (\<lambda>le. le_file le = f_id f \<and> le_kind le = Write \<and> le_state le = Issued \<and> wall < le_expires_at le)
        (leases d))"

definition claim_recovery :: "timestamp \<Rightarrow> uuid \<Rightarrow> recovery_job \<Rightarrow> nat \<Rightarrow> (db, db_error, bool) eff" where
  "claim_recovery wall i job retry_secs d =
     (if find (\<lambda>f. f_id f = i \<and> f_state f = recovery_state job) (files d) = None then (Inr False, d)
      else let hit = (\<lambda>f. f_id f = i \<and> recovery_due wall d job f) in
        (Inr (count_where hit (files d) = 1),
         d\<lparr>files := update_where hit (\<lambda>f. f\<lparr>f_recovery_after := wall + secs (int retry_secs)\<rparr>) (files d)\<rparr>))"

section \<open>What these operations do\<close>

lemma claim_relay_upload_cases:
  assumes "claim_relay_upload wall i lease d = (r, d')"
  obtains (refused) "r = Inr None" "d' = d"
  | (claimed) f l where "r = Inr (Some \<lparr>ru_file = i, ru_lease_id = lease,
        ru_recorded = zip_option (le_uploaded_size l) (le_uploaded_md5 l), ru_declared_md5 = f_declared_md5 f\<rparr>)"
      "d' = d\<lparr>row_locks := i # row_locks d\<rparr>"
      "f \<in> set (files d)" "f_id f = i" "f_state f = Pending" "f_part_size f = None" "i \<notin> set (row_locks d)"
      "find (\<lambda>l. le_id l = lease \<and> le_file l = i \<and> le_kind l = Write \<and> le_state l = Issued \<and>
                 wall < le_expires_at l \<and> le_secret_hash l \<noteq> None \<and> \<not> has_upload d i) (leases d) = Some l"
  using assms by (auto simp: claim_relay_upload_def split: option.splits dest!: find_where_Some)

interpretation claim_relay_upload: transaction "claim_relay_upload wall i lease" for wall i lease
proof
  fix d r d'
  assume ok: "db_ok d" and run: "claim_relay_upload wall i lease d = (r, d')"
  have "(\<forall>j. view d' j = view d j) \<and> schema_ok d'"
    using run by (cases rule: claim_relay_upload_cases) (use ok in \<open>simp_all add: at_file_simps db_okD\<close>)
  then show "sim d d'" "schema_ok d'" by (auto intro: sim_same_view)
qed (auto elim: claim_relay_upload_cases)

lemma relay_upload_drop_view [simp]:
  "view (relay_upload_drop c d) i = view d i" "schema_ok (relay_upload_drop c d) = schema_ok d"
  "row_locks (relay_upload_drop c d) = remove1 (ru_file c) (row_locks d)"
  "files (relay_upload_drop c d) = files d" "leases (relay_upload_drop c d) = leases d"
  "uploads (relay_upload_drop c d) = uploads d"
  by (simp_all add: relay_upload_drop_def at_file_simps)

interpretation relay_upload_done: transaction "relay_upload_done wall c sz md5 ttl" for wall c sz md5 ttl
proof
  fix d r d'
  assume ok: "db_ok d" and run: "relay_upload_done wall c sz md5 ttl d = (r, d')"
  let ?u = "\<lambda>l. l\<lparr>le_uploaded_size := Some sz, le_uploaded_md5 := Some md5,
      le_expires_at := max (le_expires_at l) (wall + secs ttl)\<rparr>"
  let ?d = "d\<lparr>leases := update_where (\<lambda>l. le_id l = ru_lease_id c) ?u (leases d)\<rparr>"
  have "d' = relay_upload_drop c d \<or> d' = relay_upload_drop c ?d"
    using run by (auto simp: relay_upload_done_def Let_def split: if_splits)
  moreover have "sim d ?d \<and> schema_ok ?d"
    using ok by (auto intro!: sim_touch_leases schema_touch_leases simp: same_identity_def db_okD)
  ultimately have "sim d d' \<and> schema_ok d'"
    using ok by (auto intro: sim_same_view elim: sim_trans_same_view simp: db_okD)
  then show "sim d d'" "schema_ok d'" by auto
qed (auto simp: relay_upload_done_def relay_upload_drop_def Let_def split: if_splits)

lemma claim_recovery_cases:
  assumes "db_ok d" "claim_recovery wall i job retry d = (r, d')"
  obtains (skipped) "r = Inr False" "d' = d"
  | (claimed) f where "r = Inr True" "v_file (view d i) = Some f" "recovery_due wall d job f"
      "at_file d i ((view d i)\<lparr>v_file := Some (f\<lparr>f_recovery_after := wall + secs (int retry)\<rparr>)\<rparr>) d'"
proof -
  let ?hit = "\<lambda>f. f_id f = i \<and> recovery_due wall d job f"
  let ?u = "\<lambda>f. f\<lparr>f_recovery_after := wall + secs (int retry)\<rparr>"
  note ok = db_okD(1) [OF assms(1)]
  show thesis
  using ok
  proof (cases rule: file_hit_cases [where i = i and q = "recovery_due wall d job"])
    case no_row
    then have "update_where ?hit ?u (files d) = files d"
      by (intro update_where_none) (simp add: count_where_0)
    with no_row assms(2) show thesis
      by (intro skipped) (auto simp: claim_recovery_def Let_def split: if_splits)
  next
    case (one_row f)
    then have "find (\<lambda>f. f_id f = i \<and> f_state f = recovery_state job) (files d) \<noteq> None"
      by (auto simp: find_where_None recovery_due_def)
    then have d': "r = Inr True" "d' = d\<lparr>files := update_where ?hit ?u (files d)\<rparr>"
      using assms(2) one_row(1) by (auto simp: claim_recovery_def Let_def)
    show thesis
      by (rule claimed [of f], unfold d') (use one_row ok in \<open>auto simp: at_file_def at_file_simps\<close>)
  qed
qed

interpretation claim_recovery: transaction "claim_recovery wall i job retry" for wall i job retry
proof
  fix d r d'
  assume ok: "db_ok d" and run: "claim_recovery wall i job retry d = (r, d')"
  have "sim d d' \<and> schema_ok d'"
    using ok run
  proof (cases rule: claim_recovery_cases)
    case (claimed f)
    from claimed(4) vstep.touch_file [OF claimed(2)] show ?thesis by (rule at_file_move)
  qed (use ok in \<open>simp add: db_okD\<close>)
  then show "sim d d'" "schema_ok d'" by auto
qed (auto simp: claim_recovery_def Let_def split: if_splits)

text \<open>
  A single relay PUT owns its file: while a claim is held nobody else obtains one, whatever the
  lease and the time; after it is done, and the lease is still live, the next claim reads back
  exactly the measurement that was recorded, and the lease's deadline has not moved backwards.
\<close>

theorem relay_upload_exclusive_and_recorded:
  assumes "db_ok d" "claim_relay_upload wall i lease d = (Inr (Some c), d1)" "0 \<le> sz"
    and "w2 < w1 + secs ttl"
    and "relay_upload_done w1 c sz md5 ttl d1 = (r, d2)"
  shows "fst (claim_relay_upload w' i lease' d1) = Inr None \<and> r = Inr () \<and>
    fst (claim_relay_upload w2 i lease d2) = Inr (Some (c\<lparr>ru_recorded := Some (sz, md5)\<rparr>))"
proof -
  from assms(2) obtain f l where c: "c = \<lparr>ru_file = i, ru_lease_id = lease,
        ru_recorded = zip_option (le_uploaded_size l) (le_uploaded_md5 l), ru_declared_md5 = f_declared_md5 f\<rparr>"
    and d1: "d1 = d\<lparr>row_locks := i # row_locks d\<rparr>"
    and f: "f \<in> set (files d)" "f_id f = i" "f_state f = Pending" "f_part_size f = None" "i \<notin> set (row_locks d)"
    and l: "l \<in> set (leases d)" "le_id l = lease" "le_file l = i" "le_kind l = Write" "le_state l = Issued"
       "le_secret_hash l \<noteq> None" "\<not> has_upload d i"
    by (cases rule: claim_relay_upload_cases) (auto dest!: find_where_Some)
  note S = schema_okD [OF db_okD(1) [OF assms(1)]]
  let ?u = "\<lambda>l. l\<lparr>le_uploaded_size := Some sz, le_uploaded_md5 := Some md5,
      le_expires_at := max (le_expires_at l) (w1 + secs ttl)\<rparr>"
  have r: "r = Inr ()" and d2: "d2 = relay_upload_drop c (d1\<lparr>leases := update_where (\<lambda>l. le_id l = lease) ?u (leases d1)\<rparr>)"
    using assms(3,5) by (auto simp: relay_upload_done_def Let_def c)
  have ls: "leases d2 = update_where (\<lambda>l. le_id l = lease) ?u (leases d)"
    and other: "files d2 = files d" "uploads d2 = uploads d" "row_locks d2 = row_locks d"
    by (simp_all add: d2 d1 c)
  have f': "find (\<lambda>f. f_id f = i \<and> f_state f = Pending \<and> f_part_size f = None \<and> i \<notin> set (row_locks d2)) (files d2) = Some f"
  proof -
    have "find (\<lambda>f. f_id f = i \<and> f_state f = Pending \<and> f_part_size f = None) (files d) \<noteq> None"
      using f by (auto simp: find_where_None)
    then obtain g where g: "find (\<lambda>f. f_id f = i \<and> f_state f = Pending \<and> f_part_size f = None) (files d) = Some g" by auto
    then have "g \<in> set (files d)" "f_id g = i" by (auto dest: find_where_Some)
    then have "g = f" using key_unique [OF S(1)] f(1,2) by metis
    with g other f(5) show ?thesis by simp
  qed
  let ?p = "\<lambda>l. le_id l = lease \<and> le_file l = i \<and> le_kind l = Write \<and> le_state l = Issued \<and>
                 w2 < le_expires_at l \<and> le_secret_hash l \<noteq> None \<and> \<not> has_upload d2 i"
  have "?u l \<in> set (leases d2)" "?p (?u l)"
    using l assms(4) other(2) by (auto simp: ls set_update_where has_upload_def)
  then have "find ?p (leases d2) \<noteq> None"
    unfolding find_where_None by blast
  then obtain m where m: "find ?p (leases d2) = Some m" by blast
  have "m \<in> set (leases d2)" "le_id m = lease" using find_where_Some [OF m] by simp_all
  from \<open>m \<in> set (leases d2)\<close> obtain m0 where "m0 \<in> set (leases d)" "m = (if le_id m0 = lease then ?u m0 else m0)"
    unfolding ls update_where_def by auto
  with \<open>le_id m = lease\<close> have "m = ?u m0" by (cases "le_id m0 = lease") simp_all
  then have "le_uploaded_size m = Some sz" "le_uploaded_md5 m = Some md5" by simp_all
  then have "fst (claim_relay_upload w2 i lease d2) = Inr (Some (c\<lparr>ru_recorded := Some (sz, md5)\<rparr>))"
    using m by (simp add: claim_relay_upload_def f' c zip_option_def)
  moreover have "fst (claim_relay_upload w' i lease' d1) = Inr None"
    by (simp add: claim_relay_upload_def d1 find_where_None)
  ultimately show ?thesis using r by simp
qed

theorem relay_upload_exclusive_and_recorded_witness:
  "\<exists>c d1. claim_relay_upload 1 1 11 demo_db = (Inr (Some c), d1) \<and> fst (claim_relay_upload 5 1 11 d1) = Inr None"
proof -
  let ?run = "claim_relay_upload 1 1 11 demo_db"
  have "case fst ?run of Inr (Some c) \<Rightarrow> True | _ \<Rightarrow> False" by code_simp
  then obtain c where run: "?run = (Inr (Some c), snd ?run)"
    by (cases ?run) (auto split: sum.splits option.splits)
  obtain r d2 where fin: "relay_upload_done 2 c 5 ''m'' 60 (snd ?run) = (r, d2)" by fastforce
  have "fst (claim_relay_upload 5 1 11 (snd ?run)) = Inr None"
    using relay_upload_exclusive_and_recorded [OF demo_db_ok run _ _ fin, of 3 5 11] by (simp add: secs_def)
  with run show ?thesis by blast
qed

end
