(* ===== verification/S3_Keys.thy ===== *)
theory S3_Keys
  imports Files_Commit
begin

text \<open>
  \<open>db/src/s3_registry/keys.rs\<close> and \<open>credentials.rs\<close>: the S3 key of each active file and its
  atomic replacement, and the stored credentials of clients.
\<close>

section \<open>Keys\<close>

definition key_of :: "string \<Rightarrow> string \<Rightarrow> key_row \<Rightarrow> bool" where
  "key_of client key k \<longleftrightarrow> k_client k = client \<and> k_key k = key"

definition get_key :: "string \<Rightarrow> string \<Rightarrow> db \<Rightarrow> uuid option" where
  "get_key client key d = map_option k_file (find (key_of client key) (object_keys d))"

text \<open>\<open>detach_active\<close> affects a row only when the file is active.\<close>

definition detach_active :: "timestamp \<Rightarrow> uuid \<Rightarrow> db \<Rightarrow> db" where
  "detach_active now i d = d\<lparr>files := update_where (\<lambda>f. f_id f = i \<and> f_state f = Active)
     (\<lambda>f. f\<lparr>f_state := Deleted, f_deleted_at := Some now, f_recovery_after := now\<rparr>) (files d)\<rparr>"

text \<open>
  \<open>INSERT ... ON CONFLICT (client_id, key) DO NOTHING\<close>. The foreign key on (client, file) is
  checked for a row that is inserted.
\<close>

definition insert_key_in_tx :: "string \<Rightarrow> string \<Rightarrow> uuid \<Rightarrow> (db, db_error, bool) eff" where
  "insert_key_in_tx client key i d =
     (if exists_where (key_of client key) (object_keys d) then (Inr False, d)
      else if \<not> exists_where (\<lambda>f. f_client f = client \<and> f_id f = i) (files d) then (Inl ForeignKeyViolation, d)
      else (Inr True, d\<lparr>object_keys := object_keys d @ [\<lparr>k_client = client, k_key = key, k_file = i\<rparr>]\<rparr>))"

definition upsert_key_in_tx :: "timestamp \<Rightarrow> string \<Rightarrow> string \<Rightarrow> uuid \<Rightarrow> (db, db_error, uuid option) eff" where
  "upsert_key_in_tx now client key i d =
     (case insert_key_in_tx client key i d of
        (Inl e, d1) \<Rightarrow> (Inl e, d1)
      | (Inr True, d1) \<Rightarrow> (Inr None, d1)
      | (Inr False, d1) \<Rightarrow>
          (case get_key client key d1 of
             None \<Rightarrow> (Inl RowNotFound, d1)
           | Some old \<Rightarrow>
               if \<not> exists_where (\<lambda>f. f_client f = client \<and> f_id f = i) (files d1) then (Inl ForeignKeyViolation, d1)
               else let d2 = d1\<lparr>object_keys := update_where (key_of client key) (\<lambda>k. k\<lparr>k_file := i\<rparr>) (object_keys d1)\<rparr>
                    in if old \<noteq> i then (Inr (Some old), detach_active now old d2) else (Inr None, d2)))"

definition upsert_key :: "timestamp \<Rightarrow> string \<Rightarrow> string \<Rightarrow> uuid \<Rightarrow> (db, db_error, uuid option) eff" where
  "upsert_key now client key i d =
     (case upsert_key_in_tx now client key i d of (Inl e, _) \<Rightarrow> (Inl e, d) | (Inr x, d') \<Rightarrow> (Inr x, d'))"

definition delete_key :: "timestamp \<Rightarrow> string \<Rightarrow> string \<Rightarrow> (db, db_error, uuid option) eff" where
  "delete_key now client key d =
     (let removed = get_key client key d;
          d1 = d\<lparr>object_keys := delete_where (key_of client key) (object_keys d)\<rparr>
      in (Inr removed, case removed of None \<Rightarrow> d1 | Some i \<Rightarrow> detach_active now i d1))"

section \<open>Keys as a map\<close>

lemma key_of_pair: "key_of c k = (\<lambda>r. (k_client r, k_key r) = (c, k))"
  by (simp add: key_of_def fun_eq_iff)

lemma get_key_insert:
  assumes "\<not> exists_where (key_of c k) (object_keys d)"
  shows "get_key c' k' (d\<lparr>object_keys := object_keys d @ [\<lparr>k_client = c, k_key = k, k_file = i\<rparr>]\<rparr>) =
    (if (c', k') = (c, k) then Some i else get_key c' k' d)"
proof -
  have "find (key_of c k) (object_keys d) = None"
    using assms by (auto simp: exists_where_iff find_where_None)
  moreover have "key_of c' k' \<lparr>k_client = c, k_key = k, k_file = i\<rparr> \<longleftrightarrow> (c', k') = (c, k)"
    by (auto simp: key_of_def)
  ultimately show ?thesis
    by (auto simp: get_key_def find_append_row split: option.splits)
qed

lemma get_key_update:
  "get_key c' k' (d\<lparr>object_keys := update_where (key_of c k) (\<lambda>r. r\<lparr>k_file := i\<rparr>) (object_keys d)\<rparr>) =
    (if (c', k') = (c, k) then map_option (\<lambda>_. i) (get_key c k d) else get_key c' k' d)"
proof -
  have f: "find (key_of c' k') (update_where (key_of c k) (\<lambda>r. r\<lparr>k_file := i\<rparr>) (object_keys d)) =
      map_option (\<lambda>r. if key_of c k r then r\<lparr>k_file := i\<rparr> else r) (find (key_of c' k') (object_keys d))"
    unfolding key_of_pair by (rule find_update_where) simp
  show ?thesis
  proof (cases "find (key_of c' k') (object_keys d)")
    case None
    then show ?thesis by (auto simp: get_key_def f)
  next
    case (Some r)
    from find_where_Some [OF Some] have "k_client r = c'" "k_key r = k'" by (auto simp: key_of_def)
    then show ?thesis using Some by (auto simp: get_key_def f key_of_def)
  qed
qed

lemma get_key_delete:
  assumes "schema_ok d"
  shows "get_key c' k' (d\<lparr>object_keys := delete_where (key_of c k) (object_keys d)\<rparr>) =
    (if (c', k') = (c, k) then None else get_key c' k' d)"
proof -
  have "find (key_of c' k') (delete_where (key_of c k) (object_keys d)) =
      (case find (key_of c' k') (object_keys d) of None \<Rightarrow> None | Some r \<Rightarrow> if key_of c k r then None else Some r)"
    unfolding key_of_pair by (rule find_delete_where [OF schema_okD(6) [OF assms]])
  moreover have "key_of c' k' r" if "find (key_of c' k') (object_keys d) = Some r" for r
    using find_where_Some [OF that] by blast
  ultimately show ?thesis
    by (auto simp: get_key_def key_of_def split: option.splits)
qed

lemma get_key_files [simp]: "get_key c k (d\<lparr>files := F\<rparr>) = get_key c k d" "get_key c k (detach_active now i d) = get_key c k d"
  by (simp_all add: get_key_def detach_active_def)

lemma get_key_file:
  assumes "schema_ok d" "get_key c k d = Some i"
  obtains f where "v_file (view d i) = Some f" "f_client f = c"
proof -
  from assms(2) obtain r where r: "find (key_of c k) (object_keys d) = Some r" "k_file r = i"
    by (auto simp: get_key_def)
  from find_where_Some [OF r(1)] have "r \<in> set (object_keys d)" "k_client r = c" by (auto simp: key_of_def)
  moreover have "(\<lambda>k. (k_client k, k_file k)) ` set (object_keys d) \<subseteq> (\<lambda>f. (f_client f, f_id f)) ` set (files d)"
    using schema_of_ok [OF assms(1)] by (simp add: schema_tables_def)
  ultimately obtain f where f: "f \<in> set (files d)" "(f_client f, f_id f) = (c, i)"
    using r(2) foreign_key by (metis (no_types, lifting))
  show thesis
    using that [of f] row_found [OF schema_okD(1) [OF assms(1)] f(1)] f(2) by simp
qed

section \<open>Effect on files\<close>

text \<open>What \<open>detach_active\<close> makes of the rows of its file.\<close>

definition detached :: "timestamp \<Rightarrow> file_view \<Rightarrow> file_view" where
  "detached now v = (case v_file v of
      Some f \<Rightarrow> if f_state f = Active
        then v\<lparr>v_file := Some (f\<lparr>f_state := Deleted, f_deleted_at := Some now, f_recovery_after := now\<rparr>)\<rparr> else v
    | None \<Rightarrow> v)"

lemma detached_not_Active: "v_file (detached now v) = Some f \<Longrightarrow> f_state f \<noteq> Active"
  by (auto simp: detached_def split: option.splits if_splits)

lemma detached_pending: "v_file v = Some f \<Longrightarrow> f_state f \<noteq> Active \<Longrightarrow> detached now v = v"
  by (simp add: detached_def)

lemma detached_steps: "vstep\<^sup>*\<^sup>* v (detached now v)"
  by (auto simp: detached_def intro!: r_into_rtranclp vstep.detach split: option.splits)

lemma detach_active_at:
  assumes "schema_ok d"
  shows "at_file d i (detached now (view d i)) (detach_active now i d)"
  using assms unfolding at_file_def detach_active_def detached_def
  by (auto simp: at_file_simps split: option.splits)

lemma detach_active_move:
  assumes "schema_ok d"
  shows "sim d (detach_active now i d) \<and> schema_ok (detach_active now i d)"
  using detach_active_at [OF assms] detached_steps by (rule at_file_moves)

lemma keys_only:
  assumes "schema_ok d" "schema_ok (d\<lparr>object_keys := K\<rparr>)"
  shows "sim d (d\<lparr>object_keys := K\<rparr>)"
  by (rule sim_same_view) (simp add: at_file_simps)

lemma schema_insert_key:
  assumes "schema_tables fs ls les ps us ks" "\<not> exists_where (key_of c k) ks"
    "exists_where (\<lambda>f. f_client f = c \<and> f_id f = i) fs"
  shows "schema_tables fs ls les ps us (ks @ [\<lparr>k_client = c, k_key = k, k_file = i\<rparr>])"
proof -
  have "(c, i) \<in> (\<lambda>f. (f_client f, f_id f)) ` set fs"
    using assms(3) by (auto simp: exists_where_iff)
  moreover have "(c, k) \<notin> (\<lambda>r. (k_client r, k_key r)) ` set ks"
    using assms(2) by (auto simp: exists_where_iff key_of_def)
  ultimately show ?thesis using assms(1) by (simp add: schema_tables_def)
qed

lemma schema_update_key:
  assumes "schema_tables fs ls les ps us ks" "exists_where (\<lambda>f. f_client f = c \<and> f_id f = i) fs"
  shows "schema_tables fs ls les ps us (update_where (key_of c k) (\<lambda>r. r\<lparr>k_file := i\<rparr>) ks)"
proof -
  have "(c, i) \<in> (\<lambda>f. (f_client f, f_id f)) ` set fs"
    using assms(2) by (auto simp: exists_where_iff)
  moreover have "map (\<lambda>r. (k_client r, k_key r)) (update_where (key_of c k) (\<lambda>r. r\<lparr>k_file := i\<rparr>) ks) = map (\<lambda>r. (k_client r, k_key r)) ks"
    by (rule map_update_where) simp
  ultimately show ?thesis
    using assms(1) by (auto simp: schema_tables_def set_update_where key_of_def)
qed

lemma insert_key_in_tx_cases:
  assumes "insert_key_in_tx c k i d = (r, d')"
  obtains (failed) e where "r = Inl e" "d' = d" "\<not> exists_where (\<lambda>f. f_client f = c \<and> f_id f = i) (files d)"
  | (taken) j where "r = Inr False" "d' = d" "get_key c k d = Some j"
  | (inserted) "r = Inr True" "get_key c k d = None"
      "d' = d\<lparr>object_keys := object_keys d @ [\<lparr>k_client = c, k_key = k, k_file = i\<rparr>]\<rparr>"
      "\<not> exists_where (key_of c k) (object_keys d)" "exists_where (\<lambda>f. f_client f = c \<and> f_id f = i) (files d)"
proof (cases "exists_where (key_of c k) (object_keys d)")
  case True
  then obtain j where "get_key c k d = Some j"
    by (cases "get_key c k d") (auto simp: exists_where_iff get_key_def find_where_None)
  with True assms show thesis by (intro taken) (simp_all add: insert_key_in_tx_def)
next
  case False
  then have n: "get_key c k d = None"
    by (auto simp: get_key_def exists_where_iff find_where_None)
  show thesis
  proof (cases "exists_where (\<lambda>f. f_client f = c \<and> f_id f = i) (files d)")
    case True
    show thesis by (rule inserted) (use assms False True n in \<open>simp_all add: insert_key_in_tx_def\<close>)
  next
    case foreign: False
    show thesis by (rule failed [of ForeignKeyViolation]) (use assms False foreign in \<open>simp_all add: insert_key_in_tx_def\<close>)
  qed
qed

lemma detach_active_view:
  assumes "schema_ok d"
  shows "view (detach_active now i d) j = (if j = i then detached now (view d i) else view d j)"
  using detach_active_at [OF assms, of i now] by (simp add: at_file_def)

definition displaced :: "uuid option \<Rightarrow> uuid \<Rightarrow> uuid option" where
  "displaced old i = (case old of None \<Rightarrow> None | Some j \<Rightarrow> if j = i then None else Some j)"

lemma displaced_not_new [simp]: "displaced old i \<noteq> Some i"
  by (auto simp: displaced_def split: option.splits)

text \<open>
  A key that is replaced: the new mapping, and the file that was mapped before is detached by the
  same statements.
\<close>

definition key_replaced :: "timestamp \<Rightarrow> db \<Rightarrow> string \<Rightarrow> string \<Rightarrow> uuid option \<Rightarrow> uuid option \<Rightarrow> db \<Rightarrow> bool" where
  "key_replaced now d c k new gone d' \<longleftrightarrow> sim d d' \<and> schema_ok d' \<and>
     (\<forall>c' k'. get_key c' k' d' = (if (c', k') = (c, k) then new else get_key c' k' d)) \<and>
     (\<forall>j. view d' j = (if gone = Some j then detached now (view d j) else view d j))"

lemma key_replacedD:
  assumes "key_replaced now d c k new gone d'"
  shows "sim d d'" "schema_ok d'" "get_key c k d' = new" "(c', k') \<noteq> (c, k) \<Longrightarrow> get_key c' k' d' = get_key c' k' d"
    "view d' j = (if gone = Some j then detached now (view d j) else view d j)"
  using assms by (auto simp: key_replaced_def)

lemma key_replaced_only:
  assumes "schema_ok (d\<lparr>object_keys := K\<rparr>)"
    "\<And>c' k'. get_key c' k' (d\<lparr>object_keys := K\<rparr>) = (if (c', k') = (c, k) then new else get_key c' k' d)"
  shows "key_replaced now d c k new None (d\<lparr>object_keys := K\<rparr>)"
  using assms by (simp add: key_replaced_def at_file_simps sim_same_view)

lemma key_replaced_detach:
  assumes "key_replaced now d c k new None d1"
  shows "key_replaced now d c k new (Some i) (detach_active now i d1)"
proof -
  note d1 = key_replacedD [OF assms]
  have "sim d (detach_active now i d1)" "schema_ok (detach_active now i d1)"
    using detach_active_move [OF d1(2)] d1(1) by (auto intro: sim_trans)
  moreover have "view (detach_active now i d1) j = (if j = i then detached now (view d j) else view d j)" for j
    using detach_active_view [OF d1(2)] d1(5) by simp
  moreover have "get_key c' k' (detach_active now i d1) = (if (c', k') = (c, k) then new else get_key c' k' d)" for c' k'
    using assms by (simp add: key_replaced_def)
  ultimately show ?thesis by (auto simp: key_replaced_def)
qed

lemma insert_key_replaces:
  assumes "schema_ok d" "insert_key_in_tx c k i d = (Inr True, d1)"
  shows "key_replaced now d c k (Some i) None d1" "get_key c k d = None"
proof -
  from assms(2) have "key_replaced now d c k (Some i) None d1 \<and> get_key c k d = None"
  proof (cases rule: insert_key_in_tx_cases)
    case inserted
    have "key_replaced now d c k (Some i) None d1"
      unfolding inserted(3)
      by (rule key_replaced_only)
        (simp_all add: schema_ok_updates schema_insert_key schema_of_ok [OF assms(1)] inserted get_key_insert)
    with inserted show ?thesis by simp
  qed simp_all
  then show "key_replaced now d c k (Some i) None d1" "get_key c k d = None" by auto
qed

lemma upsert_key_in_tx_cases:
  assumes "schema_ok d" "upsert_key_in_tx now c k i d = (r, d')"
  obtains (failed) e where "r = Inl e" "\<not> exists_where (\<lambda>f. f_client f = c \<and> f_id f = i) (files d)"
  | (replaced) "r = Inr (displaced (get_key c k d) i)" "key_replaced now d c k (Some i) (displaced (get_key c k d) i) d'"
      "exists_where (\<lambda>f. f_client f = c \<and> f_id f = i) (files d)"
proof (cases r)
  case (Inl e)
  then have "\<not> exists_where (\<lambda>f. f_client f = c \<and> f_id f = i) (files d)"
    using assms(2)
    by (auto simp: upsert_key_in_tx_def insert_key_in_tx_def Let_def get_key_def exists_where_iff find_where_None
        split: if_splits option.splits)
  with Inl show thesis by (rule failed)
next
  case (Inr x)
  obtain r1 d1 where run: "insert_key_in_tx c k i d = (r1, d1)" by fastforce
  from run show thesis
  proof (cases rule: insert_key_in_tx_cases)
    case (failed e)
    with assms(2) run Inr show thesis by (simp add: upsert_key_in_tx_def)
  next
    case inserted
    then have "x = None" "d' = d1" using assms(2) run Inr by (auto simp: upsert_key_in_tx_def)
    moreover have "key_replaced now d c k (Some i) None d1"
      using insert_key_replaces(1) [OF assms(1)] run inserted(1) by simp
    ultimately show thesis using inserted Inr by (intro replaced) (simp_all add: displaced_def)
  next
    case (taken j)
    let ?d2 = "d\<lparr>object_keys := update_where (key_of c k) (\<lambda>k. k\<lparr>k_file := i\<rparr>) (object_keys d)\<rparr>"
    have own: "exists_where (\<lambda>f. f_client f = c \<and> f_id f = i) (files d)"
      and x: "x = displaced (Some j) i" "d' = (if j \<noteq> i then detach_active now j ?d2 else ?d2)"
      using assms(2) run Inr taken
      by (auto simp: upsert_key_in_tx_def Let_def displaced_def split: if_splits)
    have "key_replaced now d c k (Some i) None ?d2"
      by (rule key_replaced_only)
        (simp_all add: schema_ok_updates schema_update_key schema_of_ok [OF assms(1)] own get_key_update taken)
    then have "key_replaced now d c k (Some i) (displaced (Some j) i) d'"
      using key_replaced_detach by (simp add: x displaced_def)
    then show thesis using own Inr x taken by (intro replaced) simp_all
  qed
qed

lemma delete_key_replaces:
  assumes "schema_ok d" "delete_key now c k d = (r, d')"
  shows "r = Inr (get_key c k d) \<and> key_replaced now d c k None (get_key c k d) d'"
proof -
  let ?d1 = "d\<lparr>object_keys := delete_where (key_of c k) (object_keys d)\<rparr>"
  have "key_replaced now d c k None None ?d1"
    by (rule key_replaced_only)
      (simp_all add: schema_ok_updates schema_delete_keys schema_of_ok [OF assms(1)] get_key_delete [OF assms(1)])
  moreover have "r = Inr (get_key c k d)"
    "d' = (case get_key c k d of None \<Rightarrow> ?d1 | Some i \<Rightarrow> detach_active now i ?d1)"
    using assms(2) by (simp_all add: delete_key_def Let_def)
  ultimately show ?thesis
    using key_replaced_detach by (cases "get_key c k d") simp_all
qed

section \<open>Transactions\<close>

interpretation upsert_key: transaction "upsert_key now c k i" for now c k i
proof
  fix d r d'
  assume ok: "db_ok d" and run: "upsert_key now c k i d = (r, d')"
  obtain r1 d1 where run1: "upsert_key_in_tx now c k i d = (r1, d1)" by fastforce
  from db_okD(1) [OF ok] run1 have "sim d d' \<and> schema_ok d'"
  proof (cases rule: upsert_key_in_tx_cases)
    case (failed e)
    with run run1 ok show ?thesis by (simp add: upsert_key_def db_okD)
  next
    case replaced
    with run run1 show ?thesis by (simp add: upsert_key_def key_replaced_def)
  qed
  then show "sim d d'" "schema_ok d'" by auto
qed (auto simp: upsert_key_def split: prod.splits sum.splits)

interpretation delete_key: transaction "delete_key now c k" for now c k
proof
  fix d r d'
  assume "db_ok d" "delete_key now c k d = (r, d')"
  from delete_key_replaces [OF db_okD(1) this(2)] this(1) show "sim d d'" "schema_ok d'"
    by (simp_all add: key_replaced_def)
qed (auto simp: delete_key_def Let_def)

section \<open>The key table is a map\<close>

text \<open>
  The key table behaves as a finite map from (client, key) to files whose replacement is
  atomic with the detachment of what it replaces. A put maps the key to the new file, reports the
  file it displaced and detaches that file if it is active; a delete unmaps the key and detaches
  its file; neither changes another key or the rows of any other file. A put that fails changes
  nothing.
\<close>

theorem key_table_is_a_map:
  assumes "db_ok d"
  shows "(case upsert_key now c k i d of
      (Inl e, d') \<Rightarrow> d' = d
    | (Inr gone, d') \<Rightarrow>
        gone = displaced (get_key c k d) i \<and>
        (\<forall>c' k'. get_key c' k' d' = (if (c', k') = (c, k) then Some i else get_key c' k' d)) \<and>
        (\<forall>j. view d' j = (if gone = Some j then detached now (view d j) else view d j))) \<and>
    (case delete_key now c k d of
      (r, d') \<Rightarrow> r = Inr (get_key c k d) \<and>
        (\<forall>c' k'. get_key c' k' d' = (if (c', k') = (c, k) then None else get_key c' k' d)) \<and>
        (\<forall>j. view d' j = (if get_key c k d = Some j then detached now (view d j) else view d j)))"
proof (intro conjI)
  note ok = db_okD(1) [OF assms]
  obtain r d1 where run: "upsert_key_in_tx now c k i d = (r, d1)" by fastforce
  from ok run show "case upsert_key now c k i d of
      (Inl e, d') \<Rightarrow> d' = d
    | (Inr gone, d') \<Rightarrow>
        gone = displaced (get_key c k d) i \<and>
        (\<forall>c' k'. get_key c' k' d' = (if (c', k') = (c, k) then Some i else get_key c' k' d)) \<and>
        (\<forall>j. view d' j = (if gone = Some j then detached now (view d j) else view d j))"
    by (cases rule: upsert_key_in_tx_cases)
      (simp_all add: upsert_key_def run key_replaced_def)
next
  obtain r d1 where run: "delete_key now c k d = (r, d1)" by fastforce
  from delete_key_replaces [OF db_okD(1) [OF assms] run]
  show "case delete_key now c k d of
      (r, d') \<Rightarrow> r = Inr (get_key c k d) \<and>
        (\<forall>c' k'. get_key c' k' d' = (if (c', k') = (c, k) then None else get_key c' k' d)) \<and>
        (\<forall>j. view d' j = (if get_key c k d = Some j then detached now (view d j) else view d j))"
    by (auto simp: run key_replaced_def split: option.splits)
qed

theorem key_table_is_a_map_witness:
  "get_key ''c1'' ''a'' (snd (delete_key 5 ''c1'' ''a'' demo_db)) = None \<and>
   get_key ''c1'' ''b'' (snd (upsert_key 5 ''c1'' ''b'' 9 demo_db)) = Some 9"
proof
  show "get_key ''c1'' ''a'' (snd (delete_key 5 ''c1'' ''a'' demo_db)) = None"
    using key_table_is_a_map [OF demo_db_ok, where now = 5 and c = "''c1''" and k = "''a''" and i = 6] by (auto split: prod.splits)
  have "fst (upsert_key 5 ''c1'' ''b'' 9 demo_db) = Inr None" by code_simp
  then show "get_key ''c1'' ''b'' (snd (upsert_key 5 ''c1'' ''b'' 9 demo_db)) = Some 9"
    using key_table_is_a_map [OF demo_db_ok, where now = 5 and c = "''c1''" and k = "''b''" and i = 9] by (auto split: prod.splits)
qed

end
