(* ===== verification/Object_Service.thy ===== *)
theory Object_Service
  imports Prelude
begin

text \<open>
  The crate \<open>grove-object-service\<close>: the orders of effects that completion, creation and cleanup
  follow, each written against the operations of a Rust trait (or closures) as arguments. The
  traits are also stated as locales: what their operations promise, and what the orchestration
  then guarantees. The components over the database interpret them.
\<close>

section \<open>cleanup.rs\<close>

datatype ('p, 'm) cleanup_error = Physical 'p | Metadata 'm

definition cleanup_then_finalize ::
  "('s, 'p, unit) eff \<Rightarrow> ('s, 'm, bool) eff \<Rightarrow> ('s, ('p, 'm) cleanup_error, bool) eff" where
  "cleanup_then_finalize cleanup finalize =
     try_eff cleanup Physical (\<lambda>_. try_eff finalize Metadata (\<lambda>b. ret_ok b))"

section \<open>multipart\_commit.rs\<close>

datatype 'e multipart_commit_error = Operation 'e | OwnershipLost

definition multipart_commit ::
  "('s, 'e, 'p option) eff \<Rightarrow> ('p \<Rightarrow> ('s, 'e, string option) eff) \<Rightarrow> (string \<Rightarrow> ('s, 'e, bool) eff)
   \<Rightarrow> ('s, 'e multipart_commit_error, string option) eff" where
  "multipart_commit prepare complete finalize =
     try_eff prepare Operation (\<lambda>prepared. case prepared of
         None \<Rightarrow> ret_ok None
       | Some p \<Rightarrow> try_eff (complete p) Operation (\<lambda>result. case result of
             None \<Rightarrow> (\<lambda>s. (Inl OwnershipLost, s))
           | Some etag \<Rightarrow> try_eff (finalize etag) Operation
               (\<lambda>finalized. ret_ok (if finalized then Some etag else None))))"

section \<open>multipart\_create.rs\<close>

definition initialize ::
  "('s, 'e, string) eff \<Rightarrow> (string \<Rightarrow> ('s, 'e, unit) eff) \<Rightarrow> ('s, 'e, unit) eff
   \<Rightarrow> (string option \<Rightarrow> 's \<Rightarrow> 's) \<Rightarrow> ('s, 'e, unit) eff" where
  "initialize create_vendor_upload attach_vendor_upload prepare_relay compensate s =
     (case create_vendor_upload s of
        (Inl e, s1) \<Rightarrow> (Inl e, compensate None s1)
      | (Inr upload_id, s1) \<Rightarrow>
          (case attach_vendor_upload upload_id s1 of
             (Inl e, s2) \<Rightarrow> (Inl e, compensate (Some upload_id) s2)
           | (Inr _, s2) \<Rightarrow>
               (case prepare_relay s2 of
                  (Inl e, s3) \<Rightarrow> (Inl e, compensate (Some upload_id) s3)
                | (Inr _, s3) \<Rightarrow> (Inr (), s3))))"

section \<open>single\_commit.rs\<close>

datatype 'e single_commit_error =
  SingleOperation 'e | MissingUpload | SizeMismatch | Md5Mismatch | NotCommittable

record committed =
  etag_committed :: string
  transitioned :: bool

definition single_commit ::
  "('s, 'e, (int \<times> string) option) eff \<Rightarrow> (string \<Rightarrow> ('s, 'e, bool) eff) \<Rightarrow> ('s, 'e, string option) eff
   \<Rightarrow> int \<Rightarrow> string option \<Rightarrow> ('s, 'e single_commit_error, committed) eff" where
  "single_commit observe finalize committed_etag declared_size declared_md5 =
     try_eff observe SingleOperation (\<lambda>seen. case seen of
         None \<Rightarrow> (\<lambda>s. (Inl MissingUpload, s))
       | Some (measured, etag) \<Rightarrow>
           if measured \<noteq> declared_size then (\<lambda>s. (Inl SizeMismatch, s))
           else if (case declared_md5 of None \<Rightarrow> False | Some md5 \<Rightarrow> \<not> eq_ic md5 etag)
           then (\<lambda>s. (Inl Md5Mismatch, s))
           else try_eff (finalize etag) SingleOperation (\<lambda>won.
             if won then ret_ok \<lparr>etag_committed = etag, transitioned = True\<rparr>
             else try_eff committed_etag SingleOperation (\<lambda>current. case current of
                 None \<Rightarrow> (\<lambda>s. (Inl NotCommittable, s))
               | Some now_etag \<Rightarrow> ret_ok \<lparr>etag_committed = now_etag, transitioned = False\<rparr>)))"

section \<open>Operations over the database and the outside world\<close>

text \<open>
  The services run over a pair of the database and everything outside it. A database operation
  leaves the outside alone and a storage call leaves the database alone.
\<close>

definition on_db :: "('d, 'e, 'a) eff \<Rightarrow> ('d \<times> 'w, 'e, 'a) eff" where
  "on_db op = (\<lambda>(d, w). case op d of (r, d') \<Rightarrow> (r, (d', w)))"

definition on_world :: "('w, 'e, 'a) eff \<Rightarrow> ('d \<times> 'w, 'e, 'a) eff" where
  "on_world op = (\<lambda>(d, w). case op w of (r, w') \<Rightarrow> (r, (d, w')))"

lemma on_db_eq [simp]: "on_db op (d, w) = (r, (d', w')) \<longleftrightarrow> op d = (r, d') \<and> w' = w"
  by (auto simp: on_db_def split: prod.splits)

lemma on_world_eq [simp]: "on_world op (d, w) = (r, (d', w')) \<longleftrightarrow> op w = (r, w') \<and> d' = d"
  by (auto simp: on_world_def split: prod.splits)

section \<open>What the traits promise\<close>

text \<open>
  A metadata release drops a recovery record (a location, with the session that guards it) in
  one transaction, or changes nothing.
\<close>

locale metadata_release =
  fixes invar :: "'d \<Rightarrow> bool"
    and finalize :: "('d, 'm, bool) eff"
    and recorded :: "'d \<Rightarrow> bool"
  assumes release_failed: "finalize d = (Inl e, d') \<Longrightarrow> d' = d"
    and release_lost: "finalize d = (Inr False, d') \<Longrightarrow> d' = d"
    and release_won: "invar d \<Longrightarrow> finalize d = (Inr True, d') \<Longrightarrow> recorded d \<and> \<not> recorded d'"
begin

lemma cleanup_outcomes:
  assumes "cleanup_then_finalize (on_world phys) (on_db finalize) (d, w) = (r, (d', w'))" and "invar d"
  shows "w' = snd (phys w) \<and> (r \<noteq> Inr True \<longrightarrow> d' = d) \<and>
    (r = Inr True \<longrightarrow> fst (phys w) = Inr () \<and> recorded d \<and> \<not> recorded d')"
proof -
  obtain rp wp where p: "phys w = (rp, wp)" by (cases "phys w")
  obtain rf df where f: "finalize d = (rf, df)" by (cases "finalize d")
  note eqs = cleanup_then_finalize_def try_eff_def on_world_def on_db_def ret_ok_def
  show ?thesis
  proof (cases rp)
    case (Inl e)
    with assms p show ?thesis by (auto simp: eqs)
  next
    case (Inr u)
    show ?thesis
    proof (cases rf)
      case (Inl e)
      with assms(1) p f \<open>rp = Inr u\<close> release_failed [of d e df] show ?thesis by (auto simp: eqs)
    next
      case (Inr won)
      with assms(1) p f \<open>rp = Inr u\<close> release_lost [of d df] release_won [OF assms(2), of df]
      show ?thesis by (cases won) (auto simp: eqs)
    qed
  qed
qed

lemma released_only_after_cleanup:
  assumes "cleanup_then_finalize (on_world phys) (on_db finalize) (d, w) = (r, (d', w'))"
    and "invar d" "recorded d" "\<not> recorded d'"
  shows "fst (phys w) = Inr ()"
  using cleanup_outcomes [OF assms(1,2)] assms(3,4) by (cases "r = Inr True") auto

end

text \<open>
  The trait \<open>SingleCommit\<close>, over a database whose invariant its operations keep. Observing leaves
  the database alone.
\<close>

locale single_commit_port =
  fixes invar :: "'d \<Rightarrow> bool"
    and observe :: "('d \<times> 'w, 'e, (int \<times> string) option) eff"
    and finalize :: "string \<Rightarrow> ('d, 'e, bool) eff"
    and committed_etag :: "('d, 'e, string option) eff"
    and etag_of :: "'d \<Rightarrow> string option"
  assumes observe_reads: "observe (d, w) = (ro, (d', w')) \<Longrightarrow> d' = d"
    and finalize_won: "invar d \<Longrightarrow> finalize t d = (Inr True, d') \<Longrightarrow>
      etag_of d = None \<and> etag_of d' = Some t \<and> invar d'"
    and finalize_lost: "finalize t d = (Inr False, d') \<Longrightarrow> d' = d"
    and finalize_failed: "finalize t d = (Inl e, d') \<Longrightarrow> d' = d"
    and committed_reads: "committed_etag d = (rc, d') \<Longrightarrow> d' = d"
    and committed_current: "invar d \<Longrightarrow> committed_etag d = (Inr x, d') \<Longrightarrow> x = etag_of d"
begin

lemma commit_ok:
  assumes "single_commit observe (\<lambda>t. on_db (finalize t)) (on_db committed_etag) sz md5 (d, w) = (Inr c, (d', w'))"
    and "invar d"
  shows "etag_of d' = Some (etag_committed c) \<and> invar d' \<and>
    (\<exists>t. fst (observe (d, w)) = Inr (Some (sz, t)) \<and> (\<forall>m. md5 = Some m \<longrightarrow> eq_ic m t) \<and>
      (transitioned c \<longrightarrow> etag_of d = None \<and> etag_committed c = t) \<and>
      (\<not> transitioned c \<longrightarrow> d' = d))"
proof -
  obtain sz' t d0 w1 where o: "observe (d, w) = (Inr (Some (sz', t)), (d0, w1))" "sz' = sz"
      "\<forall>m. md5 = Some m \<longrightarrow> eq_ic m t"
    and rest0: "try_eff (on_db (finalize t)) SingleOperation (\<lambda>won.
             if won then ret_ok \<lparr>etag_committed = t, transitioned = True\<rparr>
             else try_eff (on_db committed_etag) SingleOperation (\<lambda>current. case current of
                 None \<Rightarrow> (\<lambda>s. (Inl NotCommittable, s))
               | Some now_etag \<Rightarrow> ret_ok \<lparr>etag_committed = now_etag, transitioned = False\<rparr>)) (d0, w1)
             = (Inr c, (d', w'))"
    using assms(1) unfolding single_commit_def
    by (auto split: option.splits if_splits elim!: try_effE)
  have d0: "d0 = d" using observe_reads [OF o(1)] .
  note rest = rest0 [unfolded d0]
  show ?thesis
  proof (cases "finalize t d")
    case (Pair r d1)
    show ?thesis
    proof (cases "r = Inr True")
      case True
      with Pair rest have "c = \<lparr>etag_committed = t, transitioned = True\<rparr>" "d' = d1"
        by (auto simp: try_eff_def on_db_def ret_ok_def)
      with Pair True finalize_won [OF assms(2)] o show ?thesis by auto
    next
      case False
      with rest Pair have r: "r = Inr False" "d1 = d"
        using finalize_lost by (auto simp: try_eff_def on_db_def split: sum.splits)
      from rest Pair r obtain x d2 where x: "committed_etag d = (Inr (Some x), d2)" "d' = d2"
          "c = \<lparr>etag_committed = x, transitioned = False\<rparr>"
        by (auto simp: try_eff_def on_db_def ret_ok_def split: prod.splits sum.splits option.splits)
      have "d2 = d" "Some x = etag_of d" using committed_reads [OF x(1)] committed_current [OF assms(2) x(1)] by auto
      with x o assms(2) show ?thesis by auto
    qed
  qed
qed

lemma commit_error_changes_nothing:
  assumes "single_commit observe (\<lambda>t. on_db (finalize t)) (on_db committed_etag) sz md5 (d, w) = (Inl e, (d', w'))"
  shows "d' = d"
proof -
  obtain ro d0 w1 where o: "observe (d, w) = (ro, (d0, w1))" by (metis surj_pair)
  have "d0 = d" using observe_reads [OF o] .
  with o assms show ?thesis
    using finalize_lost finalize_failed committed_reads unfolding single_commit_def
    by (auto simp: on_db_def ret_ok_def try_eff_def split: prod.splits sum.splits option.splits if_splits) blast+
qed

end

text \<open>
  The trait \<open>MultipartCommit\<close>: preparing claims ownership or changes nothing, completing keeps the
  ownership, finalizing commits from ownership or changes nothing.
\<close>

locale multipart_commit_port =
  fixes invar :: "'d \<Rightarrow> bool"
    and prepare :: "('d \<times> 'w, 'e, 'p option) eff"
    and complete :: "'p \<Rightarrow> ('d \<times> 'w, 'e, string option) eff"
    and finalize :: "string \<Rightarrow> ('d, 'e, bool) eff"
    and owned :: "'d \<Rightarrow> string \<Rightarrow> bool"
    and etag_of :: "'d \<Rightarrow> string option"
    and expected :: "'p \<Rightarrow> string"
  assumes prepare_none: "prepare (d, w) = (Inr None, (d', w')) \<Longrightarrow> d' = d"
    and prepare_failed: "prepare (d, w) = (Inl e, (d', w')) \<Longrightarrow> d' = d"
    and prepare_claims: "invar d \<Longrightarrow> prepare (d, w) = (Inr (Some p), (d', w')) \<Longrightarrow> owned d' (expected p) \<and> invar d'"
    and complete_keeps: "invar d \<Longrightarrow> owned d x \<Longrightarrow> complete p (d, w) = (rc, (d', w')) \<Longrightarrow> owned d' x \<and> invar d'"
    and complete_wins: "invar d \<Longrightarrow> finalize t d = (Inr True, d') \<Longrightarrow>
      (\<exists>x. owned d x \<and> eq_ic x t) \<and> etag_of d' = Some t \<and> (\<forall>x. \<not> owned d' x) \<and> invar d'"
    and complete_lost: "finalize t d = (Inr False, d') \<Longrightarrow> d' = d"
    and complete_failed: "finalize t d = (Inl e, d') \<Longrightarrow> d' = d"
    and owned_unique: "invar d \<Longrightarrow> owned d x \<Longrightarrow> owned d y \<Longrightarrow> x = y"
begin

lemma commit_keeps:
  assumes "multipart_commit prepare complete (\<lambda>t. on_db (finalize t)) (d, w) = (r, (d', w'))" and "invar d"
  shows "invar d'"
proof -
  obtain rp d1 w1 where p: "prepare (d, w) = (rp, (d1, w1))" by (metis surj_pair)
  show ?thesis
  proof (cases "\<exists>q. rp = Inr (Some q)")
    case False
    then have "d1 = d" using p prepare_failed prepare_none by (cases rp) (blast, metis option.exhaust)
    with False assms p show ?thesis
      by (auto simp: multipart_commit_def try_eff_def ret_ok_def split: sum.splits option.splits)
  next
    case True
    then obtain q where q: "rp = Inr (Some q)" by blast
    with p prepare_claims assms(2) have o1: "owned d1 (expected q)" "invar d1" by auto
    obtain rc d2 w2 where c: "complete q (d1, w1) = (rc, (d2, w2))" by (metis surj_pair)
    have "invar d2" using complete_keeps [OF o1(2,1) c] by blast
    moreover have "invar d3" if "finalize t d2 = (rf, d3)" for t rf d3
    proof (cases rf)
      case (Inl e)
      with that complete_failed \<open>invar d2\<close> show ?thesis by blast
    next
      case (Inr won)
      with that complete_lost complete_wins \<open>invar d2\<close> show ?thesis by (cases won) auto
    qed
    ultimately show ?thesis
      using assms(1) p q c
      by (auto simp: multipart_commit_def try_eff_def on_db_def ret_ok_def split: sum.splits option.splits prod.splits)
  qed
qed

text \<open>
  With no other transition in between, a successful commit stores the ETag the provider
  reported, which is the one that was claimed; every other outcome after the claim leaves the
  ownership in place for recovery.
\<close>

lemma commit_cases:
  assumes "multipart_commit prepare complete (\<lambda>t. on_db (finalize t)) (d, w) = (r, (d', w'))" and "invar d"
  shows "(r = Inr None \<and> d' = d) \<or>
    (\<exists>t p s1. r = Inr (Some t) \<and> etag_of d' = Some t \<and> (\<forall>y. \<not> owned d' y) \<and> eq_ic (expected p) t \<and>
       prepare (d, w) = (Inr (Some p), s1) \<and> fst (complete p s1) = Inr (Some t)) \<or>
    (\<exists>e. r = Inl (Operation e) \<and> d' = d) \<or>
    (\<exists>p. (r = Inr None \<or> r = Inl OwnershipLost \<or> (\<exists>e. r = Inl (Operation e))) \<and> owned d' (expected p))"
proof -
  obtain rp d1 w1 where p: "prepare (d, w) = (rp, (d1, w1))" by (metis surj_pair)
  consider e where "rp = Inl e" | "rp = Inr None" | q where "rp = Inr (Some q)"
    by (cases rp) auto
  then show ?thesis
  proof cases
    case 1
    have "d1 = d" using prepare_failed p 1 by blast
    with assms p 1 show ?thesis by (auto simp: multipart_commit_def try_eff_def)
  next
    case 2
    have "d1 = d" using prepare_none p 2 by blast
    with assms p 2 show ?thesis by (auto simp: multipart_commit_def try_eff_def ret_ok_def)
  next
    case 3
    with p prepare_claims assms(2) have o1: "owned d1 (expected q)" "invar d1" by auto
    obtain rc d2 w2 where c: "complete q (d1, w1) = (rc, (d2, w2))" by (metis surj_pair)
    have o: "owned d2 (expected q)" "invar d2" using complete_keeps [OF o1(2,1) c] by auto
    show ?thesis
    proof (cases "\<exists>t. rc = Inr (Some t)")
      case False
      then have "d' = d2" "r = Inl OwnershipLost \<or> (\<exists>e. r = Inl (Operation e))"
        using assms(1) p 3 c by (auto simp: multipart_commit_def try_eff_def split: sum.splits option.splits)
      with o show ?thesis by blast
    next
      case True
      then obtain t where t: "rc = Inr (Some t)" by blast
      obtain rf d3 where f: "finalize t d2 = (rf, d3)" by (cases "finalize t d2")
      have d': "d' = d3" and r: "r = (case rf of Inl e \<Rightarrow> Inl (Operation e) | Inr b \<Rightarrow> Inr (if b then Some t else None))"
        using assms(1) p 3 c t f
        by (auto simp: multipart_commit_def try_eff_def on_db_def ret_ok_def split: sum.splits)
      show ?thesis
      proof (cases "rf = Inr True")
        case True
        with f o(2) complete_wins obtain x where x: "owned d2 x" "eq_ic x t" "etag_of d3 = Some t" "\<forall>y. \<not> owned d3 y"
          by blast
        moreover from this o owned_unique have "x = expected q" by blast
        ultimately show ?thesis using True d' r p 3 c t by auto
      next
        case False
        then have "d3 = d2" using f complete_lost complete_failed by (cases rf) auto
        with o d' r False show ?thesis by (cases rf) auto
      qed
    qed
  qed
qed

end

section \<open>Compensation\<close>

text \<open>
  Initialization of a native multipart upload fails only after compensating, exactly once and
  with the vendor's upload id as soon as one exists; success never compensates.
\<close>

theorem initialize_compensates:
  "initialize create attach relay compensate s = (r, s') \<longleftrightarrow>
     (\<exists>e s1. create s = (Inl e, s1) \<and> r = Inl e \<and> s' = compensate None s1) \<or>
     (\<exists>u s1 e s2. create s = (Inr u, s1) \<and> attach u s1 = (Inl e, s2) \<and> r = Inl e \<and> s' = compensate (Some u) s2) \<or>
     (\<exists>u s1 s2 e s3. create s = (Inr u, s1) \<and> attach u s1 = (Inr (), s2) \<and> relay s2 = (Inl e, s3) \<and>
        r = Inl e \<and> s' = compensate (Some u) s3) \<or>
     (\<exists>u s1 s2. create s = (Inr u, s1) \<and> attach u s1 = (Inr (), s2) \<and> relay s2 = (Inr (), s') \<and> r = Inr ())"
  by (auto simp: initialize_def split: prod.splits sum.splits)

end
