(* ===== verification/Files_Sweep.thy ===== *)
theory Files_Sweep
  imports Files_Commit Object_Service
begin

text \<open>
  \<open>db/src/files/sweep.rs\<close> and \<open>reclaim_cleanup.rs\<close>: the detach decision, expiry reclamation,
  purge, and the retention sweeps. A \<open>LIMIT\<close> without \<open>ORDER BY\<close> takes rows in table order.
\<close>

section \<open>Detach\<close>

datatype delete_outcome = NowDeleted | AlreadyDeleted | NotCommitted | NotFound

definition mark_deleted :: "timestamp \<Rightarrow> string \<Rightarrow> uuid \<Rightarrow> (db, db_error, delete_outcome) eff" where
  "mark_deleted now client i d =
     (let hit = (\<lambda>f. f_id f = i \<and> (f_client f = client \<and> f_state f = Active)) in
      if 0 < count_where hit (files d)
      then (Inr NowDeleted,
            d\<lparr>files := update_where hit
                (\<lambda>f. f\<lparr>f_state := Deleted, f_deleted_at := Some now, f_recovery_after := now\<rparr>) (files d)\<rparr>)
      else (Inr (case find (\<lambda>f. f_id f = i \<and> f_client f = client) (files d) of
                   None \<Rightarrow> NotFound
                 | Some f \<Rightarrow> (case f_state f of
                       Reclaimed \<Rightarrow> NotFound
                     | Deleted \<Rightarrow> AlreadyDeleted
                     | _ \<Rightarrow> NotCommitted)), d))"

section \<open>Expiry\<close>

record sweep_candidate =
  sw_file_id :: uuid
  sw_storage_id :: string
  sw_object_key :: string
  sw_upload_id :: "string option"
  sw_write_lease_id :: "uuid option"
  sw_multipart :: bool

definition expired_pending :: "timestamp \<Rightarrow> nat \<Rightarrow> db \<Rightarrow> sweep_candidate list" where
  "expired_pending now limit d =
     map (\<lambda>(f, le, l). \<lparr>sw_file_id = f_id f, sw_storage_id = l_storage l, sw_object_key = l_object_key l,
           sw_upload_id = le_upload_id le, sw_write_lease_id = Some (le_id le), sw_multipart = (f_part_size f \<noteq> None)\<rparr>)
       (take limit (sort_key (\<lambda>(f, le, l). (le_expires_at le, f_id f))
          [(f, le, l). f \<leftarrow> files d, le \<leftarrow> leases d, le_file le = f_id f, le_kind le = Write,
                       l \<leftarrow> locations d, l_file l = f_id f,
                       f_state f = Pending, le_state le = Issued, le_expires_at le < now,
                       \<not> has_upload d (f_id f)]))"

definition finalize_reclaim :: "timestamp \<Rightarrow> sweep_candidate \<Rightarrow> (db, db_error, bool) eff" where
  "finalize_reclaim now c d =
     (let i = sw_file_id c;
          hit = committable d i;
          d1 = d\<lparr>files := update_where hit (\<lambda>f. f\<lparr>f_state := Reclaimed, f_recovery_after := now\<rparr>) (files d)\<rparr>;
          late = (\<lambda>l. issued_write i l \<and> le_expires_at l < now)
      in if count_where hit (files d) = 0 then (Inr False, d)
         else if count_where late (leases d1) = 0 then (Inr False, d)
         else (Inr True, d1\<lparr>leases := update_where late (\<lambda>l. l\<lparr>le_state := Expired\<rparr>) (leases d1)\<rparr>))"

definition reclaim_pending :: "uuid \<Rightarrow> (db, db_error, bool) eff" where
  "reclaim_pending i d =
     (let hit = committable d i;
          d1 = d\<lparr>files := update_where hit (\<lambda>f. f\<lparr>f_state := Reclaimed\<rparr>) (files d)\<rparr>;
          d2 = d1\<lparr>leases := settle_write Expired i (leases d1)\<rparr>
      in if count_where hit (files d) = 0 then (Inr False, d)
         else (Inr True, d2\<lparr>locations := delete_where (\<lambda>l. l_file l = i) (locations d2)\<rparr>))"

section \<open>Physical cleanup after reclamation\<close>

definition reclaim_cleanup_candidates :: "timestamp \<Rightarrow> nat \<Rightarrow> db \<Rightarrow> sweep_candidate list" where
  "reclaim_cleanup_candidates now limit d =
     map (\<lambda>(f, l, le). \<lparr>sw_file_id = f_id f, sw_storage_id = l_storage l, sw_object_key = l_object_key l,
           sw_upload_id = (case le of None \<Rightarrow> None | Some le \<Rightarrow> le_upload_id le),
           sw_write_lease_id = map_option le_id le, sw_multipart = (f_part_size f \<noteq> None)\<rparr>)
       (take limit (sort_key (\<lambda>(f, l, le). (f_recovery_after f, f_id f))
          [(f, l, le). f \<leftarrow> files d, l \<leftarrow> locations d, l_file l = f_id f,
                       le \<leftarrow> (case write_leases d (f_id f) of [] \<Rightarrow> [None] | ls \<Rightarrow> map Some ls),
                       f_state f = Reclaimed, f_recovery_after f \<le> now, \<not> has_upload d (f_id f)]))"

text \<open>\<open>DELETE FROM locations l USING files f WHERE ... f.state = st AND l.storage_id = ... AND
  l.object_key = ...\<close>\<close>

definition release_location :: "file_state \<Rightarrow> sweep_candidate \<Rightarrow> (db, db_error, bool) eff" where
  "release_location st c d =
     (let hit = (\<lambda>l. l_file l = sw_file_id c \<and>
                 (exists_where (\<lambda>f. f_id f = l_file l \<and> f_state f = st) (files d) \<and>
                  l_storage l = sw_storage_id c \<and> l_object_key l = sw_object_key c))
      in (Inr (0 < count_where hit (locations d)), d\<lparr>locations := delete_where hit (locations d)\<rparr>))"

definition finalize_reclaim_cleanup :: "sweep_candidate \<Rightarrow> (db, db_error, bool) eff" where
  "finalize_reclaim_cleanup = release_location Reclaimed"

section \<open>Purge\<close>

definition candidate_from :: "uuid \<times> string \<times> string \<Rightarrow> sweep_candidate" where
  "candidate_from row = (case row of (i, st, key) \<Rightarrow>
     \<lparr>sw_file_id = i, sw_storage_id = st, sw_object_key = key, sw_upload_id = None,
      sw_write_lease_id = None, sw_multipart = False\<rparr>)"

definition purgeable :: "timestamp \<Rightarrow> nat \<Rightarrow> db \<Rightarrow> sweep_candidate list" where
  "purgeable now limit d =
     map (\<lambda>(f, l). candidate_from (f_id f, l_storage l, l_object_key l))
       (take limit (sort_key (\<lambda>(f, l). (f_recovery_after f, f_id f))
          [(f, l). f \<leftarrow> files d, l \<leftarrow> locations d, l_file l = f_id f,
                   f_state f = Deleted, f_recovery_after f \<le> now, \<not> has_upload d (f_id f)]))"

definition finalize_purge :: "sweep_candidate \<Rightarrow> (db, db_error, bool) eff" where
  "finalize_purge = release_location Deleted"

section \<open>Retention\<close>

definition expire_read_leases :: "timestamp \<Rightarrow> nat \<Rightarrow> (db, db_error, nat) eff" where
  "expire_read_leases now limit d =
     (let ids = map le_id (take limit
            (filter (\<lambda>l. le_kind l = Read \<and> le_state l = Issued \<and> le_expires_at l < now) (leases d)));
          hit = (\<lambda>l. le_id l \<in> set ids)
      in (Inr (count_where hit (leases d)),
          d\<lparr>leases := update_where hit (\<lambda>l. l\<lparr>le_state := Expired\<rparr>) (leases d)\<rparr>))"

definition lease_prunable :: "timestamp \<Rightarrow> int \<Rightarrow> db \<Rightarrow> lease_row \<Rightarrow> bool" where
  "lease_prunable now retention_secs d le \<longleftrightarrow>
     le_state le \<noteq> Issued \<and> le_created_at le < now - secs retention_secs \<and>
     \<not> has_upload d (le_file le) \<and>
     \<not> exists_where (\<lambda>f. f_id f = le_file le \<and> f_state f = Reclaimed \<and> has_location d (f_id f)) (files d)"

definition prune_terminal_leases :: "timestamp \<Rightarrow> int \<Rightarrow> nat \<Rightarrow> (db, db_error, nat) eff" where
  "prune_terminal_leases now retention_secs limit d =
     (let ids = map le_id (take limit (filter (lease_prunable now retention_secs d) (leases d)));
          hit = (\<lambda>l. le_id l \<in> set ids)
      in (Inr (count_where hit (leases d)),
          d\<lparr>leases := delete_where hit (leases d),
            lease_parts := delete_where (\<lambda>p. lp_lease p \<in> set ids) (lease_parts d)\<rparr>))"

definition terminal_since :: "file_row \<Rightarrow> timestamp" where
  "terminal_since f = (case f_deleted_at f of Some t \<Rightarrow> t | None \<Rightarrow> f_created_at f)"

definition file_prunable :: "timestamp \<Rightarrow> int \<Rightarrow> db \<Rightarrow> file_row \<Rightarrow> bool" where
  "file_prunable now retention_secs d f \<longleftrightarrow>
     f_state f \<in> {Deleted, Reclaimed} \<and> terminal_since f < now - secs retention_secs \<and>
     \<not> has_location d (f_id f) \<and> \<not> exists_where (\<lambda>le. le_file le = f_id f) (leases d) \<and>
     \<not> has_upload d (f_id f)"

text \<open>The foreign key of \<open>s3_object_keys\<close> is \<open>ON DELETE CASCADE\<close>.\<close>

definition prune_terminal_files :: "timestamp \<Rightarrow> int \<Rightarrow> nat \<Rightarrow> (db, db_error, nat) eff" where
  "prune_terminal_files now retention_secs limit d =
     (let ids = map f_id (take limit (sort_key (\<lambda>f. (terminal_since f, f_id f))
            (filter (file_prunable now retention_secs d) (files d))));
          hit = (\<lambda>f. f_id f \<in> set ids)
      in (Inr (count_where hit (files d)),
          d\<lparr>files := delete_where hit (files d),
            object_keys := delete_where (\<lambda>k. k_file k \<in> set ids) (object_keys d)\<rparr>))"

section \<open>Detach as a move\<close>

lemma mark_deleted_cases:
  assumes "db_ok d" "mark_deleted now client i d = (r, d')"
  obtains (unchanged) "r \<noteq> Inr NowDeleted" "d' = d"
  | (detached) f where "r = Inr NowDeleted" "v_file (view d i) = Some f" "f_client f = client" "f_state f = Active"
      "at_file d i ((view d i)\<lparr>v_file := Some (f\<lparr>f_state := Deleted, f_deleted_at := Some now, f_recovery_after := now\<rparr>)\<rparr>) d'"
proof -
  note ok = db_okD(1) [OF assms(1)]
  let ?u = "\<lambda>f. f\<lparr>f_state := Deleted, f_deleted_at := Some now, f_recovery_after := now\<rparr>"
  show thesis
  using ok
  proof (cases rule: file_hit_cases [where i = i and q = "\<lambda>f. f_client f = client \<and> f_state f = Active"])
    case no_row
    with assms(2) show thesis
      by (intro unchanged) (auto simp: mark_deleted_def split: option.splits file_state.splits)
  next
    case (one_row f)
    then have d': "r = Inr NowDeleted"
      "d' = d\<lparr>files := update_where (\<lambda>f. f_id f = i \<and> (f_client f = client \<and> f_state f = Active)) ?u (files d)\<rparr>"
      using assms(2) by (auto simp: mark_deleted_def Let_def)
    show thesis
      by (rule detached [of f], unfold d') (use one_row ok in \<open>auto simp: at_file_def at_file_simps\<close>)
  qed
qed

interpretation mark_deleted: transaction "mark_deleted now client i" for now client i
proof
  fix d r d'
  assume ok: "db_ok d" and run: "mark_deleted now client i d = (r, d')"
  have "sim d d' \<and> schema_ok d'"
    using ok run
  proof (cases rule: mark_deleted_cases)
    case (detached f)
    from detached(5) vstep.detach [OF detached(2,4)] show ?thesis by (rule at_file_move)
  qed (use ok in \<open>simp add: db_okD\<close>)
  then show "sim d d'" "schema_ok d'" by auto
qed (auto simp: mark_deleted_def Let_def split: if_splits)

section \<open>Reclamation as a move\<close>

lemma settle_late:
  assumes "view_ok (view d i)" "\<exists>l \<in> set (write_leases d i). le_state l = Issued \<and> le_expires_at l < now"
  shows "update_where (\<lambda>l. issued_write i l \<and> le_expires_at l < now) (\<lambda>l. l\<lparr>le_state := Expired\<rparr>) (leases d) =
    settle_write Expired i (leases d)"
proof -
  obtain l where l: "write_leases d i = [l]" "le_state l = Issued" "le_expires_at l < now"
    using assms write_lease_unique by blast
  have "(if issued_write i x \<and> le_expires_at x < now then x\<lparr>le_state := Expired\<rparr> else x) =
      (if issued_write i x then x\<lparr>le_state := Expired\<rparr> else x)" if "x \<in> set (leases d)" for x
  proof (cases "issued_write i x")
    case True
    then have "x \<in> set (write_leases d i)" using that by (simp add: in_write_leases issued_write_def)
    with l show ?thesis by simp
  qed simp
  then show ?thesis unfolding settle_write_def update_where_def by (intro map_cong) auto
qed

lemma late_count: "count_where (\<lambda>l. issued_write i l \<and> le_expires_at l < now) (leases d) = 0 \<longleftrightarrow>
    \<not> (\<exists>l \<in> set (write_leases d i). le_state l = Issued \<and> le_expires_at l < now)"
  by (auto simp: count_where_0 in_write_leases issued_write_def)

lemma finalize_reclaim_cases:
  assumes "db_ok d" "finalize_reclaim now c d = (r, d')"
  obtains (refused) "r = Inr False" "d' = d"
  | (reclaimed) f l where "r = Inr True" "v_file (view d (sw_file_id c)) = Some f" "f_state f = Pending"
      "v_upload (view d (sw_file_id c)) = None" "v_leases (view d (sw_file_id c)) = [l]"
      "le_state l = Issued" "le_expires_at l < now"
      "at_file d (sw_file_id c) ((view d (sw_file_id c))\<lparr>v_file := Some (f\<lparr>f_state := Reclaimed, f_recovery_after := now\<rparr>),
          v_leases := settle Expired (v_leases (view d (sw_file_id c)))\<rparr>) d'"
proof -
  define i where "i = sw_file_id c"
  note ok = db_okD(1) [OF assms(1)]
  let ?u = "\<lambda>f. f\<lparr>f_state := Reclaimed, f_recovery_after := now\<rparr>"
  show thesis
  using ok
  proof (cases rule: file_hit_cases [where i = i and q = "\<lambda>f. f_state f = Pending \<and> \<not> has_upload d i"])
    case no_row
    with assms(2) show thesis
      by (intro refused) (auto simp: finalize_reclaim_def Let_def committable_fun i_def)
  next
    case (one_row f)
    show thesis
    proof (cases "\<exists>l \<in> set (write_leases d i). le_state l = Issued \<and> le_expires_at l < now")
      case False
      with assms(2) one_row(1) show thesis
        by (intro refused) (auto simp: finalize_reclaim_def Let_def i_def [symmetric] late_count committable_fun)
    next
      case True
      then obtain l where l: "l \<in> set (write_leases d i)" "le_state l = Issued" "le_expires_at l < now" by auto
      note sl = settle_late [OF db_okD(2) [OF assms(1)] True]
      have d': "r = Inr True" "d' = d\<lparr>files := update_where (\<lambda>f. f_id f = i \<and> (f_state f = Pending \<and> \<not> has_upload d i)) ?u (files d),
          leases := settle_write Expired i (leases d)\<rparr>"
        using assms(2) one_row(1) True sl
        by (auto simp: finalize_reclaim_def Let_def i_def [symmetric] late_count committable_fun)
      show thesis
        by (rule reclaimed [of f l], unfold d' i_def [symmetric])
          (use one_row ok l write_lease_unique [OF db_okD(2) [OF assms(1)] l(1)] in
            \<open>auto simp: at_file_def at_file_simps has_upload_view\<close>)
    qed
  qed
qed

interpretation finalize_reclaim: transaction "finalize_reclaim now c" for now c
proof
  fix d r d'
  assume ok: "db_ok d" and run: "finalize_reclaim now c d = (r, d')"
  have "sim d d' \<and> schema_ok d'"
    using ok run
  proof (cases rule: finalize_reclaim_cases)
    case (reclaimed f l)
    from reclaimed(8) vstep.reclaim_keep [OF reclaimed(2,3,4)] show ?thesis by (rule at_file_move)
  qed (use ok in \<open>simp add: db_okD\<close>)
  then show "sim d d'" "schema_ok d'" by auto
qed (auto simp: finalize_reclaim_def Let_def split: if_splits)

lemma delete_where_True: "delete_where (\<lambda>l. k l = i) rows = delete_where (\<lambda>l. k l = i \<and> True) rows"
  by simp

lemma reclaim_pending_cases:
  assumes "db_ok d" "reclaim_pending i d = (r, d')"
  obtains (refused) "r = Inr False" "d' = d"
      "\<forall>f. v_file (view d i) = Some f \<longrightarrow> f_state f \<noteq> Pending \<or> v_upload (view d i) \<noteq> None"
  | (reclaimed) f where "r = Inr True" "v_file (view d i) = Some f" "f_state f = Pending" "v_upload (view d i) = None"
      "at_file d i ((view d i)\<lparr>v_file := Some (f\<lparr>f_state := Reclaimed\<rparr>), v_loc := None,
          v_leases := settle Expired (v_leases (view d i))\<rparr>) d'"
proof -
  note ok = db_okD(1) [OF assms(1)]
  let ?u = "\<lambda>f. f\<lparr>f_state := Reclaimed\<rparr>"
  show thesis
  using ok
  proof (cases rule: file_hit_cases [where i = i and q = "\<lambda>f. f_state f = Pending \<and> \<not> has_upload d i"])
    case no_row
    with assms(2) show thesis
      by (intro refused) (auto simp: reclaim_pending_def Let_def committable_fun has_upload_view)
  next
    case (one_row f)
    have d': "r = Inr True" "d' = d\<lparr>files := update_where (\<lambda>f. f_id f = i \<and> (f_state f = Pending \<and> \<not> has_upload d i)) ?u (files d),
          leases := settle_write Expired i (leases d), locations := delete_where (\<lambda>l. l_file l = i) (locations d)\<rparr>"
      using assms(2) one_row(1) by (auto simp: reclaim_pending_def Let_def committable_fun)
    show thesis
      by (rule reclaimed [of f], unfold d')
        (use one_row ok in \<open>auto simp: at_file_def at_file_simps has_upload_view split: option.splits\<close>)
  qed
qed

interpretation reclaim_pending: transaction "reclaim_pending i" for i
proof
  fix d r d'
  assume ok: "db_ok d" and run: "reclaim_pending i d = (r, d')"
  have "sim d d' \<and> schema_ok d'"
    using ok run
  proof (cases rule: reclaim_pending_cases)
    case (reclaimed f)
    have "vstep (view d i) ((view d i)\<lparr>v_file := Some (f\<lparr>f_state := Reclaimed\<rparr>), v_loc := None,
          v_leases := settle Expired (v_leases (view d i)), v_upload := None\<rparr>)"
      by (rule vstep.reclaim_drop) (use reclaimed in auto)
    with reclaimed show ?thesis by (intro at_file_move) (auto simp: view_def)
  qed (use ok in \<open>simp add: db_okD\<close>)
  then show "sim d d'" "schema_ok d'" by auto
qed (auto simp: reclaim_pending_def Let_def split: if_splits)

section \<open>Releasing an address as a move\<close>

lemma release_location_cases:
  assumes "db_ok d" "release_location st c d = (r, d')"
  obtains (refused) "r = Inr False" "d' = d"
  | (released) f l where "r = Inr True" "v_file (view d (sw_file_id c)) = Some f" "f_state f = st"
      "v_loc (view d (sw_file_id c)) = Some l" "l_storage l = sw_storage_id c" "l_object_key l = sw_object_key c"
      "at_file d (sw_file_id c) ((view d (sw_file_id c))\<lparr>v_loc := None\<rparr>) d'"
proof -
  define i where "i = sw_file_id c"
  define q where "q = (\<lambda>l :: location_row. exists_where (\<lambda>f. f_id f = l_file l \<and> f_state f = st) (files d) \<and>
                  l_storage l = sw_storage_id c \<and> l_object_key l = sw_object_key c)"
  note ok = db_okD(1) [OF assms(1)] and S = schema_okD [OF db_okD(1) [OF assms(1)]]
  have run: "r = Inr (0 < count_where (\<lambda>l. l_file l = i \<and> q l) (locations d))"
    "d' = d\<lparr>locations := delete_where (\<lambda>l. l_file l = i \<and> q l) (locations d)\<rparr>"
    using assms(2) by (auto simp: release_location_def Let_def i_def q_def)
  show thesis
  proof (cases "count_where (\<lambda>l. l_file l = i \<and> q l) (locations d) = 0")
    case True
    then have "delete_where (\<lambda>l. l_file l = i \<and> q l) (locations d) = locations d"
      by (intro delete_where_none) (simp add: count_where_0)
    with True run show thesis by (intro refused) auto
  next
    case False
    then obtain l where l: "find (\<lambda>l. l_file l = i) (locations d) = Some l" "q l"
      using count_by_key [OF S(2), of i q] by (auto split: option.splits)
    from l(1) have "l_file l = i" by (rule find_key)
    with l(2) exists_by_key [OF S(1), of i "\<lambda>f. f_state f = st"]
    obtain f where f: "find (\<lambda>f. f_id f = i) (files d) = Some f" "f_state f = st"
      by (auto simp: q_def exists_where_iff split: option.splits)
    have "at_file d i ((view d i)\<lparr>v_loc := None\<rparr>) d'"
      unfolding run at_file_def using ok l by (auto simp: at_file_simps)
    with f l False run show thesis
      by (intro released [of f l]) (auto simp: i_def q_def)
  qed
qed

lemma release_location_transaction:
  assumes "st = Deleted \<or> st = Reclaimed"
  shows "transaction (release_location st c)"
proof
  fix d r d'
  assume ok: "db_ok d" and run: "release_location st c d = (r, d')"
  have "sim d d' \<and> schema_ok d'"
    using ok run
  proof (cases rule: release_location_cases)
    case (released f l)
    from released(2,3) assms have "vstep (view d (sw_file_id c)) ((view d (sw_file_id c))\<lparr>v_loc := None\<rparr>)"
      by (intro vstep.drop_location) auto
    with released(7) show ?thesis by (rule at_file_move)
  qed (use ok in \<open>simp add: db_okD\<close>)
  then show "sim d d'" "schema_ok d'" by auto
qed (auto simp: release_location_def Let_def)

interpretation finalize_reclaim_cleanup: transaction "finalize_reclaim_cleanup c" for c
  unfolding finalize_reclaim_cleanup_def by (rule release_location_transaction) simp

interpretation finalize_purge: transaction "finalize_purge c" for c
  unfolding finalize_purge_def by (rule release_location_transaction) simp

section \<open>Retention as moves\<close>

interpretation expire_read_leases: transaction "expire_read_leases now limit" for now limit
proof
  fix d r d'
  assume ok: "db_ok d" and run: "expire_read_leases now limit d = (r, d')"
  define ids where "ids = map le_id (take limit
            (filter (\<lambda>l. le_kind l = Read \<and> le_state l = Issued \<and> le_expires_at l < now) (leases d)))"
  have d': "d' = d\<lparr>leases := update_where (\<lambda>l. le_id l \<in> set ids) (\<lambda>l. l\<lparr>le_state := Expired\<rparr>) (leases d)\<rparr>"
    using run by (simp add: expire_read_leases_def Let_def ids_def)
  have not_write: "le_id l \<notin> set ids" if w: "l \<in> set (write_leases d i)" for l i
  proof
    assume "le_id l \<in> set ids"
    then obtain m where m: "m \<in> set (leases d)" "le_kind m = Read" "le_id m = le_id l"
      by (auto simp: ids_def dest!: in_set_takeD)
    then have "m = l"
      using w key_unique [OF schema_okD(3) [OF db_okD(1) [OF ok]]] by (auto simp: in_write_leases)
    with m w show False by (simp add: in_write_leases)
  qed
  have "view d' i = view d i" for i
  proof -
    have "update_where (\<lambda>l. le_id l \<in> set ids) (\<lambda>l. l\<lparr>le_state := Expired\<rparr>) (write_leases d i) = write_leases d i"
      by (rule update_where_none) (rule not_write)
    then show ?thesis unfolding d' by (subst view_update_leases) (auto simp: view_def)
  qed
  then show "sim d d'" by (rule sim_same_view)
  show "schema_ok d'"
    using db_okD(1) [OF ok] by (simp add: d' at_file_simps)
qed (auto simp: expire_read_leases_def Let_def)

lemma delete_where_image: "k ` set (delete_where (\<lambda>r. k r \<in> X) rows) = k ` set rows - X"
  by (auto simp: set_delete_where)

interpretation prune_terminal_leases: transaction "prune_terminal_leases now ret limit" for now ret limit
proof
  fix d r d'
  assume ok: "db_ok d" and run: "prune_terminal_leases now ret limit d = (r, d')"
  define ids where "ids = map le_id (take limit (filter (lease_prunable now ret d) (leases d)))"
  have d': "d' = d\<lparr>leases := delete_where (\<lambda>l. le_id l \<in> set ids) (leases d),
      lease_parts := delete_where (\<lambda>p. lp_lease p \<in> set ids) (lease_parts d)\<rparr>"
    using run by (simp add: prune_terminal_leases_def Let_def ids_def)
  note S = schema_okD [OF db_okD(1) [OF ok]]
  have prunable: "lease_prunable now ret d l" if "l \<in> set (leases d)" "le_id l \<in> set ids" for l
  proof -
    from that(2) obtain m where "m \<in> set (leases d)" "lease_prunable now ret d m" "le_id m = le_id l"
      by (auto simp: ids_def dest!: in_set_takeD)
    then show ?thesis using key_unique [OF S(3)] that(1) by metis
  qed
  have wl: "write_leases d' i = filter (\<lambda>l. le_id l \<notin> set ids) (write_leases d i)" for i
    by (auto simp: d' write_leases_def delete_where_def intro: filter_cong)
  have other: "files d' = files d" "locations d' = locations d" "uploads d' = uploads d"
    "lease_parts d' = delete_where (\<lambda>p. lp_lease p \<in> set ids) (lease_parts d)"
    by (simp_all add: d')
  show "sim d d'"
  proof (rule sim_pointwise)
    fix i
    have vi: "view_ok (view d i)" using ok by (rule db_okD)
    show "vstep (view d i) (view d' i) \<or> view d' i = view d i"
    proof (cases "\<exists>l \<in> set (write_leases d i). le_id l \<in> set ids")
      case True
      then obtain l where l: "l \<in> set (write_leases d i)" "le_id l \<in> set ids" by auto
      note one = write_lease_unique [OF vi l(1)]
      from l have lp: "lease_prunable now ret d l" by (intro prunable) (auto simp: in_write_leases)
      have li: "le_file l = i" using l(1) by (simp add: in_write_leases)
      have "v_file (view d i) \<noteq> None" using vi one by (auto simp: view_ok_def split: option.splits)
      then obtain f where f: "v_file (view d i) = Some f" by auto
      then have "f \<in> set (files d)" "f_id f = i" by (auto dest: find_where_Some)
      then have "vstep (view d i) ((view d i)\<lparr>v_leases := [], v_parts := []\<rparr>)"
        using f lp li one
        by (intro vstep.prune_leases) (auto simp: lease_prunable_def has_upload_view has_location_view exists_where_iff)
      moreover have "view d' i = (view d i)\<lparr>v_leases := [], v_parts := []\<rparr>"
        using l(2) one by (simp add: view_def wl other parts_of_def exists_where_def)
      ultimately show ?thesis by simp
    next
      case False
      then have "filter (\<lambda>l. le_id l \<notin> set ids) (write_leases d i) = write_leases d i"
        by (auto simp: filter_id_conv)
      moreover have "parts_of (write_leases d i) (delete_where (\<lambda>p. lp_lease p \<in> set ids) (lease_parts d)) =
          parts_of (write_leases d i) (lease_parts d)"
        using False by (auto simp: parts_of_def delete_where_def exists_where_iff intro!: filter_cong)
      ultimately show ?thesis by (simp add: view_def wl other)
    qed
  qed
  have "lp_lease ` set (lease_parts d') \<subseteq> le_id ` set (leases d')"
    using S(7) by (auto simp: d' delete_where_image)
  moreover have "le_file ` set (leases d') \<subseteq> f_id ` set (files d')"
    using S(9) by (auto simp: d' set_delete_where)
  moreover have "\<forall>p \<in> set (lease_parts d'). part_check p"
    using S(12) by (simp add: d' set_delete_where)
  ultimately show "schema_ok d'"
    using schema_of_ok [OF db_okD(1) [OF ok]]
    by (simp add: schema_ok_def schema_tables_def d' map_delete_where_distinct)
qed (auto simp: prune_terminal_leases_def Let_def)

interpretation prune_terminal_files: transaction "prune_terminal_files now ret limit" for now ret limit
proof
  fix d r d'
  assume ok: "db_ok d" and run: "prune_terminal_files now ret limit d = (r, d')"
  define ids where "ids = map f_id (take limit (sort_key (\<lambda>f. (terminal_since f, f_id f))
            (filter (file_prunable now ret d) (files d))))"
  have d': "d' = d\<lparr>files := delete_where (\<lambda>f. f_id f \<in> set ids) (files d),
      object_keys := delete_where (\<lambda>k. k_file k \<in> set ids) (object_keys d)\<rparr>"
    using run by (simp add: prune_terminal_files_def Let_def ids_def)
  note S = schema_okD [OF db_okD(1) [OF ok]]
  have gone: "file_prunable now ret d f" if "f \<in> set (files d)" "f_id f \<in> set ids" for f
  proof -
    from that(2) obtain m where "m \<in> set (files d)" "file_prunable now ret d m" "f_id m = f_id f"
      by (auto simp: ids_def dest!: in_set_takeD)
    then show ?thesis using key_unique [OF S(1)] that(1) by metis
  qed
  have v': "view d' i = (view d i)\<lparr>v_file := find (\<lambda>f. f_id f = i) (delete_where (\<lambda>f. f_id f \<in> set ids) (files d))\<rparr>" for i
    by (simp add: d' view_updates)
  show "sim d d'"
  proof (rule sim_pointwise)
    fix i
    show "vstep (view d i) (view d' i) \<or> view d' i = view d i"
    proof (cases "find (\<lambda>f. f_id f = i) (files d)")
      case None
      then show ?thesis by (simp add: v' find_delete_where S)
    next
      case (Some f)
      then have f: "f \<in> set (files d)" "f_id f = i" by (auto dest: find_where_Some)
      show ?thesis
      proof (cases "i \<in> set ids")
        case True
        with f gone have p: "file_prunable now ret d f" by simp
        have "write_leases d i = []"
          using p f by (auto simp: file_prunable_def write_leases_def exists_where_iff filter_empty_conv)
        then have "vstep (view d i) ((view d i)\<lparr>v_file := None\<rparr>)"
          using Some p f
          by (intro vstep.prune_file [where f = f]) (auto simp: file_prunable_def has_location_view has_upload_view)
        then show ?thesis using Some f True by (simp add: v' find_delete_where S)
      next
        case False
        then show ?thesis using Some f by (simp add: v' find_delete_where S)
      qed
    qed
  qed
  have free: "l_file l \<notin> set ids" if here: "l \<in> set (locations d)" for l
  proof
    assume "l_file l \<in> set ids"
    moreover obtain f where f: "f \<in> set (files d)" "f_id f = l_file l" using S(8) here by (rule foreign_key)
    ultimately have "file_prunable now ret d f" using gone by simp
    with f here show False by (auto simp: file_prunable_def has_location_def exists_where_iff)
  qed
  have free2: "le_file l \<notin> set ids" if here: "l \<in> set (leases d)" for l
  proof
    assume "le_file l \<in> set ids"
    moreover obtain f where f: "f \<in> set (files d)" "f_id f = le_file l" using S(9) here by (rule foreign_key)
    ultimately have "file_prunable now ret d f" using gone by simp
    with f here show False by (auto simp: file_prunable_def exists_where_iff)
  qed
  have free3: "u_file u \<notin> set ids" if here: "u \<in> set (uploads d)" for u
  proof
    assume "u_file u \<in> set ids"
    moreover obtain f where f: "f \<in> set (files d)" "f_id f = u_file u" using S(10) here by (rule foreign_key)
    ultimately have "file_prunable now ret d f" using gone by simp
    with f here show False by (auto simp: file_prunable_def has_upload_def exists_where_iff)
  qed
  have left: "f_id ` set (files d') = f_id ` set (files d) - set ids"
    by (simp add: d' delete_where_image)
  have "l_file ` set (locations d') \<subseteq> f_id ` set (files d')" "le_file ` set (leases d') \<subseteq> f_id ` set (files d')"
    "u_file ` set (uploads d') \<subseteq> f_id ` set (files d')"
    using S(8,9,10) free free2 free3 unfolding left by (auto simp: d')
  moreover have "(\<lambda>k. (k_client k, k_file k)) ` set (object_keys d') \<subseteq> (\<lambda>f. (f_client f, f_id f)) ` set (files d')"
  proof safe
    fix k assume "k \<in> set (object_keys d')"
    then have k: "k \<in> set (object_keys d)" "k_file k \<notin> set ids" by (auto simp: d' set_delete_where)
    have "(\<lambda>k. (k_client k, k_file k)) ` set (object_keys d) \<subseteq> (\<lambda>f. (f_client f, f_id f)) ` set (files d)"
      using schema_of_ok [OF db_okD(1) [OF ok]] by (simp add: schema_tables_def)
    then obtain f where f: "f \<in> set (files d)" "(f_client f, f_id f) = (k_client k, k_file k)"
      using k(1) by (rule foreign_key)
    then have "f \<in> set (files d')" using k(2) by (simp add: d' set_delete_where)
    with f(2) show "(k_client k, k_file k) \<in> (\<lambda>f. (f_client f, f_id f)) ` set (files d')"
      by (intro image_eqI [where x = f]) simp_all
  qed
  ultimately show "schema_ok d'"
    using schema_of_ok [OF db_okD(1) [OF ok]]
    unfolding schema_ok_def schema_tables_def
    by (elim conjE, intro conjI) (simp_all add: d' map_delete_where_distinct)
qed (auto simp: prune_terminal_files_def Let_def)

section \<open>Releases behind a physical cleanup\<close>

text \<open>
  The transactions that the sweepers run after the physical cleanup are metadata releases of the
  file's location: \<open>cleanup_then_finalize\<close> then keeps the address until the object is gone.
\<close>

definition address_recorded :: "uuid \<Rightarrow> db \<Rightarrow> bool" where
  "address_recorded i d \<longleftrightarrow> has_location d i"

lemma address_recorded_view: "address_recorded i d \<longleftrightarrow> v_loc (view d i) \<noteq> None"
  by (simp add: address_recorded_def has_location_view)

lemma release_location_releases:
  assumes "st = Deleted \<or> st = Reclaimed"
  shows "metadata_release db_ok (release_location st c) (address_recorded (sw_file_id c))"
proof
  fix d e d'
  show "release_location st c d = (Inl e, d') \<Longrightarrow> d' = d"
    by (simp add: release_location_def Let_def)
next
  fix d d'
  assume "release_location st c d = (Inr False, d')"
  then show "d' = d"
    by (auto simp: release_location_def Let_def count_where_pos) (subst delete_where_none; auto)
next
  fix d d'
  assume "db_ok d" "release_location st c d = (Inr True, d')"
  then show "address_recorded (sw_file_id c) d \<and> \<not> address_recorded (sw_file_id c) d'"
    unfolding address_recorded_view
    by (cases rule: release_location_cases) (auto simp: at_file_fields)
qed

interpretation reclaim_cleanup: metadata_release db_ok "finalize_reclaim_cleanup c" "address_recorded (sw_file_id c)" for c
  unfolding finalize_reclaim_cleanup_def by (rule release_location_releases) simp

interpretation purge: metadata_release db_ok "finalize_purge c" "address_recorded (sw_file_id c)" for c
  unfolding finalize_purge_def by (rule release_location_releases) simp

interpretation pending_reclaim: metadata_release db_ok "reclaim_pending i" "address_recorded i" for i
proof
  fix d d'
  assume ok: "db_ok d" and run: "reclaim_pending i d = (Inr True, d')"
  from ok run show "address_recorded i d \<and> \<not> address_recorded i d'"
  proof (cases rule: reclaim_pending_cases)
    case (reclaimed f)
    have "v_loc (view d i) \<noteq> None"
      using db_okD(2) [OF ok, of i] reclaimed(2,3) by (simp add: view_ok_def)
    with at_file_fields(2) [OF reclaimed(5)] show ?thesis by (simp add: address_recorded_view)
  qed simp
qed (auto simp: reclaim_pending_def Let_def split: if_splits)

section \<open>Sweeps and leases\<close>

text \<open>
  C7. A renewed upload is never reclaimed: whatever a sweep saw earlier, \<open>finalize_reclaim\<close>
  succeeds only on a pending file with no upload owner whose single write lease is issued and
  past its deadline at that transaction's time; otherwise it changes nothing.
\<close>

theorem live_lease_is_not_reclaimed:
  assumes "db_ok d" "finalize_reclaim now c d = (r, d')"
  shows "if \<exists>f l. v_file (view d (sw_file_id c)) = Some f \<and> f_state f = Pending \<and>
           v_upload (view d (sw_file_id c)) = None \<and> v_leases (view d (sw_file_id c)) = [l] \<and>
           le_state l = Issued \<and> le_expires_at l < now
         then r = Inr True \<and> phase (view d' (sw_file_id c)) = Gone \<and>
              v_loc (view d' (sw_file_id c)) = v_loc (view d (sw_file_id c))
         else r = Inr False \<and> d' = d"
  using assms
proof (cases rule: finalize_reclaim_cases)
  case refused
  have "\<not> (\<exists>f l. v_file (view d (sw_file_id c)) = Some f \<and> f_state f = Pending \<and>
           v_upload (view d (sw_file_id c)) = None \<and> v_leases (view d (sw_file_id c)) = [l] \<and>
           le_state l = Issued \<and> le_expires_at l < now)"
  proof
    assume "\<exists>f l. v_file (view d (sw_file_id c)) = Some f \<and> f_state f = Pending \<and>
           v_upload (view d (sw_file_id c)) = None \<and> v_leases (view d (sw_file_id c)) = [l] \<and>
           le_state l = Issued \<and> le_expires_at l < now"
    then obtain f l where f: "f \<in> set (files d)" "f_id f = sw_file_id c" "f_state f = Pending"
      "\<not> has_upload d (sw_file_id c)" and l: "l \<in> set (write_leases d (sw_file_id c))" "le_state l = Issued" "le_expires_at l < now"
      by (auto simp: has_upload_view dest: find_where_Some)
    have "count_where (committable d (sw_file_id c)) (files d) \<noteq> 0"
      using f by (auto simp: count_where_0 committable_def)
    moreover have "count_where (\<lambda>l. issued_write (sw_file_id c) l \<and> le_expires_at l < now) (leases d) \<noteq> 0"
      using l by (auto simp: late_count)
    ultimately show False
      using assms(2) refused(1) by (simp add: finalize_reclaim_def Let_def)
  qed
  with refused show ?thesis by simp
next
  case (reclaimed f l)
  with at_file_fields [OF reclaimed(8)] show ?thesis by (auto simp: phase_def)
qed

theorem live_lease_is_not_reclaimed_witness:
  "fst (finalize_reclaim 200 (candidate_from (1, ''s1'', [])) demo_db) = Inr True \<and>
   finalize_reclaim 99 (candidate_from (1, ''s1'', [])) demo_db = (Inr False, demo_db)"
proof
  let ?c = "candidate_from (1, ''s1'', [])"
  have rows: "v_file (view demo_db (sw_file_id ?c)) = Some (demo_file 1 Pending None)"
    "v_upload (view demo_db (sw_file_id ?c)) = None" "v_leases (view demo_db (sw_file_id ?c)) = [demo_lease 1 Issued]"
    by (simp_all add: demo_db_def demo_row_defs candidate_from_def write_leases_def)
  have l: "le_state (demo_lease 1 Issued) = Issued" "le_expires_at (demo_lease 1 Issued) = 100" "f_state (demo_file 1 Pending None) = Pending"
    by (simp_all add: demo_row_defs)
  obtain r d' where run: "finalize_reclaim 200 ?c demo_db = (r, d')" by fastforce
  from live_lease_is_not_reclaimed [OF demo_db_ok run] show "fst (finalize_reclaim 200 ?c demo_db) = Inr True"
    unfolding rows using l run by auto
  obtain r d' where run: "finalize_reclaim 99 ?c demo_db = (r, d')" by fastforce
  from live_lease_is_not_reclaimed [OF demo_db_ok run] show "finalize_reclaim 99 ?c demo_db = (Inr False, demo_db)"
    unfolding rows using l run by auto
qed

end
