(* ===== verification/Part_Ledger.thy ===== *)
theory Part_Ledger
  imports Files_Create
begin

text \<open>
  The part ledger statements that \<open>db/src/files/multipart.rs\<close> and
  \<open>db/src/s3_registry/uploads.rs\<close> share word for word: the upsert that claims a part, the update
  that records it as done, and the two statements that give a claim back. \<open>part_ledger\<close> is the
  contract both surfaces keep; its lemmas hold for either.
\<close>

section \<open>The statements\<close>

definition part_key :: "uuid \<Rightarrow> int \<Rightarrow> part_row \<Rightarrow> bool" where
  "part_key lease n p \<longleftrightarrow> lp_lease p = lease \<and> lp_no p = n"

definition claimed_part :: "uuid \<Rightarrow> int \<Rightarrow> part_row" where
  "claimed_part lease n = \<lparr>lp_lease = lease, lp_no = n, lp_state = PartClaimed, lp_size = None, lp_md5 = None\<rparr>"

text \<open>\<open>INSERT ... ON CONFLICT (lease_id, part_no) DO UPDATE SET state = 'claimed' WHERE
  lease_parts.state = 'done'\<close>; \<open>None\<close> when no row is affected.\<close>

definition upsert_claim :: "uuid \<Rightarrow> int \<Rightarrow> part_row list \<Rightarrow> part_row list option" where
  "upsert_claim lease n ps =
     (case find (part_key lease n) ps of
        None \<Rightarrow> Some (ps @ [claimed_part lease n])
      | Some p \<Rightarrow> if lp_state p = PartDone
                  then Some (update_where (part_key lease n) (\<lambda>p. p\<lparr>lp_state := PartClaimed\<rparr>) ps)
                  else None)"

definition owned_claim :: "db \<Rightarrow> uuid \<Rightarrow> uuid \<Rightarrow> int \<Rightarrow> part_row \<Rightarrow> bool" where
  "owned_claim d i lease n p \<longleftrightarrow> lp_lease p = lease \<and> lp_no p = n \<and> lp_state p = PartClaimed \<and>
     exists_where (\<lambda>le. le_id le = lp_lease p \<and> le_file le = i \<and> le_kind le = Write) (leases d)"

definition record_done :: "uuid \<Rightarrow> uuid \<Rightarrow> int \<Rightarrow> int \<Rightarrow> string \<Rightarrow> (db, db_error, bool) eff" where
  "record_done i lease n sz md5 d =
     (let hit = owned_claim d i lease n in
      if count_where hit (lease_parts d) = 0 then (Inr False, d)
      else if sz < 0 then (Inl CheckViolation, d)
      else (Inr True, d\<lparr>lease_parts := update_where hit
              (\<lambda>p. p\<lparr>lp_state := PartDone, lp_size := Some sz, lp_md5 := Some md5\<rparr>) (lease_parts d)\<rparr>))"

definition give_back :: "uuid \<Rightarrow> uuid \<Rightarrow> int \<Rightarrow> (db, db_error, unit) eff" where
  "give_back i lease n d =
     (let d1 = d\<lparr>lease_parts := update_where
                  (\<lambda>p. owned_claim d i lease n p \<and> lp_size p \<noteq> None \<and> lp_md5 p \<noteq> None)
                  (\<lambda>p. p\<lparr>lp_state := PartDone\<rparr>) (lease_parts d)\<rparr>
      in (Inr (), d1\<lparr>lease_parts := delete_where
                  (\<lambda>p. owned_claim d1 i lease n p \<and> lp_size p = None \<and> lp_md5 p = None) (lease_parts d1)\<rparr>))"

text \<open>Measurements, in part order. The \<open>CHECK\<close> of the table makes both columns present.\<close>

definition done_row :: "part_row \<Rightarrow> int \<times> int \<times> string" where
  "done_row p = (lp_no p, the (lp_size p), the (lp_md5 p))"

definition done_rows :: "part_row list \<Rightarrow> (int \<times> int \<times> string) list" where
  "done_rows ps = map done_row (sort_key lp_no (filter (\<lambda>p. lp_state p = PartDone) ps))"

section \<open>Their effect on the rows of one part\<close>

lemma part_key_unique:
  assumes "schema_ok d" "p \<in> set (lease_parts d)" "q \<in> set (lease_parts d)" "part_key l n p" "part_key l n q"
  shows "p = q"
  using key_unique [OF schema_okD(4) [OF assms(1)] assms(2,3)] assms(4,5) by (simp add: part_key_def)

lemma upsert_claim_Some:
  assumes "upsert_claim lease n ps = Some P"
  shows "filter (\<lambda>p. lp_lease p \<noteq> lease) P = filter (\<lambda>p. lp_lease p \<noteq> lease) ps"
    "\<exists>p \<in> set P. part_key lease n p" "\<And>p. p \<in> set P \<Longrightarrow> part_key lease n p \<Longrightarrow> lp_state p = PartClaimed"
proof -
  have other: "filter (\<lambda>p. lp_lease p \<noteq> lease) (update_where (part_key lease n) (\<lambda>p. p\<lparr>lp_state := PartClaimed\<rparr>) ps) =
      filter (\<lambda>p. lp_lease p \<noteq> lease) ps"
    by (rule filter_outside) (auto simp: part_key_def)
  have P: "P = ps @ [claimed_part lease n] \<and> (\<forall>p \<in> set ps. \<not> part_key lease n p) \<or>
      P = update_where (part_key lease n) (\<lambda>p. p\<lparr>lp_state := PartClaimed\<rparr>) ps \<and> (\<exists>p \<in> set ps. part_key lease n p)"
    using assms by (auto simp: upsert_claim_def find_where_None split: option.splits if_splits dest!: find_where_Some)
  then show "filter (\<lambda>p. lp_lease p \<noteq> lease) P = filter (\<lambda>p. lp_lease p \<noteq> lease) ps"
    using other by (auto simp: claimed_part_def)
  from P show "\<exists>p \<in> set P. part_key lease n p"
  proof (elim disjE conjE bexE)
    fix p assume p: "P = update_where (part_key lease n) (\<lambda>p. p\<lparr>lp_state := PartClaimed\<rparr>) ps" "p \<in> set ps" "part_key lease n p"
    have "p\<lparr>lp_state := PartClaimed\<rparr> \<in> set P"
      unfolding p(1) set_update_where by (rule image_eqI [where x = p]) (use p in simp_all)
    then show ?thesis using p(3) by (intro bexI) (simp_all add: part_key_def)
  qed (auto simp: claimed_part_def part_key_def)
  show "lp_state p = PartClaimed" if "p \<in> set P" "part_key lease n p" for p
    using P
  proof (elim disjE conjE bexE)
    assume "P = ps @ [claimed_part lease n]" "\<forall>p \<in> set ps. \<not> part_key lease n p"
    with that show ?thesis by (auto simp: claimed_part_def)
  next
    fix q assume "P = update_where (part_key lease n) (\<lambda>p. p\<lparr>lp_state := PartClaimed\<rparr>) ps"
    with that(1) have "p \<in> set (update_where (part_key lease n) (\<lambda>p. p\<lparr>lp_state := PartClaimed\<rparr>) ps)" by simp
    then obtain q where "p = (if part_key lease n q then q\<lparr>lp_state := PartClaimed\<rparr> else q)"
      by (rule in_update_where)
    with that(2) show ?thesis by (cases "part_key lease n q") simp_all
  qed
qed

lemma upsert_claim_schema:
  assumes "schema_tables fs ls les ps us ks" "upsert_claim lease n ps = Some P" "1 \<le> n" "lease \<in> le_id ` set les"
  shows "schema_tables fs ls les P us ks"
proof (cases "find (part_key lease n) ps")
  case None
  then have P: "P = ps @ [claimed_part lease n]"
    using assms(2) by (simp add: upsert_claim_def)
  have "(lease, n) \<notin> (\<lambda>p. (lp_lease p, lp_no p)) ` set ps"
    using None by (auto simp: find_where_None part_key_def)
  with assms(1,3,4) show ?thesis
    by (auto simp: schema_tables_def P claimed_part_def part_check_def)
next
  case (Some p)
  then have P: "P = update_where (part_key lease n) (\<lambda>p. p\<lparr>lp_state := PartClaimed\<rparr>) ps"
    using assms(2) by (simp add: upsert_claim_def split: if_splits)
  show ?thesis
    unfolding P by (rule schema_update_parts [OF assms(1)]) (auto simp: part_check_def)
qed

lemma owned_claim_lease:
  assumes "count_where (owned_claim d i lease n) (lease_parts d) \<noteq> 0"
  obtains l p where "l \<in> set (leases d)" "le_id l = lease" "le_file l = i" "le_kind l = Write"
    "p \<in> set (lease_parts d)" "part_key lease n p" "lp_state p = PartClaimed"
  using assms by (auto simp: count_where_0 owned_claim_def exists_where_iff part_key_def)

text \<open>A claimed part keeps its file out of \<open>Completing\<close>.\<close>

lemma claimed_part_keeps_open:
  assumes "db_ok d" "l \<in> set (leases d)" "le_file l = i" "le_kind l = Write"
    "p \<in> set (lease_parts d)" "lp_lease p = le_id l" "lp_state p = PartClaimed"
  shows "\<not> completing (v_upload (view d i))"
proof
  assume c: "completing (v_upload (view d i))"
  have l: "l \<in> set (v_leases (view d i))" using assms by (simp add: in_write_leases)
  have p: "p \<in> set (v_parts (view d i))" using assms by (auto simp: parts_of_def exists_where_iff in_write_leases)
  have "view_ok (view d i)" using assms(1) by (rule db_okD)
  then show False
    using c l p assms(7) by (auto simp: view_ok_def split: option.splits)
qed

lemma part_of_multipart_file:
  assumes "db_ok d" "l \<in> set (leases d)" "le_file l = i" "le_kind l = Write"
    "p \<in> set (lease_parts d)" "lp_lease p = le_id l" "v_file (view d i) = Some f"
  shows "f_part_size f \<noteq> None"
proof -
  have "p \<in> set (v_parts (view d i))" using assms by (auto simp: parts_of_def exists_where_iff in_write_leases)
  moreover have "view_ok (view d i)" using assms(1) by (rule db_okD)
  ultimately show ?thesis using assms(7) by (auto simp: view_ok_def)
qed

lemma record_done_transaction: "transaction (record_done i lease n sz md5)"
proof
  fix d r d'
  assume ok: "db_ok d" and run: "record_done i lease n sz md5 d = (r, d')"
  let ?P = "update_where (owned_claim d i lease n)
      (\<lambda>p. p\<lparr>lp_state := PartDone, lp_size := Some sz, lp_md5 := Some md5\<rparr>) (lease_parts d)"
  have "sim d d' \<and> schema_ok d'"
  proof (cases "d' = d")
    case True
    with ok show ?thesis by (simp add: db_okD)
  next
    case False
    with run have d': "d' = d\<lparr>lease_parts := ?P\<rparr>" and hit: "count_where (owned_claim d i lease n) (lease_parts d) \<noteq> 0"
      and sz: "0 \<le> sz"
      by (auto simp: record_done_def Let_def split: if_splits)
    obtain l p where l: "l \<in> set (leases d)" "le_id l = lease" "le_file l = i" "le_kind l = Write"
      and p: "p \<in> set (lease_parts d)" "part_key lease n p" "lp_state p = PartClaimed"
      using hit by (rule owned_claim_lease)
    have "\<not> completing (v_upload (view d i))"
      by (rule claimed_part_keeps_open [OF ok l(1,3,4) p(1)]) (use l p in \<open>auto simp: part_key_def\<close>)
    moreover have "f_part_size f \<noteq> None" if "v_file (view d i) = Some f" for f
      by (rule part_of_multipart_file [OF ok l(1,3,4) p(1) _ that]) (use l p in \<open>auto simp: part_key_def\<close>)
    moreover have "filter (\<lambda>p. lp_lease p \<noteq> lease) ?P = filter (\<lambda>p. lp_lease p \<noteq> lease) (lease_parts d)"
      by (rule filter_outside) (auto simp: owned_claim_def)
    ultimately have "sim d d'"
      unfolding d' using l by (intro sim_lease_parts [OF db_okD(1) [OF ok] l(1,2)]) auto
    moreover have "schema_ok d'"
      unfolding d' schema_ok_updates
      by (rule schema_update_parts [OF schema_of_ok [OF db_okD(1) [OF ok]]]) (use sz in \<open>auto simp: part_check_def\<close>)
    ultimately show ?thesis by simp
  qed
  then show "sim d d'" "schema_ok d'" by auto
qed (auto simp: record_done_def Let_def split: if_splits)

definition given_back :: "db \<Rightarrow> uuid \<Rightarrow> uuid \<Rightarrow> int \<Rightarrow> part_row list" where
  "given_back d i lease n = delete_where (\<lambda>p. owned_claim d i lease n p \<and> lp_size p = None \<and> lp_md5 p = None)
     (update_where (\<lambda>p. owned_claim d i lease n p \<and> lp_size p \<noteq> None \<and> lp_md5 p \<noteq> None)
        (\<lambda>p. p\<lparr>lp_state := PartDone\<rparr>) (lease_parts d))"

lemma owned_claim_cong: "leases d' = leases d \<Longrightarrow> owned_claim d' = owned_claim d"
  by (simp add: owned_claim_def fun_eq_iff)

lemma give_back_eq: "give_back i lease n d = (Inr (), d\<lparr>lease_parts := given_back d i lease n\<rparr>)"
  using owned_claim_cong [of "d\<lparr>lease_parts := P\<rparr>" d for P]
  by (simp add: give_back_def Let_def given_back_def)

lemma give_back_transaction: "transaction (give_back i lease n)"
proof
  fix d r d'
  assume ok: "db_ok d" and run: "give_back i lease n d = (r, d')"
  then have d': "d' = d\<lparr>lease_parts := given_back d i lease n\<rparr>" by (simp add: give_back_eq)
  have "sim d d'"
  proof (cases "count_where (owned_claim d i lease n) (lease_parts d) = 0")
    case True
    then have u: "update_where (\<lambda>p. owned_claim d i lease n p \<and> lp_size p \<noteq> None \<and> lp_md5 p \<noteq> None)
        (\<lambda>p. p\<lparr>lp_state := PartDone\<rparr>) (lease_parts d) = lease_parts d"
      by (intro update_where_none) (auto simp: count_where_0)
    have "given_back d i lease n = lease_parts d"
      unfolding given_back_def u using True by (intro delete_where_none) (auto simp: count_where_0)
    with d' show ?thesis by simp
  next
    case False
    then obtain l p where l: "l \<in> set (leases d)" "le_id l = lease" "le_file l = i" "le_kind l = Write"
      and p: "p \<in> set (lease_parts d)" "part_key lease n p" "lp_state p = PartClaimed"
      by (rule owned_claim_lease)
    have "\<not> completing (v_upload (view d i))"
      by (rule claimed_part_keeps_open [OF ok l(1,3,4) p(1)]) (use l p in \<open>auto simp: part_key_def\<close>)
    moreover have "f_part_size f \<noteq> None" if "v_file (view d i) = Some f" for f
      by (rule part_of_multipart_file [OF ok l(1,3,4) p(1) _ that]) (use l p in \<open>auto simp: part_key_def\<close>)
    moreover have "filter (\<lambda>p. lp_lease p \<noteq> lease) (given_back d i lease n) = filter (\<lambda>p. lp_lease p \<noteq> lease) (lease_parts d)"
      unfolding given_back_def
      by (subst filter_delete_outside, simp add: owned_claim_def) (rule filter_outside, auto simp: owned_claim_def)
    ultimately show ?thesis
      unfolding d' using l by (intro sim_lease_parts [OF db_okD(1) [OF ok] l(1,2)]) auto
  qed
  moreover have "schema_ok d'"
    unfolding d' schema_ok_updates given_back_def
    by (intro schema_delete_parts schema_update_parts schema_of_ok db_okD(1) [OF ok]) (auto simp: part_check_def)
  ultimately show "sim d d'" "schema_ok d'" by auto
qed (simp add: give_back_eq)

text \<open>Giving a claim back restores the ledger as it was before the claim.\<close>

lemma given_back_restores:
  assumes ok: "schema_ok d" and claim: "upsert_claim lease n (lease_parts d) = Some (lease_parts d1)"
    and l: "l \<in> set (leases d1)" "le_id l = lease" "le_file l = i" "le_kind l = Write"
  shows "given_back d1 i lease n = lease_parts d"
proof -
  have own: "owned_claim d1 i lease n p \<longleftrightarrow> part_key lease n p \<and> lp_state p = PartClaimed" for p
    using l by (auto simp: owned_claim_def part_key_def exists_where_iff)
  let ?restore = "update_where (\<lambda>p. owned_claim d1 i lease n p \<and> lp_size p \<noteq> None \<and> lp_md5 p \<noteq> None) (\<lambda>p. p\<lparr>lp_state := PartDone\<rparr>)"
  let ?drop = "delete_where (\<lambda>p. owned_claim d1 i lease n p \<and> lp_size p = None \<and> lp_md5 p = None)"
  show ?thesis
  proof (cases "find (part_key lease n) (lease_parts d)")
    case None
    then have P: "lease_parts d1 = lease_parts d @ [claimed_part lease n]"
      using claim by (simp add: upsert_claim_def)
    have none: "\<not> part_key lease n p" if "p \<in> set (lease_parts d)" for p
      using None that by (auto simp: find_where_None)
    have "?restore (lease_parts d1) = lease_parts d1"
      by (rule update_where_none) (use none in \<open>auto simp: P own claimed_part_def\<close>)
    moreover have "?drop (lease_parts d) = lease_parts d"
      by (rule delete_where_none) (use none in \<open>auto simp: own\<close>)
    then have "?drop (lease_parts d1) = lease_parts d"
      unfolding P delete_where_def by (simp add: own claimed_part_def part_key_def)
    ultimately show ?thesis by (simp add: given_back_def)
  next
    case (Some q)
    then have P: "lease_parts d1 = update_where (part_key lease n) (\<lambda>p. p\<lparr>lp_state := PartClaimed\<rparr>) (lease_parts d)"
      and q: "lp_state q = PartDone"
      using claim by (auto simp: upsert_claim_def split: if_splits)
    have row: "lp_state p = PartDone \<and> lp_size p \<noteq> None \<and> lp_md5 p \<noteq> None"
      if "p \<in> set (lease_parts d)" "part_key lease n p" for p
    proof -
      have "p = q" using find_where_Some [OF Some] that by (intro part_key_unique [OF ok]) auto
      with q schema_okD(12) [OF ok that(1)] show ?thesis by (auto simp: part_check_def)
    qed
    have "?restore (lease_parts d1) = map (\<lambda>p. p) (lease_parts d)"
      unfolding P update_where_def map_map
    proof (rule map_cong [OF refl])
      fix p assume p: "p \<in> set (lease_parts d)"
      show "((\<lambda>r. if owned_claim d1 i lease n r \<and> lp_size r \<noteq> None \<and> lp_md5 r \<noteq> None then r\<lparr>lp_state := PartDone\<rparr> else r) \<circ>
          (\<lambda>r. if part_key lease n r then r\<lparr>lp_state := PartClaimed\<rparr> else r)) p = p"
      proof (cases "part_key lease n p")
        case True
        then have "part_key lease n (p\<lparr>lp_state := PartClaimed\<rparr>)" by (simp add: part_key_def)
        with row [OF p True] True show ?thesis by (simp add: own)
      qed (simp add: own)
    qed
    moreover have "?drop (lease_parts d) = lease_parts d"
      by (rule delete_where_none) (use row in \<open>auto simp: own\<close>)
    ultimately show ?thesis by (simp add: given_back_def)
  qed
qed

section \<open>The contract of a part upload\<close>

datatype part_claim = Claimed | Busy | Unavailable

definition ledger_entry :: "uuid \<Rightarrow> int \<Rightarrow> db \<Rightarrow> part_row option" where
  "ledger_entry lease n d = find (part_key lease n) (lease_parts d)"

lemma part_key_pair: "part_key k m = (\<lambda>p. (lp_lease p, lp_no p) = (k, m))"
  by (simp add: part_key_def fun_eq_iff)

lemma entry_update_other:
  assumes "\<And>p. h p \<Longrightarrow> (lp_lease p, lp_no p) \<noteq> (k, m)" "\<And>p. h p \<Longrightarrow> lp_lease (u p) = lp_lease p \<and> lp_no (u p) = lp_no p"
  shows "find (part_key k m) (update_where h u ps) = find (part_key k m) ps"
proof -
  have "find (part_key k m) (update_where h u ps) = map_option (\<lambda>p. if h p then u p else p) (find (part_key k m) ps)"
    unfolding part_key_pair by (rule find_update_where) (simp add: assms(2))
  moreover have "\<not> h p" if "find (part_key k m) ps = Some p" for p
    using find_where_Some [OF that] assms(1) unfolding part_key_pair by blast
  ultimately show ?thesis by (cases "find (part_key k m) ps") simp_all
qed

lemma upsert_claim_other:
  assumes "upsert_claim lease n ps = Some P" "(k, m) \<noteq> (lease, n)"
  shows "find (part_key k m) P = find (part_key k m) ps"
proof (cases "find (part_key lease n) ps")
  case None
  with assms have "P = ps @ [claimed_part lease n]" "\<not> part_key k m (claimed_part lease n)"
    by (auto simp: upsert_claim_def part_key_def claimed_part_def)
  then show ?thesis by (simp add: find_append_row split: option.splits)
next
  case (Some p)
  with assms have "P = update_where (part_key lease n) (\<lambda>p. p\<lparr>lp_state := PartClaimed\<rparr>) ps"
    by (auto simp: upsert_claim_def split: if_splits)
  with assms(2) show ?thesis
    by (simp only:) (rule entry_update_other; auto simp: part_key_def)
qed

lemma record_done_entries:
  assumes "schema_ok d1" "upsert_claim lease n (lease_parts d) = Some (lease_parts d1)"
    and l: "l \<in> set (leases d1)" "le_id l = lease" "le_file l = i" "le_kind l = Write" and "0 \<le> sz"
  shows "\<exists>d2. record_done i lease n sz md5 d1 = (Inr True, d2) \<and>
    ledger_entry lease n d2 = Some \<lparr>lp_lease = lease, lp_no = n, lp_state = PartDone, lp_size = Some sz, lp_md5 = Some md5\<rparr> \<and>
    (\<forall>k m. (k, m) \<noteq> (lease, n) \<longrightarrow> ledger_entry k m d2 = ledger_entry k m d)"
proof -
  have own: "owned_claim d1 i lease n p \<longleftrightarrow> part_key lease n p \<and> lp_state p = PartClaimed" for p
    using l by (auto simp: owned_claim_def part_key_def exists_where_iff)
  obtain p where p: "find (part_key lease n) (lease_parts d1) = Some p"
    using upsert_claim_Some(2) [OF assms(2)] by (cases "find (part_key lease n) (lease_parts d1)") (auto simp: find_where_None)
  have pp: "p \<in> set (lease_parts d1)" "part_key lease n p" using find_where_Some [OF p] by auto
  with upsert_claim_Some(3) [OF assms(2)] have claimed: "lp_state p = PartClaimed" by blast
  let ?u = "\<lambda>p. p\<lparr>lp_state := PartDone, lp_size := Some sz, lp_md5 := Some md5\<rparr>"
  let ?P = "update_where (owned_claim d1 i lease n) ?u (lease_parts d1)"
  have "count_where (owned_claim d1 i lease n) (lease_parts d1) \<noteq> 0"
    using pp claimed own by (auto simp: count_where_0)
  then have "record_done i lease n sz md5 d1 = (Inr True, d1\<lparr>lease_parts := ?P\<rparr>)"
    using assms(7) by (simp add: record_done_def Let_def)
  moreover have "find (part_key lease n) ?P = Some (?u p)"
  proof -
    have "find (part_key lease n) ?P = map_option (\<lambda>p. if owned_claim d1 i lease n p then ?u p else p) (find (part_key lease n) (lease_parts d1))"
      unfolding part_key_pair by (rule find_update_where) simp
    with p pp claimed own show ?thesis by simp
  qed
  moreover have "?u p = \<lparr>lp_lease = lease, lp_no = n, lp_state = PartDone, lp_size = Some sz, lp_md5 = Some md5\<rparr>"
    using pp(2) by (cases p) (simp add: part_key_def)
  moreover have "find (part_key k m) ?P = find (part_key k m) (lease_parts d)" if "(k, m) \<noteq> (lease, n)" for k m
    using that upsert_claim_other [OF assms(2) that]
    by (subst entry_update_other) (auto simp: owned_claim_def)
  ultimately show ?thesis by (auto simp: ledger_entry_def)
qed

text \<open>
  \<open>claim\<close>, \<open>finish\<close> and \<open>cancel\<close> of one part of one write lease. The clients are the relay and
  the S3 part handlers: they claim before the provider call and finish or cancel after it.
\<close>

locale part_upload =
  fixes i :: uuid and lease :: uuid and n :: int
    and claim :: "(db, db_error, part_claim) eff"
    and finish :: "int \<Rightarrow> string \<Rightarrow> (db, db_error, bool) eff"
    and cancel :: "(db, db_error, unit) eff"
  assumes claim_won: "db_ok d \<Longrightarrow> claim d = (Inr Claimed, d1) \<Longrightarrow>
      db_ok d1 \<and> upsert_claim lease n (lease_parts d) = Some (lease_parts d1) \<and>
      (\<exists>l \<in> set (leases d1). le_id l = lease \<and> le_file l = i \<and> le_kind l = Write) \<and>
      (\<forall>sz md5. 0 \<le> sz \<longrightarrow> finish sz md5 d1 = record_done i lease n sz md5 d1)"
    and claim_lost: "claim d = (Inr q, d1) \<Longrightarrow> q \<noteq> Claimed \<Longrightarrow> d1 = d"
    and cancel_gives_back: "cancel d = give_back i lease n d"
begin

lemma cancel_restores:
  assumes "db_ok d" "claim d = (Inr Claimed, d1)"
  shows "\<exists>d2. cancel d1 = (Inr (), d2) \<and> lease_parts d2 = lease_parts d"
  using claim_won [OF assms] given_back_restores [OF db_okD(1) [OF assms(1)]]
  by (auto simp: cancel_gives_back give_back_eq)

lemma claim_excludes:
  assumes "db_ok d" "claim d = (Inr Claimed, d1)" "claim d1 = (r, d2)"
  shows "r \<noteq> Inr Claimed"
proof
  assume r: "r = Inr Claimed"
  from claim_won [OF assms(1,2)] have d1: "db_ok d1" "upsert_claim lease n (lease_parts d) = Some (lease_parts d1)" by auto
  from r assms(3) claim_won [OF d1(1)] have "upsert_claim lease n (lease_parts d1) \<noteq> None" by auto
  moreover obtain p where "find (part_key lease n) (lease_parts d1) = Some p"
    using upsert_claim_Some(2) [OF d1(2)] by (cases "find (part_key lease n) (lease_parts d1)") (auto simp: find_where_None)
  moreover from this have "lp_state p = PartClaimed"
    using upsert_claim_Some(3) [OF d1(2)] by (auto dest: find_where_Some)
  ultimately show False by (simp add: upsert_claim_def)
qed

lemma finish_records:
  assumes "db_ok d" "claim d = (Inr Claimed, d1)" "0 \<le> sz"
  shows "\<exists>d2. finish sz md5 d1 = (Inr True, d2) \<and>
    ledger_entry lease n d2 = Some \<lparr>lp_lease = lease, lp_no = n, lp_state = PartDone, lp_size = Some sz, lp_md5 = Some md5\<rparr> \<and>
    (\<forall>k m. (k, m) \<noteq> (lease, n) \<longrightarrow> ledger_entry k m d2 = ledger_entry k m d)"
proof -
  from claim_won [OF assms(1,2)] assms(3) obtain l where d1: "db_ok d1"
    and up: "upsert_claim lease n (lease_parts d) = Some (lease_parts d1)"
    and l: "l \<in> set (leases d1)" "le_id l = lease" "le_file l = i" "le_kind l = Write"
    and f: "finish sz md5 d1 = record_done i lease n sz md5 d1" by blast
  show ?thesis
    unfolding f by (rule record_done_entries [OF db_okD(1) [OF d1] up l assms(3)])
qed

end

end
