(* ===== verification/Files_Multipart.thy ===== *)
theory Files_Multipart
  imports Part_Ledger
begin

text \<open>
  \<open>db/src/files/multipart.rs\<close>: the vendor session handle, the write lease of a file and the part
  ledger of native relay uploads.
\<close>

section \<open>Operations\<close>

definition attach_upload_id :: "uuid \<Rightarrow> string \<Rightarrow> (db, db_error, unit) eff" where
  "attach_upload_id lease upload_id d =
     (Inr (), d\<lparr>leases := update_where (\<lambda>l. le_id l = lease) (\<lambda>l. l\<lparr>le_upload_id := Some upload_id\<rparr>) (leases d)\<rparr>)"

definition pending_multipart :: "db \<Rightarrow> uuid \<Rightarrow> bool" where
  "pending_multipart d i \<longleftrightarrow> exists_where (\<lambda>f. f_id f = i \<and> f_state f = Pending \<and> f_part_size f \<noteq> None) (files d)"

definition pending :: "db \<Rightarrow> uuid \<Rightarrow> bool" where
  "pending d i \<longleftrightarrow> exists_where (\<lambda>f. f_id f = i \<and> f_state f = Pending) (files d)"

definition extend_lease :: "timestamp \<Rightarrow> lease_row \<Rightarrow> lease_row" where
  "extend_lease t l = l\<lparr>le_expires_at := max (le_expires_at l) t\<rparr>"

definition claim_relay_part :: "timestamp \<Rightarrow> uuid \<Rightarrow> uuid \<Rightarrow> int \<Rightarrow> int \<Rightarrow> (db, db_error, part_claim) eff" where
  "claim_relay_part now i lease n ttl d =
     (let hit = (\<lambda>l. le_id l = lease \<and> le_file l = i \<and> le_kind l = Write \<and> le_state l = Issued \<and>
                  now < le_expires_at l \<and> \<not> has_upload d i);
          d1 = d\<lparr>leases := update_where hit (extend_lease (now + secs ttl)) (leases d)\<rparr>
      in if \<not> pending_multipart d i then (Inr Unavailable, d)
         else if count_where hit (leases d) = 0 then (Inr Unavailable, d)
         else if n < 1 then (Inl CheckViolation, d)
         else case upsert_claim lease n (lease_parts d1) of
             None \<Rightarrow> (Inr Busy, d)
           | Some P \<Rightarrow> (Inr Claimed, d1\<lparr>lease_parts := P\<rparr>))"

definition renew_relay_part_lease :: "timestamp \<Rightarrow> uuid \<Rightarrow> uuid \<Rightarrow> int \<Rightarrow> int \<Rightarrow> (db, db_error, bool) eff" where
  "renew_relay_part_lease now i lease n ttl d =
     (let hit = (\<lambda>l. le_id l = lease \<and> le_file l = i \<and> le_kind l = Write \<and> le_state l = Issued \<and>
                  exists_where (\<lambda>p. lp_lease p = le_id l \<and> lp_no p = n \<and> lp_state p = PartClaimed) (lease_parts d) \<and>
                  \<not> has_native_upload d i)
      in if \<not> pending d i then (Inr False, d)
         else if count_where hit (leases d) = 0 then (Inr False, d)
         else (Inr True, d\<lparr>leases := update_where hit (\<lambda>l. l\<lparr>le_expires_at := now + secs ttl\<rparr>) (leases d)\<rparr>))"

definition finish_relay_part :: "uuid \<Rightarrow> uuid \<Rightarrow> int \<Rightarrow> int \<Rightarrow> string \<Rightarrow> (db, db_error, bool) eff" where
  "finish_relay_part i lease n sz md5 d =
     (if \<not> pending d i then (Inr False, d) else record_done i lease n sz md5 d)"

definition cancel_relay_part :: "uuid \<Rightarrow> uuid \<Rightarrow> int \<Rightarrow> (db, db_error, unit) eff" where
  "cancel_relay_part i lease n d = give_back i lease n d"

record write_lease_handle =
  wl_lease_id :: uuid
  wl_upload_id :: "string option"
  wl_secret_hash :: "string option"

definition write_lease :: "db \<Rightarrow> uuid \<Rightarrow> write_lease_handle option" where
  "write_lease d i = map_option (\<lambda>l. \<lparr>wl_lease_id = le_id l, wl_upload_id = le_upload_id l, wl_secret_hash = le_secret_hash l\<rparr>)
     (find (\<lambda>l. le_file l = i \<and> le_kind l = Write) (leases d))"

definition extend_write_lease :: "timestamp \<Rightarrow> uuid \<Rightarrow> int \<Rightarrow> (db, db_error, bool) eff" where
  "extend_write_lease now lease ttl d =
     (let locked = exists_where (\<lambda>l. le_id l = lease \<and> pending d (le_file l)) (leases d);
          hit = (\<lambda>l. le_id l = lease \<and> le_state l = Issued \<and> now < le_expires_at l \<and> \<not> has_native_upload d (le_file l))
      in if \<not> locked then (Inr False, d)
         else if count_where hit (leases d) = 0 then (Inr False, d)
         else (Inr True, d\<lparr>leases := update_where hit (extend_lease (now + secs ttl)) (leases d)\<rparr>))"

definition done_parts :: "db \<Rightarrow> uuid \<Rightarrow> (int \<times> int \<times> string) list" where
  "done_parts d lease = done_rows (filter (\<lambda>p. lp_lease p = lease) (lease_parts d))"

section \<open>Lease renewals as moves\<close>

lemma extend_same [simp]: "same_identity l (extend_lease t l)" "le_state (extend_lease t l) = le_state l"
  "le_id (extend_lease t l) = le_id l" "le_file (extend_lease t l) = le_file l" "le_kind (extend_lease t l) = le_kind l"
  "le_expires_at l \<le> le_expires_at (extend_lease t l)" "t \<le> le_expires_at (extend_lease t l)"
  by (simp_all add: extend_lease_def same_identity_def)

interpretation attach_upload_id: transaction "attach_upload_id lease up" for lease up
  by (rule touch_transaction) (auto simp: attach_upload_id_def same_identity_def intro: lease_touchI)

interpretation renew_relay_part_lease: transaction "renew_relay_part_lease now i lease n ttl" for now i lease n ttl
  by (rule touch_transaction)
    (auto simp: renew_relay_part_lease_def Let_def same_identity_def split: if_splits intro: lease_touchI)

interpretation extend_write_lease: transaction "extend_write_lease now lease ttl" for now lease ttl
  by (rule touch_transaction)
    (auto simp: extend_write_lease_def Let_def split: if_splits intro: lease_touchI)

section \<open>Part uploads as moves\<close>

lemma pending_view: "schema_ok d \<Longrightarrow> pending d i \<longleftrightarrow> (\<exists>f. v_file (view d i) = Some f \<and> f_state f = Pending)"
  using exists_by_key [OF schema_okD(1), of d i "\<lambda>f. f_state f = Pending"]
  by (auto simp: pending_def exists_where_iff split: option.splits)

lemma pending_multipart_view: "schema_ok d \<Longrightarrow>
    pending_multipart d i \<longleftrightarrow> (\<exists>f. v_file (view d i) = Some f \<and> f_state f = Pending \<and> f_part_size f \<noteq> None)"
  using exists_by_key [OF schema_okD(1), of d i "\<lambda>f. f_state f = Pending \<and> f_part_size f \<noteq> None"]
  by (auto simp: pending_multipart_def exists_where_iff split: option.splits)

text \<open>Renewing the lease and then claiming a part of it, as either surface does.\<close>

lemma claim_moves:
  assumes ok: "db_ok d" and touch: "lease_touch d d1"
    and up: "upsert_claim lease n (lease_parts d1) = Some P" and n: "1 \<le> n"
    and l: "l \<in> set (leases d1)" "le_id l = lease" "le_file l = i" "le_kind l = Write"
    and open_ledger: "\<not> completing (v_upload (view d i))" and multipart: "pending_multipart d i"
  shows "sim d (d1\<lparr>lease_parts := P\<rparr>) \<and> schema_ok (d1\<lparr>lease_parts := P\<rparr>)"
proof
  from lease_touch_ok [OF ok touch] have m: "sim d d1" and s: "schema_ok d1" by auto
  have u: "uploads d1 = uploads d" using touch by (auto simp: lease_touch_def)
  have fs: "files d1 = files d" using touch by (auto simp: lease_touch_def)
  have "f_part_size f \<noteq> None" if "v_file (view d1 i) = Some f" for f
    using multipart that unfolding pending_multipart_view [OF db_okD(1) [OF ok]] by (simp add: fs)
  then have "sim d1 (d1\<lparr>lease_parts := P\<rparr>)"
    by (intro sim_lease_parts [OF s l(1,2)]) (use open_ledger l(3) u upsert_claim_Some(1) [OF up] in auto)
  with m show "sim d (d1\<lparr>lease_parts := P\<rparr>)" by (rule sim_trans)
  show "schema_ok (d1\<lparr>lease_parts := P\<rparr>)"
    unfolding schema_ok_updates by (rule upsert_claim_schema [OF schema_of_ok [OF s] up n]) (use l in auto)
qed

lemma claim_relay_part_cases:
  assumes "claim_relay_part now i lease n ttl d = (r, d')"
  obtains (unchanged) "r \<noteq> Inr Claimed" "d' = d"
  | (claimed) d1 l where "r = Inr Claimed" "lease_touch d d1" "lease_parts d1 = lease_parts d"
      "files d1 = files d" "uploads d1 = uploads d"
      "pending_multipart d i" "\<not> has_upload d i" "1 \<le> n"
      "upsert_claim lease n (lease_parts d1) = Some (lease_parts d')" "d' = d1\<lparr>lease_parts := lease_parts d'\<rparr>"
      "l \<in> set (leases d1)" "le_id l = lease" "le_file l = i" "le_kind l = Write" "now + secs ttl \<le> le_expires_at l"
proof -
  define hit where "hit = (\<lambda>l :: lease_row. le_id l = lease \<and> le_file l = i \<and> le_kind l = Write \<and> le_state l = Issued \<and>
                  now < le_expires_at l \<and> \<not> has_upload d i)"
  define d1 where "d1 = d\<lparr>leases := update_where hit (extend_lease (now + secs ttl)) (leases d)\<rparr>"
  note defs = claim_relay_part_def Let_def hit_def [symmetric] d1_def [symmetric]
  show thesis
  proof (cases "r = Inr Claimed")
    case False
    with assms show thesis
      by (intro unchanged) (auto simp: defs split: if_splits option.splits)
  next
    case True
    with assms obtain P where P: "pending_multipart d i" "count_where hit (leases d) \<noteq> 0" "1 \<le> n"
      "upsert_claim lease n (lease_parts d1) = Some P" "d' = d1\<lparr>lease_parts := P\<rparr>"
      by (auto simp: defs split: if_splits option.splits)
    from P(2) obtain l where l: "l \<in> set (leases d)" "hit l" by (auto simp: count_where_0)
    have "extend_lease (now + secs ttl) l \<in> set (leases d1)"
      using l unfolding d1_def by (auto simp: set_update_where)
    moreover have "lease_touch d d1" unfolding d1_def by (rule lease_touchI) simp
    ultimately show thesis
      using True P l by (intro claimed [of d1 "extend_lease (now + secs ttl) l"]) (auto simp: d1_def hit_def)
  qed
qed

interpretation claim_relay_part: transaction "claim_relay_part now i lease n ttl" for now i lease n ttl
proof
  fix d r d'
  assume ok: "db_ok d" and run: "claim_relay_part now i lease n ttl d = (r, d')"
  from run have "sim d d' \<and> schema_ok d'"
  proof (cases rule: claim_relay_part_cases)
    case (claimed d1 l)
    have "\<not> completing (v_upload (view d i))" using claimed(7) by (simp add: has_upload_view)
    from claim_moves [OF ok claimed(2) claimed(9,8) claimed(11-14) this claimed(6)] claimed(10) show ?thesis by simp
  qed (use ok in \<open>simp add: db_okD\<close>)
  then show "sim d d'" "schema_ok d'" by auto
next
  fix d e d'
  assume "claim_relay_part now i lease n ttl d = (Inl e, d')"
  then show "d'\<lparr>row_locks := row_locks d\<rparr> = d" by (cases rule: claim_relay_part_cases) auto
qed

interpretation finish_relay_part: transaction "finish_relay_part i lease n sz md5" for i lease n sz md5
  by (rule guarded_transaction [OF record_done_transaction, where g = "\<lambda>d. pending d i" and x = "Inr False"])
    (simp add: finish_relay_part_def)

interpretation cancel_relay_part: transaction "cancel_relay_part i lease n" for i lease n
  unfolding cancel_relay_part_def [abs_def] by (rule give_back_transaction)

interpretation relay_part: part_upload i lease n "claim_relay_part now i lease n ttl"
    "finish_relay_part i lease n" "cancel_relay_part i lease n" for i lease n now ttl
proof
  fix d d1
  assume ok: "db_ok d" and run: "claim_relay_part now i lease n ttl d = (Inr Claimed, d1)"
  from run show "db_ok d1 \<and> upsert_claim lease n (lease_parts d) = Some (lease_parts d1) \<and>
      (\<exists>l \<in> set (leases d1). le_id l = lease \<and> le_file l = i \<and> le_kind l = Write) \<and>
      (\<forall>sz md5. 0 \<le> sz \<longrightarrow> finish_relay_part i lease n sz md5 d1 = record_done i lease n sz md5 d1)"
  proof (cases rule: claim_relay_part_cases)
    case (claimed e l)
    have "files d1 = files d" "leases d1 = leases e"
      using claimed(10,4) by (cases d1; cases e; simp)+
    moreover from this have "pending d1 i"
      using claimed(6) by (auto simp: pending_def pending_multipart_def exists_where_iff)
    ultimately show ?thesis
      using claimed claim_relay_part.keeps_db_ok [OF ok run] by (auto simp: finish_relay_part_def)
  qed simp
qed (auto simp: cancel_relay_part_def elim: claim_relay_part_cases)

text \<open>
  A part of a native relay upload is uploaded by one request at a time: after a claim no
  second claim of the part succeeds; finishing records exactly the measured size and MD5 of this
  part and leaves every other part as it was; cancelling restores the ledger to what it was before
  the claim.
\<close>

theorem relay_part_claim_contract:
  assumes "db_ok d" "claim_relay_part now i lease n ttl d = (Inr Claimed, d1)" "0 \<le> sz"
  shows "fst (claim_relay_part now i lease n ttl d1) \<noteq> Inr Claimed \<and>
    (\<exists>d2. finish_relay_part i lease n sz md5 d1 = (Inr True, d2) \<and>
       ledger_entry lease n d2 = Some \<lparr>lp_lease = lease, lp_no = n, lp_state = PartDone, lp_size = Some sz, lp_md5 = Some md5\<rparr> \<and>
       (\<forall>k m. (k, m) = (lease, n) \<or> ledger_entry k m d2 = ledger_entry k m d)) \<and>
    (\<exists>d2. cancel_relay_part i lease n d1 = (Inr (), d2) \<and> lease_parts d2 = lease_parts d)"
proof (intro conjI)
  obtain r d2 where run: "claim_relay_part now i lease n ttl d1 = (r, d2)" by fastforce
  show "fst (claim_relay_part now i lease n ttl d1) \<noteq> Inr Claimed"
    using relay_part.claim_excludes [OF assms(1,2) run] run by simp
  show "\<exists>d2. finish_relay_part i lease n sz md5 d1 = (Inr True, d2) \<and>
       ledger_entry lease n d2 = Some \<lparr>lp_lease = lease, lp_no = n, lp_state = PartDone, lp_size = Some sz, lp_md5 = Some md5\<rparr> \<and>
       (\<forall>k m. (k, m) = (lease, n) \<or> ledger_entry k m d2 = ledger_entry k m d)"
    using relay_part.finish_records [OF assms, of md5] by blast
  show "\<exists>d2. cancel_relay_part i lease n d1 = (Inr (), d2) \<and> lease_parts d2 = lease_parts d"
    using assms(1,2) by (rule relay_part.cancel_restores)
qed

theorem relay_part_claim_contract_witness:
  "\<exists>d2. cancel_relay_part 2 12 1 (snd (claim_relay_part 1 2 12 1 60 demo_db)) = (Inr (), d2) \<and>
     lease_parts d2 = lease_parts demo_db"
proof -
  have "claim_relay_part 1 2 12 1 60 demo_db = (Inr Claimed, snd (claim_relay_part 1 2 12 1 60 demo_db))"
    by (rule run_prod) code_simp
  from relay_part_claim_contract [OF demo_db_ok this, of 0] show ?thesis by simp
qed

end
