(* ===== verification/Files_Completion.thy ===== *)
theory Files_Completion
  imports Files_Sweep Files_Multipart
begin

text \<open>
  \<open>db/src/files/completion.rs\<close>: ownership of native multipart completions and their recovery.
  \<open>begin_completion\<close> locks the file row and \<open>Completion\<close> keeps that transaction open: until its
  \<open>claim\<close> no other transition of the file can run, so the three calls read one state.
\<close>

section \<open>Operations\<close>

datatype completion_start = Ready uuid | Resuming | StartBusy | StartUnavailable

definition begin_completion :: "uuid \<Rightarrow> db \<Rightarrow> completion_start" where
  "begin_completion i d =
     (if \<not> pending_multipart d i then StartUnavailable
      else case find (\<lambda>u. u_file u = i) (uploads d) of
          Some u \<Rightarrow> if u_protocol u = Native then Resuming else StartUnavailable
        | None \<Rightarrow> if part_uploading d i then StartBusy else Ready i)"

definition completion_done_parts :: "uuid \<Rightarrow> db \<Rightarrow> (int \<times> int \<times> string) list" where
  "completion_done_parts i d =
     done_rows (filter (\<lambda>p. exists_where (\<lambda>le. le_id le = lp_lease p \<and> le_file le = i \<and> le_kind le = Write) (leases d))
       (lease_parts d))"

definition native_upload :: "timestamp \<Rightarrow> uuid \<Rightarrow> string \<Rightarrow> upload_row" where
  "native_upload now i etag = \<lparr>u_file = i, u_protocol = Native, u_key = None, u_multipart = True,
     u_if_none_match = False, u_state = Completing, u_expected_size = None, u_expected_etag = Some etag,
     u_recovery_after = now\<rparr>"

definition completion_claim :: "timestamp \<Rightarrow> uuid \<Rightarrow> string \<Rightarrow> int \<Rightarrow> (db, db_error, bool) eff" where
  "completion_claim now i etag ttl d =
     (let d1 = d\<lparr>leases := renew_write (now + secs ttl) i (leases d)\<rparr>
      in if count_where (issued_write i) (leases d) = 0 then (Inr False, d)
         else if has_upload d i then (Inl UniqueViolation, d)
         else if \<not> exists_where (\<lambda>f. f_id f = i) (files d) then (Inl ForeignKeyViolation, d)
         else (Inr True, d1\<lparr>uploads := uploads d1 @ [native_upload now i etag]\<rparr>))"

definition in_state :: "protocol \<Rightarrow> upload_state \<Rightarrow> upload_row \<Rightarrow> bool" where
  "in_state pr st u \<longleftrightarrow> u_protocol u = pr \<and> u_state u = st"

definition renew_completion :: "protocol \<Rightarrow> timestamp \<Rightarrow> uuid \<Rightarrow> int \<Rightarrow> (db, db_error, bool) eff" where
  "renew_completion pr now i ttl d =
     (if \<not> pending d i then (Inr False, d)
      else if \<not> exists_where (\<lambda>u. u_file u = i \<and> in_state pr Completing u) (uploads d) then (Inr False, d)
      else if count_where (issued_write i) (leases d) = 0 then (Inr False, d)
      else (Inr True, d\<lparr>leases := renew_write (now + secs ttl) i (leases d)\<rparr>))"

definition renew_completion_lease :: "timestamp \<Rightarrow> uuid \<Rightarrow> int \<Rightarrow> (db, db_error, bool) eff" where
  "renew_completion_lease = renew_completion Native"

text \<open>\<open>lower(a) = lower(b)\<close> of ETags is equality up to ASCII case.\<close>

definition etag_matches :: "string option \<Rightarrow> string \<Rightarrow> bool" where
  "etag_matches expected etag \<longleftrightarrow> (case expected of None \<Rightarrow> False | Some x \<Rightarrow> eq_ic x etag)"

definition finalize_completion :: "timestamp \<Rightarrow> uuid \<Rightarrow> string \<Rightarrow> (db, db_error, bool) eff" where
  "finalize_completion now i etag d =
     (let hit = (\<lambda>f. f_id f = i \<and> (f_state f = Pending \<and>
            exists_where (\<lambda>u. u_file u = i \<and> (in_state Native Completing u \<and> etag_matches (u_expected_etag u) etag)) (uploads d)));
          d1 = d\<lparr>files := update_where hit
                  (\<lambda>f. f\<lparr>f_state := Active, f_etag := Some etag, f_committed_at := Some now\<rparr>) (files d)\<rparr>;
          d2 = d1\<lparr>leases := settle_write Committed i (leases d1)\<rparr>
      in if \<not> pending d i then (Inr False, d)
         else if count_where hit (files d) = 0 then (Inr False, d)
         else (Inr True, d2\<lparr>uploads := delete_where (\<lambda>u. u_file u = i \<and> u_protocol u = Native) (uploads d2)\<rparr>))"

section \<open>Recovery\<close>

record completion_candidate =
  cc_file_id :: uuid
  cc_expected_size :: int
  cc_expected_etag :: string
  cc_storage_id :: string
  cc_object_key :: string

definition completion_candidates :: "timestamp \<Rightarrow> nat \<Rightarrow> db \<Rightarrow> completion_candidate list" where
  "completion_candidates now limit d =
     map (\<lambda>(c, f, l). \<lparr>cc_file_id = u_file c, cc_expected_size = f_declared_size f,
           cc_expected_etag = the (u_expected_etag c), cc_storage_id = l_storage l, cc_object_key = l_object_key l\<rparr>)
       (take limit (sort_key (\<lambda>(c, f, l). (u_recovery_after c, u_file c))
          [(c, f, l). c \<leftarrow> uploads d, f \<leftarrow> files d, f_id f = u_file c, l \<leftarrow> locations d, l_file l = u_file c,
                      le \<leftarrow> leases d, le_file le = u_file c, le_kind le = Write,
                      in_state Native Completing c, f_state f = Pending,
                      le_state le = Issued, le_expires_at le < now, u_recovery_after c \<le> now]))"

definition lock_expired :: "protocol \<Rightarrow> upload_state \<Rightarrow> timestamp \<Rightarrow> uuid \<Rightarrow> db \<Rightarrow> bool" where
  "lock_expired pr st now i d \<longleftrightarrow> pending d i \<and>
     exists_where (\<lambda>u. u_file u = i \<and> in_state pr st u) (uploads d) \<and>
     exists_where (\<lambda>l. issued_write i l \<and> le_expires_at l < now) (leases d)"

definition lock_expired_completion :: "timestamp \<Rightarrow> uuid \<Rightarrow> upload_state \<Rightarrow> db \<Rightarrow> bool" where
  "lock_expired_completion now i st d = lock_expired Native st now i d"

definition reopen_completion :: "timestamp \<Rightarrow> uuid \<Rightarrow> int \<Rightarrow> (db, db_error, bool) eff" where
  "reopen_completion now i ttl d =
     (let hit = (\<lambda>u. u_file u = i \<and> in_state Native Completing u);
          d1 = d\<lparr>uploads := delete_where hit (uploads d)\<rparr>
      in if \<not> lock_expired_completion now i Completing d then (Inr False, d)
         else if count_where hit (uploads d) = 0 then (Inr False, d)
         else (Inr True, d1\<lparr>leases := renew_write (now + secs ttl) i (leases d1)\<rparr>))"

definition claim_cleanup :: "timestamp \<Rightarrow> uuid \<Rightarrow> (db, db_error, bool) eff" where
  "claim_cleanup now i d =
     (let hit = (\<lambda>u. u_file u = i \<and> in_state Native Completing u);
          d1 = d\<lparr>uploads := update_where hit (\<lambda>u. u\<lparr>u_state := Cleaning, u_recovery_after := now\<rparr>) (uploads d)\<rparr>
      in if \<not> lock_expired_completion now i Completing d then (Inr False, d)
         else if count_where hit (uploads d) = 0 then (Inr False, d)
         else (Inr True, d1\<lparr>leases := settle_write Expired i (leases d1)\<rparr>))"

definition completion_cleanup_candidates :: "timestamp \<Rightarrow> nat \<Rightarrow> db \<Rightarrow> sweep_candidate list" where
  "completion_cleanup_candidates now limit d =
     map (\<lambda>(c, l, le). \<lparr>sw_file_id = u_file c, sw_storage_id = l_storage l, sw_object_key = l_object_key l,
           sw_upload_id = le_upload_id le, sw_write_lease_id = Some (le_id le), sw_multipart = True\<rparr>)
       (take limit (sort_key (\<lambda>(c, l, le). (u_recovery_after c, u_file c))
          [(c, l, le). c \<leftarrow> uploads d, l \<leftarrow> locations d, l_file l = u_file c,
                       le \<leftarrow> leases d, le_file le = u_file c, le_kind le = Write,
                       in_state Native Cleaning c, u_recovery_after c \<le> now]))"

definition finalize_cleanup :: "uuid \<Rightarrow> (db, db_error, bool) eff" where
  "finalize_cleanup i d =
     (let hit = (\<lambda>f. f_id f = i \<and> (f_state f = Pending \<and>
            exists_where (\<lambda>u. u_file u = i \<and> in_state Native Cleaning u) (uploads d)));
          d1 = d\<lparr>files := update_where hit (\<lambda>f. f\<lparr>f_state := Reclaimed\<rparr>) (files d)\<rparr>;
          d2 = d1\<lparr>locations := delete_where (\<lambda>l. l_file l = i) (locations d1)\<rparr>
      in if count_where hit (files d) = 0 then (Inr False, d)
         else (Inr True, d2\<lparr>uploads := delete_where (\<lambda>u. u_file u = i \<and> u_protocol u = Native) (uploads d2)\<rparr>))"

section \<open>Claiming completion\<close>

lemma begin_completion_Ready:
  assumes "schema_ok d" "begin_completion i d = Ready j"
  obtains f where "j = i" "v_file (view d i) = Some f" "f_state f = Pending" "f_part_size f \<noteq> None"
    "v_upload (view d i) = None" "\<forall>p \<in> set (v_parts (view d i)). lp_state p = PartDone"
proof -
  have "pending_multipart d i" "v_upload (view d i) = None" "\<not> part_uploading d i" "j = i"
    using assms(2) by (auto simp: begin_completion_def split: if_splits option.splits)
  moreover have "\<forall>p \<in> set (v_parts (view d i)). lp_state p = PartDone"
    using parts_all_done [OF \<open>\<not> part_uploading d i\<close>] by blast
  moreover obtain f where "v_file (view d i) = Some f" "f_state f = Pending" "f_part_size f \<noteq> None"
    using \<open>pending_multipart d i\<close> unfolding pending_multipart_view [OF assms(1)] by blast
  ultimately show thesis by (intro that)
qed

lemma native_upload_ok: "f_state f = Pending \<Longrightarrow> f_part_size f \<noteq> None \<Longrightarrow> f_id f = i \<Longrightarrow> upload_ok f (native_upload now i etag)"
  by (simp add: upload_ok_def upload_check_def native_upload_def)

lemma native_upload_simps [simp]: "u_file (native_upload now i etag) = i" "u_state (native_upload now i etag) = Completing"
  "u_protocol (native_upload now i etag) = Native" "u_expected_etag (native_upload now i etag) = Some etag"
  by (simp_all add: native_upload_def)

lemma completion_claim_cases:
  assumes "db_ok d" "begin_completion i d = Ready j" "completion_claim now i etag ttl d = (r, d')"
  obtains (lost) "r = Inr False" "d' = d" "\<forall>l \<in> set (v_leases (view d i)). le_state l \<noteq> Issued"
  | (claimed) "r = Inr True" "v_leases (view d i) \<noteq> []" "\<forall>l \<in> set (v_leases (view d i)). le_state l = Issued"
      "at_file d i ((view d i)\<lparr>v_leases := renew (now + secs ttl) (v_leases (view d i)),
         v_upload := Some (native_upload now i etag)\<rparr>) d'"
proof -
  note ok = db_okD(1) [OF assms(1)]
  obtain f where f: "v_file (view d i) = Some f" "f_state f = Pending" "f_part_size f \<noteq> None"
    "v_upload (view d i) = None" by (rule begin_completion_Ready [OF ok assms(2)])
  then have nu: "\<not> has_upload d i" "exists_where (\<lambda>f. f_id f = i) (files d)" "i \<in> f_id ` set (files d)"
    by (auto simp: has_upload_view exists_key dest!: find_where_Some)
  show thesis
  proof (cases "count_where (issued_write i) (leases d) = 0")
    case True
    with assms(3) show thesis
      by (intro lost) (auto simp: completion_claim_def Let_def issued_count)
  next
    case False
    then obtain l where l: "l \<in> set (write_leases d i)" "le_state l = Issued" by (auto simp: issued_count)
    have d': "r = Inr True" "d' = d\<lparr>leases := renew_write (now + secs ttl) i (leases d), uploads := uploads d @ [native_upload now i etag]\<rparr>"
      using assms(3) False nu by (auto simp: completion_claim_def Let_def)
    have "at_file d i ((view d i)\<lparr>v_leases := renew (now + secs ttl) (v_leases (view d i)),
         v_upload := Some (native_upload now i etag)\<rparr>) d'"
      unfolding d' at_file_def using ok f(4) nu(3) by (auto simp: at_file_simps)
    with d' l write_lease_unique [OF db_okD(2) [OF assms(1)] l(1)] show thesis
      by (intro claimed) auto
  qed
qed

lemma completion_claim_moves:
  assumes "db_ok d" "begin_completion i d = Ready j" "completion_claim now i etag ttl d = (r, d')"
  shows "sim d d' \<and> schema_ok d' \<and> (\<forall>e. r \<noteq> Inl e)"
  using assms
proof (cases rule: completion_claim_cases)
  case lost
  with assms(1) show ?thesis by (simp add: db_okD)
next
  case claimed
  obtain f where f: "v_file (view d i) = Some f" "f_state f = Pending" "f_part_size f \<noteq> None"
    "v_upload (view d i) = None" "\<forall>p \<in> set (v_parts (view d i)). lp_state p = PartDone"
    by (rule begin_completion_Ready [OF db_okD(1) [OF assms(1)] assms(2)])
  from f(1) have "f_id f = i" by (rule v_file_id)
  let ?v = "(view d i)\<lparr>v_leases := renew (now + secs ttl) (v_leases (view d i))\<rparr>"
  have "\<forall>l \<in> set (renew (now + secs ttl) (v_leases (view d i))). le_state l = Issued"
    using claimed(3) renew_states(3) [of _ _ "\<lambda>s. s = Issued"] by simp
  then have "vstep ?v (?v\<lparr>v_upload := Some (native_upload now i etag)\<rparr>)"
    by (intro vstep.own [where f = f]) (use f \<open>f_id f = i\<close> in \<open>auto simp: native_upload_ok\<close>)
  moreover have "vstep (view d i) ?v" by (rule vstep_renew)
  ultimately have "vstep\<^sup>*\<^sup>* (view d i) (?v\<lparr>v_upload := Some (native_upload now i etag)\<rparr>)" by (meson r_into_rtranclp rtranclp_trans)
  with at_file_moves claimed(1,4) show ?thesis by simp
qed

lemma renew_completion_cases:
  assumes "db_ok d" "renew_completion pr now i ttl d = (r, d')"
  obtains (refused) "r = Inr False" "d' = d"
  | (renewed) f u where "r = Inr True" "v_file (view d i) = Some f" "f_state f = Pending"
      "v_upload (view d i) = Some u" "in_state pr Completing u"
      "at_file d i ((view d i)\<lparr>v_leases := renew (now + secs ttl) (v_leases (view d i))\<rparr>) d'"
proof -
  note ok = db_okD(1) [OF assms(1)]
  show thesis
  proof (cases "r = Inr True")
    case True
    then have c: "pending d i" "exists_where (\<lambda>u. u_file u = i \<and> in_state pr Completing u) (uploads d)"
      and d': "d' = d\<lparr>leases := renew_write (now + secs ttl) i (leases d)\<rparr>"
      using assms(2) by (auto simp: renew_completion_def split: if_splits)
    have "at_file d i ((view d i)\<lparr>v_leases := renew (now + secs ttl) (v_leases (view d i))\<rparr>) d'"
      unfolding d' at_file_def using ok by (auto simp: at_file_simps)
    with True c show thesis
      by (auto simp: pending_view [OF ok] upload_exists [OF ok] intro: renewed)
  next
    case False
    with assms(2) show thesis by (intro refused) (auto simp: renew_completion_def split: if_splits)
  qed
qed

lemma renew_completion_transaction: "transaction (renew_completion pr now i ttl)"
  by (rule touch_transaction) (auto simp: renew_completion_def split: if_splits)

interpretation renew_native_completion: transaction "renew_completion_lease now i ttl" for now i ttl
  unfolding renew_completion_lease_def by (rule renew_completion_transaction)

section \<open>Finalizing a completion\<close>

lemma finalize_completion_cases:
  assumes "db_ok d" "finalize_completion now i etag d = (r, d')"
  obtains (refused) "r = Inr False" "d' = d"
      "\<forall>u. v_upload (view d i) = Some u \<longrightarrow> in_state Native Completing u \<longrightarrow> \<not> etag_matches (u_expected_etag u) etag"
  | (committed) f u where "r = Inr True" "v_file (view d i) = Some f" "f_state f = Pending"
      "v_upload (view d i) = Some u" "in_state Native Completing u" "etag_matches (u_expected_etag u) etag"
      "at_file d i ((view d i)\<lparr>v_file := Some (f\<lparr>f_state := Active, f_etag := Some etag, f_committed_at := Some now\<rparr>),
          v_leases := settle Committed (v_leases (view d i)), v_upload := None\<rparr>) d'"
proof -
  note ok = db_okD(1) [OF assms(1)]
  let ?m = "\<lambda>u. in_state Native Completing u \<and> etag_matches (u_expected_etag u) etag"
  let ?q = "\<lambda>f. f_state f = Pending \<and> exists_where (\<lambda>u. u_file u = i \<and> ?m u) (uploads d)"
  let ?g = "\<lambda>f. f\<lparr>f_state := Active, f_etag := Some etag, f_committed_at := Some now\<rparr>"
  have mu: "exists_where (\<lambda>u. u_file u = i \<and> ?m u) (uploads d) \<longleftrightarrow> (\<exists>u. v_upload (view d i) = Some u \<and> ?m u)"
    by (rule upload_exists [OF ok])
  show thesis
  using ok
  proof (cases rule: file_hit_cases [where i = i and q = ?q])
    case no_row
    have "\<not> ?m u" if "v_upload (view d i) = Some u" for u
    proof
      assume m: "?m u"
      note uploaded = that
      obtain f where f: "v_file (view d i) = Some f" "f_state f = Pending"
        using db_okD(2) [OF assms(1), of i] uploaded by (rule view_ok_upload)
      have "?q f" unfolding mu using m uploaded f(2) by blast
      moreover have "\<not> ?q f" using f(1) by (intro no_row(2)) simp
      ultimately show False by blast
    qed
    moreover have "r = Inr False" "d' = d"
      using assms(2) no_row(1) by (auto simp: finalize_completion_def Let_def split: if_splits)
    ultimately show thesis by (intro refused) auto
  next
    case (one_row f)
    then obtain u where u: "v_upload (view d i) = Some u" "?m u" using mu by blast
    have "pending d i" using one_row by (auto simp: pending_view [OF ok])
    then have d': "r = Inr True" "d' = d\<lparr>files := update_where (\<lambda>f. f_id f = i \<and> ?q f) ?g (files d),
        leases := settle_write Committed i (leases d),
        uploads := delete_where (\<lambda>u. u_file u = i \<and> u_protocol u = Native) (uploads d)\<rparr>"
      using assms(2) one_row(1) by (auto simp: finalize_completion_def Let_def)
    have "at_file d i ((view d i)\<lparr>v_file := Some (?g f),
          v_leases := settle Committed (v_leases (view d i)), v_upload := None\<rparr>) d'"
      unfolding d' at_file_def using ok one_row u
      by (auto simp: at_file_simps in_state_def)
    with one_row u d' show thesis by (intro committed [of f u]) auto
  qed
qed

interpretation finalize_completion: transaction "finalize_completion now i etag" for now i etag
proof
  fix d r d'
  assume ok: "db_ok d" and run: "finalize_completion now i etag d = (r, d')"
  have "sim d d' \<and> schema_ok d'"
    using ok run
  proof (cases rule: finalize_completion_cases)
    case (committed f u)
    have "0 \<le> f_declared_size f"
      using db_okD(2) [OF ok, of i] committed(2) by (simp add: view_defs)
    then have "vstep (view d i) ((view d i)\<lparr>v_file := Some (f\<lparr>f_state := Active, f_declared_size := f_declared_size f,
        f_etag := Some etag, f_committed_at := Some now\<rparr>),
        v_leases := settle Committed (v_leases (view d i)), v_upload := None\<rparr>)"
      using committed by (intro vstep.activate) (auto simp: in_state_def)
    with committed(7) show ?thesis by (intro at_file_move) auto
  qed (use ok in \<open>simp add: db_okD\<close>)
  then show "sim d d'" "schema_ok d'" by auto
qed (auto simp: finalize_completion_def Let_def split: if_splits)

section \<open>Recovering a completion\<close>

lemma lock_expired_view:
  assumes "db_ok d"
  shows "lock_expired pr st now i d \<longleftrightarrow> (\<exists>f u l. v_file (view d i) = Some f \<and> f_state f = Pending \<and>
    v_upload (view d i) = Some u \<and> in_state pr st u \<and> v_leases (view d i) = [l] \<and> le_state l = Issued \<and>
    le_expires_at l < now)" (is "?L = ?R")
proof -
  note ok = db_okD(1) [OF assms]
  have "exists_where (\<lambda>l. issued_write i l \<and> le_expires_at l < now) (leases d) \<longleftrightarrow>
      (\<exists>l. write_leases d i = [l] \<and> le_state l = Issued \<and> le_expires_at l < now)"
  proof
    assume "exists_where (\<lambda>l. issued_write i l \<and> le_expires_at l < now) (leases d)"
    then obtain l where l: "l \<in> set (write_leases d i)" "le_state l = Issued" "le_expires_at l < now"
      by (auto simp: exists_where_iff in_write_leases issued_write_def)
    with write_lease_unique [OF db_okD(2) [OF assms] l(1)]
    show "\<exists>l. write_leases d i = [l] \<and> le_state l = Issued \<and> le_expires_at l < now" by blast
  next
    assume "\<exists>l. write_leases d i = [l] \<and> le_state l = Issued \<and> le_expires_at l < now"
    then obtain l where l: "write_leases d i = [l]" "le_state l = Issued" "le_expires_at l < now" by blast
    then have "l \<in> set (write_leases d i)" by simp
    then have "l \<in> set (leases d)" "issued_write i l" using l(2) by (auto simp: in_write_leases issued_write_def)
    with l show "exists_where (\<lambda>l. issued_write i l \<and> le_expires_at l < now) (leases d)"
      by (auto simp: exists_where_iff)
  qed
  then show ?thesis
    unfolding lock_expired_def pending_view [OF ok] upload_exists [OF ok] by auto
qed

lemma reopen_completion_cases:
  assumes "db_ok d" "reopen_completion now i ttl d = (r, d')"
  obtains (refused) "r = Inr False" "d' = d" "\<not> lock_expired_completion now i Completing d"
  | (reopened) f u l where "r = Inr True" "v_file (view d i) = Some f" "f_state f = Pending"
      "v_upload (view d i) = Some u" "in_state Native Completing u" "v_leases (view d i) = [l]"
      "le_state l = Issued" "le_expires_at l < now"
      "at_file d i ((view d i)\<lparr>v_leases := renew (now + secs ttl) (v_leases (view d i)), v_upload := None\<rparr>) d'"
proof -
  note ok = db_okD(1) [OF assms(1)]
  show thesis
  proof (cases "lock_expired_completion now i Completing d")
    case False
    with assms(2) show thesis by (intro refused) (auto simp: reopen_completion_def)
  next
    case True
    then obtain f u l where v: "v_file (view d i) = Some f" "f_state f = Pending"
      "v_upload (view d i) = Some u" "in_state Native Completing u" "v_leases (view d i) = [l]"
      "le_state l = Issued" "le_expires_at l < now"
      unfolding lock_expired_completion_def lock_expired_view [OF assms(1)] by blast
    have c: "count_where (\<lambda>u. u_file u = i \<and> in_state Native Completing u) (uploads d) \<noteq> 0"
      unfolding upload_count [OF ok] using v(3,4) by blast
    with assms(2) True have d': "r = Inr True" "d' = d\<lparr>uploads := delete_where (\<lambda>u. u_file u = i \<and> in_state Native Completing u) (uploads d),
        leases := renew_write (now + secs ttl) i (leases d)\<rparr>"
      by (simp_all add: reopen_completion_def Let_def)
    have "at_file d i ((view d i)\<lparr>v_leases := renew (now + secs ttl) (v_leases (view d i)), v_upload := None\<rparr>) d'"
      unfolding d' at_file_def using ok v by (auto simp: at_file_simps)
    with d'(1) v show thesis by (intro reopened)
  qed
qed

lemma renewed_reopen_move:
  assumes "completing (v_upload v)" "v_file v = Some f" "\<forall>l \<in> set (v_leases v). le_state l = Issued"
    and "\<And>u. up = Some u \<Longrightarrow> upload_ok f u \<and> u_state u = Open"
  shows "vstep\<^sup>*\<^sup>* v (v\<lparr>v_leases := renew t (v_leases v), v_upload := up\<rparr>)"
proof -
  let ?v = "v\<lparr>v_leases := renew t (v_leases v)\<rparr>"
  have "\<forall>l \<in> set (renew t (v_leases v)). le_state l = Issued"
    using assms(3) renew_states(3) [of _ _ "\<lambda>s. s = Issued"] by simp
  then have "vstep ?v (?v\<lparr>v_upload := up\<rparr>)"
    by (intro vstep.reopen [where f = f]) (use assms in auto)
  with vstep_renew [of v t] show ?thesis by (meson r_into_rtranclp rtranclp_trans)
qed

interpretation reopen_completion: transaction "reopen_completion now i ttl" for now i ttl
proof
  fix d r d'
  assume ok: "db_ok d" and run: "reopen_completion now i ttl d = (r, d')"
  have "sim d d' \<and> schema_ok d'"
    using ok run
  proof (cases rule: reopen_completion_cases)
    case (reopened f u l)
    have "vstep\<^sup>*\<^sup>* (view d i) ((view d i)\<lparr>v_leases := renew (now + secs ttl) (v_leases (view d i)), v_upload := None\<rparr>)"
      by (rule renewed_reopen_move [where f = f]) (use reopened in \<open>auto simp: in_state_def\<close>)
    with reopened(9) show ?thesis by (rule at_file_moves)
  qed (use ok in \<open>simp add: db_okD\<close>)
  then show "sim d d'" "schema_ok d'" by auto
qed (auto simp: reopen_completion_def Let_def split: if_splits)

lemma claim_cleanup_cases:
  assumes "db_ok d" "claim_cleanup now i d = (r, d')"
  obtains (refused) "r = Inr False" "d' = d" "\<not> lock_expired_completion now i Completing d"
  | (claimed) f u l where "r = Inr True" "v_file (view d i) = Some f" "f_state f = Pending"
      "v_upload (view d i) = Some u" "in_state Native Completing u" "v_leases (view d i) = [l]"
      "le_state l = Issued" "le_expires_at l < now"
      "at_file d i ((view d i)\<lparr>v_upload := Some (u\<lparr>u_state := Cleaning, u_recovery_after := now\<rparr>),
         v_leases := settle Expired (v_leases (view d i))\<rparr>) d'"
proof -
  note ok = db_okD(1) [OF assms(1)]
  show thesis
  proof (cases "lock_expired_completion now i Completing d")
    case False
    with assms(2) show thesis by (intro refused) (auto simp: claim_cleanup_def)
  next
    case True
    then obtain f u l where v: "v_file (view d i) = Some f" "f_state f = Pending"
      "v_upload (view d i) = Some u" "in_state Native Completing u" "v_leases (view d i) = [l]"
      "le_state l = Issued" "le_expires_at l < now"
      unfolding lock_expired_completion_def lock_expired_view [OF assms(1)] by blast
    have c: "count_where (\<lambda>u. u_file u = i \<and> in_state Native Completing u) (uploads d) \<noteq> 0"
      unfolding upload_count [OF ok] using v(3,4) by blast
    with assms(2) True have d': "r = Inr True" "d' = d\<lparr>uploads := update_where (\<lambda>u. u_file u = i \<and> in_state Native Completing u)
          (\<lambda>u. u\<lparr>u_state := Cleaning, u_recovery_after := now\<rparr>) (uploads d),
        leases := settle_write Expired i (leases d)\<rparr>"
      by (simp_all add: claim_cleanup_def Let_def)
    have "at_file d i ((view d i)\<lparr>v_upload := Some (u\<lparr>u_state := Cleaning, u_recovery_after := now\<rparr>),
         v_leases := settle Expired (v_leases (view d i))\<rparr>) d'"
      unfolding d' at_file_def using ok v by (auto simp: at_file_simps)
    with d'(1) v show thesis by (intro claimed)
  qed
qed

interpretation claim_cleanup: transaction "claim_cleanup now i" for now i
proof
  fix d r d'
  assume ok: "db_ok d" and run: "claim_cleanup now i d = (r, d')"
  have "sim d d' \<and> schema_ok d'"
    using ok run
  proof (cases rule: claim_cleanup_cases)
    case (claimed f u l)
    have "upload_ok f u" using db_okD(2) [OF ok, of i] claimed(2,4) by (simp add: view_ok_def)
    then have "upload_ok f (u\<lparr>u_state := Cleaning, u_recovery_after := now\<rparr>)"
      using claimed(5) by (auto simp: upload_ok_def upload_check_def in_state_def)
    then have "vstep (view d i) ((view d i)\<lparr>v_upload := Some (u\<lparr>u_state := Cleaning, u_recovery_after := now\<rparr>),
         v_leases := settle Expired (v_leases (view d i))\<rparr>)"
      by (intro vstep.clean [where f = f]) (use claimed in auto)
    with claimed(9) show ?thesis by (rule at_file_move)
  qed (use ok in \<open>simp add: db_okD\<close>)
  then show "sim d d'" "schema_ok d'" by auto
qed (auto simp: claim_cleanup_def Let_def split: if_splits)

lemma finalize_cleanup_cases:
  assumes "db_ok d" "finalize_cleanup i d = (r, d')"
  obtains (refused) "r = Inr False" "d' = d"
  | (reclaimed) f u where "r = Inr True" "v_file (view d i) = Some f" "f_state f = Pending"
      "v_upload (view d i) = Some u" "in_state Native Cleaning u" "v_loc (view d i) \<noteq> None"
      "at_file d i ((view d i)\<lparr>v_file := Some (f\<lparr>f_state := Reclaimed\<rparr>), v_loc := None, v_upload := None\<rparr>) d'"
proof -
  note ok = db_okD(1) [OF assms(1)]
  let ?q = "\<lambda>f. f_state f = Pending \<and> exists_where (\<lambda>u. u_file u = i \<and> in_state Native Cleaning u) (uploads d)"
  show thesis
  using ok
  proof (cases rule: file_hit_cases [where i = i and q = ?q])
    case no_row
    with assms(2) show thesis by (intro refused) (auto simp: finalize_cleanup_def Let_def)
  next
    case (one_row f)
    then obtain u where u: "v_upload (view d i) = Some u" "in_state Native Cleaning u"
      using upload_exists [OF ok, of i "in_state Native Cleaning"] by auto
    have d': "r = Inr True" "d' = d\<lparr>files := update_where (\<lambda>f. f_id f = i \<and> ?q f) (\<lambda>f. f\<lparr>f_state := Reclaimed\<rparr>) (files d),
        locations := delete_where (\<lambda>l. l_file l = i) (locations d),
        uploads := delete_where (\<lambda>u. u_file u = i \<and> u_protocol u = Native) (uploads d)\<rparr>"
      using assms(2) one_row(1) by (simp_all add: finalize_cleanup_def Let_def)
    have "at_file d i ((view d i)\<lparr>v_file := Some (f\<lparr>f_state := Reclaimed\<rparr>), v_loc := None, v_upload := None\<rparr>) d'"
      unfolding d' at_file_def using ok one_row u by (auto simp: at_file_simps in_state_def split: option.splits)
    moreover have "v_loc (view d i) \<noteq> None"
      using db_okD(2) [OF assms(1), of i] one_row(2,3) by (simp add: view_ok_def)
    ultimately show thesis using d'(1) one_row u by (intro reclaimed [of f u]) auto
  qed
qed

interpretation finalize_cleanup: transaction "finalize_cleanup i" for i
proof
  fix d r d'
  assume ok: "db_ok d" and run: "finalize_cleanup i d = (r, d')"
  have "sim d d' \<and> schema_ok d'"
    using ok run
  proof (cases rule: finalize_cleanup_cases)
    case (reclaimed f u)
    have "\<forall>l \<in> set (v_leases (view d i)). le_state l \<noteq> Issued"
      using db_okD(2) [OF ok, of i] reclaimed(2,4,5) by (simp add: view_ok_def lease_ok_def in_state_def)
    then have st: "settle Expired (v_leases (view d i)) = v_leases (view d i)"
      unfolding settle_def by (intro map_idI) auto
    have "vstep (view d i) ((view d i)\<lparr>v_file := Some (f\<lparr>f_state := Reclaimed\<rparr>), v_loc := None,
        v_leases := settle Expired (v_leases (view d i)), v_upload := None\<rparr>)"
      by (rule vstep.reclaim_drop) (use reclaimed in \<open>auto simp: in_state_def\<close>)
    with reclaimed(7) show ?thesis unfolding st by (intro at_file_move) (auto simp: view_def)
  qed (use ok in \<open>simp add: db_okD\<close>)
  then show "sim d d'" "schema_ok d'" by auto
qed (auto simp: finalize_cleanup_def Let_def split: if_splits)

interpretation native_cleanup: metadata_release db_ok "finalize_cleanup i" "address_recorded i" for i
proof
  fix d d'
  assume ok: "db_ok d" and run: "finalize_cleanup i d = (Inr True, d')"
  from ok run show "address_recorded i d \<and> \<not> address_recorded i d'"
    by (cases rule: finalize_cleanup_cases) (auto simp: address_recorded_view at_file_fields)
qed (auto simp: finalize_cleanup_def Let_def split: if_splits)

end
