(* ===== verification/S3_Uploads.thy ===== *)
theory S3_Uploads
  imports S3_Keys Files_Completion
begin

text \<open>
  \<open>db/src/s3_registry/uploads.rs\<close>: S3 upload sessions from creation to the atomic publication of
  their key, their abort and expiry, and the recovery of interrupted completions.
  \<open>begin_multipart_completion\<close> keeps its transaction open with the file locked until \<open>claim\<close>; no
  other transition of the file can run in between.
\<close>

section \<open>Sessions\<close>

definition open_upload :: "timestamp \<Rightarrow> uuid \<Rightarrow> string \<Rightarrow> bool \<Rightarrow> bool \<Rightarrow> upload_row" where
  "open_upload now i key multipart if_none_match = \<lparr>u_file = i, u_protocol = S3, u_key = Some key,
     u_multipart = multipart, u_if_none_match = if_none_match, u_state = Open, u_expected_size = None,
     u_expected_etag = None, u_recovery_after = now\<rparr>"

definition create_upload :: "(uuid \<Rightarrow> string) \<Rightarrow> (timestamp \<Rightarrow> string) \<Rightarrow> timestamp \<Rightarrow> uuid \<Rightarrow> uuid
    \<Rightarrow> create_spec \<Rightarrow> string \<Rightarrow> bool \<Rightarrow> (db, db_error, create_outcome) eff" where
  "create_upload uuid_text year_month now file_id lease_id c key if_none_match d =
     (let multipart = (cs_part_size c \<noteq> None) in
      case create_in_tx uuid_text year_month now file_id lease_id c d of
        (Inl e, _) \<Rightarrow> (Inl e, d)
      | (Inr NoClient, _) \<Rightarrow> (Inr NoClient, d)
      | (Inr (Created f), d1) \<Rightarrow>
          if has_upload d1 (cf_file_id f) then (Inl UniqueViolation, d)
          else (Inr (Created f), d1\<lparr>uploads := uploads d1 @ [open_upload now (cf_file_id f) key multipart if_none_match]\<rparr>))"

definition s3_session :: "string \<Rightarrow> bool \<Rightarrow> upload_row \<Rightarrow> bool" where
  "s3_session key multipart u \<longleftrightarrow> u_protocol u = S3 \<and> u_key u = Some key \<and> u_multipart u = multipart"

definition upload_matches_states :: "string \<Rightarrow> string \<Rightarrow> uuid \<Rightarrow> bool \<Rightarrow> bool \<Rightarrow> db \<Rightarrow> bool" where
  "upload_matches_states client key i multipart allow_completing d =
     exists_where (\<lambda>u. u_file u = i \<and> (s3_session key multipart u \<and>
         (u_state u = Open \<or> allow_completing \<and> u_state u = Completing) \<and>
         exists_where (\<lambda>f. f_id f = u_file u \<and> f_client f = client \<and> f_state f = Pending \<and>
           (multipart \<and> f_part_size f \<noteq> None \<or> \<not> multipart \<and> f_part_size f = None)) (files d))) (uploads d)"

definition upload_matches :: "string \<Rightarrow> string \<Rightarrow> uuid \<Rightarrow> bool \<Rightarrow> db \<Rightarrow> bool" where
  "upload_matches client key i multipart d = upload_matches_states client key i multipart False d"

definition completion_matches :: "string \<Rightarrow> string \<Rightarrow> uuid \<Rightarrow> bool \<Rightarrow> db \<Rightarrow> bool" where
  "completion_matches client key i multipart d = upload_matches_states client key i multipart True d"

section \<open>Claiming completion\<close>

datatype s3_completion_claim = CompletionClaimed | CompletionResuming | CompletionBusy | CompletionUnavailable

record completion_spec =
  sp_client :: string
  sp_key :: string
  sp_file :: uuid
  sp_multipart :: bool
  sp_expected_size :: int
  sp_expected_etag :: string
  sp_ttl :: int

text \<open>\<open>SELECT ... FROM files WHERE id = $1 AND client_id = $2 AND state = 'pending' AND part_size IS
  [NOT] NULL FOR UPDATE\<close>\<close>

definition locked_file :: "string \<Rightarrow> uuid \<Rightarrow> bool \<Rightarrow> db \<Rightarrow> file_row option" where
  "locked_file client i multipart d =
     find (\<lambda>f. f_id f = i \<and> f_client f = client \<and> f_state f = Pending \<and> (f_part_size f \<noteq> None \<longleftrightarrow> multipart)) (files d)"

definition to_completing :: "timestamp \<Rightarrow> int \<Rightarrow> string \<Rightarrow> upload_row \<Rightarrow> upload_row" where
  "to_completing now sz etag u = u\<lparr>u_state := Completing, u_expected_size := Some sz,
     u_expected_etag := Some etag, u_recovery_after := now\<rparr>"

definition to_cleaning :: "timestamp \<Rightarrow> upload_row \<Rightarrow> upload_row" where
  "to_cleaning now u = u\<lparr>u_state := Cleaning, u_expected_size := None, u_expected_etag := None, u_recovery_after := now\<rparr>"

definition resumes :: "int \<Rightarrow> string \<Rightarrow> int option \<Rightarrow> string option \<Rightarrow> s3_completion_claim" where
  "resumes sz etag expected_size expected_etag =
     (if expected_size = Some sz \<and> expected_etag = Some etag then CompletionResuming else CompletionUnavailable)"

definition claim_single_completion :: "timestamp \<Rightarrow> completion_spec \<Rightarrow> (db, db_error, s3_completion_claim) eff" where
  "claim_single_completion now c d =
     (let i = sp_file c in
      case locked_file (sp_client c) i False d of
        None \<Rightarrow> (Inr CompletionUnavailable, d)
      | Some f \<Rightarrow>
          if sp_expected_size c < 0 \<or> sp_expected_size c \<noteq> f_declared_size f then (Inr CompletionUnavailable, d)
          else (case find (\<lambda>u. u_file u = i \<and> s3_session (sp_key c) False u) (uploads d) of
              None \<Rightarrow> (Inr CompletionUnavailable, d)
            | Some u \<Rightarrow> (case u_state u of
                  Completing \<Rightarrow> (Inr (resumes (sp_expected_size c) (sp_expected_etag c) (u_expected_size u) (u_expected_etag u)), d)
                | Open \<Rightarrow>
                    if count_where (issued_write i) (leases d) = 0 then (Inr CompletionUnavailable, d)
                    else (Inr CompletionClaimed, d\<lparr>leases := renew_write (now + secs (sp_ttl c)) i (leases d),
                        uploads := update_where (\<lambda>u. u_file u = i \<and> u_protocol u = S3)
                          (to_completing now (sp_expected_size c) (sp_expected_etag c)) (uploads d)\<rparr>)
                | Cleaning \<Rightarrow> (Inr CompletionUnavailable, d))))"

record multipart_completion =
  mc_file :: uuid
  mc_state :: upload_state
  mc_expected_size :: "int option"
  mc_expected_etag :: "string option"

datatype multipart_completion_start = MultipartReady multipart_completion | MultipartBusy | MultipartUnavailable

definition begin_multipart_completion :: "string \<Rightarrow> string \<Rightarrow> uuid \<Rightarrow> db \<Rightarrow> multipart_completion_start" where
  "begin_multipart_completion client key i d =
     (case locked_file client i True d of
        None \<Rightarrow> MultipartUnavailable
      | Some _ \<Rightarrow>
          (case find (\<lambda>u. u_file u = i \<and> s3_session key True u \<and> u_state u \<in> {Open, Completing}) (uploads d) of
             None \<Rightarrow> MultipartUnavailable
           | Some u \<Rightarrow>
               if part_uploading d i then MultipartBusy
               else MultipartReady \<lparr>mc_file = i, mc_state = u_state u,
                  mc_expected_size = u_expected_size u, mc_expected_etag = u_expected_etag u\<rparr>))"

definition multipart_done_parts :: "multipart_completion \<Rightarrow> db \<Rightarrow> (int \<times> int \<times> string) list" where
  "multipart_done_parts m d =
     done_rows (filter (\<lambda>p. exists_where (\<lambda>le. le_id le = lp_lease p \<and> le_file le = mc_file m \<and> le_kind le = Write) (leases d))
       (lease_parts d))"

definition multipart_claim :: "timestamp \<Rightarrow> multipart_completion \<Rightarrow> int \<Rightarrow> string \<Rightarrow> int \<Rightarrow> (db, db_error, s3_completion_claim) eff" where
  "multipart_claim now m sz etag ttl d =
     (let i = mc_file m; hit = (\<lambda>u. u_file u = i \<and> (u_protocol u = S3 \<and> u_state u = Open)) in
      if sz < 0 then (Inr CompletionUnavailable, d)
      else if mc_state m = Completing then (Inr (resumes sz etag (mc_expected_size m) (mc_expected_etag m)), d)
      else if mc_state m \<noteq> Open then (Inr CompletionUnavailable, d)
      else if count_where (issued_write i) (leases d) = 0 then (Inr CompletionUnavailable, d)
      else if count_where hit (uploads d) = 0 then (Inr CompletionUnavailable, d)
      else (Inr CompletionClaimed, d\<lparr>leases := renew_write (now + secs ttl) i (leases d),
              uploads := update_where hit (to_completing now sz etag) (uploads d)\<rparr>))"

definition claim_completion :: "timestamp \<Rightarrow> completion_spec \<Rightarrow> (db, db_error, s3_completion_claim) eff" where
  "claim_completion now c d =
     (if sp_multipart c
      then (case begin_multipart_completion (sp_client c) (sp_key c) (sp_file c) d of
              MultipartReady guard \<Rightarrow> multipart_claim now guard (sp_expected_size c) (sp_expected_etag c) (sp_ttl c) d
            | MultipartBusy \<Rightarrow> (Inr CompletionBusy, d)
            | MultipartUnavailable \<Rightarrow> (Inr CompletionUnavailable, d))
      else claim_single_completion now c d)"

section \<open>Parts\<close>

definition open_session :: "string \<Rightarrow> upload_row \<Rightarrow> bool" where
  "open_session key u \<longleftrightarrow> s3_session key True u \<and> u_state u = Open"

definition claim_upload_part :: "timestamp \<Rightarrow> string \<Rightarrow> string \<Rightarrow> uuid \<Rightarrow> uuid \<Rightarrow> int \<Rightarrow> int \<Rightarrow> (db, db_error, part_claim) eff" where
  "claim_upload_part now client key i lease n ttl d =
     (let hit = (\<lambda>l. le_id l = lease \<and> le_file l = i \<and> le_kind l = Write \<and> le_state l = Issued \<and> now < le_expires_at l);
          d1 = d\<lparr>leases := update_where hit (extend_lease (now + secs ttl)) (leases d)\<rparr>
      in if locked_file client i True d = None then (Inr Unavailable, d)
         else if \<not> exists_where (\<lambda>u. u_file u = i \<and> open_session key u) (uploads d) then (Inr Unavailable, d)
         else if count_where hit (leases d) = 0 then (Inr Unavailable, d)
         else if n < 1 then (Inl CheckViolation, d)
         else case upsert_claim lease n (lease_parts d1) of
             None \<Rightarrow> (Inr Busy, d)
           | Some P \<Rightarrow> (Inr Claimed, d1\<lparr>lease_parts := P\<rparr>))"

definition renew_upload_part_lease :: "timestamp \<Rightarrow> uuid \<Rightarrow> uuid \<Rightarrow> int \<Rightarrow> int \<Rightarrow> (db, db_error, bool) eff" where
  "renew_upload_part_lease now i lease n ttl d =
     (let owned = exists_where (\<lambda>u. u_file u = i \<and> (u_protocol u = S3 \<and> u_multipart u \<and> u_state u = Open)) (uploads d) \<and>
            exists_where (\<lambda>le. le_file le = i \<and> le_id le = lease \<and> le_kind le = Write \<and>
              exists_where (\<lambda>p. lp_lease p = le_id le \<and> lp_no p = n \<and> lp_state p = PartClaimed) (lease_parts d)) (leases d);
          hit = (\<lambda>l. le_id l = lease \<and> le_file l = i \<and> le_kind l = Write \<and> le_state l = Issued)
      in if \<not> pending d i then (Inr False, d)
         else if \<not> owned then (Inr False, d)
         else if count_where hit (leases d) = 0 then (Inr False, d)
         else (Inr True, d\<lparr>leases := update_where hit (\<lambda>l. l\<lparr>le_expires_at := now + secs ttl\<rparr>) (leases d)\<rparr>))"

definition finish_upload_part :: "uuid \<Rightarrow> uuid \<Rightarrow> int \<Rightarrow> int \<Rightarrow> string \<Rightarrow> (db, db_error, bool) eff" where
  "finish_upload_part i lease n sz md5 d =
     (if \<not> pending d i then (Inr False, d)
      else if \<not> exists_where (\<lambda>u. u_file u = i \<and> (u_protocol u = S3 \<and> u_multipart u \<and> u_state u = Open)) (uploads d) then (Inr False, d)
      else record_done i lease n sz md5 d)"

definition cancel_upload_part :: "uuid \<Rightarrow> uuid \<Rightarrow> int \<Rightarrow> (db, db_error, unit) eff" where
  "cancel_upload_part i lease n d = give_back i lease n d"

section \<open>Abort\<close>

datatype abort_claim = AbortClaimed | AbortBusy | AbortUnavailable

definition claim_abort :: "timestamp \<Rightarrow> string \<Rightarrow> string \<Rightarrow> uuid \<Rightarrow> (db, db_error, abort_claim) eff" where
  "claim_abort now client key i d =
     (let hit = (\<lambda>u. u_file u = i \<and> open_session key u) in
      if locked_file client i True d = None then (Inr AbortUnavailable, d)
      else if \<not> exists_where hit (uploads d) then (Inr AbortUnavailable, d)
      else if part_uploading d i then (Inr AbortBusy, d)
      else if count_where hit (uploads d) = 0 then (Inr AbortUnavailable, d)
      else (Inr AbortClaimed, d\<lparr>uploads := update_where hit
             (\<lambda>u. u\<lparr>u_state := Cleaning, u_recovery_after := now\<rparr>) (uploads d)\<rparr>))"

section \<open>Publication\<close>

datatype finalize_outcome = Finalized "uuid option" | PreconditionFailed | NotPending

definition s3_row :: "uuid \<Rightarrow> upload_row \<Rightarrow> bool" where
  "s3_row i u \<longleftrightarrow> u_file u = i \<and> u_protocol u = S3"

text \<open>The statements from \<open>UPDATE files\<close> on: activation, lease settlement, key replacement and the
  end of the session. An error rolls the whole transaction back.\<close>

definition publish :: "timestamp \<Rightarrow> string \<Rightarrow> string \<Rightarrow> uuid \<Rightarrow> int \<Rightarrow> string \<Rightarrow> bool \<Rightarrow> (db, db_error, finalize_outcome) eff" where
  "publish now client key i sz etag if_none_match d =
     (let d1 = d\<lparr>files := update_where (\<lambda>f. f_id f = i)
                  (\<lambda>f. f\<lparr>f_state := Active, f_declared_size := sz, f_etag := Some etag, f_committed_at := Some now\<rparr>) (files d)\<rparr>;
          d2 = d1\<lparr>leases := settle_write Committed i (leases d1)\<rparr>
      in case (if if_none_match then (Inr None, d2) else upsert_key_in_tx now client key i d2) of
           (Inl e, d3) \<Rightarrow> (Inl e, d3)
         | (Inr gone, d3) \<Rightarrow> (Inr (Finalized gone), d3\<lparr>uploads := delete_where (s3_row i) (uploads d3)\<rparr>))"

definition finalize_upload :: "timestamp \<Rightarrow> string \<Rightarrow> string \<Rightarrow> uuid \<Rightarrow> bool \<Rightarrow> (db, db_error, finalize_outcome) eff" where
  "finalize_upload now client key i multipart d =
     (case locked_file client i multipart d of
        None \<Rightarrow> (Inr NotPending, d)
      | Some _ \<Rightarrow>
          (case find (\<lambda>u. u_file u = i \<and> (s3_session key multipart u \<and> u_state u = Completing)) (uploads d) of
             None \<Rightarrow> (Inr NotPending, d)
           | Some u \<Rightarrow>
               (let sz = the (u_expected_size u); etag = the (u_expected_etag u); inm = u_if_none_match u;
                    commit = (\<lambda>x. case x of (Inl e, _) \<Rightarrow> (Inl e, d) | (Inr q, d') \<Rightarrow> (Inr q, d'))
                in if inm then
                     (case insert_key_in_tx client key i d of
                        (Inl e, _) \<Rightarrow> (Inl e, d)
                      | (Inr True, d1) \<Rightarrow> commit (publish now client key i sz etag inm d1)
                      | (Inr False, d1) \<Rightarrow> (Inr PreconditionFailed,
                          d1\<lparr>uploads := update_where (s3_row i) (to_cleaning now) (uploads d1)\<rparr>))
                   else commit (publish now client key i sz etag inm d))))"

definition finalize_single_upload :: "timestamp \<Rightarrow> string \<Rightarrow> string \<Rightarrow> uuid \<Rightarrow> (db, db_error, finalize_outcome) eff" where
  "finalize_single_upload now client key i = finalize_upload now client key i False"

definition finalize_multipart_upload :: "timestamp \<Rightarrow> string \<Rightarrow> string \<Rightarrow> uuid \<Rightarrow> (db, db_error, finalize_outcome) eff" where
  "finalize_multipart_upload now client key i = finalize_upload now client key i True"

section \<open>Expiry and cleanup\<close>

definition expired_open_uploads :: "timestamp \<Rightarrow> nat \<Rightarrow> db \<Rightarrow> uuid list" where
  "expired_open_uploads now limit d =
     take limit [u_file u. u \<leftarrow> uploads d, f \<leftarrow> files d, f_id f = u_file u,
                 le \<leftarrow> leases d, le_file le = f_id f, le_kind le = Write,
                 u_protocol u = S3, u_state u = Open, f_state f = Pending,
                 le_state le = Issued, le_expires_at le < now]"

definition claim_expired_abort :: "timestamp \<Rightarrow> uuid \<Rightarrow> (db, db_error, bool) eff" where
  "claim_expired_abort now i d =
     (let hit = (\<lambda>l. issued_write i l \<and> le_expires_at l < now) in
      if \<not> pending d i then (Inr False, d)
      else if \<not> exists_where (\<lambda>u. u_file u = i \<and> in_state S3 Open u) (uploads d) then (Inr False, d)
      else if count_where hit (leases d) = 0 then (Inr False, d)
      else (Inr True, d\<lparr>leases := update_where hit (\<lambda>l. l\<lparr>le_state := Expired\<rparr>) (leases d),
             uploads := update_where (s3_row i) (\<lambda>u. u\<lparr>u_state := Cleaning, u_recovery_after := now\<rparr>) (uploads d)\<rparr>))"

definition finalize_reclaimed_upload :: "uuid \<Rightarrow> upload_state \<Rightarrow> (db, db_error, bool) eff" where
  "finalize_reclaimed_upload i required d =
     (let hit = (\<lambda>f. f_id f = i \<and> (f_state f = Pending \<and>
            exists_where (\<lambda>u. u_file u = i \<and> in_state S3 required u) (uploads d)));
          d1 = d\<lparr>files := update_where hit (\<lambda>f. f\<lparr>f_state := Reclaimed\<rparr>) (files d)\<rparr>;
          d2 = d1\<lparr>leases := settle_write Expired i (leases d1)\<rparr>;
          d3 = d2\<lparr>locations := delete_where (\<lambda>l. l_file l = i) (locations d2)\<rparr>
      in if count_where hit (files d) = 0 then (Inr False, d)
         else (Inr True, d3\<lparr>uploads := delete_where (s3_row i) (uploads d3)\<rparr>))"

definition finalize_abort :: "uuid \<Rightarrow> (db, db_error, bool) eff" where
  "finalize_abort i = finalize_reclaimed_upload i Cleaning"

definition discard_unstarted_upload :: "uuid \<Rightarrow> (db, db_error, bool) eff" where
  "discard_unstarted_upload i = finalize_reclaimed_upload i Open"

definition cleanup_candidates :: "timestamp \<Rightarrow> nat \<Rightarrow> db \<Rightarrow> sweep_candidate list" where
  "cleanup_candidates now limit d =
     map (\<lambda>(u, l, le). \<lparr>sw_file_id = u_file u, sw_storage_id = l_storage l, sw_object_key = l_object_key l,
           sw_upload_id = le_upload_id le, sw_write_lease_id = Some (le_id le), sw_multipart = u_multipart u\<rparr>)
       (take limit (sort_key (\<lambda>(u, l, le). (u_recovery_after u, u_file u))
          [(u, l, le). u \<leftarrow> uploads d, l \<leftarrow> locations d, l_file l = u_file u,
                       le \<leftarrow> leases d, le_file le = u_file u, le_kind le = Write,
                       in_state S3 Cleaning u, u_recovery_after u \<le> now]))"

section \<open>Recovering a completion\<close>

record s3_completion_candidate =
  sc_file_id :: uuid
  sc_client_id :: string
  sc_key :: string
  sc_multipart :: bool
  sc_expected_size :: int
  sc_expected_etag :: string
  sc_storage_id :: string
  sc_object_key :: string

definition s3_completion_candidates :: "timestamp \<Rightarrow> nat \<Rightarrow> db \<Rightarrow> s3_completion_candidate list" where
  "s3_completion_candidates now limit d =
     map (\<lambda>(u, f, l). \<lparr>sc_file_id = u_file u, sc_client_id = f_client f, sc_key = the (u_key u),
           sc_multipart = u_multipart u, sc_expected_size = the (u_expected_size u),
           sc_expected_etag = the (u_expected_etag u), sc_storage_id = l_storage l, sc_object_key = l_object_key l\<rparr>)
       (take limit (sort_key (\<lambda>(u, f, l). (u_recovery_after u, u_file u))
          [(u, f, l). u \<leftarrow> uploads d, f \<leftarrow> files d, f_id f = u_file u, l \<leftarrow> locations d, l_file l = u_file u,
                      le \<leftarrow> leases d, le_file le = u_file u, le_kind le = Write,
                      in_state S3 Completing u, f_state f = Pending,
                      le_state le = Issued, le_expires_at le < now, u_recovery_after u \<le> now]))"

definition s3_renew_completion_lease :: "timestamp \<Rightarrow> uuid \<Rightarrow> int \<Rightarrow> (db, db_error, bool) eff" where
  "s3_renew_completion_lease = renew_completion S3"

definition s3_lock_expired_completion :: "timestamp \<Rightarrow> uuid \<Rightarrow> db \<Rightarrow> bool" where
  "s3_lock_expired_completion now i d = lock_expired S3 Completing now i d"

definition s3_reopen_completion :: "timestamp \<Rightarrow> uuid \<Rightarrow> int \<Rightarrow> (db, db_error, bool) eff" where
  "s3_reopen_completion now i ttl d =
     (let hit = (\<lambda>u. u_file u = i \<and> in_state S3 Completing u);
          d1 = d\<lparr>uploads := update_where hit (\<lambda>u. u\<lparr>u_state := Open, u_expected_size := None,
                   u_expected_etag := None, u_recovery_after := now\<rparr>) (uploads d)\<rparr>
      in if \<not> s3_lock_expired_completion now i d then (Inr False, d)
         else if count_where hit (uploads d) = 0 then (Inr False, d)
         else if count_where (issued_write i) (leases d1) = 0 then (Inr False, d)
         else (Inr True, d1\<lparr>leases := renew_write (now + secs ttl) i (leases d1)\<rparr>))"

definition mark_completion_aborting :: "timestamp \<Rightarrow> uuid \<Rightarrow> (db, db_error, bool) eff" where
  "mark_completion_aborting now i d =
     (let hit = (\<lambda>u. u_file u = i \<and> in_state S3 Completing u)
      in if \<not> s3_lock_expired_completion now i d then (Inr False, d)
         else if count_where hit (uploads d) = 0 then (Inr False, d)
         else (Inr True, d\<lparr>uploads := update_where hit (to_cleaning now) (uploads d)\<rparr>))"

section \<open>Rows of a session\<close>

lemma locked_file_view:
  assumes "schema_ok d"
  shows "locked_file client i m d = Some f \<longleftrightarrow> v_file (view d i) = Some f \<and> f_client f = client \<and>
      f_state f = Pending \<and> (f_part_size f \<noteq> None \<longleftrightarrow> m)"
  unfolding locked_file_def find_by_key [OF schema_okD(1) [OF assms]]
  by (auto split: option.splits)

lemma session_view:
  assumes "schema_ok d"
  shows "find (\<lambda>u. u_file u = i \<and> q u) (uploads d) = Some u \<longleftrightarrow> v_upload (view d i) = Some u \<and> q u"
  unfolding find_by_key [OF schema_okD(5) [OF assms]] by (auto split: option.splits)

lemma s3_row_fun: "s3_row i = (\<lambda>u. u_file u = i \<and> u_protocol u = S3)"
  by (simp add: s3_row_def fun_eq_iff)

lemma to_state_simps [simp]:
  "u_file (to_completing now sz etag u) = u_file u" "u_state (to_completing now sz etag u) = Completing"
  "u_protocol (to_completing now sz etag u) = u_protocol u" "u_key (to_completing now sz etag u) = u_key u"
  "u_multipart (to_completing now sz etag u) = u_multipart u"
  "u_if_none_match (to_completing now sz etag u) = u_if_none_match u"
  "u_expected_size (to_completing now sz etag u) = Some sz" "u_expected_etag (to_completing now sz etag u) = Some etag"
  "u_file (to_cleaning now u) = u_file u" "u_state (to_cleaning now u) = Cleaning"
  "u_protocol (to_cleaning now u) = u_protocol u" "u_key (to_cleaning now u) = u_key u"
  by (simp_all add: to_completing_def to_cleaning_def)

lemma upload_ok_to_cleaning:
  "upload_ok f u \<Longrightarrow> u_protocol u = S3 \<Longrightarrow> upload_ok f (to_cleaning now u)"
  "upload_ok f u \<Longrightarrow> u_protocol u = S3 \<Longrightarrow> u_state u = Open \<Longrightarrow> upload_ok f (u\<lparr>u_state := Cleaning, u_recovery_after := now\<rparr>)"
  "upload_ok f u \<Longrightarrow> u_protocol u = S3 \<Longrightarrow> 0 \<le> sz \<Longrightarrow> upload_ok f (to_completing now sz etag u)"
  "upload_ok f u \<Longrightarrow> u_protocol u = S3 \<Longrightarrow>
     upload_ok f (u\<lparr>u_state := Open, u_expected_size := None, u_expected_etag := None, u_recovery_after := now\<rparr>)"
  by (auto simp: upload_ok_def upload_check_def to_cleaning_def to_completing_def)

lemma view_upload_ok:
  assumes "db_ok d" "v_file (view d i) = Some f" "v_upload (view d i) = Some u"
  shows "upload_ok f u"
  using db_okD(2) [OF assms(1), of i] assms(2,3) by (simp add: view_ok_def)

lemma open_leases_issued:
  assumes "db_ok d" "v_file (view d i) = Some f" "f_state f = Pending" "\<not> cleaning (v_upload (view d i))"
  shows "\<forall>l \<in> set (v_leases (view d i)). le_state l = Issued" "v_leases (view d i) \<noteq> []"
  using db_okD(2) [OF assms(1), of i] assms(2-4) by (auto simp: view_ok_def lease_ok_def)

section \<open>Claiming a completion\<close>

lemma begin_multipart_Ready:
  assumes "schema_ok d" "begin_multipart_completion client key i d = MultipartReady m"
  obtains f u where "v_file (view d i) = Some f" "f_client f = client" "f_state f = Pending" "f_part_size f \<noteq> None"
    "v_upload (view d i) = Some u" "s3_session key True u" "u_state u \<in> {Open, Completing}" "\<not> part_uploading d i"
    "m = \<lparr>mc_file = i, mc_state = u_state u, mc_expected_size = u_expected_size u, mc_expected_etag = u_expected_etag u\<rparr>"
  using assms(2) unfolding begin_multipart_completion_def
  by (auto simp: locked_file_view [OF assms(1)] session_view [OF assms(1)] split: option.splits if_splits)

lemma claim_single_Claimed:
  assumes "claim_single_completion now c d = (Inr CompletionClaimed, d')"
  obtains f u where "locked_file (sp_client c) (sp_file c) False d = Some f"
    "0 \<le> sp_expected_size c" "f_declared_size f = sp_expected_size c"
    "find (\<lambda>u. u_file u = sp_file c \<and> s3_session (sp_key c) False u) (uploads d) = Some u" "u_state u = Open"
    "d' = d\<lparr>leases := renew_write (now + secs (sp_ttl c)) (sp_file c) (leases d),
       uploads := update_where (\<lambda>u. u_file u = sp_file c \<and> u_protocol u = S3)
         (to_completing now (sp_expected_size c) (sp_expected_etag c)) (uploads d)\<rparr>"
proof (cases "locked_file (sp_client c) (sp_file c) False d")
  case None
  with assms show thesis by (simp add: claim_single_completion_def)
next
  case (Some f)
  note f = this
  have sz: "0 \<le> sp_expected_size c \<and> f_declared_size f = sp_expected_size c"
    using assms f by (simp add: claim_single_completion_def Let_def split: if_splits)
  show thesis
  proof (cases "find (\<lambda>u. u_file u = sp_file c \<and> s3_session (sp_key c) False u) (uploads d)")
    case None
    with assms f sz show thesis by (simp add: claim_single_completion_def Let_def)
  next
    case (Some u)
    with assms f sz show thesis
      by (cases "u_state u") (simp_all add: claim_single_completion_def Let_def resumes_def that split: if_splits)
  qed
qed

lemma claim_completion_cases:
  assumes "db_ok d" "claim_completion now c d = (r, d')"
  obtains (unclaimed) q where "r = Inr q" "q \<noteq> CompletionClaimed" "d' = d"
  | (claimed) f u where "r = Inr CompletionClaimed" "v_file (view d (sp_file c)) = Some f" "f_client f = sp_client c"
      "f_state f = Pending" "f_part_size f \<noteq> None \<longleftrightarrow> sp_multipart c"
      "v_upload (view d (sp_file c)) = Some u" "s3_session (sp_key c) (sp_multipart c) u" "u_state u = Open"
      "0 \<le> sp_expected_size c" "\<forall>p \<in> set (v_parts (view d (sp_file c))). lp_state p = PartDone"
      "\<not> sp_multipart c \<longrightarrow> f_declared_size f = sp_expected_size c"
      "at_file d (sp_file c) ((view d (sp_file c))\<lparr>v_leases := renew (now + secs (sp_ttl c)) (v_leases (view d (sp_file c))),
         v_upload := Some (to_completing now (sp_expected_size c) (sp_expected_etag c) u)\<rparr>) d'"
proof -
  note ok = db_okD(1) [OF assms(1)]
  let ?i = "sp_file c" and ?to = "to_completing now (sp_expected_size c) (sp_expected_etag c)"
  have changed: "at_file d ?i ((view d ?i)\<lparr>v_leases := renew (now + secs (sp_ttl c)) (v_leases (view d ?i)), v_upload := Some (?to u)\<rparr>)
      (d\<lparr>leases := renew_write (now + secs (sp_ttl c)) ?i (leases d),
         uploads := update_where (\<lambda>u. u_file u = ?i \<and> q u) ?to (uploads d)\<rparr>)"
    if "v_upload (view d ?i) = Some u" "q u" for u q
    unfolding at_file_def using ok that by (auto simp: at_file_simps)
  show thesis
  proof (cases "r = Inr CompletionClaimed")
    case False
    have "\<exists>q. r = Inr q" "d' = d"
      using False assms(2)
      by (auto simp: claim_completion_def claim_single_completion_def multipart_claim_def Let_def resumes_def
          split: if_splits option.splits upload_state.splits multipart_completion_start.splits)
    with False show thesis by (auto intro: unclaimed)
  next
    case won: True
    show thesis
    proof (cases "sp_multipart c")
      case True
      with won assms(2) obtain m where m: "begin_multipart_completion (sp_client c) (sp_key c) ?i d = MultipartReady m"
        and cl: "multipart_claim now m (sp_expected_size c) (sp_expected_etag c) (sp_ttl c) d = (Inr CompletionClaimed, d')"
        by (auto simp: claim_completion_def split: multipart_completion_start.splits)
      obtain f u where v: "v_file (view d ?i) = Some f" "f_client f = sp_client c" "f_state f = Pending" "f_part_size f \<noteq> None"
        "v_upload (view d ?i) = Some u" "s3_session (sp_key c) True u" "\<not> part_uploading d ?i"
        and mm: "m = \<lparr>mc_file = ?i, mc_state = u_state u, mc_expected_size = u_expected_size u, mc_expected_etag = u_expected_etag u\<rparr>"
        by (rule begin_multipart_Ready [OF ok m])
      from cl have c: "u_state u = Open" "0 \<le> sp_expected_size c"
        and d': "d' = d\<lparr>leases := renew_write (now + secs (sp_ttl c)) ?i (leases d),
           uploads := update_where (\<lambda>u. u_file u = ?i \<and> (u_protocol u = S3 \<and> u_state u = Open)) ?to (uploads d)\<rparr>"
        by (auto simp: multipart_claim_def mm Let_def resumes_def split: if_splits)
      have "\<forall>p \<in> set (v_parts (view d ?i)). lp_state p = PartDone"
        using parts_all_done [OF v(7)] by blast
      then show thesis
        using won True v c changed [OF v(5), of "\<lambda>u. u_protocol u = S3 \<and> u_state u = Open"]
        by (intro claimed [of f u]) (auto simp: s3_session_def d')
    next
      case False
      with won assms(2) have "claim_single_completion now c d = (Inr CompletionClaimed, d')"
        by (simp add: claim_completion_def)
      then obtain f u where f: "locked_file (sp_client c) ?i False d = Some f"
        and sz: "0 \<le> sp_expected_size c" "f_declared_size f = sp_expected_size c"
        and u: "find (\<lambda>u. u_file u = ?i \<and> s3_session (sp_key c) False u) (uploads d) = Some u" "u_state u = Open"
        and d': "d' = d\<lparr>leases := renew_write (now + secs (sp_ttl c)) ?i (leases d),
           uploads := update_where (\<lambda>u. u_file u = ?i \<and> u_protocol u = S3) ?to (uploads d)\<rparr>"
        by (rule claim_single_Claimed)
      from f u have v: "v_file (view d ?i) = Some f" "f_client f = sp_client c" "f_state f = Pending" "f_part_size f = None"
        "v_upload (view d ?i) = Some u" "s3_session (sp_key c) False u"
        unfolding locked_file_view [OF ok] session_view [OF ok] by auto
      have parts: "v_parts (view d ?i) = []" using db_okD(2) [OF assms(1), of ?i] v(1,4) by (simp add: view_ok_def)
      have pr: "u_protocol u = S3" using v(6) by (simp add: s3_session_def)
      show thesis
        by (rule claimed [of f u])
          (use won False v sz u(2) parts changed [where q = "\<lambda>u. u_protocol u = S3", OF v(5) pr] in \<open>simp_all add: d'\<close>)
    qed
  qed
qed

interpretation claim_completion: transaction "claim_completion now c" for now c
proof
  fix d r d'
  assume ok: "db_ok d" and run: "claim_completion now c d = (r, d')"
  have "sim d d' \<and> schema_ok d'"
    using ok run
  proof (cases rule: claim_completion_cases)
    case (claimed f u)
    let ?i = "sp_file c"
    let ?v = "(view d ?i)\<lparr>v_leases := renew (now + secs (sp_ttl c)) (v_leases (view d ?i))\<rparr>"
    let ?u = "to_completing now (sp_expected_size c) (sp_expected_etag c) u"
    have pr: "u_protocol u = S3" using claimed(7) by (simp add: s3_session_def)
    have "\<forall>l \<in> set (v_leases (view d ?i)). le_state l = Issued"
      by (rule open_leases_issued(1) [OF ok claimed(2,4)]) (use claimed(6,8) in simp)
    then have issued: "\<forall>l \<in> set (renew (now + secs (sp_ttl c)) (v_leases (view d ?i))). le_state l = Issued"
      using renew_states(3) [of _ _ "\<lambda>s. s = Issued"] by simp
    have "upload_ok f ?u"
      by (rule upload_ok_to_cleaning(3) [OF view_upload_ok [OF ok claimed(2,6)] pr claimed(9)])
    then have "vstep ?v (?v\<lparr>v_upload := Some ?u\<rparr>)"
      by (intro vstep.own [where f = f]) (use claimed issued in auto)
    with vstep_renew [of "view d ?i" "now + secs (sp_ttl c)"]
    have "vstep\<^sup>*\<^sup>* (view d ?i) (?v\<lparr>v_upload := Some ?u\<rparr>)" by (meson r_into_rtranclp rtranclp_trans)
    with at_file_moves claimed(12) show ?thesis by simp
  qed (use ok in \<open>simp add: db_okD\<close>)
  then show "sim d d'" "schema_ok d'" by auto
next
  fix d e d'
  assume run: "claim_completion now c d = (Inl e, d')"
  then show "d'\<lparr>row_locks := row_locks d\<rparr> = d"
    by (auto simp: claim_completion_def claim_single_completion_def multipart_claim_def Let_def resumes_def
        split: if_splits option.splits upload_state.splits multipart_completion_start.splits)
qed

section \<open>Creating a session\<close>

lemma open_upload_simps [simp]:
  "u_file (open_upload now i key m inm) = i" "u_state (open_upload now i key m inm) = Open"
  "u_protocol (open_upload now i key m inm) = S3" "u_key (open_upload now i key m inm) = Some key"
  "u_multipart (open_upload now i key m inm) = m" "u_if_none_match (open_upload now i key m inm) = inm"
  by (simp_all add: open_upload_def)

lemma create_upload_cases:
  assumes "db_ok d" "create_upload ut ym now i l c key inm d = (r, d')"
  obtains (unchanged) "d' = d" "\<forall>f. r \<noteq> Inr (Created f)"
  | (session) st f where "owned_storage d (cs_client c) = Some st" "r = Inr (Created f)"
      "f = \<lparr>cf_file_id = i, cf_lease_id = l,
         cf_object_key = object_key ut ym (cs_client c) i (cs_content_type c) now, cf_storage = st\<rparr>"
      "fresh_rows (new_file now i c)
           \<lparr>l_file = i, l_storage = st_id st, l_object_key = object_key ut ym (cs_client c) i (cs_content_type c) now\<rparr>
           (new_lease now (now + secs (cs_lease_ttl_secs c)) l i Write None)
           [open_upload now i key (cs_part_size c \<noteq> None) inm] d"
      "d' = with_file (new_file now i c)
         \<lparr>l_file = i, l_storage = st_id st, l_object_key = object_key ut ym (cs_client c) i (cs_content_type c) now\<rparr>
         (new_lease now (now + secs (cs_lease_ttl_secs c)) l i Write None)
         [open_upload now i key (cs_part_size c \<noteq> None) inm]
         \<lparr>h_at = now, h_file = i, h_storage = st_id st, h_client = cs_client c, h_kind = Write,
          h_size = cs_declared_size c\<rparr> d"
proof -
  obtain r1 d1 where run1: "create_in_tx ut ym now i l c d = (r1, d1)" by fastforce
  from run1 show thesis
  proof (cases rule: create_in_tx_cases)
    case (failed e)
    with assms(2) run1 show thesis by (intro unchanged) (auto simp: create_upload_def)
  next
    case no_client
    with assms(2) run1 show thesis by (intro unchanged) (auto simp: create_upload_def)
  next
    case (created st)
    let ?u = "open_upload now i key (cs_part_size c \<noteq> None) inm"
    have up: "upload_ok (new_file now i c) ?u"
      by (simp add: upload_ok_def upload_check_def open_upload_def)
    have fr: "fresh_rows (new_file now i c)
           \<lparr>l_file = i, l_storage = st_id st, l_object_key = object_key ut ym (cs_client c) i (cs_content_type c) now\<rparr>
           (new_lease now (now + secs (cs_lease_ttl_secs c)) l i Write None) [?u] d"
      by (rule created(3)) (use up in simp_all)
    have "i \<notin> u_file ` set (uploads d)"
      using fresh_rowsD(1) [OF fr] schema_okD(10) [OF db_okD(1) [OF assms(1)]] by auto
    then have "\<not> has_upload d1 i"
      by (auto simp: created(4) with_file_def has_upload_def exists_where_iff)
    with assms(2) run1 created(2)
    have r: "r = Inr (Created \<lparr>cf_file_id = i, cf_lease_id = l,
         cf_object_key = object_key ut ym (cs_client c) i (cs_content_type c) now, cf_storage = st\<rparr>)"
      and d': "d' = d1\<lparr>uploads := uploads d1 @ [?u]\<rparr>"
      by (simp_all add: create_upload_def)
    show thesis
      by (rule session [OF created(1) r refl fr]) (simp add: d' created(4) with_file_def)
  qed
qed

interpretation create_upload: transaction "create_upload ut ym now i l c key inm" for ut ym now i l c key inm
proof
  fix d r d'
  assume ok: "db_ok d" and run: "create_upload ut ym now i l c key inm d = (r, d')"
  have "sim d d' \<and> schema_ok d'"
    using ok run
  proof (cases rule: create_upload_cases)
    case unchanged
    with ok show ?thesis by (simp add: db_okD)
  next
    case (session st f)
    note S = db_okD(1) [OF ok]
    have "v_file (view d i) = None"
      using fresh_rowsD(1) [OF session(4)] by (simp add: find_fresh)
    then show ?thesis
      using with_file_is_a_move [OF S session(4)] schema_with_file [OF S session(4)] by (simp add: session(5))
  qed
  then show "sim d d'" "schema_ok d'" by auto
next
  fix d e d'
  assume "create_upload ut ym now i l c key inm d = (Inl e, d')"
  then have "d' = d" by (auto simp: create_upload_def Let_def split: prod.splits sum.splits create_outcome.splits if_splits)
  then show "d'\<lparr>row_locks := row_locks d\<rparr> = d" by simp
qed

section \<open>Parts as moves\<close>

lemma locked_multipart: "locked_file client i True d \<noteq> None \<Longrightarrow> pending_multipart d i"
  by (auto simp: locked_file_def pending_multipart_def exists_where_iff find_where_None)

lemma claim_upload_part_cases:
  assumes "claim_upload_part now client key i lease n ttl d = (r, d')"
  obtains (unchanged) "r \<noteq> Inr Claimed" "d' = d"
  | (claimed) d1 l where "r = Inr Claimed" "lease_touch d d1" "lease_parts d1 = lease_parts d"
      "files d1 = files d" "uploads d1 = uploads d"
      "locked_file client i True d \<noteq> None" "exists_where (\<lambda>u. u_file u = i \<and> open_session key u) (uploads d)" "1 \<le> n"
      "upsert_claim lease n (lease_parts d1) = Some (lease_parts d')" "d' = d1\<lparr>lease_parts := lease_parts d'\<rparr>"
      "l \<in> set (leases d1)" "le_id l = lease" "le_file l = i" "le_kind l = Write" "now + secs ttl \<le> le_expires_at l"
proof -
  define hit where "hit = (\<lambda>l :: lease_row. le_id l = lease \<and> le_file l = i \<and> le_kind l = Write \<and> le_state l = Issued \<and>
                  now < le_expires_at l)"
  define d1 where "d1 = d\<lparr>leases := update_where hit (extend_lease (now + secs ttl)) (leases d)\<rparr>"
  note defs = claim_upload_part_def Let_def hit_def [symmetric] d1_def [symmetric]
  show thesis
  proof (cases "r = Inr Claimed")
    case False
    with assms show thesis
      by (intro unchanged) (auto simp: defs split: if_splits option.splits)
  next
    case True
    with assms obtain P where P: "locked_file client i True d \<noteq> None"
      "exists_where (\<lambda>u. u_file u = i \<and> open_session key u) (uploads d)" "count_where hit (leases d) \<noteq> 0" "1 \<le> n"
      "upsert_claim lease n (lease_parts d1) = Some P" "d' = d1\<lparr>lease_parts := P\<rparr>"
      by (auto simp: defs split: if_splits option.splits)
    from P(3) obtain l where l: "l \<in> set (leases d)" "hit l" by (auto simp: count_where_0)
    have "extend_lease (now + secs ttl) l \<in> set (leases d1)"
      using l unfolding d1_def by (auto simp: set_update_where)
    moreover have "lease_touch d d1" unfolding d1_def by (rule lease_touchI) simp
    ultimately show thesis
      using True P l by (intro claimed [of d1 "extend_lease (now + secs ttl) l"]) (auto simp: d1_def hit_def)
  qed
qed

lemma open_session_not_completing:
  assumes "schema_ok d" "exists_where (\<lambda>u. u_file u = i \<and> open_session key u) (uploads d)"
  shows "\<not> completing (v_upload (view d i))"
  using assms(2) unfolding upload_exists [OF assms(1)] by (auto simp: open_session_def)

interpretation claim_upload_part: transaction "claim_upload_part now client key i lease n ttl"
  for now client key i lease n ttl
proof
  fix d r d'
  assume ok: "db_ok d" and run: "claim_upload_part now client key i lease n ttl d = (r, d')"
  from run have "sim d d' \<and> schema_ok d'"
  proof (cases rule: claim_upload_part_cases)
    case (claimed d1 l)
    note nc = open_session_not_completing [OF db_okD(1) [OF ok] claimed(7)]
    from claim_moves [OF ok claimed(2) claimed(9,8) claimed(11-14) nc locked_multipart [OF claimed(6)]] claimed(10)
    show ?thesis by simp
  qed (use ok in \<open>simp add: db_okD\<close>)
  then show "sim d d'" "schema_ok d'" by auto
next
  fix d e d'
  assume "claim_upload_part now client key i lease n ttl d = (Inl e, d')"
  then show "d'\<lparr>row_locks := row_locks d\<rparr> = d" by (cases rule: claim_upload_part_cases) auto
qed

interpretation renew_upload_part_lease: transaction "renew_upload_part_lease now i lease n ttl" for now i lease n ttl
  by (rule touch_transaction)
    (auto simp: renew_upload_part_lease_def Let_def same_identity_def split: if_splits intro: lease_touchI)

interpretation finish_upload_part: transaction "finish_upload_part i lease n sz md5" for i lease n sz md5
  by (rule guarded_transaction [OF record_done_transaction [of i lease n sz md5], where x = "Inr False" and
      g = "\<lambda>d. pending d i \<and> exists_where (\<lambda>u. u_file u = i \<and> (u_protocol u = S3 \<and> u_multipart u \<and> u_state u = Open)) (uploads d)"])
    (simp add: finish_upload_part_def)

interpretation cancel_upload_part: transaction "cancel_upload_part i lease n" for i lease n
  unfolding cancel_upload_part_def [abs_def] by (rule give_back_transaction)

interpretation s3_part: part_upload i lease n "claim_upload_part now client key i lease n ttl"
    "finish_upload_part i lease n" "cancel_upload_part i lease n" for i lease n now client key ttl
proof
  fix d d1
  assume ok: "db_ok d" and run: "claim_upload_part now client key i lease n ttl d = (Inr Claimed, d1)"
  from run show "db_ok d1 \<and> upsert_claim lease n (lease_parts d) = Some (lease_parts d1) \<and>
      (\<exists>l \<in> set (leases d1). le_id l = lease \<and> le_file l = i \<and> le_kind l = Write) \<and>
      (\<forall>sz md5. 0 \<le> sz \<longrightarrow> finish_upload_part i lease n sz md5 d1 = record_done i lease n sz md5 d1)"
  proof (cases rule: claim_upload_part_cases)
    case (claimed e l)
    have same: "files d1 = files d" "leases d1 = leases e" "uploads d1 = uploads d"
      using claimed(10,4,5) by (cases d1; cases e; simp)+
    have "pending d1 i"
      using locked_multipart [OF claimed(6)] by (auto simp: pending_def pending_multipart_def exists_where_iff same)
    moreover have "exists_where (\<lambda>u. u_file u = i \<and> (u_protocol u = S3 \<and> u_multipart u \<and> u_state u = Open)) (uploads d1)"
      using claimed(7) by (auto simp: same open_session_def s3_session_def exists_where_iff)
    ultimately show ?thesis
      using claimed same claim_upload_part.keeps_db_ok [OF ok run] by (auto simp: finish_upload_part_def)
  qed simp
qed (auto simp: cancel_upload_part_def elim: claim_upload_part_cases)

section \<open>Abort and expiry as moves\<close>

lemma claim_abort_cases:
  assumes "db_ok d" "claim_abort now client key i d = (r, d')"
  obtains (refused) q where "r = Inr q" "q \<noteq> AbortClaimed" "d' = d"
  | (claimed) f u where "r = Inr AbortClaimed" "v_file (view d i) = Some f" "f_client f = client" "f_state f = Pending"
      "f_part_size f \<noteq> None" "v_upload (view d i) = Some u" "open_session key u" "\<not> part_uploading d i"
      "at_file d i ((view d i)\<lparr>v_upload := Some (u\<lparr>u_state := Cleaning, u_recovery_after := now\<rparr>)\<rparr>) d'"
proof -
  note ok = db_okD(1) [OF assms(1)]
  show thesis
  proof (cases "r = Inr AbortClaimed")
    case False
    with assms(2) show thesis
      by (cases r) (auto simp: claim_abort_def Let_def split: if_splits intro: refused)
  next
    case True
    with assms(2) have c: "locked_file client i True d \<noteq> None" "exists_where (\<lambda>u. u_file u = i \<and> open_session key u) (uploads d)"
      "\<not> part_uploading d i" and d': "d' = d\<lparr>uploads := update_where (\<lambda>u. u_file u = i \<and> open_session key u)
             (\<lambda>u. u\<lparr>u_state := Cleaning, u_recovery_after := now\<rparr>) (uploads d)\<rparr>"
      by (auto simp: claim_abort_def Let_def split: if_splits)
    obtain f where lf: "locked_file client i True d = Some f" using c(1) by blast
    then have f: "v_file (view d i) = Some f" "f_client f = client" "f_state f = Pending" "f_part_size f \<noteq> None"
      unfolding locked_file_view [OF ok] by auto
    obtain u where u: "v_upload (view d i) = Some u" "open_session key u"
      using c(2) unfolding upload_exists [OF ok] by blast
    have "at_file d i ((view d i)\<lparr>v_upload := Some (u\<lparr>u_state := Cleaning, u_recovery_after := now\<rparr>)\<rparr>) d'"
      unfolding d' at_file_def using ok u by (auto simp: at_file_simps)
    with True f u c(3) show thesis by (intro claimed)
  qed
qed

interpretation claim_abort: transaction "claim_abort now client key i" for now client key i
proof
  fix d r d'
  assume ok: "db_ok d" and run: "claim_abort now client key i d = (r, d')"
  have "sim d d' \<and> schema_ok d'"
    using ok run
  proof (cases rule: claim_abort_cases)
    case (claimed f u)
    have up: "upload_ok f (u\<lparr>u_state := Cleaning, u_recovery_after := now\<rparr>)"
      by (rule upload_ok_to_cleaning(2) [OF view_upload_ok [OF ok claimed(2,6)]])
        (use claimed(7) in \<open>simp_all add: open_session_def s3_session_def\<close>)
    have "vstep (view d i) ((view d i)\<lparr>v_upload := Some (u\<lparr>u_state := Cleaning, u_recovery_after := now\<rparr>),
         v_leases := settle Issued (v_leases (view d i))\<rparr>)"
      by (rule vstep.clean [where f = f])
        (use claimed up in \<open>auto simp: open_session_def s3_session_def\<close>)
    with claimed(9) show ?thesis by (intro at_file_move) (auto simp: view_def)
  qed (use ok in \<open>simp add: db_okD\<close>)
  then show "sim d d'" "schema_ok d'" by auto
qed (auto simp: claim_abort_def Let_def split: if_splits)

text \<open>Settling only the expired leases of a file whose lease has expired settles all of them.\<close>

lemma expire_all:
  assumes "view_ok (view d i)" "count_where (\<lambda>l. issued_write i l \<and> le_expires_at l < now) (leases d) \<noteq> 0"
  shows "update_where (\<lambda>l. issued_write i l \<and> le_expires_at l < now) u (leases d) = update_where (issued_write i) u (leases d)"
    "\<exists>l. v_leases (view d i) = [l] \<and> le_state l = Issued \<and> le_expires_at l < now"
proof -
  obtain l where l: "l \<in> set (leases d)" "issued_write i l" "le_expires_at l < now"
    using assms(2) by (auto simp: count_where_0)
  then have "l \<in> set (write_leases d i)" by (simp add: in_write_leases issued_write_def)
  with assms(1) have one: "write_leases d i = [l]" by (rule write_lease_unique)
  then show "\<exists>l. v_leases (view d i) = [l] \<and> le_state l = Issued \<and> le_expires_at l < now"
    using l by (simp add: issued_write_def)
  have "m = l" if "m \<in> set (leases d)" "issued_write i m" for m
  proof -
    have "m \<in> set (write_leases d i)" using that by (simp add: in_write_leases issued_write_def)
    with one show ?thesis by simp
  qed
  with l(3) show "update_where (\<lambda>l. issued_write i l \<and> le_expires_at l < now) u (leases d) = update_where (issued_write i) u (leases d)"
    unfolding update_where_def by (intro map_cong) auto
qed

lemma claim_expired_abort_cases:
  assumes "db_ok d" "claim_expired_abort now i d = (r, d')"
  obtains (refused) "r = Inr False" "d' = d"
  | (claimed) f u l where "r = Inr True" "v_file (view d i) = Some f" "f_state f = Pending"
      "v_upload (view d i) = Some u" "in_state S3 Open u" "v_leases (view d i) = [l]" "le_expires_at l < now"
      "at_file d i ((view d i)\<lparr>v_upload := Some (u\<lparr>u_state := Cleaning, u_recovery_after := now\<rparr>),
         v_leases := settle Expired (v_leases (view d i))\<rparr>) d'"
proof -
  note ok = db_okD(1) [OF assms(1)]
  show thesis
  proof (cases "r = Inr True")
    case False
    with assms(2) show thesis
      by (intro refused) (auto simp: claim_expired_abort_def Let_def split: if_splits)
  next
    case True
    with assms(2) have c: "pending d i" "exists_where (\<lambda>u. u_file u = i \<and> in_state S3 Open u) (uploads d)"
      and e: "count_where (\<lambda>l. issued_write i l \<and> le_expires_at l < now) (leases d) \<noteq> 0"
      and d'0: "d' = d\<lparr>leases := update_where (\<lambda>l. issued_write i l \<and> le_expires_at l < now) (\<lambda>l. l\<lparr>le_state := Expired\<rparr>) (leases d),
             uploads := update_where (s3_row i) (\<lambda>u. u\<lparr>u_state := Cleaning, u_recovery_after := now\<rparr>) (uploads d)\<rparr>"
      by (auto simp: claim_expired_abort_def Let_def split: if_splits)
    have d': "d' = d\<lparr>leases := settle_write Expired i (leases d),
             uploads := update_where (\<lambda>u. u_file u = i \<and> u_protocol u = S3) (\<lambda>u. u\<lparr>u_state := Cleaning, u_recovery_after := now\<rparr>) (uploads d)\<rparr>"
      unfolding d'0 expire_all(1) [OF db_okD(2) [OF assms(1)] e] s3_row_fun settle_write_def ..
    obtain f where f: "v_file (view d i) = Some f" "f_state f = Pending"
      using c(1) unfolding pending_view [OF ok] by blast
    obtain u where u: "v_upload (view d i) = Some u" "in_state S3 Open u"
      using c(2) unfolding upload_exists [OF ok] by blast
    obtain l where l: "v_leases (view d i) = [l]" "le_expires_at l < now"
      using expire_all(2) [OF db_okD(2) [OF assms(1)] e] by blast
    have "at_file d i ((view d i)\<lparr>v_upload := Some (u\<lparr>u_state := Cleaning, u_recovery_after := now\<rparr>),
         v_leases := settle Expired (v_leases (view d i))\<rparr>) d'"
      unfolding d' at_file_def using ok u by (auto simp: at_file_simps in_state_def)
    with True f u l show thesis by (intro claimed)
  qed
qed

interpretation claim_expired_abort: transaction "claim_expired_abort now i" for now i
proof
  fix d r d'
  assume ok: "db_ok d" and run: "claim_expired_abort now i d = (r, d')"
  have "sim d d' \<and> schema_ok d'"
    using ok run
  proof (cases rule: claim_expired_abort_cases)
    case (claimed f u l)
    have up: "upload_ok f (u\<lparr>u_state := Cleaning, u_recovery_after := now\<rparr>)"
      by (rule upload_ok_to_cleaning(2) [OF view_upload_ok [OF ok claimed(2,4)]])
        (use claimed(5) in \<open>simp_all add: in_state_def\<close>)
    have "vstep (view d i) ((view d i)\<lparr>v_upload := Some (u\<lparr>u_state := Cleaning, u_recovery_after := now\<rparr>),
         v_leases := settle Expired (v_leases (view d i))\<rparr>)"
      by (rule vstep.clean [where f = f]) (use claimed up in auto)
    with claimed(8) show ?thesis by (rule at_file_move)
  qed (use ok in \<open>simp add: db_okD\<close>)
  then show "sim d d'" "schema_ok d'" by auto
qed (auto simp: claim_expired_abort_def Let_def split: if_splits)

lemma finalize_reclaimed_cases:
  assumes "db_ok d" "finalize_reclaimed_upload i st d = (r, d')"
  obtains (refused) "r = Inr False" "d' = d" "\<forall>u. v_upload (view d i) = Some u \<longrightarrow> \<not> in_state S3 st u"
  | (reclaimed) f u where "r = Inr True" "v_file (view d i) = Some f" "f_state f = Pending"
      "v_upload (view d i) = Some u" "in_state S3 st u" "v_loc (view d i) \<noteq> None"
      "at_file d i ((view d i)\<lparr>v_file := Some (f\<lparr>f_state := Reclaimed\<rparr>), v_loc := None,
         v_leases := settle Expired (v_leases (view d i)), v_upload := None\<rparr>) d'"
proof -
  note ok = db_okD(1) [OF assms(1)]
  let ?q = "\<lambda>f. f_state f = Pending \<and> exists_where (\<lambda>u. u_file u = i \<and> in_state S3 st u) (uploads d)"
  show thesis
  using ok
  proof (cases rule: file_hit_cases [where i = i and q = ?q])
    case no_row
    have "\<not> in_state S3 st u" if u: "v_upload (view d i) = Some u" for u
    proof
      assume st: "in_state S3 st u"
      obtain f where f: "v_file (view d i) = Some f" "f_state f = Pending"
        using db_okD(2) [OF assms(1), of i] u by (rule view_ok_upload)
      have "?q f" unfolding upload_exists [OF ok] using f(2) u st by blast
      moreover have "\<not> ?q f" using f(1) by (intro no_row(2)) simp
      ultimately show False by blast
    qed
    with assms(2) no_row(1) show thesis by (intro refused) (auto simp: finalize_reclaimed_upload_def Let_def)
  next
    case (one_row f)
    then obtain u where u: "v_upload (view d i) = Some u" "in_state S3 st u"
      using upload_exists [OF ok, of i "in_state S3 st"] by auto
    have d': "r = Inr True" "d' = d\<lparr>files := update_where (\<lambda>f. f_id f = i \<and> ?q f) (\<lambda>f. f\<lparr>f_state := Reclaimed\<rparr>) (files d),
        leases := settle_write Expired i (leases d),
        locations := delete_where (\<lambda>l. l_file l = i) (locations d),
        uploads := delete_where (\<lambda>u. u_file u = i \<and> u_protocol u = S3) (uploads d)\<rparr>"
      using assms(2) one_row(1) by (simp_all add: finalize_reclaimed_upload_def Let_def s3_row_fun)
    have "at_file d i ((view d i)\<lparr>v_file := Some (f\<lparr>f_state := Reclaimed\<rparr>), v_loc := None,
         v_leases := settle Expired (v_leases (view d i)), v_upload := None\<rparr>) d'"
      unfolding d' at_file_def using ok one_row u by (auto simp: at_file_simps in_state_def split: option.splits)
    moreover have "v_loc (view d i) \<noteq> None"
      using db_okD(2) [OF assms(1), of i] one_row(2,3) by (simp add: view_ok_def)
    ultimately show thesis using d'(1) one_row u by (intro reclaimed [of f u]) auto
  qed
qed

lemma finalize_reclaimed_transaction: "st \<noteq> Completing \<Longrightarrow> transaction (finalize_reclaimed_upload i st)"
proof
  fix d r d'
  assume st: "st \<noteq> Completing" and ok: "db_ok d" and run: "finalize_reclaimed_upload i st d = (r, d')"
  have "sim d d' \<and> schema_ok d'"
    using ok run
  proof (cases rule: finalize_reclaimed_cases)
    case (reclaimed f u)
    have "vstep (view d i) ((view d i)\<lparr>v_file := Some (f\<lparr>f_state := Reclaimed\<rparr>), v_loc := None,
        v_leases := settle Expired (v_leases (view d i)), v_upload := None\<rparr>)"
      by (rule vstep.reclaim_drop) (use reclaimed st in \<open>auto simp: in_state_def\<close>)
    with reclaimed(7) show ?thesis by (rule at_file_move)
  qed (use ok in \<open>simp add: db_okD\<close>)
  then show "sim d d'" "schema_ok d'" by auto
qed (auto simp: finalize_reclaimed_upload_def Let_def split: if_splits)

interpretation finalize_abort: transaction "finalize_abort i" for i
  unfolding finalize_abort_def by (rule finalize_reclaimed_transaction) simp

interpretation discard_unstarted: transaction "discard_unstarted_upload i" for i
  unfolding discard_unstarted_upload_def by (rule finalize_reclaimed_transaction) simp

interpretation s3_cleanup: metadata_release db_ok "finalize_abort i" "address_recorded i" for i
proof
  fix d d'
  assume ok: "db_ok d" and run: "finalize_abort i d = (Inr True, d')"
  from ok run [unfolded finalize_abort_def] show "address_recorded i d \<and> \<not> address_recorded i d'"
    by (cases rule: finalize_reclaimed_cases) (auto simp: address_recorded_view at_file_fields)
qed (auto simp: finalize_abort_def finalize_reclaimed_upload_def Let_def split: if_splits)

section \<open>Recovery as moves\<close>

interpretation s3_renew_completion: transaction "s3_renew_completion_lease now i ttl" for now i ttl
  unfolding s3_renew_completion_lease_def by (rule renew_completion_transaction)

lemma s3_reopen_cases:
  assumes "db_ok d" "s3_reopen_completion now i ttl d = (r, d')"
  obtains (refused) "r = Inr False" "d' = d" "\<not> s3_lock_expired_completion now i d"
  | (reopened) f u l where "r = Inr True" "v_file (view d i) = Some f" "f_state f = Pending"
      "v_upload (view d i) = Some u" "in_state S3 Completing u" "v_leases (view d i) = [l]"
      "le_state l = Issued" "le_expires_at l < now"
      "at_file d i ((view d i)\<lparr>v_leases := renew (now + secs ttl) (v_leases (view d i)),
         v_upload := Some (u\<lparr>u_state := Open, u_expected_size := None, u_expected_etag := None, u_recovery_after := now\<rparr>)\<rparr>) d'"
proof -
  note ok = db_okD(1) [OF assms(1)]
  show thesis
  proof (cases "s3_lock_expired_completion now i d")
    case False
    with assms(2) show thesis by (intro refused) (auto simp: s3_reopen_completion_def)
  next
    case True
    then obtain f u l where v: "v_file (view d i) = Some f" "f_state f = Pending"
      "v_upload (view d i) = Some u" "in_state S3 Completing u" "v_leases (view d i) = [l]"
      "le_state l = Issued" "le_expires_at l < now"
      unfolding s3_lock_expired_completion_def lock_expired_view [OF assms(1)] by blast
    have c: "count_where (\<lambda>u. u_file u = i \<and> in_state S3 Completing u) (uploads d) \<noteq> 0"
      unfolding upload_count [OF ok] using v(3,4) by blast
    have n: "count_where (issued_write i) (leases d) \<noteq> 0"
      using v(5,6) unfolding issued_count by auto
    from c n assms(2) True have d': "r = Inr True" "d' = d\<lparr>uploads := update_where (\<lambda>u. u_file u = i \<and> in_state S3 Completing u)
          (\<lambda>u. u\<lparr>u_state := Open, u_expected_size := None, u_expected_etag := None, u_recovery_after := now\<rparr>) (uploads d),
        leases := renew_write (now + secs ttl) i (leases d)\<rparr>"
      by (simp_all add: s3_reopen_completion_def Let_def)
    have "at_file d i ((view d i)\<lparr>v_leases := renew (now + secs ttl) (v_leases (view d i)),
        v_upload := Some (u\<lparr>u_state := Open, u_expected_size := None, u_expected_etag := None, u_recovery_after := now\<rparr>)\<rparr>) d'"
      unfolding d' at_file_def using ok v by (auto simp: at_file_simps)
    with d'(1) v show thesis by (intro reopened)
  qed
qed

interpretation s3_reopen: transaction "s3_reopen_completion now i ttl" for now i ttl
proof
  fix d r d'
  assume ok: "db_ok d" and run: "s3_reopen_completion now i ttl d = (r, d')"
  have "sim d d' \<and> schema_ok d'"
    using ok run
  proof (cases rule: s3_reopen_cases)
    case (reopened f u l)
    let ?u = "u\<lparr>u_state := Open, u_expected_size := None, u_expected_etag := None, u_recovery_after := now\<rparr>"
    have "upload_ok f ?u"
      by (rule upload_ok_to_cleaning(4) [OF view_upload_ok [OF ok reopened(2,4)]]) (use reopened(5) in \<open>simp add: in_state_def\<close>)
    then have "vstep\<^sup>*\<^sup>* (view d i) ((view d i)\<lparr>v_leases := renew (now + secs ttl) (v_leases (view d i)), v_upload := Some ?u\<rparr>)"
      by (intro renewed_reopen_move [where f = f]) (use reopened in \<open>auto simp: in_state_def\<close>)
    with reopened(9) show ?thesis by (rule at_file_moves)
  qed (use ok in \<open>simp add: db_okD\<close>)
  then show "sim d d'" "schema_ok d'" by auto
qed (auto simp: s3_reopen_completion_def Let_def split: if_splits)

lemma mark_aborting_cases:
  assumes "db_ok d" "mark_completion_aborting now i d = (r, d')"
  obtains (refused) "r = Inr False" "d' = d" "\<not> s3_lock_expired_completion now i d"
  | (marked) f u l where "r = Inr True" "v_file (view d i) = Some f" "f_state f = Pending"
      "v_upload (view d i) = Some u" "in_state S3 Completing u" "v_leases (view d i) = [l]"
      "le_state l = Issued" "le_expires_at l < now"
      "at_file d i ((view d i)\<lparr>v_upload := Some (to_cleaning now u)\<rparr>) d'"
proof -
  note ok = db_okD(1) [OF assms(1)]
  show thesis
  proof (cases "s3_lock_expired_completion now i d")
    case False
    with assms(2) show thesis by (intro refused) (auto simp: mark_completion_aborting_def)
  next
    case True
    then obtain f u l where v: "v_file (view d i) = Some f" "f_state f = Pending"
      "v_upload (view d i) = Some u" "in_state S3 Completing u" "v_leases (view d i) = [l]"
      "le_state l = Issued" "le_expires_at l < now"
      unfolding s3_lock_expired_completion_def lock_expired_view [OF assms(1)] by blast
    have c: "count_where (\<lambda>u. u_file u = i \<and> in_state S3 Completing u) (uploads d) \<noteq> 0"
      unfolding upload_count [OF ok] using v(3,4) by blast
    with assms(2) True have d': "r = Inr True" "d' = d\<lparr>uploads := update_where (\<lambda>u. u_file u = i \<and> in_state S3 Completing u)
          (to_cleaning now) (uploads d)\<rparr>"
      by (simp_all add: mark_completion_aborting_def Let_def)
    have "at_file d i ((view d i)\<lparr>v_upload := Some (to_cleaning now u)\<rparr>) d'"
      unfolding d' at_file_def using ok v by (auto simp: at_file_simps)
    with d'(1) v show thesis by (intro marked)
  qed
qed

interpretation mark_aborting: transaction "mark_completion_aborting now i" for now i
proof
  fix d r d'
  assume ok: "db_ok d" and run: "mark_completion_aborting now i d = (r, d')"
  have "sim d d' \<and> schema_ok d'"
    using ok run
  proof (cases rule: mark_aborting_cases)
    case (marked f u l)
    have up: "upload_ok f (to_cleaning now u)"
      by (rule upload_ok_to_cleaning(1) [OF view_upload_ok [OF ok marked(2,4)]]) (use marked(5) in \<open>simp add: in_state_def\<close>)
    have "vstep (view d i) ((view d i)\<lparr>v_upload := Some (to_cleaning now u), v_leases := settle Issued (v_leases (view d i))\<rparr>)"
      by (rule vstep.clean [where f = f]) (use marked up in \<open>auto simp: in_state_def\<close>)
    with marked(9) show ?thesis by (intro at_file_move) (auto simp: view_def)
  qed (use ok in \<open>simp add: db_okD\<close>)
  then show "sim d d'" "schema_ok d'" by auto
qed (auto simp: mark_completion_aborting_def Let_def split: if_splits)

section \<open>Publication as a move\<close>

lemma upsert_key_uploads:
  "upsert_key_in_tx now c k i (d\<lparr>uploads := U\<rparr>) = (case upsert_key_in_tx now c k i d of (r, d') \<Rightarrow> (r, d'\<lparr>uploads := U\<rparr>))"
  by (auto simp: upsert_key_in_tx_def insert_key_in_tx_def Let_def get_key_def detach_active_def split: option.splits)

lemma upsert_key_keeps_uploads: "upsert_key_in_tx now c k i d = (r, d') \<Longrightarrow> uploads d' = uploads d"
  by (auto simp: upsert_key_in_tx_def insert_key_in_tx_def Let_def detach_active_def split: option.splits if_splits)

definition activated :: "timestamp \<Rightarrow> uuid \<Rightarrow> int \<Rightarrow> string \<Rightarrow> db \<Rightarrow> db" where
  "activated now i sz etag d = d\<lparr>files := update_where (\<lambda>f. f_id f = i)
       (\<lambda>f. f\<lparr>f_state := Active, f_declared_size := sz, f_etag := Some etag, f_committed_at := Some now\<rparr>) (files d),
     leases := settle_write Committed i (leases d), uploads := delete_where (s3_row i) (uploads d)\<rparr>"

lemma publish_activated:
  "publish now c k i sz etag inm d =
    (if inm then (Inr (Finalized None), activated now i sz etag d)
     else case upsert_key_in_tx now c k i (activated now i sz etag d) of
        (Inl e, d') \<Rightarrow> (Inl e, d'\<lparr>uploads := uploads d\<rparr>)
      | (Inr gone, d') \<Rightarrow> (Inr (Finalized gone), d'))"
proof -
  define d2 where "d2 = d\<lparr>files := update_where (\<lambda>f. f_id f = i)
       (\<lambda>f. f\<lparr>f_state := Active, f_declared_size := sz, f_etag := Some etag, f_committed_at := Some now\<rparr>) (files d),
     leases := settle_write Committed i (leases d)\<rparr>"
  have A: "activated now i sz etag d = d2\<lparr>uploads := delete_where (s3_row i) (uploads d)\<rparr>" and u: "uploads d2 = uploads d"
    by (simp_all add: activated_def d2_def)
  obtain r d3 where run: "upsert_key_in_tx now c k i d2 = (r, d3)" by fastforce
  have u3: "uploads d3 = uploads d" using upsert_key_keeps_uploads [OF run] u by simp
  have p: "publish now c k i sz etag inm d = (case (if inm then (Inr None, d2) else upsert_key_in_tx now c k i d2) of
           (Inl e, d3) \<Rightarrow> (Inl e, d3)
         | (Inr gone, d3) \<Rightarrow> (Inr (Finalized gone), d3\<lparr>uploads := delete_where (s3_row i) (uploads d3)\<rparr>))"
    by (simp add: publish_def Let_def d2_def)
  have "d3 = d3\<lparr>uploads := uploads d\<rparr>" using u3 by simp
  then show ?thesis
    unfolding p A upsert_key_uploads run by (cases r) (simp_all add: u u3)
qed

lemma activated_at:
  assumes "schema_ok d" "v_file (view d i) = Some f" "v_upload (view d i) = Some u" "u_protocol u = S3"
  shows "at_file d i ((view d i)\<lparr>v_file := Some (f\<lparr>f_state := Active, f_declared_size := sz, f_etag := Some etag,
      f_committed_at := Some now\<rparr>), v_leases := settle Committed (v_leases (view d i)), v_upload := None\<rparr>)
    (activated now i sz etag d)"
proof -
  have fu: "update_where (\<lambda>f. f_id f = i) g F = update_where (\<lambda>f. f_id f = i \<and> True) g F" for g :: "file_row \<Rightarrow> file_row" and F
    by simp
  show ?thesis
    unfolding at_file_def activated_def s3_row_fun fu using assms
    by (auto simp del: simp_thms(21) simp: at_file_simps split: option.splits)
qed

lemma activated_move:
  assumes "db_ok d" "v_file (view d i) = Some f" "f_state f = Pending" "v_upload (view d i) = Some u"
    "u_protocol u = S3" "u_state u = Completing" "0 \<le> sz"
  shows "sim d (activated now i sz etag d) \<and> schema_ok (activated now i sz etag d)"
proof -
  have "vstep (view d i) ((view d i)\<lparr>v_file := Some (f\<lparr>f_state := Active, f_declared_size := sz, f_etag := Some etag,
      f_committed_at := Some now\<rparr>), v_leases := settle Committed (v_leases (view d i)), v_upload := None\<rparr>)"
    using assms by (intro vstep.activate) auto
  with activated_at [OF db_okD(1) [OF assms(1)] assms(2,4,5)] show ?thesis by (rule at_file_move)
qed

lemma activated_keys [simp]: "get_key c k (activated now i sz etag d) = get_key c k d"
  by (simp add: get_key_def activated_def)

lemma activated_files: "exists_where (\<lambda>f. f_client f = c \<and> f_id f = j) (files (activated now i sz etag d)) \<longleftrightarrow>
    exists_where (\<lambda>f. f_client f = c \<and> f_id f = j) (files d)"
  unfolding activated_def by (simp add: exists_update_where)

text \<open>The file a completion publishes, as the statements find it.\<close>

definition publishable :: "db \<Rightarrow> string \<Rightarrow> string \<Rightarrow> uuid \<Rightarrow> bool \<Rightarrow> file_row \<Rightarrow> upload_row \<Rightarrow> int \<Rightarrow> string \<Rightarrow> bool" where
  "publishable d c k i m f u sz etag \<longleftrightarrow> v_file (view d i) = Some f \<and> f_client f = c \<and> f_state f = Pending \<and>
     v_upload (view d i) = Some u \<and> s3_session k m u \<and> u_state u = Completing \<and>
     u_expected_size u = Some sz \<and> u_expected_etag u = Some etag \<and> 0 \<le> sz"

lemma publishableD:
  assumes "publishable d c k i m f u sz etag"
  shows "v_file (view d i) = Some f" "f_client f = c" "f_state f = Pending" "v_upload (view d i) = Some u"
    "u_protocol u = S3" "u_state u = Completing" "0 \<le> sz" "s3_session k m u"
  using assms by (simp_all add: publishable_def s3_session_def)

lemma finalize_upload_publishable:
  assumes "db_ok d"
  obtains (idle) "finalize_upload now c k i m d = (Inr NotPending, d)" "\<And>f u sz etag. \<not> publishable d c k i m f u sz etag"
  | (ready) f u sz etag where "publishable d c k i m f u sz etag"
      "finalize_upload now c k i m d =
         (let commit = (\<lambda>x. case x of (Inl e, _) \<Rightarrow> (Inl e, d) | (Inr q, d') \<Rightarrow> (Inr q, d'))
          in if u_if_none_match u then
               (case insert_key_in_tx c k i d of
                  (Inl e, _) \<Rightarrow> (Inl e, d)
                | (Inr True, d1) \<Rightarrow> commit (publish now c k i sz etag True d1)
                | (Inr False, d1) \<Rightarrow> (Inr PreconditionFailed, d1\<lparr>uploads := update_where (s3_row i) (to_cleaning now) (uploads d1)\<rparr>))
             else commit (publish now c k i sz etag False d))"
proof -
  note ok = db_okD(1) [OF assms]
  show thesis
  proof (cases "locked_file c i m d")
    case None
    moreover have "\<not> publishable d c k i m f u sz etag" for f u sz etag
    proof
      assume p: "publishable d c k i m f u sz etag"
      then have "upload_ok f u" by (intro view_upload_ok [OF assms publishableD(1,4)])
      with p have "locked_file c i m d = Some f"
        unfolding locked_file_view [OF ok] by (auto simp: publishable_def upload_ok_def s3_session_def)
      with None show False by simp
    qed
    ultimately show thesis by (intro idle) (simp_all add: finalize_upload_def)
  next
    case (Some f)
    note f = this
    show thesis
    proof (cases "find (\<lambda>u. u_file u = i \<and> (s3_session k m u \<and> u_state u = Completing)) (uploads d)")
      case None
      then have "\<not> publishable d c k i m g u sz etag" for g u sz etag
        using session_view [OF ok, of i "\<lambda>u. s3_session k m u \<and> u_state u = Completing" u]
        by (auto simp: publishable_def)
      with f None show thesis by (intro idle) (simp_all add: finalize_upload_def)
    next
      case (Some u)
      from Some f have v: "v_file (view d i) = Some f" "f_client f = c" "f_state f = Pending"
        "v_upload (view d i) = Some u" "s3_session k m u" "u_state u = Completing"
        unfolding session_view [OF ok] locked_file_view [OF ok] by auto
      have "upload_check u" using view_upload_ok [OF assms v(1,4)] by (simp add: upload_ok_def)
      with v(5,6) obtain sz etag where e: "u_expected_size u = Some sz" "u_expected_etag u = Some etag" "0 \<le> sz"
        by (auto simp: upload_check_def s3_session_def)
      from v e have "publishable d c k i m f u sz etag" by (simp add: publishable_def)
      then show thesis by (rule ready) (cases "u_if_none_match u"; simp add: finalize_upload_def f Some e Let_def)
    qed
  qed
qed

lemma finalize_upload_cases:
  assumes "db_ok d" "finalize_upload now c k i m d = (r, d')"
  obtains (not_pending) "r = Inr NotPending" "d' = d" "\<And>f u sz etag. \<not> publishable d c k i m f u sz etag"
  | (lost) f u sz etag j where "r = Inr PreconditionFailed" "publishable d c k i m f u sz etag" "u_if_none_match u"
      "get_key c k d = Some j" "at_file d i ((view d i)\<lparr>v_upload := Some (to_cleaning now u)\<rparr>) d'" "object_keys d' = object_keys d"
  | (finalized) f u sz etag gone where "r = Inr (Finalized gone)" "publishable d c k i m f u sz etag"
      "gone = (if u_if_none_match u then None else displaced (get_key c k d) i)"
      "u_if_none_match u \<Longrightarrow> get_key c k d = None"
      "view d' i = (view d i)\<lparr>v_file := Some (f\<lparr>f_state := Active, f_declared_size := sz, f_etag := Some etag,
         f_committed_at := Some now\<rparr>), v_leases := settle Committed (v_leases (view d i)), v_upload := None\<rparr>"
      "\<And>c' k'. get_key c' k' d' = (if (c', k') = (c, k) then Some i else get_key c' k' d)"
      "\<And>j. j \<noteq> i \<Longrightarrow> view d' j = (if gone = Some j then detached now (view d j) else view d j)"
      "sim d d'" "schema_ok d'"
proof -
  note ok = db_okD(1) [OF assms(1)]
  from assms(1) show thesis
  proof (cases rule: finalize_upload_publishable [where now = now and c = c and k = k and i = i and m = m])
    case idle
    with assms(2) show thesis by (intro not_pending) auto
  next
    case (ready f u sz etag)
    note p = publishableD [OF ready(1)]
    have own: "exists_where (\<lambda>f. f_client f = c \<and> f_id f = i) (files d)"
      using find_where_Some [OF p(1) [unfolded view_simps]] p(2) by (auto simp: exists_where_iff)
    let ?v = "(view d i)\<lparr>v_file := Some (f\<lparr>f_state := Active, f_declared_size := sz, f_etag := Some etag,
         f_committed_at := Some now\<rparr>), v_leases := settle Committed (v_leases (view d i)), v_upload := None\<rparr>"
    show thesis
    proof (cases "u_if_none_match u")
      case True
      obtain r1 d1 where ins: "insert_key_in_tx c k i d = (r1, d1)" by fastforce
      from ins show thesis
      proof (cases rule: insert_key_in_tx_cases)
        case (failed e)
        with own show thesis by simp
      next
        case (taken j)
        have d': "r = Inr PreconditionFailed" "d' = d\<lparr>uploads := update_where (\<lambda>u. u_file u = i \<and> u_protocol u = S3) (to_cleaning now) (uploads d)\<rparr>"
          using assms(2) ready(2) True ins taken by (simp_all add: s3_row_fun)
        have "at_file d i ((view d i)\<lparr>v_upload := Some (to_cleaning now u)\<rparr>) d'"
          unfolding d' at_file_def using ok p(4,5) by (auto simp: at_file_simps)
        then show thesis using d' True taken ready(1) by (intro lost) simp_all
      next
        case inserted
        from ins inserted(1) have "insert_key_in_tx c k i d = (Inr True, d1)" by simp
        note k = insert_key_replaces [OF ok this]
        note K = key_replacedD [OF k(1)]
        have d': "r = Inr (Finalized None)" "d' = activated now i sz etag d1"
          using assms(2) ready(2) True ins inserted(1) by (simp_all add: publish_activated)
        have v1: "view d1 j = view d j" for j using K(5) by simp
        have ok1: "db_ok d1" using db_ok_sim [OF assms(1) K(1,2)] .
        have at: "at_file d1 i ?v d'"
          using activated_at [OF K(2), where i = i and f = f and u = u and sz = sz and etag = etag and now = now] p(1,4,5) unfolding d' v1 by simp
        have mv: "sim d1 d' \<and> schema_ok d'"
          unfolding d' by (rule activated_move [OF ok1, unfolded v1, OF p(1,3,4,5,6,7)])
        show thesis
        proof (rule finalized [OF d'(1) ready(1)])
          show "get_key c' k' d' = (if (c', k') = (c, k) then Some i else get_key c' k' d)" for c' k'
            using k(1) by (simp add: d' key_replaced_def)
          show "view d' i = ?v" using at by (rule at_fileD)
          show "sim d d'" using K(1) mv by (auto intro: sim_trans)
        qed (use True k(2) mv at_fileD(3) [OF at] v1 in auto)
      qed
    next
      case False
      let ?A = "activated now i sz etag d"
      have at: "at_file d i ?v ?A" by (rule activated_at [OF ok p(1,4,5)])
      have mv: "sim d ?A \<and> schema_ok ?A" by (rule activated_move [OF assms(1) p(1,3,4,5,6,7)])
      obtain r1 d1 where ups: "upsert_key_in_tx now c k i ?A = (r1, d1)" by fastforce
      have "schema_ok ?A" using mv by simp
      from this ups show thesis
      proof (cases rule: upsert_key_in_tx_cases)
        case (failed e)
        with own show thesis by (simp add: activated_files)
      next
        case replaced
        note K = key_replacedD [OF replaced(2)]
        have d': "r = Inr (Finalized (displaced (get_key c k d) i))" "d' = d1"
          using assms(2) ready(2) False ups replaced(1) by (simp_all add: publish_activated)
        show thesis
        proof (rule finalized [OF d'(1) ready(1)])
          show "get_key c' k' d' = (if (c', k') = (c, k) then Some i else get_key c' k' d)" for c' k'
            using replaced(2) by (simp add: d' key_replaced_def)
          show "view d' i = ?v" using K(5) [of i] at_fileD(2) [OF at] by (simp add: d')
          show "sim d d'" using K(1) mv by (auto intro: sim_trans simp: d')
          show "view d' j = (if displaced (get_key c k d) i = Some j then detached now (view d j) else view d j)" if "j \<noteq> i" for j
            using K(5) [of j] at_fileD(3) [OF at that] by (simp add: d')
        qed (use False K d' in auto)
      qed
    qed
  qed
qed

interpretation finalize_upload: transaction "finalize_upload now c k i m" for now c k i m
proof
  fix d r d'
  assume ok: "db_ok d" and run: "finalize_upload now c k i m d = (r, d')"
  have "sim d d' \<and> schema_ok d'"
    using ok run
  proof (cases rule: finalize_upload_cases)
    case (lost f u sz etag j)
    note p = publishableD [OF lost(2)]
    have up: "upload_ok f (to_cleaning now u)"
      by (rule upload_ok_to_cleaning(1) [OF view_upload_ok [OF ok p(1,4)] p(5)])
    have "vstep (view d i) ((view d i)\<lparr>v_upload := Some (to_cleaning now u), v_leases := settle Issued (v_leases (view d i))\<rparr>)"
      by (rule vstep.clean [where f = f]) (use p up in auto)
    with lost(5) show ?thesis by (intro at_file_move) (auto simp: view_def)
  qed (use ok in \<open>simp_all add: db_okD\<close>)
  then show "sim d d'" "schema_ok d'" by auto
next
  fix d e d'
  assume "finalize_upload now c k i m d = (Inl e, d')"
  then have "d' = d"
    by (auto simp: finalize_upload_def Let_def split: option.splits if_splits prod.splits sum.splits bool.splits)
  then show "d'\<lparr>row_locks := row_locks d\<rparr> = d" by simp
qed

end
