(* ===== verification/Files_Access.thy ===== *)
theory Files_Access
  imports Files_Commit Files_Multipart
begin

text \<open>
  \<open>db/src/files/access.rs\<close>: reading a file with its ownership check, read leases, the relay
  secret of a write lease, and what a byte endpoint may open with a lease id and a secret hash.
  A join on \<open>storages\<close> and \<open>locations\<close> is \<open>storage_of\<close> of the file.
\<close>

section \<open>Operations\<close>

record file_access =
  fa_state :: file_state
  fa_declared_size :: int
  fa_declared_md5 :: "string option"
  fa_etag :: "string option"
  fa_content_type :: "string option"
  fa_object_key :: string
  fa_part_size :: "int option"
  fa_storage :: storage_row

definition placed :: "db \<Rightarrow> uuid \<Rightarrow> (location_row \<times> storage_row) list" where
  "placed d i = [(l, s). l \<leftarrow> locations d, l_file l = i, s \<leftarrow> storages d, st_id s = l_storage l]"

definition access :: "string \<Rightarrow> uuid \<Rightarrow> db \<Rightarrow> file_access option" where
  "access client i d =
     (case [(f, l, s). f \<leftarrow> files d, f_id f = i, f_client f = client, (l, s) \<leftarrow> placed d (f_id f)] of
        [] \<Rightarrow> None
      | (f, l, s) # _ \<Rightarrow> Some \<lparr>fa_state = f_state f, fa_declared_size = f_declared_size f,
          fa_declared_md5 = f_declared_md5 f, fa_etag = f_etag f, fa_content_type = f_content_type f,
          fa_object_key = l_object_key l, fa_part_size = f_part_size f, fa_storage = s\<rparr>)"

definition issue_read_lease :: "timestamp \<Rightarrow> uuid \<Rightarrow> uuid \<Rightarrow> int \<Rightarrow> string option \<Rightarrow> string \<Rightarrow> string \<Rightarrow> int
    \<Rightarrow> (db, db_error, uuid) eff" where
  "issue_read_lease now lease i ttl hash storage client sz d =
     (if (case hash of None \<Rightarrow> False | Some h \<Rightarrow> \<not> secret_hash_ok h) then (Inl CheckViolation, d)
      else if exists_where (\<lambda>l. le_id l = lease) (leases d) then (Inl UniqueViolation, d)
      else if \<not> exists_where (\<lambda>f. f_id f = i) (files d) then (Inl ForeignKeyViolation, d)
      else if sz < 0 then (Inl CheckViolation, d)
      else (Inr lease, d\<lparr>leases := leases d @ [new_lease now (now + secs ttl) lease i Read hash],
              lease_history := lease_history d @ [\<lparr>h_at = now, h_file = i, h_storage = storage,
                h_client = client, h_kind = Read, h_size = sz\<rparr>]\<rparr>))"

definition attach_write_secret :: "uuid \<Rightarrow> string \<Rightarrow> (db, db_error, unit) eff" where
  "attach_write_secret lease hash d =
     (let hit = (\<lambda>l. le_id l = lease) in
      if exists_where hit (leases d) \<and> \<not> secret_hash_ok hash then (Inl CheckViolation, d)
      else (Inr (), d\<lparr>leases := update_where hit (\<lambda>l. l\<lparr>le_secret_hash := Some hash\<rparr>) (leases d)\<rparr>))"

record byte_lease =
  bl_kind :: lease_kind
  bl_file_id :: uuid
  bl_declared_size :: int
  bl_content_type :: "string option"
  bl_part_size :: "int option"
  bl_upload_id :: "string option"
  bl_location :: "(string \<times> storage_row) option"

lemma access_SomeD:
  assumes "schema_ok d" "access client i d = Some a"
  obtains f l where "v_file (view d i) = Some f" "f_client f = client" "v_loc (view d i) = Some l"
    "fa_state a = f_state f" "fa_etag a = f_etag f" "fa_declared_size a = f_declared_size f"
    "fa_object_key a = l_object_key l" "st_id (fa_storage a) = l_storage l" "fa_storage a \<in> set (storages d)"
    "fa_declared_md5 a = f_declared_md5 f" "fa_part_size a = f_part_size f"
proof -
  note S = schema_okD [OF assms(1)]
  define xs where "xs = [(f, l, s). f \<leftarrow> files d, f_id f = i, f_client f = client, (l, s) \<leftarrow> placed d (f_id f)]"
  note a0 = assms(2) [unfolded access_def xs_def [symmetric]]
  from a0 obtain f l s rest where xs: "xs = (f, l, s) # rest"
    by (cases xs) auto
  with a0 have m: "(f, l, s) \<in> set xs"
    and a: "fa_state a = f_state f" "fa_etag a = f_etag f" "fa_declared_size a = f_declared_size f"
      "fa_object_key a = l_object_key l" "fa_storage a = s" "fa_declared_md5 a = f_declared_md5 f" "fa_part_size a = f_part_size f" by auto
  from m have f: "f \<in> set (files d)" "f_id f = i" "f_client f = client" and l: "l \<in> set (locations d)" "l_file l = i"
    and s: "st_id s = l_storage l" "s \<in> set (storages d)"
    unfolding xs_def by (auto simp: placed_def)
  show thesis
    using row_found [OF S(1) f(1)] row_found [OF S(2) l(1)] f l s a by (intro that [of f l]) auto
qed

text \<open>The \<open>LEFT JOIN\<close>s keep a lease whose file has no location. A location whose storage is missing
  would be an error of \<open>StorageRow::from_row\<close>; the foreign key excludes it.\<close>

definition byte_lease :: "timestamp \<Rightarrow> uuid \<Rightarrow> string \<Rightarrow> db \<Rightarrow> byte_lease option" where
  "byte_lease now lease hash d =
     (case [(le, f). le \<leftarrow> leases d, le_id le = lease, le_secret_hash le = Some hash, le_state le = Issued,
                     now < le_expires_at le, f \<leftarrow> files d, f_id f = le_file le,
                     \<not> has_native_upload d (f_id f)] of
        [] \<Rightarrow> None
      | (le, f) # _ \<Rightarrow> Some \<lparr>bl_kind = le_kind le, bl_file_id = f_id f, bl_declared_size = f_declared_size f,
          bl_content_type = f_content_type f, bl_part_size = f_part_size f, bl_upload_id = le_upload_id le,
          bl_location = (case placed d (f_id f) of [] \<Rightarrow> None | (l, s) # _ \<Rightarrow> Some (l_object_key l, s))\<rparr>)"

definition recorded_upload :: "uuid \<Rightarrow> db \<Rightarrow> (int \<times> string option) option" where
  "recorded_upload i d =
     (case find (\<lambda>l. le_file l = i \<and> le_kind l = Write \<and> le_uploaded_size l \<noteq> None) (leases d) of
        None \<Rightarrow> None
      | Some l \<Rightarrow> Some (the (le_uploaded_size l), le_uploaded_md5 l))"

record file_stat =
  fs_state :: file_state
  fs_declared_size :: int

definition stat :: "string \<Rightarrow> uuid \<Rightarrow> db \<Rightarrow> file_stat option" where
  "stat client i d = map_option (\<lambda>f. \<lparr>fs_state = f_state f, fs_declared_size = f_declared_size f\<rparr>)
     (find (\<lambda>f. f_id f = i \<and> f_client f = client) (files d))"

section \<open>The writes as moves\<close>

interpretation attach_write_secret: transaction "attach_write_secret lease hash" for lease hash
  by (rule touch_transaction)
    (auto simp: attach_write_secret_def Let_def same_identity_def split: if_splits intro: lease_touchI)

interpretation issue_read_lease: transaction "issue_read_lease now lease i ttl hash storage client sz"
  for now lease i ttl hash storage client sz
proof
  fix d r d'
  assume ok: "db_ok d" and run: "issue_read_lease now lease i ttl hash storage client sz d = (r, d')"
  let ?le = "new_lease now (now + secs ttl) lease i Read hash"
  have "(\<forall>j. view d' j = view d j) \<and> schema_ok d'"
  proof (cases "d' = d")
    case True
    with ok show ?thesis by (simp add: db_okD)
  next
    case False
    with run have fresh: "lease \<notin> le_id ` set (leases d)" "i \<in> f_id ` set (files d)"
      and d': "leases d' = leases d @ [?le]" "files d' = files d" "locations d' = locations d"
        "lease_parts d' = lease_parts d" "uploads d' = uploads d" "object_keys d' = object_keys d"
      by (auto simp: issue_read_lease_def exists_where_iff split: if_splits)
    have "write_leases d' j = write_leases d j" for j
      by (simp add: write_leases_def d')
    then have "view d' j = view d j" for j
      by (simp add: view_def d')
    moreover have "schema_ok d'"
      using schema_of_ok [OF db_okD(1) [OF ok]] fresh by (auto simp: schema_ok_def schema_tables_def d')
    ultimately show ?thesis by blast
  qed
  then show "sim d d'" "schema_ok d'" by (auto intro: sim_same_view)
qed (auto simp: issue_read_lease_def split: if_splits)

section \<open>What a reader learns\<close>

text \<open>
  Files are invisible to other clients: \<open>access\<close> and \<open>stat\<close> answer only for a file of the
  asking client, \<open>access\<close> with the columns of its row and an address that is recorded for it; a
  pending or active file of the client whose storage row exists is always found.
\<close>

theorem access_only_own_files:
  assumes "db_ok d"
  shows "(\<forall>a. access client i d = Some a \<longrightarrow> (\<exists>f l. v_file (view d i) = Some f \<and> f_client f = client \<and>
      v_loc (view d i) = Some l \<and> fa_state a = f_state f \<and> fa_etag a = f_etag f \<and>
      fa_declared_size a = f_declared_size f \<and> fa_object_key a = l_object_key l \<and> st_id (fa_storage a) = l_storage l)) \<and>
    (\<forall>t. stat client i d = Some t \<longrightarrow> (\<exists>f. v_file (view d i) = Some f \<and> f_client f = client \<and> fs_state t = f_state f)) \<and>
    (\<forall>f l s. v_file (view d i) = Some f \<longrightarrow> f_client f = client \<longrightarrow> f_state f \<in> {Pending, Active} \<longrightarrow>
      v_loc (view d i) = Some l \<longrightarrow> s \<in> set (storages d) \<longrightarrow> st_id s = l_storage l \<longrightarrow> access client i d \<noteq> None)"
proof (intro conjI allI impI)
  fix a assume "access client i d = Some a"
  with db_okD(1) [OF assms] show "\<exists>f l. v_file (view d i) = Some f \<and> f_client f = client \<and>
      v_loc (view d i) = Some l \<and> fa_state a = f_state f \<and> fa_etag a = f_etag f \<and>
      fa_declared_size a = f_declared_size f \<and> fa_object_key a = l_object_key l \<and> st_id (fa_storage a) = l_storage l"
    by (rule access_SomeD) blast
next
  note S = schema_okD [OF db_okD(1) [OF assms]]
  fix t assume "stat client i d = Some t"
  then obtain f where f: "f \<in> set (files d)" "f_id f = i" "f_client f = client" "fs_state t = f_state f"
    by (auto simp: stat_def dest!: find_where_Some)
  then show "\<exists>f. v_file (view d i) = Some f \<and> f_client f = client \<and> fs_state t = f_state f"
    using row_found [OF S(1) f(1)] by auto
next
  fix f l s
  assume "v_file (view d i) = Some f" "f_client f = client" "v_loc (view d i) = Some l" "s \<in> set (storages d)" "st_id s = l_storage l"
  then have "(f, l, s) \<in> set [(f, l, s). f \<leftarrow> files d, f_id f = i, f_client f = client, (l, s) \<leftarrow> placed d (f_id f)]"
    by (auto simp: placed_def dest!: find_where_Some)
  then have "[(f, l, s). f \<leftarrow> files d, f_id f = i, f_client f = client, (l, s) \<leftarrow> placed d (f_id f)] \<noteq> []"
    by (metis emptyE list.set(1))
  then show "access client i d \<noteq> None"
    unfolding access_def by (simp split: list.splits prod.splits)
qed

text \<open>
  A byte endpoint opens a lease only with the secret recorded for it, before its deadline and
  while no native completion owns the file; a write lease can be opened only while its file is
  pending, so bytes can no longer be written once the file is committed or reclaimed.
\<close>

theorem byte_lease_sound:
  assumes "db_ok d" "byte_lease now lease hash d = Some b"
  shows "\<exists>l f. l \<in> set (leases d) \<and> le_id l = lease \<and> le_secret_hash l = Some hash \<and> le_state l = Issued \<and>
    now < le_expires_at l \<and> bl_kind b = le_kind l \<and> bl_file_id b = le_file l \<and>
    v_file (view d (le_file l)) = Some f \<and> bl_declared_size b = f_declared_size f \<and>
    \<not> has_native_upload d (le_file l) \<and> (bl_kind b = Write \<longrightarrow> f_state f = Pending)"
proof -
  note S = schema_okD [OF db_okD(1) [OF assms(1)]]
  define xs where "xs = [(le, f). le \<leftarrow> leases d, le_id le = lease, le_secret_hash le = Some hash, le_state le = Issued,
                     now < le_expires_at le, f \<leftarrow> files d, f_id f = le_file le, \<not> has_native_upload d (f_id f)]"
  note b0 = assms(2) [unfolded byte_lease_def xs_def [symmetric]]
  from b0 obtain l f rest where xs: "xs = (l, f) # rest"
    by (cases xs) auto
  with b0 have m: "(l, f) \<in> set xs"
    and b: "bl_kind b = le_kind l" "bl_file_id b = f_id f" "bl_declared_size b = f_declared_size f" by auto
  from m have l: "l \<in> set (leases d)" "le_id l = lease" "le_secret_hash l = Some hash" "le_state l = Issued" "now < le_expires_at l"
    and f: "f \<in> set (files d)" "f_id f = le_file l" "\<not> has_native_upload d (le_file l)"
    unfolding xs_def by auto
  have v: "v_file (view d (le_file l)) = Some f" using row_found [OF S(1) f(1)] f(2) by simp
  have "f_state f = Pending" if "le_kind l = Write"
  proof -
    have "l \<in> set (v_leases (view d (le_file l)))" using l that by (simp add: in_write_leases)
    with db_okD(2) [OF assms(1), of "le_file l"] v l(4) show ?thesis by (simp add: view_ok_def lease_ok_def)
  qed
  with l f v b show ?thesis by (intro exI [of _ l] exI [of _ f]) auto
qed

text \<open>
  A pending file always has its write lease: the lookup of the multipart paths cannot fail
  while the file is pending, and it returns the file's only write lease.
\<close>

theorem pending_file_has_write_lease:
  assumes "db_ok d" "v_file (view d i) = Some f" "f_state f = Pending"
  shows "\<exists>l. v_leases (view d i) = [l] \<and> write_lease d i =
    Some \<lparr>wl_lease_id = le_id l, wl_upload_id = le_upload_id l, wl_secret_hash = le_secret_hash l\<rparr>"
proof -
  have "v_leases (view d i) \<noteq> []"
    using db_okD(2) [OF assms(1), of i] assms(2,3) by (simp add: view_ok_def lease_ok_def)
  then obtain l where "l \<in> set (write_leases d i)" by (cases "write_leases d i") auto
  with write_lease_unique [OF db_okD(2) [OF assms(1)]] have one: "write_leases d i = [l]" by blast
  have "find P xs = (case filter P xs of [] \<Rightarrow> None | x # _ \<Rightarrow> Some x)" for P and xs :: "lease_row list"
    by (induction xs) auto
  then have "find (\<lambda>l. le_file l = i \<and> le_kind l = Write) (leases d) = Some l"
    using one by (simp add: write_leases_def)
  with one show ?thesis by (simp add: write_lease_def)
qed

section \<open>Witnesses\<close>

theorem access_only_own_files_witness:
  "access ''c1'' 6 demo_db \<noteq> None \<and> access ''c2'' 6 demo_db = None"
proof
  have v: "v_file (view demo_db 6) = Some (demo_file 6 Active None)" "v_loc (view demo_db 6) = Some (demo_location 6)"
    by (simp_all add: demo_db_def demo_row_defs)
  have "demo_storage \<in> set (storages demo_db)" "st_id demo_storage = l_storage (demo_location 6)"
    "f_client (demo_file 6 Active None) = ''c1''" "f_state (demo_file 6 Active None) \<in> {Pending, Active}"
    by (simp_all add: demo_db_def demo_storage_def demo_row_defs)
  with access_only_own_files [OF demo_db_ok, of "''c1''" 6] v show "access ''c1'' 6 demo_db \<noteq> None" by blast
  have "f_client (demo_file 6 Active None) \<noteq> ''c2''" by (simp add: demo_row_defs)
  with access_only_own_files [OF demo_db_ok, of "''c2''" 6] v show "access ''c2'' 6 demo_db = None"
    by (metis option.exhaust option.inject)
qed

theorem byte_lease_sound_witness:
  "\<exists>b. byte_lease 1 11 demo_hash demo_db = Some b \<and> bl_file_id b = 1"
proof -
  have "case byte_lease 1 11 demo_hash demo_db of None \<Rightarrow> False | Some b \<Rightarrow> True" by code_simp
  then obtain b where b: "byte_lease 1 11 demo_hash demo_db = Some b" by (cases "byte_lease 1 11 demo_hash demo_db") auto
  from byte_lease_sound [OF demo_db_ok b] obtain l where l: "l \<in> set (leases demo_db)" "le_id l = 11" "bl_file_id b = le_file l" by blast
  then have "bl_file_id b = 1" by (auto simp: demo_db_def demo_row_defs)
  with b show ?thesis by blast
qed

theorem pending_file_has_write_lease_witness:
  "write_lease demo_db 2 \<noteq> None"
proof -
  have "v_file (view demo_db 2) = Some (demo_file 2 Pending (Some 5))" "f_state (demo_file 2 Pending (Some 5)) = Pending"
    by (simp_all add: demo_db_def demo_row_defs)
  from pending_file_has_write_lease [OF demo_db_ok this] show ?thesis by auto
qed

end
