(* ===== verification/Lease.thy ===== *)
theory Lease
  imports S3_Uploads Files_Access
begin

text \<open>
  \<open>api/src/lease.rs\<close>: the lifetimes of leases, and the heartbeat that keeps the ownership of a file
  alive while a slow storage operation runs. The instants at which the interval fires before the
  operation ends are a list; \<open>fails t\<close> tells whether the database call of the tick at \<open>t\<close> ends in an
  error. An abandoned operation is dropped where it stands: \<open>dropped\<close> is what it has done by then.
\<close>

definition WRITE_LEASE_TTL :: int where
  "WRITE_LEASE_TTL = 15 * 60"

definition READ_LEASE_TTL :: int where
  "READ_LEASE_TTL = 15 * 60"

datatype write_ownership =
  NativeCompletion | NativeUploadPart uuid int | S3Completion | UploadPart uuid int

definition renew_ownership :: "write_ownership \<Rightarrow> uuid \<Rightarrow> timestamp \<Rightarrow> (db, db_error, bool) eff" where
  "renew_ownership ownership i now = (case ownership of
      NativeCompletion \<Rightarrow> renew_completion_lease now i WRITE_LEASE_TTL
    | NativeUploadPart lease n \<Rightarrow> renew_relay_part_lease now i lease n WRITE_LEASE_TTL
    | S3Completion \<Rightarrow> s3_renew_completion_lease now i WRITE_LEASE_TTL
    | UploadPart lease n \<Rightarrow> renew_upload_part_lease now i lease n WRITE_LEASE_TTL)"

text \<open>The closure of \<open>run_with_write_heartbeat\<close>: only a refusal ends the ownership, an error does not.\<close>

definition still_owned :: "(timestamp \<Rightarrow> db_error option) \<Rightarrow> write_ownership \<Rightarrow> uuid \<Rightarrow> timestamp \<Rightarrow> db \<Rightarrow> bool \<times> db" where
  "still_owned fails ownership i now d =
     (case (case fails now of Some e \<Rightarrow> (Inl e, d) | None \<Rightarrow> renew_ownership ownership i now d) of
        (Inr True, d') \<Rightarrow> (True, d')
      | (Inr False, d') \<Rightarrow> (False, d')
      | (Inl e, d') \<Rightarrow> (True, d'))"

fun run_with_heartbeat :: "(timestamp \<Rightarrow> 'd \<Rightarrow> bool \<times> 'd) \<Rightarrow> timestamp list \<Rightarrow> ('w \<Rightarrow> 'r \<times> 'w) \<Rightarrow> ('w \<Rightarrow> 'w)
    \<Rightarrow> 'd \<times> 'w \<Rightarrow> 'r option \<times> 'd \<times> 'w" where
  "run_with_heartbeat renewal [] operation dropped (d, w) = (case operation w of (r, w') \<Rightarrow> (Some r, d, w'))"
| "run_with_heartbeat renewal (t # ts) operation dropped (d, w) =
     (case renewal t d of
        (True, d') \<Rightarrow> run_with_heartbeat renewal ts operation dropped (d', w)
      | (False, d') \<Rightarrow> (None, d', dropped w))"

definition run_with_write_heartbeat :: "(timestamp \<Rightarrow> db_error option) \<Rightarrow> timestamp list \<Rightarrow> ('w \<Rightarrow> 'w) \<Rightarrow> uuid
    \<Rightarrow> write_ownership \<Rightarrow> ('w \<Rightarrow> 'r \<times> 'w) \<Rightarrow> db \<times> 'w \<Rightarrow> 'r option \<times> db \<times> 'w" where
  "run_with_write_heartbeat fails ticks dropped i ownership operation =
     run_with_heartbeat (still_owned fails ownership i) ticks operation dropped"

definition run_with_completion_heartbeat :: "(timestamp \<Rightarrow> db_error option) \<Rightarrow> timestamp list \<Rightarrow> ('w \<Rightarrow> 'w) \<Rightarrow> uuid
    \<Rightarrow> ('w \<Rightarrow> 'r \<times> 'w) \<Rightarrow> db \<times> 'w \<Rightarrow> 'r option \<times> db \<times> 'w" where
  "run_with_completion_heartbeat fails ticks dropped i = run_with_write_heartbeat fails ticks dropped i S3Completion"

definition run_with_native_completion_heartbeat :: "(timestamp \<Rightarrow> db_error option) \<Rightarrow> timestamp list \<Rightarrow> ('w \<Rightarrow> 'w) \<Rightarrow> uuid
    \<Rightarrow> ('w \<Rightarrow> 'r \<times> 'w) \<Rightarrow> db \<times> 'w \<Rightarrow> 'r option \<times> db \<times> 'w" where
  "run_with_native_completion_heartbeat fails ticks dropped i = run_with_write_heartbeat fails ticks dropped i NativeCompletion"

definition run_with_native_upload_part_heartbeat :: "(timestamp \<Rightarrow> db_error option) \<Rightarrow> timestamp list \<Rightarrow> ('w \<Rightarrow> 'w) \<Rightarrow> uuid
    \<Rightarrow> uuid \<Rightarrow> int \<Rightarrow> ('w \<Rightarrow> 'r \<times> 'w) \<Rightarrow> db \<times> 'w \<Rightarrow> 'r option \<times> db \<times> 'w" where
  "run_with_native_upload_part_heartbeat fails ticks dropped i lease n =
     run_with_write_heartbeat fails ticks dropped i (NativeUploadPart lease n)"

definition run_with_upload_part_heartbeat :: "(timestamp \<Rightarrow> db_error option) \<Rightarrow> timestamp list \<Rightarrow> ('w \<Rightarrow> 'w) \<Rightarrow> uuid
    \<Rightarrow> uuid \<Rightarrow> int \<Rightarrow> ('w \<Rightarrow> 'r \<times> 'w) \<Rightarrow> db \<times> 'w \<Rightarrow> 'r option \<times> db \<times> 'w" where
  "run_with_upload_part_heartbeat fails ticks dropped i lease n =
     run_with_write_heartbeat fails ticks dropped i (UploadPart lease n)"

text \<open>The audit of a direct read: a failure is only logged. The new lease's id is an argument.\<close>

definition audit_read :: "timestamp \<Rightarrow> uuid \<Rightarrow> uuid \<Rightarrow> string \<Rightarrow> string \<Rightarrow> int \<Rightarrow> db \<Rightarrow> db" where
  "audit_read now lease i storage client sz d =
     snd (issue_read_lease now lease i READ_LEASE_TTL None storage client sz d)"

section \<open>What the heartbeat preserves\<close>

text \<open>Until when the lease is valid after the ticks: every successful renewal counts from its own time.\<close>

definition renewed_until :: "(timestamp \<Rightarrow> db_error option) \<Rightarrow> timestamp list \<Rightarrow> timestamp \<Rightarrow> timestamp" where
  "renewed_until fails ticks e =
     last (e # map (\<lambda>t. t + secs WRITE_LEASE_TTL) (filter (\<lambda>t. fails t = None) ticks))"

lemma renewed_until_simps [simp]:
  "renewed_until fails [] e = e"
  "renewed_until fails (t # ts) e = renewed_until fails ts (if fails t = None then t + secs WRITE_LEASE_TTL else e)"
  by (simp_all add: renewed_until_def)

definition completion_owner :: "write_ownership \<Rightarrow> protocol option" where
  "completion_owner ow = (case ow of NativeCompletion \<Rightarrow> Some Native | S3Completion \<Rightarrow> Some S3 | _ \<Rightarrow> None)"

text \<open>The rows of a file whose completion is owned, with the deadline of its write lease.\<close>

definition owned_completion :: "protocol \<Rightarrow> file_view \<Rightarrow> timestamp \<Rightarrow> bool" where
  "owned_completion pr v e \<longleftrightarrow> (\<exists>f u l. v_file v = Some f \<and> f_state f = Pending \<and> v_upload v = Some u \<and>
     in_state pr Completing u \<and> v_leases v = [l] \<and> le_state l = Issued \<and> le_expires_at l = e)"

lemma renew_owned_completion:
  assumes "db_ok d" "owned_completion pr (view d i) e"
  obtains d' where "renew_completion pr now i ttl d = (Inr True, d')" "db_ok d'"
    "view d' i = (view d i)\<lparr>v_leases := renew (now + secs ttl) (v_leases (view d i))\<rparr>"
    "owned_completion pr (view d' i) (now + secs ttl)" "\<forall>j. j \<noteq> i \<longrightarrow> view d' j = view d j"
proof -
  note ok = db_okD(1) [OF assms(1)]
  obtain f u l where v: "v_file (view d i) = Some f" "f_state f = Pending" "v_upload (view d i) = Some u"
    "in_state pr Completing u" "v_leases (view d i) = [l]" "le_state l = Issued"
    using assms(2) unfolding owned_completion_def by blast
  have "pending d i" using v by (simp add: pending_view [OF ok])
  moreover have "exists_where (\<lambda>u. u_file u = i \<and> in_state pr Completing u) (uploads d)"
    using v by (simp add: upload_exists [OF ok])
  moreover have "count_where (issued_write i) (leases d) \<noteq> 0" using v by (simp add: issued_count)
  ultimately have run: "renew_completion pr now i ttl d = (Inr True, d\<lparr>leases := renew_write (now + secs ttl) i (leases d)\<rparr>)"
    by (simp add: renew_completion_def)
  show thesis
    using assms(1) run
  proof (cases rule: renew_completion_cases)
    case (renewed g w)
    note at = at_fileD [OF renewed(6)]
    have "owned_completion pr (view (d\<lparr>leases := renew_write (now + secs ttl) i (leases d)\<rparr>) i) (now + secs ttl)"
      unfolding at(2) owned_completion_def using v by (simp add: renew_def)
    moreover have "\<forall>j. j \<noteq> i \<longrightarrow> view (d\<lparr>leases := renew_write (now + secs ttl) i (leases d)\<rparr>) j = view d j"
      using at(3) by blast
    ultimately show thesis
      by (rule that [OF run transaction.keeps_db_ok [OF renew_completion_transaction assms(1) run] at(2)])
  qed simp
qed

lemma not_locked_while_owned:
  assumes "owned_completion pr (view d i) e" "now \<le> e"
  shows "\<not> lock_expired pr' st now i d"
proof
  assume "lock_expired pr' st now i d"
  then obtain r where r: "r \<in> set (leases d)" "issued_write i r" "le_expires_at r < now"
    by (auto simp: lock_expired_def exists_where_iff)
  then have "r \<in> set (write_leases d i)" by (simp add: in_write_leases issued_write_def)
  with assms r(3) show False by (auto simp: owned_completion_def)
qed

lemma still_owned_completion:
  assumes "completion_owner ow = Some pr" "db_ok d" "owned_completion pr (view d i) e"
  obtains d' where "still_owned fails ow i now d = (True, d')" "db_ok d'"
    "owned_completion pr (view d' i) (if fails now = None then now + secs WRITE_LEASE_TTL else e)"
    "\<forall>j. j \<noteq> i \<longrightarrow> view d' j = view d j"
proof (cases "fails now")
  case (Some x)
  then show thesis using that [of d] assms by (simp add: still_owned_def)
next
  case None
  have op: "renew_ownership ow i now = renew_completion pr now i WRITE_LEASE_TTL"
    using assms(1) by (cases ow)
      (auto simp: completion_owner_def renew_ownership_def renew_completion_lease_def s3_renew_completion_lease_def)
  obtain d' where "renew_completion pr now i WRITE_LEASE_TTL d = (Inr True, d')" "db_ok d'"
    "owned_completion pr (view d' i) (now + secs WRITE_LEASE_TTL)" "\<forall>j. j \<noteq> i \<longrightarrow> view d' j = view d j"
    by (rule renew_owned_completion [OF assms(2,3), of now WRITE_LEASE_TTL]) blast
  with None op show thesis by (intro that [of d']) (simp_all add: still_owned_def)
qed

lemma heartbeat_keeps:
  assumes "completion_owner ow = Some pr" "db_ok d" "owned_completion pr (view d i) e"
    and "run_with_heartbeat (still_owned fails ow i) ticks operation dropped (d, w) = (r, d', w')"
  shows "r = Some (fst (operation w)) \<and> w' = snd (operation w) \<and> db_ok d' \<and>
    owned_completion pr (view d' i) (renewed_until fails ticks e) \<and> (\<forall>j. j \<noteq> i \<longrightarrow> view d' j = view d j)"
  using assms(2-)
proof (induction ticks arbitrary: d e)
  case Nil
  then show ?case by (cases "operation w") auto
next
  case (Cons t ts)
  obtain d1 where d1: "still_owned fails ow i t d = (True, d1)" "db_ok d1"
    "owned_completion pr (view d1 i) (if fails t = None then t + secs WRITE_LEASE_TTL else e)"
    "\<forall>j. j \<noteq> i \<longrightarrow> view d1 j = view d j"
    by (rule still_owned_completion [OF assms(1) Cons.prems(1,2), of fails t]) blast
  from Cons.prems(3) d1(1) have "run_with_heartbeat (still_owned fails ow i) ts operation dropped (d1, w) = (r, d', w')"
    by simp
  from Cons.IH [OF d1(2,3) this] d1(4) show ?case by simp
qed


text \<open>
  Once the ownership is gone (the file left its completion, for good or to another owner), the
  first renewal that reaches the database abandons the operation without changing anything.
\<close>

theorem heartbeat_abandons_lost_completion:
  assumes "completion_owner ow = Some pr" "schema_ok d" "fails t = None"
    and "v_file (view d i) = Some f" "f_state f \<noteq> Pending \<or> (\<forall>u. v_upload (view d i) = Some u \<longrightarrow> \<not> in_state pr Completing u)"
  shows "run_with_write_heartbeat fails (t # ts) dropped i ow operation (d, w) = (None, d, dropped w)"
proof -
  have op: "renew_ownership ow i t = renew_completion pr t i WRITE_LEASE_TTL"
    using assms(1) by (cases ow)
      (auto simp: completion_owner_def renew_ownership_def renew_completion_lease_def s3_renew_completion_lease_def)
  have "renew_completion pr t i WRITE_LEASE_TTL d = (Inr False, d)"
    using assms(4,5) by (auto simp: renew_completion_def pending_view [OF assms(2)] upload_exists [OF assms(2)])
  with op assms(3) show ?thesis by (simp add: run_with_write_heartbeat_def still_owned_def)
qed
section \<open>Witnesses\<close>


theorem heartbeat_abandons_lost_completion_witness:
  "fst (run_with_write_heartbeat (\<lambda>_. None) [1] id 6 S3Completion (\<lambda>w. (''etag'', w)) (demo_db, ())) = None"
proof -
  have "v_file (view demo_db 6) = Some (demo_file 6 Active None)" "f_state (demo_file 6 Active None) \<noteq> Pending"
    by (simp_all add: demo_db_def demo_row_defs)
  note v = this
  have own: "completion_owner S3Completion = Some S3" by (simp add: completion_owner_def)
  show ?thesis
    unfolding heartbeat_abandons_lost_completion [OF own db_okD(1) [OF demo_db_ok] refl v(1) disjI1 [OF v(2)]] by simp
qed

end
