(* ===== verification/Native_Api.thy ===== *)
theory Native_Api
  imports Api_Error Lease
begin

text \<open>
  \<open>api/src/native\<close>: the handlers of \<open>/v1/files\<close>. A handler runs over the database and the outside
  world; every transaction is one step at a time of its own, and between two steps of a handler
  nothing is assumed of the database but what it just returned. Random ids and secrets are
  arguments. The settings and collaborators of \<open>AppState\<close> are the record \<open>app\<close>.
\<close>

section \<open>The application state\<close>

record 'w app =
  ap_primitives :: primitives
  ap_crypto :: crypto
  ap_connections :: "'w connections"
  ap_md5_hex :: "string \<Rightarrow> string"
  ap_hex_decode :: "string \<Rightarrow> string option"
  ap_uuid_text :: "uuid \<Rightarrow> string"
  ap_year_month :: "timestamp \<Rightarrow> string"
  ap_multipart_threshold :: i64
  ap_part_size :: i64
  ap_public_url :: "string option"

definition to_backend :: "'w app \<Rightarrow> storage_row \<Rightarrow> api_error + storage_backend" where
  "to_backend app row = (case backend_from_row (ap_primitives app) (ap_crypto app) row of
      Inl e \<Rightarrow> Inl (Internal e)
    | Inr b \<Rightarrow> Inr b)"

text \<open>A database call or a provider call in a handler, with the conversion of its error.\<close>

definition db_op :: "(db, db_error, 'a) eff \<Rightarrow> (db, api_error, 'a) eff" where
  "db_op op d = (case op d of (Inl e, d') \<Rightarrow> (Inl (from_db_error e), d') | (Inr a, d') \<Rightarrow> (Inr a, d'))"

definition world_op :: "('w, provider_error, 'a) eff \<Rightarrow> ('w, api_error, 'a) eff" where
  "world_op op w = (case op w of (Inl e, w') \<Rightarrow> (Inl (Storage e), w') | (Inr a, w') \<Rightarrow> (Inr a, w'))"

definition fail :: "'e \<Rightarrow> ('s, 'e, 'a) eff" where
  "fail e s = (Inl e, s)"

definition of_result :: "'e + 'a \<Rightarrow> ('s, 'e, 'a) eff" where
  "of_result r s = (r, s)"

text \<open>\<open>?\<close> without conversion of the error.\<close>

definition bind_eff :: "('s, 'e, 'a) eff \<Rightarrow> ('a \<Rightarrow> ('s, 'e, 'b) eff) \<Rightarrow> ('s, 'e, 'b) eff" where
  "bind_eff op rest = try_eff op id rest"

text \<open>What a handler answers with.\<close>

datatype response =
    CommitOut uuid string
  | DeleteOut uuid
  | StatOut uuid file_state int
  | CreateOut uuid "string option" "(int \<times> int) option"
  | ReadOut uuid string
  | PartsOut "(int \<times> string) list"

section \<open>relay.rs\<close>

definition unreserved :: "char \<Rightarrow> bool" where
  "unreserved c \<longleftrightarrow> (65 \<le> code c \<and> code c \<le> 90) \<or> is_lower c \<or> is_digit c \<or> c \<in> set ''-._~''"

definition query_encode :: "string \<Rightarrow> string" where
  "query_encode value = concat (map (\<lambda>c. if unreserved c then [c] else percent c) value)"

definition relay_url :: "'w app \<Rightarrow> string \<Rightarrow> uuid \<Rightarrow> string \<Rightarrow> string option \<Rightarrow> string" where
  "relay_url app base lease secret filename = (case filename of
      Some name \<Rightarrow> base @ ''/blobs/'' @ ap_uuid_text app lease @ ''?s='' @ secret @ ''&f='' @ query_encode name
    | None \<Rightarrow> base @ ''/blobs/'' @ ap_uuid_text app lease @ ''?s='' @ secret)"

definition relay_base :: "'w app \<Rightarrow> api_error + string" where
  "relay_base app = (case ap_public_url app of
      None \<Rightarrow> Inl (internal ''GROVE_PUBLIC_URL is not configured but a relay storage is registered'')
    | Some base \<Rightarrow> Inr base)"

section \<open>single\_commit.rs\<close>

definition observe_single :: "'w app \<Rightarrow> storage_backend \<Rightarrow> uuid \<Rightarrow> string
    \<Rightarrow> (db \<times> 'w, api_error, (int \<times> string) option) eff" where
  "observe_single app b i key =
     (if is_relay b
      then on_db (\<lambda>d. case recorded_upload i d of
             None \<Rightarrow> (Inr None, d)
           | Some (sz, Some md5) \<Rightarrow> (Inr (Some (sz, md5)), d)
           | Some (sz, None) \<Rightarrow> (Inl (from_db_error DecodeError), d))
      else on_world (world_op (head_object (ap_connections app (sb_spec b) InternalAddress) (bucket_of b) key)))"

definition current_etag :: "string \<Rightarrow> uuid \<Rightarrow> (db, api_error, string option) eff" where
  "current_etag client i d = (case access client i d of
      None \<Rightarrow> (Inl (not_found ''file not found''), d)
    | Some now \<Rightarrow> (Inr (if fa_state now = Active then Some (case fa_etag now of None \<Rightarrow> [] | Some e \<Rightarrow> e) else None), d))"

definition single_commit_api_error :: "api_error single_commit_error \<Rightarrow> api_error" where
  "single_commit_api_error e = (case e of
      SingleOperation error \<Rightarrow> error
    | MissingUpload \<Rightarrow> bad_request ''no uploaded object to commit''
    | SizeMismatch \<Rightarrow> bad_request ''uploaded size does not match declaration''
    | Md5Mismatch \<Rightarrow> bad_request ''uploaded content does not match declared md5''
    | NotCommittable \<Rightarrow> conflict ''file is not committable'')"

section \<open>multipart.rs\<close>

definition int64 :: "int \<Rightarrow> i64" where
  "int64 n = word_of_int n"

definition int32 :: "int \<Rightarrow> i32" where
  "int32 n = word_of_int n"

text \<open>\<open>expected\_count as usize\<close> extends the sign.\<close>

fun verify_each :: "i64 \<Rightarrow> i64 \<Rightarrow> (int \<times> int \<times> string) list \<Rightarrow> api_error + unit" where
  "verify_each declared part_size [] = Inr ()"
| "verify_each declared part_size ((n, sz, _) # rest) = (case part_expected_size declared part_size (int32 n) of
      None \<Rightarrow> Inl Panicked
    | Some expected \<Rightarrow>
        if int64 sz \<noteq> expected then Inl (bad_request ''part size does not match declaration'')
        else verify_each declared part_size rest)"

definition verify_part_sizes :: "(int \<times> int \<times> string) list \<Rightarrow> i64 \<Rightarrow> i64 \<Rightarrow> i32 \<Rightarrow> api_error + unit" where
  "verify_part_sizes measured declared part_size expected_count =
     (if int (length measured) \<noteq> uint (i64_from expected_count)
      then Inl (bad_request ''upload is incomplete (missing parts)'')
      else verify_each declared part_size measured)"

text \<open>\<open>i32\<close> in a format string.\<close>

definition show_i32 :: "int \<Rightarrow> string" where
  "show_i32 n = (if n < 0 then CHR ''-'' # decimal (nat (- n)) else decimal (nat n))"

record prepared_completion =
  pc_expected_etag :: string
  pc_parts :: "(int \<times> string) list"

definition ledger_etag :: "'w app \<Rightarrow> (int \<times> int \<times> string) list \<Rightarrow> string" where
  "ledger_etag app ledger = composite_etag (ap_md5_hex app) (ap_hex_decode app) (map (\<lambda>(_, _, etag). etag) ledger)"

definition prepared :: "'w app \<Rightarrow> (int \<times> int \<times> string) list \<Rightarrow> prepared_completion" where
  "prepared app ledger = \<lparr>pc_expected_etag = ledger_etag app ledger, pc_parts = map (\<lambda>(n, _, etag). (n, etag)) ledger\<rparr>"

text \<open>The answers of \<open>begin\_completion\<close>, and what is done with the open transaction.\<close>

definition with_completion :: "uuid \<Rightarrow> (uuid \<Rightarrow> (db, api_error, 'a option) eff) \<Rightarrow> (db, api_error, 'a option) eff" where
  "with_completion i ready d = (case begin_completion i d of
      Ready j \<Rightarrow> ready j d
    | StartBusy \<Rightarrow> (Inl (conflict ''a part upload is still in progress; retry commit''), d)
    | Resuming \<Rightarrow> (Inl (conflict ''multipart completion is already in progress''), d)
    | StartUnavailable \<Rightarrow> (Inr None, d))"

definition claim_for :: "timestamp \<Rightarrow> prepared_completion \<Rightarrow> uuid \<Rightarrow> (db, api_error, prepared_completion option) eff" where
  "claim_for now p j = bind_eff (db_op (completion_claim now j (pc_expected_etag p) WRITE_LEASE_TTL))
     (\<lambda>won. ret_ok (if won then Some p else None))"

definition prepare_relay_completion :: "'w app \<Rightarrow> timestamp \<Rightarrow> i64 \<Rightarrow> i64 \<Rightarrow> i32 \<Rightarrow> uuid
    \<Rightarrow> (db, api_error, prepared_completion option) eff" where
  "prepare_relay_completion app now declared part_size count i = with_completion i (\<lambda>j d.
     let parts = completion_done_parts j d in
     case verify_part_sizes parts declared part_size count of
       Inl e \<Rightarrow> (Inl e, d)
     | Inr _ \<Rightarrow> claim_for now (prepared app parts) j d)"

text \<open>\<open>list\_parts\<close> may never return.\<close>

definition await_list_parts :: "'w sdk \<Rightarrow> string \<Rightarrow> string \<Rightarrow> string \<Rightarrow> ('w, api_error, (int \<times> int \<times> string) list) eff" where
  "await_list_parts S bucket key upload_id w = (case list_parts S bucket key upload_id w of
      None \<Rightarrow> (Inl Diverges, w)
    | Some (Inl e, w') \<Rightarrow> (Inl (Storage e), w')
    | Some (Inr parts, w') \<Rightarrow> (Inr parts, w'))"

definition prepare_completion :: "'w app \<Rightarrow> timestamp \<Rightarrow> uuid \<Rightarrow> file_access \<Rightarrow> int \<Rightarrow> storage_backend \<Rightarrow> string option
    \<Rightarrow> (db \<times> 'w, api_error, prepared_completion option) eff" where
  "prepare_completion app now i file part_size b upload_id =
     (let declared = int64 (fa_declared_size file); ps = int64 part_size in
      case part_count declared ps of
        None \<Rightarrow> fail Panicked
      | Some count \<Rightarrow>
          if sb_force_relay b then on_db (prepare_relay_completion app now declared ps count i)
          else (case upload_id of
              None \<Rightarrow> fail (internal ''direct multipart lease has no upload id'')
            | Some u \<Rightarrow>
                bind_eff (on_world (await_list_parts (ap_connections app (sb_spec b) InternalAddress) (bucket_of b) (fa_object_key file) u))
                (\<lambda>vendor. bind_eff (of_result (verify_part_sizes vendor declared ps count))
                (\<lambda>_. on_db (with_completion i (claim_for now (prepared app vendor)))))))"

definition complete_backend :: "'w app \<Rightarrow> file_access \<Rightarrow> string option \<Rightarrow> storage_backend \<Rightarrow> prepared_completion
    \<Rightarrow> ('w, api_error, string) eff" where
  "complete_backend app file upload_id b p = (case upload_id of
      None \<Rightarrow> fail (internal ''multipart lease has no upload id'')
    | Some u \<Rightarrow>
        bind_eff (world_op (complete_multipart (ap_connections app (sb_spec b) InternalAddress) (bucket_of b) (fa_object_key file) u (pc_parts p)))
        (\<lambda>vendor_etag.
           if \<not> eq_ic vendor_etag (pc_expected_etag p)
           then fail (Storage (ProviderMessage ''vendor multipart etag does not match the part ledger''))
           else ret_ok (pc_expected_etag p)))"

text \<open>
  The timing of one completion: when the claim and the final transaction run, at which instants the
  heartbeat ticks, which of its calls fail, and what an abandoned operation has done.
\<close>

record 'w timing =
  tm_claim :: timestamp
  tm_ticks :: "timestamp list"
  tm_fails :: "timestamp \<Rightarrow> db_error option"
  tm_dropped :: "'w \<Rightarrow> 'w"
  tm_finalize :: timestamp

definition complete_with_heartbeat :: "'w app \<Rightarrow> 'w timing \<Rightarrow> uuid \<Rightarrow> file_access \<Rightarrow> string option \<Rightarrow> storage_backend
    \<Rightarrow> prepared_completion \<Rightarrow> (db \<times> 'w, api_error, string option) eff" where
  "complete_with_heartbeat app tm i file upload_id b p s =
     (case run_with_native_completion_heartbeat (tm_fails tm) (tm_ticks tm) (tm_dropped tm) i (complete_backend app file upload_id b p) s of
        (None, s') \<Rightarrow> (Inr None, s')
      | (Some (Inl e), s') \<Rightarrow> (Inl e, s')
      | (Some (Inr etag), s') \<Rightarrow> (Inr (Some etag), s'))"

definition committed_or_conflict :: "string \<Rightarrow> uuid \<Rightarrow> (db \<times> 'w, api_error, response) eff" where
  "committed_or_conflict client i = bind_eff (on_db (current_etag client i)) (\<lambda>current. case current of
      Some etag \<Rightarrow> ret_ok (CommitOut i etag)
    | None \<Rightarrow> fail (conflict ''file is not committable''))"

definition commit_multipart :: "'w app \<Rightarrow> 'w timing \<Rightarrow> string \<Rightarrow> uuid \<Rightarrow> file_access \<Rightarrow> int \<Rightarrow> storage_backend
    \<Rightarrow> (db \<times> 'w, api_error, response) eff" where
  "commit_multipart app tm client i file part_size b s =
     (case write_lease (fst s) i of
        None \<Rightarrow> (Inl (internal ''multipart file has no write lease''), s)
      | Some lease \<Rightarrow>
          (case multipart_commit (prepare_completion app (tm_claim tm) i file part_size b (wl_upload_id lease))
                  (complete_with_heartbeat app tm i file (wl_upload_id lease) b)
                  (\<lambda>etag. on_db (db_op (finalize_completion (tm_finalize tm) i etag))) s of
             (Inr (Some etag), s') \<Rightarrow> (Inr (CommitOut i etag), s')
           | (Inr None, s') \<Rightarrow> committed_or_conflict client i s'
           | (Inl (Operation e), s') \<Rightarrow> (Inl e, s')
           | (Inl OwnershipLost, s') \<Rightarrow> (Inl (conflict ''multipart completion ownership was lost; retry commit''), s')))"

section \<open>files.rs: commit\<close>

definition commit :: "'w app \<Rightarrow> 'w timing \<Rightarrow> string \<Rightarrow> uuid \<Rightarrow> (db \<times> 'w, api_error, response) eff" where
  "commit app tm client i s = (case access client i (fst s) of
      None \<Rightarrow> (Inl (not_found ''file not found''), s)
    | Some file \<Rightarrow>
        if fa_state file = Active then (Inr (CommitOut i (case fa_etag file of None \<Rightarrow> [] | Some e \<Rightarrow> e)), s)
        else if fa_state file = Deleted then (Inl (conflict ''file is deleted''), s)
        else (case to_backend app (fa_storage file) of
            Inl e \<Rightarrow> (Inl e, s)
          | Inr b \<Rightarrow> (case fa_part_size file of
                Some part_size \<Rightarrow> commit_multipart app tm client i file part_size b s
              | None \<Rightarrow>
                  try_eff (single_commit (observe_single app b i (fa_object_key file))
                      (\<lambda>etag. on_db (db_op (finalize_commit (tm_finalize tm) i etag))) (on_db (current_etag client i))
                      (fa_declared_size file) (fa_declared_md5 file))
                    single_commit_api_error (\<lambda>c. ret_ok (CommitOut i (etag_committed c))) s)))"

section \<open>multipart\_create.rs\<close>

definition cleanup_failed_multipart_create :: "'w app \<Rightarrow> created_file \<Rightarrow> storage_backend \<Rightarrow> string option
    \<Rightarrow> db \<times> 'w \<Rightarrow> db \<times> 'w" where
  "cleanup_failed_multipart_create app created b vendor_upload_id s =
     (let S = ap_connections app (sb_spec b) InternalAddress in
      snd (cleanup_then_finalize
        (on_world (case vendor_upload_id of
            Some u \<Rightarrow> abort_multipart S (bucket_of b) (cf_object_key created) u
          | None \<Rightarrow> abort_multipart_by_key S (bucket_of b) (cf_object_key created)))
        (on_db (reclaim_pending (cf_file_id created))) s))"

definition create_vendor_upload :: "'w app \<Rightarrow> created_file \<Rightarrow> storage_backend \<Rightarrow> string option
    \<Rightarrow> (db \<times> 'w, api_error, string) eff" where
  "create_vendor_upload app created b content_type =
     on_world (world_op (create_multipart (ap_connections app (sb_spec b) InternalAddress) (bucket_of b) (cf_object_key created) content_type))"

definition attach_vendor_upload :: "created_file \<Rightarrow> string \<Rightarrow> (db \<times> 'w, api_error, unit) eff" where
  "attach_vendor_upload created upload_id = on_db (db_op (attach_upload_id (cf_lease_id created) upload_id))"

definition prepare_relay :: "'w app \<Rightarrow> created_file \<Rightarrow> storage_backend \<Rightarrow> (db \<times> 'w, api_error, unit) eff" where
  "prepare_relay app created b =
     (if is_relay b then
        (case relay_secret (ap_primitives app) (ap_crypto app) (ap_uuid_text app (cf_lease_id created)) of
           Inl e \<Rightarrow> fail (internal (show_core_error e))
         | Inr secret \<Rightarrow> on_db (db_op (attach_write_secret (cf_lease_id created) (client_key_hash (ap_primitives app) secret))))
      else ret_ok ())"

definition initialize_multipart :: "'w app \<Rightarrow> created_file \<Rightarrow> storage_backend \<Rightarrow> string option
    \<Rightarrow> (db \<times> 'w, api_error, unit) eff" where
  "initialize_multipart app created b content_type =
     initialize (create_vendor_upload app created b content_type) (attach_vendor_upload created)
       (prepare_relay app created b) (cleanup_failed_multipart_create app created b)"

section \<open>files.rs: create\<close>

record create_body =
  cb_declared_size :: i64
  cb_content_type :: "string option"
  cb_declared_md5 :: "string option"

text \<open>The time of the transaction, the new ids and the secret of a relay URL.\<close>

record create_input =
  ci_now :: timestamp
  ci_file_id :: uuid
  ci_lease_id :: uuid
  ci_url_secret :: string

definition check_create :: "'w app \<Rightarrow> create_body \<Rightarrow> api_error + bool" where
  "check_create app body =
     (case classify_upload (cb_declared_size body) (ap_multipart_threshold app) (ap_part_size app) (cb_declared_md5 body \<noteq> None) of
        Inl message \<Rightarrow> Inl (bad_request message)
      | Inr multipart \<Rightarrow>
          if (case cb_declared_md5 body of None \<Rightarrow> False | Some md5 \<Rightarrow> \<not> declared_md5_format_ok md5)
          then Inl (bad_request ''declared_md5 must be 32 hex chars'')
          else if (case cb_content_type body of None \<Rightarrow> False | Some ct \<Rightarrow> \<not> content_type_ok ct)
          then Inl (bad_request ''invalid content_type'')
          else Inr multipart)"

definition create_spec_of :: "'w app \<Rightarrow> string \<Rightarrow> create_body \<Rightarrow> bool \<Rightarrow> create_spec" where
  "create_spec_of app client body multipart =
     \<lparr>cs_client = client, cs_declared_size = sint (cb_declared_size body), cs_content_type = cb_content_type body,
      cs_declared_md5 = cb_declared_md5 body, cs_lease_ttl_secs = WRITE_LEASE_TTL,
      cs_part_size = (if multipart then Some (sint (ap_part_size app)) else None)\<rparr>"

definition put_url :: "'w app \<Rightarrow> create_input \<Rightarrow> created_file \<Rightarrow> storage_backend \<Rightarrow> string option
    \<Rightarrow> (db \<times> 'w, api_error, string) eff" where
  "put_url app c created b content_type =
     (if \<not> sb_force_relay b
      then on_world (world_op (presign_put (ap_connections app (sb_spec b) PublicAddress) (bucket_of b) (cf_object_key created) content_type WRITE_LEASE_TTL))
      else bind_eff (of_result (relay_base app)) (\<lambda>base.
           bind_eff (on_db (db_op (attach_write_secret (cf_lease_id created) (client_key_hash (ap_primitives app) (ci_url_secret c))))) (\<lambda>_.
           ret_ok (relay_url app base (cf_lease_id created) (ci_url_secret c) None))))"

definition create_file :: "'w app \<Rightarrow> create_input \<Rightarrow> string \<Rightarrow> create_body \<Rightarrow> (db \<times> 'w, api_error, response) eff" where
  "create_file app c client body =
     bind_eff (of_result (check_create app body)) (\<lambda>multipart.
     bind_eff (on_db (db_op (create (ap_uuid_text app) (ap_year_month app) (ci_now c) (ci_file_id c) (ci_lease_id c)
         (create_spec_of app client body multipart)))) (\<lambda>outcome.
     case outcome of
       NoClient \<Rightarrow> fail (internal ''authenticated client has no storage'')
     | Created created \<Rightarrow>
         bind_eff (of_result (to_backend app (cf_storage created))) (\<lambda>b.
         if multipart then
           bind_eff (initialize_multipart app created b (cb_content_type body)) (\<lambda>_.
           case part_count (cb_declared_size body) (ap_part_size app) of
             None \<Rightarrow> fail Panicked
           | Some count \<Rightarrow> ret_ok (CreateOut (cf_file_id created) None (Some (sint (ap_part_size app), sint count))))
         else
           bind_eff (put_url app c created b (cb_content_type body)) (\<lambda>url.
           ret_ok (CreateOut (cf_file_id created) (Some url) None)))))"

section \<open>files.rs: read, stat, delete\<close>

record read_input =
  ri_now :: timestamp
  ri_lease_id :: uuid
  ri_url_secret :: string

definition read_file :: "'w app \<Rightarrow> read_input \<Rightarrow> string \<Rightarrow> uuid \<Rightarrow> string option \<Rightarrow> (db \<times> 'w, api_error, response) eff" where
  "read_file app r client i filename s = (case access client i (fst s) of
      None \<Rightarrow> (Inl (not_found ''file not found''), s)
    | Some file \<Rightarrow>
        if fa_state file = Deleted then (Inl (conflict ''file is deleted''), s)
        else if fa_state file \<noteq> Active then (Inl (conflict ''file is not committed''), s)
        else (case to_backend app (fa_storage file) of
            Inl e \<Rightarrow> (Inl e, s)
          | Inr b \<Rightarrow>
              if \<not> sb_force_relay b then
                bind_eff (on_world (world_op (presign_get (ap_connections app (sb_spec b) PublicAddress) (bucket_of b) (fa_object_key file) filename READ_LEASE_TTL)))
                (\<lambda>url. on_db (\<lambda>d. (Inr (ReadOut i url),
                   audit_read (ri_now r) (ri_lease_id r) i (st_id (fa_storage file)) client (fa_declared_size file) d))) s
              else
                bind_eff (of_result (relay_base app)) (\<lambda>base.
                bind_eff (on_db (db_op (issue_read_lease (ri_now r) (ri_lease_id r) i READ_LEASE_TTL
                    (Some (client_key_hash (ap_primitives app) (ri_url_secret r))) (st_id (fa_storage file)) client (fa_declared_size file)))) (\<lambda>lease.
                ret_ok (ReadOut i (relay_url app base lease (ri_url_secret r) filename)))) s))"

definition stat_file :: "string \<Rightarrow> uuid \<Rightarrow> (db \<times> 'w, api_error, response) eff" where
  "stat_file client i s = (case stat client i (fst s) of
      None \<Rightarrow> (Inl (not_found ''file not found''), s)
    | Some t \<Rightarrow> if fs_state t = Reclaimed then (Inl (not_found ''file not found''), s)
        else (Inr (StatOut i (fs_state t) (fs_declared_size t)), s))"

definition delete_file :: "timestamp \<Rightarrow> string \<Rightarrow> uuid \<Rightarrow> (db \<times> 'w, api_error, response) eff" where
  "delete_file now client i = bind_eff (on_db (db_op (mark_deleted now client i))) (\<lambda>outcome. case outcome of
      NowDeleted \<Rightarrow> ret_ok (DeleteOut i)
    | AlreadyDeleted \<Rightarrow> ret_ok (DeleteOut i)
    | NotCommitted \<Rightarrow> fail (conflict ''file is not committed'')
    | NotFound \<Rightarrow> fail (not_found ''file not found''))"

section \<open>multipart.rs: part URLs\<close>

fun presign_parts :: "'w sdk \<Rightarrow> string \<Rightarrow> string \<Rightarrow> string \<Rightarrow> int list \<Rightarrow> ('w, api_error, (int \<times> string) list) eff" where
  "presign_parts S bucket key upload_id [] w = (Inr [], w)"
| "presign_parts S bucket key upload_id (n # ns) w =
     bind_eff (world_op (presign_upload_part S bucket key upload_id n WRITE_LEASE_TTL)) (\<lambda>url.
     bind_eff (presign_parts S bucket key upload_id ns) (\<lambda>rest. ret_ok ((n, url) # rest))) w"

text \<open>The secret a multipart lease was issued with, derived again from the key its stored hash selects.\<close>

definition relay_part_secret :: "'w app \<Rightarrow> uuid \<Rightarrow> string \<Rightarrow> api_error + string" where
  "relay_part_secret app lease stored =
     (let i = ap_uuid_text app lease; P = ap_primitives app in
      case relay_secret P (ap_crypto app) i of
        Inl e \<Rightarrow> Inl (internal (show_core_error e))
      | Inr active \<Rightarrow>
          if client_key_hash P active = stored then Inr active
          else (case relay_secret_prev P (ap_crypto app) i of
              Inl e \<Rightarrow> Inl (internal (show_core_error e))
            | Inr (Some prev) \<Rightarrow> if client_key_hash P prev = stored then Inr prev
                else Inl (conflict ''upload predates a key rotation; restart the upload'')
            | Inr None \<Rightarrow> Inl (conflict ''upload predates a key rotation; restart the upload'')))"

definition relay_part_urls :: "'w app \<Rightarrow> uuid \<Rightarrow> string option \<Rightarrow> int list \<Rightarrow> api_error + (int \<times> string) list" where
  "relay_part_urls app lease secret_hash ns =
     and_then (relay_base app) (\<lambda>base.
     and_then (case secret_hash of None \<Rightarrow> Inl (internal ''relay multipart lease has no secret hash'') | Some h \<Rightarrow> Inr h) (\<lambda>stored.
     and_then (relay_part_secret app lease stored) (\<lambda>secret.
       Inr (map (\<lambda>n. (n, base @ ''/blobs/'' @ ap_uuid_text app lease @ ''?s='' @ secret @ ''&part='' @ show_i32 n)) ns))))"

definition parts :: "'w app \<Rightarrow> timestamp \<Rightarrow> string \<Rightarrow> uuid \<Rightarrow> int list \<Rightarrow> (db \<times> 'w, api_error, response) eff" where
  "parts app now client i ns s = (case access client i (fst s) of
      None \<Rightarrow> (Inl (not_found ''file not found''), s)
    | Some file \<Rightarrow>
        if fa_state file \<noteq> Pending then (Inl (conflict ''file is not pending''), s)
        else (case fa_part_size file of
            None \<Rightarrow> (Inl (bad_request ''file is not a multipart upload''), s)
          | Some part_size \<Rightarrow> (case part_count (int64 (fa_declared_size file)) (int64 part_size) of
                None \<Rightarrow> (Inl Panicked, s)
              | Some count \<Rightarrow>
                  if ns = [] \<or> 1000 < length ns then (Inl (bad_request ''request 1 to 1000 parts at a time''), s)
                  else if list_ex (\<lambda>n. \<not> part_number_ok (int32 n) count) ns then (Inl (bad_request ''part number out of range''), s)
                  else (case write_lease (fst s) i of
                      None \<Rightarrow> (Inl (internal ''multipart file has no write lease''), s)
                    | Some lease \<Rightarrow>
                        bind_eff (on_db (db_op (extend_write_lease now (wl_lease_id lease) WRITE_LEASE_TTL))) (\<lambda>alive.
                        if \<not> alive then fail (conflict ''upload is no longer active'')
                        else bind_eff (of_result (to_backend app (fa_storage file))) (\<lambda>b.
                          bind_eff
                            (if \<not> sb_force_relay b
                             then (case wl_upload_id lease of
                                 None \<Rightarrow> fail (internal ''direct multipart lease has no upload id'')
                               | Some u \<Rightarrow> on_world (presign_parts (ap_connections app (sb_spec b) PublicAddress) (bucket_of b) (fa_object_key file) u ns))
                             else of_result (relay_part_urls app (wl_lease_id lease) (wl_secret_hash lease) ns))
                            (\<lambda>out. ret_ok (PartsOut out)))) s))))"

end
