(* ===== verification/S3_Auth.thy ===== *)
theory S3_Auth
  imports S3_Http S3_Credentials Native_Api
begin

text \<open>
  \<open>s3/auth.rs\<close>: SigV4 authentication of header-signed and presigned requests. The credential table,
  the clock and the libraries are arguments.
\<close>

section \<open>Requests\<close>

text \<open>\<open>bucket\<close> and \<open>key\<close> are the decoded path parameters of the router.\<close>

record s3_request =
  rq_method :: string
  rq_path :: string
  rq_query :: "string option"
  rq_headers :: headers
  rq_bucket :: string
  rq_key :: string
  rq_body :: "body_event list"

definition MAX_CLOCK_SKEW_SECS :: int where
  "MAX_CLOCK_SKEW_SECS = 15 * 60"

record sigv4 =
  sg_access_key :: string
  sg_scope_date :: string
  sg_region :: string
  sg_service :: string
  sg_terminator :: string
  sg_signed_headers :: "string list"
  sg_signature :: string
  sg_amz_date :: string
  sg_payload_hash :: string
  sg_canonical_query :: string

record authenticated =
  au_client_id :: string
  au_payload_hash :: string

record parsed_auth =
  pa_scope :: credential_fields
  pa_signed_headers :: "string list"
  pa_signature :: string

text \<open>\<open>ok\_or\<close>, \<open>map\_err\<close> and an early return, before a \<open>?\<close>.\<close>

definition ok_or :: "'e \<Rightarrow> 'a option \<Rightarrow> 'e + 'a" where
  "ok_or e x = (case x of None \<Rightarrow> Inl e | Some a \<Rightarrow> Inr a)"

definition map_err :: "('e \<Rightarrow> 'f) \<Rightarrow> 'e + 'a \<Rightarrow> 'f + 'a" where
  "map_err f r = (case r of Inl e \<Rightarrow> Inl (f e) | Inr a \<Rightarrow> Inr a)"

definition reject_if :: "bool \<Rightarrow> 'e \<Rightarrow> 'e + unit" where
  "reject_if refused e = (if refused then Inl e else Inr ())"

lemma ok_or_Inr [simp]: "ok_or e x = Inr a \<longleftrightarrow> x = Some a"
  by (cases x) (simp_all add: ok_or_def)

lemma map_err_Inr [simp]: "map_err f r = Inr a \<longleftrightarrow> r = Inr a"
  by (cases r) (simp_all add: map_err_def)

lemma reject_if_Inr [simp]: "reject_if c e = Inr u \<longleftrightarrow> \<not> c"
  by (simp add: reject_if_def)

section \<open>Header-signed requests\<close>

text \<open>The fields of the \<open>Authorization\<close> header seen so far: credential, signed headers, signature.\<close>

type_synonym auth_fields = "string option \<times> string list option \<times> string option"

fun auth_field :: "auth_fields \<Rightarrow> string \<Rightarrow> auth_fields option" where
  "auth_field (credential, listed, signature) part = (case split_once (CHR ''='') (trim part) of
      None \<Rightarrow> None
    | Some (name, v) \<Rightarrow>
        if name = ''Credential'' \<and> credential = None then Some (Some v, listed, signature)
        else if name = ''SignedHeaders'' then
          (if listed \<noteq> None then None
           else case signed_headers v of Inl _ \<Rightarrow> None | Inr names \<Rightarrow> Some (credential, Some names, signature))
        else if name = ''Signature'' \<and> signature = None then Some (credential, listed, Some v)
        else None)"

fun auth_fields :: "auth_fields \<Rightarrow> string list \<Rightarrow> auth_fields option" where
  "auth_fields seen [] = Some seen"
| "auth_fields seen (part # rest) = (case auth_field seen part of None \<Rightarrow> None | Some seen' \<Rightarrow> auth_fields seen' rest)"

definition AUTH_PREFIX :: string where
  "AUTH_PREFIX = ''AWS4-HMAC-SHA256 ''"

definition parse_auth :: "string \<Rightarrow> parsed_auth option" where
  "parse_auth auth =
     (if \<not> prefix AUTH_PREFIX auth then None
      else case auth_fields (None, None, None) (split_on (CHR '','') (drop (length AUTH_PREFIX) auth)) of
          Some (Some credential, listed, signature) \<Rightarrow> (case credential_scope credential of
              Inl _ \<Rightarrow> None
            | Inr scope \<Rightarrow> (case (listed, signature) of
                  (Some names, Some sig) \<Rightarrow> Some \<lparr>pa_scope = scope, pa_signed_headers = names, pa_signature = sig\<rparr>
                | _ \<Rightarrow> None))
        | _ \<Rightarrow> None)"

text \<open>\<open>amz\_date.get(..8) != Some(date)\<close>\<close>

definition date_differs :: "string \<Rightarrow> string \<Rightarrow> bool" where
  "date_differs amz_date date \<longleftrightarrow> \<not> (8 \<le> length amz_date \<and> take 8 amz_date = date)"

definition from_header :: "s3_lib \<Rightarrow> timestamp \<Rightarrow> s3_request \<Rightarrow> s3_response + sigv4" where
  "from_header L now r =
     (let hs = rq_headers r in
      and_then (ok_or (access_denied ''missing authorization'') (header_str L hs ''authorization'')) (\<lambda>auth.
      and_then (ok_or (access_denied ''malformed authorization'') (parse_auth auth)) (\<lambda>p.
      and_then (ok_or (access_denied ''missing x-amz-date'') (header_str L hs ''x-amz-date'')) (\<lambda>amz_date.
      and_then (reject_if (date_differs amz_date (sc_date (pa_scope p)))
          (access_denied ''x-amz-date does not match the credential scope'')) (\<lambda>_.
      and_then (ok_or (access_denied ''malformed x-amz-date'') (sl_amz_time L amz_date)) (\<lambda>request_time.
      and_then (reject_if (secs MAX_CLOCK_SKEW_SECS < \<bar>now - request_time\<bar>) (xml_error 403 ''RequestTimeTooSkewed''
          ''the difference between the request time and the server time is too large'')) (\<lambda>_.
      and_then (ok_or (access_denied ''missing x-amz-content-sha256'') (header_str L hs ''x-amz-content-sha256'')) (\<lambda>payload_hash.
      and_then (reject_if (prefix ''STREAMING-'' payload_hash)
          (xml_error 501 ''NotImplemented'' ''streaming payload signatures are not supported'')) (\<lambda>_.
      and_then (reject_if (\<not> valid_payload_hash payload_hash) (access_denied ''invalid x-amz-content-sha256'')) (\<lambda>_.
      Inr \<lparr>sg_access_key = sc_access_key (pa_scope p), sg_scope_date = sc_date (pa_scope p),
         sg_region = sc_region (pa_scope p), sg_service = ''s3'', sg_terminator = ''aws4_request'',
         sg_signed_headers = pa_signed_headers p, sg_signature = pa_signature p,
         sg_amz_date = amz_date, sg_payload_hash = payload_hash,
         sg_canonical_query = (case rq_query r of None \<Rightarrow> [] | Some q \<Rightarrow> canonicalize_query q)\<rparr>))))))))))"

section \<open>Presigned requests\<close>

text \<open>\<open>str::replace\<close> of a percent escape.\<close>

fun replace_escape :: "char \<Rightarrow> char \<Rightarrow> char \<Rightarrow> string \<Rightarrow> string" where
  "replace_escape a b c (x # y # z # rest) =
     (if x = CHR ''%'' \<and> y = a \<and> z = b then c # replace_escape a b c rest else x # replace_escape a b c (y # z # rest))"
| "replace_escape a b c s = s"

definition SIGNATURE_PARAMETERS :: "string list" where
  "SIGNATURE_PARAMETERS = [''X-Amz-Algorithm'', ''X-Amz-Credential'', ''X-Amz-Date'', ''X-Amz-Expires'',
     ''X-Amz-SignedHeaders'', ''X-Amz-Signature'']"

definition decoded_count :: "s3_lib \<Rightarrow> string \<Rightarrow> string \<Rightarrow> nat" where
  "decoded_count L query key = length (filter (\<lambda>pair.
     sl_lossy L (sl_percent_bytes L (hd (split_on (CHR ''='') pair))) = key) (split_on (CHR ''&'') query))"

definition from_query :: "s3_lib \<Rightarrow> timestamp \<Rightarrow> s3_request \<Rightarrow> s3_response + sigv4" where
  "from_query L now r =
     (let query = (case rq_query r of None \<Rightarrow> [] | Some q \<Rightarrow> q) in
      and_then (reject_if (list_ex (\<lambda>key. decoded_count L query key \<noteq> 1) SIGNATURE_PARAMETERS)
          (access_denied ''missing or duplicate signature parameter'')) (\<lambda>_.
      and_then (ok_or (access_denied ''missing X-Amz-Algorithm'') (query_value query ''X-Amz-Algorithm'')) (\<lambda>algorithm.
      and_then (reject_if (algorithm \<noteq> ''AWS4-HMAC-SHA256'') (access_denied ''unsupported signing algorithm'')) (\<lambda>_.
      and_then (ok_or (access_denied ''missing X-Amz-Credential'') (query_value query ''X-Amz-Credential'')) (\<lambda>credential.
      and_then (map_err access_denied (credential_scope (replace_escape (CHR ''2'') (CHR ''f'') (CHR ''/'')
          (replace_escape (CHR ''2'') (CHR ''F'') (CHR ''/'') credential)))) (\<lambda>scope.
      and_then (ok_or (access_denied ''missing X-Amz-Date'') (query_value query ''X-Amz-Date'')) (\<lambda>amz_date.
      and_then (reject_if (date_differs amz_date (sc_date scope))
          (access_denied ''X-Amz-Date does not match the credential scope'')) (\<lambda>_.
      and_then (ok_or (access_denied ''malformed X-Amz-Date'') (sl_amz_time L amz_date)) (\<lambda>request_time.
      and_then (map_err access_denied (presigned_expiry (case query_value query ''X-Amz-Expires'' of None \<Rightarrow> [] | Some v \<Rightarrow> v))) (\<lambda>expires.
      and_then (reject_if (now - request_time < - secs MAX_CLOCK_SKEW_SECS)
          (access_denied ''the presigned url is not yet valid'')) (\<lambda>_.
      and_then (reject_if (secs expires < now - request_time)
          (xml_error 403 ''AccessDenied'' ''the presigned url has expired'')) (\<lambda>_.
      and_then (ok_or (access_denied ''missing X-Amz-SignedHeaders'') (query_value query ''X-Amz-SignedHeaders'')) (\<lambda>names.
      and_then (map_err access_denied (signed_headers (replace_escape (CHR ''3'') (CHR ''b'') (CHR '';'')
          (replace_escape (CHR ''3'') (CHR ''B'') (CHR '';'') names)))) (\<lambda>listed.
      and_then (ok_or (access_denied ''missing X-Amz-Signature'') (query_value query ''X-Amz-Signature'')) (\<lambda>signature.
      Inr \<lparr>sg_access_key = sc_access_key scope, sg_scope_date = sc_date scope, sg_region = sc_region scope,
         sg_service = ''s3'', sg_terminator = ''aws4_request'', sg_signed_headers = listed, sg_signature = signature,
         sg_amz_date = amz_date, sg_payload_hash = ''UNSIGNED-PAYLOAD'',
         sg_canonical_query = canonicalize_query query\<rparr>)))))))))))))))"

section \<open>authenticate\<close>

definition select_signature :: "s3_lib \<Rightarrow> timestamp \<Rightarrow> s3_request \<Rightarrow> s3_response + sigv4" where
  "select_signature L now r =
     (if header_str L (rq_headers r) ''authorization'' \<noteq> None then from_header L now r
      else if (case rq_query r of None \<Rightarrow> False | Some q \<Rightarrow> sublist ''X-Amz-Signature='' q) then from_query L now r
      else Inl (access_denied ''missing authorization''))"

definition unsigned_amz_header :: "headers \<Rightarrow> string list \<Rightarrow> string \<Rightarrow> bool" where
  "unsigned_amz_header hs signed_names name \<longleftrightarrow> prefix ''x-amz-'' name \<and>
     \<not> (name = ''x-amz-content-sha256'' \<and> has_header hs ''authorization'') \<and> name \<notin> set signed_names"

definition canonical_header :: "headers \<Rightarrow> string \<Rightarrow> string" where
  "canonical_header hs name = join_with (CHR '','') (map canonical_header_value (get_all hs name))"

fun canonical_headers :: "s3_lib \<Rightarrow> headers \<Rightarrow> string list \<Rightarrow> s3_response + string" where
  "canonical_headers L hs [] = Inr []"
| "canonical_headers L hs (name # names) =
     (if \<not> list_all (sl_readable L) (get_all hs name) then Inl (access_denied ''invalid signed header'')
      else if get_all hs name = [] then Inl (access_denied ''signed header absent'')
      else (case canonical_headers L hs names of
          Inl e \<Rightarrow> Inl e
        | Inr rest \<Rightarrow> Inr (name @ CHR '':'' # canonical_header hs name @ CHR 0x0A # rest)))"

definition canonical_request :: "s3_request \<Rightarrow> sigv4 \<Rightarrow> string \<Rightarrow> string" where
  "canonical_request r sig canonical =
     rq_method r @ CHR 0x0A # rq_path r @ CHR 0x0A # sg_canonical_query sig @ CHR 0x0A # canonical @ CHR 0x0A #
     join_with (CHR '';'') (sg_signed_headers sig) @ CHR 0x0A # sg_payload_hash sig"

definition string_to_sign :: "(string \<Rightarrow> string) \<Rightarrow> sigv4 \<Rightarrow> string \<Rightarrow> string" where
  "string_to_sign sha256_hex sig request =
     ''AWS4-HMAC-SHA256'' @ CHR 0x0A # sg_amz_date sig @ CHR 0x0A #
     sg_scope_date sig @ ''/'' @ sg_region sig @ ''/s3/aws4_request'' @ CHR 0x0A # sha256_hex request"

definition expected_signature :: "primitives \<Rightarrow> s3_lib \<Rightarrow> s3_request \<Rightarrow> sigv4 \<Rightarrow> string \<Rightarrow> string \<Rightarrow> string" where
  "expected_signature P L r sig canonical secret =
     sign (sl_hmac L) (sl_hex_encode L) secret (sg_scope_date sig) (sg_region sig)
       (string_to_sign (\<lambda>x. sl_hex_encode L (sha256 P x)) sig (canonical_request r sig canonical))"

definition repeated_auth_header :: "headers \<Rightarrow> bool" where
  "repeated_auth_header hs \<longleftrightarrow> list_ex (\<lambda>name. 1 < length (get_all hs name))
     [''host'', ''authorization'', ''x-amz-date'', ''x-amz-content-sha256'']"

definition stored_secret :: "primitives \<Rightarrow> crypto \<Rightarrow> string \<Rightarrow> s3_credential \<Rightarrow> core_error + string" where
  "stored_secret P c access_key credential =
     decrypt P c (sk_enc_key credential) access_key
       \<lparr>es_ciphertext = bytes (sk_ciphertext credential), es_nonce = bytes (sk_nonce credential)\<rparr>"

definition authenticate :: "primitives \<Rightarrow> crypto \<Rightarrow> s3_lib \<Rightarrow> credential_row list \<Rightarrow> timestamp \<Rightarrow> s3_request
    \<Rightarrow> s3_response + authenticated" where
  "authenticate P c L credentials now r =
     (let hs = rq_headers r; content_sha = header_str L hs ''x-amz-content-sha256'' in
      if repeated_auth_header hs then Inl (access_denied ''duplicate authentication header'')
      else case select_signature L now r of
        Inl answer \<Rightarrow> Inl answer
      | Inr sig \<Rightarrow>
          if length (sg_signature sig) \<noteq> 64 \<or> \<not> list_all is_hexdigit (sg_signature sig)
          then Inl (access_denied ''invalid signature encoding'')
          else if (case content_sha of None \<Rightarrow> False | Some hash \<Rightarrow> \<not> valid_payload_hash hash)
          then Inl (access_denied ''invalid x-amz-content-sha256'')
          else if list_ex (\<lambda>(name, _). unsigned_amz_header hs (sg_signed_headers sig) name) hs
          then Inl (access_denied ''x-amz header must be signed'')
          else if sg_service sig \<noteq> ''s3'' \<or> sg_terminator sig \<noteq> ''aws4_request''
          then Inl (access_denied ''credential scope must be <date>/<region>/s3/aws4_request'')
          else (case get_credential (sg_access_key sig) credentials of
              None \<Rightarrow> Inl (xml_error 403 ''InvalidAccessKeyId'' ''the access key id does not exist'')
            | Some credential \<Rightarrow> (case stored_secret P c (sg_access_key sig) credential of
                  Inl _ \<Rightarrow> Inl xml_internal
                | Inr secret \<Rightarrow> (case canonical_headers L hs (sg_signed_headers sig) of
                      Inl answer \<Rightarrow> Inl answer
                    | Inr canonical \<Rightarrow>
                        if expected_signature P L r sig canonical secret = sg_signature sig
                        then Inr \<lparr>au_client_id = sk_client credential,
                          au_payload_hash = (case content_sha of None \<Rightarrow> sg_payload_hash sig | Some hash \<Rightarrow> hash)\<rparr>
                        else Inl (xml_error 403 ''SignatureDoesNotMatch'' ''the request signature does not match'')))))"

section \<open>What an accepted request proves\<close>

lemma auth_field_listed:
  "auth_field (a, b, s) part = Some (a', b', s') \<Longrightarrow> b' = b \<or> (\<exists>v names. signed_headers v = Inr names \<and> b' = Some names)"
  by (auto split: option.splits if_splits sum.splits)

lemma auth_fields_listed:
  "auth_fields (a, b, s) ps = Some (a', b', s') \<Longrightarrow> b' = b \<or> (\<exists>v names. signed_headers v = Inr names \<and> b' = Some names)"
proof (induction ps arbitrary: a b s)
  case (Cons part ps)
  then obtain a1 b1 s1 where step: "auth_field (a, b, s) part = Some (a1, b1, s1)"
      and rest: "auth_fields (a1, b1, s1) ps = Some (a', b', s')"
    by (auto split: option.splits)
  from auth_field_listed [OF step] Cons.IH [OF rest] show ?case by blast
qed simp

lemma parse_auth_listed:
  assumes "parse_auth auth = Some p"
  obtains v where "signed_headers v = Inr (pa_signed_headers p)"
proof -
  obtain credential names sig where
    "auth_fields (None, None, None) (split_on (CHR '','') (drop (length AUTH_PREFIX) auth)) = Some (Some credential, Some names, Some sig)"
    "pa_signed_headers p = names"
    using assms by (auto simp: parse_auth_def split: if_splits option.splits sum.splits)
  from auth_fields_listed [OF this(1)] this(2) that show thesis by auto
qed

definition within_window :: "s3_lib \<Rightarrow> timestamp \<Rightarrow> sigv4 \<Rightarrow> bool" where
  "within_window L now sig = (case sl_amz_time L (sg_amz_date sig) of None \<Rightarrow> False
     | Some t \<Rightarrow> t - secs MAX_CLOCK_SKEW_SECS \<le> now \<and> now \<le> t + secs 604800)"

lemma presigned_expiry_bounds: "presigned_expiry v = Inr n \<Longrightarrow> 1 \<le> n \<and> n \<le> 604800"
  by (auto simp: presigned_expiry_def split: if_splits option.splits)

lemma select_signatureD:
  assumes "select_signature L now r = Inr sig"
  obtains v where "signed_headers v = Inr (sg_signed_headers sig)" "within_window L now sig"
    "valid_payload_hash (sg_payload_hash sig)" "sg_service sig = ''s3''" "sg_terminator sig = ''aws4_request''"
    "take 8 (sg_amz_date sig) = sg_scope_date sig"
    "sg_canonical_query sig = canonicalize_query (case rq_query r of None \<Rightarrow> [] | Some q \<Rightarrow> q)"
proof -
  have empty: "canonicalize_query [] = []"
    by (simp add: canonicalize_query_def query_pairs_def)
  have "from_header L now r = Inr sig \<or> from_query L now r = Inr sig"
    using assms by (auto simp: select_signature_def split: if_splits)
  then show thesis
  proof
    assume "from_header L now r = Inr sig"
    then obtain auth p t where a: "parse_auth auth = Some p" "sl_amz_time L (sg_amz_date sig) = Some t"
        "\<not> secs MAX_CLOCK_SKEW_SECS < \<bar>now - t\<bar>" "sg_signed_headers sig = pa_signed_headers p"
        "valid_payload_hash (sg_payload_hash sig)" "sg_service sig = ''s3''" "sg_terminator sig = ''aws4_request''"
        "\<not> date_differs (sg_amz_date sig) (sg_scope_date sig)"
        "sg_canonical_query sig = (case rq_query r of None \<Rightarrow> [] | Some q \<Rightarrow> canonicalize_query q)"
      by (auto simp: from_header_def and_then_Inr Let_def)
    obtain v where "signed_headers v = Inr (pa_signed_headers p)" by (rule parse_auth_listed [OF a(1)])
    moreover have "within_window L now sig"
      using a(2,3) by (auto simp: within_window_def MAX_CLOCK_SKEW_SECS_def secs_def abs_if split: if_splits)
    ultimately show thesis
      using a by (intro that [of v]) (auto simp: date_differs_def empty split: option.splits)
  next
    assume "from_query L now r = Inr sig"
    then obtain v t w n where a: "signed_headers v = Inr (sg_signed_headers sig)" "sl_amz_time L (sg_amz_date sig) = Some t"
        "\<not> now - t < - secs MAX_CLOCK_SKEW_SECS" "presigned_expiry w = Inr n" "\<not> secs n < now - t"
        "sg_payload_hash sig = ''UNSIGNED-PAYLOAD''" "sg_service sig = ''s3''" "sg_terminator sig = ''aws4_request''"
        "\<not> date_differs (sg_amz_date sig) (sg_scope_date sig)"
        "sg_canonical_query sig = canonicalize_query (case rq_query r of None \<Rightarrow> [] | Some q \<Rightarrow> q)"
      by (auto simp: from_query_def and_then_Inr Let_def)
    have "within_window L now sig"
      using a(2,3,5) presigned_expiry_bounds [OF a(4)] by (simp add: within_window_def secs_def)
    with a show thesis
      by (intro that [of v]) (auto simp: valid_payload_hash_def date_differs_def)
  qed
qed

lemma signed_headersD:
  assumes "signed_headers v = Inr names"
  shows "names \<noteq> []" "''host'' \<in> set names" "list_all (\<lambda>n. list_all header_name_char n) names"
  using assms by (auto simp: signed_headers_def Let_def list_ex_iff list_all_iff split: if_splits)

text \<open>The header that authentication leaves outside the signature of a header-signed request is its payload hash.\<close>

definition covered :: "headers \<Rightarrow> sigv4 \<Rightarrow> string \<times> string \<Rightarrow> bool" where
  "covered hs sig h \<longleftrightarrow> \<not> prefix ''x-amz-'' (fst h) \<or> fst h \<in> set (sg_signed_headers sig) \<or>
     (fst h = ''x-amz-content-sha256'' \<and> has_header hs ''authorization'')"


section \<open>One signature, one request\<close>

lemma set_join_with: "set (join_with d ps) \<subseteq> insert d (\<Union> (set ` set ps))"
  by (induction d ps rule: join_with.induct) auto

lemma set_join_with_ge: "p \<in> set ps \<Longrightarrow> set p \<subseteq> set (join_with d ps)"
  by (induction d ps rule: join_with.induct) auto

lemma set_split_on: "p \<in> set (split_on d s) \<Longrightarrow> set p \<subseteq> set s"
  using set_join_with_ge [of p "split_on d s" d] by simp

lemma set_key_value: "set (fst (key_value p)) \<union> set (snd (key_value p)) \<subseteq> set p"
  by (auto simp: key_value_def dest!: split_once_Some split: option.splits)

lemma canonicalize_query_chars: "set (canonicalize_query q) \<subseteq> set q \<union> {CHR ''='', CHR ''&''}"
proof -
  have "set (k @ CHR ''='' # v) \<subseteq> set q \<union> {CHR ''=''}" if kv: "(k, v) \<in> set (query_pairs q)" for k v
  proof -
    obtain p where "p \<in> set (split_on (CHR ''&'') q)" "key_value p = (k, v)"
      using kv by (auto simp: query_pairs_def)
    then show ?thesis using set_key_value [of p] set_split_on [of p "CHR ''&''" q] by auto
  qed
  then show ?thesis
    unfolding canonicalize_query_def using set_join_with by (fastforce simp: subset_iff)
qed

lemma ascii_words_no_space:
  "list_all (\<lambda>c. \<not> is_ascii_space c) acc \<Longrightarrow> list_all (list_all (\<lambda>c. \<not> is_ascii_space c)) (ascii_words acc s)"
  by (induction acc s rule: ascii_words.induct) simp_all

lemma canonical_header_no_newline: "CHR 0x0A \<notin> set (canonical_header hs name)"
proof -
  have nl: "is_ascii_space (CHR 0x0A)" by (simp add: is_ascii_space_def code_def)
  have "CHR 0x0A \<notin> set (canonical_header_value v)" for v
    unfolding canonical_header_value_def
    using set_join_with [of "CHR '' ''" "ascii_words [] v"] ascii_words_no_space [of "[]" v] nl
    by (auto simp: list_all_iff)
  then show ?thesis
    unfolding canonical_header_def
    using set_join_with [of "CHR '',''" "map canonical_header_value (get_all hs name)"] by auto
qed

text \<open>What a request asks to have verified: the fields of its signature and the text they sign.\<close>

definition signing_input :: "s3_lib \<Rightarrow> timestamp \<Rightarrow> s3_request \<Rightarrow> (sigv4 \<times> string) option" where
  "signing_input L now r = (case select_signature L now r of
      Inl _ \<Rightarrow> None
    | Inr sig \<Rightarrow> (case canonical_headers L (rq_headers r) (sg_signed_headers sig) of
          Inl _ \<Rightarrow> None
        | Inr canonical \<Rightarrow> Some (sig, canonical_request r sig canonical)))"

text \<open>An HTTP request line has no newline inside its method, path or query.\<close>

definition one_line :: "s3_request \<Rightarrow> bool" where
  "one_line r \<longleftrightarrow> CHR 0x0A \<notin> set (rq_method r) \<and> CHR 0x0A \<notin> set (rq_path r) \<and>
     (case rq_query r of None \<Rightarrow> True | Some q \<Rightarrow> CHR 0x0A \<notin> set q)"

definition header_line :: "headers \<Rightarrow> string \<Rightarrow> string" where
  "header_line hs name = name @ CHR '':'' # canonical_header hs name"

definition request_lines :: "s3_request \<Rightarrow> sigv4 \<Rightarrow> string list" where
  "request_lines r sig = [rq_method r, rq_path r, sg_canonical_query sig] @
     map (header_line (rq_headers r)) (sg_signed_headers sig) @
     [[], join_with (CHR '';'') (sg_signed_headers sig), sg_payload_hash sig]"

lemma join_with_Cons: "ps \<noteq> [] \<Longrightarrow> join_with d (p # ps) = p @ d # join_with d ps"
  by (cases ps) simp_all

lemma canonical_headers_lines:
  "canonical_headers L hs names = Inr canonical \<Longrightarrow> rest \<noteq> [] \<Longrightarrow>
     join_with (CHR 0x0A) (map (header_line hs) names @ rest) = canonical @ join_with (CHR 0x0A) rest"
  by (induction names arbitrary: canonical)
     (auto simp: header_line_def join_with_Cons split: if_splits sum.splits)

lemma canonical_request_lines:
  "canonical_headers L (rq_headers r) (sg_signed_headers sig) = Inr canonical \<Longrightarrow>
     canonical_request r sig canonical = join_with (CHR 0x0A) (request_lines r sig)"
  by (simp add: canonical_request_def request_lines_def join_with_Cons canonical_headers_lines)

lemma header_name_char_iff:
  "header_name_char c \<longleftrightarrow> is_lower c \<or> is_digit c \<or>
     code c \<in> {33, 35, 36, 37, 38, 39, 42, 43, 45, 46, 94, 95, 96, 124, 126}"
proof -
  have byte: "c = char_of n \<longleftrightarrow> code c = n" if "n < 256" for n :: nat
    using that by (auto simp: code_def)
  show ?thesis
    by (simp add: header_name_char_def bytes_def byte)
qed

lemma header_name_char_code: "header_name_char c \<Longrightarrow> code c \<notin> {10, 58, 59}"
  by (auto simp: header_name_char_iff is_lower_def is_digit_def)

lemma header_name_char_plain:
  "header_name_char c \<Longrightarrow> c \<noteq> CHR '':'' \<and> c \<noteq> CHR '';'' \<and> c \<noteq> CHR 0x0A"
  using header_name_char_code [of c] by (auto simp: code_def)

lemma signed_names_plain:
  assumes "signed_headers v = Inr names" "n \<in> set names"
  shows "CHR '':'' \<notin> set n" "CHR '';'' \<notin> set n" "CHR 0x0A \<notin> set n"
  using signed_headersD(3) [OF assms(1)] assms(2) header_name_char_plain
  by (fastforce simp: list_all_iff)+

lemma valid_payload_hash_one_line: "valid_payload_hash h \<Longrightarrow> CHR 0x0A \<notin> set h"
  by (auto simp: valid_payload_hash_def list_all_iff is_hexdigit_def is_digit_def code_def)

lemma request_lines_plain:
  assumes sel: "select_signature L now r = Inr sig" and "one_line r"
  shows "\<forall>l \<in> set (request_lines r sig). CHR 0x0A \<notin> set l"
proof -
  obtain v where v: "signed_headers v = Inr (sg_signed_headers sig)" "valid_payload_hash (sg_payload_hash sig)"
    "sg_canonical_query sig = canonicalize_query (case rq_query r of None \<Rightarrow> [] | Some q \<Rightarrow> q)"
    by (rule select_signatureD [OF sel])
  have names: "CHR 0x0A \<notin> set n" if "n \<in> set (sg_signed_headers sig)" for n
    by (rule signed_names_plain(3) [OF v(1) that])
  have "CHR 0x0A \<notin> set (sg_canonical_query sig)"
    using canonicalize_query_chars [of "case rq_query r of None \<Rightarrow> [] | Some q \<Rightarrow> q"] assms(2)
    by (auto simp: v(3) one_line_def split: option.splits)
  moreover have "CHR 0x0A \<notin> set (join_with (CHR '';'') (sg_signed_headers sig))"
    using set_join_with [of "CHR '';''" "sg_signed_headers sig"] names by auto
  ultimately show ?thesis
    using assms(2) names canonical_header_no_newline valid_payload_hash_one_line [OF v(2)]
    by (auto simp: request_lines_def one_line_def header_line_def)
qed

text \<open>
  C18. A signature is good for one request only: if two requests put the same text before the hash
  and the MAC, they have the same method, the same path, the same operation, upload id and part
  number whatever the spelling of their queries, the same signed headers with the same values, and
  the same payload hash. No two different requests share a text to sign.
\<close>

theorem one_signature_one_request:
  assumes "signing_input L now r = Some (sig, t)" "signing_input L now' r' = Some (sig', t)"
    and "one_line r" "one_line r'"
  shows "rq_method r = rq_method r' \<and> rq_path r = rq_path r' \<and>
    classify (rq_method r) (case rq_query r of None \<Rightarrow> [] | Some q \<Rightarrow> q) copy =
      classify (rq_method r') (case rq_query r' of None \<Rightarrow> [] | Some q \<Rightarrow> q) copy \<and>
    sg_signed_headers sig = sg_signed_headers sig' \<and>
    map (canonical_header (rq_headers r)) (sg_signed_headers sig) = map (canonical_header (rq_headers r')) (sg_signed_headers sig') \<and>
    sg_payload_hash sig = sg_payload_hash sig'"
proof -
  obtain c where sel: "select_signature L now r = Inr sig" and c: "canonical_headers L (rq_headers r) (sg_signed_headers sig) = Inr c"
      and t: "t = canonical_request r sig c"
    using assms(1) by (auto simp: signing_input_def split: sum.splits)
  obtain c' where sel': "select_signature L now' r' = Inr sig'" and c': "canonical_headers L (rq_headers r') (sg_signed_headers sig') = Inr c'"
      and t': "t = canonical_request r' sig' c'"
    using assms(2) by (auto simp: signing_input_def split: sum.splits)
  have "request_lines r sig = split_on (CHR 0x0A) t"
    using split_join [OF _ request_lines_plain [OF sel assms(3)]] by (simp add: t canonical_request_lines [OF c] request_lines_def)
  moreover have "request_lines r' sig' = split_on (CHR 0x0A) t"
    using split_join [OF _ request_lines_plain [OF sel' assms(4)]] by (simp add: t' canonical_request_lines [OF c'] request_lines_def)
  ultimately have "request_lines r sig = request_lines r' sig'" by simp
  then have eqs: "rq_method r = rq_method r'" "rq_path r = rq_path r'" "sg_canonical_query sig = sg_canonical_query sig'"
      "map (header_line (rq_headers r)) (sg_signed_headers sig) = map (header_line (rq_headers r')) (sg_signed_headers sig')"
      "sg_payload_hash sig = sg_payload_hash sig'"
    by (simp_all add: request_lines_def)
  obtain v where v: "signed_headers v = Inr (sg_signed_headers sig)"
      "sg_canonical_query sig = canonicalize_query (case rq_query r of None \<Rightarrow> [] | Some q \<Rightarrow> q)"
    by (rule select_signatureD [OF sel])
  obtain v' where v': "signed_headers v' = Inr (sg_signed_headers sig')"
      "sg_canonical_query sig' = canonicalize_query (case rq_query r' of None \<Rightarrow> [] | Some q \<Rightarrow> q)"
    by (rule select_signatureD [OF sel'])
  have parse: "map (\<lambda>l. the (split_once (CHR '':'') l)) (map (header_line hs) names) = map (\<lambda>n. (n, canonical_header hs n)) names"
    if "signed_headers w = Inr names" for w hs names
    using signed_names_plain(1) [OF that] by (simp add: header_line_def)
  have "map (\<lambda>n. (n, canonical_header (rq_headers r) n)) (sg_signed_headers sig) =
      map (\<lambda>n. (n, canonical_header (rq_headers r') n)) (sg_signed_headers sig')"
    using eqs(4) parse [OF v(1)] parse [OF v'(1)] by metis
  then have "map fst (map (\<lambda>n. (n, canonical_header (rq_headers r) n)) (sg_signed_headers sig)) =
      map fst (map (\<lambda>n. (n, canonical_header (rq_headers r') n)) (sg_signed_headers sig'))"
    and "map snd (map (\<lambda>n. (n, canonical_header (rq_headers r) n)) (sg_signed_headers sig)) =
      map snd (map (\<lambda>n. (n, canonical_header (rq_headers r') n)) (sg_signed_headers sig'))"
    by simp_all
  moreover have "classify m (case rq_query r of None \<Rightarrow> [] | Some q \<Rightarrow> q) copy =
      classify m (case rq_query r' of None \<Rightarrow> [] | Some q \<Rightarrow> q) copy" for m
    using eqs(3) v(2) v'(2) classify_canonical by metis
  ultimately show ?thesis
    using eqs by (simp add: comp_def)
qed

section \<open>Witnesses\<close>

text \<open>Libraries that accept everything, and a signature of 64 zeros.\<close>

definition demo_lib :: s3_lib where
  "demo_lib = \<lparr>sl_readable = \<lambda>_. True, sl_header_ok = \<lambda>_. True, sl_percent_bytes = id, sl_lossy = id,
     sl_amz_time = \<lambda>s. if s = ''20260101T000000Z'' then Some 0 else None, sl_uuid = \<lambda>s. if s = ''u'' then Some 5 else None,
     sl_hmac = \<lambda>_ m. m, sl_hex_encode = \<lambda>_. ''0000000000000000000000000000000000000000000000000000000000000000'', sl_hex_decode = Some, sl_base64_decode = Some,
     sl_xml = \<lambda>_. None, sl_utf8 = \<lambda>_. True,
     sl_hashes = \<lparr>hs_md5_hex = id, hs_sha256_hex = id, hs_crc32 = \<lambda>_. 0\<rparr>\<rparr>"

definition demo_request :: "string \<Rightarrow> s3_request" where
  "demo_request query = \<lparr>rq_method = ''GET'', rq_path = ''/c1/k'', rq_query = Some query,
     rq_headers = [(''host'', ''h''), (''x-amz-date'', ''20260101T000000Z''), (''x-amz-content-sha256'', ''UNSIGNED-PAYLOAD''),
       (''authorization'', ''AWS4-HMAC-SHA256 Credential=abcdefgh/20260101/r/s3/aws4_request,SignedHeaders=host;x-amz-date,Signature=0000000000000000000000000000000000000000000000000000000000000000'')],
     rq_bucket = ''c1'', rq_key = ''k'', rq_body = []\<rparr>"

definition demo_credentials :: "credential_row list" where
  "demo_credentials = [\<lparr>cr_access_key = ''abcdefgh'', cr_client = ''c1'', cr_ciphertext = [115, 107],
     cr_nonce = replicate 12 0, cr_enc_key = ''v1'', cr_created_at = 0\<rparr>]"

definition demo_primitives :: primitives where
  "demo_primitives = toy_primitives\<lparr>unseal := \<lambda>k n a ct. Some ct\<rparr>"

definition demo_crypto :: crypto where
  "demo_crypto = \<lparr>cr_active = toy_key ''v1'', cr_prev = None\<rparr>"

lemma demo_parse_auth:
  "parse_auth ''AWS4-HMAC-SHA256 Credential=abcdefgh/20260101/r/s3/aws4_request,SignedHeaders=host;x-amz-date,Signature=0000000000000000000000000000000000000000000000000000000000000000'' =
     Some \<lparr>pa_scope = \<lparr>sc_access_key = ''abcdefgh'', sc_date = ''20260101'', sc_region = ''r''\<rparr>,
       pa_signed_headers = [''host'', ''x-amz-date''], pa_signature = ''0000000000000000000000000000000000000000000000000000000000000000''\<rparr>"
  by (simp add: parse_auth_def AUTH_PREFIX_def trim_ascii printable_def code_def credential_scope_def is_digit_def signed_headers_def
      header_name_char_iff is_lower_def)

lemma demo_selected:
  "\<exists>q. select_signature demo_lib 1 (demo_request query) = Inr \<lparr>sg_access_key = ''abcdefgh'', sg_scope_date = ''20260101'',
     sg_region = ''r'', sg_service = ''s3'', sg_terminator = ''aws4_request'', sg_signed_headers = [''host'', ''x-amz-date''],
     sg_signature = ''0000000000000000000000000000000000000000000000000000000000000000'', sg_amz_date = ''20260101T000000Z'', sg_payload_hash = ''UNSIGNED-PAYLOAD'', sg_canonical_query = q\<rparr>"
  by (simp add: select_signature_def from_header_def demo_request_def header_str_def get_all_def demo_lib_def demo_parse_auth
      ok_or_def reject_if_def date_differs_def MAX_CLOCK_SKEW_SECS_def secs_def valid_payload_hash_def)

lemma demo_canonical: "canonicalize_query ''b=2&a=1'' = ''a=1&b=2''" "canonicalize_query ''&a=1&b=2'' = ''a=1&b=2''"
  by code_simp+

lemma demo_authenticated:
  "authenticate demo_primitives demo_crypto demo_lib demo_credentials 1 (demo_request query) =
     Inr \<lparr>au_client_id = ''c1'', au_payload_hash = ''UNSIGNED-PAYLOAD''\<rparr>"
proof -
  obtain q where "select_signature demo_lib 1 (demo_request query) = Inr \<lparr>sg_access_key = ''abcdefgh'', sg_scope_date = ''20260101'',
     sg_region = ''r'', sg_service = ''s3'', sg_terminator = ''aws4_request'', sg_signed_headers = [''host'', ''x-amz-date''],
     sg_signature = ''0000000000000000000000000000000000000000000000000000000000000000'', sg_amz_date = ''20260101T000000Z'',
     sg_payload_hash = ''UNSIGNED-PAYLOAD'', sg_canonical_query = q\<rparr>"
    using demo_selected by blast
  moreover have "stored_secret demo_primitives demo_crypto ''abcdefgh''
      \<lparr>sk_client = ''c1'', sk_ciphertext = [115, 107], sk_nonce = replicate 12 0, sk_enc_key = ''v1''\<rparr> = Inr ''sk''"
    by code_simp
  ultimately show ?thesis
    by (simp add: authenticate_def demo_request_def repeated_auth_header_def header_str_def get_all_def demo_lib_def
        valid_payload_hash_def unsigned_amz_header_def has_header_def is_hexdigit_def is_digit_def code_def
        get_credential_def demo_credentials_def expected_signature_def sign_def)
qed


theorem one_signature_one_request_witness:
  "classify (rq_method (demo_request ''b=2&a=1'')) ''b=2&a=1'' False = classify (rq_method (demo_request ''&a=1&b=2'')) ''&a=1&b=2'' False"
proof -
  have input: "\<exists>t. signing_input demo_lib 1 (demo_request q) = Some (\<lparr>sg_access_key = ''abcdefgh'', sg_scope_date = ''20260101'',
     sg_region = ''r'', sg_service = ''s3'', sg_terminator = ''aws4_request'', sg_signed_headers = [''host'', ''x-amz-date''],
     sg_signature = ''0000000000000000000000000000000000000000000000000000000000000000'', sg_amz_date = ''20260101T000000Z'',
     sg_payload_hash = ''UNSIGNED-PAYLOAD'', sg_canonical_query = ''a=1&b=2''\<rparr>, t) \<and>
      t = ''GET'' @ CHR 0x0A # ''/c1/k'' @ CHR 0x0A # ''a=1&b=2'' @ CHR 0x0A # ''host:h'' @ CHR 0x0A # ''x-amz-date:20260101T000000Z'' @
        CHR 0x0A # CHR 0x0A # ''host;x-amz-date'' @ CHR 0x0A # ''UNSIGNED-PAYLOAD''"
    if c: "canonicalize_query q = ''a=1&b=2''" for q
  proof -
    obtain x where sel: "select_signature demo_lib 1 (demo_request q) = Inr \<lparr>sg_access_key = ''abcdefgh'', sg_scope_date = ''20260101'',
       sg_region = ''r'', sg_service = ''s3'', sg_terminator = ''aws4_request'', sg_signed_headers = [''host'', ''x-amz-date''],
       sg_signature = ''0000000000000000000000000000000000000000000000000000000000000000'', sg_amz_date = ''20260101T000000Z'',
       sg_payload_hash = ''UNSIGNED-PAYLOAD'', sg_canonical_query = x\<rparr>"
      using demo_selected by blast
    have "x = ''a=1&b=2''"
      using select_signatureD [OF sel] by (auto simp: demo_request_def c)
    with sel show ?thesis
      by (simp add: signing_input_def demo_request_def get_all_def demo_lib_def canonical_header_def canonical_header_value_def
          is_ascii_space_def code_def canonical_request_def)
  qed
  obtain sig t sig' where a: "signing_input demo_lib 1 (demo_request ''b=2&a=1'') = Some (sig, t)"
      "signing_input demo_lib 1 (demo_request ''&a=1&b=2'') = Some (sig', t)"
    using input [OF demo_canonical(1)] input [OF demo_canonical(2)] by blast
  have "one_line (demo_request ''b=2&a=1'')" "one_line (demo_request ''&a=1&b=2'')"
    by (simp_all add: one_line_def demo_request_def)
  from one_signature_one_request [OF a this, of False] show ?thesis
    by (simp add: demo_request_def)
qed

end
