(* ===== verification/S3_Publication.thy ===== *)
theory S3_Publication
  imports S3_Uploads
begin

text \<open>
  What the S3 sessions promise their clients: a completion is claimed once and excludes every
  other transition of the file, recovery waits for the owner's lease and can undo the claim, and
  a key is published atomically and at most once under \<open>If-None-Match\<close>.
\<close>

section \<open>Publication\<close>

text \<open>
  C2. Publication is atomic: when finalizing succeeds, the file becomes active with exactly the
  size and ETag that the completion claim recorded, its session is gone, the key maps to it, the
  file it displaced is detached if it was active, and nothing else changed. It succeeds only for a
  pending file of the client whose completion of this key was claimed.
\<close>

theorem publication_is_atomic:
  assumes "db_ok d" "finalize_upload now c k i m d = (Inr (Finalized gone), d')"
  shows "\<exists>f u sz etag. v_file (view d i) = Some f \<and> f_client f = c \<and> f_state f = Pending \<and>
    v_upload (view d i) = Some u \<and> s3_session k m u \<and> u_state u = Completing \<and>
    u_expected_size u = Some sz \<and> u_expected_etag u = Some etag \<and>
    view d' i = (view d i)\<lparr>v_file := Some (f\<lparr>f_state := Active, f_declared_size := sz, f_etag := Some etag,
      f_committed_at := Some now\<rparr>), v_leases := settle Committed (v_leases (view d i)), v_upload := None\<rparr> \<and>
    gone = (if u_if_none_match u then None else displaced (get_key c k d) i) \<and>
    (\<forall>c' k'. get_key c' k' d' = (if (c', k') = (c, k) then Some i else get_key c' k' d)) \<and>
    (\<forall>j. j = i \<or> view d' j = (if gone = Some j then detached now (view d j) else view d j))"
  using assms
proof (cases rule: finalize_upload_cases)
  case (finalized f u sz etag g)
  have gone: "g = gone" using finalized(1) by simp
  have others: "j = i \<or> view d' j = (if gone = Some j then detached now (view d j) else view d j)" for j
    using finalized(7) [of j] unfolding gone by blast
  show ?thesis
    using finalized(2,3,5,6) others unfolding publishable_def gone by blast
qed auto

text \<open>
  C3. \<open>If-None-Match: *\<close> has one winner: once a file has been published under a key, a conditional
  completion of the same key by another file fails with PreconditionFailed. The loser stays out of
  the name space and keeps its recorded address until its object is cleaned up, and the cleanup
  that follows reclaims it.
\<close>

theorem if_none_match_single_winner:
  assumes "db_ok d" "finalize_upload n1 c k i m1 d = (Inr (Finalized gone), d1)"
    and "publishable d c k j m2 f u sz etag" "u_if_none_match u" "j \<noteq> i"
    and "finalize_upload n2 c k j m2 d1 = (r, d2)"
  shows "r = Inr PreconditionFailed \<and> get_key c k d2 = Some i \<and> v_file (view d2 j) = Some f \<and>
    v_loc (view d2 j) = v_loc (view d j) \<and> v_loc (view d2 j) \<noteq> None \<and> fst (finalize_abort j d2) = Inr True"
proof -
  note p = publishableD [OF assms(3)]
  have "get_key c k d1 = Some i \<and> view d1 j = view d j \<and> db_ok d1"
    using assms(1,2)
  proof (cases rule: finalize_upload_cases)
    case (finalized f' u' sz' etag' g)
    have "db_ok d1" using db_ok_sim [OF assms(1) finalized(8,9)] .
    moreover have "view d1 j = view d j" using finalized(7) [of j] assms(5) p(1,3) by (simp add: detached_pending)
    ultimately show ?thesis using finalized(6) by simp
  qed auto
  then have key: "get_key c k d1 = Some i" and same: "view d1 j = view d j" and ok1: "db_ok d1" by auto
  have pub: "publishable d1 c k j m2 f u sz etag" using assms(3) unfolding publishable_def same .
  from ok1 assms(6) show ?thesis
  proof (cases rule: finalize_upload_cases)
    case not_pending
    with pub show ?thesis by blast
  next
    case (finalized f' u' sz' etag' g)
    from finalized(2) pub have "u' = u" by (auto simp: publishable_def)
    with finalized(4) assms(4) key show ?thesis by simp
  next
    case (lost f' u' sz' etag' j')
    have uf: "u' = u" "f' = f" using lost(2) pub by (auto simp: publishable_def)
    note v2 = at_fileD(2) [OF lost(5)]
    have loc: "v_loc (view d j) \<noteq> None" using db_okD(2) [OF assms(1), of j] p(1,3) by (simp add: view_ok_def)
    have ok2: "db_ok d2" by (rule finalize_upload.keeps_db_ok [OF ok1 assms(6)])
    obtain r3 d3 where run: "finalize_abort j d2 = (r3, d3)" by fastforce
    have "r3 = Inr True"
      using ok2 run [unfolded finalize_abort_def]
    proof (cases rule: finalize_reclaimed_cases)
      case refused
      have "v_upload (view d2 j) = Some (to_cleaning n2 u')" unfolding v2 by simp
      with refused(3) publishableD(5) [OF lost(2)] show ?thesis by (simp add: in_state_def)
    qed
    moreover have "get_key c k d2 = Some i" using key lost(6) by (simp add: get_key_def)
    moreover have "v_file (view d2 j) = Some f \<and> v_loc (view d2 j) = v_loc (view d j)"
      unfolding v2 same using p(1) by simp
    ultimately show ?thesis using lost(1) run loc by simp
  qed
qed

section \<open>The claim of a completion\<close>

text \<open>The rows right after a claim.\<close>

lemma claimed_rows:
  assumes "db_ok d" "claim_completion now s d = (Inr CompletionClaimed, d1)"
  obtains f u where "db_ok d1" "v_file (view d (sp_file s)) = Some f" "f_client f = sp_client s" "f_state f = Pending"
    "v_upload (view d (sp_file s)) = Some u" "s3_session (sp_key s) (sp_multipart s) u" "u_state u = Open"
    "v_file (view d1 (sp_file s)) = Some f"
    "v_upload (view d1 (sp_file s)) = Some (to_completing now (sp_expected_size s) (sp_expected_etag s) u)"
    "v_leases (view d1 (sp_file s)) = renew (now + secs (sp_ttl s)) (v_leases (view d (sp_file s)))"
    "v_parts (view d1 (sp_file s)) = v_parts (view d (sp_file s))" "\<not> part_uploading d1 (sp_file s)"
    "0 \<le> sp_expected_size s" "\<not> sp_multipart s \<longrightarrow> f_declared_size f = sp_expected_size s"
    "f_part_size f \<noteq> None \<longleftrightarrow> sp_multipart s"
  using assms
proof (cases rule: claim_completion_cases)
  case (claimed f u)
  note v = at_fileD(2) [OF claimed(12)]
  have "\<not> part_uploading d1 (sp_file s)"
    unfolding part_uploading_view v using claimed(10) by fastforce
  then show thesis
    by (intro that [of f u] claim_completion.keeps_db_ok [OF assms]) (use claimed v in \<open>simp_all del: view_simps\<close>)
qed simp


lemma claim_completion_succeeds:
  assumes "db_ok d" "v_file (view d (sp_file s)) = Some f" "f_client f = sp_client s" "f_state f = Pending"
    "v_upload (view d (sp_file s)) = Some u" "s3_session (sp_key s) (sp_multipart s) u" "u_state u = Open"
    "0 \<le> sp_expected_size s" "\<not> sp_multipart s \<longrightarrow> f_declared_size f = sp_expected_size s" "\<not> part_uploading d (sp_file s)"
  shows "fst (claim_completion now s d) = Inr CompletionClaimed"
proof -
  let ?i = "sp_file s"
  note S = db_okD(1) [OF assms(1)]
  have "f_part_size f \<noteq> None \<longleftrightarrow> sp_multipart s"
    using view_upload_ok [OF assms(1,2,5)] assms(6) by (auto simp: upload_ok_def s3_session_def)
  then have lf: "locked_file (sp_client s) ?i (sp_multipart s) d = Some f"
    unfolding locked_file_view [OF S] using assms by simp
  have row: "find (\<lambda>u. u_file u = ?i \<and> q u) (uploads d) = Some u" if "q u" for q
    unfolding session_view [OF S] using assms(5) that by simp
  have "v_leases (view d ?i) \<noteq> []" "\<forall>l \<in> set (v_leases (view d ?i)). le_state l = Issued"
    using open_leases_issued [OF assms(1,2,4)] assms(5,7) by simp_all
  then have issued: "count_where (issued_write ?i) (leases d) \<noteq> 0"
    unfolding issued_count by (cases "write_leases d ?i") auto
  have "count_where (\<lambda>u. u_file u = ?i \<and> (u_protocol u = S3 \<and> u_state u = Open)) (uploads d) \<noteq> 0"
    unfolding upload_count [OF S] using assms(5,6,7) by (auto simp: s3_session_def)
  then show ?thesis
    using lf row [of "\<lambda>u. s3_session (sp_key s) True u \<and> u_state u \<in> {Open, Completing}"]
      row [of "s3_session (sp_key s) False"] issued assms(6-10)
    by (cases "sp_multipart s")
      (simp_all add: claim_completion_def begin_multipart_completion_def multipart_claim_def claim_single_completion_def Let_def)
qed

lemma renew_renew [simp]: "renew t (renew t' ls) = renew t ls"
  by (induction ls) (auto simp: renew_def)

text \<open>
  Recovery undoes a claim: once the lease of a claimed completion has expired, reopening it
  succeeds and restores the open session as it was before the claim, the deadlines apart, so that
  the client's retry wins the claim again.
\<close>

theorem reopen_undoes_claim:
  assumes "db_ok d" "claim_completion now s d = (Inr CompletionClaimed, d1)" "now + secs (sp_ttl s) < t"
    and "s3_reopen_completion t (sp_file s) ttl d1 = (r, d2)"
  shows "r = Inr True \<and>
    view d2 (sp_file s) = (view d (sp_file s))\<lparr>v_leases := renew (t + secs ttl) (v_leases (view d (sp_file s))),
      v_upload := map_option (\<lambda>u. u\<lparr>u_recovery_after := t\<rparr>) (v_upload (view d (sp_file s)))\<rparr> \<and>
    fst (claim_completion t' s d2) = Inr CompletionClaimed"
proof -
  let ?i = "sp_file s"
  obtain f u where ok: "db_ok d1" and f: "v_file (view d ?i) = Some f" "f_client f = sp_client s" "f_state f = Pending"
    and u: "v_upload (view d ?i) = Some u" and s3: "s3_session (sp_key s) (sp_multipart s) u" "u_state u = Open"
    and f1: "v_file (view d1 ?i) = Some f"
    and u1: "v_upload (view d1 ?i) = Some (to_completing now (sp_expected_size s) (sp_expected_etag s) u)"
    and l1: "v_leases (view d1 ?i) = renew (now + secs (sp_ttl s)) (v_leases (view d ?i))"
    and sz: "0 \<le> sp_expected_size s" "\<not> sp_multipart s \<longrightarrow> f_declared_size f = sp_expected_size s"
    and parts: "\<not> part_uploading d1 ?i"
    using assms(1,2) by (rule claimed_rows) blast
  have v1: "view d1 ?i = (view d ?i)\<lparr>v_leases := renew (now + secs (sp_ttl s)) (v_leases (view d ?i)),
      v_upload := Some (to_completing now (sp_expected_size s) (sp_expected_etag s) u)\<rparr>"
    using assms(1,2) by (cases rule: claim_completion_cases) (use u in \<open>auto dest: at_fileD(2)\<close>)
  have un: "u_expected_size u = None" "u_expected_etag u = None"
    using view_upload_ok [OF assms(1) f(1) u] s3 by (auto simp: upload_ok_def upload_check_def s3_session_def)
  have issued: "\<forall>l \<in> set (v_leases (view d ?i)). le_state l = Issued" "v_leases (view d ?i) \<noteq> []"
    using open_leases_issued [OF assms(1) f(1,3)] u s3 by simp_all
  then obtain l where "l \<in> set (write_leases d ?i)" by (cases "write_leases d ?i") auto
  with write_lease_unique [OF db_okD(2) [OF assms(1)]] issued
  have l: "v_leases (view d ?i) = [l]" "le_state l = Issued" by auto
  have expired: "s3_lock_expired_completion t ?i d1"
    unfolding s3_lock_expired_completion_def lock_expired_view [OF ok]
    using f1 f(3) u1 s3 l1 l assms(3) by (auto simp: in_state_def s3_session_def renew_def)
  from ok assms(4) have "r = Inr True \<and> view d2 ?i = (view d ?i)\<lparr>v_leases := renew (t + secs ttl) (v_leases (view d ?i)),
      v_upload := map_option (\<lambda>u. u\<lparr>u_recovery_after := t\<rparr>) (v_upload (view d ?i))\<rparr>"
  proof (cases rule: s3_reopen_cases)
    case refused
    with expired show ?thesis by simp
  next
    case (reopened f' u' l')
    have "u' = to_completing now (sp_expected_size s) (sp_expected_etag s) u" using reopened(4) u1 by simp
    moreover have "u\<lparr>u_expected_size := None, u_expected_etag := None\<rparr> = u" using un by simp
    ultimately have "u'\<lparr>u_state := Open, u_expected_size := None, u_expected_etag := None, u_recovery_after := t\<rparr> = u\<lparr>u_recovery_after := t\<rparr>"
      using s3(2) by (cases u) (simp add: to_completing_def)
    with reopened(1) at_fileD(2) [OF reopened(9)] u show ?thesis unfolding v1 by simp
  qed
  moreover from this have v2: "view d2 ?i = (view d ?i)\<lparr>v_leases := renew (t + secs ttl) (v_leases (view d ?i)),
      v_upload := Some (u\<lparr>u_recovery_after := t\<rparr>)\<rparr>" using u by simp
  have "fst (claim_completion t' s d2) = Inr CompletionClaimed"
  proof (rule claim_completion_succeeds [where f = f and u = "u\<lparr>u_recovery_after := t\<rparr>"])
    show "db_ok d2" by (rule s3_reopen.keeps_db_ok [OF ok assms(4)])
    show "v_file (view d2 ?i) = Some f" "v_upload (view d2 ?i) = Some (u\<lparr>u_recovery_after := t\<rparr>)"
      unfolding v2 using f(1) by simp_all
    show "\<not> part_uploading d2 ?i"
      using parts unfolding part_uploading_view v1 v2 by simp
  qed (use f s3 sz in \<open>simp_all add: s3_session_def\<close>)
  ultimately show ?thesis by blast
qed

section \<open>Parts\<close>

text \<open>
  A part of an S3 session is uploaded by one request at a time, and the ledger never forgets a
  measurement it should keep: after a claim, no second claim of the part succeeds; finishing
  records exactly the measured size and MD5 of this part and leaves every other part as it was;
  cancelling restores the ledger to what it was before the claim.
\<close>

theorem s3_part_claim_contract:
  assumes "db_ok d" "claim_upload_part now client key i lease n ttl d = (Inr Claimed, d1)" "0 \<le> sz"
  shows "fst (claim_upload_part now client key i lease n ttl d1) \<noteq> Inr Claimed \<and>
    (\<exists>d2. finish_upload_part i lease n sz md5 d1 = (Inr True, d2) \<and>
       ledger_entry lease n d2 = Some \<lparr>lp_lease = lease, lp_no = n, lp_state = PartDone, lp_size = Some sz, lp_md5 = Some md5\<rparr> \<and>
       (\<forall>k m. (k, m) = (lease, n) \<or> ledger_entry k m d2 = ledger_entry k m d)) \<and>
    (\<exists>d2. cancel_upload_part i lease n d1 = (Inr (), d2) \<and> lease_parts d2 = lease_parts d)"
proof (intro conjI)
  obtain r d2 where run: "claim_upload_part now client key i lease n ttl d1 = (r, d2)" by fastforce
  show "fst (claim_upload_part now client key i lease n ttl d1) \<noteq> Inr Claimed"
    using s3_part.claim_excludes [OF assms(1,2) run] run by simp
  show "\<exists>d2. finish_upload_part i lease n sz md5 d1 = (Inr True, d2) \<and>
       ledger_entry lease n d2 = Some \<lparr>lp_lease = lease, lp_no = n, lp_state = PartDone, lp_size = Some sz, lp_md5 = Some md5\<rparr> \<and>
       (\<forall>k m. (k, m) = (lease, n) \<or> ledger_entry k m d2 = ledger_entry k m d)"
    using s3_part.finish_records [OF assms, of md5] by blast
  show "\<exists>d2. cancel_upload_part i lease n d1 = (Inr (), d2) \<and> lease_parts d2 = lease_parts d"
    using assms(1,2) by (rule s3_part.cancel_restores)
qed

section \<open>Witnesses\<close>

definition demo_claim :: completion_spec where
  "demo_claim = \<lparr>sp_client = ''c1'', sp_key = ''k'', sp_file = 5, sp_multipart = True, sp_expected_size = 5,
     sp_expected_etag = ''e'', sp_ttl = 60\<rparr>"

lemma demo_publish: "finalize_upload 1 ''c1'' ''k'' 4 False demo_db = (Inr (Finalized None), snd (finalize_upload 1 ''c1'' ''k'' 4 False demo_db))"
  by (rule run_prod) code_simp

lemma demo_claimed: "claim_completion 1 demo_claim demo_db = (Inr CompletionClaimed, snd (claim_completion 1 demo_claim demo_db))"
  by (rule run_prod) code_simp

theorem publication_is_atomic_witness:
  "get_key ''c1'' ''k'' (snd (finalize_upload 1 ''c1'' ''k'' 4 False demo_db)) = Some 4"
  using publication_is_atomic [OF demo_db_ok demo_publish] by auto

theorem if_none_match_single_winner_witness:
  "fst (finalize_upload 2 ''c1'' ''k'' 7 False (snd (finalize_upload 1 ''c1'' ''k'' 4 False demo_db))) = Inr PreconditionFailed"
proof -
  have "publishable demo_db ''c1'' ''k'' 7 False (demo_file 7 Pending None) (demo_upload 7 False True Completing) 5 ''e''"
    by (simp add: publishable_def demo_db_def demo_row_defs s3_session_def)
  moreover have "u_if_none_match (demo_upload 7 False True Completing)" by (simp add: demo_upload_def)
  moreover obtain r d2 where run: "finalize_upload 2 ''c1'' ''k'' 7 False (snd (finalize_upload 1 ''c1'' ''k'' 4 False demo_db)) = (r, d2)"
    by fastforce
  ultimately have "r = Inr PreconditionFailed"
    using if_none_match_single_winner [OF demo_db_ok demo_publish _ _ _ run] by simp
  with run show ?thesis by simp
qed


theorem reopen_undoes_claim_witness:
  "fst (s3_reopen_completion 90000000 5 60 (snd (claim_completion 1 demo_claim demo_db))) = Inr True"
proof -
  have "1 + secs (sp_ttl demo_claim) < 90000000" "sp_file demo_claim = 5" by (simp_all add: demo_claim_def secs_def)
  then show ?thesis
    using reopen_undoes_claim [OF demo_db_ok demo_claimed, of 90000000 60] by (metis prod.collapse)
qed

theorem s3_part_claim_contract_witness:
  "\<exists>d2. cancel_upload_part 5 15 1 (snd (claim_upload_part 1 ''c1'' ''k'' 5 15 1 60 demo_db)) = (Inr (), d2) \<and>
     lease_parts d2 = lease_parts demo_db"
proof -
  have "claim_upload_part 1 ''c1'' ''k'' 5 15 1 60 demo_db = (Inr Claimed, snd (claim_upload_part 1 ''c1'' ''k'' 5 15 1 60 demo_db))"
    by (rule run_prod) code_simp
  from s3_part_claim_contract [OF demo_db_ok this, of 0] show ?thesis by simp
qed

end
