(* ===== verification/Native_Commit.thy ===== *)
theory Native_Commit
  imports Native_Api
begin

text \<open>
  The native handlers meet the contracts of the object service: the operations of
  \<open>single\_commit.rs\<close> and \<open>multipart.rs\<close> interpret the locales of the two commit ports, and the
  guarantees of a whole commit follow.
\<close>

section \<open>The single-upload port\<close>

definition file_etag :: "uuid \<Rightarrow> db \<Rightarrow> string option" where
  "file_etag i d = (case v_file (view d i) of
      Some f \<Rightarrow> if f_state f = Active then Some (case f_etag f of None \<Rightarrow> [] | Some e \<Rightarrow> e) else None
    | None \<Rightarrow> None)"

lemma db_op_cases:
  assumes "db_op op d = (r, d')"
  obtains e where "op d = (Inl e, d')" "r = Inl (from_db_error e)" | a where "op d = (Inr a, d')" "r = Inr a"
  using assms by (auto simp: db_op_def split: prod.splits sum.splits)

lemma db_op_Inr [simp]: "db_op op d = (Inr a, d') \<longleftrightarrow> op d = (Inr a, d')"
  by (auto simp: db_op_def split: prod.splits sum.splits)

lemma current_etag_cases:
  assumes "schema_ok d" "current_etag client i d = (r, d')"
  shows "d' = d \<and> (\<forall>x. r = Inr x \<longrightarrow> x = file_etag i d)"
proof (cases "access client i d")
  case None
  with assms(2) show ?thesis by (auto simp: current_etag_def)
next
  case (Some a)
  obtain f l where "v_file (view d i) = Some f" "fa_state a = f_state f" "fa_etag a = f_etag f"
    by (rule access_SomeD [OF assms(1) Some]) blast
  with Some assms(2) show ?thesis by (auto simp: current_etag_def file_etag_def)
qed

lemma finalize_commit_port:
  assumes "db_ok d" "finalize_commit now i t d = (Inr True, d')"
  shows "file_etag i d = None \<and> file_etag i d' = Some t \<and> db_ok d'"
proof -
  have "db_ok d'" by (rule finalize_commit.keeps_db_ok [OF assms])
  with assms show ?thesis
  proof (cases rule: finalize_commit_cases)
    case (committed f)
    from at_file_fields(1) [OF committed(5)] committed(2,3) \<open>db_ok d'\<close> show ?thesis by (simp add: file_etag_def)
  qed simp
qed

interpretation native_single: single_commit_port db_ok "observe_single app b i key"
  "\<lambda>etag. db_op (finalize_commit now i etag)" "current_etag client i" "file_etag i"
  for app :: "'w app" and b i key now client
proof
  fix d w ro d' w'
  assume "observe_single app b i key (d, w) = (ro, (d', w' :: 'w))"
  then show "d' = d"
    by (auto simp: observe_single_def on_db_def on_world_def split: if_splits prod.splits option.splits)
next
  fix d t d'
  assume "db_ok d" "db_op (finalize_commit now i t) d = (Inr True, d')"
  then show "file_etag i d = None \<and> file_etag i d' = Some t \<and> db_ok d'"
    using finalize_commit_port by simp
next
  fix t d d'
  assume "db_op (finalize_commit now i t) d = (Inr False, d')"
  then show "d' = d" by (auto simp: finalize_commit_def Let_def split: if_splits)
next
  fix t d e d'
  assume "db_op (finalize_commit now i t) d = (Inl e, d')"
  then show "d' = d" by (auto simp: db_op_def finalize_commit_def Let_def split: if_splits)
next
  fix d rc d'
  assume "current_etag client i d = (rc, d')"
  then show "d' = d" by (auto simp: current_etag_def split: option.splits)
next
  fix d x d'
  assume "db_ok d" "current_etag client i d = (Inr x, d')"
  then show "x = file_etag i d" using current_etag_cases db_okD(1) by blast
qed


section \<open>The multipart port\<close>

definition owns_completion :: "uuid \<Rightarrow> db \<Rightarrow> string \<Rightarrow> bool" where
  "owns_completion i d x \<longleftrightarrow> (\<exists>u. v_upload (view d i) = Some u \<and> in_state Native Completing u \<and> u_expected_etag u = Some x)"

lemma claim_for_cases:
  assumes "db_ok d" "begin_completion i d = Ready j" "claim_for now p j d = (r, d')"
  shows "(r = Inr None \<and> d' = d) \<or>
    (r = Inr (Some p) \<and> db_ok d' \<and> owns_completion i d' (pc_expected_etag p))"
proof -
  have j: "j = i" by (rule begin_completion_Ready [OF db_okD(1) [OF assms(1)] assms(2)]) blast
  obtain q d1 where c: "completion_claim now i (pc_expected_etag p) WRITE_LEASE_TTL d = (q, d1)" by fastforce
  note moves = completion_claim_moves [OF assms(1,2) c]
  then have ok: "db_ok d1" using db_ok_sim assms(1) by blast
  from assms(1,2) c show ?thesis
  proof (cases rule: completion_claim_cases)
    case lost
    with assms(3) c j show ?thesis by (auto simp: claim_for_def bind_eff_def try_eff_def db_op_def ret_ok_def)
  next
    case claimed
    have "v_upload (view d1 i) = Some (native_upload now i (pc_expected_etag p))"
      using at_fileD(2) [OF claimed(4)] by (metis file_view.select_convs(5) file_view.surjective file_view.update_convs(5))
    then have "owns_completion i d1 (pc_expected_etag p)" by (auto simp: owns_completion_def in_state_def)
    with assms(3) c j claimed(1) ok show ?thesis by (auto simp: claim_for_def bind_eff_def try_eff_def db_op_def ret_ok_def)
  qed
qed

lemma with_completion_claim_cases:
  assumes "db_ok d" "with_completion i ready d = (r, d')"
    and ready: "\<And>j. begin_completion i d = Ready j \<Longrightarrow> (\<exists>e. ready j d = (Inl e, d)) \<or> (\<exists>p. ready j d = claim_for now p j d)"
  shows "((r = Inr None \<or> (\<exists>e. r = Inl e)) \<and> d' = d) \<or>
    (\<exists>p. r = Inr (Some p) \<and> db_ok d' \<and> owns_completion i d' (pc_expected_etag p))"
proof (cases "begin_completion i d")
  case (Ready j)
  from ready [OF Ready] show ?thesis
  proof
    assume "\<exists>e. ready j d = (Inl e, d)"
    with assms(2) Ready show ?thesis by (auto simp: with_completion_def)
  next
    assume "\<exists>p. ready j d = claim_for now p j d"
    then obtain p where "ready j d = claim_for now p j d" by blast
    with assms(2) Ready have "claim_for now p j d = (r, d')" by (simp add: with_completion_def)
    from claim_for_cases [OF assms(1) Ready this] show ?thesis by auto
  qed
qed (use assms(2) in \<open>auto simp: with_completion_def\<close>)

lemma prepare_completion_cases:
  assumes "db_ok d" "prepare_completion app now i file part_size b upload_id (d, w) = (r, (d', w'))"
  shows "((r = Inr None \<or> (\<exists>e. r = Inl e)) \<and> d' = d) \<or>
    (\<exists>p. r = Inr (Some p) \<and> db_ok d' \<and> owns_completion i d' (pc_expected_etag p))"
proof (cases "part_count (int64 (fa_declared_size file)) (int64 part_size)")
  case None
  with assms(2) have "r = Inl Panicked" "d' = d" by (simp_all add: prepare_completion_def fail_def)
  then show ?thesis by blast
next
  case (Some count)
  show ?thesis
  proof (cases "sb_force_relay b")
    case True
    with assms(2) Some have "with_completion i (\<lambda>j d.
        let parts = completion_done_parts j d in
        case verify_part_sizes parts (int64 (fa_declared_size file)) (int64 part_size) count of
          Inl e \<Rightarrow> (Inl e, d)
        | Inr _ \<Rightarrow> claim_for now (prepared app parts) j d) d = (r, d')"
      by (auto simp: prepare_completion_def prepare_relay_completion_def on_db_def split: prod.splits)
    then show ?thesis
      by (rule with_completion_claim_cases [OF assms(1), where now = now]) (auto simp: Let_def split: sum.splits)
  next
    case False
    show ?thesis
    proof (cases "\<exists>v. with_completion i (claim_for now (prepared app v)) d = (r, d')")
      case True
      then obtain v where "with_completion i (claim_for now (prepared app v)) d = (r, d')" by blast
      then show ?thesis by (rule with_completion_claim_cases [OF assms(1), where now = now]) auto
    next
      case no: False
      then have "d' = d" "\<exists>e. r = Inl e"
        using assms(2) Some False
        by (auto simp: prepare_completion_def fail_def bind_eff_def try_eff_def of_result_def on_world_def on_db_def
            split: option.splits prod.splits sum.splits)
      then show ?thesis by blast
    qed
  qed
qed

lemma native_heartbeat_keeps:
  assumes "db_ok d" "owns_completion i d x"
    and "run_with_heartbeat (still_owned fails NativeCompletion i) ticks operation dropped (d, w) = (r, d', w')"
  shows "owns_completion i d' x \<and> db_ok d'"
  using assms
proof (induction ticks arbitrary: d)
  case Nil
  then show ?case by (cases "operation w") auto
next
  case (Cons t ts)
  obtain alive d1 where s: "still_owned fails NativeCompletion i t d = (alive, d1)" by fastforce
  have "owns_completion i d1 x \<and> db_ok d1"
  proof (cases "fails t")
    case (Some e)
    with s Cons.prems show ?thesis by (simp add: still_owned_def)
  next
    case None
    obtain q d2 where q: "renew_completion Native t i WRITE_LEASE_TTL d = (q, d2)" by fastforce
    with s None have "d1 = d2"
      by (auto simp: still_owned_def renew_ownership_def renew_completion_lease_def split: sum.splits bool.splits)
    moreover have "db_ok d2" by (rule transaction.keeps_db_ok [OF renew_completion_transaction Cons.prems(1) q])
    moreover have "owns_completion i d2 x"
      using Cons.prems(1) q
    proof (cases rule: renew_completion_cases)
      case (renewed f u)
      from at_file_fields(5) [OF renewed(6)] Cons.prems(2) show ?thesis by (simp add: owns_completion_def)
    qed (use Cons.prems(2) in simp)
    ultimately show ?thesis by simp
  qed
  with Cons.prems(3) s Cons.IH [of d1] show ?case by (cases alive) auto
qed

lemma finalize_completion_port:
  assumes "db_ok d" "finalize_completion now i t d = (Inr True, d')"
  shows "(\<exists>x. owns_completion i d x \<and> eq_ic x t) \<and> file_etag i d' = Some t \<and> (\<forall>x. \<not> owns_completion i d' x) \<and> db_ok d'"
proof -
  have ok: "db_ok d'" by (rule finalize_completion.keeps_db_ok [OF assms])
  from assms show ?thesis
  proof (cases rule: finalize_completion_cases)
    case (committed f u)
    note at = at_file_fields [OF committed(7)]
    from committed(6) obtain x where "u_expected_etag u = Some x" "eq_ic x t"
      by (auto simp: etag_matches_def split: option.splits)
    with committed(4,5) have "owns_completion i d x \<and> eq_ic x t" by (simp add: owns_completion_def)
    moreover have "file_etag i d' = Some t" using at(1) by (simp add: file_etag_def)
    moreover have "\<not> owns_completion i d' y" for y using at(5) by (simp add: owns_completion_def)
    ultimately show ?thesis using ok by blast
  qed simp
qed

interpretation native_multipart: multipart_commit_port db_ok
  "prepare_completion app now i fa part_size b upload_id"
  "complete_with_heartbeat app tm i fa upload_id b"
  "\<lambda>etag. db_op (finalize_completion fin i etag)" "owns_completion i" "file_etag i" pc_expected_etag
  for app :: "'w app" and now i fa part_size b upload_id tm fin
proof
  fix d w d' and w' :: 'w
  assume "prepare_completion app now i fa part_size b upload_id (d, w) = (Inr None, (d', w'))"
  then show "d' = d"
    by (auto simp: prepare_completion_def fail_def bind_eff_def try_eff_def of_result_def on_world_def on_db_def Let_def
        prepare_relay_completion_def with_completion_def claim_for_def db_op_def ret_ok_def completion_claim_def
        split: option.splits prod.splits sum.splits if_splits completion_start.splits)
next
  fix d w e d' and w' :: 'w
  assume "prepare_completion app now i fa part_size b upload_id (d, w) = (Inl e, (d', w'))"
  then show "d' = d"
    by (auto simp: prepare_completion_def fail_def bind_eff_def try_eff_def of_result_def on_world_def on_db_def Let_def
        prepare_relay_completion_def with_completion_def claim_for_def db_op_def ret_ok_def completion_claim_def
        split: option.splits prod.splits sum.splits if_splits completion_start.splits)
next
  fix d w p d' and w' :: 'w
  assume "db_ok d" "prepare_completion app now i fa part_size b upload_id (d, w) = (Inr (Some p), (d', w'))"
  from prepare_completion_cases [OF this] show "owns_completion i d' (pc_expected_etag p) \<and> db_ok d'" by auto
next
  fix d x p w rc d' and w' :: 'w
  assume own: "db_ok d" "owns_completion i d x"
    and run: "complete_with_heartbeat app tm i fa upload_id b p (d, w) = (rc, (d', w'))"
  from run obtain r where hb: "run_with_heartbeat (still_owned (tm_fails tm) NativeCompletion i) (tm_ticks tm)
      (complete_backend app fa upload_id b p) (tm_dropped tm) (d, w) = (r, d', w')"
    by (auto simp: complete_with_heartbeat_def run_with_native_completion_heartbeat_def run_with_write_heartbeat_def
        split: prod.splits option.splits sum.splits)
  show "owns_completion i d' x \<and> db_ok d'" by (rule native_heartbeat_keeps [OF own hb])
next
  fix d t d'
  assume "db_ok d" "db_op (finalize_completion fin i t) d = (Inr True, d')"
  then show "(\<exists>x. owns_completion i d x \<and> eq_ic x t) \<and> file_etag i d' = Some t \<and> (\<forall>x. \<not> owns_completion i d' x) \<and> db_ok d'"
    using finalize_completion_port by simp
next
  fix t d d'
  assume "db_op (finalize_completion fin i t) d = (Inr False, d')"
  then show "d' = d" by (auto simp: finalize_completion_def Let_def split: if_splits)
next
  fix t d e d'
  assume "db_op (finalize_completion fin i t) d = (Inl e, d')"
  then show "d' = d" by (auto simp: db_op_def finalize_completion_def Let_def split: if_splits)
next
  fix d x y
  assume "db_ok d" "owns_completion i d x" "owns_completion i d y"
  then show "x = y" by (auto simp: owns_completion_def)
qed


section \<open>A whole commit\<close>

lemma committed_or_conflict_cases:
  assumes "schema_ok d" "committed_or_conflict client i (d, w) = (r, (d', w'))"
  shows "d' = d \<and> (\<forall>out. r = Inr out \<longrightarrow> (\<exists>t. out = CommitOut i t \<and> file_etag i d = Some t))"
proof -
  obtain c d1 where c: "current_etag client i d = (c, d1)" by fastforce
  from current_etag_cases [OF assms(1) c] assms(2) c show ?thesis
    by (auto simp: committed_or_conflict_def bind_eff_def try_eff_def on_db_def ret_ok_def fail_def
        split: sum.splits option.splits)
qed

lemma commit_multipart_ok:
  assumes "db_ok d" "commit_multipart app tm client i fa part_size b (d, w) = (Inr out, (d', w'))"
  shows "\<exists>t. out = CommitOut i t \<and> file_etag i d' = Some t"
proof -
  from assms(2) obtain lease where lease: "write_lease d i = Some lease"
    by (auto simp: commit_multipart_def split: option.splits)
  let ?run = "multipart_commit (prepare_completion app (tm_claim tm) i fa part_size b (wl_upload_id lease))
      (complete_with_heartbeat app tm i fa (wl_upload_id lease) b)
      (\<lambda>etag. on_db (db_op (finalize_completion (tm_finalize tm) i etag)))"
  obtain q d1 w1 where q: "?run (d, w) = (q, (d1, w1))" by (metis surj_pair)
  note c = native_multipart.commit_cases [OF q assms(1)]
  have ok: "db_ok d1" by (rule native_multipart.commit_keeps [OF q assms(1)])
  from assms(2) lease q c ok show ?thesis
    by (auto simp: commit_multipart_def split: multipart_commit_error.splits
        dest!: committed_or_conflict_cases [OF db_okD(1)])
qed


lemma commit_outline:
  assumes "commit app tm client i (d, w) = (r, (d', w'))" "schema_ok d"
  obtains (refused) "d' = d" "w' = w" "\<forall>out. r = Inr out \<longrightarrow> (\<exists>t. out = CommitOut i t \<and> file_etag i d = Some t)"
  | (single) fa b where "access client i d = Some fa" "fa_part_size fa = None" "to_backend app (fa_storage fa) = Inr b"
      "try_eff (single_commit (observe_single app b i (fa_object_key fa))
          (\<lambda>etag. on_db (db_op (finalize_commit (tm_finalize tm) i etag))) (on_db (current_etag client i))
          (fa_declared_size fa) (fa_declared_md5 fa))
        single_commit_api_error (\<lambda>c. ret_ok (CommitOut i (etag_committed c))) (d, w) = (r, (d', w'))"
  | (multi) fa b part_size where "access client i d = Some fa" "fa_part_size fa = Some part_size"
      "to_backend app (fa_storage fa) = Inr b"
      "commit_multipart app tm client i fa part_size b (d, w) = (r, (d', w'))"
proof (cases "access client i d")
  case None
  with assms(1) show thesis by (intro refused) (auto simp: commit_def)
next
  case (Some fa)
  obtain f l where f: "v_file (view d i) = Some f" "fa_state fa = f_state f" "fa_etag fa = f_etag f"
    by (rule access_SomeD [OF assms(2) Some]) blast
  consider "fa_state fa = Active" | "fa_state fa = Deleted" | e where "fa_state fa \<noteq> Active" "fa_state fa \<noteq> Deleted" "to_backend app (fa_storage fa) = Inl e"
    | b where "fa_state fa \<noteq> Active" "fa_state fa \<noteq> Deleted" "to_backend app (fa_storage fa) = Inr b"
    by (cases "to_backend app (fa_storage fa)") auto
  then show thesis
  proof cases
    case 1
    with assms(1) Some f show thesis by (intro refused) (auto simp: commit_def file_etag_def)
  next
    case 2
    with assms(1) Some show thesis by (intro refused) (auto simp: commit_def)
  next
    case 3
    with assms(1) Some show thesis by (intro refused) (auto simp: commit_def)
  next
    case 4
    with assms(1) Some show thesis
      by (cases "fa_part_size fa") (auto simp: commit_def intro: single multi)
  qed
qed

text \<open>
  C10. A commit answers with an ETag only when the file is active under exactly that ETag, whichever
  way it got there (its own transition, an earlier one, or one that overtook it).
\<close>

theorem commit_answers_truth:
  assumes "db_ok d" "commit app tm client i (d, w) = (Inr out, (d', w'))"
  shows "\<exists>t. out = CommitOut i t \<and> file_etag i d' = Some t"
  using assms(2) db_okD(1) [OF assms(1)]
proof (cases rule: commit_outline)
  case refused
  then show ?thesis by blast
next
  case (single fa b)
  then obtain c where c: "single_commit (observe_single app b i (fa_object_key fa))
      (\<lambda>etag. on_db (db_op (finalize_commit (tm_finalize tm) i etag))) (on_db (current_etag client i))
      (fa_declared_size fa) (fa_declared_md5 fa) (d, w) = (Inr c, (d', w'))" "out = CommitOut i (etag_committed c)"
    by (auto simp: ret_ok_def elim!: try_effE)
  from native_single.commit_ok [OF c(1) assms(1)] c(2) show ?thesis by blast
next
  case (multi fa b part_size)
  from commit_multipart_ok [OF assms(1) multi(4)] show ?thesis .
qed



section \<open>Multipart commits rest on a verified part list\<close>

lemma prepared_from_ledger:
  assumes "prepare_completion app now i fa part_size b upload_id s = (Inr (Some p), s')"
  obtains ledger count where "part_count (int64 (fa_declared_size fa)) (int64 part_size) = Some count"
    "verify_part_sizes ledger (int64 (fa_declared_size fa)) (int64 part_size) count = Inr ()" "p = prepared app ledger"
    "sb_force_relay b \<longrightarrow> ledger = completion_done_parts i (fst s)"
proof -
  obtain d w where s: "s = (d, w)" by (cases s)
  obtain count where count: "part_count (int64 (fa_declared_size fa)) (int64 part_size) = Some count"
    using assms by (auto simp: prepare_completion_def fail_def Let_def split: option.splits)
  have claim: "q = p" if "with_completion i (claim_for now q) d = (Inr (Some p), d')" for q d'
    using that by (auto simp: with_completion_def claim_for_def bind_eff_def try_eff_def ret_ok_def
        split: completion_start.splits prod.splits sum.splits if_splits)
  show thesis
  proof (cases "sb_force_relay b")
    case True
    with assms count s have "fst (prepare_relay_completion app now (int64 (fa_declared_size fa)) (int64 part_size) count i d) = Inr (Some p)"
      by (auto simp: prepare_completion_def on_db_def split: prod.splits)
    then obtain j where j: "begin_completion i d = Ready j"
      "verify_part_sizes (completion_done_parts j d) (int64 (fa_declared_size fa)) (int64 part_size) count = Inr ()"
      "p = prepared app (completion_done_parts j d)"
      by (auto simp: prepare_relay_completion_def with_completion_def claim_for_def bind_eff_def try_eff_def ret_ok_def Let_def
          split: completion_start.splits prod.splits sum.splits if_splits)
    moreover have "j = i" using j(1) by (auto simp: begin_completion_def split: if_splits option.splits)
    ultimately show thesis using that [OF count] s by auto
  next
    case False
    with assms count s claim show thesis
      by (auto simp: prepare_completion_def fail_def bind_eff_def try_eff_def of_result_def on_world_def on_db_def
          split: option.splits prod.splits sum.splits intro!: that [OF count])
  qed
qed

lemma completed_etag:
  assumes "fst (complete_with_heartbeat app tm i fa upload_id b p s) = Inr (Some t)"
  shows "t = pc_expected_etag p"
proof -
  have "t = pc_expected_etag p" if "complete_backend app fa upload_id b p w = (Inr t, w')" for w w'
    using that by (auto simp: complete_backend_def fail_def bind_eff_def try_eff_def ret_ok_def
        split: option.splits prod.splits sum.splits if_splits)
  note inner = this
  have run: "\<exists>w'. complete_backend app fa upload_id b p w = (x, w')"
    if "run_with_heartbeat f ticks (complete_backend app fa upload_id b p) dr (d, w) = (Some x, d', w')" for f ticks dr d w x d' w'
    using that
  proof (induction ticks arbitrary: d)
    case Nil
    then show ?case by (cases "complete_backend app fa upload_id b p w") auto
  next
    case (Cons t ts)
    then show ?case by (cases "f t d"; cases "fst (f t d)") auto
  qed
  obtain x s' where hb: "run_with_native_completion_heartbeat (tm_fails tm) (tm_ticks tm) (tm_dropped tm) i
      (complete_backend app fa upload_id b p) s = (x, s')" by (metis surj_pair)
  with assms have "x = Some (Inr t)"
    by (auto simp: complete_with_heartbeat_def split: option.splits sum.splits)
  obtain d w where s: "s = (d, w)" by (cases s)
  obtain d' w' where s': "s' = (d', w')" by (cases s')
  have "\<exists>w'. complete_backend app fa upload_id b p w = (Inr t, w')"
    by (rule run [of "still_owned (tm_fails tm) NativeCompletion i" "tm_ticks tm" "tm_dropped tm" d w "Inr t" d' w'])
      (use hb s s' \<open>x = Some (Inr t)\<close> in \<open>simp add: run_with_native_completion_heartbeat_def run_with_write_heartbeat_def\<close>)
  with inner show ?thesis by blast
qed

text \<open>
  C12. A multipart upload becomes active only on a verified part list: when a commit turns a file that
  was not active into one with ETag \<open>t\<close>, there was a list of measured parts (the relay's own ledger at
  the time of the claim, or the provider's listing) that passed the gate on count and sizes, and \<open>t\<close>
  is the composite ETag of exactly that list.
\<close>

theorem multipart_commit_is_verified:
  assumes "db_ok d" "commit app tm client i (d, w) = (Inr (CommitOut i t), (d', w'))"
    and "v_file (view d i) = Some f" "f_state f \<noteq> Active" "f_part_size f = Some part_size"
  shows "\<exists>ledger count b l s. v_loc (view d i) = Some l \<and> st_id s = l_storage l \<and> to_backend app s = Inr b \<and>
    (sb_force_relay b \<longrightarrow> ledger = completion_done_parts i d) \<and>
    part_count (int64 (f_declared_size f)) (int64 part_size) = Some count \<and>
    verify_part_sizes ledger (int64 (f_declared_size f)) (int64 part_size) count = Inr () \<and>
    t = ledger_etag app ledger"
  using assms(2) db_okD(1) [OF assms(1)]
proof (cases rule: commit_outline)
  case refused
  with assms(3,4) show ?thesis by (auto simp: file_etag_def)
next
  case (single fa b)
  obtain g where "v_file (view d i) = Some g" "fa_part_size fa = f_part_size g"
    by (rule access_SomeD [OF db_okD(1) [OF assms(1)] single(1)]) blast
  with assms(3,5) single(2) show ?thesis by simp
next
  case (multi fa b ps)
  obtain g l where "v_file (view d i) = Some g" "fa_part_size fa = f_part_size g" "fa_declared_size fa = f_declared_size g"
    and l: "v_loc (view d i) = Some l" "st_id (fa_storage fa) = l_storage l"
    by (rule access_SomeD [OF db_okD(1) [OF assms(1)] multi(1)]) blast
  with assms(3,5) multi(2) have fa: "ps = part_size" "fa_declared_size fa = f_declared_size f" by auto
  from multi(4) obtain lease where lease: "write_lease d i = Some lease"
    by (auto simp: commit_multipart_def split: option.splits)
  let ?run = "multipart_commit (prepare_completion app (tm_claim tm) i fa ps b (wl_upload_id lease))
      (complete_with_heartbeat app tm i fa (wl_upload_id lease) b)
      (\<lambda>etag. on_db (db_op (finalize_completion (tm_finalize tm) i etag)))"
  obtain q d1 w1 where q: "?run (d, w) = (q, (d1, w1))" by (metis surj_pair)
  have ok: "db_ok d1" by (rule native_multipart.commit_keeps [OF q assms(1)])
  have none: "file_etag i d = None" using assms(3,4) by (simp add: file_etag_def)
  have pend: "file_etag i d1 = None" if "owns_completion i d1 x" for x
  proof -
    from that obtain u where "v_upload (view d1 i) = Some u" by (auto simp: owns_completion_def)
    then obtain g where "v_file (view d1 i) = Some g" "f_state g = Pending"
      by (rule view_ok_upload [OF db_okD(2) [OF ok]]) blast
    then show ?thesis by (simp add: file_etag_def)
  qed
  note outcome = native_multipart.commit_cases [OF q assms(1)]
  show ?thesis
  proof (cases q)
    case (Inl e)
    with multi(4) lease q show ?thesis by (simp add: commit_multipart_def split: multipart_commit_error.splits)
  next
    case (Inr answer)
    show ?thesis
    proof (cases answer)
      case None
      with Inr outcome have "d1 = d \<or> (\<exists>x. owns_completion i d1 x)" by auto
      then have "file_etag i d1 = None" using none pend by blast
      moreover from None Inr multi(4) lease q have "committed_or_conflict client i (d1, w1) = (Inr (CommitOut i t), (d', w'))"
        by (simp add: commit_multipart_def)
      ultimately show ?thesis using committed_or_conflict_cases [OF db_okD(1) [OF ok]] by fastforce
    next
      case (Some t')
      with Inr multi(4) lease q have "t' = t" by (simp add: commit_multipart_def)
      with Inr Some outcome obtain p s1 where p: "prepare_completion app (tm_claim tm) i fa ps b (wl_upload_id lease) (d, w) = (Inr (Some p), s1)"
        "fst (complete_with_heartbeat app tm i fa (wl_upload_id lease) b p s1) = Inr (Some t)" by auto
      obtain ledger count where "part_count (int64 (fa_declared_size fa)) (int64 ps) = Some count"
        "verify_part_sizes ledger (int64 (fa_declared_size fa)) (int64 ps) count = Inr ()" "p = prepared app ledger"
        "sb_force_relay b \<longrightarrow> ledger = completion_done_parts i (fst (d, w))"
        by (rule prepared_from_ledger [OF p(1)]) blast
      with completed_etag [OF p(2)] fa l multi(3) show ?thesis
        by (intro exI [of _ ledger] exI [of _ count] exI [of _ b] exI [of _ l] exI [of _ "fa_storage fa"]) (auto simp: prepared_def)
    qed
  qed
qed


section \<open>What a verified part list is\<close>

lemma verify_each_sizes:
  assumes "verify_each d p ms = Inr ()" "x \<in> set ms"
  shows "part_expected_size d p (int32 (fst x)) = Some (int64 (fst (snd x)))"
  using assms by (induction d p ms rule: verify_each.induct) (auto split: option.splits if_splits)

text \<open>
  The gate is exact: for a declaration that was routed to multipart under a configured part size,
  a measured list with distinct part numbers in range and 64-bit sizes passes only if it has every
  part from 1 to the count, each exactly once, and its sizes add up to the declared size.
\<close>

theorem verified_parts_cover_declaration:
  assumes "classify_upload d thr p md5 = Inr True" "part_size_configured p" "1 \<le> sint thr"
    and "part_count d p = Some count" "verify_part_sizes ms d p count = Inr ()"
    and "distinct (map fst ms)" "\<And>n s t. (n, s, t) \<in> set ms \<Longrightarrow> 1 \<le> n \<and> n \<le> sint count \<and> 0 \<le> s \<and> s < 2 ^ 63"
  shows "fst ` set ms = {1..sint count} \<and> length ms = nat (sint count) \<and> sum_list (map (\<lambda>(_, s, _). s) ms) = sint d"
proof -
  note b = classify_multipart_bounds [OF assms(1-3)]
  have c: "sint count = (sint d + sint p - 1) div sint p" "1 \<le> sint count" "sint count \<le> 10000"
    using part_count_spec [OF b(1,3,5,2)] assms(4) by auto
  have "uint (i64_from count) = sint count"
    using c by (subst uint_sint) (simp add: take_bit_int_eq_self)
  with assms(5) have len: "int (length ms) = sint count" and each: "verify_each d p ms = Inr ()"
    by (auto simp: verify_part_sizes_def split: if_splits)
  have sub: "fst ` set ms \<subseteq> {1..sint count}" using assms(7) by force
  have "card (fst ` set ms) = length ms" using assms(6) by (metis distinct_card length_map list.set_map)
  with len have "card (fst ` set ms) = card {1..sint count}" by simp
  then have nums: "fst ` set ms = {1..sint count}" using sub by (simp add: card_subset_eq)
  let ?e = "\<lambda>n. if n = sint count then sint d - (sint count - 1) * sint p else sint p"
  have size: "(case x of (_, s, _) \<Rightarrow> s) = ?e (fst x)" if x: "x \<in> set ms" for x
  proof -
    obtain n s t where [simp]: "x = (n, s, t)" by (cases x)
    have r: "1 \<le> n" "n \<le> sint count" "0 \<le> s" "s < 2 ^ 63" using assms(7) x by auto
    have n: "sint (int32 n) = n" unfolding int32_def by (rule sint_i32) (use r c in auto)
    have s: "sint (int64 s) = s" unfolding int64_def by (rule sint_i64) (use r in auto)
    obtain y where "part_expected_size d p (int32 n) = Some y" "sint y = ?e n"
      using part_expected_size_spec [OF b(1,3,4,2) assms(4), of "int32 n"] r by (auto simp: n)
    with verify_each_sizes [OF each x] s show ?thesis by simp
  qed
  have "sum_list (map (\<lambda>(_, s, _). s) ms) = sum_list (map (?e \<circ> fst) ms)"
    using size by (intro arg_cong [where f = sum_list] map_cong) auto
  also have "\<dots> = sum ?e (fst ` set ms)"
    using assms(6) by (metis (no_types, lifting) list.set_map map_map sum_list_distinct_conv_sum_set)
  also have "\<dots> = sum ?e {1..sint count}" by (simp add: nums)
  also have "{1..sint count} = insert (sint count) {1..sint count - 1}" using c by auto
  also have "sum ?e \<dots> = ?e (sint count) + (\<Sum>n \<in> {1..sint count - 1}. sint p)"
    by (subst sum.insert) (auto intro!: sum.cong)
  also have "\<dots> = sint d" using c by simp
  finally show ?thesis using nums len by auto
qed


section \<open>Witnesses\<close>

text \<open>A provider that shows one object of five bytes with one part, for the files of the example.\<close>

definition demo_sdk :: "unit sdk" where
  "demo_sdk = refusing_sdk\<lparr>
     sdk_head := \<lambda>b k w. (Inr \<lparr>ho_length = Some 5, ho_etag = Some ''m''\<rparr>, w),
     sdk_list_parts := \<lambda>b k u m w. (Inr \<lparr>pp_parts = [\<lparr>pi_number = Some 1, pi_size = Some 5, pi_etag = Some ''m''\<rparr>],
        pp_truncated = None, pp_next = None\<rparr>, w),
     sdk_complete := \<lambda>b k u ps w. (Inr (Some ''m-1''), w)\<rparr>"

definition demo_app :: "unit app" where
  "demo_app = \<lparr>ap_primitives = toy_primitives\<lparr>unseal := \<lambda>k n a ct. Some ct\<rparr>,
     ap_crypto = \<lparr>cr_active = toy_key ''v1'', cr_prev = None\<rparr>, ap_connections = \<lambda>_ _. demo_sdk,
     ap_md5_hex = id, ap_hex_decode = Some, ap_uuid_text = \<lambda>i. replicate i CHR ''u'', ap_year_month = \<lambda>_. ''2026/01'',
     ap_multipart_threshold = 10000000, ap_part_size = 8388608, ap_public_url = None\<rparr>"

definition demo_timing :: "unit timing" where
  "demo_timing = \<lparr>tm_claim = 1, tm_ticks = [50], tm_fails = \<lambda>_. None, tm_dropped = id, tm_finalize = 60\<rparr>"

lemma demo_commit_1: "fst (commit demo_app demo_timing ''c1'' 1 (demo_db, ())) = Inr (CommitOut 1 ''m'')"
  by code_simp

lemma demo_commit_2: "fst (commit demo_app demo_timing ''c1'' 2 (demo_db, ())) = Inr (CommitOut 2 ''m-1'')"
  by code_simp


theorem commit_answers_truth_witness:
  "file_etag 1 (fst (snd (commit demo_app demo_timing ''c1'' 1 (demo_db, ())))) = Some ''m''"
proof -
  obtain d' w' where run: "commit demo_app demo_timing ''c1'' 1 (demo_db, ()) = (Inr (CommitOut 1 ''m''), (d', w'))"
    using run_prod [OF demo_commit_1] by (metis surj_pair)
  from commit_answers_truth [OF demo_db_ok run] have "file_etag 1 d' = Some ''m''" by auto
  with run show ?thesis by simp
qed


theorem multipart_commit_is_verified_witness:
  "\<exists>ledger. ''m-1'' = ledger_etag demo_app ledger"
proof -
  obtain d' w' where run: "commit demo_app demo_timing ''c1'' 2 (demo_db, ()) = (Inr (CommitOut 2 ''m-1''), (d', w'))"
    using run_prod [OF demo_commit_2] by (metis surj_pair)
  have f: "v_file (view demo_db 2) = Some (demo_file 2 Pending (Some 5))" "f_state (demo_file 2 Pending (Some 5)) \<noteq> Active"
    "f_part_size (demo_file 2 Pending (Some 5)) = Some 5"
    by (simp_all add: demo_db_def demo_row_defs)
  from multipart_commit_is_verified [OF demo_db_ok run f] show ?thesis by blast
qed

theorem verified_parts_cover_declaration_witness:
  "sum_list (map (\<lambda>(_, s, _). s) [(2 :: int, 8388608 :: int, ''b''), (1, 8388608, ''a''), (3, 3222784, ''c'')]) = sint (20000000 :: i64)"
proof -
  let ?ms = "[(2, 8388608, ''b''), (1, 8388608, ''a''), (3, 3222784, ''c'')] :: (int \<times> int \<times> string) list"
  have k: "classify_upload 20000000 10000000 8388608 False = Inr True" "part_size_configured 8388608" "1 \<le> sint (10000000 :: i64)"
    "part_count 20000000 8388608 = Some 3" "verify_part_sizes ?ms 20000000 8388608 3 = Inr ()" "distinct (map fst ?ms)"
    by code_simp+
  show ?thesis
    by (rule verified_parts_cover_declaration [OF k, THEN conjunct2, THEN conjunct2]) auto
qed

end
