(* ===== verification/S3_Objects.thy ===== *)
theory S3_Objects
  imports S3_Auth S3_Publication Native_Commit
begin

text \<open>
  \<open>s3/handlers.rs\<close>: PutObject, GetObject, HeadObject and DeleteObject. A handler runs over the
  database and the outside world; the times of its transactions, the new ids, the outcome of opening
  the spool file and the heartbeat's ticks are inputs. A permit of the transfer spool is held for the
  time of the handler only, so its budget is an input too. Log events are left out.
\<close>

section \<open>The surface's state and its errors\<close>

record 'w s3_app =
  sa_app :: "'w app"
  sa_lib :: s3_lib

definition s3_db :: "(db, db_error, 'a) eff \<Rightarrow> (db \<times> 'w, s3_response, 'a) eff" where
  "s3_db op = on_db (\<lambda>d. case op d of (Inl e, d') \<Rightarrow> (Inl xml_internal, d') | (Inr a, d') \<Rightarrow> (Inr a, d'))"

definition s3_world :: "('w, provider_error, 'a) eff \<Rightarrow> ('w, s3_response, 'a) eff" where
  "s3_world op w = (case op w of (Inl e, w') \<Rightarrow> (Inl xml_storage_error, w') | (Inr a, w') \<Rightarrow> (Inr a, w'))"

definition s3_backend :: "'w s3_app \<Rightarrow> storage_row \<Rightarrow> s3_response + storage_backend" where
  "s3_backend A row = map_err (\<lambda>_. xml_internal) (backend_from_row (ap_primitives (sa_app A)) (ap_crypto (sa_app A)) row)"

abbreviation provider :: "'w s3_app \<Rightarrow> storage_backend \<Rightarrow> 'w sdk" where
  "provider A b \<equiv> ap_connections (sa_app A) (sb_spec b) InternalAddress"

definition spool_busy_to_xml :: s3_response where
  "spool_busy_to_xml = add_headers (put_header ''retry-after'' ''1'')
     (xml_error 503 ''SlowDown'' ''transfer spool capacity is busy; retry'')"

definition spool_error_to_xml :: "spool_error \<Rightarrow> s3_response" where
  "spool_error_to_xml e = (case e of
      Idle \<Rightarrow> xml_error 408 ''RequestTimeout'' ''the upload stream was idle for too long''
    | TooSlow \<Rightarrow> xml_error 408 ''RequestTimeout'' ''the upload stream exceeded its transfer time budget''
    | Deadline \<Rightarrow> xml_error 408 ''RequestTimeout'' ''the upload stream exceeded its transfer time budget''
    | Aborted \<Rightarrow> xml_error 400 ''IncompleteBody'' ''the upload stream aborted''
    | TooLarge \<Rightarrow> xml_error 400 ''IncompleteBody'' ''the body exceeds the content-length''
    | Io \<Rightarrow> xml_internal)"

text \<open>An empty answer that carries the measured MD5 as its ETag.\<close>

definition ok_with_etag :: "s3_lib \<Rightarrow> string \<Rightarrow> s3_response" where
  "ok_with_etag L md5_hex = Reply 200 (try_header L ''etag'' (quoted md5_hex) []) []"

section \<open>Receiving a body\<close>

text \<open>
  The steps PutObject and UploadPart share: the body is spooled and measured, must have the declared
  length and pass the request's checksums.
\<close>

definition receive_body :: "s3_lib \<Rightarrow> s3_request \<Rightarrow> int \<Rightarrow> s3_response + measured \<times> string" where
  "receive_body L r content_length =
     (case spool_to_temp (sl_hashes L) (rq_body r) content_length True of
        Inl e \<Rightarrow> Inl (spool_error_to_xml e)
      | Inr (m, data) \<Rightarrow>
          if ms_written m \<noteq> content_length
          then Inl (xml_error 400 ''IncompleteBody'' ''the body does not match the content-length'')
          else (case verify_checksums L (rq_headers r) m of
              Some answer \<Rightarrow> Inl answer
            | None \<Rightarrow> Inr (m, data)))"

definition content_length_of :: "s3_lib \<Rightarrow> s3_request \<Rightarrow> int option" where
  "content_length_of L r = Option.bind (header_str L (rq_headers r) ''content-length'') parse_i64"

definition bad_content_type :: "s3_lib \<Rightarrow> s3_request \<Rightarrow> bool" where
  "bad_content_type L r = (case header_str L (rq_headers r) ''content-type'' of None \<Rightarrow> False | Some ct \<Rightarrow> \<not> content_type_ok ct)"

section \<open>PutObject\<close>

record 'w put_input =
  pu_now :: timestamp
  pu_file_id :: uuid
  pu_lease_id :: uuid
  pu_budget :: spool_budget
  pu_spool_opens :: bool
  pu_timing :: "'w timing"

definition put_spec :: "string \<Rightarrow> int \<Rightarrow> string option \<Rightarrow> create_spec" where
  "put_spec client content_length content_type =
     \<lparr>cs_client = client, cs_declared_size = content_length, cs_content_type = content_type,
      cs_declared_md5 = None, cs_lease_ttl_secs = WRITE_LEASE_TTL, cs_part_size = None\<rparr>"

text \<open>The claim of the completion before the storage write, with its refusals.\<close>

definition claim_put :: "timestamp \<Rightarrow> completion_spec \<Rightarrow> (db \<times> 'w, s3_response, unit) eff" where
  "claim_put now c = bind_eff (s3_db (claim_completion now c)) (\<lambda>claim.
     if claim = CompletionClaimed then ret_ok ()
     else fail (unavailable ''the upload expired before storage commit; retry''))"

definition store_put :: "'w s3_app \<Rightarrow> 'w timing \<Rightarrow> uuid \<Rightarrow> storage_backend \<Rightarrow> string \<Rightarrow> string \<Rightarrow> string option
    \<Rightarrow> (db \<times> 'w, s3_response, unit) eff" where
  "store_put A tm i b data key content_type s =
     (case run_with_completion_heartbeat (tm_fails tm) (tm_ticks tm) (tm_dropped tm) i
             (commit_temp_to_backend (ap_connections (sa_app A)) b data key content_type) s of
        (None, s') \<Rightarrow> (Inl (unavailable ''the upload lost completion ownership; retry''), s')
      | (Some (Inl e), s') \<Rightarrow> (Inl xml_storage_error, s')
      | (Some (Inr _), s') \<Rightarrow> (Inr (), s'))"

definition publish_answer :: "string \<Rightarrow> finalize_outcome \<Rightarrow> s3_response + uuid option" where
  "publish_answer expired outcome = (case outcome of
      Finalized gone \<Rightarrow> Inr gone
    | PreconditionFailed \<Rightarrow> Inl (xml_error 412 ''PreconditionFailed'' ''the specified key already exists'')
    | NotPending \<Rightarrow> Inl (unavailable expired))"

text \<open>From the created file to the answer.\<close>

definition put_created :: "'w s3_app \<Rightarrow> 'w put_input \<Rightarrow> string \<Rightarrow> s3_request \<Rightarrow> int \<Rightarrow> created_file
    \<Rightarrow> (db \<times> 'w, s3_response, s3_response) eff" where
  "put_created A p client r content_length created =
     (let L = sa_lib A; i = cf_file_id created; tm = pu_timing p; ct = header_str L (rq_headers r) ''content-type'' in
      bind_eff (of_result (s3_backend A (cf_storage created))) (\<lambda>b.
      bind_eff (of_result (reject_if (\<not> pu_spool_opens p) xml_internal)) (\<lambda>_.
      bind_eff (of_result (receive_body L r content_length)) (\<lambda>(m, data).
      bind_eff (claim_put (tm_claim tm) \<lparr>sp_client = client, sp_key = rq_key r, sp_file = i, sp_multipart = False,
          sp_expected_size = ms_written m, sp_expected_etag = ms_md5_hex m, sp_ttl = WRITE_LEASE_TTL\<rparr>) (\<lambda>_.
      bind_eff (store_put A tm i b data (cf_object_key created) ct) (\<lambda>_.
      bind_eff (s3_db (finalize_single_upload (tm_finalize tm) client (rq_key r) i)) (\<lambda>outcome.
      bind_eff (of_result (publish_answer ''the upload expired before it committed; retry'' outcome)) (\<lambda>_.
      ret_ok (ok_with_etag L (ms_md5_hex m))))))))))"

definition put_object :: "'w s3_app \<Rightarrow> 'w put_input \<Rightarrow> string \<Rightarrow> s3_request \<Rightarrow> (db \<times> 'w, s3_response, s3_response) eff" where
  "put_object A p client r =
     (let L = sa_lib A; app = sa_app A in
      bind_eff (of_result (ok_or (xml_error 411 ''MissingContentLength'' ''content-length is required'') (content_length_of L r))) (\<lambda>content_length.
      bind_eff (of_result (reject_if (\<not> (0 \<le> content_length \<and> content_length \<le> sint MAX_SINGLE_PUT_BYTES))
          (xml_error 400 ''EntityTooLarge'' ''the object exceeds the single-upload limit (5 GiB)''))) (\<lambda>_.
      bind_eff (of_result (reject_if (bad_content_type L r) (xml_error 400 ''InvalidArgument'' ''invalid content-type''))) (\<lambda>_.
      bind_eff (of_result (reject_if (fst (spool_try_acquire content_length (pu_budget p)) = None) spool_busy_to_xml)) (\<lambda>_.
      bind_eff (s3_db (create_upload (ap_uuid_text app) (ap_year_month app) (pu_now p) (pu_file_id p) (pu_lease_id p)
          (put_spec client content_length (header_str L (rq_headers r) ''content-type'')) (rq_key r)
          (has_header (rq_headers r) ''if-none-match''))) (\<lambda>outcome.
      case outcome of
        NoClient \<Rightarrow> fail (xml_error 500 ''InternalError'' ''the authenticated client has no storage'')
      | Created created \<Rightarrow> put_created A p client r content_length created))))))"

section \<open>GetObject, HeadObject, DeleteObject\<close>

definition resolve :: "string \<Rightarrow> string \<Rightarrow> db \<Rightarrow> s3_response + uuid \<times> file_access" where
  "resolve client key d = (case get_key client key d of
      None \<Rightarrow> Inl no_such_key
    | Some i \<Rightarrow> (case access client i d of
          None \<Rightarrow> Inl no_such_key
        | Some file \<Rightarrow> if fa_state file \<noteq> Active then Inl no_such_key else Inr (i, file)))"

definition object_headers :: "s3_lib \<Rightarrow> file_access \<Rightarrow> int \<Rightarrow> headers \<Rightarrow> headers" where
  "object_headers L file content_length hs =
     put_header ''accept-ranges'' ''bytes''
       ((case fa_etag file of None \<Rightarrow> id | Some e \<Rightarrow> try_header L ''etag'' (quoted e))
         (try_header L ''content-type'' (case fa_content_type file of None \<Rightarrow> ''application/octet-stream'' | Some ct \<Rightarrow> ct)
           (try_header L ''content-length'' (show_int content_length) hs)))"

text \<open>The time and the new lease of the audit record of a read.\<close>

record get_input =
  ge_now :: timestamp
  ge_lease_id :: uuid

definition ok_or_answer :: "s3_response option \<Rightarrow> s3_response + unit" where
  "ok_or_answer x = (case x of None \<Rightarrow> Inr () | Some answer \<Rightarrow> Inl answer)"

definition range_span :: "s3_lib \<Rightarrow> headers \<Rightarrow> int \<Rightarrow> s3_response + (int \<times> int) option" where
  "range_span L hs len = (case parse_range L hs len of
      FullRange \<Rightarrow> Inr None
    | Span s e \<Rightarrow> Inr (Some (s, e))
    | Unsatisfiable \<Rightarrow> Inl (range_not_satisfiable L len))"

definition open_span :: "'w sdk \<Rightarrow> string \<Rightarrow> string \<Rightarrow> (int \<times> int) option \<Rightarrow> ('w, provider_error, (string \<times> int) option) eff" where
  "open_span S bucket key span = (case span of
      None \<Rightarrow> open_read S bucket key
    | Some (s, e) \<Rightarrow> open_read_range show_int S bucket key s e)"

definition object_reply :: "s3_lib \<Rightarrow> file_access \<Rightarrow> (int \<times> int) option \<Rightarrow> response_overrides \<Rightarrow> int \<Rightarrow> string \<Rightarrow> s3_response" where
  "object_reply L file span ro len body =
     (let hs = (case span of None \<Rightarrow> []
        | Some (s, e) \<Rightarrow> try_header L ''content-range''
            (''bytes '' @ show_int s @ ''-'' @ show_int e @ ''/'' @ show_int (fa_declared_size file)) [])
      in Reply (if span = None then 200 else 206) (apply_overrides ro (object_headers L file len hs)) body)"

definition get_object :: "'w s3_app \<Rightarrow> get_input \<Rightarrow> string \<Rightarrow> s3_request \<Rightarrow> string \<Rightarrow> (db \<times> 'w, s3_response, s3_response) eff" where
  "get_object A g client r query s =
     (let L = sa_lib A in
      bind_eff (of_result (map_err (\<lambda>_. invalid_response_override) (overrides_from_query L query))) (\<lambda>ro.
      bind_eff (of_result (resolve client (rq_key r) (fst s))) (\<lambda>(i, file).
      bind_eff (of_result (ok_or_answer (verify_read_condition L (rq_headers r) (fa_etag file)))) (\<lambda>_.
      bind_eff (of_result (s3_backend A (fa_storage file))) (\<lambda>b.
      bind_eff (of_result (range_span L (rq_headers r) (fa_declared_size file))) (\<lambda>span.
      bind_eff (on_world (s3_world (open_span (provider A b) (bucket_of b) (fa_object_key file) span))) (\<lambda>opened.
      bind_eff (of_result (ok_or no_such_key opened)) (\<lambda>(body, len).
      on_db (\<lambda>d. (Inr (object_reply L file span ro len body),
        audit_read (ge_now g) (ge_lease_id g) i (st_id (fa_storage file)) client (fa_declared_size file) d))))))))) s)"

definition s3_head_object :: "'w s3_app \<Rightarrow> string \<Rightarrow> s3_request \<Rightarrow> string \<Rightarrow> (db \<times> 'w, s3_response, s3_response) eff" where
  "s3_head_object A client r query s =
     (let L = sa_lib A in
      bind_eff (of_result (map_err (\<lambda>_. invalid_response_override) (overrides_from_query L query))) (\<lambda>ro.
      bind_eff (of_result (resolve client (rq_key r) (fst s))) (\<lambda>(i, file).
      bind_eff (of_result (ok_or_answer (verify_read_condition L (rq_headers r) (fa_etag file)))) (\<lambda>_.
      ret_ok (Reply 200 (apply_overrides ro (object_headers L file (fa_declared_size file) [])) [])))) s)"

definition s3_delete_object :: "timestamp \<Rightarrow> string \<Rightarrow> s3_request \<Rightarrow> (db \<times> 'w, s3_response, s3_response) eff" where
  "s3_delete_object now client r = bind_eff (s3_db (delete_key now client (rq_key r))) (\<lambda>removed. ret_ok (Reply 204 [] []))"

section \<open>Runs that end with an answer\<close>

lemma bind_eff_Inr: "bind_eff op k s = (Inr x, s') \<longleftrightarrow> (\<exists>a s1. op s = (Inr a, s1) \<and> k a s1 = (Inr x, s'))"
  by (cases "op s"; cases "fst (op s)") (auto simp: bind_eff_def try_eff_def)

lemma of_result_Inr [simp]: "of_result r s = (Inr a, s') \<longleftrightarrow> r = Inr a \<and> s' = s"
  by (auto simp: of_result_def)

lemma ret_ok_Inr [simp]: "ret_ok a s = (Inr x, s') \<longleftrightarrow> x = a \<and> s' = s"
  by (auto simp: ret_ok_def)

lemma fail_Inr [simp]: "fail e s \<noteq> (Inr x, s')"
  by (simp add: fail_def)

lemma s3_db_Inr [simp]: "s3_db op (d, w) = (Inr a, d', w') \<longleftrightarrow> op d = (Inr a, d') \<and> w' = w"
  by (auto simp: s3_db_def on_db_def split: prod.splits sum.splits)

lemma s3_world_Inr [simp]: "on_world (s3_world op) (d, w) = (Inr a, d', w') \<longleftrightarrow> op w = (Inr a, w') \<and> d' = d"
  by (auto simp: s3_world_def on_world_def split: prod.splits sum.splits)

lemma publish_answer_Inr [simp]: "publish_answer m out = Inr gone \<longleftrightarrow> out = Finalized gone"
  by (cases out) (simp_all add: publish_answer_def)

lemma claim_put_Inr [simp]: "claim_put now c (d, w) = (Inr u, d', w') \<longleftrightarrow> claim_completion now c d = (Inr CompletionClaimed, d') \<and> w' = w"
  by (auto simp: claim_put_def bind_eff_Inr split: if_splits)

lemma bind_of_result: "bind_eff (of_result (Inr a)) k s = k a s"
  by (simp add: bind_eff_def try_eff_def of_result_def)

lemma bind_on_world: "op w = (Inr a, w') \<Longrightarrow> bind_eff (on_world op) k (d, w) = k a (d, w')"
  by (simp add: bind_eff_def try_eff_def on_world_def)

lemmas run_simps = bind_eff_Inr split_paired_Ex

lemma put_created_run:
  assumes "put_created A p client r n c (d, w) = (Inr answer, d', w')"
  obtains b m data d1 d2 gone where
    "s3_backend A (cf_storage c) = Inr b" "receive_body (sa_lib A) r n = Inr (m, data)"
    "claim_completion (tm_claim (pu_timing p)) \<lparr>sp_client = client, sp_key = rq_key r, sp_file = cf_file_id c, sp_multipart = False,
        sp_expected_size = ms_written m, sp_expected_etag = ms_md5_hex m, sp_ttl = WRITE_LEASE_TTL\<rparr> d = (Inr CompletionClaimed, d1)"
    "store_put A (pu_timing p) (cf_file_id c) b data (cf_object_key c) (header_str (sa_lib A) (rq_headers r) ''content-type'') (d1, w) = (Inr (), d2, w')"
    "finalize_single_upload (tm_finalize (pu_timing p)) client (rq_key r) (cf_file_id c) d2 = (Inr (Finalized gone), d')"
    "answer = ok_with_etag (sa_lib A) (ms_md5_hex m)"
  using assms unfolding put_created_def Let_def by (auto simp: run_simps split: prod.splits)

lemma put_object_run:
  assumes "put_object A p client r (d, w) = (Inr answer, d', w')"
  obtains n c d1 where "content_length_of (sa_lib A) r = Some n" "0 \<le> n"
    "create_upload (ap_uuid_text (sa_app A)) (ap_year_month (sa_app A)) (pu_now p) (pu_file_id p) (pu_lease_id p)
       (put_spec client n (header_str (sa_lib A) (rq_headers r) ''content-type'')) (rq_key r)
       (has_header (rq_headers r) ''if-none-match'') d = (Inr (Created c), d1)"
    "put_created A p client r n c (d1, w) = (Inr answer, d', w')"
proof -
  obtain n outcome d1 where run: "content_length_of (sa_lib A) r = Some n" "0 \<le> n"
    "create_upload (ap_uuid_text (sa_app A)) (ap_year_month (sa_app A)) (pu_now p) (pu_file_id p) (pu_lease_id p)
       (put_spec client n (header_str (sa_lib A) (rq_headers r) ''content-type'')) (rq_key r)
       (has_header (rq_headers r) ''if-none-match'') d = (Inr outcome, d1)"
    "(case outcome of NoClient \<Rightarrow> fail (xml_error 500 ''InternalError'' ''the authenticated client has no storage'')
       | Created created \<Rightarrow> put_created A p client r n created) (d1, w) = (Inr answer, d', w')"
    using assms unfolding put_object_def Let_def by (auto simp: run_simps)
  then show thesis by (cases outcome) (auto intro: that)
qed

text \<open>What was received is the whole body, measured.\<close>

lemma receive_body_Inr:
  assumes "receive_body L r n = Inr (m, data)"
  shows "(\<exists>e. delivered (rq_body r) = Some (data, e)) \<and> m = measure_data (sl_hashes L) True data \<and>
    int (length data) = n \<and> verify_checksums L (rq_headers r) m = None"
proof -
  obtain q t where run: "receive_loop n (spool_deadline n) receive_start (rq_body r) = (q, t)" by fastforce
  from assms run obtain "q = Inr data" "m = measure_data (sl_hashes L) True data" "ms_written m = n"
    "verify_checksums L (rq_headers r) m = None"
    unfolding receive_body_def spool_to_temp_def by (auto split: sum.splits if_splits option.splits)
  with receive_loop_bounded [OF run receive_start_steady] show ?thesis
    by (auto simp: received_ok_def receive_start_def measure_data_def)
qed

section \<open>An owned S3 completion while the provider works\<close>

text \<open>Renewals write the leases and nothing else.\<close>

lemma same_leases: "\<exists>ls. d = d\<lparr>leases := ls\<rparr>"
  by (rule exI [of _ "leases d"]) simp

lemma renew_completion_leases:
  assumes "renew_completion pr now i ttl d = (r, d')"
  shows "\<exists>ls. d' = d\<lparr>leases := ls\<rparr>"
  using assms same_leases unfolding renew_completion_def by (auto split: if_splits)

lemma heartbeat_leases:
  assumes "run_with_heartbeat (still_owned fails S3Completion i) ticks op dropped (d, w) = (r, d', w')"
  shows "\<exists>ls. d' = d\<lparr>leases := ls\<rparr>"
  using assms
proof (induction ticks arbitrary: d)
  case Nil
  then show ?case using same_leases by (auto split: prod.splits)
next
  case (Cons t ts)
  obtain go d1 where renewed: "still_owned fails S3Completion i t d = (go, d1)" by fastforce
  have "\<exists>ls. d1 = d\<lparr>leases := ls\<rparr>"
  proof (cases "fails t")
    case None
    obtain q d2 where q: "renew_completion S3 t i WRITE_LEASE_TTL d = (q, d2)" by fastforce
    with renewed None have "d1 = d2"
      by (cases q) (auto simp: still_owned_def renew_ownership_def s3_renew_completion_lease_def split: bool.splits)
    with renew_completion_leases [OF q] show ?thesis by simp
  next
    case (Some e)
    with renewed have "d1 = d\<lparr>leases := leases d\<rparr>" by (simp add: still_owned_def)
    then show ?thesis ..
  qed
  then obtain ls where ls: "d1 = d\<lparr>leases := ls\<rparr>" ..
  show ?case
  proof (cases go)
    case True
    with Cons.prems renewed have "run_with_heartbeat (still_owned fails S3Completion i) ts op dropped (d1, w) = (r, d', w')"
      by simp
    from Cons.IH [OF this] ls show ?thesis by auto
  next
    case False
    with Cons.prems renewed ls show ?thesis by auto
  qed
qed

text \<open>
  From the claim to the storage result: the operation runs to its end, and the rows the claim wrote,
  the keys and every other file are as the claim left them.
\<close>

lemma claim_completion_frame:
  "claim_completion now s d = (r, d1) \<Longrightarrow> object_keys d1 = object_keys d \<and> storages d1 = storages d \<and> locations d1 = locations d"
  unfolding claim_completion_def claim_single_completion_def multipart_claim_def Let_def
  by (auto split: multipart_completion_start.splits if_splits option.splits upload_state.splits)

lemma claimed_operation:
  assumes "db_ok d" "claim_completion now s d = (Inr CompletionClaimed, d1)"
    and run: "run_with_completion_heartbeat fails ticks dropped (sp_file s) operation (d1, w) = (x, d2, w')"
  obtains f u where "x = Some (fst (operation w))" "w' = snd (operation w)" "db_ok d2"
    "v_file (view d (sp_file s)) = Some f" "v_upload (view d (sp_file s)) = Some u"
    "publishable d2 (sp_client s) (sp_key s) (sp_file s) (sp_multipart s) f
       (to_completing now (sp_expected_size s) (sp_expected_etag s) u) (sp_expected_size s) (sp_expected_etag s)"
    "\<And>c k. get_key c k d2 = get_key c k d" "\<And>j. j \<noteq> sp_file s \<Longrightarrow> view d2 j = view d j"
    "storages d2 = storages d" "locations d2 = locations d"
proof -
  let ?i = "sp_file s"
  obtain f u where c: "db_ok d1" "v_file (view d ?i) = Some f" "f_client f = sp_client s" "f_state f = Pending"
    "v_upload (view d ?i) = Some u" "s3_session (sp_key s) (sp_multipart s) u" "u_state u = Open"
    "v_file (view d1 ?i) = Some f"
    "v_upload (view d1 ?i) = Some (to_completing now (sp_expected_size s) (sp_expected_etag s) u)"
    "v_leases (view d1 ?i) = renew (now + secs (sp_ttl s)) (v_leases (view d ?i))" "0 \<le> sp_expected_size s"
    by (rule claimed_rows [OF assms(1,2)]) blast
  have others: "view d1 j = view d j" if "j \<noteq> ?i" for j
    using assms(1,2)
  proof (cases rule: claim_completion_cases)
    case (claimed g v)
    from at_fileD(3) [OF claimed(12) that] show ?thesis .
  qed simp
  note frame = claim_completion_frame [OF assms(2)]
  obtain l where l: "v_leases (view d ?i) = [l]" "le_state l = Issued"
    using open_leases_issued [OF assms(1) c(2,4)] db_okD(2) [OF assms(1), of ?i] c(2,4,5,7)
    by (cases "v_leases (view d ?i)") (auto simp: view_ok_def lease_ok_def)
  have "owned_completion S3 (view d1 ?i) (now + secs (sp_ttl s))"
    unfolding owned_completion_def
    using c l by (auto simp: renew_def in_state_def s3_session_def to_completing_def)
  from heartbeat_keeps [of S3Completion, OF _ c(1) this run [unfolded run_with_completion_heartbeat_def run_with_write_heartbeat_def]]
  have kept: "x = Some (fst (operation w)) \<and> w' = snd (operation w) \<and> db_ok d2 \<and> (\<forall>j. j \<noteq> ?i \<longrightarrow> view d2 j = view d1 j)"
    by (simp add: completion_owner_def)
  obtain ls where d2: "d2 = d1\<lparr>leases := ls\<rparr>"
    using heartbeat_leases [OF run [unfolded run_with_completion_heartbeat_def run_with_write_heartbeat_def]] ..
  have "v_file (view d2 ?i) = v_file (view d1 ?i)" "v_upload (view d2 ?i) = v_upload (view d1 ?i)"
    by (simp_all add: d2 view_def)
  then have "publishable d2 (sp_client s) (sp_key s) ?i (sp_multipart s) f
       (to_completing now (sp_expected_size s) (sp_expected_etag s) u) (sp_expected_size s) (sp_expected_etag s)"
    using c unfolding publishable_def by (simp add: to_completing_def s3_session_def)
  moreover have "get_key c k d2 = get_key c k d" for c k
    using frame by (simp add: get_key_def d2)
  moreover have "view d2 j = view d j" if "j \<noteq> ?i" for j
    using kept others that by simp
  moreover have "storages d2 = storages d" "locations d2 = locations d"
    using frame by (simp_all add: d2)
  ultimately show thesis using that c(2,5) kept by blast
qed

section \<open>What the object operations guarantee\<close>

lemma finalize_upload_frame:
  assumes "finalize_upload now c k i m d = (r, d')"
  shows "storages d' = storages d \<and> locations d' = locations d"
  using assms unfolding finalize_upload_def publish_def Let_def insert_key_in_tx_def upsert_key_in_tx_def detach_active_def
  by (auto split: option.splits if_splits prod.splits sum.splits bool.splits)

text \<open>From the claim to the publication, for single and multipart uploads.\<close>

lemma claimed_and_published:
  assumes "db_ok d" "claim_completion now s d = (Inr CompletionClaimed, d1)"
    and run: "run_with_completion_heartbeat fails ticks dropped (sp_file s) operation (d1, w) = (x, d2, w')"
    and fin: "finalize_upload t (sp_client s) (sp_key s) (sp_file s) (sp_multipart s) d2 = (Inr (Finalized gone), d')"
  obtains f u where "x = Some (fst (operation w))" "w' = snd (operation w)" "db_ok d'"
    "v_file (view d (sp_file s)) = Some f" "v_upload (view d (sp_file s)) = Some u" "f_client f = sp_client s" "f_state f = Pending"
    "gone = (if u_if_none_match u then None else displaced (get_key (sp_client s) (sp_key s) d) (sp_file s))"
    "u_if_none_match u \<Longrightarrow> get_key (sp_client s) (sp_key s) d = None"
    "v_file (view d' (sp_file s)) = Some (f\<lparr>f_state := Active, f_declared_size := sp_expected_size s,
       f_etag := Some (sp_expected_etag s), f_committed_at := Some t\<rparr>)"
    "\<And>c k. get_key c k d' = (if (c, k) = (sp_client s, sp_key s) then Some (sp_file s) else get_key c k d)"
    "\<And>j. j \<noteq> sp_file s \<Longrightarrow> view d' j = (if gone = Some j then detached t (view d j) else view d j)"
    "storages d' = storages d" "locations d' = locations d"
proof -
  let ?i = "sp_file s" and ?to = "to_completing now (sp_expected_size s) (sp_expected_etag s)"
  obtain f u where own: "x = Some (fst (operation w))" "w' = snd (operation w)" "db_ok d2"
    "v_file (view d ?i) = Some f" "v_upload (view d ?i) = Some u"
    "publishable d2 (sp_client s) (sp_key s) ?i (sp_multipart s) f (?to u) (sp_expected_size s) (sp_expected_etag s)"
    "\<And>c k. get_key c k d2 = get_key c k d" "\<And>j. j \<noteq> ?i \<Longrightarrow> view d2 j = view d j"
    "storages d2 = storages d" "locations d2 = locations d"
    by (rule claimed_operation [OF assms(1,2) run]) blast
  from own(3) fin show thesis
  proof (cases rule: finalize_upload_cases)
    case (finalized g v sz etag gone')
    have gv: "g = f" "v = ?to u" "sz = sp_expected_size s" "etag = sp_expected_etag s" "gone' = gone"
      using own(6) finalized(1,2) unfolding publishable_def by auto
    have inm: "u_if_none_match v = u_if_none_match u" by (simp add: gv to_completing_def)
    show thesis
    proof (rule that [OF own(1,2) db_ok_sim [OF own(3) finalized(8,9)] own(4,5)])
      show "f_client f = sp_client s" "f_state f = Pending" using own(6) by (simp_all add: publishable_def)
      show "gone = (if u_if_none_match u then None else displaced (get_key (sp_client s) (sp_key s) d) ?i)"
        using finalized(3) by (simp add: inm own(7) gv(5))
      show "u_if_none_match u \<Longrightarrow> get_key (sp_client s) (sp_key s) d = None"
        using finalized(4) by (simp add: inm own(7))
      show "v_file (view d' ?i) = Some (f\<lparr>f_state := Active, f_declared_size := sp_expected_size s,
          f_etag := Some (sp_expected_etag s), f_committed_at := Some t\<rparr>)"
        using finalized(5) gv by simp
      show "view d' j = (if gone = Some j then detached t (view d j) else view d j)" if "j \<noteq> ?i" for j
        using finalized(7) [OF that] own(8) [OF that] gv(5) by simp
      show "get_key c k d' = (if (c, k) = (sp_client s, sp_key s) then Some ?i else get_key c k d)" for c k
        using finalized(6) own(7) by simp
    qed (use finalize_upload_frame [OF fin] own(9,10) in auto)
  qed auto
qed

section \<open>PutObject publishes what it received\<close>

lemma create_upload_new:
  assumes "db_ok d" "create_upload ut ym now i l c key inm d = (Inr (Created f), d1)"
  shows "db_ok d1 \<and> cf_file_id f = i \<and> v_file (view d i) = None \<and> v_file (view d1 i) = Some (new_file now i c) \<and>
    v_upload (view d1 i) = Some (open_upload now i key (cs_part_size c \<noteq> None) inm) \<and>
    v_loc (view d1 i) = Some \<lparr>l_file = i, l_storage = st_id (cf_storage f), l_object_key = cf_object_key f\<rparr> \<and>
    cf_storage f \<in> set (storages d) \<and> storages d1 = storages d \<and>
    (\<forall>j. j \<noteq> i \<longrightarrow> view d1 j = view d j) \<and> (\<forall>c k. get_key c k d1 = get_key c k d)"
  using assms
proof (cases rule: create_upload_cases)
  case (session st g)
  have "view d1 (f_id (new_file now i c)) = \<lparr>v_file = Some (new_file now i c), v_loc = Some
      \<lparr>l_file = i, l_storage = st_id st, l_object_key = object_key ut ym (cs_client c) i (cs_content_type c) now\<rparr>,
     v_leases = [new_lease now (now + secs (cs_lease_ttl_secs c)) l i Write None], v_parts = [],
     v_upload = Some (open_upload now i key (cs_part_size c \<noteq> None) inm)\<rparr>"
    using view_with_file_new [OF db_okD(1) [OF assms(1)] session(4)] by (simp add: session(5))
  moreover have "view d1 j = view d j" if "j \<noteq> i" for j
    unfolding session(5) by (rule view_with_file_other [OF session(4)]) (use that in simp)
  moreover have "v_file (view d i) = None"
    using fresh_rowsD(1) [OF session(4)] by (simp add: find_fresh)
  moreover have "get_key c' k' d1 = get_key c' k' d" "storages d1 = storages d" for c' k'
    by (simp_all add: session(5) with_file_def get_key_def)
  moreover have "st \<in> set (storages d)"
    using session(1) by (auto simp: owned_storage_def dest: find_where_Some)
  ultimately show ?thesis
    using session(2,3) create_upload.keeps_db_ok [OF assms] by (simp del: view_simps)
qed simp

lemma put_object_published:
  assumes "db_ok d" "put_object A p client r (d, w) = (Inr answer, d', w')"
  obtains n m data b f and c :: created_file where
    "content_length_of (sa_lib A) r = Some n" "receive_body (sa_lib A) r n = Inr (m, data)"
    "s3_backend A (cf_storage c) = Inr b"
    "commit_temp_to_backend (ap_connections (sa_app A)) b data (cf_object_key c) (header_str (sa_lib A) (rq_headers r) ''content-type'') w = (Inr (), w')"
    "answer = ok_with_etag (sa_lib A) (ms_md5_hex m)" "db_ok d'"
    "v_file (view d (pu_file_id p)) = None" "v_file (view d' (pu_file_id p)) = Some f" "f_client f = client"
    "f_state f = Active" "f_declared_size f = ms_written m" "f_etag f = Some (ms_md5_hex m)"
    "v_loc (view d' (pu_file_id p)) = Some \<lparr>l_file = pu_file_id p, l_storage = st_id (cf_storage c), l_object_key = cf_object_key c\<rparr>"
    "has_header (rq_headers r) ''if-none-match'' \<Longrightarrow> get_key client (rq_key r) d = None"
    "\<And>c k. get_key c k d' = (if (c, k) = (client, rq_key r) then Some (pu_file_id p) else get_key c k d)"
    "\<And>j. j \<noteq> pu_file_id p \<Longrightarrow> view d' j =
         (if get_key client (rq_key r) d = Some j then detached (tm_finalize (pu_timing p)) (view d j) else view d j)"
    "storages d' = storages d" "cf_storage c \<in> set (storages d)"
proof -
  let ?i = "pu_file_id p" and ?inm = "has_header (rq_headers r) ''if-none-match''" and ?tm = "pu_timing p"
  obtain n c d1 where put: "content_length_of (sa_lib A) r = Some n"
    "create_upload (ap_uuid_text (sa_app A)) (ap_year_month (sa_app A)) (pu_now p) ?i (pu_lease_id p)
       (put_spec client n (header_str (sa_lib A) (rq_headers r) ''content-type'')) (rq_key r) ?inm d = (Inr (Created c), d1)"
    "put_created A p client r n c (d1, w) = (Inr answer, d', w')"
    by (rule put_object_run [OF assms(2)]) blast
  note new = create_upload_new [OF assms(1) put(2)]
  obtain b m data d2 d3 gone where run: "s3_backend A (cf_storage c) = Inr b" "receive_body (sa_lib A) r n = Inr (m, data)"
    "claim_completion (tm_claim ?tm) \<lparr>sp_client = client, sp_key = rq_key r, sp_file = cf_file_id c, sp_multipart = False,
        sp_expected_size = ms_written m, sp_expected_etag = ms_md5_hex m, sp_ttl = WRITE_LEASE_TTL\<rparr> d1 = (Inr CompletionClaimed, d2)"
    "store_put A ?tm (cf_file_id c) b data (cf_object_key c) (header_str (sa_lib A) (rq_headers r) ''content-type'') (d2, w) = (Inr (), d3, w')"
    "finalize_single_upload (tm_finalize ?tm) client (rq_key r) (cf_file_id c) d3 = (Inr (Finalized gone), d')"
    "answer = ok_with_etag (sa_lib A) (ms_md5_hex m)"
    by (rule put_created_run [OF put(3)]) blast
  let ?s = "\<lparr>sp_client = client, sp_key = rq_key r, sp_file = ?i, sp_multipart = False,
        sp_expected_size = ms_written m, sp_expected_etag = ms_md5_hex m, sp_ttl = WRITE_LEASE_TTL\<rparr>"
    and ?op = "commit_temp_to_backend (ap_connections (sa_app A)) b data (cf_object_key c) (header_str (sa_lib A) (rq_headers r) ''content-type'')"
  have c: "cf_file_id c = ?i" "db_ok d1" using new by auto
  note run = run [unfolded c(1)]
  obtain x where hb: "run_with_completion_heartbeat (tm_fails ?tm) (tm_ticks ?tm) (tm_dropped ?tm) (sp_file ?s) ?op (d2, w)
      = (Some (Inr x), d3, w')"
    using run(4) by (auto simp: store_put_def split: prod.splits option.splits sum.splits)
  have fin: "finalize_upload (tm_finalize ?tm) (sp_client ?s) (sp_key ?s) (sp_file ?s) (sp_multipart ?s) d3 = (Inr (Finalized gone), d')"
    using run(5) by (simp add: finalize_single_upload_def)
  obtain f u where pub: "Some (Inr x) = Some (fst (?op w))" "w' = snd (?op w)" "db_ok d'"
    "v_file (view d1 ?i) = Some f" "v_upload (view d1 ?i) = Some u" "f_client f = client"
    "gone = (if u_if_none_match u then None else displaced (get_key client (rq_key r) d1) ?i)"
    "u_if_none_match u \<Longrightarrow> get_key client (rq_key r) d1 = None"
    "v_file (view d' ?i) = Some (f\<lparr>f_state := Active, f_declared_size := ms_written m,
       f_etag := Some (ms_md5_hex m), f_committed_at := Some (tm_finalize ?tm)\<rparr>)"
    "\<And>c k. get_key c k d' = (if (c, k) = (client, rq_key r) then Some ?i else get_key c k d1)"
    "\<And>j. j \<noteq> ?i \<Longrightarrow> view d' j = (if gone = Some j then detached (tm_finalize ?tm) (view d1 j) else view d1 j)"
    "storages d' = storages d1" "locations d' = locations d1"
    by (rule claimed_and_published [OF c(2) run(3) hb fin, unfolded completion_spec.select_convs]) blast
  have inm: "u_if_none_match u = ?inm"
    using pub(5) new by (simp add: open_upload_def)
  have key: "get_key client (rq_key r) d \<noteq> Some ?i"
  proof
    assume "get_key client (rq_key r) d = Some ?i"
    from get_key_file [OF db_okD(1) [OF assms(1)] this] new show False by simp
  qed
  have free: "get_key client (rq_key r) d = None" if ?inm
    using pub(8) inm that new by simp
  have gone: "gone = get_key client (rq_key r) d"
    using pub(7) inm new key free by (cases ?inm) (auto simp: displaced_def split: option.splits)
  show thesis
  proof (rule that [OF put(1) run(2,1)])
    show "?op w = (Inr (), w')" using pub(1,2) by (cases "?op w") auto
    show "v_loc (view d' ?i) = Some \<lparr>l_file = ?i, l_storage = st_id (cf_storage c), l_object_key = cf_object_key c\<rparr>"
      using new pub(13) by simp
    show "view d' j = (if get_key client (rq_key r) d = Some j then detached (tm_finalize ?tm) (view d j) else view d j)"
      if "j \<noteq> ?i" for j
      using pub(11) [OF that] new that by (simp add: gone)
    show "get_key c k d' = (if (c, k) = (client, rq_key r) then Some ?i else get_key c k d)" for c k
      using pub(10) [of c k] new by simp
    show "v_file (view d ?i) = None" "cf_storage c \<in> set (storages d)" using new by blast+
    show "storages d' = storages d" using new pub(12) by simp
    show "v_file (view d' ?i) = Some (f\<lparr>f_state := Active, f_declared_size := ms_written m,
       f_etag := Some (ms_md5_hex m), f_committed_at := Some (tm_finalize ?tm)\<rparr>)" by (rule pub(9))
  qed (simp_all add: pub(3,6) run(6) free)
qed


section \<open>GetObject reads what PutObject stored\<close>

lemma access_row:
  assumes "schema_ok d" "distinct (map st_id (storages d))" "s \<in> set (storages d)"
    and "v_file (view d i) = Some f" "f_client f = client" "v_loc (view d i) = Some l" "l_storage l = st_id s"
  obtains a where "access client i d = Some a" "fa_state a = f_state f" "fa_declared_size a = f_declared_size f"
    "fa_etag a = f_etag f" "fa_object_key a = l_object_key l" "fa_storage a = s"
proof -
  have "(l, s) \<in> set (placed d i)" "f \<in> set (files d)" "f_id f = i"
    using assms(3,4,6,7) by (auto simp: placed_def dest!: find_where_Some)
  then have "(f, l, s) \<in> set [(f, l, s). f \<leftarrow> files d, f_id f = i, f_client f = client, (l, s) \<leftarrow> placed d (f_id f)]"
    using assms(5) by force
  then have "[(f, l, s). f \<leftarrow> files d, f_id f = i, f_client f = client, (l, s) \<leftarrow> placed d (f_id f)] \<noteq> []"
    by (metis emptyE list.set(1))
  then have "access client i d \<noteq> None"
    unfolding access_def by (simp split: list.splits prod.splits)
  then obtain a where a: "access client i d = Some a" by blast
  from assms(1) a show thesis
  proof (rule access_SomeD)
    fix g m assume g: "v_file (view d i) = Some g" "f_client g = client" "v_loc (view d i) = Some m" "fa_state a = f_state g"
      "fa_etag a = f_etag g" "fa_declared_size a = f_declared_size g" "fa_object_key a = l_object_key m"
      "st_id (fa_storage a) = l_storage m" "fa_storage a \<in> set (storages d)"
    have "g = f" "m = l" using g(1,3) assms(4,6) by simp_all
    moreover have "fa_storage a = s"
      using assms(2,3,7) g(8,9) \<open>m = l\<close> by (auto simp: distinct_map dest: inj_onD)
    ultimately show thesis using that [OF a] g by simp
  qed
qed

text \<open>The provider keeps what it stores: a read right after a successful PUT returns the same bytes.\<close>

definition reads_back :: "'w connections \<Rightarrow> bool" where
  "reads_back conn \<longleftrightarrow> (\<forall>b data key content_type w w1. commit_temp_to_backend conn b data key content_type w = (Inr (), w1) \<longrightarrow>
     (\<exists>w2. open_read (conn (sb_spec b) InternalAddress) (bucket_of b) key w1 = (Inr (Some (data, int (length data))), w2)))"

text \<open>
  C22. What PutObject stores is what GetObject returns: after a successful PUT of a key, an
  unconditional GET of the same key by the same client, without a range, answers 200 with the bytes
  of the uploaded body, their count and their MD5 as ETag, through every layer in between: the
  client's key, the file's row and location, its storage's credential and the provider.
\<close>

theorem get_returns_what_put_stored:
  assumes "db_ok d" "distinct (map st_id (storages d))" "reads_back (ap_connections (sa_app A))"
    and "put_object A p client r (d, w) = (Inr answer, d1, w1)"
    and "rq_key r' = rq_key r" "get_all (rq_headers r') ''if-match'' = []" "\<not> has_header (rq_headers r') ''range''"
    and "overrides_from_query (sa_lib A) query = Inr ro"
  shows "\<exists>e data a d2 w2. delivered (rq_body r) = Some (data, e) \<and>
      get_object A g client r' query (d1, w1) =
        (Inr (Reply 200 (apply_overrides ro (object_headers (sa_lib A) a (int (length data)) [])) data), d2, w2) \<and>
      fa_etag a = Some (hs_md5_hex (sl_hashes (sa_lib A)) data)"
proof -
  let ?i = "pu_file_id p" and ?L = "sa_lib A"
  obtain n m data b f and c :: created_file where put: "receive_body ?L r n = Inr (m, data)"
    "s3_backend A (cf_storage c) = Inr b"
    "commit_temp_to_backend (ap_connections (sa_app A)) b data (cf_object_key c) (header_str ?L (rq_headers r) ''content-type'') w = (Inr (), w1)"
    "db_ok d1" "v_file (view d1 ?i) = Some f" "f_client f = client" "f_state f = Active" "f_declared_size f = ms_written m"
    "f_etag f = Some (ms_md5_hex m)"
    "v_loc (view d1 ?i) = Some \<lparr>l_file = ?i, l_storage = st_id (cf_storage c), l_object_key = cf_object_key c\<rparr>"
    "\<And>c k. get_key c k d1 = (if (c, k) = (client, rq_key r) then Some ?i else get_key c k d)"
    "storages d1 = storages d" "cf_storage c \<in> set (storages d)"
    by (rule put_object_published [OF assms(1,4)]) blast
  note m = receive_body_Inr [OF put(1)]
  obtain a where a: "access client ?i d1 = Some a" "fa_state a = f_state f" "fa_declared_size a = f_declared_size f"
    "fa_etag a = f_etag f" "fa_object_key a = cf_object_key c" "fa_storage a = cf_storage c"
    by (rule access_row [OF db_okD(1) [OF put(4)] _ _ put(5,6,10)]) (use assms(2) put(12,13) in auto)
  obtain w2 where read: "open_read (provider A b) (bucket_of b) (cf_object_key c) w1 = (Inr (Some (data, int (length data))), w2)"
    using assms(3) put(3) unfolding reads_back_def by blast
  have "resolve client (rq_key r') d1 = Inr (?i, a)"
    using put(11) [of client "rq_key r"] a put(7) by (simp add: resolve_def assms(5))
  moreover have "range_span ?L (rq_headers r') (fa_declared_size a) = Inr None"
    using assms(7) by (simp add: range_span_def parse_range_def header_str_def has_header_def)
  moreover have "ok_or_answer (verify_read_condition ?L (rq_headers r') (fa_etag a)) = Inr ()"
    by (simp add: ok_or_answer_def verify_read_condition_def assms(6))
  moreover have "map_err (\<lambda>_. invalid_response_override) (overrides_from_query ?L query) = Inr ro"
    by (simp add: assms(8) map_err_def)
  ultimately have "get_object A g client r' query (d1, w1) =
      (Inr (object_reply ?L a None ro (int (length data)) data),
       audit_read (ge_now g) (ge_lease_id g) ?i (st_id (fa_storage a)) client (fa_declared_size a) d1, w2)"
    using read put(2) a
    unfolding get_object_def Let_def fst_conv
    by (simp add: bind_of_result bind_on_world map_err_def s3_world_def open_span_def ok_or_def on_db_def)
  moreover have "fa_etag a = Some (hs_md5_hex (sl_hashes ?L) data)" using a(4) put(9) m by (simp add: measure_data_def)
  ultimately show ?thesis using m by (auto simp: object_reply_def)
qed

section \<open>Witnesses\<close>

text \<open>A provider that keeps objects by bucket and key, and the surface over the example database.\<close>

type_synonym memory = "((string \<times> string) \<times> string) list"

definition memory_sdk :: "memory sdk" where
  "memory_sdk = refusing_sdk\<lparr>
     sdk_put := \<lambda>b k ct body w. (Inr (), ((b, k), body) # w),
     sdk_get := \<lambda>b k range w. (case map_of w (b, k) of
         None \<Rightarrow> (Inl \<lparr>se_not_found = True, se_status = Some 404\<rparr>, w)
       | Some body \<Rightarrow> (Inr \<lparr>go_length = Some (int (length body)), go_body = body\<rparr>, w))\<rparr>"

definition memory_app :: "memory s3_app" where
  "memory_app = \<lparr>sa_app = \<lparr>ap_primitives = demo_primitives, ap_crypto = demo_crypto, ap_connections = \<lambda>_ _. memory_sdk,
     ap_md5_hex = id, ap_hex_decode = Some, ap_uuid_text = \<lambda>i. replicate i CHR ''u'', ap_year_month = \<lambda>_. ''2026/01'',
     ap_multipart_threshold = 10000000, ap_part_size = 8388608, ap_public_url = None\<rparr>, sa_lib = demo_lib\<rparr>"

definition demo_put :: "memory put_input" where
  "demo_put = \<lparr>pu_now = 0, pu_file_id = 20, pu_lease_id = 40, pu_budget = budget_new 8388608, pu_spool_opens = True,
     pu_timing = \<lparr>tm_claim = 1, tm_ticks = [50], tm_fails = \<lambda>_. None, tm_dropped = id, tm_finalize = 60\<rparr>\<rparr>"

definition demo_put_request :: s3_request where
  "demo_put_request = \<lparr>rq_method = ''PUT'', rq_path = ''/c1/a'', rq_query = None, rq_headers = [(''content-length'', ''5'')],
     rq_bucket = ''c1'', rq_key = ''a'', rq_body = [Chunk 0 ''hello'' (WriteOk 0), BodyEnd 0 (WriteOk 0)]\<rparr>"

lemma memory_reads_back: "reads_back (ap_connections (sa_app memory_app))"
  by (auto simp: reads_back_def memory_app_def memory_sdk_def commit_temp_to_backend_def put_object_from_path_def sdk_result_def open_read_def)

lemma demo_put_runs: "fst (put_object memory_app demo_put ''c1'' demo_put_request (demo_db, [])) = Inr (ok_with_etag demo_lib ''hello'')"
  by code_simp


abbreviation demo_stored :: "db \<times> memory" where
  "demo_stored \<equiv> snd (put_object memory_app demo_put ''c1'' demo_put_request (demo_db, []))"

lemma demo_put_run:
  "put_object memory_app demo_put ''c1'' demo_put_request (demo_db, []) = (Inr (ok_with_etag demo_lib ''hello''), fst demo_stored, snd demo_stored)"
  using run_prod [OF demo_put_runs] by simp


theorem get_returns_what_put_stored_witness:
  "\<exists>hs. fst (get_object memory_app \<lparr>ge_now = 70, ge_lease_id = 41\<rparr> ''c1'' (demo_request []\<lparr>rq_key := ''a''\<rparr>) [] demo_stored) =
     Inr (Reply 200 hs ''hello'')"
proof -
  have st: "distinct (map st_id (storages demo_db))" by (simp add: demo_db_def)
  have r: "rq_key (demo_request []\<lparr>rq_key := ''a''\<rparr>) = rq_key demo_put_request"
    "get_all (rq_headers (demo_request []\<lparr>rq_key := ''a''\<rparr>)) ''if-match'' = []"
    "\<not> has_header (rq_headers (demo_request []\<lparr>rq_key := ''a''\<rparr>)) ''range''"
    by (simp_all add: demo_request_def demo_put_request_def get_all_def has_header_def)
  obtain ro where "overrides_from_query (sa_lib memory_app) [] = Inr ro"
    by (simp add: overrides_from_query_def response_override_def query_value_def query_pairs_def)
  note get = get_returns_what_put_stored [OF demo_db_ok st memory_reads_back demo_put_run r this, of "\<lparr>ge_now = 70, ge_lease_id = 41\<rparr>"]
  have "delivered (rq_body demo_put_request) = Some (''hello'', 0)" by (simp add: demo_put_request_def)
  with get show ?thesis by auto
qed

end
