(* ===== verification/S3_Multipart_Api.thy ===== *)
theory S3_Multipart_Api
  imports S3_Objects
begin

text \<open>
  \<open>s3/multipart.rs\<close>: the multipart operations of the S3 surface. The UploadId a client sees is the
  file's id; the provider's own id stays in the write lease. Times, new ids, the outcome of opening
  the spool file and the heartbeat's ticks are inputs. Log events are left out.
\<close>

section \<open>Sessions\<close>

definition COMPLETE_BODY_LIMIT :: int where
  "COMPLETE_BODY_LIMIT = 4 * 1024 * 1024"

text \<open>The file, its columns and its write lease behind an UploadId.\<close>

definition resolve_session :: "s3_lib \<Rightarrow> string \<Rightarrow> string \<Rightarrow> string \<Rightarrow> bool \<Rightarrow> db
    \<Rightarrow> s3_response + uuid \<times> file_access \<times> write_lease_handle" where
  "resolve_session L client key upload_id allow_completing d = (case sl_uuid L upload_id of
      None \<Rightarrow> Inl no_such_upload
    | Some i \<Rightarrow>
        if \<not> (if allow_completing then completion_matches client key i True d else upload_matches client key i True d)
        then Inl no_such_upload
        else (case access client i d of
            None \<Rightarrow> Inl no_such_upload
          | Some file \<Rightarrow>
              if fa_state file \<noteq> Pending \<or> fa_part_size file = None then Inl no_such_upload
              else (case write_lease d i of None \<Rightarrow> Inl no_such_upload | Some lease \<Rightarrow> Inr (i, file, lease))))"

section \<open>CreateMultipartUpload\<close>

text \<open>\<open>attach_fails\<close> is the outcome of the update that records the provider's upload id.\<close>

record create_multipart_input =
  cm_now :: timestamp
  cm_file_id :: uuid
  cm_lease_id :: uuid
  cm_attach_fails :: "db_error option"
  cm_cleanup_now :: timestamp

text \<open>The compensations: their own failures are only logged.\<close>

definition discard_unstarted_create :: "uuid \<Rightarrow> db \<Rightarrow> db" where
  "discard_unstarted_create i d = snd (discard_unstarted_upload i d)"

definition schedule_create_cleanup :: "timestamp \<Rightarrow> string \<Rightarrow> string \<Rightarrow> uuid \<Rightarrow> db \<Rightarrow> db" where
  "schedule_create_cleanup now client key i d = snd (claim_abort now client key i d)"

definition attach_session :: "'w s3_app \<Rightarrow> create_multipart_input \<Rightarrow> string \<Rightarrow> string \<Rightarrow> created_file \<Rightarrow> storage_backend
    \<Rightarrow> string \<Rightarrow> (db \<times> 'w, s3_response, unit) eff" where
  "attach_session A x client key c b upload_id = (\<lambda>(d, w).
     case (case cm_attach_fails x of Some e \<Rightarrow> (Inl e, d) | None \<Rightarrow> attach_upload_id (cf_lease_id c) upload_id d) of
        (Inr _, d1) \<Rightarrow> (Inr (), d1, w)
      | (Inl e, d1) \<Rightarrow>
          (case abort_multipart (provider A b) (bucket_of b) (cf_object_key c) upload_id w of
             (Inr _, w1) \<Rightarrow> (Inl xml_internal, discard_unstarted_create (cf_file_id c) d1, w1)
           | (Inl _, w1) \<Rightarrow> (Inl xml_internal, schedule_create_cleanup (cm_cleanup_now x) client key (cf_file_id c) d1, w1)))"

definition open_session_of :: "'w s3_app \<Rightarrow> create_multipart_input \<Rightarrow> string \<Rightarrow> string \<Rightarrow> string option \<Rightarrow> created_file
    \<Rightarrow> (db \<times> 'w, s3_response, unit) eff" where
  "open_session_of A x client key content_type c = (\<lambda>(d, w).
     case s3_backend A (cf_storage c) of
       Inl answer \<Rightarrow> (Inl answer, discard_unstarted_create (cf_file_id c) d, w)
     | Inr b \<Rightarrow>
         (case create_multipart (provider A b) (bucket_of b) (cf_object_key c) content_type w of
            (Inl _, w1) \<Rightarrow> (Inl xml_storage_error, schedule_create_cleanup (cm_cleanup_now x) client key (cf_file_id c) d, w1)
          | (Inr upload_id, w1) \<Rightarrow> attach_session A x client key c b upload_id (d, w1)))"

definition multipart_spec :: "'w s3_app \<Rightarrow> string \<Rightarrow> string option \<Rightarrow> create_spec" where
  "multipart_spec A client content_type =
     \<lparr>cs_client = client, cs_declared_size = 0, cs_content_type = content_type, cs_declared_md5 = None,
      cs_lease_ttl_secs = WRITE_LEASE_TTL, cs_part_size = Some (sint (ap_part_size (sa_app A)))\<rparr>"

definition s3_create_multipart :: "'w s3_app \<Rightarrow> create_multipart_input \<Rightarrow> string \<Rightarrow> s3_request \<Rightarrow> (db \<times> 'w, s3_response, s3_response) eff" where
  "s3_create_multipart A x client r =
     (let L = sa_lib A; app = sa_app A; content_type = header_str L (rq_headers r) ''content-type'' in
      bind_eff (of_result (reject_if (bad_content_type L r) (xml_error 400 ''InvalidArgument'' ''invalid content-type''))) (\<lambda>_.
      bind_eff (s3_db (create_upload (ap_uuid_text app) (ap_year_month app) (cm_now x) (cm_file_id x) (cm_lease_id x)
          (multipart_spec A client content_type) (rq_key r) False)) (\<lambda>outcome.
      case outcome of
        NoClient \<Rightarrow> fail (xml_error 500 ''InternalError'' ''the authenticated client has no storage'')
      | Created c \<Rightarrow>
          bind_eff (open_session_of A x client (rq_key r) content_type c) (\<lambda>_.
          ret_ok (initiate_result (rq_bucket r) (rq_key r) (ap_uuid_text app (cf_file_id c)))))))"

section \<open>UploadPart\<close>

record 'w part_input =
  pt_extend :: timestamp
  pt_budget :: spool_budget
  pt_spool_opens :: bool
  pt_claim :: timestamp
  pt_ticks :: "timestamp list"
  pt_fails :: "timestamp \<Rightarrow> db_error option"
  pt_dropped :: "'w \<Rightarrow> 'w"

definition physical_part :: "'w s3_app \<Rightarrow> storage_backend \<Rightarrow> string \<Rightarrow> string option \<Rightarrow> int \<Rightarrow> string \<Rightarrow> string
    \<Rightarrow> ('w, s3_response, string) eff" where
  "physical_part A b key vendor n data md5_hex w = (case vendor of
      None \<Rightarrow> (Inl xml_internal, w)
    | Some upload_id \<Rightarrow>
        (case upload_part_from_path (provider A b) (bucket_of b) key upload_id n data w of
           (Inl _, w') \<Rightarrow> (Inl xml_storage_error, w')
         | (Inr etag, w') \<Rightarrow> if eq_ic etag md5_hex then (Inr etag, w') else (Inl xml_storage_error, w')))"

definition lost_part :: s3_response where
  "lost_part = unavailable ''the part upload lost ownership; retry the multipart upload''"

text \<open>A failed upload gives its claim back, best effort; a lost one owns nothing any more.\<close>

definition store_part :: "'w part_input \<Rightarrow> uuid \<Rightarrow> uuid \<Rightarrow> int \<Rightarrow> ('w, s3_response, string) eff \<Rightarrow> (db \<times> 'w, s3_response, string) eff" where
  "store_part x i lease n physical s =
     (case run_with_upload_part_heartbeat (pt_fails x) (pt_ticks x) (pt_dropped x) i lease n physical s of
        (None, s') \<Rightarrow> (Inl lost_part, s')
      | (Some (Inl answer), (d', w')) \<Rightarrow> (Inl answer, (snd (cancel_upload_part i lease n d'), w'))
      | (Some (Inr etag), s') \<Rightarrow> (Inr etag, s'))"

definition claim_part_answer :: "part_claim \<Rightarrow> s3_response + unit" where
  "claim_part_answer claim = (case claim of
      Claimed \<Rightarrow> Inr ()
    | Busy \<Rightarrow> Inl (unavailable ''another upload for this part is still in progress; retry'')
    | Unavailable \<Rightarrow> Inl no_such_upload)"

definition part_length :: "s3_lib \<Rightarrow> s3_request \<Rightarrow> int option" where
  "part_length L r = (case content_length_of L r of None \<Rightarrow> None | Some n \<Rightarrow> if 0 \<le> n then Some n else None)"

text \<open>From the resolved session to the answer.\<close>

definition upload_part_to :: "'w s3_app \<Rightarrow> 'w part_input \<Rightarrow> string \<Rightarrow> s3_request \<Rightarrow> int \<Rightarrow> uuid \<Rightarrow> file_access \<Rightarrow> write_lease_handle
    \<Rightarrow> (db \<times> 'w, s3_response, s3_response) eff" where
  "upload_part_to A x client r n i file lease =
     (let L = sa_lib A; le = wl_lease_id lease in
      bind_eff (of_result (ok_or (xml_error 411 ''MissingContentLength'' ''content-length is required'') (part_length L r))) (\<lambda>content_length.
      bind_eff (of_result (reject_if (fst (spool_try_acquire content_length (pt_budget x)) = None) spool_busy_to_xml)) (\<lambda>_.
      bind_eff (s3_db (extend_write_lease (pt_extend x) le WRITE_LEASE_TTL)) (\<lambda>alive.
      bind_eff (of_result (reject_if (\<not> alive) no_such_upload)) (\<lambda>_.
      bind_eff (of_result (s3_backend A (fa_storage file))) (\<lambda>b.
      bind_eff (of_result (reject_if (\<not> pt_spool_opens x) xml_internal)) (\<lambda>_.
      bind_eff (of_result (receive_body L r content_length)) (\<lambda>(m, data).
      bind_eff (s3_db (claim_upload_part (pt_claim x) client (rq_key r) i le n WRITE_LEASE_TTL)) (\<lambda>claim.
      bind_eff (of_result (claim_part_answer claim)) (\<lambda>_.
      bind_eff (store_part x i le n (physical_part A b (fa_object_key file) (wl_upload_id lease) n data (ms_md5_hex m))) (\<lambda>etag.
      bind_eff (s3_db (finish_upload_part i le n (ms_written m) etag)) (\<lambda>recorded.
      bind_eff (of_result (reject_if (\<not> recorded) lost_part)) (\<lambda>_.
      ret_ok (ok_with_etag L (ms_md5_hex m)))))))))))))))"

definition s3_upload_part :: "'w s3_app \<Rightarrow> 'w part_input \<Rightarrow> string \<Rightarrow> s3_request \<Rightarrow> int \<Rightarrow> string \<Rightarrow> (db \<times> 'w, s3_response, s3_response) eff" where
  "s3_upload_part A x client r n upload_id s =
     bind_eff (of_result (reject_if (\<not> part_number_ok (int32 n) MAX_PARTS)
         (xml_error 400 ''InvalidArgument'' ''part number must be between 1 and 10000''))) (\<lambda>_.
     bind_eff (of_result (resolve_session (sa_lib A) client (rq_key r) upload_id False (fst s))) (\<lambda>(i, file, lease).
     upload_part_to A x client r n i file lease)) s"

section \<open>CompleteMultipartUpload\<close>

definition unreadable_body :: s3_response where
  "unreadable_body = xml_error 400 ''MalformedXML'' ''the complete request body is unreadable''"

text \<open>\<open>to_bytes\<close> with its limit; a body that neither ends nor fails leaves the handler waiting.\<close>

fun collect_body :: "int \<Rightarrow> string \<Rightarrow> body_event list \<Rightarrow> s3_response + string" where
  "collect_body limit got [] = Inl Stalled"
| "collect_body limit got (BodyError _ # _) = Inl unreadable_body"
| "collect_body limit got (BodyEnd _ _ # _) = Inr got"
| "collect_body limit got (Chunk _ chunk _ # rest) =
     (if limit < int (length (got @ chunk)) then Inl unreadable_body else collect_body limit (got @ chunk) rest)"

definition complete_body :: "s3_lib \<Rightarrow> s3_request \<Rightarrow> string \<Rightarrow> s3_response + (int \<times> string) list" where
  "complete_body L r payload_hash =
     and_then (collect_body COMPLETE_BODY_LIMIT [] (rq_body r)) (\<lambda>body.
     and_then (reject_if (\<not> payload_matches (hs_sha256_hex (sl_hashes L)) payload_hash body)
         (xml_error 400 ''XAmzContentSHA256Mismatch'' ''the request body does not match the signed payload hash'')) (\<lambda>_.
     and_then (reject_if (\<not> sl_utf8 L body) (xml_error 400 ''MalformedXML'' ''the complete request body is not valid utf-8'')) (\<lambda>_.
     map_err (xml_error 400 ''MalformedXML'') (parse_complete_multipart (sl_xml L) body))))"

text \<open>\<open>checked_add\<close> over the measured sizes, \<open>i64::MAX\<close> on overflow.\<close>

fun checked_total :: "int \<Rightarrow> int list \<Rightarrow> int option" where
  "checked_total acc [] = Some acc"
| "checked_total acc (sz # rest) =
     (if acc + sz < - (2 ^ 63) \<or> 2 ^ 63 \<le> acc + sz then None else checked_total (acc + sz) rest)"

definition total_size :: "(int \<times> int \<times> string) list \<Rightarrow> int" where
  "total_size completion = (case checked_total 0 (map (\<lambda>(_, sz, _). sz) completion) of None \<Rightarrow> 2 ^ 63 - 1 | Some t \<Rightarrow> t)"

definition saturating_mul :: "int \<Rightarrow> int \<Rightarrow> int" where
  "saturating_mul a b = max (- (2 ^ 63)) (min (2 ^ 63 - 1) (a * b))"

definition size_bound :: "file_access \<Rightarrow> int" where
  "size_bound file = saturating_mul (case fa_part_size file of None \<Rightarrow> 0 | Some p \<Rightarrow> p) (sint MAX_PARTS)"

definition start_answer :: "multipart_completion_start \<Rightarrow> s3_response + multipart_completion" where
  "start_answer start = (case start of
      MultipartReady guard \<Rightarrow> Inr guard
    | MultipartBusy \<Rightarrow> Inl (unavailable ''a part upload is still in progress; retry completion'')
    | MultipartUnavailable \<Rightarrow> Inl no_such_upload)"

definition claim_answer :: "s3_completion_claim \<Rightarrow> s3_response + unit" where
  "claim_answer claim = (case claim of
      CompletionClaimed \<Rightarrow> Inr ()
    | CompletionResuming \<Rightarrow> Inl (unavailable ''the upload completion is being recovered; retry'')
    | CompletionBusy \<Rightarrow> Inl (unavailable ''a part upload is still in progress; retry completion'')
    | CompletionUnavailable \<Rightarrow> Inl no_such_upload)"

definition listed :: "(int \<times> int \<times> string) list \<Rightarrow> (int \<times> string) list" where
  "listed completion = map (\<lambda>(n, _, etag). (n, etag)) completion"

definition physical_complete :: "'w s3_app \<Rightarrow> storage_backend \<Rightarrow> string \<Rightarrow> string option \<Rightarrow> (int \<times> int \<times> string) list \<Rightarrow> string
    \<Rightarrow> ('w, s3_response, string) eff" where
  "physical_complete A b key vendor completion expected_etag w = (case vendor of
      None \<Rightarrow> (Inl xml_internal, w)
    | Some upload_id \<Rightarrow>
        (case complete_multipart (provider A b) (bucket_of b) key upload_id (listed completion) w of
           (Inl _, w') \<Rightarrow> (Inl xml_storage_error, w')
         | (Inr etag, w') \<Rightarrow> if eq_ic etag expected_etag then (Inr expected_etag, w') else (Inl xml_storage_error, w')))"

definition assemble :: "'w s3_app \<Rightarrow> 'w timing \<Rightarrow> uuid \<Rightarrow> ('w, s3_response, string) eff \<Rightarrow> (db \<times> 'w, s3_response, string) eff" where
  "assemble A tm i physical s =
     (case run_with_completion_heartbeat (tm_fails tm) (tm_ticks tm) (tm_dropped tm) i physical s of
        (None, s') \<Rightarrow> (Inl (unavailable ''the upload lost completion ownership; retry''), s')
      | (Some r, s') \<Rightarrow> (r, s'))"

text \<open>The ledger's part list for the request, its size within the bound.\<close>

definition reconciled :: "file_access \<Rightarrow> (int \<times> string) list \<Rightarrow> (int \<times> int \<times> string) list \<Rightarrow> s3_response + (int \<times> int \<times> string) list" where
  "reconciled file client_parts ledger =
     and_then (map_err (\<lambda>e. xml_error 400 (completion_error_code e) (completion_error_message e)) (reconcile client_parts ledger)) (\<lambda>completion.
     and_then (reject_if (size_bound file < total_size completion)
         (xml_error 400 ''EntityTooLarge'' ''the object exceeds the multipart size limit'')) (\<lambda>_.
     Inr completion))"

definition expected_etag_of :: "'w s3_app \<Rightarrow> (int \<times> int \<times> string) list \<Rightarrow> string" where
  "expected_etag_of A completion =
     composite_etag (ap_md5_hex (sa_app A)) (ap_hex_decode (sa_app A)) (map (\<lambda>(_, _, md5). md5) completion)"

definition complete_session :: "'w s3_app \<Rightarrow> 'w timing \<Rightarrow> string \<Rightarrow> s3_request \<Rightarrow> (int \<times> string) list \<Rightarrow> uuid \<Rightarrow> file_access
    \<Rightarrow> write_lease_handle \<Rightarrow> (db \<times> 'w, s3_response, s3_response) eff" where
  "complete_session A tm client r client_parts i file lease s =
     (bind_eff (of_result (start_answer (begin_multipart_completion client (rq_key r) i (fst s)))) (\<lambda>guard.
      bind_eff (of_result (reconciled file client_parts (multipart_done_parts guard (fst s)))) (\<lambda>completion.
      let total = total_size completion; expected_etag = expected_etag_of A completion in
      bind_eff (s3_db (multipart_claim (tm_claim tm) guard total expected_etag WRITE_LEASE_TTL)) (\<lambda>claim.
      bind_eff (of_result (claim_answer claim)) (\<lambda>_.
      bind_eff (of_result (s3_backend A (fa_storage file))) (\<lambda>b.
      bind_eff (assemble A tm i (physical_complete A b (fa_object_key file) (wl_upload_id lease) completion expected_etag)) (\<lambda>etag.
      bind_eff (s3_db (finalize_multipart_upload (tm_finalize tm) client (rq_key r) i)) (\<lambda>outcome.
      bind_eff (of_result (publish_answer ''the upload expired before it completed; retry'' outcome)) (\<lambda>_.
      ret_ok (complete_result (rq_bucket r) (rq_key r) etag))))))))) s)"

definition s3_complete_multipart :: "'w s3_app \<Rightarrow> 'w timing \<Rightarrow> string \<Rightarrow> s3_request \<Rightarrow> string \<Rightarrow> string \<Rightarrow> (db \<times> 'w, s3_response, s3_response) eff" where
  "s3_complete_multipart A tm client r upload_id payload_hash s =
     bind_eff (of_result (resolve_session (sa_lib A) client (rq_key r) upload_id True (fst s))) (\<lambda>(i, file, lease).
     bind_eff (of_result (complete_body (sa_lib A) r payload_hash)) (\<lambda>client_parts.
     complete_session A tm client r client_parts i file lease)) s"

section \<open>AbortMultipartUpload\<close>

definition abort_answer :: "abort_claim \<Rightarrow> s3_response + unit" where
  "abort_answer claim = (case claim of
      AbortClaimed \<Rightarrow> Inr ()
    | AbortBusy \<Rightarrow> Inl (unavailable ''a part upload is still in progress; retry abort'')
    | AbortUnavailable \<Rightarrow> Inl no_such_upload)"

definition s3_abort_multipart :: "'w s3_app \<Rightarrow> timestamp \<Rightarrow> string \<Rightarrow> s3_request \<Rightarrow> string \<Rightarrow> (db \<times> 'w, s3_response, s3_response) eff" where
  "s3_abort_multipart A now client r upload_id s =
     bind_eff (of_result (resolve_session (sa_lib A) client (rq_key r) upload_id False (fst s))) (\<lambda>(i, file, lease).
     bind_eff (of_result (s3_backend A (fa_storage file))) (\<lambda>b.
     bind_eff (s3_db (claim_abort now client (rq_key r) i)) (\<lambda>claim.
     bind_eff (of_result (abort_answer claim)) (\<lambda>_.
     bind_eff (on_world (s3_world (cleanup_backend_upload (ap_connections (sa_app A)) b (fa_object_key file) (wl_upload_id lease) True))) (\<lambda>_.
     bind_eff (s3_db (finalize_abort i)) (\<lambda>_.
     ret_ok (Reply 204 [] []))))))) s"

section \<open>Dispatch\<close>

definition route_error_answer :: "route_error \<Rightarrow> s3_response" where
  "route_error_answer e = (case e of
      InvalidArgument \<Rightarrow> xml_error 400 ''InvalidArgument'' ''invalid multipart operation parameters''
    | NotImplemented \<Rightarrow> xml_error 501 ''NotImplemented'' ''the operation is not supported on this surface''
    | MethodNotAllowed \<Rightarrow> xml_error 405 ''MethodNotAllowed'' ''the method is not supported on this surface'')"

definition supported_conditions :: "headers \<Rightarrow> operation \<Rightarrow> bool" where
  "supported_conditions hs operation = list_all (\<lambda>(name, _).
     if \<not> is_conditional_header name then True
     else if name = ''if-match'' \<and> operation \<in> {Get, Head} then True
     else if name = ''if-none-match'' \<and> operation = Put then get_all hs ''if-none-match'' = [''*'']
     else False) hs"

text \<open>The inputs of the transactions, by operation.\<close>

record 'w dispatch_input =
  di_now :: timestamp
  di_put :: "'w put_input"
  di_get :: get_input
  di_create :: create_multipart_input
  di_part :: "'w part_input"
  di_timing :: "'w timing"

definition run_operation :: "'w s3_app \<Rightarrow> 'w dispatch_input \<Rightarrow> string \<Rightarrow> string \<Rightarrow> s3_request \<Rightarrow> string \<Rightarrow> operation
    \<Rightarrow> (db \<times> 'w, s3_response, s3_response) eff" where
  "run_operation A x client payload_hash r query operation = (case operation of
      CreateMultipart \<Rightarrow> s3_create_multipart A (di_create x) client r
    | operation.UploadPart upload_id n \<Rightarrow> s3_upload_part A (di_part x) client r n upload_id
    | CompleteMultipart upload_id \<Rightarrow> s3_complete_multipart A (di_timing x) client r upload_id payload_hash
    | AbortMultipart upload_id \<Rightarrow> s3_abort_multipart A (di_now x) client r upload_id
    | Put \<Rightarrow> put_object A (di_put x) client r
    | Get \<Rightarrow> get_object A (di_get x) client r query
    | Head \<Rightarrow> s3_head_object A client r query
    | DeleteObject \<Rightarrow> s3_delete_object (di_now x) client r)"

definition dispatch :: "'w s3_app \<Rightarrow> credential_row list \<Rightarrow> 'w dispatch_input \<Rightarrow> s3_request \<Rightarrow> (db \<times> 'w, s3_response, s3_response) eff" where
  "dispatch A creds x r =
     (let app = sa_app A; query = (case rq_query r of None \<Rightarrow> [] | Some q \<Rightarrow> q) in
      bind_eff (of_result (authenticate (ap_primitives app) (ap_crypto app) (sa_lib A) creds (di_now x) r)) (\<lambda>who.
      bind_eff (of_result (reject_if (rq_bucket r \<noteq> au_client_id who)
          (xml_error 404 ''NoSuchBucket'' ''the specified bucket does not exist''))) (\<lambda>_.
      bind_eff (of_result (map_err route_error_answer (classify (rq_method r) query (has_header (rq_headers r) ''x-amz-copy-source'')))) (\<lambda>operation.
      bind_eff (of_result (reject_if (\<not> supported_conditions (rq_headers r) operation)
          (xml_error 501 ''NotImplemented'' ''the conditional request is not supported''))) (\<lambda>_.
      run_operation A x (au_client_id who) (au_payload_hash who) r query operation)))))"

text \<open>The paths of the other surfaces are no buckets; the first segment of the path is percent-decoded first.\<close>

definition RESERVED_CLIENT_IDS :: "string list" where
  "RESERVED_CLIENT_IDS = [''api'', ''blobs'', ''healthz'', ''readyz'']"

definition reject_reserved_bucket :: "s3_lib \<Rightarrow> s3_request \<Rightarrow> 's \<Rightarrow> ('s \<Rightarrow> s3_response \<times> 's) \<Rightarrow> s3_response \<times> 's" where
  "reject_reserved_bucket L r s next_layer =
     (let path = rq_path r;
          bucket = hd (split_on (CHR ''/'') (dropWhile (\<lambda>c. c = CHR ''/'') path)) in
      if sl_lossy L (sl_percent_bytes L bucket) \<in> set RESERVED_CLIENT_IDS then (Reply 404 [] [], s) else next_layer s)"

end
