(* ===== verification/Registry.thy ===== *)
theory Registry
  imports Command_Catalog S3_Credentials Usage S3_Multipart_Api
begin

text \<open>
  \<open>db/src/registry.rs\<close> over the tables of migration 0002: storages, clients, their native keys and
  credentials, with the foreign keys that the tables of file transfer hold into them. Metadata is kept
  beside the rows that it belongs to, keyed by their ids; the length of its text in PostgreSQL is a
  parameter. \<open>ORDER BY\<close> on text is byte order.
\<close>

section \<open>Tables\<close>

record native_key_row =
  nk_hash :: string
  nk_client :: string

record registry =
  rg_db :: db
  rg_keys :: "native_key_row list"
  rg_credentials :: "credential_row list"
  rg_storage_metadata :: "(string \<times> json) list"
  rg_client_metadata :: "(string \<times> json) list"

text \<open>\<open>id ~ '^[a-z0-9]([a-z0-9-]{0,62}[a-z0-9])?$'\<close>\<close>

definition slug_char :: "char \<Rightarrow> bool" where
  "slug_char c \<longleftrightarrow> is_lower c \<or> is_digit c"

definition slug_check :: "string \<Rightarrow> bool" where
  "slug_check s \<longleftrightarrow> s \<noteq> [] \<and> length s \<le> 64 \<and> slug_char (hd s) \<and> slug_char (last s) \<and>
     list_all (\<lambda>c. slug_char c \<or> c = CHR ''-'') s"

definition storage_check :: "storage_row \<Rightarrow> bool" where
  "storage_check s \<longleftrightarrow> slug_check (st_id s) \<and> st_kind s = ''s3'' \<and>
     (case st_secret_nonce s of None \<Rightarrow> True | Some n \<Rightarrow> length n = 12) \<and> 0 \<le> st_capacity_bytes s \<and>
     st_endpoint s \<noteq> None \<and> st_public_endpoint s \<noteq> None \<and> st_region s \<noteq> None \<and> st_bucket s \<noteq> None \<and>
     st_access_key s \<noteq> None \<and> st_secret_ciphertext s \<noteq> None \<and> st_secret_nonce s \<noteq> None \<and> st_enc_key_id s \<noteq> None"

definition metadata_check :: "(json \<Rightarrow> nat) \<Rightarrow> json \<Rightarrow> bool" where
  "metadata_check jsonb_bytes v = (case v of
      JObj fs \<Rightarrow> list_all (\<lambda>(k, x). case x of JStr _ \<Rightarrow> True | _ \<Rightarrow> False) fs \<and> jsonb_bytes v \<le> 8192
    | _ \<Rightarrow> False)"

definition EMPTY_METADATA :: json where
  "EMPTY_METADATA = JObj []"

section \<open>Storages\<close>

definition insert_storage :: "storage_row \<Rightarrow> (registry, db_error, unit) eff" where
  "insert_storage row g =
     (let d = rg_db g
      in if \<not> storage_check row then (Inl CheckViolation, g)
         else if exists_where (\<lambda>s. st_id s = st_id row) (storages d) then (Inl UniqueViolation, g)
         else (Inr (), g\<lparr>rg_db := d\<lparr>storages := storages d @ [row]\<rparr>,
                rg_storage_metadata := rg_storage_metadata g @ [(st_id row, EMPTY_METADATA)]\<rparr>))"

datatype update_storage_outcome = StorageUpdated | StorageMissing | LocationInUse

definition storage_address_changed :: "storage_row \<Rightarrow> storage_row \<Rightarrow> bool" where
  "storage_address_changed current row \<longleftrightarrow>
     st_kind current \<noteq> st_kind row \<or> st_endpoint current \<noteq> st_endpoint row \<or>
     st_public_endpoint current \<noteq> st_public_endpoint row \<or> st_region current \<noteq> st_region row \<or>
     st_bucket current \<noteq> st_bucket row \<or> st_force_path_style current \<noteq> st_force_path_style row"

definition get_storage :: "string \<Rightarrow> registry \<Rightarrow> storage_row option" where
  "get_storage i g = find (\<lambda>s. st_id s = i) (storages (rg_db g))"

definition lock_storage :: "string \<Rightarrow> registry \<Rightarrow> storage_row option" where
  "lock_storage i g = find (\<lambda>s. st_id s = i) (storages (rg_db g))"

definition location_in_use :: "string \<Rightarrow> registry \<Rightarrow> bool" where
  "location_in_use i g \<longleftrightarrow> exists_where (\<lambda>l. l_storage l = i) (locations (rg_db g))"

definition update_storage_in :: "storage_row \<Rightarrow> (registry, db_error, update_storage_outcome) eff" where
  "update_storage_in row g = (case lock_storage (st_id row) g of
      None \<Rightarrow> (Inr StorageMissing, g)
    | Some current \<Rightarrow>
        if storage_address_changed current row \<and> location_in_use (st_id row) g then (Inr LocationInUse, g)
        else if \<not> storage_check row then (Inl CheckViolation, g)
        else (Inr StorageUpdated, g\<lparr>rg_db := (rg_db g)\<lparr>storages :=
                update_where (\<lambda>s. st_id s = st_id row) (\<lambda>_. row) (storages (rg_db g))\<rparr>\<rparr>))"

text \<open>The transaction commits only an update; the other outcomes have changed nothing.\<close>

definition update_storage :: "storage_row \<Rightarrow> (registry, db_error, update_storage_outcome) eff" where
  "update_storage row g = (case update_storage_in row g of
      (Inl e, _) \<Rightarrow> (Inl e, g)
    | (Inr StorageUpdated, g') \<Rightarrow> (Inr StorageUpdated, g')
    | (Inr x, _) \<Rightarrow> (Inr x, g))"

definition list_storages :: "registry \<Rightarrow> storage_row list" where
  "list_storages g = sort_key st_id (storages (rg_db g))"

definition delete_storage_rows :: "string \<Rightarrow> (registry, db_error, nat) eff" where
  "delete_storage_rows i g =
     (let d = rg_db g; n = count_where (\<lambda>s. st_id s = i) (storages d)
      in if n \<noteq> 0 \<and> (exists_where (\<lambda>c. cl_storage c = i) (clients d) \<or> location_in_use i g)
         then (Inl ForeignKeyViolation, g)
         else (Inr n, g\<lparr>rg_db := d\<lparr>storages := delete_where (\<lambda>s. st_id s = i) (storages d)\<rparr>,
                rg_storage_metadata := delete_where (\<lambda>m. fst m = i) (rg_storage_metadata g)\<rparr>))"

definition delete_storage :: "string \<Rightarrow> (registry, db_error, unit) eff" where
  "delete_storage i = try_eff (delete_storage_rows i) (\<lambda>e. e) (\<lambda>_. ret_ok ())"

section \<open>Clients\<close>

definition insert_client :: "string \<Rightarrow> string \<Rightarrow> (registry, db_error, unit) eff" where
  "insert_client i storage g =
     (let d = rg_db g
      in if \<not> slug_check i then (Inl CheckViolation, g)
         else if exists_where (\<lambda>c. cl_id c = i) (clients d) then (Inl UniqueViolation, g)
         else if \<not> exists_where (\<lambda>s. st_id s = storage) (storages d) then (Inl ForeignKeyViolation, g)
         else (Inr (), g\<lparr>rg_db := d\<lparr>clients := clients d @ [\<lparr>cl_id = i, cl_storage = storage\<rparr>]\<rparr>,
                rg_client_metadata := rg_client_metadata g @ [(i, EMPTY_METADATA)]\<rparr>))"

definition client_exists :: "string \<Rightarrow> registry \<Rightarrow> bool" where
  "client_exists i g \<longleftrightarrow> exists_where (\<lambda>c. cl_id c = i) (clients (rg_db g))"

definition client_storage :: "string \<Rightarrow> registry \<Rightarrow> string option" where
  "client_storage i g = map_option cl_storage (find (\<lambda>c. cl_id c = i) (clients (rg_db g)))"

definition list_clients :: "registry \<Rightarrow> string list" where
  "list_clients g = sort (map cl_id (clients (rg_db g)))"

text \<open>Files refer to their client; keys, credentials and logical keys go with it.\<close>

definition delete_client_rows :: "string \<Rightarrow> (registry, db_error, nat) eff" where
  "delete_client_rows i g =
     (let d = rg_db g; n = count_where (\<lambda>c. cl_id c = i) (clients d)
      in if n \<noteq> 0 \<and> exists_where (\<lambda>f. f_client f = i) (files d) then (Inl ForeignKeyViolation, g)
         else if n = 0 then (Inr 0, g)
         else (Inr n, g\<lparr>rg_db := d\<lparr>clients := delete_where (\<lambda>c. cl_id c = i) (clients d),
                   object_keys := delete_where (\<lambda>k. k_client k = i) (object_keys d)\<rparr>,
                rg_keys := delete_where (\<lambda>k. nk_client k = i) (rg_keys g),
                rg_credentials := delete_where (\<lambda>c. cr_client c = i) (rg_credentials g),
                rg_client_metadata := delete_where (\<lambda>m. fst m = i) (rg_client_metadata g)\<rparr>))"

definition delete_client :: "string \<Rightarrow> (registry, db_error, unit) eff" where
  "delete_client i = try_eff (delete_client_rows i) (\<lambda>e. e) (\<lambda>_. ret_ok ())"

section \<open>Native keys\<close>

definition insert_client_key :: "string \<Rightarrow> string \<Rightarrow> (registry, db_error, unit) eff" where
  "insert_client_key client h g =
     (if \<not> key_hash h then (Inl CheckViolation, g)
      else if exists_where (\<lambda>k. nk_hash k = h) (rg_keys g) then (Inl UniqueViolation, g)
      else if \<not> client_exists client g then (Inl ForeignKeyViolation, g)
      else (Inr (), g\<lparr>rg_keys := rg_keys g @ [\<lparr>nk_hash = h, nk_client = client\<rparr>]\<rparr>))"

definition client_key_exists :: "string \<Rightarrow> string \<Rightarrow> registry \<Rightarrow> bool" where
  "client_key_exists client h g \<longleftrightarrow> exists_where (\<lambda>k. nk_hash k = h \<and> nk_client k = client) (rg_keys g)"

definition client_id_for_key_hash :: "string \<Rightarrow> registry \<Rightarrow> string option" where
  "client_id_for_key_hash h g = map_option nk_client (find (\<lambda>k. nk_hash k = h) (rg_keys g))"

definition list_client_keys :: "string \<Rightarrow> registry \<Rightarrow> string list" where
  "list_client_keys client g = sort (map nk_hash (filter (\<lambda>k. nk_client k = client) (rg_keys g)))"

definition delete_client_key_rows :: "string \<Rightarrow> string \<Rightarrow> (registry, db_error, nat) eff" where
  "delete_client_key_rows client h g =
     (let hit = (\<lambda>k. nk_hash k = h \<and> nk_client k = client)
      in (Inr (count_where hit (rg_keys g)), g\<lparr>rg_keys := delete_where hit (rg_keys g)\<rparr>))"

definition delete_client_key :: "string \<Rightarrow> string \<Rightarrow> (registry, db_error, unit) eff" where
  "delete_client_key client h = try_eff (delete_client_key_rows client h) (\<lambda>e. e) (\<lambda>_. ret_ok ())"

section \<open>The tables fit together\<close>

definition registry_ok :: "registry \<Rightarrow> bool" where
  "registry_ok g \<longleftrightarrow>
     distinct (map st_id (storages (rg_db g))) \<and> distinct (map cl_id (clients (rg_db g))) \<and>
     distinct (map nk_hash (rg_keys g)) \<and>
     map fst (rg_storage_metadata g) = map st_id (storages (rg_db g)) \<and>
     map fst (rg_client_metadata g) = map cl_id (clients (rg_db g)) \<and>
     (\<forall>s \<in> set (storages (rg_db g)). storage_check s) \<and>
     cl_storage ` set (clients (rg_db g)) \<subseteq> st_id ` set (storages (rg_db g)) \<and>
     l_storage ` set (locations (rg_db g)) \<subseteq> st_id ` set (storages (rg_db g)) \<and>
     f_client ` set (files (rg_db g)) \<subseteq> cl_id ` set (clients (rg_db g)) \<and>
     nk_client ` set (rg_keys g) \<subseteq> cl_id ` set (clients (rg_db g)) \<and>
     cr_client ` set (rg_credentials g) \<subseteq> cl_id ` set (clients (rg_db g))"

end
