(* ===== verification/Registry_Access.thy ===== *)
theory Registry_Access
  imports Registry
begin

text \<open>
  What the registry keeps while it is administered and files come and go: keys and references, and the
  address of every storage that holds an object. A step is a registry write or a step of file transfer,
  which changes only the tables of files under their foreign keys.
\<close>

section \<open>Credentials of clients\<close>

definition credential_db_error :: "credential_error \<Rightarrow> db_error" where
  "credential_db_error e = (case e of
      CredentialExists \<Rightarrow> UniqueViolation
    | NoSuchClient \<Rightarrow> ForeignKeyViolation
    | CredentialCheck \<Rightarrow> CheckViolation)"

definition register_credential :: "timestamp \<Rightarrow> string \<Rightarrow> string \<Rightarrow> nat list \<Rightarrow> nat list \<Rightarrow> string
    \<Rightarrow> (registry, db_error, unit) eff" where
  "register_credential now access_key client ciphertext nonce enc_key g =
     (case insert_credential (map cl_id (clients (rg_db g))) now access_key client ciphertext nonce enc_key (rg_credentials g) of
        (Inl e, _) \<Rightarrow> (Inl (credential_db_error e), g)
      | (Inr u, t) \<Rightarrow> (Inr u, g\<lparr>rg_credentials := t\<rparr>))"

definition remove_credential :: "string \<Rightarrow> string \<Rightarrow> (registry, db_error, nat) eff" where
  "remove_credential client access_key g =
     (case delete_credential client access_key (rg_credentials g) of
        (Inl e, _) \<Rightarrow> (Inl (credential_db_error e), g)
      | (Inr n, t) \<Rightarrow> (Inr n, g\<lparr>rg_credentials := t\<rparr>))"

section \<open>Metadata\<close>

definition replace_storage_metadata :: "(json \<Rightarrow> nat) \<Rightarrow> string \<Rightarrow> json \<Rightarrow> (registry, db_error, json option) eff" where
  "replace_storage_metadata jsonb_bytes i v g =
     (let hit = (\<lambda>m. fst m = i)
      in if \<not> exists_where hit (rg_storage_metadata g) then (Inr None, g)
         else if \<not> metadata_check jsonb_bytes v then (Inl CheckViolation, g)
         else (Inr (Some v), g\<lparr>rg_storage_metadata := update_where hit (\<lambda>m. (fst m, v)) (rg_storage_metadata g)\<rparr>))"

definition replace_client_metadata :: "(json \<Rightarrow> nat) \<Rightarrow> string \<Rightarrow> json \<Rightarrow> (registry, db_error, json option) eff" where
  "replace_client_metadata jsonb_bytes i v g =
     (let hit = (\<lambda>m. fst m = i)
      in if \<not> exists_where hit (rg_client_metadata g) then (Inr None, g)
         else if \<not> metadata_check jsonb_bytes v then (Inl CheckViolation, g)
         else (Inr (Some v), g\<lparr>rg_client_metadata := update_where hit (\<lambda>m. (fst m, v)) (rg_client_metadata g)\<rparr>))"

section \<open>Steps\<close>

inductive registry_write :: "registry \<Rightarrow> registry \<Rightarrow> bool" where
  add_storage: "insert_storage row g = (Inr u, g') \<Longrightarrow> registry_write g g'"
| change_storage: "update_storage_in row g = (Inr x, g') \<Longrightarrow> registry_write g g'"
| drop_storage: "delete_storage_rows i g = (Inr n, g') \<Longrightarrow> registry_write g g'"
| add_client: "insert_client i st g = (Inr u, g') \<Longrightarrow> registry_write g g'"
| drop_client: "delete_client_rows i g = (Inr n, g') \<Longrightarrow> registry_write g g'"
| add_key: "insert_client_key c h g = (Inr u, g') \<Longrightarrow> registry_write g g'"
| drop_key: "delete_client_key_rows c h g = (Inr n, g') \<Longrightarrow> registry_write g g'"
| add_credential: "register_credential now a c ct nc ek g = (Inr u, g') \<Longrightarrow> registry_write g g'"
| drop_credential: "remove_credential c a g = (Inr n, g') \<Longrightarrow> registry_write g g'"
| storage_labels: "replace_storage_metadata jb i v g = (Inr x, g') \<Longrightarrow> registry_write g g'"
| client_labels: "replace_client_metadata jb i v g = (Inr x, g') \<Longrightarrow> registry_write g g'"

definition file_activity :: "registry \<Rightarrow> registry \<Rightarrow> bool" where
  "file_activity g g' \<longleftrightarrow> (\<exists>d. g' = g\<lparr>rg_db := d\<rparr> \<and> storages d = storages (rg_db g) \<and> clients d = clients (rg_db g) \<and>
     l_storage ` set (locations d) \<subseteq> st_id ` set (storages d) \<and> f_client ` set (files d) \<subseteq> cl_id ` set (clients d))"

section \<open>References\<close>

lemma keys_delete_where: "map f (delete_where (\<lambda>r. f r = i) rows) = filter (\<lambda>k. k \<noteq> i) (map f rows)"
  by (induction rows) (auto simp: delete_where_def)

lemma image_kept_where:
  "i \<notin> f ` set xs \<Longrightarrow> f ` set xs \<subseteq> k ` set rows \<Longrightarrow> f ` set xs \<subseteq> k ` set (delete_where (\<lambda>r. k r = i) rows)"
  by (force simp: set_delete_where)

lemma image_delete_own:
  "f ` set xs \<subseteq> k ` set rows \<Longrightarrow> f ` set (delete_where (\<lambda>x. f x = i) xs) \<subseteq> k ` set (delete_where (\<lambda>r. k r = i) rows)"
  by (force simp: set_delete_where)

lemma exists_by_image: "exists_where (\<lambda>r. f r = i) rows \<longleftrightarrow> i \<in> f ` set rows"
  by (auto simp: exists_where_iff)

lemma registry_okD:
  assumes "registry_ok g"
  shows "distinct (map st_id (storages (rg_db g)))" "distinct (map cl_id (clients (rg_db g)))" "distinct (map nk_hash (rg_keys g))"
    "map fst (rg_storage_metadata g) = map st_id (storages (rg_db g))"
    "map fst (rg_client_metadata g) = map cl_id (clients (rg_db g))"
    "\<And>s. s \<in> set (storages (rg_db g)) \<Longrightarrow> storage_check s"
    "cl_storage ` set (clients (rg_db g)) \<subseteq> st_id ` set (storages (rg_db g))"
    "l_storage ` set (locations (rg_db g)) \<subseteq> st_id ` set (storages (rg_db g))"
    "f_client ` set (files (rg_db g)) \<subseteq> cl_id ` set (clients (rg_db g))"
    "nk_client ` set (rg_keys g) \<subseteq> cl_id ` set (clients (rg_db g))"
    "cr_client ` set (rg_credentials g) \<subseteq> cl_id ` set (clients (rg_db g))"
  using assms by (simp_all add: registry_ok_def)

lemma insert_storage_ok:
  assumes "insert_storage row g = (Inr u, g')" "registry_ok g"
  shows "registry_ok g'"
proof -
  have new: "storage_check row" "st_id row \<notin> st_id ` set (storages (rg_db g))"
    and g': "g' = g\<lparr>rg_db := (rg_db g)\<lparr>storages := storages (rg_db g) @ [row]\<rparr>,
                rg_storage_metadata := rg_storage_metadata g @ [(st_id row, EMPTY_METADATA)]\<rparr>"
    using assms(1) by (simp_all add: insert_storage_def Let_def exists_by_image split: if_splits)
  show ?thesis
    unfolding registry_ok_def g'
    using registry_okD [OF assms(2)] new by (simp add: subset_insertI2)
qed

lemma update_storage_ok:
  assumes "update_storage_in row g = (Inr x, g')" "registry_ok g"
  shows "registry_ok g'"
proof (cases "x = StorageUpdated")
  case True
  let ?S = "update_where (\<lambda>s. st_id s = st_id row) (\<lambda>_. row) (storages (rg_db g))"
  have new: "storage_check row" and g': "g' = g\<lparr>rg_db := (rg_db g)\<lparr>storages := ?S\<rparr>\<rparr>"
    using assms(1) True by (simp_all add: update_storage_in_def split: if_splits option.splits)
  have ids: "map st_id ?S = map st_id (storages (rg_db g))" by (rule map_update_where) simp
  then have img: "st_id ` set ?S = st_id ` set (storages (rg_db g))" by (metis set_map)
  have "storage_check s" if "s \<in> set ?S" for s
    using that new registry_okD(6) [OF assms(2)] by (auto simp: set_update_where split: if_splits)
  then show ?thesis
    unfolding registry_ok_def g'
    using registry_okD [OF assms(2)] ids img by simp
next
  case False
  then have "g' = g" using assms(1) by (simp add: update_storage_in_def split: if_splits option.splits)
  then show ?thesis using assms(2) by simp
qed

lemma delete_storage_ok:
  assumes "delete_storage_rows i g = (Inr n, g')" "registry_ok g"
  shows "registry_ok g'"
proof -
  let ?S = "delete_where (\<lambda>s. st_id s = i) (storages (rg_db g))"
  let ?M = "delete_where (\<lambda>m. fst m = i) (rg_storage_metadata g)"
  have g': "g' = g\<lparr>rg_db := (rg_db g)\<lparr>storages := ?S\<rparr>, rg_storage_metadata := ?M\<rparr>"
    and free: "i \<in> st_id ` set (storages (rg_db g)) \<Longrightarrow>
        i \<notin> cl_storage ` set (clients (rg_db g)) \<and> i \<notin> l_storage ` set (locations (rg_db g))"
    using assms(1)
    by (auto simp: delete_storage_rows_def Let_def exists_by_image location_in_use_def count_where_0 split: if_splits)
  have out: "i \<notin> cl_storage ` set (clients (rg_db g))" "i \<notin> l_storage ` set (locations (rg_db g))"
    using free registry_okD(7,8) [OF assms(2)] by blast+
  have "cl_storage ` set (clients (rg_db g)) \<subseteq> st_id ` set ?S" "l_storage ` set (locations (rg_db g)) \<subseteq> st_id ` set ?S"
    using image_kept_where [OF out(1)] image_kept_where [OF out(2)] registry_okD(7,8) [OF assms(2)] by blast+
  moreover have "map fst ?M = map st_id ?S"
    using registry_okD(4) [OF assms(2)] by (simp add: keys_delete_where)
  moreover have "\<And>s. s \<in> set ?S \<Longrightarrow> storage_check s"
    using registry_okD(6) [OF assms(2)] by (simp add: set_delete_where)
  moreover have "distinct (map st_id ?S)" using registry_okD(1) [OF assms(2)] by (rule map_delete_where_distinct)
  ultimately show ?thesis
    unfolding registry_ok_def g' using registry_okD [OF assms(2)] by simp
qed

lemma insert_client_ok:
  assumes "insert_client i st g = (Inr u, g')" "registry_ok g"
  shows "registry_ok g'"
proof -
  have new: "i \<notin> cl_id ` set (clients (rg_db g))" "st \<in> st_id ` set (storages (rg_db g))"
    and g': "g' = g\<lparr>rg_db := (rg_db g)\<lparr>clients := clients (rg_db g) @ [\<lparr>cl_id = i, cl_storage = st\<rparr>]\<rparr>,
                rg_client_metadata := rg_client_metadata g @ [(i, EMPTY_METADATA)]\<rparr>"
    using assms(1) by (simp_all add: insert_client_def Let_def exists_by_image split: if_splits)
  show ?thesis
    unfolding registry_ok_def g'
    using registry_okD [OF assms(2)] new by (simp add: subset_insertI2)
qed

lemma delete_client_ok:
  assumes "delete_client_rows i g = (Inr n, g')" "registry_ok g"
  shows "registry_ok g'"
proof (cases "n = 0")
  case True
  then have "g' = g" using assms(1) by (simp add: delete_client_rows_def Let_def split: if_splits)
  then show ?thesis using assms(2) by simp
next
  case False
  let ?C = "delete_where (\<lambda>c. cl_id c = i) (clients (rg_db g))"
  let ?M = "delete_where (\<lambda>m. fst m = i) (rg_client_metadata g)"
  have g': "g' = g\<lparr>rg_db := (rg_db g)\<lparr>clients := ?C, object_keys := delete_where (\<lambda>k. k_client k = i) (object_keys (rg_db g))\<rparr>,
        rg_keys := delete_where (\<lambda>k. nk_client k = i) (rg_keys g),
        rg_credentials := delete_where (\<lambda>c. cr_client c = i) (rg_credentials g), rg_client_metadata := ?M\<rparr>"
    and free: "i \<notin> f_client ` set (files (rg_db g))"
    using assms(1) False by (simp_all add: delete_client_rows_def Let_def exists_by_image split: if_splits)
  have "f_client ` set (files (rg_db g)) \<subseteq> cl_id ` set ?C"
    using image_kept_where [OF free] registry_okD(9) [OF assms(2)] by blast
  moreover have "nk_client ` set (delete_where (\<lambda>k. nk_client k = i) (rg_keys g)) \<subseteq> cl_id ` set ?C"
    "cr_client ` set (delete_where (\<lambda>c. cr_client c = i) (rg_credentials g)) \<subseteq> cl_id ` set ?C"
    using registry_okD(10,11) [OF assms(2)] by (intro image_delete_own; simp)+
  moreover have "map fst ?M = map cl_id ?C"
    using registry_okD(5) [OF assms(2)] by (simp add: keys_delete_where)
  moreover have "cl_storage ` set ?C \<subseteq> st_id ` set (storages (rg_db g))"
    using registry_okD(7) [OF assms(2)] by (auto simp: set_delete_where)
  moreover have "distinct (map cl_id ?C)" "distinct (map nk_hash (delete_where (\<lambda>k. nk_client k = i) (rg_keys g)))"
    using registry_okD(2,3) [OF assms(2)] by (simp_all add: map_delete_where_distinct)
  ultimately show ?thesis
    unfolding registry_ok_def g' using registry_okD(1,4,6,8) [OF assms(2)] by simp
qed

lemma client_key_ok:
  assumes "insert_client_key c h g = (Inr u, g')" "registry_ok g"
  shows "registry_ok g'"
proof -
  have new: "h \<notin> nk_hash ` set (rg_keys g)" "c \<in> cl_id ` set (clients (rg_db g))"
    and g': "g' = g\<lparr>rg_keys := rg_keys g @ [\<lparr>nk_hash = h, nk_client = c\<rparr>]\<rparr>"
    using assms(1) by (simp_all add: insert_client_key_def client_exists_def exists_by_image split: if_splits)
  show ?thesis unfolding registry_ok_def g' using registry_okD [OF assms(2)] new by simp
qed

lemma delete_client_key_ok:
  assumes "delete_client_key_rows c h g = (Inr n, g')" "registry_ok g"
  shows "registry_ok g'"
proof -
  let ?K = "delete_where (\<lambda>k. nk_hash k = h \<and> nk_client k = c) (rg_keys g)"
  have g': "g' = g\<lparr>rg_keys := ?K\<rparr>" using assms(1) by (simp add: delete_client_key_rows_def Let_def)
  have "nk_client ` set ?K \<subseteq> cl_id ` set (clients (rg_db g))" "distinct (map nk_hash ?K)"
    using registry_okD(3,10) [OF assms(2)] by (auto simp: set_delete_where map_delete_where_distinct)
  then show ?thesis unfolding registry_ok_def g' using registry_okD [OF assms(2)] by simp
qed

lemma credential_ok:
  assumes "rg_credentials g' = t" "g' = g\<lparr>rg_credentials := t\<rparr>" "cr_client ` set t \<subseteq> cl_id ` set (clients (rg_db g))" "registry_ok g"
  shows "registry_ok g'"
  unfolding registry_ok_def assms(2) using assms(3) registry_okD [OF assms(4)] by simp

lemma register_credential_ok:
  assumes "register_credential now a c ct nc ek g = (Inr u, g')" "registry_ok g"
  shows "registry_ok g'"
proof (rule credential_ok [OF refl _ _ assms(2)])
  show "g' = g\<lparr>rg_credentials := rg_credentials g'\<rparr>"
    using assms(1) by (auto simp: register_credential_def split: prod.splits sum.splits)
  show "cr_client ` set (rg_credentials g') \<subseteq> cl_id ` set (clients (rg_db g))"
    using assms(1) registry_okD(11) [OF assms(2)]
    by (simp add: register_credential_def insert_credential_def Let_def split: prod.splits sum.splits if_splits)
      (auto simp: subset_iff)
qed

lemma remove_credential_ok:
  assumes "remove_credential c a g = (Inr n, g')" "registry_ok g"
  shows "registry_ok g'"
proof (rule credential_ok [OF refl _ _ assms(2)])
  show "g' = g\<lparr>rg_credentials := rg_credentials g'\<rparr>"
    using assms(1) by (auto simp: remove_credential_def delete_credential_def Let_def)
  show "cr_client ` set (rg_credentials g') \<subseteq> cl_id ` set (clients (rg_db g))"
    using assms(1) registry_okD(11) [OF assms(2)]
    by (auto simp: remove_credential_def delete_credential_def Let_def set_delete_where)
qed

lemma storage_metadata_ok:
  assumes "replace_storage_metadata jb i v g = (Inr x, g')" "registry_ok g"
  shows "registry_ok g'"
proof (cases "g' = g")
  case False
  then have g': "g' = g\<lparr>rg_storage_metadata := update_where (\<lambda>m. fst m = i) (\<lambda>m. (fst m, v)) (rg_storage_metadata g)\<rparr>"
    using assms(1) by (simp add: replace_storage_metadata_def Let_def split: if_splits)
  show ?thesis unfolding registry_ok_def g' using registry_okD [OF assms(2)] by (simp add: map_update_where)
qed (use assms(2) in simp)

lemma client_metadata_ok:
  assumes "replace_client_metadata jb i v g = (Inr x, g')" "registry_ok g"
  shows "registry_ok g'"
proof (cases "g' = g")
  case False
  then have g': "g' = g\<lparr>rg_client_metadata := update_where (\<lambda>m. fst m = i) (\<lambda>m. (fst m, v)) (rg_client_metadata g)\<rparr>"
    using assms(1) by (simp add: replace_client_metadata_def Let_def split: if_splits)
  show ?thesis unfolding registry_ok_def g' using registry_okD [OF assms(2)] by (simp add: map_update_where)
qed (use assms(2) in simp)

lemmas write_oks = insert_storage_ok update_storage_ok delete_storage_ok insert_client_ok delete_client_ok client_key_ok
  delete_client_key_ok register_credential_ok remove_credential_ok storage_metadata_ok client_metadata_ok

lemma registry_write_ok: "registry_write g g' \<Longrightarrow> registry_ok g \<Longrightarrow> registry_ok g'"
  by (cases rule: registry_write.cases)
    (blast intro: write_oks)+

lemma file_activity_ok:
  assumes "file_activity g g'" "registry_ok g"
  shows "registry_ok g'"
proof -
  obtain d where d: "g' = g\<lparr>rg_db := d\<rparr>" "storages d = storages (rg_db g)" "clients d = clients (rg_db g)"
      "l_storage ` set (locations d) \<subseteq> st_id ` set (storages d)" "f_client ` set (files d) \<subseteq> cl_id ` set (clients d)"
    using assms(1) unfolding file_activity_def by blast
  show ?thesis unfolding registry_ok_def d(1) using registry_okD [OF assms(2)] d(2-) by simp
qed

section \<open>Addresses\<close>

definition same_address :: "string \<Rightarrow> registry \<Rightarrow> registry \<Rightarrow> bool" where
  "same_address i g g' \<longleftrightarrow> (case (get_storage i g, get_storage i g') of
      (Some s, Some s') \<Rightarrow> \<not> storage_address_changed s s'
    | _ \<Rightarrow> False)"

lemma same_address_trans: "same_address i g g1 \<Longrightarrow> same_address i g1 g2 \<Longrightarrow> same_address i g g2"
  by (auto simp: same_address_def storage_address_changed_def split: option.splits)

lemma same_storages: "storages (rg_db g') = storages (rg_db g) \<Longrightarrow> get_storage i g \<noteq> None \<Longrightarrow> same_address i g g'"
  by (auto simp: same_address_def get_storage_def storage_address_changed_def)

lemma occupied_exists:
  assumes "registry_ok g" "location_in_use i g"
  shows "get_storage i g \<noteq> None"
proof -
  obtain l where "l \<in> set (locations (rg_db g))" "l_storage l = i" using assms(2) by (auto simp: location_in_use_def exists_where_iff)
  then have "i \<in> st_id ` set (storages (rg_db g))" using assms(1) by (auto simp: registry_ok_def)
  then show ?thesis by (auto simp: get_storage_def find_where_None)
qed

lemma update_storage_address:
  assumes "update_storage_in row g = (Inr x, g')" "registry_ok g" "location_in_use i g"
  shows "same_address i g g'"
proof (cases "x = StorageUpdated \<and> st_id row = i")
  case True
  obtain s where s: "get_storage i g = Some s" using occupied_exists [OF assms(2,3)] by blast
  have found: "find (\<lambda>s. st_id s = st_id row) (storages (rg_db g)) = Some s" "st_id s = st_id row"
    using s True find_key [of st_id i "storages (rg_db g)" s] by (simp_all add: get_storage_def)
  then have "\<not> storage_address_changed s row"
    and g': "g' = g\<lparr>rg_db := (rg_db g)\<lparr>storages := update_where (\<lambda>s. st_id s = st_id row) (\<lambda>_. row) (storages (rg_db g))\<rparr>\<rparr>"
    using assms(1,3) True by (simp_all add: update_storage_in_def lock_storage_def split: if_splits)
  moreover have "get_storage i g' = Some row"
    using found True by (simp add: g' get_storage_def find_update_where)
  ultimately show ?thesis by (simp add: same_address_def s)
next
  case False
  have "get_storage i g' = get_storage i g"
  proof (cases "x = StorageUpdated")
    case True
    then have ne: "st_id row \<noteq> i" using False by simp
    have "find (\<lambda>s. st_id s = i) (update_where (\<lambda>s. st_id s = st_id row) (\<lambda>_. row) xs) = find (\<lambda>s. st_id s = i) xs" for xs
      using ne by (induction xs) (auto simp: update_where_def)
    then show ?thesis using assms(1) True
      by (auto simp: update_storage_in_def get_storage_def split: if_splits option.splits)
  next
    case False
    then show ?thesis using assms(1) by (auto simp: update_storage_in_def split: if_splits option.splits)
  qed
  then show ?thesis using occupied_exists [OF assms(2,3)]
    by (auto simp: same_address_def storage_address_changed_def)
qed

lemma delete_storage_address:
  assumes "delete_storage_rows j g = (Inr n, g')" "registry_ok g" "location_in_use i g"
  shows "same_address i g g'"
proof -
  obtain s where s: "get_storage i g = Some s" using occupied_exists [OF assms(2,3)] by blast
  then have "s \<in> set (storages (rg_db g))" "st_id s = i" by (auto simp: get_storage_def dest!: find_where_Some)
  then have ne: "j \<noteq> i" using assms by (auto simp: delete_storage_rows_def Let_def count_where_0 split: if_splits)
  have "find (\<lambda>s. st_id s = i) (delete_where (\<lambda>s. st_id s = j) xs) = find (\<lambda>s. st_id s = i) xs" for xs
    using ne by (induction xs) (auto simp: delete_where_def)
  then have "get_storage i g' = get_storage i g"
    using assms(1) by (auto simp: delete_storage_rows_def Let_def get_storage_def split: if_splits)
  then show ?thesis using s by (simp add: same_address_def storage_address_changed_def)
qed

lemma insert_storage_address:
  assumes "insert_storage row g = (Inr u, g')" "get_storage i g \<noteq> None"
  shows "same_address i g g'"
proof -
  have "get_storage i g' = get_storage i g"
    using assms by (auto simp: insert_storage_def Let_def get_storage_def find_append_row split: if_splits)
  then show ?thesis using assms(2) by (auto simp: same_address_def storage_address_changed_def)
qed

lemma registry_write_address:
  assumes "registry_write g g'" "registry_ok g" "location_in_use i g"
  shows "same_address i g g'"
  using assms(1)
proof (cases rule: registry_write.cases)
  case (add_storage row u)
  then show ?thesis using insert_storage_address occupied_exists assms(2,3) by blast
next
  case (change_storage row x)
  then show ?thesis using update_storage_address assms(2,3) by blast
next
  case (drop_storage j n)
  then show ?thesis using delete_storage_address assms(2,3) by blast
next
  case (add_client j st u)
  then have "storages (rg_db g') = storages (rg_db g)" by (auto simp: insert_client_def Let_def split: if_splits)
  then show ?thesis using same_storages occupied_exists assms(2,3) by blast
next
  case (drop_client j n)
  then have "storages (rg_db g') = storages (rg_db g)" by (auto simp: delete_client_rows_def Let_def split: if_splits)
  then show ?thesis using same_storages occupied_exists assms(2,3) by blast
next
  case (add_key c h u)
  then have "storages (rg_db g') = storages (rg_db g)" by (auto simp: insert_client_key_def split: if_splits)
  then show ?thesis using same_storages occupied_exists assms(2,3) by blast
next
  case (drop_key c h n)
  then have "storages (rg_db g') = storages (rg_db g)" by (auto simp: delete_client_key_rows_def Let_def)
  then show ?thesis using same_storages occupied_exists assms(2,3) by blast
next
  case (add_credential now a c ct nc ek u)
  then have "storages (rg_db g') = storages (rg_db g)" by (auto simp: register_credential_def split: prod.splits sum.splits)
  then show ?thesis using same_storages occupied_exists assms(2,3) by blast
next
  case (drop_credential c a n)
  then have "storages (rg_db g') = storages (rg_db g)" by (auto simp: remove_credential_def split: prod.splits sum.splits)
  then show ?thesis using same_storages occupied_exists assms(2,3) by blast
next
  case (storage_labels jb j v x)
  then have "storages (rg_db g') = storages (rg_db g)" by (auto simp: replace_storage_metadata_def Let_def split: if_splits)
  then show ?thesis using same_storages occupied_exists assms(2,3) by blast
next
  case (client_labels jb j v x)
  then have "storages (rg_db g') = storages (rg_db g)" by (auto simp: replace_client_metadata_def Let_def split: if_splits)
  then show ?thesis using same_storages occupied_exists assms(2,3) by blast
qed

text \<open>A run during which the storage \<open>i\<close> holds an object all the time.\<close>

inductive occupied_run :: "string \<Rightarrow> registry \<Rightarrow> registry \<Rightarrow> bool" for i where
  start: "registry_ok g \<Longrightarrow> location_in_use i g \<Longrightarrow> occupied_run i g g"
| administered: "occupied_run i g g1 \<Longrightarrow> registry_write g1 g2 \<Longrightarrow> location_in_use i g2 \<Longrightarrow> occupied_run i g g2"
| transferred: "occupied_run i g g1 \<Longrightarrow> file_activity g1 g2 \<Longrightarrow> location_in_use i g2 \<Longrightarrow> occupied_run i g g2"

lemma occupied_run_keeps: "occupied_run i g g' \<Longrightarrow> registry_ok g' \<and> location_in_use i g' \<and> same_address i g g'"
proof (induction rule: occupied_run.induct)
  case (start g)
  then show ?case using same_storages [of g g i] occupied_exists by blast
next
  case (administered g g1 g2)
  then show ?case using registry_write_ok registry_write_address same_address_trans by blast
next
  case (transferred g g1 g2)
  then have "storages (rg_db g2) = storages (rg_db g1)" by (auto simp: file_activity_def)
  then have "same_address i g1 g2" using same_storages occupied_exists transferred.IH by blast
  then show ?case using transferred file_activity_ok same_address_trans by blast
qed

text \<open>
  C40. Objects stay where their rows say: while a storage holds an object, no registry write, file
  transfer or sequence of both removes the storage or changes its address (kind, endpoints, region,
  bucket, path style), and every reference between the tables holds in every state on the way.
  Capacity, relay mode and credentials may change.
\<close>

theorem stored_objects_keep_their_address:
  assumes "occupied_run i g g'"
  shows "registry_ok g' \<and> (\<exists>s s'. get_storage i g = Some s \<and> get_storage i g' = Some s' \<and> \<not> storage_address_changed s s')"
proof -
  have "registry_ok g'" "same_address i g g'" using occupied_run_keeps [OF assms] by blast+
  then show ?thesis by (auto simp: same_address_def split: option.splits)
qed

definition sample_storage :: "string \<Rightarrow> storage_row" where
  "sample_storage secret = \<lparr>st_id = ''s1'', st_kind = ''s3'', st_force_relay = False, st_endpoint = Some ''http://s3'',
     st_public_endpoint = Some ''http://s3'', st_region = Some ''r'', st_bucket = Some ''b'', st_force_path_style = True,
     st_access_key = Some ''k'', st_secret_ciphertext = Some secret, st_secret_nonce = Some ''123456789012'',
     st_enc_key_id = Some ''e1'', st_capacity_bytes = 100\<rparr>"

definition sample_registry :: "string \<Rightarrow> registry" where
  "sample_registry secret = \<lparr>rg_db = \<lparr>storages = [sample_storage secret], clients = [\<lparr>cl_id = ''c1'', cl_storage = ''s1''\<rparr>],
       files = [\<lparr>f_id = 1, f_client = ''c1'', f_state = Active, f_declared_size = 5, f_content_type = None, f_declared_md5 = None,
         f_etag = Some ''e'', f_part_size = None, f_created_at = 0, f_committed_at = Some 1, f_deleted_at = None, f_recovery_after = 0\<rparr>],
       locations = [\<lparr>l_file = 1, l_storage = ''s1'', l_object_key = ''o''\<rparr>], leases = [], lease_parts = [], uploads = [],
       object_keys = [], lease_history = [], row_locks = []\<rparr>,
     rg_keys = [], rg_credentials = [], rg_storage_metadata = [(''s1'', JObj [])], rg_client_metadata = [(''c1'', JObj [])]\<rparr>"

text \<open>The secret of an occupied storage is replaced; another endpoint and its deletion are refused.\<close>

theorem stored_objects_keep_their_address_witness:
  "fst (update_storage_in (sample_storage ''new'') (sample_registry ''old'')) = Inr StorageUpdated \<and>
   registry_ok (sample_registry ''new'') \<and>
   fst (update_storage_in ((sample_storage ''new'')\<lparr>st_endpoint := Some ''http://other''\<rparr>) (sample_registry ''new'')) = Inr LocationInUse \<and>
   fst (delete_storage_rows ''s1'' (sample_registry ''new'')) = Inl ForeignKeyViolation"
proof (intro conjI)
  have old: "registry_ok (sample_registry ''old'')" "location_in_use ''s1'' (sample_registry x)" for x
    by (simp_all add: sample_registry_def sample_storage_def registry_ok_def storage_check_def slug_check_def slug_char_def
        is_lower_def is_digit_def code_def location_in_use_def exists_where_iff)
  have run: "update_storage_in (sample_storage ''new'') (sample_registry ''old'') = (Inr StorageUpdated, sample_registry ''new'')"
    by (simp add: sample_registry_def sample_storage_def update_storage_in_def lock_storage_def storage_address_changed_def
        update_where_def storage_check_def slug_check_def slug_char_def is_lower_def is_digit_def code_def)
  then show "fst (update_storage_in (sample_storage ''new'') (sample_registry ''old'')) = Inr StorageUpdated" by simp
  have "occupied_run ''s1'' (sample_registry ''old'') (sample_registry ''new'')"
    by (rule occupied_run.administered [OF occupied_run.start [OF old] registry_write.change_storage [OF run] old(2)])
  from stored_objects_keep_their_address [OF this] show "registry_ok (sample_registry ''new'')" by blast
qed code_simp+

end
