(* ===== verification/Identity_Schema.thy ===== *)
theory Identity_Schema
  imports Schema Management_Policy
begin

text \<open>
  The tables of the schema \<open>management\<close> (migration 0004) as the record \<open>mdb\<close>, the audit records of
  \<open>db/src/management/audit.rs\<close> and the lookups of \<open>identity.rs\<close>, which turn the hash of a token or of
  a session into an acting account. A role is stored as its name; the check on the column makes the
  decoding in \<open>identity.rs\<close> total. The columns \<open>created_at\<close> and \<open>updated_at\<close> of accounts are read by no
  statement and left out; the text of a uuid as an audit target is the uuid.
\<close>

section \<open>Tables\<close>

record account_row =
  a_id :: uuid
  a_name :: string
  a_role :: role
  a_active :: bool
  a_deleted_at :: "timestamp option"

record token_row =
  t_id :: uuid
  t_account :: uuid
  t_label :: string
  t_prefix :: string
  t_hash :: string
  t_version :: int
  t_created_at :: timestamp
  t_expires_at :: timestamp
  t_revoked_at :: "timestamp option"
  t_last_used_at :: "timestamp option"

record password_row =
  p_account :: uuid
  p_login :: string
  p_hash :: "string option"
  p_generation :: "uuid option"
  p_changed_at :: "timestamp option"

record setup_row =
  su_account :: uuid
  su_hash :: string
  su_created_at :: timestamp
  su_expires_at :: timestamp

datatype session_method = ByToken | ByPassword

record session_row =
  s_id :: uuid
  s_hash :: string
  s_method :: session_method
  s_account :: uuid
  s_credential :: "uuid option"
  s_generation :: "uuid option"
  s_created_at :: timestamp
  s_expires_at :: timestamp
  s_revoked_at :: "timestamp option"

datatype purpose = Login | Reauthentication

record budget_row =
  b_account :: uuid
  b_purpose :: purpose
  b_window :: timestamp
  b_attempts :: int

datatype audit_metadata =
    EmptyMetadata
  | NameMetadata
  | AccountMetadata role role bool bool bool
  | CredentialMetadata uuid string timestamp

record audit_row =
  au_id :: nat
  au_at :: timestamp
  au_kind :: string
  au_actor :: "uuid option"
  au_credential :: "uuid option"
  au_session :: "uuid option"
  au_request :: uuid
  au_surface :: string
  au_action :: string
  au_type :: string
  au_target :: uuid
  au_metadata :: audit_metadata

text \<open>
  The single row of \<open>login_budget\<close> is a window and its attempts. \<open>m_audit_next\<close> is the identity column
  of \<open>audit_events\<close>.
\<close>

record mdb =
  m_accounts :: "account_row list"
  m_tokens :: "token_row list"
  m_passwords :: "password_row list"
  m_setups :: "setup_row list"
  m_sessions :: "session_row list"
  m_budgets :: "budget_row list"
  m_login_budget :: "timestamp \<times> int"
  m_audit :: "audit_row list"
  m_audit_next :: nat

text \<open>\<open>length\<close> of a text column and Rust's \<open>chars().count()\<close> count code points, not bytes.\<close>

definition char_count :: "string \<Rightarrow> nat" where
  "char_count s = length (filter (\<lambda>b. \<not> (128 \<le> code b \<and> code b \<le> 191)) s)"

definition label_check :: "string \<Rightarrow> bool" where
  "label_check s \<longleftrightarrow> (let n = char_count (trim_char (CHR '' '') s) in 1 \<le> n \<and> n \<le> 80)"

definition hex64 :: "string \<Rightarrow> bool" where
  "hex64 h \<longleftrightarrow> length h = 64 \<and> list_all (\<lambda>c. is_digit c \<or> (97 \<le> code c \<and> code c \<le> 102)) h"

definition is_upper :: "char \<Rightarrow> bool" where
  "is_upper c \<longleftrightarrow> 65 \<le> code c \<and> code c \<le> 90"

definition prefix_check :: "string \<Rightarrow> bool" where
  "prefix_check s \<longleftrightarrow> 1 \<le> length s \<and> length s \<le> 32 \<and>
     list_all (\<lambda>c. is_lower c \<or> is_upper c \<or> is_digit c \<or> c = CHR ''_'') s"

definition login_check :: "string \<Rightarrow> bool" where
  "login_check s \<longleftrightarrow> 3 \<le> length s \<and> length s \<le> 64 \<and> (is_lower (hd s) \<or> is_digit (hd s)) \<and>
     list_all (\<lambda>c. is_lower c \<or> is_digit c \<or> c \<in> set ''._-'') s"

definition password_hash_check :: "string \<Rightarrow> bool" where
  "password_hash_check h \<longleftrightarrow> 40 \<le> char_count h \<and> char_count h \<le> 512 \<and> prefix ''$argon2id$v=19$'' h"

section \<open>Errors and audit records\<close>

datatype identity_error =
    DatabaseError db_error
  | Unauthenticated
  | Forbidden
  | AlreadyInitialized
  | NotFound
  | AccountInactive
  | LastAdmin
  | InvalidInput
  | CommitUnknown
  | CredentialLimit

datatype audit_actor = SystemActor | AccountActor uuid "uuid option" "uuid option"

record audit_context =
  ac_actor :: audit_actor
  ac_request :: uuid
  ac_surface :: surface

record actor_columns =
  co_kind :: string
  co_actor :: "uuid option"
  co_credential :: "uuid option"
  co_session :: "uuid option"

definition actor_columns_of :: "audit_actor option \<Rightarrow> actor_columns" where
  "actor_columns_of a = (case a of
      Some SystemActor \<Rightarrow> \<lparr>co_kind = ''system'', co_actor = None, co_credential = None, co_session = None\<rparr>
    | Some (AccountActor i c s) \<Rightarrow> \<lparr>co_kind = ''account'', co_actor = Some i, co_credential = c, co_session = s\<rparr>
    | None \<Rightarrow> \<lparr>co_kind = ''anonymous'', co_actor = None, co_credential = None, co_session = None\<rparr>)"

definition surface_name :: "surface \<Rightarrow> string" where
  "surface_name s = (case s of Console \<Rightarrow> ''console'' | Cli \<Rightarrow> ''cli'' | Mcp \<Rightarrow> ''mcp'' | ResourceApi \<Rightarrow> ''resource_api'')"

definition insert_audit :: "timestamp \<Rightarrow> actor_columns \<Rightarrow> uuid \<Rightarrow> string \<Rightarrow> string \<Rightarrow> string \<Rightarrow> uuid \<Rightarrow> mdb \<Rightarrow> nat \<times> mdb" where
  "insert_audit now c request sf act kind target d =
     (m_audit_next d,
      d\<lparr>m_audit := m_audit d @ [\<lparr>au_id = m_audit_next d, au_at = now, au_kind = co_kind c, au_actor = co_actor c,
            au_credential = co_credential c, au_session = co_session c, au_request = request, au_surface = sf,
            au_action = act, au_type = kind, au_target = target, au_metadata = EmptyMetadata\<rparr>],
        m_audit_next := Suc (m_audit_next d)\<rparr>)"

definition record_audit :: "timestamp \<Rightarrow> audit_context \<Rightarrow> string \<Rightarrow> string \<Rightarrow> uuid \<Rightarrow> mdb \<Rightarrow> nat \<times> mdb" where
  "record_audit now c act kind target =
     insert_audit now (actor_columns_of (Some (ac_actor c))) (ac_request c) (surface_name (ac_surface c)) act kind target"

definition set_metadata :: "nat \<Rightarrow> audit_metadata \<Rightarrow> mdb \<Rightarrow> mdb" where
  "set_metadata event x d = d\<lparr>m_audit := update_where (\<lambda>r. au_id r = event) (\<lambda>r. r\<lparr>au_metadata := x\<rparr>) (m_audit d)\<rparr>"

section \<open>Who acts\<close>

record identity =
  id_account :: uuid
  id_credential :: "uuid option"
  id_session :: "uuid option"
  id_caller :: caller

definition row_identity :: "account_row \<Rightarrow> uuid option \<Rightarrow> uuid option \<Rightarrow> auth_method \<Rightarrow> identity" where
  "row_identity a credential session method =
     \<lparr>id_account = a_id a, id_credential = credential, id_session = session,
      id_caller = \<lparr>c_actor = User (a_role a) AccountActive, c_method = method, c_credential_state = CredActive\<rparr>\<rparr>"

definition live_account :: "uuid \<Rightarrow> mdb \<Rightarrow> account_row option" where
  "live_account i d = find (\<lambda>a. a_id a = i \<and> a_active a \<and> a_deleted_at a = None) (m_accounts d)"

definition token_live :: "timestamp \<Rightarrow> token_row \<Rightarrow> bool" where
  "token_live now c \<longleftrightarrow> t_version c = 1 \<and> t_revoked_at c = None \<and> now < t_expires_at c"

definition token_identity :: "timestamp \<Rightarrow> string \<Rightarrow> mdb \<Rightarrow> identity option" where
  "token_identity now h d =
     (case find (\<lambda>c. t_hash c = h \<and> token_live now c \<and> live_account (t_account c) d \<noteq> None) (m_tokens d) of
        None \<Rightarrow> None
      | Some c \<Rightarrow> map_option (\<lambda>a. row_identity a (Some (t_id c)) None ManagementToken) (live_account (t_account c) d))"

definition session_token :: "session_row \<Rightarrow> mdb \<Rightarrow> token_row option" where
  "session_token s d = find (\<lambda>c. Some (t_id c) = s_credential s \<and> t_account c = s_account s) (m_tokens d)"

definition session_password :: "session_row \<Rightarrow> mdb \<Rightarrow> password_row option" where
  "session_password s d = find (\<lambda>p. p_account p = s_account s) (m_passwords d)"

definition session_backed :: "timestamp \<Rightarrow> mdb \<Rightarrow> session_row \<Rightarrow> bool" where
  "session_backed now d s = (case s_method s of
      ByToken \<Rightarrow> (case session_token s d of None \<Rightarrow> False | Some c \<Rightarrow> token_live now c)
    | ByPassword \<Rightarrow> (case session_password s d of None \<Rightarrow> False
        | Some p \<Rightarrow> p_generation p \<noteq> None \<and> p_generation p = s_generation s))"

definition session_unexpired :: "timestamp \<Rightarrow> session_row \<Rightarrow> bool" where
  "session_unexpired now s \<longleftrightarrow> s_revoked_at s = None \<and> now < s_expires_at s"

definition session_identity :: "timestamp \<Rightarrow> string \<Rightarrow> mdb \<Rightarrow> identity option" where
  "session_identity now h d =
     (case find (\<lambda>s. s_hash s = h \<and> session_unexpired now s \<and> session_backed now d s \<and>
                     live_account (s_account s) d \<noteq> None) (m_sessions d) of
        None \<Rightarrow> None
      | Some s \<Rightarrow> map_option (\<lambda>a. row_identity a (map_option t_id (session_token s d)) (Some (s_id s)) UserSession)
          (live_account (s_account s) d))"

definition password_only_session :: "timestamp \<Rightarrow> string \<Rightarrow> mdb \<Rightarrow> identity option" where
  "password_only_session now h d =
     (case find (\<lambda>s. s_hash s = h \<and> s_method s = ByPassword \<and> session_unexpired now s \<and> session_backed now d s \<and>
                     live_account (s_account s) d \<noteq> None) (m_sessions d) of
        None \<Rightarrow> None
      | Some s \<Rightarrow> map_option (\<lambda>a. row_identity a None (Some (s_id s)) UserSession) (live_account (s_account s) d))"

definition password_session :: "timestamp \<Rightarrow> string \<Rightarrow> mdb \<Rightarrow> identity_error + identity" where
  "password_session now h d = (case session_identity now h d of
      None \<Rightarrow> Inl Unauthenticated
    | Some actor \<Rightarrow>
        (case id_session actor of
           None \<Rightarrow> Inl Unauthenticated
         | Some i \<Rightarrow>
             (case find (\<lambda>s. s_id s = i) (m_sessions d) of
                None \<Rightarrow> Inl (DatabaseError RowNotFound)
              | Some s \<Rightarrow> if s_method s = ByPassword then Inr actor else Inl Forbidden)))"

text \<open>\<open>Proof\<close> and \<open>IdentityTransaction::resolve\<close>; a resolved identity is always a user.\<close>

datatype proof_of_identity = SessionProof string | PasswordSessionProof string | TokenProof string

definition resolve_proof :: "timestamp \<Rightarrow> proof_of_identity \<Rightarrow> mdb \<Rightarrow> identity option" where
  "resolve_proof now pr d = (case pr of
      SessionProof h \<Rightarrow> session_identity now h d
    | PasswordSessionProof h \<Rightarrow> password_only_session now h d
    | TokenProof h \<Rightarrow> token_identity now h d)"

end
