(* ===== verification/Identity.thy ===== *)
theory Identity
  imports Identity_Schema
begin

text \<open>
  The transactions of \<open>db/src/management\<close> that change accounts, tokens, passwords and sessions
  (\<open>accounts.rs\<close>, \<open>api_tokens.rs\<close>, \<open>sessions.rs\<close>, \<open>passwords.rs\<close>, \<open>password_setup.rs\<close>,
  \<open>personal_tokens.rs\<close>, \<open>profile.rs\<close>, \<open>admission.rs\<close>). Every transaction but those of \<open>admission.rs\<close> takes
  the same advisory lock first, so the transactions follow one another; \<open>atomically\<close> gives the tables back
  as they were when one ends with an error. \<open>Uuid::new_v4\<close> and \<open>wall_now\<close> are arguments; a commit whose
  outcome is unknown is left out.
\<close>

definition atomically :: "('s, 'e, 'a) eff \<Rightarrow> ('s, 'e, 'a) eff" where
  "atomically body d = (case body d of (Inl e, _) \<Rightarrow> (Inl e, d) | (Inr a, d') \<Rightarrow> (Inr a, d'))"

lemma atomically_Inl: "atomically op d = (Inl e, d') \<Longrightarrow> d' = d"
  by (auto simp: atomically_def split: prod.splits sum.splits)

lemma atomically_Inr [simp]: "atomically op d = (Inr a, d') \<longleftrightarrow> op d = (Inr a, d')"
  by (auto simp: atomically_def split: prod.splits sum.splits)

section \<open>accounts.rs\<close>

datatype account_change = ChangeName string | ChangeRole role | ChangeActive bool | DeleteAccount

definition insert_account :: "uuid \<Rightarrow> string \<Rightarrow> role \<Rightarrow> (mdb, db_error, unit) eff" where
  "insert_account i name role d =
     (if \<not> label_check name then (Inl CheckViolation, d)
      else if exists_where (\<lambda>a. a_id a = i) (m_accounts d) then (Inl UniqueViolation, d)
      else (Inr (), d\<lparr>m_accounts := m_accounts d @
        [\<lparr>a_id = i, a_name = name, a_role = role, a_active = True, a_deleted_at = None\<rparr>]\<rparr>))"

definition create_account :: "timestamp \<Rightarrow> audit_context \<Rightarrow> uuid \<Rightarrow> string \<Rightarrow> role \<Rightarrow> (mdb, identity_error, uuid) eff" where
  "create_account now c i name role = atomically (\<lambda>d.
     if m_accounts d = [] then (Inl InvalidInput, d)
     else try_eff (insert_account i name role) DatabaseError (\<lambda>_ d.
       (Inr i, snd (record_audit now c ''account.create'' ''account'' i d))) d)"

definition password_ready :: "uuid \<Rightarrow> mdb \<Rightarrow> bool" where
  "password_ready i d = exists_where (\<lambda>p. p_account p = i \<and> p_hash p \<noteq> None) (m_passwords d)"

definition live_admin :: "account_row \<Rightarrow> bool" where
  "live_admin a \<longleftrightarrow> a_role a = Admin \<and> a_active a \<and> a_deleted_at a = None"

definition last_admin :: "uuid \<Rightarrow> mdb \<Rightarrow> bool" where
  "last_admin i d =
     (if password_ready i d
      then \<not> exists_where (\<lambda>a. a_id a \<noteq> i \<and> live_admin a \<and> password_ready (a_id a) d) (m_accounts d)
      else count_where live_admin (m_accounts d) \<le> 1)"

definition rename_account :: "timestamp \<Rightarrow> audit_context \<Rightarrow> uuid \<Rightarrow> string \<Rightarrow> string \<Rightarrow> (mdb, identity_error, bool) eff" where
  "rename_account now c i old_name raw d =
     (let name = trim raw
      in if name = [] \<or> 80 < char_count name then (Inl InvalidInput, d)
         else if name = old_name then (Inr False, d)
         else if \<not> label_check name then (Inl (DatabaseError CheckViolation), d)
         else let d1 = d\<lparr>m_accounts := update_where (\<lambda>a. a_id a = i) (\<lambda>a. a\<lparr>a_name := name\<rparr>) (m_accounts d)\<rparr>;
                  (event, d2) = record_audit now c ''account.name'' ''account'' i d1
              in (Inr True, set_metadata event NameMetadata d2))"

definition revoke_sessions :: "timestamp \<Rightarrow> (session_row \<Rightarrow> bool) \<Rightarrow> mdb \<Rightarrow> mdb" where
  "revoke_sessions now p d = d\<lparr>m_sessions := update_where (\<lambda>s. p s \<and> s_revoked_at s = None)
     (\<lambda>s. s\<lparr>s_revoked_at := Some now\<rparr>) (m_sessions d)\<rparr>"

definition revoke_tokens :: "timestamp \<Rightarrow> (token_row \<Rightarrow> bool) \<Rightarrow> mdb \<Rightarrow> mdb" where
  "revoke_tokens now p d = d\<lparr>m_tokens := update_where (\<lambda>c. p c \<and> t_revoked_at c = None)
     (\<lambda>c. c\<lparr>t_revoked_at := Some now\<rparr>) (m_tokens d)\<rparr>"

definition set_account :: "timestamp \<Rightarrow> uuid \<Rightarrow> role \<Rightarrow> bool \<Rightarrow> bool \<Rightarrow> mdb \<Rightarrow> mdb" where
  "set_account now i role active deleted d =
     (let d1 = d\<lparr>m_accounts := update_where (\<lambda>a. a_id a = i)
            (\<lambda>a. a\<lparr>a_role := role, a_active := active, a_deleted_at := if deleted then Some now else None\<rparr>) (m_accounts d)\<rparr>;
          d2 = (if active then d1 else revoke_sessions now (\<lambda>s. s_account s = i) d1)
      in if deleted then revoke_tokens now (\<lambda>c. t_account c = i) d2 else d2)"

definition alter_account :: "timestamp \<Rightarrow> audit_context \<Rightarrow> account_row \<Rightarrow> role \<Rightarrow> bool \<Rightarrow> bool \<Rightarrow> string
    \<Rightarrow> (mdb, identity_error, bool) eff" where
  "alter_account now c a role active deleted act d =
     (if role = a_role a \<and> active = a_active a \<and> \<not> deleted then (Inr False, d)
      else if a_role a = Admin \<and> a_active a \<and> (role \<noteq> Admin \<or> \<not> active) \<and> last_admin (a_id a) d then (Inl LastAdmin, d)
      else let (event, d1) = record_audit now c act ''account'' (a_id a) (set_account now (a_id a) role active deleted d)
           in (Inr True, set_metadata event (AccountMetadata (a_role a) role (a_active a) active deleted) d1))"

definition change_account :: "timestamp \<Rightarrow> audit_context \<Rightarrow> uuid \<Rightarrow> account_change \<Rightarrow> (mdb, identity_error, bool) eff" where
  "change_account now c i change = atomically (\<lambda>d.
     case find (\<lambda>a. a_id a = i \<and> a_deleted_at a = None) (m_accounts d) of
       None \<Rightarrow> (Inl NotFound, d)
     | Some a \<Rightarrow> (case change of
           ChangeName name \<Rightarrow> rename_account now c i (a_name a) name d
         | ChangeRole role \<Rightarrow> alter_account now c a role (a_active a) False ''account.role'' d
         | ChangeActive active \<Rightarrow> alter_account now c a (a_role a) active False ''account.active'' d
         | DeleteAccount \<Rightarrow> alter_account now c a (a_role a) False True ''account.delete'' d))"

section \<open>sessions.rs\<close>

record session_info =
  si_id :: uuid
  si_account :: uuid
  si_credential :: "uuid option"
  si_expires_at :: timestamp

definition SESSION_SECS :: int where
  "SESSION_SECS = 28800"

definition insert_session :: "session_row \<Rightarrow> (mdb, db_error, session_info) eff" where
  "insert_session s d =
     (if \<not> hex64 (s_hash s) \<or> \<not> s_created_at s < s_expires_at s then (Inl CheckViolation, d)
      else if exists_where (\<lambda>r. s_id r = s_id s \<or> s_hash r = s_hash s) (m_sessions d) then (Inl UniqueViolation, d)
      else (Inr \<lparr>si_id = s_id s, si_account = s_account s, si_credential = s_credential s, si_expires_at = s_expires_at s\<rparr>,
            d\<lparr>m_sessions := m_sessions d @ [s]\<rparr>))"

text \<open>The \<open>DELETE\<close> of ended sessions and the eviction of all but the newest 63 among those that \<open>p\<close> selects.\<close>

definition purge_sessions :: "timestamp \<Rightarrow> (session_row \<Rightarrow> bool) \<Rightarrow> mdb \<Rightarrow> mdb" where
  "purge_sessions now p d = d\<lparr>m_sessions :=
     delete_where (\<lambda>s. p s \<and> (s_expires_at s \<le> now \<or> s_revoked_at s \<noteq> None)) (m_sessions d)\<rparr>"

definition evictable :: "(session_row \<Rightarrow> bool) \<Rightarrow> mdb \<Rightarrow> uuid list" where
  "evictable p d = map s_id (drop 63 (rev (sort_key (\<lambda>s. (s_created_at s, s_id s))
     (filter (\<lambda>s. p s \<and> s_revoked_at s = None) (m_sessions d)))))"

definition evict_sessions :: "timestamp \<Rightarrow> (session_row \<Rightarrow> bool) \<Rightarrow> mdb \<Rightarrow> uuid list \<times> mdb" where
  "evict_sessions now p d =
     (evictable p d,
      d\<lparr>m_sessions := update_where (\<lambda>s. s_id s \<in> set (evictable p d)) (\<lambda>s. s\<lparr>s_revoked_at := Some now\<rparr>) (m_sessions d)\<rparr>)"

definition audit_evictions :: "timestamp \<Rightarrow> audit_context \<Rightarrow> uuid list \<Rightarrow> mdb \<Rightarrow> mdb" where
  "audit_evictions now c ids d = fold (\<lambda>i d. snd (record_audit now c ''session.evict'' ''session'' i d)) ids d"

definition session_context :: "uuid \<Rightarrow> uuid option \<Rightarrow> uuid option \<Rightarrow> uuid \<Rightarrow> audit_context" where
  "session_context account credential session request =
     \<lparr>ac_actor = AccountActor account credential session, ac_request = request, ac_surface = Console\<rparr>"

definition create_session :: "timestamp \<Rightarrow> uuid \<Rightarrow> uuid \<Rightarrow> string \<Rightarrow> string \<Rightarrow> (mdb, identity_error, session_info option) eff" where
  "create_session now i request tok_hash session_hash = atomically (\<lambda>d.
     case token_identity now tok_hash d of
       None \<Rightarrow> (Inr None, d)
     | Some actor \<Rightarrow> (case id_credential actor of
         None \<Rightarrow> (Inl InvalidInput, d)
       | Some cid \<Rightarrow>
           let of_token = (\<lambda>s. s_credential s = Some cid);
               (evicted, d1) = evict_sessions now of_token (purge_sessions now of_token d)
           in (case find (\<lambda>c. t_id c = cid) (m_tokens d1) of
             None \<Rightarrow> (Inl (DatabaseError RowNotFound), d1)
           | Some c \<Rightarrow>
               try_eff (insert_session \<lparr>s_id = i, s_hash = session_hash, s_method = ByToken, s_account = t_account c,
                   s_credential = Some cid, s_generation = None, s_created_at = now,
                   s_expires_at = min (t_expires_at c) (now + secs SESSION_SECS), s_revoked_at = None\<rparr>) DatabaseError
                 (\<lambda>session d2.
                   let context = session_context (id_account actor) (id_credential actor) (Some (si_id session)) request;
                       d3 = snd (record_audit now context ''session.create'' ''session'' (si_id session)
                              (audit_evictions now context evicted d2))
                   in (Inr (Some session), d3\<lparr>m_tokens := update_where (\<lambda>c. t_id c = cid)
                         (\<lambda>c. c\<lparr>t_last_used_at := Some now\<rparr>) (m_tokens d3)\<rparr>)) d1)))"

definition generation_current :: "uuid \<Rightarrow> uuid \<Rightarrow> mdb \<Rightarrow> bool" where
  "generation_current account generation d \<longleftrightarrow> live_account account d \<noteq> None \<and>
     exists_where (\<lambda>p. p_account p = account \<and> p_generation p = Some generation) (m_passwords d)"

definition create_password_session :: "timestamp \<Rightarrow> uuid \<Rightarrow> uuid \<Rightarrow> uuid \<Rightarrow> uuid \<Rightarrow> string
    \<Rightarrow> (mdb, identity_error, session_info option) eff" where
  "create_password_session now i request account generation session_hash = atomically (\<lambda>d.
     if \<not> generation_current account generation d then (Inr None, d)
     else
       let of_account = (\<lambda>s. s_account s = account \<and> s_method s = ByPassword);
           (evicted, d1) = evict_sessions now of_account (purge_sessions now of_account d)
       in try_eff (insert_session \<lparr>s_id = i, s_hash = session_hash, s_method = ByPassword, s_account = account,
              s_credential = None, s_generation = Some generation, s_created_at = now,
              s_expires_at = now + secs SESSION_SECS, s_revoked_at = None\<rparr>) DatabaseError
            (\<lambda>session d2.
              let context = session_context account None (Some (si_id session)) request
              in (Inr (Some session), snd (record_audit now context ''session.create'' ''session'' (si_id session)
                   (audit_evictions now context evicted d2)))) d1)"

definition revoke_session :: "timestamp \<Rightarrow> audit_context \<Rightarrow> uuid \<Rightarrow> uuid \<Rightarrow> (mdb, identity_error, bool) eff" where
  "revoke_session now c account session d =
     (let hit = (\<lambda>s. s_id s = session \<and> s_account s = account);
          changed = exists_where (\<lambda>s. hit s \<and> s_revoked_at s = None) (m_sessions d);
          d1 = revoke_sessions now hit d
      in (Inr changed, if changed then snd (record_audit now c ''session.revoke'' ''session'' session d1) else d1))"

section \<open>api_tokens.rs\<close>

record new_credential =
  nc_label :: string
  nc_prefix :: string
  nc_hash :: string
  nc_expires_at :: timestamp

record credential =
  cd_id :: uuid
  cd_account :: uuid
  cd_expires_at :: timestamp

definition TOKEN_LIMIT :: nat where
  "TOKEN_LIMIT = 32"

definition unexpired_token :: "timestamp \<Rightarrow> token_row \<Rightarrow> bool" where
  "unexpired_token now c \<longleftrightarrow> t_revoked_at c = None \<and> now < t_expires_at c"

definition insert_token :: "timestamp \<Rightarrow> uuid \<Rightarrow> uuid \<Rightarrow> new_credential \<Rightarrow> (mdb, db_error, credential) eff" where
  "insert_token now i account key d =
     (if \<not> label_check (nc_label key) \<or> \<not> prefix_check (nc_prefix key) \<or> \<not> hex64 (nc_hash key) \<or> nc_expires_at key \<le> now
      then (Inl CheckViolation, d)
      else if exists_where (\<lambda>c. t_id c = i \<or> t_hash c = nc_hash key) (m_tokens d) then (Inl UniqueViolation, d)
      else (Inr \<lparr>cd_id = i, cd_account = account, cd_expires_at = nc_expires_at key\<rparr>,
            d\<lparr>m_tokens := m_tokens d @ [\<lparr>t_id = i, t_account = account, t_label = nc_label key, t_prefix = nc_prefix key,
                t_hash = nc_hash key, t_version = 1, t_created_at = now, t_expires_at = nc_expires_at key,
                t_revoked_at = None, t_last_used_at = None\<rparr>]\<rparr>))"

definition insert_key :: "timestamp \<Rightarrow> uuid \<Rightarrow> uuid \<Rightarrow> new_credential \<Rightarrow> (mdb, identity_error, credential) eff" where
  "insert_key now i account key d =
     (if live_account account d = None then (Inl AccountInactive, d)
      else if TOKEN_LIMIT \<le> count_where (\<lambda>c. t_account c = account \<and> unexpired_token now c) (m_tokens d)
      then (Inl CredentialLimit, d)
      else try_eff (insert_token now i account key) DatabaseError ret_ok d)"

definition record_credential_audit :: "timestamp \<Rightarrow> audit_context \<Rightarrow> string \<Rightarrow> uuid \<Rightarrow> mdb \<Rightarrow> mdb" where
  "record_credential_audit now c act i d =
     (case record_audit now c act ''credential'' i d of (event, d1) \<Rightarrow>
        (case find (\<lambda>t. t_id t = i) (m_tokens d1) of
           None \<Rightarrow> d1
         | Some t \<Rightarrow> set_metadata event (CredentialMetadata (t_account t) (t_label t) (t_expires_at t)) d1))"

definition issue_credential :: "timestamp \<Rightarrow> audit_context \<Rightarrow> uuid \<Rightarrow> uuid \<Rightarrow> new_credential
    \<Rightarrow> (mdb, identity_error, credential) eff" where
  "issue_credential now c i account key = atomically
     (try_eff (insert_key now i account key) (\<lambda>e. e)
       (\<lambda>issued d. (Inr issued, record_credential_audit now c ''credential.issue'' (cd_id issued) d)))"

definition revoke_credential :: "timestamp \<Rightarrow> audit_context \<Rightarrow> uuid \<Rightarrow> (mdb, identity_error, bool) eff" where
  "revoke_credential now c i d =
     (if exists_where (\<lambda>t. t_id t = i \<and> t_revoked_at t = None) (m_tokens d)
      then (Inr True, record_credential_audit now c ''credential.revoke'' i
              (revoke_sessions now (\<lambda>s. s_credential s = Some i) (revoke_tokens now (\<lambda>t. t_id t = i) d)))
      else (Inr False, d))"

section \<open>passwords.rs\<close>

record password_credential =
  pc_account :: uuid
  pc_login :: string
  pc_hash :: string
  pc_generation :: uuid

definition is_initialized :: "mdb \<Rightarrow> bool" where
  "is_initialized d = exists_where (\<lambda>a. live_admin a \<and> password_ready (a_id a) d) (m_accounts d)"

text \<open>The row decodes because a password is stored with its generation.\<close>

definition credential_of :: "password_row \<Rightarrow> password_credential option" where
  "credential_of p = (case (p_hash p, p_generation p) of
      (Some h, Some g) \<Rightarrow> Some \<lparr>pc_account = p_account p, pc_login = p_login p, pc_hash = h, pc_generation = g\<rparr>
    | _ \<Rightarrow> None)"

definition usable_password :: "mdb \<Rightarrow> password_row \<Rightarrow> bool" where
  "usable_password d p \<longleftrightarrow> p_hash p \<noteq> None \<and> live_account (p_account p) d \<noteq> None"

definition find_password :: "string \<Rightarrow> mdb \<Rightarrow> password_credential option" where
  "find_password login d =
     Option.bind (find (\<lambda>p. p_login p = login \<and> usable_password d p) (m_passwords d)) credential_of"

definition find_by_account :: "uuid \<Rightarrow> mdb \<Rightarrow> password_credential option" where
  "find_by_account account d =
     Option.bind (find (\<lambda>p. p_account p = account \<and> usable_password d p) (m_passwords d)) credential_of"

definition set_password :: "timestamp \<Rightarrow> (password_row \<Rightarrow> bool) \<Rightarrow> string \<Rightarrow> uuid \<Rightarrow> (mdb, db_error, nat) eff" where
  "set_password now p h generation d =
     (if exists_where p (m_passwords d) \<and> \<not> password_hash_check h then (Inl CheckViolation, d)
      else (Inr (count_where p (m_passwords d)),
            d\<lparr>m_passwords := update_where p (\<lambda>r. r\<lparr>p_hash := Some h, p_generation := Some generation,
                p_changed_at := Some now\<rparr>) (m_passwords d)\<rparr>))"

definition change_password :: "timestamp \<Rightarrow> uuid \<Rightarrow> uuid \<Rightarrow> string \<Rightarrow> uuid \<Rightarrow> string \<Rightarrow> (mdb, identity_error, bool) eff" where
  "change_password now generation' request session_hash verified new_hash = atomically (\<lambda>d.
     case find (\<lambda>s. s_hash s = session_hash \<and> s_method s = ByPassword \<and> session_unexpired now s \<and>
            s_generation s = Some verified \<and> generation_current (s_account s) verified d) (m_sessions d) of
       None \<Rightarrow> (Inr False, d)
     | Some s \<Rightarrow>
         try_eff (set_password now (\<lambda>p. p_account p = s_account s \<and> p_generation p = Some verified) new_hash generation')
           DatabaseError (\<lambda>n d1.
             if n \<noteq> 1 then (Inr False, d)
             else (Inr True, snd (record_audit now (session_context (s_account s) None (Some (s_id s)) request)
                   ''account.password_change'' ''account'' (s_account s)
                   (revoke_sessions now (\<lambda>r. s_account r = s_account s) d1)))) d)"

definition replace_password :: "timestamp \<Rightarrow> uuid \<Rightarrow> uuid \<Rightarrow> string \<Rightarrow> string \<Rightarrow> (mdb, db_error, unit) eff" where
  "replace_password now generation account login h d =
     (if \<not> login_check login \<or> \<not> password_hash_check h then (Inl CheckViolation, d)
      else if exists_where (\<lambda>p. p_login p = login \<and> p_account p \<noteq> account) (m_passwords d) then (Inl UniqueViolation, d)
      else if exists_where (\<lambda>p. p_account p = account) (m_passwords d) then
        (Inr (), d\<lparr>m_passwords := update_where (\<lambda>p. p_account p = account) (\<lambda>r. r\<lparr>p_login := login, p_hash := Some h,
            p_generation := Some generation, p_changed_at := Some now\<rparr>) (m_passwords d)\<rparr>)
      else if \<not> exists_where (\<lambda>a. a_id a = account) (m_accounts d) then (Inl ForeignKeyViolation, d)
      else (Inr (), d\<lparr>m_passwords := m_passwords d @ [\<lparr>p_account = account, p_login = login, p_hash = Some h,
            p_generation = Some generation, p_changed_at = Some now\<rparr>]\<rparr>))"

definition local_audit :: "timestamp \<Rightarrow> uuid \<Rightarrow> uuid \<Rightarrow> string \<Rightarrow> mdb \<Rightarrow> mdb" where
  "local_audit now request account act d =
     snd (insert_audit now (actor_columns_of (Some SystemActor)) request ''local'' act ''account'' account d)"

definition initialize_accounts :: "timestamp \<Rightarrow> uuid \<Rightarrow> uuid \<Rightarrow> uuid \<Rightarrow> string \<Rightarrow> string \<Rightarrow> string
    \<Rightarrow> (mdb, identity_error, uuid) eff" where
  "initialize_accounts now account generation request login name h = atomically (\<lambda>d.
     if m_accounts d \<noteq> [] then (Inl AlreadyInitialized, d)
     else try_eff (insert_account account name Admin) DatabaseError (\<lambda>_.
       try_eff (replace_password now generation account login h) DatabaseError (\<lambda>_ d.
         (Inr account, local_audit now request account ''account.initialize'' d))) d)"

definition recover_password :: "timestamp \<Rightarrow> uuid \<Rightarrow> uuid \<Rightarrow> uuid \<Rightarrow> string \<Rightarrow> string \<Rightarrow> (mdb, identity_error, unit) eff" where
  "recover_password now generation request account login h = atomically (\<lambda>d.
     if live_account account d = None then (Inl AccountInactive, d)
     else if (case find (\<lambda>p. p_account p = account) (m_passwords d) of Some p \<Rightarrow> p_login p \<noteq> login | None \<Rightarrow> False)
     then (Inl InvalidInput, d)
     else try_eff (replace_password now generation account login h) DatabaseError (\<lambda>_ d1.
       let d2 = d1\<lparr>m_setups := delete_where (\<lambda>t. su_account t = account) (m_setups d1)\<rparr>;
           d3 = revoke_sessions now (\<lambda>s. s_account s = account) d2;
           d4 = revoke_tokens now (\<lambda>c. t_account c = account) d3
       in (Inr (), local_audit now request account ''account.password_recover'' d4)) d)"

section \<open>password_setup.rs\<close>

record setup_info =
  sp_account :: uuid
  sp_login :: string
  sp_expires_at :: timestamp

definition SETUP_SECS :: int where
  "SETUP_SECS = 86400"

definition admin_password_session :: "timestamp \<Rightarrow> uuid \<Rightarrow> string \<Rightarrow> mdb \<Rightarrow> identity_error + audit_context" where
  "admin_password_session now request session_hash d = (case password_session now session_hash d of
      Inl e \<Rightarrow> Inl e
    | Inr actor \<Rightarrow> (case id_session actor of
        None \<Rightarrow> Inl InvalidInput
      | Some s \<Rightarrow>
          if role_of (c_actor (id_caller actor)) \<noteq> Admin then Inl Forbidden
          else Inr (session_context (id_account actor) (id_credential actor) (Some s) request)))"

definition reserve_login :: "uuid \<Rightarrow> string \<Rightarrow> (mdb, db_error, unit) eff" where
  "reserve_login account login d =
     (if \<not> login_check login then (Inl CheckViolation, d)
      else if exists_where (\<lambda>p. p_login p = login \<or> p_account p = account) (m_passwords d) then (Inl UniqueViolation, d)
      else (Inr (), d\<lparr>m_passwords := m_passwords d @ [\<lparr>p_account = account, p_login = login, p_hash = None,
            p_generation = None, p_changed_at = None\<rparr>]\<rparr>))"

text \<open>\<open>INSERT ... ON CONFLICT (account_id) DO UPDATE ... RETURNING expires_at\<close>; \<open>create\<close> uses it for a new account.\<close>

definition put_setup :: "timestamp \<Rightarrow> uuid \<Rightarrow> string \<Rightarrow> (mdb, db_error, timestamp) eff" where
  "put_setup now account tok_hash d =
     (let expires = now + secs SETUP_SECS;
          t = \<lparr>su_account = account, su_hash = tok_hash, su_created_at = now, su_expires_at = expires\<rparr>
      in if \<not> hex64 tok_hash then (Inl CheckViolation, d)
         else if exists_where (\<lambda>r. su_hash r = tok_hash \<and> su_account r \<noteq> account) (m_setups d) then (Inl UniqueViolation, d)
         else if exists_where (\<lambda>r. su_account r = account) (m_setups d)
         then (Inr expires, d\<lparr>m_setups := update_where (\<lambda>r. su_account r = account) (\<lambda>_. t) (m_setups d)\<rparr>)
         else (Inr expires, d\<lparr>m_setups := m_setups d @ [t]\<rparr>))"

definition create_setup :: "timestamp \<Rightarrow> uuid \<Rightarrow> uuid \<Rightarrow> string \<Rightarrow> string \<Rightarrow> role \<Rightarrow> string \<Rightarrow> string
    \<Rightarrow> (mdb, identity_error, setup_info) eff" where
  "create_setup now account request session_hash name role login tok_hash = atomically (\<lambda>d.
     case admin_password_session now request session_hash d of
       Inl e \<Rightarrow> (Inl e, d)
     | Inr context \<Rightarrow>
         try_eff (insert_account account name role) DatabaseError (\<lambda>_.
         try_eff (reserve_login account login) DatabaseError (\<lambda>_.
         try_eff (put_setup now account tok_hash) DatabaseError (\<lambda>expires d.
           let d1 = snd (record_audit now context ''account.create'' ''account'' account d);
               d2 = snd (record_audit now context ''account.password_setup.issue'' ''account'' account d1)
           in (Inr \<lparr>sp_account = account, sp_login = login, sp_expires_at = expires\<rparr>, d2)))) d)"

definition reserve_or_match :: "uuid \<Rightarrow> string \<Rightarrow> password_row option \<Rightarrow> (mdb, identity_error, unit) eff" where
  "reserve_or_match account login stored d = (case stored of
      Some p \<Rightarrow> if p_login p \<noteq> login then (Inl InvalidInput, d) else (Inr (), d)
    | None \<Rightarrow> try_eff (reserve_login account login) DatabaseError ret_ok d)"

definition issue_setup :: "timestamp \<Rightarrow> uuid \<Rightarrow> string \<Rightarrow> uuid \<Rightarrow> string \<Rightarrow> string \<Rightarrow> (mdb, identity_error, setup_info) eff" where
  "issue_setup now request session_hash account login tok_hash = atomically (\<lambda>d.
     case admin_password_session now request session_hash d of
       Inl e \<Rightarrow> (Inl e, d)
     | Inr context \<Rightarrow>
         let stored = find (\<lambda>p. p_account p = account) (m_passwords d)
         in (case find (\<lambda>a. a_id a = account) (m_accounts d) of
             None \<Rightarrow> (Inl NotFound, d)
           | Some a \<Rightarrow>
               if \<not> a_active a \<or> a_deleted_at a \<noteq> None then (Inl AccountInactive, d)
               else if (case stored of Some p \<Rightarrow> p_hash p \<noteq> None | None \<Rightarrow> False) then (Inl AlreadyInitialized, d)
               else try_eff (reserve_or_match account login stored) (\<lambda>e. e) (\<lambda>_.
                    try_eff (put_setup now account tok_hash) DatabaseError (\<lambda>expires d.
                      (Inr \<lparr>sp_account = account, sp_login = login, sp_expires_at = expires\<rparr>,
                       snd (record_audit now context ''account.password_setup.issue'' ''account'' account d)))) d))"

text \<open>The query that \<open>inspect\<close> and \<open>complete\<close> share.\<close>

definition open_setup :: "timestamp \<Rightarrow> string \<Rightarrow> mdb \<Rightarrow> (setup_row \<times> password_row) option" where
  "open_setup now tok_hash d =
     (case find (\<lambda>t. su_hash t = tok_hash \<and> now < su_expires_at t \<and> live_account (su_account t) d \<noteq> None \<and>
                     exists_where (\<lambda>p. p_account p = su_account t \<and> p_hash p = None) (m_passwords d)) (m_setups d) of
        None \<Rightarrow> None
      | Some t \<Rightarrow> map_option (\<lambda>p. (t, p)) (find (\<lambda>p. p_account p = su_account t \<and> p_hash p = None) (m_passwords d)))"

definition inspect_setup :: "timestamp \<Rightarrow> string \<Rightarrow> mdb \<Rightarrow> setup_info option" where
  "inspect_setup now tok_hash d =
     map_option (\<lambda>(t, p). \<lparr>sp_account = su_account t, sp_login = p_login p, sp_expires_at = su_expires_at t\<rparr>)
       (open_setup now tok_hash d)"

definition complete_setup :: "timestamp \<Rightarrow> uuid \<Rightarrow> uuid \<Rightarrow> string \<Rightarrow> string \<Rightarrow> (mdb, identity_error, uuid option) eff" where
  "complete_setup now generation request tok_hash h = atomically (\<lambda>d.
     case open_setup now tok_hash d of
       None \<Rightarrow> (Inr None, d)
     | Some (t, _) \<Rightarrow>
         let account = su_account t
         in try_eff (set_password now (\<lambda>p. p_account p = account \<and> p_hash p = None) h generation) DatabaseError (\<lambda>_ d1.
              let d2 = d1\<lparr>m_setups := delete_where (\<lambda>t. su_account t = account) (m_setups d1)\<rparr>
              in (Inr (Some account), snd (record_audit now (session_context account None None request)
                    ''account.password_setup.complete'' ''account'' account d2))) d)"

section \<open>personal\_tokens.rs and profile.rs\<close>

definition personal_session :: "timestamp \<Rightarrow> uuid \<Rightarrow> string \<Rightarrow> mdb \<Rightarrow> identity_error + (uuid \<times> audit_context)" where
  "personal_session now request session_hash d = (case password_session now session_hash d of
      Inl e \<Rightarrow> Inl e
    | Inr actor \<Rightarrow> (case id_session actor of
        None \<Rightarrow> Inl Unauthenticated
      | Some s \<Rightarrow> Inr (id_account actor, session_context (id_account actor) None (Some s) request)))"

definition issue_personal :: "timestamp \<Rightarrow> uuid \<Rightarrow> uuid \<Rightarrow> string \<Rightarrow> new_credential \<Rightarrow> (mdb, identity_error, credential) eff" where
  "issue_personal now i request session_hash key = atomically (\<lambda>d.
     case personal_session now request session_hash d of
       Inl e \<Rightarrow> (Inl e, d)
     | Inr (account, context) \<Rightarrow>
         try_eff (insert_key now i account key) (\<lambda>e. e)
           (\<lambda>issued d. (Inr issued, record_credential_audit now context ''credential.issue'' (cd_id issued) d)) d)"

definition revoke_personal :: "timestamp \<Rightarrow> uuid \<Rightarrow> string \<Rightarrow> uuid \<Rightarrow> (mdb, identity_error, bool) eff" where
  "revoke_personal now request session_hash i d =
     (case personal_session now request session_hash d of
        Inl e \<Rightarrow> (Inl e, d)
      | Inr (account, context) \<Rightarrow>
          if \<not> exists_where (\<lambda>c. t_id c = i \<and> t_account c = account) (m_tokens d) then (Inl NotFound, d)
          else revoke_credential now context i d)"

definition rename_profile :: "timestamp \<Rightarrow> uuid \<Rightarrow> string \<Rightarrow> string \<Rightarrow> (mdb, identity_error, bool) eff" where
  "rename_profile now request session_hash name d =
     (case password_session now session_hash d of
        Inl e \<Rightarrow> (Inl e, d)
      | Inr actor \<Rightarrow> change_account now (session_context (id_account actor) None (id_session actor) request)
          (id_account actor) (ChangeName name) d)"

section \<open>admission.rs\<close>

definition ATTEMPTS :: int where
  "ATTEMPTS = 60"

definition spend :: "timestamp \<Rightarrow> timestamp \<times> int \<Rightarrow> timestamp \<times> int" where
  "spend now b = (if fst b \<le> now - secs 60 then (now, 1) else (fst b, snd b + 1))"

definition has_budget :: "timestamp \<Rightarrow> timestamp \<times> int \<Rightarrow> bool" where
  "has_budget now b \<longleftrightarrow> snd b < ATTEMPTS \<or> fst b \<le> now - secs 60"

definition account_allowed :: "timestamp \<Rightarrow> uuid \<Rightarrow> purpose \<Rightarrow> mdb \<Rightarrow> bool \<times> mdb" where
  "account_allowed now account purpose d =
     (let mine = (\<lambda>b. b_account b = account \<and> b_purpose b = purpose)
      in if live_account account d = None then (False, d)
         else if \<not> exists_where mine (m_budgets d) then
           (True, d\<lparr>m_budgets := m_budgets d @ [\<lparr>b_account = account, b_purpose = purpose, b_window = now, b_attempts = 1\<rparr>]\<rparr>)
         else let hit = (\<lambda>b. mine b \<and> has_budget now (b_window b, b_attempts b))
              in (exists_where hit (m_budgets d),
                  d\<lparr>m_budgets := update_where hit (\<lambda>b. case spend now (b_window b, b_attempts b) of (w, n) \<Rightarrow>
                      b\<lparr>b_window := w, b_attempts := n\<rparr>) (m_budgets d)\<rparr>))"

definition anonymous_allowed :: "timestamp \<Rightarrow> mdb \<Rightarrow> bool \<times> mdb" where
  "anonymous_allowed now d =
     (if has_budget now (m_login_budget d) then (True, d\<lparr>m_login_budget := spend now (m_login_budget d)\<rparr>) else (False, d))"

end
