(* ===== verification/Passwords.thy ===== *)
theory Passwords
  imports Identity
begin

text \<open>
  \<open>management-service/src/passwords.rs\<close> and \<open>local_accounts.rs\<close>, with the service errors of \<open>lib.rs\<close>: the
  canonical user name, the password policy, hashing and verification, and the provisioning that only an
  operator of the server reaches. Unicode normalization and lower-casing, Argon2 and the PHC parser are
  parameters.
\<close>

section \<open>Errors of the service\<close>

datatype service_error =
    SvUnauthenticated | SvForbidden | SvNotFound | SvConflict | SvInvalidInput | SvRequestRejected | SvUnavailable
  | SvOutcomeUnknown | SvRateLimited

definition service_error_code :: "service_error \<Rightarrow> string" where
  "service_error_code e = (case e of
      SvUnauthenticated \<Rightarrow> ''unauthenticated''
    | SvForbidden \<Rightarrow> ''forbidden''
    | SvNotFound \<Rightarrow> ''not_found''
    | SvConflict \<Rightarrow> ''conflict''
    | SvInvalidInput \<Rightarrow> ''invalid_input''
    | SvRequestRejected \<Rightarrow> ''request_rejected''
    | SvUnavailable \<Rightarrow> ''unavailable''
    | SvOutcomeUnknown \<Rightarrow> ''outcome_unknown''
    | SvRateLimited \<Rightarrow> ''rate_limited'')"

definition service_error_of :: "identity_error \<Rightarrow> service_error" where
  "service_error_of e = (case e of
      Unauthenticated \<Rightarrow> SvUnauthenticated
    | Forbidden \<Rightarrow> SvForbidden
    | NotFound \<Rightarrow> SvNotFound
    | AlreadyInitialized \<Rightarrow> SvConflict
    | LastAdmin \<Rightarrow> SvConflict
    | AccountInactive \<Rightarrow> SvConflict
    | CredentialLimit \<Rightarrow> SvConflict
    | InvalidInput \<Rightarrow> SvInvalidInput
    | CommitUnknown \<Rightarrow> SvOutcomeUnknown
    | DatabaseError UniqueViolation \<Rightarrow> SvConflict
    | DatabaseError ForeignKeyViolation \<Rightarrow> SvConflict
    | DatabaseError CheckViolation \<Rightarrow> SvInvalidInput
    | DatabaseError _ \<Rightarrow> SvUnavailable)"

section \<open>passwords.rs\<close>

datatype password_error = InvalidUsername | InvalidLength | WeakPassword | Busy | InvalidHash | HashUnavailable

definition password_error_of :: "password_error \<Rightarrow> service_error" where
  "password_error_of e = (case e of
      InvalidUsername \<Rightarrow> SvInvalidInput
    | InvalidLength \<Rightarrow> SvInvalidInput
    | WeakPassword \<Rightarrow> SvInvalidInput
    | Busy \<Rightarrow> SvRateLimited
    | InvalidHash \<Rightarrow> SvUnavailable
    | HashUnavailable \<Rightarrow> SvUnavailable)"

record phc =
  ph_algorithm :: string
  ph_version :: "nat option"
  ph_m_cost :: nat
  ph_t_cost :: nat
  ph_p_cost :: nat
  ph_output_len :: "nat option"
  ph_keyid :: string
  ph_data :: string
  ph_salt :: "string option"

text \<open>
  \<open>pw_phc\<close> parses a PHC string with its Argon2 parameters; \<open>pw_hash\<close> hashes under a salt and may fail;
  \<open>pw_matches\<close> verifies a password against a PHC string that parses.
\<close>

record password_lib =
  pw_nfc :: "string \<Rightarrow> string"
  pw_lowercase :: "string \<Rightarrow> string"
  pw_phc :: "string \<Rightarrow> phc option"
  pw_hash :: "string \<Rightarrow> string \<Rightarrow> string option"
  pw_matches :: "string \<Rightarrow> string \<Rightarrow> bool"

definition is_ascii_alnum :: "char \<Rightarrow> bool" where
  "is_ascii_alnum c \<longleftrightarrow> is_lower c \<or> is_upper c \<or> is_digit c"

definition username :: "string \<Rightarrow> password_error + string" where
  "username value =
     (let v = map ascii_lower (trim value)
      in if \<not> (3 \<le> length v \<and> length v \<le> 64) \<or> \<not> is_ascii_alnum (hd v) \<or>
            \<not> list_all (\<lambda>c. is_ascii_alnum c \<or> c \<in> set ''._-'') v
         then Inl InvalidUsername else Inr v)"

definition MIN_CHARS :: nat where "MIN_CHARS = 15"
definition MAX_CHARS :: nat where "MAX_CHARS = 128"
definition MAX_INPUT_BYTES :: nat where "MAX_INPUT_BYTES = 1024"

definition normalize_password :: "password_lib \<Rightarrow> string \<Rightarrow> password_error + string" where
  "normalize_password L value =
     (if MAX_INPUT_BYTES < length value then Inl InvalidLength
      else let n = pw_nfc L value
           in if \<not> (MIN_CHARS \<le> char_count n \<and> char_count n \<le> MAX_CHARS) then Inl InvalidLength else Inr n)"

text \<open>\<open>str::chars\<close>: the encodings of the code points of a string.\<close>

function utf8_chars :: "string \<Rightarrow> string list" where
  "utf8_chars [] = []"
| "utf8_chars (b # bs) = (b # takeWhile (\<lambda>x. 128 \<le> code x \<and> code x \<le> 191) bs) #
     utf8_chars (dropWhile (\<lambda>x. 128 \<le> code x \<and> code x \<le> 191) bs)"
  by pat_completeness auto
termination
  by (relation "measure length") (auto simp: le_imp_less_Suc length_dropWhile_le)

definition COMMON_PASSWORDS :: "string list" where
  "COMMON_PASSWORDS = [''correct horse battery staple'', ''this is my password'', ''this is a password'', ''passwordpassword'',
     ''password123456789'', ''12345678901234567890'', ''qwertyuiopasdfghjkl'', ''grove storage password'']"

definition validate_new :: "password_lib \<Rightarrow> string \<Rightarrow> string \<Rightarrow> password_error + string" where
  "validate_new L value login = (case normalize_password L value of
      Inl e \<Rightarrow> Inl e
    | Inr v \<Rightarrow>
        let folded = pw_lowercase L (trim v); cs = utf8_chars folded
        in if folded = login \<or> (\<forall>c \<in> set cs. c = hd cs) \<or> folded \<in> set COMMON_PASSWORDS
           then Inl WeakPassword else Inr v)"

text \<open>A hashing worker is granted in time, not within the wait, or the pool is closed; its task may be lost.\<close>

datatype worker = Granted | WaitedTooLong | PoolClosed | TaskLost

definition with_worker :: "worker \<Rightarrow> (password_error + 'a) \<Rightarrow> password_error + 'a" where
  "with_worker w work = (case w of
      Granted \<Rightarrow> work
    | WaitedTooLong \<Rightarrow> Inl Busy
    | PoolClosed \<Rightarrow> Inl HashUnavailable
    | TaskLost \<Rightarrow> Inl HashUnavailable)"

definition hash_password :: "password_lib \<Rightarrow> worker \<Rightarrow> string \<Rightarrow> string \<Rightarrow> string \<Rightarrow> password_error + string" where
  "hash_password L w salt login password = (case username login of
      Inl e \<Rightarrow> Inl e
    | Inr u \<Rightarrow> (case validate_new L password u of
        Inl e \<Rightarrow> Inl e
      | Inr p \<Rightarrow> with_worker w (case pw_hash L salt p of None \<Rightarrow> Inl HashUnavailable | Some h \<Rightarrow> Inr h)))"

definition phc_supported :: "phc \<Rightarrow> bool" where
  "phc_supported p \<longleftrightarrow> ph_algorithm p = ''argon2id'' \<and> ph_version p = Some 19 \<and> ph_m_cost p = 19 * 1024 \<and>
     ph_t_cost p = 2 \<and> ph_p_cost p = 1 \<and> ph_output_len p = Some 32 \<and> ph_keyid p = [] \<and> ph_data p = [] \<and> ph_salt p \<noteq> None"

definition verify_password :: "password_lib \<Rightarrow> worker \<Rightarrow> string \<Rightarrow> string \<Rightarrow> password_error + bool" where
  "verify_password L w password h = (case normalize_password L password of
      Inr p \<Rightarrow> with_worker w (case pw_phc L h of
          None \<Rightarrow> Inl InvalidHash
        | Some x \<Rightarrow> if \<not> phc_supported x then Inl InvalidHash else Inr (pw_matches L p h))
    | Inl InvalidLength \<Rightarrow> Inr False
    | Inl e \<Rightarrow> Inl e)"

section \<open>local\_accounts.rs\<close>

definition local_initialize :: "password_lib \<Rightarrow> worker \<Rightarrow> string \<Rightarrow> timestamp \<Rightarrow> uuid \<Rightarrow> uuid \<Rightarrow> uuid \<Rightarrow> string \<Rightarrow> string \<Rightarrow> string
    \<Rightarrow> (mdb, service_error, uuid) eff" where
  "local_initialize L w salt now account generation request user display_name password d = (case username user of
      Inl e \<Rightarrow> (Inl (password_error_of e), d)
    | Inr login \<Rightarrow>
        let name = trim display_name
        in if name = [] \<or> 80 < char_count name then (Inl SvInvalidInput, d)
           else (case hash_password L w salt login password of
              Inl e \<Rightarrow> (Inl (password_error_of e), d)
            | Inr h \<Rightarrow> try_eff (initialize_accounts now account generation request login name h) service_error_of ret_ok d))"

definition local_recover :: "password_lib \<Rightarrow> worker \<Rightarrow> string \<Rightarrow> timestamp \<Rightarrow> uuid \<Rightarrow> uuid \<Rightarrow> uuid \<Rightarrow> string \<Rightarrow> string
    \<Rightarrow> (mdb, service_error, unit) eff" where
  "local_recover L w salt now generation request account user password d = (case username user of
      Inl e \<Rightarrow> (Inl (password_error_of e), d)
    | Inr login \<Rightarrow> (case hash_password L w salt login password of
        Inl e \<Rightarrow> (Inl (password_error_of e), d)
      | Inr h \<Rightarrow> try_eff (recover_password now generation request account login h) service_error_of ret_ok d))"

section \<open>User names have one form\<close>

lemma ascii_lower_alnum: "is_ascii_alnum (ascii_lower c) \<longleftrightarrow> is_ascii_alnum c"
  by (cases "65 \<le> code c \<and> code c \<le> 90")
    (auto simp: is_ascii_alnum_def ascii_lower_def is_lower_def is_upper_def is_digit_def code_def)

lemma ascii_lower_lower: "is_ascii_alnum (ascii_lower c) \<Longrightarrow> is_lower (ascii_lower c) \<or> is_digit (ascii_lower c)"
  by (cases "65 \<le> code c \<and> code c \<le> 90")
    (auto simp: is_ascii_alnum_def ascii_lower_def is_lower_def is_upper_def is_digit_def code_def)

lemma ascii_lower_idem [simp]: "ascii_lower (ascii_lower c) = ascii_lower c"
  by (cases "65 \<le> code c \<and> code c \<le> 90") (auto simp: ascii_lower_def code_def)

end
