(* ===== verification/Telemetry.thy ===== *)
theory Telemetry
  imports Identity
begin

text \<open>
  \<open>db/src/management/telemetry.rs\<close> over the tables \<open>command_invocations\<close> and \<open>security_events\<close>
  (migrations 0004, 0009 and 0010): the history of commands and the sampled stream of security events.
  The text of a uuid is a parameter.
\<close>

datatype stage =
    AtAuthentication | AtAuthorization | AtReauthentication | AtValidation | AtExecution | AtCommit | AtBrowserAdmission

definition stage_name :: "stage \<Rightarrow> string" where
  "stage_name s = (case s of
      AtAuthentication \<Rightarrow> ''authentication''
    | AtAuthorization \<Rightarrow> ''authorization''
    | AtReauthentication \<Rightarrow> ''reauthentication''
    | AtValidation \<Rightarrow> ''validation''
    | AtExecution \<Rightarrow> ''execution''
    | AtCommit \<Rightarrow> ''commit''
    | AtBrowserAdmission \<Rightarrow> ''browser_admission'')"

datatype login_method = PasswordLogin | SessionLogin | ApiTokenLogin

definition login_method_name :: "login_method \<Rightarrow> string" where
  "login_method_name m = (case m of PasswordLogin \<Rightarrow> ''password'' | SessionLogin \<Rightarrow> ''session'' | ApiTokenLogin \<Rightarrow> ''api_token'')"

record target =
  tg_kind :: string
  tg_id :: string

definition account_target :: "(uuid \<Rightarrow> string) \<Rightarrow> uuid \<Rightarrow> target" where
  "account_target uuid_text i = \<lparr>tg_kind = ''account'', tg_id = uuid_text i\<rparr>"

definition credential_target :: "(uuid \<Rightarrow> string) \<Rightarrow> uuid \<Rightarrow> target" where
  "credential_target uuid_text i = \<lparr>tg_kind = ''credential'', tg_id = uuid_text i\<rparr>"

definition session_target :: "(uuid \<Rightarrow> string) \<Rightarrow> uuid \<Rightarrow> target" where
  "session_target uuid_text i = \<lparr>tg_kind = ''session'', tg_id = uuid_text i\<rparr>"

definition resource_target :: "string \<Rightarrow> string \<Rightarrow> target option" where
  "resource_target kind i =
     (if kind \<in> {''storage'', ''client''} \<and> 1 \<le> length i \<and> length i \<le> 64 \<and>
         list_all (\<lambda>b. is_lower b \<or> is_digit b \<or> b = CHR ''-'') i \<and>
         (is_lower (hd i) \<or> is_upper (hd i) \<or> is_digit (hd i)) \<and>
         (is_lower (last i) \<or> is_upper (last i) \<or> is_digit (last i))
      then Some \<lparr>tg_kind = kind, tg_id = i\<rparr> else None)"

record details =
  dt_operation :: string
  dt_target :: "target option"
  dt_stage :: stage
  dt_method :: "login_method option"

definition new_details :: "string \<Rightarrow> stage \<Rightarrow> details" where
  "new_details operation st = \<lparr>dt_operation = operation, dt_target = None, dt_stage = st, dt_method = None\<rparr>"

datatype outcome = Succeeded | Denied | Failed | UnknownOutcome

definition outcome_name :: "outcome \<Rightarrow> string" where
  "outcome_name x = (case x of Succeeded \<Rightarrow> ''succeeded'' | Denied \<Rightarrow> ''denied'' | Failed \<Rightarrow> ''failed'' | UnknownOutcome \<Rightarrow> ''unknown'')"

datatype security_reason =
    ReasonAuthenticated | ReasonUnauthenticated | ReasonForbidden | ReasonUnavailable | ReasonRateLimited | ReasonSignedOut

definition reason_fields :: "security_reason \<Rightarrow> string \<times> string" where
  "reason_fields r = (case r of
      ReasonAuthenticated \<Rightarrow> (''authentication_succeeded'', ''authenticated'')
    | ReasonUnauthenticated \<Rightarrow> (''authentication_failed'', ''unauthenticated'')
    | ReasonForbidden \<Rightarrow> (''permission_denied'', ''forbidden'')
    | ReasonUnavailable \<Rightarrow> (''authentication_unavailable'', ''unavailable'')
    | ReasonRateLimited \<Rightarrow> (''authentication_rate_limited'', ''rate_limited'')
    | ReasonSignedOut \<Rightarrow> (''session_ended'', ''user_requested''))"

record invocation_row =
  iv_id :: nat
  iv_at :: timestamp
  iv_actor :: actor_columns
  iv_request :: uuid
  iv_surface :: string
  iv_operation :: string
  iv_outcome :: string
  iv_error :: "string option"
  iv_duration :: int
  iv_target :: "target option"
  iv_stage :: string
  iv_method :: "string option"

record security_row =
  se_id :: nat
  se_at :: timestamp
  se_actor :: actor_columns
  se_request :: uuid
  se_surface :: string
  se_event :: string
  se_reason :: string
  se_operation :: string
  se_stage :: string
  se_method :: "string option"
  se_sampled :: bool

text \<open>Each table with the next value of its identity column.\<close>

record history_db =
  hi_invocations :: "invocation_row list"
  hi_next_invocation :: nat
  hi_security :: "security_row list"
  hi_next_security :: nat

definition invocation_check :: "invocation_row \<Rightarrow> bool" where
  "invocation_check r \<longleftrightarrow> co_kind (iv_actor r) \<in> {''account'', ''system''} \<and>
     1 \<le> char_count (iv_operation r) \<and> char_count (iv_operation r) \<le> 80 \<and>
     (case iv_error r of None \<Rightarrow> True | Some e \<Rightarrow> 1 \<le> char_count e \<and> char_count e \<le> 80) \<and> 0 \<le> iv_duration r \<and>
     (case iv_target r of None \<Rightarrow> True | Some t \<Rightarrow>
        tg_kind t \<in> {''account'', ''credential'', ''session'', ''storage'', ''client''} \<and>
        1 \<le> char_count (tg_id t) \<and> char_count (tg_id t) \<le> 64)"

definition log_invocation :: "timestamp \<Rightarrow> audit_context \<Rightarrow> details \<Rightarrow> outcome \<Rightarrow> string option \<Rightarrow> nat
    \<Rightarrow> (history_db, identity_error, unit) eff" where
  "log_invocation now c dt result err duration_ms h =
     (let r = \<lparr>iv_id = hi_next_invocation h, iv_at = now, iv_actor = actor_columns_of (Some (ac_actor c)),
            iv_request = ac_request c, iv_surface = surface_name (ac_surface c), iv_operation = dt_operation dt,
            iv_outcome = outcome_name result, iv_error = err, iv_duration = min (int duration_ms) (2 ^ 63 - 1),
            iv_target = dt_target dt, iv_stage = stage_name (dt_stage dt),
            iv_method = map_option login_method_name (dt_method dt)\<rparr>
      in if \<not> invocation_check r then (Inl (DatabaseError CheckViolation), h)
         else (Inr (), h\<lparr>hi_invocations := hi_invocations h @ [r], hi_next_invocation := Suc (hi_next_invocation h)\<rparr>))"

definition security_event :: "timestamp \<Rightarrow> audit_context option \<Rightarrow> uuid \<Rightarrow> surface \<Rightarrow> security_reason \<Rightarrow> details
    \<Rightarrow> history_db \<Rightarrow> security_row" where
  "security_event now c request sf reason dt h =
     \<lparr>se_id = hi_next_security h, se_at = now, se_actor = actor_columns_of (map_option ac_actor c), se_request = request,
      se_surface = surface_name sf, se_event = fst (reason_fields reason), se_reason = snd (reason_fields reason),
      se_operation = dt_operation dt, se_stage = stage_name (dt_stage dt),
      se_method = map_option login_method_name (dt_method dt), se_sampled = (c = None)\<rparr>"

definition insert_security :: "security_row \<Rightarrow> (history_db, identity_error, unit) eff" where
  "insert_security r h =
     (if \<not> (1 \<le> char_count (se_operation r) \<and> char_count (se_operation r) \<le> 80) then (Inl (DatabaseError CheckViolation), h)
      else (Inr (), h\<lparr>hi_security := hi_security h @ [r], hi_next_security := Suc (hi_next_security h)\<rparr>))"

text \<open>\<open>locked\<close> tells whether the advisory lock of the surface and reason was free.\<close>

definition log_security :: "timestamp \<Rightarrow> bool \<Rightarrow> audit_context option \<Rightarrow> uuid \<Rightarrow> surface \<Rightarrow> security_reason \<Rightarrow> details
    \<Rightarrow> (history_db, identity_error, unit) eff" where
  "log_security now locked c request sf reason dt h =
     (let write = insert_security (security_event now c request sf reason dt h)
      in if c \<noteq> None then write h
         else if \<not> locked then (Inr (), h)
         else if exists_where (\<lambda>r. now - secs 60 < se_at r \<and> co_kind (se_actor r) = ''anonymous'' \<and>
                se_surface r = surface_name sf \<and> se_reason r = snd (reason_fields reason)) (hi_security h)
         then (Inr (), h) else write h)"

text \<open>
  Anonymous failures cannot flood the history: whatever anonymous callers do within a minute, each
  surface and reason leaves one row.
\<close>

definition sampled_at :: "surface \<Rightarrow> security_reason \<Rightarrow> timestamp \<Rightarrow> security_row \<Rightarrow> bool" where
  "sampled_at sf reason now r \<longleftrightarrow> now - secs 60 < se_at r \<and> co_kind (se_actor r) = ''anonymous'' \<and>
     se_surface r = surface_name sf \<and> se_reason r = snd (reason_fields reason)"

lemma log_security_sampled:
  assumes "log_security now locked None request sf reason dt h = (Inr (), h')"
  shows "h' = h \<or> (\<not> exists_where (sampled_at sf reason now) (hi_security h) \<and>
    (\<exists>r. hi_security h' = hi_security h @ [r] \<and> se_at r = now))"
  using assms
  by (auto simp: log_security_def insert_security_def sampled_at_def [abs_def] Let_def security_event_def split: if_splits)

end
