(* ===== verification/Identity_Queries.thy ===== *)
theory Identity_Queries
  imports Telemetry
begin

text \<open>
  The reads of the management plane: \<open>db/src/management/queries.rs\<close>, \<open>history.rs\<close>, \<open>profile::get\<close> and
  \<open>personal_tokens::list\<close>. SQL's \<open>lower\<close> and the text of a uuid are parameters.
\<close>

section \<open>queries.rs\<close>

record 'k page =
  pg_before :: "'k option"
  pg_limit :: nat

definition page_new :: "'k option \<Rightarrow> nat \<Rightarrow> identity_error + 'k page" where
  "page_new before limit =
     (if \<not> (1 \<le> limit \<and> limit \<le> 100) then Inl InvalidInput else Inr \<lparr>pg_before = before, pg_limit = limit\<rparr>)"

definition page_default :: "'k page" where
  "page_default = \<lparr>pg_before = None, pg_limit = 50\<rparr>"

datatype account_status = AnyStatus | CurrentOnly | ActiveOnly | DisabledOnly | DeletedOnly

record account_query =
  aq_page :: "uuid page"
  aq_after :: "uuid option"
  aq_search :: string
  aq_role :: "role option"
  aq_status :: account_status

definition account_query_of_page :: "uuid page \<Rightarrow> account_query" where
  "account_query_of_page p = \<lparr>aq_page = p, aq_after = None, aq_search = [], aq_role = None, aq_status = AnyStatus\<rparr>"

definition account_query_new :: "uuid page \<Rightarrow> uuid option \<Rightarrow> string \<Rightarrow> role option \<Rightarrow> account_status \<Rightarrow> identity_error + account_query" where
  "account_query_new p after search r st =
     (if (pg_before p \<noteq> None \<and> after \<noteq> None) \<or> 80 < char_count search then Inl InvalidInput
      else Inr \<lparr>aq_page = p, aq_after = after, aq_search = trim search, aq_role = r, aq_status = st\<rparr>)"

record account_summary =
  as_id :: uuid
  as_name :: string
  as_role :: role
  as_active :: bool
  as_deleted_at :: "timestamp option"
  as_login :: "string option"
  as_ready :: bool

definition summary_of :: "mdb \<Rightarrow> account_row \<Rightarrow> account_summary" where
  "summary_of d a =
     (let p = find (\<lambda>p. p_account p = a_id a) (m_passwords d)
      in \<lparr>as_id = a_id a, as_name = a_name a, as_role = a_role a, as_active = a_active a, as_deleted_at = a_deleted_at a,
          as_login = map_option p_login p, as_ready = (case p of None \<Rightarrow> False | Some p \<Rightarrow> p_hash p \<noteq> None)\<rparr>)"

definition account_in :: "uuid \<Rightarrow> mdb \<Rightarrow> identity_error + account_summary" where
  "account_in i d = (case find (\<lambda>a. a_id a = i) (m_accounts d) of None \<Rightarrow> Inl NotFound | Some a \<Rightarrow> Inr (summary_of d a))"

definition status_matches :: "account_status \<Rightarrow> account_row \<Rightarrow> bool" where
  "status_matches st a = (case st of
      AnyStatus \<Rightarrow> True
    | CurrentOnly \<Rightarrow> a_deleted_at a = None
    | ActiveOnly \<Rightarrow> a_deleted_at a = None \<and> a_active a
    | DisabledOnly \<Rightarrow> a_deleted_at a = None \<and> \<not> a_active a
    | DeletedOnly \<Rightarrow> a_deleted_at a \<noteq> None)"

definition search_matches :: "(string \<Rightarrow> string) \<Rightarrow> (uuid \<Rightarrow> string) \<Rightarrow> string \<Rightarrow> mdb \<Rightarrow> account_row \<Rightarrow> bool" where
  "search_matches lower uuid_text search d a \<longleftrightarrow> search = [] \<or>
     sublist (lower search) (lower (a_name a)) \<or> sublist (lower search) (uuid_text (a_id a)) \<or>
     sublist (lower search) (case find (\<lambda>p. p_account p = a_id a) (m_passwords d) of None \<Rightarrow> [] | Some p \<Rightarrow> p_login p)"

definition account_selected :: "(string \<Rightarrow> string) \<Rightarrow> (uuid \<Rightarrow> string) \<Rightarrow> account_query \<Rightarrow> mdb \<Rightarrow> account_row \<Rightarrow> bool" where
  "account_selected lower uuid_text q d a \<longleftrightarrow>
     (case pg_before (aq_page q) of None \<Rightarrow> True | Some b \<Rightarrow> a_id a < b) \<and>
     (case aq_after q of None \<Rightarrow> True | Some b \<Rightarrow> b < a_id a) \<and>
     search_matches lower uuid_text (aq_search q) d a \<and>
     (case aq_role q of None \<Rightarrow> True | Some r \<Rightarrow> a_role a = r) \<and> status_matches (aq_status q) a"

record account_page =
  ap_items :: "account_summary list"
  ap_next_before :: "uuid option"
  ap_previous_after :: "uuid option"
  ap_initialized :: bool

definition option_or :: "'a option \<Rightarrow> 'a option \<Rightarrow> 'a option" where
  "option_or a b = (case a of None \<Rightarrow> b | Some _ \<Rightarrow> a)"

definition list_accounts :: "(string \<Rightarrow> string) \<Rightarrow> (uuid \<Rightarrow> string) \<Rightarrow> account_query \<Rightarrow> mdb \<Rightarrow> account_page" where
  "list_accounts lower uuid_text q d =
     (let limit = pg_limit (aq_page q);
          ascending = sort_key a_id (filter (account_selected lower uuid_text q d) (m_accounts d));
          ordered = (if aq_after q \<noteq> None then ascending else rev ascending);
          rows = take (limit + 1) ordered;
          more = limit < length rows;
          kept = take limit rows;
          items = map (summary_of d) (if aq_after q \<noteq> None then rev kept else kept);
          first_id = (case items of [] \<Rightarrow> None | x # _ \<Rightarrow> Some (as_id x));
          last_id = (if items = [] then None else Some (as_id (last items)))
      in \<lparr>ap_items = items,
          ap_next_before = (if aq_after q \<noteq> None \<or> more then option_or last_id (aq_after q) else None),
          ap_previous_after = (if pg_before (aq_page q) \<noteq> None \<or> (aq_after q \<noteq> None \<and> more)
                               then option_or first_id (pg_before (aq_page q)) else None),
          ap_initialized = (m_accounts d \<noteq> [])\<rparr>)"

record credential_summary =
  cs_id :: uuid
  cs_account :: uuid
  cs_label :: string
  cs_prefix :: string
  cs_created_at :: timestamp
  cs_expires_at :: timestamp
  cs_revoked_at :: "timestamp option"

record session_summary =
  ss_id :: uuid
  ss_credential :: "uuid option"
  ss_created_at :: timestamp
  ss_expires_at :: timestamp
  ss_revoked_at :: "timestamp option"

text \<open>\<open>ORDER BY id DESC LIMIT\<close> of the rows before a key.\<close>

definition newest_first :: "('r \<Rightarrow> 'k :: linorder) \<Rightarrow> 'k page \<Rightarrow> 'r list \<Rightarrow> 'r list" where
  "newest_first key p rows = take (pg_limit p) (rev (sort_key key
     (filter (\<lambda>r. case pg_before p of None \<Rightarrow> True | Some b \<Rightarrow> key r < b) rows)))"

definition account_credentials :: "uuid \<Rightarrow> uuid page \<Rightarrow> mdb \<Rightarrow> credential_summary list" where
  "account_credentials account p d =
     map (\<lambda>c. \<lparr>cs_id = t_id c, cs_account = t_account c, cs_label = t_label c, cs_prefix = t_prefix c,
            cs_created_at = t_created_at c, cs_expires_at = t_expires_at c, cs_revoked_at = t_revoked_at c\<rparr>)
       (newest_first t_id p (filter (\<lambda>c. t_account c = account) (m_tokens d)))"

definition account_sessions :: "uuid \<Rightarrow> uuid page \<Rightarrow> mdb \<Rightarrow> session_summary list" where
  "account_sessions account p d =
     map (\<lambda>s. \<lparr>ss_id = s_id s, ss_credential = s_credential s, ss_created_at = s_created_at s,
            ss_expires_at = s_expires_at s, ss_revoked_at = s_revoked_at s\<rparr>)
       (newest_first s_id p (filter (\<lambda>s. s_account s = account) (m_sessions d)))"

section \<open>profile.rs and personal\_tokens.rs, the reads\<close>

definition profile_get :: "timestamp \<Rightarrow> string \<Rightarrow> mdb \<Rightarrow> identity_error + account_summary" where
  "profile_get now session_hash d = (case password_session now session_hash d of
      Inl e \<Rightarrow> Inl e
    | Inr actor \<Rightarrow> account_in (id_account actor) d)"

definition personal_list :: "timestamp \<Rightarrow> uuid \<Rightarrow> string \<Rightarrow> uuid page \<Rightarrow> mdb \<Rightarrow> identity_error + credential_summary list" where
  "personal_list now request session_hash p d = (case personal_session now request session_hash d of
      Inl e \<Rightarrow> Inl e
    | Inr (account, _) \<Rightarrow> Inr (account_credentials account p d))"

section \<open>history.rs\<close>

datatype invocation_category = AllInvocations | ManagementOnly | AuthenticationOnly

record history_query =
  hq_page :: "nat page"
  hq_account :: "uuid option"
  hq_credential :: "uuid option"
  hq_operation :: "uuid option"
  hq_category :: invocation_category

definition history_query_of_page :: "nat page \<Rightarrow> history_query" where
  "history_query_of_page p = \<lparr>hq_page = p, hq_account = None, hq_credential = None, hq_operation = None, hq_category = AllInvocations\<rparr>"

datatype history_scope = WholeInstallation | OneUser uuid

definition scope_user :: "history_scope \<Rightarrow> uuid option" where
  "scope_user s = (case s of WholeInstallation \<Rightarrow> None | OneUser i \<Rightarrow> Some i)"

definition sql_matches :: "'a option \<Rightarrow> 'a option \<Rightarrow> bool" where
  "sql_matches wanted column \<longleftrightarrow> (case wanted of None \<Rightarrow> True | Some x \<Rightarrow> column = Some x)"

definition history_selected :: "uuid option \<Rightarrow> history_query \<Rightarrow> uuid option \<Rightarrow> uuid option \<Rightarrow> uuid \<Rightarrow> bool" where
  "history_selected user q actor credential request \<longleftrightarrow> sql_matches user actor \<and> sql_matches (hq_account q) actor \<and>
     sql_matches (hq_credential q) credential \<and> sql_matches (hq_operation q) (Some request)"

definition audit_history :: "history_scope \<Rightarrow> history_query \<Rightarrow> mdb \<Rightarrow> audit_row list" where
  "audit_history sc q d = newest_first au_id (hq_page q)
     (filter (\<lambda>r. history_selected (scope_user sc) q (au_actor r) (au_credential r) (au_request r)) (m_audit d))"

definition category_matches :: "invocation_category \<Rightarrow> string \<Rightarrow> bool" where
  "category_matches c operation = (case c of
      AllInvocations \<Rightarrow> True
    | ManagementOnly \<Rightarrow> \<not> prefix ''identity.session.'' operation
    | AuthenticationOnly \<Rightarrow> prefix ''identity.session.'' operation)"

definition invocation_history :: "history_scope \<Rightarrow> history_query \<Rightarrow> history_db \<Rightarrow> invocation_row list" where
  "invocation_history sc q h = newest_first iv_id (hq_page q)
     (filter (\<lambda>r. history_selected (scope_user sc) q (co_actor (iv_actor r)) (co_credential (iv_actor r)) (iv_request r) \<and>
        category_matches (hq_category q) (iv_operation r)) (hi_invocations h))"

definition security_history :: "history_query \<Rightarrow> history_db \<Rightarrow> security_row list" where
  "security_history q h = newest_first se_id (hq_page q)
     (filter (\<lambda>r. history_selected None q (co_actor (se_actor r)) (co_credential (se_actor r)) (se_request r)) (hi_security h))"

section \<open>Pages\<close>

text \<open>A user's history shows only that user's events, whatever the filters say; pages are bounded.\<close>

lemma newest_first_bounded: "length (newest_first key p rows) \<le> pg_limit p"
  by (simp add: newest_first_def)

lemma newest_first_subset: "set (newest_first key p rows) \<subseteq> set rows"
  unfolding newest_first_def by (rule order_trans [OF set_take_subset]) auto

lemma own_audit_history: "r \<in> set (audit_history (OneUser i) q d) \<Longrightarrow> au_actor r = Some i"
  unfolding audit_history_def using newest_first_subset
  by (fastforce simp: history_selected_def scope_user_def sql_matches_def)

lemma own_invocation_history: "r \<in> set (invocation_history (OneUser i) q h) \<Longrightarrow> co_actor (iv_actor r) = Some i"
  unfolding invocation_history_def using newest_first_subset
  by (fastforce simp: history_selected_def scope_user_def sql_matches_def)

text \<open>
  Following \<open>next\_before\<close> from the first page visits every row once: what the cursor skips is exactly what
  the page showed.
\<close>

lemma sort_key_by_key: "distinct (map key rows) \<Longrightarrow> distinct (map key (sort_key key rows))"
  by (simp add: distinct_map)

lemma newest_first_next:
  assumes "distinct (map key rows)" "newest_first key p rows \<noteq> []"
  shows "set rows \<inter> {r. case pg_before p of None \<Rightarrow> True | Some b \<Rightarrow> key r < b} =
    set (newest_first key p rows) \<union> {r \<in> set rows. key r < key (last (newest_first key p rows))}"
proof -
  define q where "q = (\<lambda>r. case pg_before p of None \<Rightarrow> True | Some b \<Rightarrow> key r < b)"
  let ?R = "filter q rows"
  let ?S = "rev (sort_key key ?R)"
  let ?T = "take (pg_limit p) ?S" and ?D = "drop (pg_limit p) ?S"
  have T: "newest_first key p rows = ?T" by (simp add: newest_first_def q_def)
  have "distinct (map key (sort_key key ?R))" by (rule sort_key_by_key) (simp add: assms(1) distinct_map_filter)
  then have "sorted_wrt (<) (map key (sort_key key ?R))" by (simp add: strict_sorted_iff)
  then have "sorted_wrt (\<lambda>x y. y < x) (rev (map key (sort_key key ?R)))" by (simp add: sorted_wrt_rev)
  then have "sorted_wrt (\<lambda>x y. key y < key x) (?T @ ?D)" by (simp add: rev_map sorted_wrt_map)
  then have "sorted_wrt (\<lambda>x y. key y < key x) ?T" "\<forall>x \<in> set ?T. \<forall>y \<in> set ?D. key y < key x"
    unfolding sorted_wrt_append by blast+
  moreover have ne: "?T \<noteq> []" using assms(2) T by simp
  ultimately have low: "\<forall>y \<in> set ?D. key y < key (last ?T)" and high: "\<forall>x \<in> set ?T. \<not> key x < key (last ?T)"
  proof -
    show "\<forall>y \<in> set ?D. key y < key (last ?T)"
      using \<open>\<forall>x \<in> set ?T. \<forall>y \<in> set ?D. key y < key x\<close> last_in_set [OF ne] by blast
    have "sorted_wrt (\<lambda>x y. key y < key x) (butlast ?T @ [last ?T])"
      using \<open>sorted_wrt (\<lambda>x y. key y < key x) ?T\<close> append_butlast_last_id [OF ne] by simp
    then have "\<forall>x \<in> set (butlast ?T). key (last ?T) < key x" by (simp add: sorted_wrt_append)
    moreover have "set ?T = set (butlast ?T @ [last ?T])" by (simp only: append_butlast_last_id [OF ne])
    ultimately show "\<forall>x \<in> set ?T. \<not> key x < key (last ?T)" by auto
  qed
  have all: "set ?R = set ?T \<union> set ?D"
    by (metis append_take_drop_id set_append set_rev set_sort)
  have "last ?T \<in> set ?R" using last_in_set [OF ne] all by blast
  then have below: "q r" if "key r < key (last ?T)" for r
    using that by (auto simp: q_def split: option.splits)
  have "set ?D = {r \<in> set ?R. key r < key (last ?T)}" using all low high by blast
  also have "\<dots> = {r \<in> set rows. key r < key (last ?T)}" using below unfolding set_filter by blast
  finally have D: "set ?D = {r \<in> set rows. key r < key (last ?T)}" .
  have "set rows \<inter> {r. q r} = set ?R" unfolding set_filter by blast
  then have "set rows \<inter> {r. q r} = set ?T \<union> {r \<in> set rows. key r < key (last ?T)}" unfolding all D .
  then show ?thesis unfolding T q_def .
qed

end
