(* ===== verification/Management_Service.thy ===== *)
theory Management_Service
  imports Passwords Identity_Queries Command_Catalog
begin

text \<open>
  The services of \<open>management-service/src\<close> between the transports and the transactions of the management
  tables: the history they write (\<open>logging.rs\<close>), console login (\<open>sessions.rs\<close>), password setup and change
  (\<open>password_setups.rs\<close>, \<open>password_changes.rs\<close>), personal tokens and profiles, and the console commands
  (\<open>command.rs\<close>, \<open>dispatch.rs\<close>, \<open>lib.rs\<close>).

  An operation is a sequence of numbered steps on the database. The environment says for every step when
  it happens, what other transactions did before it, whether the connection breaks, and for every hash and
  history write whether it gets through. A connection breaks before or after the work of a step; a
  statement of its own then has taken effect or not, a transaction is rolled back. The outcome of a commit
  may stay unknown, applied or not.
\<close>

section \<open>Steps\<close>

datatype link = Answered | Broken bool | CommitLost bool

record service_env =
  ev_lib :: password_lib
  ev_uuid_text :: "uuid \<Rightarrow> string"
  ev_now :: "nat \<Rightarrow> timestamp"
  ev_between :: "nat \<Rightarrow> mdb \<times> history_db \<Rightarrow> mdb \<times> history_db"
  ev_link :: "nat \<Rightarrow> link"
  ev_worker :: "nat \<Rightarrow> worker"
  ev_salt :: "nat \<Rightarrow> string"
  ev_ids :: "nat \<Rightarrow> uuid"
  ev_written :: "nat \<Rightarrow> bool"
  ev_sampling :: "nat \<Rightarrow> bool"
  ev_elapsed_ms :: nat

record service =
  sv_db :: mdb
  sv_history :: history_db
  sv_details :: details

definition others :: "service_env \<Rightarrow> nat \<Rightarrow> service \<Rightarrow> service" where
  "others E k v = (case ev_between E k (sv_db v, sv_history v) of (d, h) \<Rightarrow> v\<lparr>sv_db := d, sv_history := h\<rparr>)"

text \<open>A single statement outside a transaction.\<close>

definition statement :: "service_env \<Rightarrow> nat \<Rightarrow> (timestamp \<Rightarrow> mdb \<Rightarrow> 'a \<times> mdb) \<Rightarrow> (service, service_error, 'a) eff" where
  "statement E k op v =
     (let v1 = others E k v; (a, d) = op (ev_now E k) (sv_db v1)
      in case ev_link E k of
          Broken late \<Rightarrow> (Inl SvUnavailable, if late then v1\<lparr>sv_db := d\<rparr> else v1)
        | _ \<Rightarrow> (Inr a, v1\<lparr>sv_db := d\<rparr>))"

definition reading :: "service_env \<Rightarrow> nat \<Rightarrow> (timestamp \<Rightarrow> mdb \<Rightarrow> 'a) \<Rightarrow> (service, service_error, 'a) eff" where
  "reading E k f = statement E k (\<lambda>now d. (f now d, d))"

text \<open>A transaction; \<open>commits\<close> tells which results it commits, the others are returned before the commit.\<close>

definition in_transaction :: "service_env \<Rightarrow> nat \<Rightarrow> ('a \<Rightarrow> bool) \<Rightarrow> (timestamp \<Rightarrow> (mdb, identity_error, 'a) eff)
    \<Rightarrow> (service, service_error, 'a) eff" where
  "in_transaction E k commits op v =
     (let v1 = others E k v
      in if \<exists>late. ev_link E k = Broken late then (Inl SvUnavailable, v1)
         else case op (ev_now E k) (sv_db v1) of
             (Inl e, _) \<Rightarrow> (Inl (service_error_of e), v1)
           | (Inr a, d) \<Rightarrow> (case ev_link E k of
                 CommitLost applied \<Rightarrow>
                   if commits a then (Inl SvOutcomeUnknown, if applied then v1\<lparr>sv_db := d\<rparr> else v1) else (Inr a, v1)
               | _ \<Rightarrow> (Inr a, v1\<lparr>sv_db := d\<rparr>)))"

text \<open>Rust's \<open>?\<close> on a result that touches no state.\<close>

definition pure_step :: "service_error + 'a \<Rightarrow> (service, service_error, 'a) eff" where
  "pure_step r v = (r, v)"

definition set_stage :: "stage \<Rightarrow> service \<Rightarrow> service" where
  "set_stage st v = v\<lparr>sv_details := (sv_details v)\<lparr>dt_stage := st\<rparr>\<rparr>"

definition set_target :: "target option \<Rightarrow> service \<Rightarrow> service" where
  "set_target t v = v\<lparr>sv_details := (sv_details v)\<lparr>dt_target := t\<rparr>\<rparr>"

definition set_method :: "login_method \<Rightarrow> service \<Rightarrow> service" where
  "set_method m v = v\<lparr>sv_details := (sv_details v)\<lparr>dt_method := Some m\<rparr>\<rparr>"

definition update_service :: "(service \<Rightarrow> service) \<Rightarrow> (service, service_error, unit) eff" where
  "update_service f v = (Inr (), f v)"

section \<open>logging.rs\<close>

definition identity_context :: "identity \<Rightarrow> uuid \<Rightarrow> surface \<Rightarrow> audit_context" where
  "identity_context i request sf =
     \<lparr>ac_actor = AccountActor (id_account i) (id_credential i) (id_session i), ac_request = request, ac_surface = sf\<rparr>"

definition proof_details :: "string \<Rightarrow> proof_of_identity \<Rightarrow> details" where
  "proof_details operation pr = (new_details operation AtAuthentication)\<lparr>dt_method := Some (case pr of
      SessionProof _ \<Rightarrow> SessionLogin | PasswordSessionProof _ \<Rightarrow> SessionLogin | TokenProof _ \<Rightarrow> ApiTokenLogin)\<rparr>"

definition SUCCESSES :: "string list" where
  "SUCCESSES = [''identity.account.create'', ''identity.account.name'', ''identity.account.role'', ''identity.account.active'',
     ''identity.account.delete'', ''identity.account.password_setup.issue'', ''identity.credential.issue'',
     ''identity.credential.revoke'', ''identity.credential.list'', ''identity.session.login'', ''identity.session.logout'',
     ''identity.session.revoke'', ''account.password_change'']"

definition records_success :: "string \<Rightarrow> bool" where
  "records_success operation = (case parse_command operation of
      Some n \<Rightarrow> command_effect n = MutationEffect \<or> n \<in> {StorageTest, CredentialList, ClientKeyList}
    | None \<Rightarrow> operation \<in> set SUCCESSES)"

text \<open>The history writes are the steps from 90 on: a write that fails or exceeds \<open>LOG_TIMEOUT\<close> changes no result.\<close>

definition REAUTH_LOG :: nat where "REAUTH_LOG = 90"
definition INVOCATION_LOG :: nat where "INVOCATION_LOG = 91"
definition SECURITY_LOG :: nat where "SECURITY_LOG = 92"
definition FINAL_LOG :: nat where "FINAL_LOG = 93"

definition write_history :: "service_env \<Rightarrow> nat \<Rightarrow> (timestamp \<Rightarrow> (history_db, identity_error, unit) eff) \<Rightarrow> service \<Rightarrow> service" where
  "write_history E k op v =
     (let v1 = others E k v
      in if ev_written E k then v1\<lparr>sv_history := snd (op (ev_now E k) (sv_history v1))\<rparr> else v1)"

definition record_security :: "service_env \<Rightarrow> nat \<Rightarrow> audit_context option \<Rightarrow> uuid \<Rightarrow> surface \<Rightarrow> security_reason \<Rightarrow> service \<Rightarrow> service" where
  "record_security E k c request sf reason v =
     write_history E k (\<lambda>now. log_security now (ev_sampling E k) c request sf reason (sv_details v)) v"

definition outcome_of :: "service_error option \<Rightarrow> outcome \<times> string option" where
  "outcome_of e = (case e of
      None \<Rightarrow> (Succeeded, None)
    | Some SvForbidden \<Rightarrow> (Denied, Some (service_error_code SvForbidden))
    | Some SvOutcomeUnknown \<Rightarrow> (UnknownOutcome, Some (service_error_code SvOutcomeUnknown))
    | Some e \<Rightarrow> (Failed, Some (service_error_code e)))"

definition reason_of :: "stage \<Rightarrow> service_error option \<Rightarrow> security_reason option" where
  "reason_of st e = (case e of
      Some SvUnauthenticated \<Rightarrow> Some ReasonUnauthenticated
    | Some SvForbidden \<Rightarrow> Some ReasonForbidden
    | Some SvRateLimited \<Rightarrow> Some ReasonRateLimited
    | Some SvUnavailable \<Rightarrow> if st \<in> {AtAuthentication, AtReauthentication} then Some ReasonUnavailable else None
    | _ \<Rightarrow> None)"

definition error_of :: "service_error + 'a \<Rightarrow> service_error option" where
  "error_of r = (case r of Inl e \<Rightarrow> Some e | Inr _ \<Rightarrow> None)"

definition record_result :: "service_env \<Rightarrow> audit_context option \<Rightarrow> uuid \<Rightarrow> surface \<Rightarrow> service_error option \<Rightarrow> service \<Rightarrow> service" where
  "record_result E c request sf e v =
     (let dt = sv_details v;
          v1 = (case c of
              Some ctx \<Rightarrow> if e \<noteq> None \<or> records_success (dt_operation dt)
                then write_history E INVOCATION_LOG (\<lambda>now. log_invocation now ctx dt (fst (outcome_of e)) (snd (outcome_of e)) (ev_elapsed_ms E)) v
                else v
            | None \<Rightarrow> v)
      in case reason_of (dt_stage dt) e of
          None \<Rightarrow> v1
        | Some reason \<Rightarrow> record_security E SECURITY_LOG c request sf reason v1)"

text \<open>\<open>reauthenticated\<close>\<close>

definition record_reauthenticated :: "service_env \<Rightarrow> uuid \<Rightarrow> identity \<Rightarrow> service \<Rightarrow> service" where
  "record_reauthenticated E request actor =
     record_security E REAUTH_LOG (Some (identity_context actor request Console)) request Console ReasonAuthenticated"

text \<open>The steps of the work are numbered from 1.\<close>

definition session_operation :: "service_env \<Rightarrow> uuid \<Rightarrow> string \<Rightarrow> details \<Rightarrow> (service, service_error, 'a) eff
    \<Rightarrow> (service, service_error, 'a) eff" where
  "session_operation E request session_hash dt work v =
     (let (found, v1) = reading E 0 (\<lambda>now. session_identity now session_hash) (v\<lparr>sv_details := dt\<rparr>);
          context = (case found of Inr (Some i) \<Rightarrow> Some (identity_context i request Console) | _ \<Rightarrow> None);
          v2 = set_method SessionLogin v1;
          v3 = (case found of
              Inr (Some i) \<Rightarrow>
                if dt_target dt = None \<and> dt_operation dt \<noteq> ''identity.account.create''
                then set_target (Some (account_target (ev_uuid_text E) (id_account i))) (set_stage AtExecution v2)
                else set_stage AtExecution v2
            | _ \<Rightarrow> v2);
          (result, v4) = work v3;
          v5 = (if error_of result = Some SvOutcomeUnknown then set_stage AtCommit v4 else v4)
      in (result, record_result E context request Console (error_of result) v5))"

section \<open>sessions.rs\<close>

definition DUMMY_HASH :: string where
  "DUMMY_HASH = ''$argon2id$v=19$m=19456,t=2,p=1$c29tZXJhbmRvbXNhbHQ$AAAAAAAAAAAAAAAAAAAAAAAAAAAAAAAAAAAAAAAAAAA''"

definition reject_browser :: "service_env \<Rightarrow> uuid \<Rightarrow> service_error \<Rightarrow> service \<Rightarrow> service" where
  "reject_browser E request e v =
     record_security E SECURITY_LOG None request Console (if e = SvForbidden then ReasonForbidden else ReasonUnauthenticated)
       (v\<lparr>sv_details := (new_details ''console.request'' AtBrowserAdmission)\<lparr>dt_method := Some SessionLogin\<rparr>\<rparr>)"

definition record_login :: "service_env \<Rightarrow> uuid \<Rightarrow> login_method \<Rightarrow> service_error + session_info \<Rightarrow> service \<Rightarrow> service" where
  "record_login E request method result v =
     (let dt = (new_details ''identity.session.login'' AtAuthentication)\<lparr>dt_method := Some method\<rparr>;
          dt1 = (case result of
              Inr s \<Rightarrow> dt\<lparr>dt_target := Some (session_target (ev_uuid_text E) (si_id s))\<rparr>
            | Inl SvOutcomeUnknown \<Rightarrow> dt\<lparr>dt_stage := AtCommit\<rparr>
            | Inl _ \<Rightarrow> dt);
          context = (case result of
              Inr s \<Rightarrow> Some (session_context (si_account s) (si_credential s) (Some (si_id s)) request)
            | Inl _ \<Rightarrow> None);
          v1 = record_result E context request Console (error_of result) (v\<lparr>sv_details := dt1\<rparr>)
      in case result of
          Inr _ \<Rightarrow> record_security E FINAL_LOG context request Console ReasonAuthenticated v1
        | Inl _ \<Rightarrow> v1)"

definition require_some :: "service_error \<Rightarrow> 'a option \<Rightarrow> (service, service_error, 'a) eff" where
  "require_some e x = pure_step (case x of None \<Rightarrow> Inl e | Some a \<Rightarrow> Inr a)"

definition admit :: "bool \<Rightarrow> (service, service_error, unit) eff" where
  "admit allowed = pure_step (if allowed then Inr () else Inl SvRateLimited)"

definition check_password :: "service_env \<Rightarrow> nat \<Rightarrow> string \<Rightarrow> string \<Rightarrow> (service, service_error, bool) eff" where
  "check_password E k password h =
     pure_step (case verify_password (ev_lib E) (ev_worker E k) password h of Inl e \<Rightarrow> Inl (password_error_of e) | Inr b \<Rightarrow> Inr b)"

definition login_row :: "service_env \<Rightarrow> string \<Rightarrow> (service, service_error, password_credential option) eff" where
  "login_row E user = (case username user of
      Inl _ \<Rightarrow> pure_step (Inr None)
    | Inr login \<Rightarrow> reading E 0 (\<lambda>_. find_password login))"

definition login_budget :: "service_env \<Rightarrow> password_credential option \<Rightarrow> (service, service_error, bool) eff" where
  "login_budget E stored = (case stored of
      Some c \<Rightarrow> statement E 1 (\<lambda>now. account_allowed now (pc_account c) Login)
    | None \<Rightarrow> statement E 1 anonymous_allowed)"

definition password_exchange :: "service_env \<Rightarrow> uuid \<Rightarrow> string \<Rightarrow> string \<Rightarrow> string \<Rightarrow> (service, service_error, session_info) eff" where
  "password_exchange E request user password session_hash =
     try_eff (login_row E user) id (\<lambda>stored.
     try_eff (login_budget E stored) id (\<lambda>allowed.
     try_eff (admit allowed) id (\<lambda>_.
     try_eff (check_password E 2 password (case stored of None \<Rightarrow> DUMMY_HASH | Some c \<Rightarrow> pc_hash c)) id (\<lambda>verified.
     try_eff (require_some SvUnauthenticated (if verified then stored else None)) id (\<lambda>c.
     try_eff (in_transaction E 3 (\<lambda>x. x \<noteq> None) (\<lambda>now. create_password_session now (ev_ids E 0) request (pc_account c)
                (pc_generation c) session_hash)) id (\<lambda>session.
       require_some SvUnauthenticated session))))))"

definition token_exchange :: "service_env \<Rightarrow> uuid \<Rightarrow> string option \<Rightarrow> string \<Rightarrow> (service, service_error, session_info) eff" where
  "token_exchange E request token_hash session_hash =
     try_eff (statement E 0 anonymous_allowed) id (\<lambda>allowed.
     try_eff (admit allowed) id (\<lambda>_.
     try_eff (require_some SvUnauthenticated token_hash) id (\<lambda>h.
     try_eff (in_transaction E 1 (\<lambda>x. x \<noteq> None) (\<lambda>now. create_session now (ev_ids E 0) request h session_hash)) id (\<lambda>session.
       require_some SvUnauthenticated session))))"

definition login_token :: "service_env \<Rightarrow> uuid \<Rightarrow> string option \<Rightarrow> string \<Rightarrow> (service, service_error, session_info) eff" where
  "login_token E request token_hash session_hash v =
     (case token_exchange E request token_hash session_hash v of (r, v1) \<Rightarrow> (r, record_login E request ApiTokenLogin r v1))"

definition login_password :: "service_env \<Rightarrow> uuid \<Rightarrow> string \<Rightarrow> string \<Rightarrow> string \<Rightarrow> (service, service_error, session_info) eff" where
  "login_password E request user password session_hash v =
     (case password_exchange E request user password session_hash v of (r, v1) \<Rightarrow> (r, record_login E request PasswordLogin r v1))"

section \<open>Re-authentication\<close>

definition current_actor :: "service_env \<Rightarrow> nat \<Rightarrow> string \<Rightarrow> (service, service_error, identity) eff" where
  "current_actor E k session_hash =
     try_eff (update_service (set_stage AtAuthentication)) id (\<lambda>_.
     try_eff (reading E k (\<lambda>now. session_identity now session_hash)) id (require_some SvUnauthenticated))"

text \<open>What \<open>reauthenticate\<close> and the password change share: actor, budget, stored password, verification, event.\<close>

definition verify_current :: "service_env \<Rightarrow> nat \<Rightarrow> service_error \<Rightarrow> string \<Rightarrow> string \<Rightarrow> uuid
    \<Rightarrow> (service, service_error, identity \<times> password_credential) eff" where
  "verify_current E k no_password session_hash current request =
     try_eff (current_actor E k session_hash) id (\<lambda>actor.
     try_eff (update_service (set_method PasswordLogin \<circ> set_stage AtReauthentication)) id (\<lambda>_.
     try_eff (statement E (k + 1) (\<lambda>now. account_allowed now (id_account actor) Reauthentication)) id (\<lambda>allowed.
     try_eff (admit allowed) id (\<lambda>_.
     try_eff (reading E (k + 2) (\<lambda>_. find_by_account (id_account actor))) id (\<lambda>found.
     try_eff (require_some no_password found) id (\<lambda>credential.
     try_eff (check_password E k current (pc_hash credential)) id (\<lambda>verified.
       if \<not> verified then pure_step (Inl SvUnauthenticated)
       else try_eff (update_service (record_reauthenticated E request actor)) id (\<lambda>_. ret_ok (actor, credential)))))))))"

definition reauthenticate :: "service_env \<Rightarrow> nat \<Rightarrow> string \<Rightarrow> string \<Rightarrow> uuid \<Rightarrow> (service, service_error, identity) eff" where
  "reauthenticate E k session_hash current request =
     try_eff (verify_current E k SvForbidden session_hash current request) id (\<lambda>x. ret_ok (fst x))"

definition reauthenticate_admin :: "service_env \<Rightarrow> nat \<Rightarrow> string \<Rightarrow> string \<Rightarrow> uuid \<Rightarrow> (service, service_error, unit) eff" where
  "reauthenticate_admin E k session_hash current request =
     try_eff (reauthenticate E k session_hash current request) id (\<lambda>actor.
     try_eff (update_service (set_stage AtAuthorization)) id (\<lambda>_.
       pure_step (if role_of (c_actor (id_caller actor)) = Admin then Inr () else Inl SvForbidden)))"

section \<open>password\_setups.rs\<close>

definition canonical_login :: "string \<Rightarrow> (service, service_error, string) eff" where
  "canonical_login user = pure_step (case username user of Inl e \<Rightarrow> Inl (password_error_of e) | Inr login \<Rightarrow> Inr login)"

definition setup_issue :: "service_env \<Rightarrow> uuid \<Rightarrow> string \<Rightarrow> uuid \<Rightarrow> string \<Rightarrow> string \<Rightarrow> string
    \<Rightarrow> (service, service_error, setup_info) eff" where
  "setup_issue E request session_hash account user current token_hash =
     session_operation E request session_hash
       ((new_details ''identity.account.password_setup.issue'' AtAuthentication)\<lparr>dt_target := Some (account_target (ev_uuid_text E) account)\<rparr>)
       (try_eff (update_service (set_stage AtValidation)) id (\<lambda>_.
        try_eff (canonical_login user) id (\<lambda>login.
        try_eff (reauthenticate_admin E 1 session_hash current request) id (\<lambda>_.
        try_eff (update_service (set_stage AtExecution)) id (\<lambda>_.
          in_transaction E 4 (\<lambda>_. True) (\<lambda>now. issue_setup now request session_hash account login token_hash))))))"

definition setup_create :: "service_env \<Rightarrow> uuid \<Rightarrow> string \<Rightarrow> string \<Rightarrow> role \<Rightarrow> string \<Rightarrow> string \<Rightarrow> string
    \<Rightarrow> (service, service_error, setup_info) eff" where
  "setup_create E request session_hash name role user current token_hash =
     session_operation E request session_hash (new_details ''identity.account.create'' AtAuthentication)
       (try_eff (update_service (set_stage AtValidation)) id (\<lambda>_.
        try_eff (canonical_login user) id (\<lambda>login.
        try_eff (reauthenticate_admin E 1 session_hash current request) id (\<lambda>_.
        try_eff (update_service (set_stage AtExecution)) id (\<lambda>_.
        try_eff (in_transaction E 4 (\<lambda>_. True) (\<lambda>now. create_setup now (ev_ids E 0) request session_hash name role login token_hash)) id (\<lambda>setup.
        try_eff (update_service (set_target (Some (account_target (ev_uuid_text E) (sp_account setup))))) id (\<lambda>_. ret_ok setup)))))))"

definition setup_inspect :: "service_env \<Rightarrow> string \<Rightarrow> (service, service_error, setup_info) eff" where
  "setup_inspect E token_hash =
     try_eff (reading E 0 (\<lambda>now. inspect_setup now token_hash)) id (require_some SvNotFound)"

definition new_hash :: "service_env \<Rightarrow> nat \<Rightarrow> string \<Rightarrow> string \<Rightarrow> (service, service_error, string) eff" where
  "new_hash E k login password = pure_step (case hash_password (ev_lib E) (ev_worker E k) (ev_salt E k) login password of
      Inl e \<Rightarrow> Inl (password_error_of e) | Inr h \<Rightarrow> Inr h)"

definition setup_complete :: "service_env \<Rightarrow> uuid \<Rightarrow> string \<Rightarrow> string \<Rightarrow> (service, service_error, unit) eff" where
  "setup_complete E request token_hash password =
     try_eff (setup_inspect E token_hash) id (\<lambda>setup.
     try_eff (new_hash E 1 (sp_login setup) password) id (\<lambda>h.
     try_eff (in_transaction E 2 (\<lambda>x. x \<noteq> None) (\<lambda>now. complete_setup now (ev_ids E 0) request token_hash h)) id (\<lambda>completed.
       require_some SvNotFound (map_option (\<lambda>_. ()) completed))))"

section \<open>password\_changes.rs\<close>

definition password_change :: "service_env \<Rightarrow> uuid \<Rightarrow> string \<Rightarrow> string \<Rightarrow> string \<Rightarrow> (service, service_error, unit) eff" where
  "password_change E request session_hash current replacement =
     session_operation E request session_hash (new_details ''account.password_change'' AtAuthentication)
       (try_eff (verify_current E 1 SvUnauthenticated session_hash current request) id (\<lambda>(actor, credential).
        try_eff (update_service (set_stage AtValidation)) id (\<lambda>_.
        try_eff (check_password E 4 replacement (pc_hash credential)) id (\<lambda>same.
          if same then pure_step (Inl SvInvalidInput)
          else try_eff (new_hash E 5 (pc_login credential) replacement) id (\<lambda>h.
               try_eff (update_service (set_stage AtExecution)) id (\<lambda>_.
               try_eff (in_transaction E 6 (\<lambda>b. b) (\<lambda>now. change_password now (ev_ids E 0) request session_hash (pc_generation credential) h)) id (\<lambda>changed.
                 require_some SvUnauthenticated (if changed then Some () else None))))))))"

section \<open>personal\_tokens.rs and profile.rs\<close>

definition tokens_list :: "service_env \<Rightarrow> uuid \<Rightarrow> string \<Rightarrow> uuid page \<Rightarrow> (service, service_error, credential_summary list) eff" where
  "tokens_list E request session_hash p =
     session_operation E request session_hash (new_details ''identity.credential.list'' AtAuthentication)
       (in_transaction E 1 (\<lambda>_. False) (\<lambda>now d. (personal_list now request session_hash p d, d)))"

definition token_issue :: "service_env \<Rightarrow> uuid \<Rightarrow> string \<Rightarrow> string \<Rightarrow> new_credential \<Rightarrow> (service, service_error, credential) eff" where
  "token_issue E request session_hash current key =
     session_operation E request session_hash (new_details ''identity.credential.issue'' AtAuthentication)
       (try_eff (reauthenticate E 1 session_hash current request) id (\<lambda>_.
        try_eff (update_service (set_stage AtExecution)) id (\<lambda>_.
        try_eff (in_transaction E 4 (\<lambda>_. True) (\<lambda>now. issue_personal now (ev_ids E 0) request session_hash key)) id (\<lambda>issued.
        try_eff (update_service (set_target (Some (credential_target (ev_uuid_text E) (cd_id issued))))) id (\<lambda>_. ret_ok issued)))))"

definition token_revoke :: "service_env \<Rightarrow> uuid \<Rightarrow> string \<Rightarrow> uuid \<Rightarrow> (service, service_error, bool) eff" where
  "token_revoke E request session_hash i =
     session_operation E request session_hash
       ((new_details ''identity.credential.revoke'' AtAuthentication)\<lparr>dt_target := Some (credential_target (ev_uuid_text E) i)\<rparr>)
       (in_transaction E 1 (\<lambda>_. True) (\<lambda>now. revoke_personal now request session_hash i))"

definition profile_show :: "service_env \<Rightarrow> uuid \<Rightarrow> string \<Rightarrow> (service, service_error, account_summary) eff" where
  "profile_show E request session_hash =
     session_operation E request session_hash (new_details ''identity.account.get'' AtAuthentication)
       (in_transaction E 1 (\<lambda>_. False) (\<lambda>now d. (profile_get now session_hash d, d)))"

definition profile_rename :: "service_env \<Rightarrow> uuid \<Rightarrow> string \<Rightarrow> string \<Rightarrow> (service, service_error, bool) eff" where
  "profile_rename E request session_hash name =
     session_operation E request session_hash (new_details ''identity.account.name'' AtAuthentication)
       (in_transaction E 1 (\<lambda>b. b) (\<lambda>now. rename_profile now request session_hash name))"

section \<open>command.rs\<close>

datatype console_command =
    ConCreateAccount string role
  | ConChangeAccount uuid account_change
  | ConIssueCredential uuid new_credential string
  | ConRevokeCredential uuid
  | ConRevokeOwnSession uuid
  | ConCurrentSession
  | ConLogout
  | ConAccounts account_query
  | ConAccount uuid
  | ConCredentials uuid "uuid page"
  | ConOwnSessions "uuid page"
  | ConAudit history_query
  | ConInvocations history_query
  | ConSecurity history_query

definition console_target :: "(uuid \<Rightarrow> string) \<Rightarrow> console_command \<Rightarrow> target option" where
  "console_target uuid_text c = (case c of
      ConChangeAccount i _ \<Rightarrow> Some (account_target uuid_text i)
    | ConAccount i \<Rightarrow> Some (account_target uuid_text i)
    | ConIssueCredential account _ _ \<Rightarrow> Some (account_target uuid_text account)
    | ConCredentials account _ \<Rightarrow> Some (account_target uuid_text account)
    | ConRevokeCredential i \<Rightarrow> Some (credential_target uuid_text i)
    | ConRevokeOwnSession i \<Rightarrow> Some (session_target uuid_text i)
    | _ \<Rightarrow> None)"

definition console_name :: "console_command \<Rightarrow> string" where
  "console_name c = (case c of
      ConCreateAccount _ _ \<Rightarrow> ''identity.account.create''
    | ConChangeAccount _ (ChangeName _) \<Rightarrow> ''identity.account.name''
    | ConChangeAccount _ (ChangeRole _) \<Rightarrow> ''identity.account.role''
    | ConChangeAccount _ (ChangeActive _) \<Rightarrow> ''identity.account.active''
    | ConChangeAccount _ DeleteAccount \<Rightarrow> ''identity.account.delete''
    | ConIssueCredential _ _ _ \<Rightarrow> ''identity.credential.issue''
    | ConRevokeCredential _ \<Rightarrow> ''identity.credential.revoke''
    | ConRevokeOwnSession _ \<Rightarrow> ''identity.session.revoke''
    | ConCurrentSession \<Rightarrow> ''identity.session.current''
    | ConLogout \<Rightarrow> ''identity.session.logout''
    | ConAccounts _ \<Rightarrow> ''identity.account.list''
    | ConAccount _ \<Rightarrow> ''identity.account.get''
    | ConCredentials _ _ \<Rightarrow> ''identity.credential.list''
    | ConOwnSessions _ \<Rightarrow> ''identity.session.list''
    | ConAudit _ \<Rightarrow> ''history.audit.list''
    | ConInvocations _ \<Rightarrow> ''history.invocation.list''
    | ConSecurity _ \<Rightarrow> ''history.security.list'')"

definition console_action :: "console_command \<Rightarrow> action" where
  "console_action c = (case c of
      ConCreateAccount _ _ \<Rightarrow> ManageIdentities
    | ConChangeAccount _ _ \<Rightarrow> ManageIdentities
    | ConIssueCredential _ _ _ \<Rightarrow> ManageIdentities
    | ConRevokeCredential _ \<Rightarrow> ManageIdentities
    | ConRevokeOwnSession _ \<Rightarrow> RevokeOwnSessions
    | ConLogout \<Rightarrow> RevokeOwnSessions
    | ConAccounts _ \<Rightarrow> ReadIdentities
    | ConAccount _ \<Rightarrow> ReadIdentities
    | ConCredentials _ _ \<Rightarrow> ReadIdentities
    | ConOwnSessions _ \<Rightarrow> ReadOwnSessions
    | ConCurrentSession \<Rightarrow> ReadOwnSessions
    | ConAudit _ \<Rightarrow> ReadAuditHistory
    | ConInvocations _ \<Rightarrow> ReadInvocationHistory
    | ConSecurity _ \<Rightarrow> ReadSecurityEvents)"

definition is_mutation :: "console_command \<Rightarrow> bool" where
  "is_mutation c \<longleftrightarrow> console_action c \<in> {ManageIdentities, RevokeOwnSessions}"

section \<open>dispatch.rs\<close>

datatype console_output =
    OutIdentity identity
  | OutAccount uuid
  | OutChanged bool
  | OutCredential credential
  | OutAccounts account_page
  | OutAccountDetails account_summary
  | OutCredentials "credential_summary list"
  | OutSessions "session_summary list"
  | OutAudit "audit_row list"
  | OutInvocations "invocation_row list"
  | OutSecurity "security_row list"

definition history_scope_of :: "scope \<Rightarrow> uuid \<Rightarrow> history_scope" where
  "history_scope_of s user = (case s of Installation \<Rightarrow> WholeInstallation | SelfOnly \<Rightarrow> OneUser user)"

text \<open>SQL's \<open>lower\<close> is an argument.\<close>

definition console_dispatch :: "service_env \<Rightarrow> (string \<Rightarrow> string) \<Rightarrow> timestamp \<Rightarrow> history_db \<Rightarrow> audit_context \<Rightarrow> identity \<Rightarrow> scope
    \<Rightarrow> console_command \<Rightarrow> (mdb, identity_error, console_output) eff" where
  "console_dispatch E lower now h ctx i s c d =
     (let user = id_account i in case c of
      ConCurrentSession \<Rightarrow> (Inr (OutIdentity i), d)
    | ConLogout \<Rightarrow> (case id_session i of
        None \<Rightarrow> (Inl InvalidInput, d)
      | Some session \<Rightarrow> try_eff (revoke_session now ctx user session) id (\<lambda>b. ret_ok (OutChanged b)) d)
    | ConCreateAccount name role \<Rightarrow>
        try_eff (create_account now ctx (ev_ids E 0) name role) id (\<lambda>a. ret_ok (OutAccount a)) d
    | ConChangeAccount account change \<Rightarrow>
        try_eff (change_account now ctx account change) id (\<lambda>b. ret_ok (OutChanged b)) d
    | ConIssueCredential account key _ \<Rightarrow>
        try_eff (issue_credential now ctx (ev_ids E 0) account key) id (\<lambda>x. ret_ok (OutCredential x)) d
    | ConRevokeCredential x \<Rightarrow> try_eff (revoke_credential now ctx x) id (\<lambda>b. ret_ok (OutChanged b)) d
    | ConRevokeOwnSession x \<Rightarrow> try_eff (revoke_session now ctx user x) id (\<lambda>b. ret_ok (OutChanged b)) d
    | ConAccounts q \<Rightarrow> (Inr (OutAccounts (list_accounts lower (ev_uuid_text E) q d)), d)
    | ConAccount x \<Rightarrow> (case account_in x d of Inl e \<Rightarrow> (Inl e, d) | Inr a \<Rightarrow> (Inr (OutAccountDetails a), d))
    | ConCredentials account p \<Rightarrow> (Inr (OutCredentials (account_credentials account p d)), d)
    | ConOwnSessions p \<Rightarrow> (Inr (OutSessions (account_sessions user p d)), d)
    | ConAudit q \<Rightarrow> (Inr (OutAudit (audit_history (history_scope_of s user) q d)), d)
    | ConInvocations q \<Rightarrow> (Inr (OutInvocations (invocation_history (history_scope_of s user) q h)), d)
    | ConSecurity q \<Rightarrow> (Inr (OutSecurity (security_history q h)), d))"

text \<open>An account change that changes nothing returns without a commit; every other success commits.\<close>

definition dispatch_commits :: "console_command \<Rightarrow> console_output \<Rightarrow> bool" where
  "dispatch_commits c out \<longleftrightarrow> (case c of ConChangeAccount _ _ \<Rightarrow> out = OutChanged True | _ \<Rightarrow> True)"

section \<open>lib.rs\<close>

text \<open>\<open>begin\<close> and \<open>resolve\<close>; the connection may break before the identity is known.\<close>

definition identify :: "service_env \<Rightarrow> nat \<Rightarrow> proof_of_identity \<Rightarrow> service \<Rightarrow> service_error + identity" where
  "identify E k pr v =
     (if ev_link E k = Broken False then Inl SvUnavailable
      else case resolve_proof (ev_now E k) pr (sv_db v) of None \<Rightarrow> Inl SvUnauthenticated | Some i \<Rightarrow> Inr i)"

text \<open>The rest of the transaction in which the identity was resolved.\<close>

definition console_finish :: "service_env \<Rightarrow> (string \<Rightarrow> string) \<Rightarrow> nat \<Rightarrow> audit_context \<Rightarrow> identity \<Rightarrow> scope \<Rightarrow> console_command
    \<Rightarrow> (service, service_error, console_output) eff" where
  "console_finish E lower k ctx i s c v =
     (let v1 = set_stage AtExecution v
      in if \<exists>late. ev_link E k = Broken late then (Inl SvUnavailable, v1)
         else case console_dispatch E lower (ev_now E k) (sv_history v1) ctx i s c (sv_db v1) of
             (Inl e, _) \<Rightarrow> (Inl (service_error_of e), v1)
           | (Inr out, d) \<Rightarrow> (case ev_link E k of
                 CommitLost applied \<Rightarrow>
                   if dispatch_commits c out then (Inl SvOutcomeUnknown, if applied then v1\<lparr>sv_db := d\<rparr> else v1) else (Inr out, v1)
               | _ \<Rightarrow> (Inr out, v1\<lparr>sv_db := d\<rparr>)))"

text \<open>
  Issuing a token for an account ends the first transaction, verifies the password of the session and
  resolves and authorizes the proof again in a second one.
\<close>

definition console_reissue :: "service_env \<Rightarrow> (string \<Rightarrow> string) \<Rightarrow> proof_of_identity \<Rightarrow> surface \<Rightarrow> audit_context \<Rightarrow> scope \<Rightarrow> string
    \<Rightarrow> console_command \<Rightarrow> uuid \<Rightarrow> (service, service_error, console_output) eff" where
  "console_reissue E lower pr sf ctx s current c request v = (case pr of
      PasswordSessionProof session_hash \<Rightarrow>
        if ev_link E 0 \<noteq> Answered then (Inl SvOutcomeUnknown, v)
        else try_eff (reauthenticate E 1 session_hash current request) id (\<lambda>_ v.
          let v1 = others E 4 (set_stage AtAuthentication v)
          in case identify E 4 pr v1 of
              Inl e \<Rightarrow> (Inl e, v1)
            | Inr i \<Rightarrow>
                if authorize (id_caller i) sf (console_action c) \<noteq> Inr s then (Inl SvForbidden, set_stage AtAuthorization v1)
                else console_finish E lower 4 ctx i s c (set_stage AtAuthorization v1)) v
    | _ \<Rightarrow> (Inl SvForbidden, v))"

definition console_run :: "service_env \<Rightarrow> (string \<Rightarrow> string) \<Rightarrow> proof_of_identity \<Rightarrow> surface \<Rightarrow> console_command \<Rightarrow> uuid \<Rightarrow> service
    \<Rightarrow> audit_context option \<times> (service_error + console_output) \<times> service" where
  "console_run E lower pr sf c request v =
     (let v1 = others E 0 v in case identify E 0 pr v1 of
        Inl e \<Rightarrow> (None, Inl e, v1)
      | Inr i \<Rightarrow>
          let ctx = identity_context i request sf;
              v2 = set_stage AtAuthorization v1;
              v3 = (if c = ConLogout then set_target (map_option (session_target (ev_uuid_text E)) (id_session i)) v2 else v2)
          in (Some ctx, case authorize (id_caller i) sf (console_action c) of
              Inl _ \<Rightarrow> (Inl SvForbidden, v3)
            | Inr s \<Rightarrow> (case c of
                ConIssueCredential _ _ current \<Rightarrow> console_reissue E lower pr sf ctx s current c request v3
              | _ \<Rightarrow> console_finish E lower 0 ctx i s c v3)))"

definition console_execute :: "service_env \<Rightarrow> (string \<Rightarrow> string) \<Rightarrow> proof_of_identity \<Rightarrow> surface \<Rightarrow> console_command
    \<Rightarrow> (service, service_error, console_output) eff" where
  "console_execute E lower pr sf c v =
     (let request = ev_ids E 1;
          dt = (proof_details (console_name c) pr)\<lparr>dt_target := console_target (ev_uuid_text E) c\<rparr>;
          (context, raw, v1) = console_run E lower pr sf c request (v\<lparr>sv_details := dt\<rparr>);
          result = (if \<not> is_mutation c \<and> error_of raw = Some SvOutcomeUnknown then Inl SvUnavailable else raw);
          v2 = (case result of
              Inr (OutAccount i) \<Rightarrow> set_target (Some (account_target (ev_uuid_text E) i)) v1
            | Inr (OutCredential x) \<Rightarrow> set_target (Some (credential_target (ev_uuid_text E) (cd_id x))) v1
            | Inl SvOutcomeUnknown \<Rightarrow> set_stage AtCommit v1
            | _ \<Rightarrow> v1);
          v3 = record_result E context request sf (error_of result) v2
      in (result, if console_name c = ''identity.session.logout'' \<and> result = Inr (OutChanged True)
                  then record_security E FINAL_LOG context request sf ReasonSignedOut v3 else v3))"

end
