(* ===== verification/Identity_Access.thy ===== *)
theory Identity_Access
  imports Identity "HOL-Library.Multiset"
begin

text \<open>
  What every transaction of \<open>db/src/management\<close> keeps: the keys and checks of the tables, that a session
  which is not revoked is backed by an active account and by the token or password that opened it, the
  bounds on sessions and tokens, and that an installation which was initialized keeps an active
  administrator with a password.
\<close>

section \<open>Well-formed tables\<close>

definition session_shape :: "session_row \<Rightarrow> bool" where
  "session_shape s \<longleftrightarrow> s_created_at s < s_expires_at s \<and>
     (case s_method s of ByToken \<Rightarrow> s_credential s \<noteq> None \<and> s_generation s = None
                       | ByPassword \<Rightarrow> s_credential s = None \<and> s_generation s \<noteq> None)"

definition accounts_ok :: "account_row list \<Rightarrow> bool" where
  "accounts_ok A \<longleftrightarrow> distinct (map a_id A) \<and> (\<forall>a \<in> set A. a_deleted_at a \<noteq> None \<longrightarrow> \<not> a_active a)"

definition tokens_ok :: "uuid set \<Rightarrow> token_row list \<Rightarrow> bool" where
  "tokens_ok ids T \<longleftrightarrow> distinct (map t_id T) \<and> distinct (map t_hash T) \<and>
     (\<forall>c \<in> set T. t_account c \<in> ids \<and> t_version c = 1 \<and> t_created_at c < t_expires_at c)"

definition password_shape :: "password_row \<Rightarrow> bool" where
  "password_shape p \<longleftrightarrow> (p_hash p = None \<longleftrightarrow> p_generation p = None) \<and> (p_hash p = None \<longleftrightarrow> p_changed_at p = None)"

definition passwords_ok :: "uuid set \<Rightarrow> password_row list \<Rightarrow> bool" where
  "passwords_ok ids P \<longleftrightarrow> distinct (map p_account P) \<and> distinct (map p_login P) \<and>
     (\<forall>p \<in> set P. p_account p \<in> ids \<and> password_shape p)"

definition setups_ok :: "uuid set \<Rightarrow> setup_row list \<Rightarrow> bool" where
  "setups_ok ids U \<longleftrightarrow> distinct (map su_account U) \<and> distinct (map su_hash U) \<and>
     (\<forall>t \<in> set U. su_account t \<in> ids \<and> su_created_at t < su_expires_at t)"

definition sessions_ok :: "uuid set \<Rightarrow> (uuid \<times> uuid) set \<Rightarrow> session_row list \<Rightarrow> bool" where
  "sessions_ok ids owned S \<longleftrightarrow> distinct (map s_id S) \<and> distinct (map s_hash S) \<and>
     (\<forall>s \<in> set S. s_account s \<in> ids \<and> session_shape s \<and>
        (\<forall>c. s_credential s = Some c \<longrightarrow> (s_account s, c) \<in> owned))"

definition account_ids :: "mdb \<Rightarrow> uuid set" where
  "account_ids d = a_id ` set (m_accounts d)"

definition token_owners :: "mdb \<Rightarrow> (uuid \<times> uuid) set" where
  "token_owners d = (\<lambda>c. (t_account c, t_id c)) ` set (m_tokens d)"

definition tables_ok :: "mdb \<Rightarrow> bool" where
  "tables_ok d \<longleftrightarrow> accounts_ok (m_accounts d) \<and> tokens_ok (account_ids d) (m_tokens d) \<and>
     passwords_ok (account_ids d) (m_passwords d) \<and> setups_ok (account_ids d) (m_setups d) \<and>
     sessions_ok (account_ids d) (token_owners d) (m_sessions d)"

section \<open>Access follows accounts\<close>

definition session_anchored :: "mdb \<Rightarrow> session_row \<Rightarrow> bool" where
  "session_anchored d s \<longleftrightarrow>
     (\<exists>a \<in> set (m_accounts d). a_id a = s_account s \<and> a_active a \<and> a_deleted_at a = None) \<and>
     (case s_method s of
        ByToken \<Rightarrow> (\<exists>c \<in> set (m_tokens d). Some (t_id c) = s_credential s \<and> t_account c = s_account s \<and>
                     t_revoked_at c = None \<and> s_expires_at s \<le> t_expires_at c)
      | ByPassword \<Rightarrow> (\<exists>p \<in> set (m_passwords d). p_account p = s_account s \<and> p_generation p = s_generation s))"

definition sessions_anchored :: "mdb \<Rightarrow> bool" where
  "sessions_anchored d \<longleftrightarrow> (\<forall>s \<in> set (m_sessions d). s_revoked_at s = None \<longrightarrow> session_anchored d s)"

definition tokens_anchored :: "mdb \<Rightarrow> bool" where
  "tokens_anchored d \<longleftrightarrow> (\<forall>c \<in> set (m_tokens d). t_revoked_at c = None \<longrightarrow>
     (\<exists>a \<in> set (m_accounts d). a_id a = t_account c \<and> a_deleted_at a = None))"

definition unrevoked_of_token :: "uuid \<Rightarrow> session_row list \<Rightarrow> nat" where
  "unrevoked_of_token c S = count_where (\<lambda>s. s_credential s = Some c \<and> s_revoked_at s = None) S"

definition unrevoked_of_password :: "uuid \<Rightarrow> session_row list \<Rightarrow> nat" where
  "unrevoked_of_password a S = count_where (\<lambda>s. (s_account s = a \<and> s_method s = ByPassword) \<and> s_revoked_at s = None) S"

definition sessions_bounded :: "session_row list \<Rightarrow> bool" where
  "sessions_bounded S \<longleftrightarrow> (\<forall>c. unrevoked_of_token c S \<le> 64) \<and> (\<forall>a. unrevoked_of_password a S \<le> 64)"

definition tokens_bounded :: "timestamp \<Rightarrow> token_row list \<Rightarrow> bool" where
  "tokens_bounded now T \<longleftrightarrow> (\<forall>a. count_where (\<lambda>c. t_account c = a \<and> unexpired_token now c) T \<le> TOKEN_LIMIT)"

definition admin_kept :: "mdb \<Rightarrow> bool" where
  "admin_kept d \<longleftrightarrow> m_accounts d = [] \<or> is_initialized d"

definition access_ok :: "timestamp \<Rightarrow> mdb \<Rightarrow> bool" where
  "access_ok now d \<longleftrightarrow> tables_ok d \<and> sessions_anchored d \<and> tokens_anchored d \<and> sessions_bounded (m_sessions d) \<and>
     tokens_bounded now (m_tokens d) \<and> admin_kept d"

lemmas table_ok_defs = accounts_ok_def tokens_ok_def passwords_ok_def setups_ok_def sessions_ok_def

text \<open>All of it is about the tables; audit records and attempt budgets are free.\<close>

definition same_tables :: "mdb \<Rightarrow> mdb \<Rightarrow> bool" where
  "same_tables d d' \<longleftrightarrow> m_accounts d' = m_accounts d \<and> m_tokens d' = m_tokens d \<and> m_passwords d' = m_passwords d \<and>
     m_setups d' = m_setups d \<and> m_sessions d' = m_sessions d"

lemma access_ok_same: "same_tables d d' \<Longrightarrow> access_ok now d' = access_ok now d"
  unfolding same_tables_def access_ok_def tables_ok_def sessions_anchored_def tokens_anchored_def admin_kept_def
    session_anchored_def account_ids_def token_owners_def is_initialized_def password_ready_def
  by (simp cong: session_method.case_cong)

named_theorems audit_simps \<open>the tables after an audit record\<close>

lemma record_audit_tables [audit_simps]:
  "m_accounts (snd (record_audit now c act k i d)) = m_accounts d"
  "m_tokens (snd (record_audit now c act k i d)) = m_tokens d"
  "m_passwords (snd (record_audit now c act k i d)) = m_passwords d"
  "m_setups (snd (record_audit now c act k i d)) = m_setups d"
  "m_sessions (snd (record_audit now c act k i d)) = m_sessions d"
  by (simp_all add: record_audit_def insert_audit_def)

lemma set_metadata_tables [audit_simps]:
  "m_accounts (set_metadata e x d) = m_accounts d" "m_tokens (set_metadata e x d) = m_tokens d"
  "m_passwords (set_metadata e x d) = m_passwords d" "m_setups (set_metadata e x d) = m_setups d"
  "m_sessions (set_metadata e x d) = m_sessions d"
  by (simp_all add: set_metadata_def)

lemma local_audit_tables [audit_simps]:
  "m_accounts (local_audit now r i act d) = m_accounts d" "m_tokens (local_audit now r i act d) = m_tokens d"
  "m_passwords (local_audit now r i act d) = m_passwords d" "m_setups (local_audit now r i act d) = m_setups d"
  "m_sessions (local_audit now r i act d) = m_sessions d"
  by (simp_all add: local_audit_def insert_audit_def)

lemma credential_audit_tables [audit_simps]:
  "m_accounts (record_credential_audit now c act i d) = m_accounts d"
  "m_tokens (record_credential_audit now c act i d) = m_tokens d"
  "m_passwords (record_credential_audit now c act i d) = m_passwords d"
  "m_setups (record_credential_audit now c act i d) = m_setups d"
  "m_sessions (record_credential_audit now c act i d) = m_sessions d"
  by (simp_all add: record_credential_audit_def audit_simps split: prod.splits option.splits)
    (metis record_audit_tables snd_conv)+

lemma audit_evictions_tables [audit_simps]:
  "m_accounts (audit_evictions now c ids d) = m_accounts d" "m_tokens (audit_evictions now c ids d) = m_tokens d"
  "m_passwords (audit_evictions now c ids d) = m_passwords d" "m_setups (audit_evictions now c ids d) = m_setups d"
  "m_sessions (audit_evictions now c ids d) = m_sessions d"
  unfolding audit_evictions_def by (induction ids arbitrary: d) (simp_all add: audit_simps)

section \<open>Statements that only take access away\<close>

lemma tokens_bounded_later: "tokens_bounded t T \<Longrightarrow> t \<le> t' \<Longrightarrow> tokens_bounded t' T"
proof -
  assume b: "tokens_bounded t T" "t \<le> t'"
  have "count_where (\<lambda>c. t_account c = a \<and> unexpired_token t' c) T \<le> count_where (\<lambda>c. t_account c = a \<and> unexpired_token t c) T" for a
    unfolding count_where_def using b(2) by (induction T) (auto simp: unexpired_token_def)
  with b(1) show ?thesis unfolding tokens_bounded_def by (meson le_trans)
qed

lemma access_ok_later: "access_ok t d \<Longrightarrow> t \<le> t' \<Longrightarrow> access_ok t' d"
  by (auto simp: access_ok_def intro: tokens_bounded_later)

lemma count_update_le:
  assumes "\<And>r. r \<in> set rows \<Longrightarrow> p r \<Longrightarrow> q (u r) \<Longrightarrow> q r"
  shows "count_where q (update_where p u rows) \<le> count_where q rows"
  using assms unfolding count_where_def update_where_def by (induction rows) auto

lemma count_delete_le: "count_where q (delete_where p rows) \<le> count_where q rows"
  unfolding count_where_def delete_where_def by (induction rows) auto

text \<open>Revoking sessions, and deleting them.\<close>

definition revoked :: "timestamp \<Rightarrow> session_row \<Rightarrow> session_row" where
  "revoked now s = s\<lparr>s_revoked_at := Some now\<rparr>"

lemma revoked_simps [simp]:
  "s_id (revoked now s) = s_id s" "s_hash (revoked now s) = s_hash s" "s_account (revoked now s) = s_account s"
  "s_credential (revoked now s) = s_credential s" "s_method (revoked now s) = s_method s"
  "s_generation (revoked now s) = s_generation s" "s_created_at (revoked now s) = s_created_at s"
  "s_expires_at (revoked now s) = s_expires_at s" "s_revoked_at (revoked now s) = Some now"
  by (simp_all add: revoked_def)

lemma session_shape_revoked [simp]: "session_shape (revoked now s) = session_shape s"
  by (auto simp: session_shape_def split: session_method.splits)

lemma sessions_ok_update:
  assumes "sessions_ok ids owned S"
  shows "sessions_ok ids owned (update_where p (revoked now) S)"
  using assms unfolding sessions_ok_def
  by (auto simp: map_update_where table_simps)

lemma sessions_ok_delete: "sessions_ok ids owned S \<Longrightarrow> sessions_ok ids owned (delete_where p S)"
  by (auto simp: sessions_ok_def table_simps map_delete_where_distinct)

lemma sessions_bounded_update: "sessions_bounded S \<Longrightarrow> sessions_bounded (update_where p (revoked now) S)"
  unfolding sessions_bounded_def unrevoked_of_token_def unrevoked_of_password_def
  by (auto intro!: order_trans [OF count_update_le])

lemma sessions_bounded_delete: "sessions_bounded S \<Longrightarrow> sessions_bounded (delete_where p S)"
  unfolding sessions_bounded_def unrevoked_of_token_def unrevoked_of_password_def
  by (auto intro!: order_trans [OF count_delete_le])

lemma session_anchored_cong:
  "m_accounts d' = m_accounts d \<Longrightarrow> m_tokens d' = m_tokens d \<Longrightarrow> m_passwords d' = m_passwords d \<Longrightarrow>
   session_anchored d' s = session_anchored d s"
  by (simp add: session_anchored_def cong: session_method.case_cong)

lemma access_ok_sessions:
  assumes "access_ok now d" and "sessions_ok (account_ids d) (token_owners d) S" "sessions_bounded S"
    and "\<And>s. s \<in> set S \<Longrightarrow> s_revoked_at s = None \<Longrightarrow> session_anchored d s"
  shows "access_ok now (d\<lparr>m_sessions := S\<rparr>)"
proof -
  have "session_anchored (d\<lparr>m_sessions := S\<rparr>) s = session_anchored d s" for s
    by (rule session_anchored_cong) simp_all
  with assms(4) have "sessions_anchored (d\<lparr>m_sessions := S\<rparr>)"
    by (simp add: sessions_anchored_def)
  with assms show ?thesis
    by (simp add: access_ok_def tables_ok_def account_ids_def token_owners_def tokens_anchored_def admin_kept_def
        is_initialized_def password_ready_def)
qed

lemma access_ok_parts:
  assumes "access_ok now d"
  shows "accounts_ok (m_accounts d)" "tokens_ok (account_ids d) (m_tokens d)" "passwords_ok (account_ids d) (m_passwords d)"
    "setups_ok (account_ids d) (m_setups d)" "sessions_ok (account_ids d) (token_owners d) (m_sessions d)"
    "sessions_anchored d" "tokens_anchored d" "sessions_bounded (m_sessions d)" "tokens_bounded now (m_tokens d)"
    "admin_kept d"
  using assms by (simp_all add: access_ok_def tables_ok_def)

lemma revoke_where_ok:
  assumes "access_ok now d"
  shows "access_ok now (d\<lparr>m_sessions := update_where p (revoked t) (m_sessions d)\<rparr>)"
  using access_ok_parts(5,8,6) [OF assms]
  by (intro access_ok_sessions [OF assms])
    (auto simp: sessions_ok_update sessions_bounded_update sessions_anchored_def table_simps split: if_splits)

lemma delete_sessions_ok:
  assumes "access_ok now d"
  shows "access_ok now (d\<lparr>m_sessions := delete_where p (m_sessions d)\<rparr>)"
  using access_ok_parts(5,8,6) [OF assms]
  by (intro access_ok_sessions [OF assms])
    (auto simp: sessions_ok_delete sessions_bounded_delete sessions_anchored_def table_simps)

lemma revoked_eq: "(\<lambda>s. s\<lparr>s_revoked_at := Some now\<rparr>) = revoked now"
  by (simp add: revoked_def fun_eq_iff)

lemma revoke_sessions_ok: "access_ok now d \<Longrightarrow> access_ok now (revoke_sessions t p d)"
  unfolding revoke_sessions_def revoked_eq by (rule revoke_where_ok)

lemma purge_sessions_ok: "access_ok now d \<Longrightarrow> access_ok now (purge_sessions t p d)"
  unfolding purge_sessions_def by (rule delete_sessions_ok)

lemma evict_sessions_ok: "access_ok now d \<Longrightarrow> access_ok now (snd (evict_sessions t p d))"
  unfolding evict_sessions_def snd_conv revoked_eq by (rule revoke_where_ok)

text \<open>Revoking tokens whose sessions are revoked.\<close>

definition revoked_token :: "timestamp \<Rightarrow> token_row \<Rightarrow> token_row" where
  "revoked_token now c = c\<lparr>t_revoked_at := Some now\<rparr>"

lemma revoked_token_simps [simp]:
  "t_id (revoked_token now c) = t_id c" "t_account (revoked_token now c) = t_account c" "t_hash (revoked_token now c) = t_hash c"
  "t_version (revoked_token now c) = t_version c" "t_created_at (revoked_token now c) = t_created_at c"
  "t_expires_at (revoked_token now c) = t_expires_at c" "t_revoked_at (revoked_token now c) = Some now"
  by (simp_all add: revoked_token_def)

lemma revoked_token_eq: "(\<lambda>c. c\<lparr>t_revoked_at := Some now\<rparr>) = revoked_token now"
  by (simp add: revoked_token_def fun_eq_iff)

lemma token_owners_update:
  "(\<And>c. p c \<Longrightarrow> t_account (u c) = t_account c \<and> t_id (u c) = t_id c) \<Longrightarrow>
   token_owners (d\<lparr>m_tokens := update_where p u (m_tokens d)\<rparr>) = token_owners d"
proof -
  let ?k = "\<lambda>c. (t_account c, t_id c)"
  assume "\<And>c. p c \<Longrightarrow> t_account (u c) = t_account c \<and> t_id (u c) = t_id c"
  then have "map ?k (update_where p u (m_tokens d)) = map ?k (m_tokens d)" by (intro map_update_where) simp
  then have "set (map ?k (update_where p u (m_tokens d))) = set (map ?k (m_tokens d))" by (rule arg_cong)
  then have "?k ` set (update_where p u (m_tokens d)) = ?k ` set (m_tokens d)" by (simp only: set_map)
  then show ?thesis by (simp add: token_owners_def)
qed

lemma tokens_ok_update:
  assumes "tokens_ok ids T" and "\<And>c. p c \<Longrightarrow> t_account (u c) = t_account c \<and> t_id (u c) = t_id c \<and> t_hash (u c) = t_hash c \<and>
      t_version (u c) = t_version c \<and> t_created_at (u c) = t_created_at c \<and> t_expires_at (u c) = t_expires_at c"
  shows "tokens_ok ids (update_where p u T)"
  using assms unfolding tokens_ok_def
  by (auto simp: map_update_where table_simps)

lemma access_ok_tokens:
  assumes "access_ok now d" and "tokens_ok (account_ids d) T" "tokens_bounded now T"
    and "(\<lambda>c. (t_account c, t_id c)) ` set T = token_owners d"
    and "tokens_anchored (d\<lparr>m_tokens := T\<rparr>)" and "sessions_anchored (d\<lparr>m_tokens := T\<rparr>)"
  shows "access_ok now (d\<lparr>m_tokens := T\<rparr>)"
  using assms
  by (simp add: access_ok_def tables_ok_def account_ids_def token_owners_def admin_kept_def
      is_initialized_def password_ready_def)

lemma revoke_tokens_ok:
  assumes ok: "access_ok now d"
    and free: "\<And>s c. s \<in> set (m_sessions d) \<Longrightarrow> s_revoked_at s = None \<Longrightarrow> c \<in> set (m_tokens d) \<Longrightarrow> p c \<Longrightarrow>
      s_credential s = Some (t_id c) \<Longrightarrow> s_account s = t_account c \<Longrightarrow> False"
  shows "access_ok now (revoke_tokens t p d)"
proof -
  let ?T = "update_where (\<lambda>c. p c \<and> t_revoked_at c = None) (revoked_token t) (m_tokens d)"
  have a: "tokens_anchored (d\<lparr>m_tokens := ?T\<rparr>)"
    using access_ok_parts(7) [OF ok] by (auto simp: tokens_anchored_def table_simps split: if_splits)
  have "session_anchored (d\<lparr>m_tokens := ?T\<rparr>) s" if "s \<in> set (m_sessions d)" "s_revoked_at s = None" for s
  proof -
    have "session_anchored d s" using access_ok_parts(6) [OF ok] that by (simp add: sessions_anchored_def)
    moreover have "c \<in> set ?T" if "c \<in> set (m_tokens d)" "Some (t_id c) = s_credential s" "t_account c = s_account s" for c
    proof -
      have "\<not> p c" using free [OF \<open>s \<in> set (m_sessions d)\<close> \<open>s_revoked_at s = None\<close> that(1)] that by auto
      with that show ?thesis by (auto simp: update_where_def image_iff)
    qed
    ultimately show ?thesis
      by (cases "s_method s") (auto simp: session_anchored_def)
  qed
  then have s: "sessions_anchored (d\<lparr>m_tokens := ?T\<rparr>)" by (simp add: sessions_anchored_def)
  have "tokens_bounded now ?T"
    using access_ok_parts(9) [OF ok] unfolding tokens_bounded_def
    by (auto simp: unexpired_token_def intro!: order_trans [OF count_update_le])
  moreover have "(\<lambda>c. (t_account c, t_id c)) ` set ?T = token_owners d"
    using token_owners_update [of "\<lambda>c. p c \<and> t_revoked_at c = None" "revoked_token t" d] by (simp add: token_owners_def)
  ultimately show ?thesis
    unfolding revoke_tokens_def revoked_token_eq
    by (intro access_ok_tokens [OF ok] tokens_ok_update [OF access_ok_parts(2) [OF ok]] a s) auto
qed

section \<open>Opening a session\<close>

lemma evict_leaves_63:
  assumes "\<And>s. p (revoked now s) = p s"
  shows "count_where (\<lambda>s. p s \<and> s_revoked_at s = None) (m_sessions (snd (evict_sessions now p d))) \<le> 63"
proof -
  let ?L = "filter (\<lambda>s. p s \<and> s_revoked_at s = None) (m_sessions d)"
  let ?O = "rev (sort_key (\<lambda>s. (s_created_at s, s_id s)) ?L)"
  have m: "mset ?O = mset ?L" by simp
  have e: "filter (\<lambda>s. p s \<and> s_revoked_at s = None) (update_where (\<lambda>s. s_id s \<in> set (evictable p d)) (revoked now) S) =
      filter (\<lambda>s. (p s \<and> s_revoked_at s = None) \<and> s_id s \<notin> set (evictable p d)) S" for S
    using assms by (induction S) (auto simp: update_where_def)
  have "length (filter (\<lambda>s. s_id s \<notin> set (evictable p d)) ?L) = length (filter (\<lambda>s. s_id s \<notin> set (evictable p d)) ?O)"
    by (rule mset_eq_length) (simp only: mset_filter m)
  also have "\<dots> = length (filter (\<lambda>s. s_id s \<notin> set (evictable p d)) (take 63 ?O @ drop 63 ?O))" by simp
  also have "\<dots> = length (filter (\<lambda>s. s_id s \<notin> set (evictable p d)) (take 63 ?O))"
    unfolding filter_append by (auto simp: evictable_def filter_empty_conv)
  also have "\<dots> \<le> 63" by (rule order_trans [OF length_filter_le]) simp
  finally show ?thesis
    unfolding evict_sessions_def snd_conv revoked_eq count_where_def by (simp add: e conj_commute conj_left_commute)
qed

text \<open>What the sessions are after ended ones are purged and the oldest evicted.\<close>

definition make_room :: "timestamp \<Rightarrow> (session_row \<Rightarrow> bool) \<Rightarrow> mdb \<Rightarrow> mdb" where
  "make_room now p d = snd (evict_sessions now p (purge_sessions now p d))"

lemma make_room_ok: "access_ok now d \<Longrightarrow> access_ok now (make_room t p d)"
  unfolding make_room_def by (intro evict_sessions_ok purge_sessions_ok)

lemma make_room_tables [simp]:
  "m_accounts (make_room t p d) = m_accounts d" "m_tokens (make_room t p d) = m_tokens d"
  "m_passwords (make_room t p d) = m_passwords d" "m_setups (make_room t p d) = m_setups d"
  by (simp_all add: make_room_def evict_sessions_def purge_sessions_def)

lemma make_room_sessions:
  assumes "s \<in> set (m_sessions (make_room t p d))"
  shows "\<exists>r \<in> set (m_sessions d). s = r \<or> s = revoked t r"
  using assms by (auto simp: make_room_def evict_sessions_def purge_sessions_def revoked_eq table_simps split: if_splits)

lemma sessions_bounded_insert:
  assumes "sessions_bounded S" "s_revoked_at s = None"
    and "s_method s = ByToken \<Longrightarrow> s_credential s = Some c \<Longrightarrow> unrevoked_of_token c S \<le> 63"
    and "s_method s = ByToken \<Longrightarrow> s_credential s = Some c"
    and "s_method s = ByPassword \<Longrightarrow> s_credential s = None \<and> unrevoked_of_password (s_account s) S \<le> 63"
  shows "sessions_bounded (S @ [s])"
  using assms unfolding sessions_bounded_def unrevoked_of_token_def unrevoked_of_password_def count_where_def
  by (cases "s_method s") (auto simp: le_Suc_eq)

lemma insert_session_ok:
  assumes ok: "access_ok now d" and ins: "insert_session s d = (Inr si, d')"
    and s: "s_revoked_at s = None" "session_shape s" "session_anchored d s"
    and room: "sessions_bounded (m_sessions d @ [s])"
  shows "access_ok now d'" "d' = d\<lparr>m_sessions := m_sessions d @ [s]\<rparr>"
    "si = \<lparr>si_id = s_id s, si_account = s_account s, si_credential = s_credential s, si_expires_at = s_expires_at s\<rparr>"
proof -
  have new: "\<And>r. r \<in> set (m_sessions d) \<Longrightarrow> s_id r \<noteq> s_id s \<and> s_hash r \<noteq> s_hash s"
    and d': "d' = d\<lparr>m_sessions := m_sessions d @ [s]\<rparr>"
    and si: "si = \<lparr>si_id = s_id s, si_account = s_account s, si_credential = s_credential s, si_expires_at = s_expires_at s\<rparr>"
    using ins by (auto simp: insert_session_def table_simps split: if_splits)
  have nid: "s_id s \<notin> s_id ` set (m_sessions d)" "s_hash s \<notin> s_hash ` set (m_sessions d)"
    using new by (metis imageE)+
  have "s_account s \<in> account_ids d"
    using s(3) unfolding session_anchored_def account_ids_def by (metis imageI)
  moreover have "(s_account s, c) \<in> token_owners d" if cr: "s_credential s = Some c" for c
  proof -
    have "s_method s = ByToken" using s(2) cr by (auto simp: session_shape_def split: session_method.splits)
    then obtain t where "t \<in> set (m_tokens d)" "t_account t = s_account s" "t_id t = c"
      using s(3) unfolding session_anchored_def cr by auto
    then show ?thesis unfolding token_owners_def by (metis (mono_tags, lifting) imageI)
  qed
  ultimately have "sessions_ok (account_ids d) (token_owners d) (m_sessions d @ [s])"
    using access_ok_parts(5) [OF ok] nid s(2) by (auto simp: sessions_ok_def)
  moreover have "\<And>r. r \<in> set (m_sessions d @ [s]) \<Longrightarrow> s_revoked_at r = None \<Longrightarrow> session_anchored d r"
    using access_ok_parts(6) [OF ok] s(3) by (auto simp: sessions_anchored_def)
  ultimately show "access_ok now d'" "d' = d\<lparr>m_sessions := m_sessions d @ [s]\<rparr>"
    "si = \<lparr>si_id = s_id s, si_account = s_account s, si_credential = s_credential s, si_expires_at = s_expires_at s\<rparr>"
    unfolding d' si using access_ok_sessions [OF ok _ room] by auto
qed

text \<open>The two logins.\<close>

lemma live_account_Some: "live_account i d = Some a \<Longrightarrow> a \<in> set (m_accounts d) \<and> a_id a = i \<and> a_active a \<and> a_deleted_at a = None"
  unfolding live_account_def by (auto dest: find_where_Some)

lemma live_account_None: "live_account i d = None \<longleftrightarrow> (\<forall>a \<in> set (m_accounts d). a_id a = i \<longrightarrow> a_active a \<longrightarrow> a_deleted_at a \<noteq> None)"
  unfolding live_account_def by (auto simp: find_None_iff)

lemma make_room_pair:
  "evict_sessions now p (purge_sessions now p d) = (evictable p (purge_sessions now p d), make_room now p d)"
  by (simp add: make_room_def evict_sessions_def)

lemma make_room_63:
  assumes "\<And>s. p (revoked now s) = p s"
  shows "count_where (\<lambda>s. p s \<and> s_revoked_at s = None) (m_sessions (make_room now p d)) \<le> 63"
  unfolding make_room_def using assms by (rule evict_leaves_63)

lemma create_password_session_cases:
  assumes "create_password_session now i request account generation h d = (Inr r, d')"
  obtains "r = None" "d' = d"
  | si d1 s where "r = Some si" "generation_current account generation d"
      "d1 = make_room now (\<lambda>s. s_account s = account \<and> s_method s = ByPassword) d"
      "s = \<lparr>s_id = i, s_hash = h, s_method = ByPassword, s_account = account, s_credential = None,
         s_generation = Some generation, s_created_at = now, s_expires_at = now + secs SESSION_SECS, s_revoked_at = None\<rparr>"
      "insert_session s d1 = (Inr si, d1\<lparr>m_sessions := m_sessions d1 @ [s]\<rparr>)"
      "same_tables (d1\<lparr>m_sessions := m_sessions d1 @ [s]\<rparr>) d'"
proof (cases "generation_current account generation d")
  case False
  with assms that(1) show ?thesis by (auto simp: create_password_session_def)
next
  case True
  define p :: "session_row \<Rightarrow> bool" where "p = (\<lambda>s. s_account s = account \<and> s_method s = ByPassword)"
  define s where "s = \<lparr>s_id = i, s_hash = h, s_method = ByPassword, s_account = account, s_credential = None,
         s_generation = Some generation, s_created_at = now, s_expires_at = now + secs SESSION_SECS, s_revoked_at = None\<rparr>"
  have "(let (evicted, d1) = evict_sessions now p (purge_sessions now p d)
       in try_eff (insert_session s) DatabaseError
            (\<lambda>session d2.
              let context = session_context account None (Some (si_id session)) request
              in (Inr (Some session), snd (record_audit now context ''session.create'' ''session'' (si_id session)
                   (audit_evictions now context evicted d2)))) d1) = (Inr r, d')"
    using assms True by (simp add: create_password_session_def p_def s_def Let_def)
  then obtain si d2 where i: "insert_session s (make_room now p d) = (Inr si, d2)" and r: "r = Some si"
    and st: "same_tables d2 d'"
    by (auto simp: make_room_pair Let_def same_tables_def audit_simps elim!: try_effE)
  from i have "d2 = (make_room now p d)\<lparr>m_sessions := m_sessions (make_room now p d) @ [s]\<rparr>"
    by (auto simp: insert_session_def split: if_splits)
  with i r st True show ?thesis by (intro that(2) [of si _ s]) (simp_all add: p_def s_def)
qed

lemma create_password_session_ok:
  assumes ok: "access_ok now d" and "create_password_session now i request account generation h d = (Inr r, d')"
  shows "access_ok now d'"
  using assms(2)
proof (cases rule: create_password_session_cases)
  case 1
  with ok show ?thesis by simp
next
  case (2 si d1 s)
  have ok1: "access_ok now d1" using ok 2(3) by (simp add: make_room_ok)
  have an: "session_anchored d1 s"
    using 2(2) by (auto simp: session_anchored_def 2(3,4) generation_current_def table_simps dest: live_account_Some)
  have "unrevoked_of_password account (m_sessions d1) \<le> 63"
    unfolding unrevoked_of_password_def 2(3) by (rule make_room_63) simp
  then have b: "sessions_bounded (m_sessions d1 @ [s])"
    by (intro sessions_bounded_insert [where c = 0] access_ok_parts(8) [OF ok1]) (simp_all add: 2(4))
  have "access_ok now (d1\<lparr>m_sessions := m_sessions d1 @ [s]\<rparr>)"
    by (rule insert_session_ok(1) [OF ok1 2(5) _ _ an b]) (simp_all add: 2(4) session_shape_def SESSION_SECS_def)
  with 2(6) show ?thesis by (simp add: access_ok_same)
qed

lemma used_token_ok:
  assumes ok: "access_ok now d"
  shows "access_ok now (d\<lparr>m_tokens := update_where p (\<lambda>c. c\<lparr>t_last_used_at := t\<rparr>) (m_tokens d)\<rparr>)"
proof -
  let ?u = "\<lambda>c. c\<lparr>t_last_used_at := t\<rparr>"
  let ?T = "update_where p ?u (m_tokens d)"
  have img: "(if p c then ?u c else c) \<in> set ?T" if "c \<in> set (m_tokens d)" for c
    using that by (auto simp: update_where_def)
  have "session_anchored (d\<lparr>m_tokens := ?T\<rparr>) s" if s: "session_anchored d s" for s
  proof (cases "s_method s")
    case ByToken
    then obtain c where "c \<in> set (m_tokens d)" "Some (t_id c) = s_credential s" "t_account c = s_account s"
        "t_revoked_at c = None" "s_expires_at s \<le> t_expires_at c"
      using s by (auto simp: session_anchored_def)
    with img [of c] s ByToken show ?thesis
      by (auto simp: session_anchored_def intro!: bexI [of _ "if p c then ?u c else c"])
  next
    case ByPassword
    with s show ?thesis by (simp add: session_anchored_def)
  qed
  then have s: "sessions_anchored (d\<lparr>m_tokens := ?T\<rparr>)"
    using access_ok_parts(6) [OF ok] by (simp add: sessions_anchored_def)
  have a: "tokens_anchored (d\<lparr>m_tokens := ?T\<rparr>)"
    using access_ok_parts(7) [OF ok] by (auto simp: tokens_anchored_def table_simps split: if_splits)
  have "tokens_bounded now ?T"
    using access_ok_parts(9) [OF ok] unfolding tokens_bounded_def
    by (auto simp: unexpired_token_def intro!: order_trans [OF count_update_le])
  moreover have "(\<lambda>c. (t_account c, t_id c)) ` set ?T = token_owners d"
    using token_owners_update [of p ?u d] by (simp add: token_owners_def)
  ultimately show ?thesis
    by (intro access_ok_tokens [OF ok] tokens_ok_update [OF access_ok_parts(2) [OF ok]] a s) auto
qed

lemma token_identity_Some:
  assumes "token_identity now h d = Some actor"
  obtains c a where "c \<in> set (m_tokens d)" "t_hash c = h" "token_live now c" "live_account (t_account c) d = Some a"
    "actor = row_identity a (Some (t_id c)) None ManagementToken"
  using assms by (auto simp: token_identity_def split: option.splits dest!: find_where_Some)

lemma create_session_cases:
  assumes "create_session now i request th h d = (Inr r, d')"
  obtains "r = None" "d' = d"
  | si d1 s cid c a c0 where "r = Some si" "c0 \<in> set (m_tokens d)" "t_id c0 = cid" "t_hash c0 = th" "token_live now c0"
      "live_account (t_account c0) d = Some a"
      "d1 = make_room now (\<lambda>s. s_credential s = Some cid) d" "c \<in> set (m_tokens d)" "t_id c = cid"
      "s = \<lparr>s_id = i, s_hash = h, s_method = ByToken, s_account = t_account c, s_credential = Some cid, s_generation = None,
         s_created_at = now, s_expires_at = min (t_expires_at c) (now + secs SESSION_SECS), s_revoked_at = None\<rparr>"
      "insert_session s d1 = (Inr si, d1\<lparr>m_sessions := m_sessions d1 @ [s]\<rparr>)"
      "same_tables (d1\<lparr>m_sessions := m_sessions d1 @ [s],
         m_tokens := update_where (\<lambda>c. t_id c = cid) (\<lambda>c. c\<lparr>t_last_used_at := Some now\<rparr>) (m_tokens d)\<rparr>) d'"
proof (cases "token_identity now th d")
  case None
  with assms that(1) show ?thesis by (auto simp: create_session_def)
next
  case (Some actor)
  then obtain c0 a where c0: "c0 \<in> set (m_tokens d)" "t_hash c0 = th" "token_live now c0" "live_account (t_account c0) d = Some a"
    and actor: "id_credential actor = Some (t_id c0)"
    by (elim token_identity_Some) (simp add: row_identity_def)
  define p :: "session_row \<Rightarrow> bool" where "p = (\<lambda>s. s_credential s = Some (t_id c0))"
  from assms Some actor obtain c where c: "find (\<lambda>c. t_id c = t_id c0) (m_tokens d) = Some c"
    by (auto simp: create_session_def make_room_pair Let_def split: option.splits)
  define s where "s = \<lparr>s_id = i, s_hash = h, s_method = ByToken, s_account = t_account c, s_credential = Some (t_id c0),
      s_generation = None, s_created_at = now, s_expires_at = min (t_expires_at c) (now + secs SESSION_SECS), s_revoked_at = None\<rparr>"
  have "try_eff (insert_session s) DatabaseError
       (\<lambda>session d2.
         let context = session_context (id_account actor) (Some (t_id c0)) (Some (si_id session)) request;
             d3 = snd (record_audit now context ''session.create'' ''session'' (si_id session)
                    (audit_evictions now context (evictable p (purge_sessions now p d)) d2))
         in (Inr (Some session), d3\<lparr>m_tokens := update_where (\<lambda>c. t_id c = t_id c0)
               (\<lambda>c. c\<lparr>t_last_used_at := Some now\<rparr>) (m_tokens d3)\<rparr>)) (make_room now p d) = (Inr r, d')"
    using assms Some actor c by (simp add: create_session_def p_def s_def make_room_pair Let_def)
  then obtain si d2 where i: "insert_session s (make_room now p d) = (Inr si, d2)" and r: "r = Some si"
    and st: "same_tables (d2\<lparr>m_tokens := update_where (\<lambda>c. t_id c = t_id c0) (\<lambda>c. c\<lparr>t_last_used_at := Some now\<rparr>) (m_tokens d2)\<rparr>) d'"
    by (auto simp: Let_def same_tables_def audit_simps elim!: try_effE)
  from i have d2: "d2 = (make_room now p d)\<lparr>m_sessions := m_sessions (make_room now p d) @ [s]\<rparr>"
    by (auto simp: insert_session_def split: if_splits)
  from c have "c \<in> set (m_tokens d)" "t_id c = t_id c0" by (auto dest: find_where_Some)
  with c0 i r st show ?thesis by (intro that(2) [of si c0 "t_id c0" a "make_room now p d" c s]) (simp_all add: p_def s_def d2 same_tables_def)
qed

lemma create_session_ok:
  assumes ok: "access_ok now d" and "create_session now i request th h d = (Inr r, d')"
  shows "access_ok now d'"
  using assms(2)
proof (cases rule: create_session_cases)
  case 1
  with ok show ?thesis by simp
next
  case (2 si d1 s cid c a c0)
  have ok1: "access_ok now d1" using ok 2(7) by (simp add: make_room_ok)
  have "c = c0"
    using 2(2,3,8,9) access_ok_parts(2) [OF ok] by (auto simp: tokens_ok_def intro: key_unique)
  then have live: "t_revoked_at c = None" "now < t_expires_at c" using 2(5) by (auto simp: token_live_def)
  have an: "session_anchored d1 s"
    using 2(6,8,9) live \<open>c = c0\<close>
    by (auto simp: session_anchored_def 2(7,10) dest!: live_account_Some)
  have "unrevoked_of_token cid (m_sessions d1) \<le> 63"
    unfolding unrevoked_of_token_def 2(7) by (rule make_room_63) simp
  then have b: "sessions_bounded (m_sessions d1 @ [s])"
    by (intro sessions_bounded_insert [where c = cid] access_ok_parts(8) [OF ok1]) (simp_all add: 2(10))
  have "access_ok now (d1\<lparr>m_sessions := m_sessions d1 @ [s]\<rparr>)"
    by (rule insert_session_ok(1) [OF ok1 2(11) _ _ an b])
      (use live in \<open>simp_all add: 2(10) session_shape_def SESSION_SECS_def\<close>)
  from used_token_ok [OF this, of "\<lambda>c. t_id c = cid" "Some now"] 2(12) show ?thesis
    by (simp add: access_ok_same 2(7))
qed

section \<open>Accounts\<close>

lemma audited: "record_audit now c act k i d = (e, d') \<Longrightarrow> same_tables d (set_metadata e' x d')"
proof -
  assume "record_audit now c act k i d = (e, d')"
  then have "d' = snd (record_audit now c act k i d)" by simp
  then show ?thesis by (simp add: same_tables_def audit_simps)
qed

text \<open>Replacing the accounts: what sessions, tokens and administrators need of the new ones.\<close>

lemma table_ok_mono:
  assumes "ids \<subseteq> ids'"
  shows "tokens_ok ids T \<Longrightarrow> tokens_ok ids' T" "passwords_ok ids P \<Longrightarrow> passwords_ok ids' P"
    "setups_ok ids U \<Longrightarrow> setups_ok ids' U" "sessions_ok ids owned S \<Longrightarrow> sessions_ok ids' owned S"
  using assms by (auto simp: table_ok_defs subset_iff)

lemma access_ok_accounts:
  assumes ok: "access_ok now d" and A: "accounts_ok A" "account_ids d \<subseteq> a_id ` set A"
    and live: "\<And>a. a \<in> set (m_accounts d) \<Longrightarrow> a_active a \<Longrightarrow> a_deleted_at a = None \<Longrightarrow>
       (\<exists>s \<in> set (m_sessions d). s_account s = a_id a \<and> s_revoked_at s = None) \<Longrightarrow>
       \<exists>b \<in> set A. a_id b = a_id a \<and> a_active b \<and> a_deleted_at b = None"
    and held: "\<And>a. a \<in> set (m_accounts d) \<Longrightarrow> a_deleted_at a = None \<Longrightarrow>
       (\<exists>c \<in> set (m_tokens d). t_account c = a_id a \<and> t_revoked_at c = None) \<Longrightarrow>
       \<exists>b \<in> set A. a_id b = a_id a \<and> a_deleted_at b = None"
    and admin: "A = [] \<or> is_initialized (d\<lparr>m_accounts := A\<rparr>)"
  shows "access_ok now (d\<lparr>m_accounts := A\<rparr>)"
proof -
  have "session_anchored (d\<lparr>m_accounts := A\<rparr>) s" if "s \<in> set (m_sessions d)" "s_revoked_at s = None" for s
  proof -
    have an: "session_anchored d s" using access_ok_parts(6) [OF ok] that by (simp add: sessions_anchored_def)
    then obtain a where a: "a \<in> set (m_accounts d)" "a_id a = s_account s" "a_active a" "a_deleted_at a = None"
      by (auto simp: session_anchored_def)
    with live [OF a(1,3,4)] that have "\<exists>b \<in> set A. a_id b = s_account s \<and> a_active b \<and> a_deleted_at b = None" by auto
    with an show ?thesis by (simp add: session_anchored_def cong: session_method.case_cong)
  qed
  then have s: "sessions_anchored (d\<lparr>m_accounts := A\<rparr>)" by (simp add: sessions_anchored_def)
  have t: "tokens_anchored (d\<lparr>m_accounts := A\<rparr>)"
    unfolding tokens_anchored_def
  proof (intro ballI impI)
    fix c assume c: "c \<in> set (m_tokens (d\<lparr>m_accounts := A\<rparr>))" "t_revoked_at c = None"
    then obtain a where "a \<in> set (m_accounts d)" "a_id a = t_account c" "a_deleted_at a = None"
      using access_ok_parts(7) [OF ok] by (auto simp: tokens_anchored_def)
    with held [of a] c show "\<exists>a \<in> set (m_accounts (d\<lparr>m_accounts := A\<rparr>)). a_id a = t_account c \<and> a_deleted_at a = None" by auto
  qed
  have i: "account_ids (d\<lparr>m_accounts := A\<rparr>) = a_id ` set A" by (simp add: account_ids_def)
  have o: "token_owners (d\<lparr>m_accounts := A\<rparr>) = token_owners d" by (simp add: token_owners_def)
  have "tables_ok (d\<lparr>m_accounts := A\<rparr>)"
    using A access_ok_parts(1-5) [OF ok] unfolding tables_ok_def i o
    by (simp add: table_ok_mono [OF A(2)])
  with s t access_ok_parts(8,9) [OF ok] admin show ?thesis
    by (simp add: access_ok_def admin_kept_def)
qed

lemma is_initialized_mono:
  assumes "is_initialized d" "set (m_accounts d) \<subseteq> set (m_accounts d')" "m_passwords d' = m_passwords d"
  shows "is_initialized d'"
  using assms by (auto simp: is_initialized_def password_ready_def exists_where_def list_ex_iff)

lemma insert_account_ok:
  assumes ok: "access_ok now d" and "insert_account i name r d = (Inr u, d')" and "m_accounts d \<noteq> []"
  shows "access_ok now d'" "\<exists>a. d' = d\<lparr>m_accounts := m_accounts d @ [a]\<rparr> \<and> a_id a = i \<and> a_role a = r \<and> a_active a \<and> a_deleted_at a = None"
proof -
  define a where "a = \<lparr>a_id = i, a_name = name, a_role = r, a_active = True, a_deleted_at = None\<rparr>"
  have new: "i \<notin> a_id ` set (m_accounts d)" and d': "d' = d\<lparr>m_accounts := m_accounts d @ [a]\<rparr>"
    using assms(2) by (auto simp: insert_account_def table_simps a_def split: if_splits)
  have a: "a_id a = i" "a_active a" "a_deleted_at a = None" "a_role a = r" by (simp_all add: a_def)
  have "is_initialized d" using access_ok_parts(10) [OF ok] assms(3) by (simp add: admin_kept_def)
  then have "is_initialized (d\<lparr>m_accounts := m_accounts d @ [a]\<rparr>)" by (rule is_initialized_mono) auto
  moreover have "accounts_ok (m_accounts d @ [a])"
    using access_ok_parts(1) [OF ok] new a by (auto simp: accounts_ok_def)
  ultimately show "access_ok now d'"
    unfolding d' by (intro access_ok_accounts [OF ok]) (auto simp: account_ids_def)
  show "\<exists>a. d' = d\<lparr>m_accounts := m_accounts d @ [a]\<rparr> \<and> a_id a = i \<and> a_role a = r \<and> a_active a \<and> a_deleted_at a = None"
    using d' a by blast
qed

lemma create_account_ok:
  assumes ok: "access_ok now d" and "create_account now c i name r d = (Inr x, d')"
  shows "access_ok now d'"
proof -
  from assms(2) obtain d1 where ne: "m_accounts d \<noteq> []" and ins: "insert_account i name r d = (Inr (), d1)"
    and d': "d' = snd (record_audit now c ''account.create'' ''account'' i d1)"
    by (auto simp: create_account_def elim!: try_effE split: if_splits)
  from insert_account_ok(1) [OF ok ins ne] have "access_ok now d1" .
  moreover have "same_tables d1 d'" by (simp add: d' same_tables_def audit_simps)
  ultimately show ?thesis by (simp add: access_ok_same)
qed

lemma exists_account:
  assumes "access_ok now d" "find (\<lambda>a. a_id a = i \<and> a_deleted_at a = None) (m_accounts d) = Some a"
  shows "a \<in> set (m_accounts d)" "a_id a = i" "a_deleted_at a = None" "\<And>b. b \<in> set (m_accounts d) \<Longrightarrow> a_id b = i \<Longrightarrow> b = a"
  using assms(2) access_ok_parts(1) [OF assms(1)] unfolding accounts_ok_def
  by (auto dest!: find_where_Some intro: key_unique)

text \<open>An update of one account's columns.\<close>

lemma accounts_ok_update:
  assumes "accounts_ok A" and "\<And>a. a_id (u a) = a_id a" "\<And>a. p a \<Longrightarrow> a_deleted_at (u a) \<noteq> None \<Longrightarrow> a \<in> set A \<Longrightarrow> \<not> a_active (u a)"
  shows "accounts_ok (update_where p u A)" "a_id ` set (update_where p u A) = a_id ` set A"
proof -
  have m: "map a_id (update_where p u A) = map a_id A" by (rule map_update_where) (simp add: assms(2))
  then show "a_id ` set (update_where p u A) = a_id ` set A" by (metis set_map)
  show "accounts_ok (update_where p u A)"
    using assms(1,3) unfolding accounts_ok_def m set_update_where by (auto split: if_splits)
qed

lemma rename_account_ok:
  assumes ok: "access_ok now d" and "rename_account now c i old raw d = (Inr x, d')"
  shows "access_ok now d'"
proof (cases "x")
  case False
  with assms show ?thesis by (auto simp: rename_account_def Let_def split: if_splits prod.splits)
next
  case True
  let ?u = "\<lambda>a. a\<lparr>a_name := trim raw\<rparr>"
  let ?A = "update_where (\<lambda>a. a_id a = i) ?u (m_accounts d)"
  have st: "same_tables (d\<lparr>m_accounts := ?A\<rparr>) d'"
    using assms(2) True
    by (auto simp: rename_account_def Let_def audited split: if_splits prod.splits)
  have img: "(if a_id a = i then ?u a else a) \<in> set ?A" if "a \<in> set (m_accounts d)" for a
    using that by (auto simp: update_where_def)
  have U: "accounts_ok ?A" "a_id ` set ?A = a_id ` set (m_accounts d)"
    by (rule accounts_ok_update [OF access_ok_parts(1) [OF ok]]; use access_ok_parts(1) [OF ok] in \<open>simp add: accounts_ok_def\<close>)+
  have "is_initialized (d\<lparr>m_accounts := ?A\<rparr>)" if "is_initialized d"
  proof -
    from that obtain a where a: "a \<in> set (m_accounts d)" "live_admin a" "password_ready (a_id a) d"
      by (auto simp: is_initialized_def table_simps)
    let ?b = "if a_id a = i then ?u a else a"
    have "live_admin ?b \<and> password_ready (a_id ?b) (d\<lparr>m_accounts := ?A\<rparr>)"
      using a(2,3) by (auto simp: live_admin_def password_ready_def)
    with img [OF a(1)] show ?thesis
      unfolding is_initialized_def exists_where_iff by (intro bexI [of _ ?b]) simp_all
  qed
  then have ad: "?A = [] \<or> is_initialized (d\<lparr>m_accounts := ?A\<rparr>)"
    using access_ok_parts(10) [OF ok] by (auto simp: admin_kept_def update_where_def)
  have "access_ok now (d\<lparr>m_accounts := ?A\<rparr>)"
  proof (rule access_ok_accounts [OF ok U(1) _ _ _ ad])
    fix a assume a: "a \<in> set (m_accounts d)"
    let ?b = "if a_id a = i then ?u a else a"
    show "\<exists>b \<in> set ?A. a_id b = a_id a \<and> a_active b \<and> a_deleted_at b = None" if "a_active a" "a_deleted_at a = None"
      using img [OF a] that by (intro bexI [of _ ?b]) auto
    show "\<exists>b \<in> set ?A. a_id b = a_id a \<and> a_deleted_at b = None" if "a_deleted_at a = None"
      using img [OF a] that by (intro bexI [of _ ?b]) auto
  qed (simp add: U(2) account_ids_def)
  with st show ?thesis by (simp add: access_ok_same)
qed

definition access_withdrawn :: "timestamp \<Rightarrow> uuid \<Rightarrow> bool \<Rightarrow> bool \<Rightarrow> mdb \<Rightarrow> mdb" where
  "access_withdrawn now i active deleted d =
     (let d1 = (if active then d else revoke_sessions now (\<lambda>s. s_account s = i) d)
      in if deleted then revoke_tokens now (\<lambda>c. t_account c = i) d1 else d1)"

lemma access_withdrawn_tables [simp]:
  "m_accounts (access_withdrawn now i active deleted d) = m_accounts d"
  "m_passwords (access_withdrawn now i active deleted d) = m_passwords d"
  by (simp_all add: access_withdrawn_def revoke_sessions_def revoke_tokens_def)

lemma set_account_eq:
  "set_account now i role active deleted d =
     access_withdrawn now i active deleted d\<lparr>m_accounts := update_where (\<lambda>a. a_id a = i)
       (\<lambda>a. a\<lparr>a_role := role, a_active := active, a_deleted_at := if deleted then Some now else None\<rparr>) (m_accounts d)\<rparr>"
  by (simp add: set_account_def access_withdrawn_def revoke_sessions_def revoke_tokens_def Let_def)

lemma no_session_left:
  assumes "s \<in> set (m_sessions (revoke_sessions now p d))" "p s" "\<And>s. p (revoked now s) = p s"
  shows "s_revoked_at s \<noteq> None"
  using assms by (auto simp: revoke_sessions_def revoked_eq table_simps split: if_splits)

lemma no_token_left:
  assumes "c \<in> set (m_tokens (revoke_tokens now p d))" "p c" "\<And>c. p (revoked_token now c) = p c"
  shows "t_revoked_at c \<noteq> None"
  using assms by (auto simp: revoke_tokens_def revoked_token_eq table_simps split: if_splits)

lemma access_withdrawn_ok:
  assumes ok: "access_ok now d" and del: "deleted \<longrightarrow> \<not> active"
  shows "access_ok now (access_withdrawn now i active deleted d)"
    "\<not> active \<Longrightarrow> s \<in> set (m_sessions (access_withdrawn now i active deleted d)) \<Longrightarrow> s_account s = i \<Longrightarrow> s_revoked_at s \<noteq> None"
    "deleted \<Longrightarrow> c \<in> set (m_tokens (access_withdrawn now i active deleted d)) \<Longrightarrow> t_account c = i \<Longrightarrow> t_revoked_at c \<noteq> None"
proof -
  let ?p = "\<lambda>s :: session_row. s_account s = i"
  have ended: "s_revoked_at r \<noteq> None" if "r \<in> set (m_sessions (revoke_sessions now ?p d))" "s_account r = i" for r
    using no_session_left [OF that(1), of] that(2) by simp
  have ok1: "access_ok now (if active then d else revoke_sessions now ?p d)"
    using ok by (simp add: revoke_sessions_ok)
  have "access_ok now (revoke_tokens now (\<lambda>c. t_account c = i) (revoke_sessions now ?p d))"
    by (rule revoke_tokens_ok [OF revoke_sessions_ok [OF ok]]) (use ended in auto)
  with ok1 del show "access_ok now (access_withdrawn now i active deleted d)"
    by (auto simp: access_withdrawn_def)
  show "s_revoked_at s \<noteq> None" if "\<not> active" "s \<in> set (m_sessions (access_withdrawn now i active deleted d))" "s_account s = i"
    using that ended [of s] by (simp add: access_withdrawn_def Let_def revoke_tokens_def split: if_splits)
  show "t_revoked_at c \<noteq> None" if "deleted" "c \<in> set (m_tokens (access_withdrawn now i active deleted d))" "t_account c = i"
    using that no_token_left [of c now "\<lambda>c. t_account c = i"] by (auto simp: access_withdrawn_def Let_def)
qed

text \<open>The guard of \<open>change\_in\<close>: some administrator who can log in remains.\<close>

lemma guard_keeps_admin:
  assumes init: "is_initialized d" and a: "a \<in> set (m_accounts d)" "\<And>b. b \<in> set (m_accounts d) \<Longrightarrow> a_id b = a_id a \<Longrightarrow> b = a"
    and guard: "\<not> (a_role a = Admin \<and> a_active a \<and> (role \<noteq> Admin \<or> \<not> active) \<and> last_admin (a_id a) d)"
  shows "(role = Admin \<and> active \<and> password_ready (a_id a) d) \<or>
    (\<exists>b \<in> set (m_accounts d). a_id b \<noteq> a_id a \<and> live_admin b \<and> password_ready (a_id b) d)"
proof -
  obtain b where b: "b \<in> set (m_accounts d)" "live_admin b" "password_ready (a_id b) d"
    using init by (auto simp: is_initialized_def exists_where_iff)
  show ?thesis
  proof (cases "a_id b = a_id a")
    case False
    with b show ?thesis by blast
  next
    case True
    with a(2) b have "b = a" by blast
    with b guard show ?thesis by (auto simp: last_admin_def live_admin_def exists_where_iff)
  qed
qed

lemma alter_account_ok:
  assumes ok: "access_ok now d" and a: "a \<in> set (m_accounts d)" "\<And>b. b \<in> set (m_accounts d) \<Longrightarrow> a_id b = a_id a \<Longrightarrow> b = a"
    and del: "deleted \<longrightarrow> \<not> active" and alter: "alter_account now c a role active deleted act d = (Inr x, d')"
  shows "access_ok now d'"
proof (cases x)
  case False
  with ok alter show ?thesis by (auto simp: alter_account_def split: if_splits prod.splits)
next
  case True
  let ?u = "\<lambda>a. a\<lparr>a_role := role, a_active := active, a_deleted_at := if deleted then Some now else None\<rparr>"
  let ?A = "update_where (\<lambda>b. a_id b = a_id a) ?u (m_accounts d)"
  define d1 where "d1 = access_withdrawn now (a_id a) active deleted d"
  have guard: "\<not> (a_role a = Admin \<and> a_active a \<and> (role \<noteq> Admin \<or> \<not> active) \<and> last_admin (a_id a) d)"
    and st: "same_tables (d1\<lparr>m_accounts := ?A\<rparr>) d'"
    using alter True by (auto simp: alter_account_def Let_def audited d1_def set_account_eq split: if_splits prod.splits)
  have d1: "m_accounts d1 = m_accounts d" "m_passwords d1 = m_passwords d" by (simp_all add: d1_def)
  have ok1: "access_ok now d1" unfolding d1_def by (rule access_withdrawn_ok(1) [OF ok del])
  have img: "(if a_id b = a_id a then ?u b else b) \<in> set ?A" if "b \<in> set (m_accounts d)" for b
    using that by (auto simp: update_where_def)
  have U: "accounts_ok ?A" "a_id ` set ?A = a_id ` set (m_accounts d)"
    by (rule accounts_ok_update [OF access_ok_parts(1) [OF ok]]; use del in \<open>simp split: if_splits\<close>)+
  have "is_initialized d" using access_ok_parts(10) [OF ok] a(1) by (auto simp: admin_kept_def)
  then have "(role = Admin \<and> active \<and> password_ready (a_id a) d) \<or>
    (\<exists>b \<in> set (m_accounts d). a_id b \<noteq> a_id a \<and> live_admin b \<and> password_ready (a_id b) d)"
    using a(1) a(2) guard by (rule guard_keeps_admin)
  then obtain b where b: "b \<in> set ?A" "live_admin b" "password_ready (a_id b) d"
  proof (elim disjE bexE conjE)
    assume n: "role = Admin" active "password_ready (a_id a) d"
    with img [OF a(1)] del show ?thesis by (intro that [of "?u a"]) (auto simp: live_admin_def)
  next
    fix b assume n: "b \<in> set (m_accounts d)" "a_id b \<noteq> a_id a" "live_admin b" "password_ready (a_id b) d"
    with img [OF n(1)] show ?thesis by (intro that [of b]) simp_all
  qed
  then have init: "is_initialized (d1\<lparr>m_accounts := ?A\<rparr>)"
    unfolding is_initialized_def exists_where_iff by (intro bexI [of _ b]) (auto simp: password_ready_def d1)
  have "access_ok now (d1\<lparr>m_accounts := ?A\<rparr>)"
  proof (rule access_ok_accounts [OF ok1 U(1)])
    fix b assume "b \<in> set (m_accounts d1)"
    then have b: "b \<in> set (m_accounts d)" by (simp add: d1)
    let ?b = "if a_id b = a_id a then ?u b else b"
    show "\<exists>b' \<in> set ?A. a_id b' = a_id b \<and> a_active b' \<and> a_deleted_at b' = None"
      if "a_active b" "a_deleted_at b = None" "\<exists>s \<in> set (m_sessions d1). s_account s = a_id b \<and> s_revoked_at s = None"
    proof (cases "a_id b = a_id a")
      case True
      have active
      proof (rule ccontr)
        assume n: "\<not> active"
        from that(3) True obtain s where "s \<in> set (m_sessions d1)" "s_account s = a_id a" "s_revoked_at s = None" by auto
        with access_withdrawn_ok(2) [OF ok del n, of s "a_id a"] show False by (auto simp: d1_def)
      qed
      with img [OF b] True that del show ?thesis by (intro bexI [of _ ?b]) auto
    next
      case False
      with img [OF b] that show ?thesis by (intro bexI [of _ ?b]) auto
    qed
    show "\<exists>b' \<in> set ?A. a_id b' = a_id b \<and> a_deleted_at b' = None"
      if "a_deleted_at b = None" "\<exists>t \<in> set (m_tokens d1). t_account t = a_id b \<and> t_revoked_at t = None"
    proof (cases "a_id b = a_id a")
      case True
      have "\<not> deleted"
      proof
        assume n: "deleted"
        from that(2) True obtain t where "t \<in> set (m_tokens d1)" "t_account t = a_id a" "t_revoked_at t = None" by auto
        with access_withdrawn_ok(3) [OF ok del n, of t "a_id a"] show False by (auto simp: d1_def)
      qed
      with img [OF b] True that show ?thesis by (intro bexI [of _ ?b]) auto
    next
      case False
      with img [OF b] that show ?thesis by (intro bexI [of _ ?b]) auto
    qed
  qed (use init in \<open>simp_all add: U(2) account_ids_def d1\<close>)
  with st show ?thesis by (simp add: access_ok_same)
qed

lemma change_account_ok:
  assumes ok: "access_ok now d" and change: "change_account now c i change d = (Inr x, d')"
  shows "access_ok now d'"
proof -
  from change obtain a where f: "find (\<lambda>a. a_id a = i \<and> a_deleted_at a = None) (m_accounts d) = Some a"
    by (auto simp: change_account_def split: option.splits)
  note a = exists_account [OF ok f]
  have un: "\<And>b. b \<in> set (m_accounts d) \<Longrightarrow> a_id b = a_id a \<Longrightarrow> b = a" using a by blast
  show ?thesis
    using change f by (cases change) (auto simp: change_account_def
        dest: rename_account_ok [OF ok] intro: alter_account_ok [OF ok a(1) un])
qed

section \<open>Tokens\<close>

lemma revoke_session_ok:
  assumes "access_ok now d" "revoke_session now c account s d = (Inr x, d')"
  shows "access_ok now d'"
proof -
  let ?p = "\<lambda>r. s_id r = s \<and> s_account r = account"
  have "same_tables (revoke_sessions now ?p d) d'"
    using assms(2) by (auto simp: revoke_session_def Let_def same_tables_def audit_simps split: if_splits)
  with revoke_sessions_ok [OF assms(1)] show ?thesis by (simp add: access_ok_same)
qed

lemma count_append: "count_where p (xs @ ys) = count_where p xs + count_where p ys"
  by (simp add: count_where_def)

lemma insert_key_cases:
  assumes "insert_key now i account key d = (Inr cd, d')"
  obtains c where "live_account account d \<noteq> None"
    "count_where (\<lambda>c. t_account c = account \<and> unexpired_token now c) (m_tokens d) < TOKEN_LIMIT"
    "t_id c = i" "t_account c = account" "t_hash c = nc_hash key" "t_version c = 1" "t_created_at c = now" "now < t_expires_at c"
    "t_revoked_at c = None" "i \<notin> t_id ` set (m_tokens d)" "nc_hash key \<notin> t_hash ` set (m_tokens d)"
    "d' = d\<lparr>m_tokens := m_tokens d @ [c]\<rparr>" "cd = \<lparr>cd_id = i, cd_account = account, cd_expires_at = t_expires_at c\<rparr>"
proof -
  let ?c = "\<lparr>t_id = i, t_account = account, t_label = nc_label key, t_prefix = nc_prefix key, t_hash = nc_hash key,
      t_version = 1, t_created_at = now, t_expires_at = nc_expires_at key, t_revoked_at = None, t_last_used_at = None\<rparr>"
  from assms have l: "live_account account d \<noteq> None"
    "count_where (\<lambda>c. t_account c = account \<and> unexpired_token now c) (m_tokens d) < TOKEN_LIMIT"
    and ins: "insert_token now i account key d = (Inr cd, d')"
    by (auto simp: insert_key_def ret_ok_def elim!: try_effE split: if_splits)
  from ins have "now < nc_expires_at key" "\<forall>c \<in> set (m_tokens d). t_id c \<noteq> i \<and> t_hash c \<noteq> nc_hash key"
    "d' = d\<lparr>m_tokens := m_tokens d @ [?c]\<rparr>" "cd = \<lparr>cd_id = i, cd_account = account, cd_expires_at = nc_expires_at key\<rparr>"
    by (auto simp: insert_token_def exists_where_iff split: if_splits)
  with l show ?thesis by (intro that [of ?c]) auto
qed

lemma insert_key_ok:
  assumes ok: "access_ok now d" and ins: "insert_key now i account key d = (Inr cd, d')"
  shows "access_ok now d'"
  using ins
proof (cases rule: insert_key_cases)
  case (1 c)
  let ?T = "m_tokens d @ [c]"
  from 1(1) obtain a where a: "a \<in> set (m_accounts d)" "a_id a = account" "a_deleted_at a = None"
    by (auto dest: live_account_Some)
  have "account \<in> account_ids d" using a by (auto simp: account_ids_def)
  then have T: "tokens_ok (account_ids d) ?T"
    using access_ok_parts(2) [OF ok] 1(3-8,10,11) by (auto simp: tokens_ok_def)
  have "tokens_bounded now ?T"
    using access_ok_parts(9) [OF ok] 1(2,4) by (auto simp: tokens_bounded_def count_append count_where_def)
  moreover have "tokens_anchored (d\<lparr>m_tokens := ?T\<rparr>)"
    using access_ok_parts(7) [OF ok] a 1(4) by (auto simp: tokens_anchored_def)
  moreover have "session_anchored (d\<lparr>m_tokens := ?T\<rparr>) s" if "session_anchored d s" for s
    using that by (cases "s_method s") (auto simp: session_anchored_def)
  then have "sessions_anchored (d\<lparr>m_tokens := ?T\<rparr>)"
    using access_ok_parts(6) [OF ok] by (auto simp: sessions_anchored_def)
  moreover have s: "sessions_ok (account_ids d) (token_owners (d\<lparr>m_tokens := ?T\<rparr>)) (m_sessions d)"
    using access_ok_parts(5) [OF ok] by (auto simp: sessions_ok_def token_owners_def)
  ultimately show ?thesis
    using ok T unfolding 1(12)
    by (simp add: access_ok_def tables_ok_def account_ids_def admin_kept_def is_initialized_def password_ready_def)
qed

lemma same_credential_audit: "same_tables d (record_credential_audit now c act i d)"
  by (simp add: same_tables_def audit_simps)

lemma issue_credential_ok:
  assumes "access_ok now d" "issue_credential now c i account key d = (Inr cd, d')"
  shows "access_ok now d'"
proof -
  obtain d1 where "insert_key now i account key d = (Inr cd, d1)" "same_tables d1 d'"
    using assms(2) by (auto simp: issue_credential_def same_credential_audit elim!: try_effE)
  with insert_key_ok [OF assms(1)] show ?thesis by (metis access_ok_same)
qed

lemma revoke_credential_ok:
  assumes ok: "access_ok now d" and "revoke_credential now c i d = (Inr x, d')"
  shows "access_ok now d'"
proof (cases x)
  case False
  with assms show ?thesis by (auto simp: revoke_credential_def split: if_splits)
next
  case True
  let ?p = "\<lambda>s :: session_row. s_credential s = Some i"
  have "revoke_sessions now ?p (revoke_tokens now (\<lambda>t. t_id t = i) d) = revoke_tokens now (\<lambda>t. t_id t = i) (revoke_sessions now ?p d)"
    by (simp add: revoke_sessions_def revoke_tokens_def)
  moreover have "access_ok now (revoke_tokens now (\<lambda>t. t_id t = i) (revoke_sessions now ?p d))"
    by (rule revoke_tokens_ok [OF revoke_sessions_ok [OF ok]]) (use no_session_left [of _ now ?p d] in auto)
  moreover have "same_tables (revoke_sessions now ?p (revoke_tokens now (\<lambda>t. t_id t = i) d)) d'"
    using assms(2) True by (auto simp: revoke_credential_def same_credential_audit split: if_splits)
  ultimately show ?thesis by (simp add: access_ok_same)
qed

lemma issue_personal_ok:
  assumes "access_ok now d" "issue_personal now i r h key d = (Inr cd, d')"
  shows "access_ok now d'"
proof -
  obtain account d1 where "insert_key now i account key d = (Inr cd, d1)" "same_tables d1 d'"
    using assms(2) by (auto simp: issue_personal_def same_credential_audit elim!: try_effE split: sum.splits prod.splits)
  with insert_key_ok [OF assms(1)] show ?thesis by (metis access_ok_same)
qed

lemma revoke_personal_ok:
  "access_ok now d \<Longrightarrow> revoke_personal now r h i d = (Inr x, d') \<Longrightarrow> access_ok now d'"
  by (auto simp: revoke_personal_def split: sum.splits if_splits intro: revoke_credential_ok)

lemma rename_profile_ok:
  "access_ok now d \<Longrightarrow> rename_profile now r h name d = (Inr x, d') \<Longrightarrow> access_ok now d'"
  by (auto simp: rename_profile_def split: sum.splits intro: change_account_ok)

section \<open>Passwords\<close>

lemma access_ok_passwords:
  assumes ok: "access_ok now d" and P: "passwords_ok (account_ids d) P"
    and held: "\<And>s. s \<in> set (m_sessions d) \<Longrightarrow> s_revoked_at s = None \<Longrightarrow> s_method s = ByPassword \<Longrightarrow>
       \<exists>p \<in> set P. p_account p = s_account s \<and> p_generation p = s_generation s"
    and ready: "\<And>i. password_ready i d \<Longrightarrow> password_ready i (d\<lparr>m_passwords := P\<rparr>)"
  shows "access_ok now (d\<lparr>m_passwords := P\<rparr>)"
proof -
  have "session_anchored (d\<lparr>m_passwords := P\<rparr>) s" if s: "s \<in> set (m_sessions d)" "s_revoked_at s = None" for s
  proof -
    have "session_anchored d s" using access_ok_parts(6) [OF ok] s by (simp add: sessions_anchored_def)
    with held [OF s] show ?thesis by (cases "s_method s") (simp_all add: session_anchored_def)
  qed
  then have "sessions_anchored (d\<lparr>m_passwords := P\<rparr>)" by (simp add: sessions_anchored_def)
  moreover have "admin_kept (d\<lparr>m_passwords := P\<rparr>)"
    using access_ok_parts(10) [OF ok] ready by (auto simp: admin_kept_def is_initialized_def exists_where_iff)
  ultimately show ?thesis
    using ok P by (simp add: access_ok_def tables_ok_def account_ids_def token_owners_def tokens_anchored_def)
qed

lemma password_ready_iff: "password_ready i d \<longleftrightarrow> (\<exists>p \<in> set (m_passwords d). p_account p = i \<and> p_hash p \<noteq> None)"
  by (simp add: password_ready_def exists_where_iff)

text \<open>Giving rows a new password that no open session was authenticated by.\<close>

lemma update_passwords_ok:
  assumes ok: "access_ok now d" and u: "\<And>q. p_account (u q) = p_account q" "\<And>q. p_hash (u q) \<noteq> None"
      "\<And>q. password_shape (u q)"
    and logins: "distinct (map p_login (update_where p u (m_passwords d)))"
    and free: "\<And>s q. s \<in> set (m_sessions d) \<Longrightarrow> s_revoked_at s = None \<Longrightarrow> s_method s = ByPassword \<Longrightarrow>
       q \<in> set (m_passwords d) \<Longrightarrow> p q \<Longrightarrow> p_account q = s_account s \<Longrightarrow> p_generation q = s_generation s \<Longrightarrow> False"
  shows "access_ok now (d\<lparr>m_passwords := update_where p u (m_passwords d)\<rparr>)"
proof (rule access_ok_passwords [OF ok])
  let ?P = "update_where p u (m_passwords d)"
  have img: "(if p q then u q else q) \<in> set ?P" if "q \<in> set (m_passwords d)" for q
    using that by (auto simp: update_where_def)
  have "map p_account ?P = map p_account (m_passwords d)" by (rule map_update_where) (simp add: u)
  then show "passwords_ok (account_ids d) ?P"
    using access_ok_parts(3) [OF ok] u logins by (auto simp: passwords_ok_def set_update_where)
  show "\<exists>q \<in> set ?P. p_account q = s_account s \<and> p_generation q = s_generation s"
    if s: "s \<in> set (m_sessions d)" "s_revoked_at s = None" "s_method s = ByPassword" for s
  proof -
    have "session_anchored d s" using access_ok_parts(6) [OF ok] s(1,2) by (simp add: sessions_anchored_def)
    then obtain q where q: "q \<in> set (m_passwords d)" "p_account q = s_account s" "p_generation q = s_generation s"
      using s(3) by (auto simp: session_anchored_def)
    have "\<not> p q" using free [OF s q(1) _ q(2,3)] by blast
    with img [OF q(1)] q(2,3) show ?thesis by (intro bexI [of _ q]) simp_all
  qed
  show "password_ready i (d\<lparr>m_passwords := ?P\<rparr>)" if r: "password_ready i d" for i
  proof -
    obtain q where q: "q \<in> set (m_passwords d)" "p_account q = i" "p_hash q \<noteq> None" using r by (auto simp: password_ready_iff)
    let ?q = "if p q then u q else q"
    have "p_account ?q = i \<and> p_hash ?q \<noteq> None" using q u by simp
    with img [OF q(1)] show ?thesis unfolding password_ready_iff by (intro bexI [of _ ?q]) simp_all
  qed
qed

lemma set_password_ok:
  assumes ok: "access_ok now d" and "set_password now p h g d = (Inr n, d')"
    and free: "\<And>s q. s \<in> set (m_sessions d) \<Longrightarrow> s_revoked_at s = None \<Longrightarrow> s_method s = ByPassword \<Longrightarrow>
       q \<in> set (m_passwords d) \<Longrightarrow> p q \<Longrightarrow> p_account q = s_account s \<Longrightarrow> p_generation q = s_generation s \<Longrightarrow> False"
  shows "access_ok now d'"
proof -
  let ?u = "\<lambda>r. r\<lparr>p_hash := Some h, p_generation := Some g, p_changed_at := Some now\<rparr>"
  have d': "d' = d\<lparr>m_passwords := update_where p ?u (m_passwords d)\<rparr>"
    using assms(2) by (auto simp: set_password_def split: if_splits)
  have "map p_login (update_where p ?u (m_passwords d)) = map p_login (m_passwords d)" by (rule map_update_where) simp
  then have "distinct (map p_login (update_where p ?u (m_passwords d)))"
    using access_ok_parts(3) [OF ok] by (simp add: passwords_ok_def)
  then show ?thesis
    unfolding d' by (intro update_passwords_ok [OF ok]) (auto simp: password_shape_def intro: free)
qed

lemma ended_sessions: "s \<in> set (m_sessions (revoke_sessions now (\<lambda>r. s_account r = i) d)) \<Longrightarrow> s_account s = i \<Longrightarrow> s_revoked_at s \<noteq> None"
  using no_session_left [of s now "\<lambda>r. s_account r = i" d] by simp

lemma change_password_False: "change_password now g r h verified new d = (Inr False, d') \<Longrightarrow> d' = d"
  by (auto simp: change_password_def set_password_def elim!: try_effE split: option.splits if_splits)

lemma change_password_True:
  assumes "change_password now g r h verified new d = (Inr True, d')"
  obtains s n d1 where "s \<in> set (m_sessions d)" "s_hash s = h" "s_method s = ByPassword" "session_unexpired now s"
    "s_generation s = Some verified" "generation_current (s_account s) verified d"
    "set_password now (\<lambda>p. p_account p = s_account s \<and> p_generation p = Some verified) new g d = (Inr n, d1)"
    "same_tables (revoke_sessions now (\<lambda>r. s_account r = s_account s) d1) d'"
proof -
  from assms obtain s where f: "find (\<lambda>s. s_hash s = h \<and> s_method s = ByPassword \<and> session_unexpired now s \<and>
            s_generation s = Some verified \<and> generation_current (s_account s) verified d) (m_sessions d) = Some s"
    by (auto simp: change_password_def split: option.splits)
  let ?hit = "\<lambda>p. p_account p = s_account s \<and> p_generation p = Some verified"
  have "try_eff (set_password now ?hit new g) DatabaseError (\<lambda>n d1.
             if n \<noteq> 1 then (Inr False, d)
             else (Inr True, snd (record_audit now (session_context (s_account s) None (Some (s_id s)) r)
                   ''account.password_change'' ''account'' (s_account s)
                   (revoke_sessions now (\<lambda>r. s_account r = s_account s) d1)))) d = (Inr True, d')"
    using assms f by (simp add: change_password_def)
  then obtain n d1 where "set_password now ?hit new g d = (Inr n, d1)"
    and "same_tables (revoke_sessions now (\<lambda>r. s_account r = s_account s) d1) d'"
    by (auto simp: same_tables_def audit_simps elim!: try_effE split: if_splits)
  with find_where_Some [OF f] show ?thesis by (intro that [of s n d1]) simp_all
qed

lemma change_password_ok:
  assumes ok: "access_ok now d" and "change_password now g r h verified new d = (Inr x, d')"
  shows "access_ok now d'"
proof (cases x)
  case False
  with assms show ?thesis by (auto dest: change_password_False)
next
  case True
  with assms(2) have "change_password now g r h verified new d = (Inr True, d')" by simp
  then show ?thesis
  proof (cases rule: change_password_True)
    case (1 s n d1)
    let ?d0 = "revoke_sessions now (\<lambda>r. s_account r = s_account s) d"
    have "set_password now (\<lambda>p. p_account p = s_account s \<and> p_generation p = Some verified) new g ?d0 =
        (Inr n, revoke_sessions now (\<lambda>r. s_account r = s_account s) d1)"
      using 1(7) by (auto simp: set_password_def revoke_sessions_def split: if_splits)
    then have "access_ok now (revoke_sessions now (\<lambda>r. s_account r = s_account s) d1)"
      by (rule set_password_ok [OF revoke_sessions_ok [OF ok]]) (use ended_sessions in fastforce)
    with 1(8) show ?thesis by (simp add: access_ok_same)
  qed
qed

lemma distinct_login_update:
  assumes P: "distinct (map p_account P)" "distinct (map p_login P)"
    and new: "\<forall>p \<in> set P. p_login p = login \<longrightarrow> p_account p = i"
    and u: "\<And>q. p_account (u q) = p_account q" "\<And>q. p_login (u q) = login"
  shows "distinct (map p_login (update_where (\<lambda>p. p_account p = i) u P))"
proof -
  let ?U = "update_where (\<lambda>p. p_account p = i) u P"
  have "map p_account ?U = map p_account P" by (rule map_update_where) (simp add: u)
  then have "distinct ?U" using P(1) by (metis distinct_map)
  moreover have "inj_on p_login (set ?U)"
  proof (rule inj_onI)
    fix x y assume xy: "x \<in> set ?U" "y \<in> set ?U" "p_login x = p_login y"
    obtain r where r: "r \<in> set P" "x = (if p_account r = i then u r else r)" using xy(1) by (auto simp: update_where_def)
    obtain q where q: "q \<in> set P" "y = (if p_account q = i then u q else q)" using xy(2) by (auto simp: update_where_def)
    have "r = q" if "p_account r = i" "p_account q = i" using key_unique [OF P(1) r(1) q(1)] that by simp
    moreover have "r = q" if "p_account r \<noteq> i" "p_account q \<noteq> i"
      using key_unique [OF P(2) r(1) q(1)] that r(2) q(2) xy(3) by simp
    moreover have False if "p_account r = i" "p_account q \<noteq> i" using that r q xy(3) new u by auto
    moreover have False if "p_account r \<noteq> i" "p_account q = i" using that r q xy(3) new u by auto
    ultimately show "x = y" using r(2) q(2) by (cases "p_account r = i"; cases "p_account q = i") auto
  qed
  ultimately show ?thesis by (simp add: distinct_map)
qed

lemma replace_password_ok:
  assumes ok: "access_ok now d" and rep: "replace_password now g i login h d = (Inr v, d')"
    and free: "\<And>s. s \<in> set (m_sessions d) \<Longrightarrow> s_account s = i \<Longrightarrow> s_revoked_at s \<noteq> None"
  shows "access_ok now d'"
proof (cases "exists_where (\<lambda>p. p_account p = i) (m_passwords d)")
  case True
  let ?u = "\<lambda>r. r\<lparr>p_login := login, p_hash := Some h, p_generation := Some g, p_changed_at := Some now\<rparr>"
  have d': "d' = d\<lparr>m_passwords := update_where (\<lambda>p. p_account p = i) ?u (m_passwords d)\<rparr>"
    and new: "\<forall>p \<in> set (m_passwords d). p_login p = login \<longrightarrow> p_account p = i"
    using rep True by (auto simp: replace_password_def exists_where_iff split: if_splits)
  have "distinct (map p_login (update_where (\<lambda>p. p_account p = i) ?u (m_passwords d)))"
    using access_ok_parts(3) [OF ok] new by (intro distinct_login_update [where login = login]) (simp_all add: passwords_ok_def)
  then show ?thesis
    unfolding d' by (intro update_passwords_ok [OF ok]) (auto simp: password_shape_def dest: free)
next
  case False
  let ?p = "\<lparr>p_account = i, p_login = login, p_hash = Some h, p_generation = Some g, p_changed_at = Some now\<rparr>"
  have d': "d' = d\<lparr>m_passwords := m_passwords d @ [?p]\<rparr>" and new: "login \<notin> p_login ` set (m_passwords d)" "i \<in> account_ids d"
    using rep False by (auto simp: replace_password_def exists_where_iff account_ids_def split: if_splits)
  have "i \<notin> p_account ` set (m_passwords d)" using False by (auto simp: exists_where_iff)
  then have "passwords_ok (account_ids d) (m_passwords d @ [?p])"
    using access_ok_parts(3) [OF ok] new by (simp add: passwords_ok_def) (simp add: password_shape_def)
  then show ?thesis
    unfolding d'
  proof (rule access_ok_passwords [OF ok])
    fix s assume s: "s \<in> set (m_sessions d)" "s_revoked_at s = None" "s_method s = ByPassword"
    have "session_anchored d s" using access_ok_parts(6) [OF ok] s(1,2) by (simp add: sessions_anchored_def)
    with s(3) show "\<exists>p \<in> set (m_passwords d @ [?p]). p_account p = s_account s \<and> p_generation p = s_generation s"
      by (auto simp: session_anchored_def)
  qed (auto simp: password_ready_iff)
qed

lemma access_ok_setups:
  "access_ok now d \<Longrightarrow> setups_ok (account_ids d) U \<Longrightarrow> access_ok now (d\<lparr>m_setups := U\<rparr>)"
  unfolding access_ok_def tables_ok_def sessions_anchored_def tokens_anchored_def admin_kept_def
    session_anchored_def account_ids_def token_owners_def is_initialized_def password_ready_def
  by (simp cong: session_method.case_cong)

lemma delete_setups_ok: "access_ok now d \<Longrightarrow> access_ok now (d\<lparr>m_setups := delete_where p (m_setups d)\<rparr>)"
  using access_ok_parts(4) [of now d]
  by (intro access_ok_setups) (auto simp: setups_ok_def map_delete_where_distinct table_simps)

lemma recover_password_ok:
  assumes ok: "access_ok now d" and "recover_password now g r i login h d = (Inr x, d')"
  shows "access_ok now d'"
proof -
  let ?w = "\<lambda>d. revoke_tokens now (\<lambda>c. t_account c = i) (revoke_sessions now (\<lambda>s. s_account s = i) d)"
  from assms(2) obtain d1 where rep: "replace_password now g i login h d = (Inr (), d1)"
    and st: "same_tables (?w (d1\<lparr>m_setups := delete_where (\<lambda>t. su_account t = i) (m_setups d1)\<rparr>)) d'"
    by (auto simp: recover_password_def Let_def same_tables_def audit_simps elim!: try_effE split: if_splits)
  have w: "?w d = access_withdrawn now i False True d" for d by (simp add: access_withdrawn_def)
  have okw: "access_ok now (?w d)" unfolding w by (rule access_withdrawn_ok(1) [OF ok]) simp
  have rep': "replace_password now g i login h (?w d) = (Inr (), ?w d1)"
    using rep by (auto simp: replace_password_def revoke_sessions_def revoke_tokens_def split: if_splits)
  have "access_ok now (?w d1)"
    by (rule replace_password_ok [OF okw rep']) (use access_withdrawn_ok(2) [OF ok, of True False _ i] in \<open>simp add: w\<close>)
  then have "access_ok now (?w d1\<lparr>m_setups := delete_where (\<lambda>t. su_account t = i) (m_setups (?w d1))\<rparr>)"
    by (rule delete_setups_ok)
  also have "?w d1\<lparr>m_setups := delete_where (\<lambda>t. su_account t = i) (m_setups (?w d1))\<rparr> =
      ?w (d1\<lparr>m_setups := delete_where (\<lambda>t. su_account t = i) (m_setups d1)\<rparr>)"
    by (simp add: revoke_sessions_def revoke_tokens_def)
  finally show ?thesis using st by (simp add: access_ok_same)
qed

lemma initialize_accounts_ok:
  assumes ok: "access_ok now d" and "initialize_accounts now i g r login name h d = (Inr x, d')"
  shows "access_ok now d'"
proof -
  let ?a = "\<lparr>a_id = i, a_name = name, a_role = Admin, a_active = True, a_deleted_at = None\<rparr>"
  let ?p = "\<lparr>p_account = i, p_login = login, p_hash = Some h, p_generation = Some g, p_changed_at = Some now\<rparr>"
  have e: "m_accounts d = []"
    using assms(2) by (auto simp: initialize_accounts_def split: if_splits)
  then have t: "m_tokens d = []" "m_passwords d = []" "m_setups d = []" "m_sessions d = []"
    using access_ok_parts(2-5) [OF ok] by (auto simp: table_ok_defs account_ids_def)
  obtain d1 d2 where i: "insert_account i name Admin d = (Inr (), d1)" and p: "replace_password now g i login h d1 = (Inr (), d2)"
    and st: "same_tables d2 d'"
    using assms(2) by (auto simp: initialize_accounts_def same_tables_def audit_simps elim!: try_effE split: if_splits)
  have d1: "d1 = d\<lparr>m_accounts := [?a]\<rparr>" using i e by (auto simp: insert_account_def split: if_splits)
  have "d2 = d\<lparr>m_accounts := [?a], m_passwords := [?p]\<rparr>"
    using p t by (auto simp: d1 replace_password_def exists_where_def split: if_splits)
  moreover have "access_ok now (d\<lparr>m_accounts := [?a], m_passwords := [?p]\<rparr>)"
    by (simp add: access_ok_def tables_ok_def table_ok_defs account_ids_def t sessions_anchored_def tokens_anchored_def
        sessions_bounded_def unrevoked_of_token_def unrevoked_of_password_def tokens_bounded_def count_where_def admin_kept_def
        is_initialized_def exists_where_def live_admin_def password_ready_def password_shape_def)
  ultimately show ?thesis using st by (simp add: access_ok_same)
qed

section \<open>Setup tokens\<close>

lemma reserve_login_ok:
  assumes ok: "access_ok now d" and "reserve_login i login d = (Inr u, d')" and "i \<in> account_ids d"
  shows "access_ok now d'" "m_accounts d' = m_accounts d"
proof -
  let ?p = "\<lparr>p_account = i, p_login = login, p_hash = None, p_generation = None, p_changed_at = None\<rparr>"
  have d': "d' = d\<lparr>m_passwords := m_passwords d @ [?p]\<rparr>"
    and new: "login \<notin> p_login ` set (m_passwords d)" "i \<notin> p_account ` set (m_passwords d)"
    using assms(2) by (auto simp: reserve_login_def exists_where_iff split: if_splits)
  have "passwords_ok (account_ids d) (m_passwords d @ [?p])"
    using access_ok_parts(3) [OF ok] new assms(3) by (simp add: passwords_ok_def) (simp add: password_shape_def)
  then show "access_ok now d'"
    unfolding d'
  proof (rule access_ok_passwords [OF ok])
    fix s assume s: "s \<in> set (m_sessions d)" "s_revoked_at s = None" "s_method s = ByPassword"
    have "session_anchored d s" using access_ok_parts(6) [OF ok] s(1,2) by (simp add: sessions_anchored_def)
    with s(3) show "\<exists>p \<in> set (m_passwords d @ [?p]). p_account p = s_account s \<and> p_generation p = s_generation s"
      by (auto simp: session_anchored_def)
  qed (auto simp: password_ready_iff)
  show "m_accounts d' = m_accounts d" by (simp add: d')
qed

lemma put_setup_ok:
  assumes ok: "access_ok now d" and put: "put_setup now i h d = (Inr x, d')" and i: "i \<in> account_ids d"
  shows "access_ok now d'"
proof -
  let ?t = "\<lparr>su_account = i, su_hash = h, su_created_at = now, su_expires_at = now + secs SETUP_SECS\<rparr>"
  let ?U = "update_where (\<lambda>r. su_account r = i) (\<lambda>_. ?t) (m_setups d)"
  have new: "\<forall>r \<in> set (m_setups d). su_hash r = h \<longrightarrow> su_account r = i"
    using put by (auto simp: put_setup_def Let_def exists_where_iff split: if_splits)
  note old = access_ok_parts(4) [OF ok]
  have later: "now < now + secs SETUP_SECS" by (simp add: SETUP_SECS_def)
  show ?thesis
  proof (cases "exists_where (\<lambda>r. su_account r = i) (m_setups d)")
    case True
    then have d': "d' = d\<lparr>m_setups := ?U\<rparr>" using put by (auto simp: put_setup_def Let_def split: if_splits)
    have acc: "map su_account ?U = map su_account (m_setups d)" by (rule map_update_where) simp
    have "distinct (map su_hash ?U)"
    proof -
      have "distinct ?U" using old acc by (metis distinct_map setups_ok_def)
      moreover have "inj_on su_hash (set ?U)"
        using old new by (auto simp: inj_on_def set_update_where setups_ok_def dest: key_unique)
      ultimately show ?thesis by (simp add: distinct_map)
    qed
    then have "setups_ok (account_ids d) ?U"
      using old i later acc by (auto simp: setups_ok_def set_update_where)
    then show ?thesis unfolding d' by (rule access_ok_setups [OF ok])
  next
    case False
    then have d': "d' = d\<lparr>m_setups := m_setups d @ [?t]\<rparr>" using put by (auto simp: put_setup_def Let_def split: if_splits)
    have "setups_ok (account_ids d) (m_setups d @ [?t])"
      using old new i later False by (auto simp: setups_ok_def exists_where_iff)
    then show ?thesis unfolding d' by (rule access_ok_setups [OF ok])
  qed
qed

lemma session_identity_Some:
  assumes "session_identity now h d = Some actor"
  obtains s a where "s \<in> set (m_sessions d)" "s_hash s = h" "session_unexpired now s" "session_backed now d s"
    "live_account (s_account s) d = Some a"
    "actor = row_identity a (map_option t_id (session_token s d)) (Some (s_id s)) UserSession"
  using assms by (auto simp: session_identity_def split: option.splits dest!: find_where_Some)

lemma password_session_account:
  assumes "password_session now h d = Inr actor"
  shows "id_account actor \<in> account_ids d" "session_identity now h d = Some actor"
proof -
  show s: "session_identity now h d = Some actor"
    using assms by (auto simp: password_session_def split: option.splits if_splits)
  then show "id_account actor \<in> account_ids d"
    by (elim session_identity_Some) (auto simp: row_identity_def account_ids_def dest!: live_account_Some)
qed

lemma admin_session_exists: "admin_password_session now r h d = Inr c \<Longrightarrow> m_accounts d \<noteq> []"
  using password_session_account(1) [of now h d]
  by (auto simp: admin_password_session_def account_ids_def split: sum.splits)

lemma create_setup_ok:
  assumes ok: "access_ok now d" and "create_setup now i r h name role login th d = (Inr x, d')"
  shows "access_ok now d'"
proof -
  from assms(2) obtain c d1 d2 d3 expires where c: "admin_password_session now r h d = Inr c"
    and i: "insert_account i name role d = (Inr (), d1)" and l: "reserve_login i login d1 = (Inr (), d2)"
    and p: "put_setup now i th d2 = (Inr expires, d3)" and st: "same_tables d3 d'"
    by (auto simp: create_setup_def Let_def same_tables_def audit_simps elim!: try_effE split: sum.splits)
  note a = insert_account_ok [OF ok i admin_session_exists [OF c]]
  then have i1: "i \<in> account_ids d1" by (auto simp: account_ids_def)
  note b = reserve_login_ok [OF a(1) l i1]
  then have "i \<in> account_ids d2" using i1 by (simp add: account_ids_def)
  from put_setup_ok [OF b(1) p this] st show ?thesis by (simp add: access_ok_same)
qed

lemma reserve_or_match_ok:
  assumes "access_ok now d" "reserve_or_match i login stored d = (Inr u, d')" "i \<in> account_ids d"
  shows "access_ok now d'" "i \<in> account_ids d'"
  using assms reserve_login_ok [OF assms(1) _ assms(3)]
  by (auto simp: reserve_or_match_def ret_ok_def account_ids_def split: option.splits if_splits elim!: try_effE)

lemma issue_setup_ok:
  assumes ok: "access_ok now d" and "issue_setup now r h i login th d = (Inr x, d')"
  shows "access_ok now d'"
proof -
  from assms(2) obtain a d1 d2 expires where f: "find (\<lambda>a. a_id a = i) (m_accounts d) = Some a"
    and l: "reserve_or_match i login (find (\<lambda>p. p_account p = i) (m_passwords d)) d = (Inr (), d1)"
    and p: "put_setup now i th d1 = (Inr expires, d2)" and st: "same_tables d2 d'"
    by (auto simp: issue_setup_def Let_def same_tables_def audit_simps elim!: try_effE split: sum.splits option.splits if_splits)
  have "i \<in> account_ids d" using f by (auto simp: account_ids_def dest!: find_where_Some)
  note b = reserve_or_match_ok [OF ok l this]
  from put_setup_ok [OF b(1) p b(2)] st show ?thesis by (simp add: access_ok_same)
qed

lemma open_setup_Some:
  assumes "open_setup now h d = Some (t, p)"
  shows "t \<in> set (m_setups d)" "su_hash t = h" "now < su_expires_at t" "live_account (su_account t) d \<noteq> None"
    "p \<in> set (m_passwords d)" "p_account p = su_account t" "p_hash p = None"
  using assms by (auto simp: open_setup_def split: option.splits dest!: find_where_Some)

lemma complete_setup_ok:
  assumes ok: "access_ok now d" and "complete_setup now g r th h d = (Inr x, d')"
  shows "access_ok now d'"
proof (cases "open_setup now th d")
  case None
  with assms show ?thesis by (auto simp: complete_setup_def)
next
  case (Some tp)
  then obtain t p where tp: "open_setup now th d = Some (t, p)" by (cases tp) auto
  let ?hit = "\<lambda>p. p_account p = su_account t \<and> p_hash p = None"
  from assms(2) tp obtain n d1 where sp: "set_password now ?hit h g d = (Inr n, d1)"
    and st: "same_tables (d1\<lparr>m_setups := delete_where (\<lambda>u. su_account u = su_account t) (m_setups d1)\<rparr>) d'"
    by (auto simp: complete_setup_def Let_def same_tables_def audit_simps elim!: try_effE)
  have "access_ok now d1"
  proof (rule set_password_ok [OF ok sp])
    fix s q assume s: "s \<in> set (m_sessions d)" "s_method s = ByPassword"
      and q: "q \<in> set (m_passwords d)" "?hit q" "p_generation q = s_generation s"
    have "p_generation q = None" using access_ok_parts(3) [OF ok] q(1,2) by (auto simp: passwords_ok_def password_shape_def)
    moreover have "s_generation s \<noteq> None"
      using access_ok_parts(5) [OF ok] s by (auto simp: sessions_ok_def session_shape_def)
    ultimately show False using q(3) by simp
  qed
  from delete_setups_ok [OF this, of "\<lambda>u. su_account u = su_account t"] st show ?thesis by (simp add: access_ok_same)
qed

end
