(* ===== verification/Retention.thy ===== *)
theory Retention
  imports Telemetry Usage
begin

text \<open>
  \<open>db/src/retention.rs\<close> and \<open>management-service/src/retention.rs\<close>: the bounded pruning of histories and of
  expired authentication rows. A row of \<open>lease_history\<close> carries its identity column.
\<close>

datatype stream = AuditEvents | SecurityEvents | Invocations | Sessions | ApiTokens | PasswordSetup | ObjectAccess | UsageRows

definition stream_name :: "stream \<Rightarrow> string" where
  "stream_name s = (case s of
      AuditEvents \<Rightarrow> ''audit_events''
    | SecurityEvents \<Rightarrow> ''security_events''
    | Invocations \<Rightarrow> ''command_invocations''
    | Sessions \<Rightarrow> ''sessions''
    | ApiTokens \<Rightarrow> ''api_tokens''
    | PasswordSetup \<Rightarrow> ''password_setup_tokens''
    | ObjectAccess \<Rightarrow> ''lease_history''
    | UsageRows \<Rightarrow> ''usage_snapshots'')"

record log_db =
  lo_identity :: mdb
  lo_history :: history_db
  lo_access :: "(nat \<times> history_row) list"
  lo_usage :: "snapshot_row list"

text \<open>\<open>LEAST(expires_at, COALESCE(revoked_at, expires_at))\<close>.\<close>

definition ended_at :: "timestamp \<Rightarrow> timestamp option \<Rightarrow> timestamp" where
  "ended_at expires revoked = min expires (case revoked of None \<Rightarrow> expires | Some r \<Rightarrow> r)"

section \<open>One batch\<close>

definition prunable :: "('r \<Rightarrow> timestamp) \<Rightarrow> ('r \<Rightarrow> bool) \<Rightarrow> timestamp \<Rightarrow> 'r \<Rightarrow> bool" where
  "prunable time guard cutoff r \<longleftrightarrow> time r < cutoff \<and> guard r"

definition delete_before :: "('r \<Rightarrow> timestamp) \<Rightarrow> ('r \<Rightarrow> 'k :: linorder) \<Rightarrow> ('r \<Rightarrow> bool) \<Rightarrow> timestamp \<Rightarrow> nat \<Rightarrow> 'r list
    \<Rightarrow> nat \<times> 'r list" where
  "delete_before time key guard cutoff limit rows =
     (let keys = map key (take limit (sort_key (\<lambda>r. (time r, key r)) (filter (prunable time guard cutoff) rows)));
          hit = (\<lambda>r. key r \<in> set keys)
      in (count_where hit rows, delete_where hit rows))"

definition oldest_remaining :: "('r \<Rightarrow> timestamp) \<Rightarrow> ('r \<Rightarrow> 'k :: linorder) \<Rightarrow> ('r \<Rightarrow> bool) \<Rightarrow> timestamp \<Rightarrow> 'r list
    \<Rightarrow> 'r option" where
  "oldest_remaining time key guard cutoff rows =
     (case sort_key (\<lambda>r. (time r, key r)) (filter (prunable time guard cutoff) rows) of [] \<Rightarrow> None | r # _ \<Rightarrow> Some r)"

record batch =
  ba_deleted :: nat
  ba_oldest :: "timestamp option"

definition prune_rows :: "('r \<Rightarrow> timestamp) \<Rightarrow> ('r \<Rightarrow> 'k :: linorder) \<Rightarrow> ('r \<Rightarrow> bool) \<Rightarrow> timestamp \<Rightarrow> nat \<Rightarrow> 'r list
    \<Rightarrow> batch \<times> 'r list" where
  "prune_rows time key guard cutoff limit rows =
     (case delete_before time key guard cutoff limit rows of (n, rows') \<Rightarrow>
        (\<lparr>ba_deleted = n, ba_oldest = map_option time (oldest_remaining time key guard cutoff rows')\<rparr>, rows'))"

definition session_ended_at :: "session_row \<Rightarrow> timestamp" where
  "session_ended_at s = ended_at (s_expires_at s) (s_revoked_at s)"

definition token_ended_at :: "token_row \<Rightarrow> timestamp" where
  "token_ended_at c = ended_at (t_expires_at c) (t_revoked_at c)"

definition unused_token :: "mdb \<Rightarrow> token_row \<Rightarrow> bool" where
  "unused_token d c \<longleftrightarrow> \<not> exists_where (\<lambda>s. s_credential s = Some (t_id c)) (m_sessions d)"

text \<open>The pruning of one stream of the identity tables; the cutoff is the transaction time less the retention.\<close>

definition prune_audit :: "timestamp \<Rightarrow> nat \<Rightarrow> mdb \<Rightarrow> batch \<times> mdb" where
  "prune_audit cutoff limit d =
     (case prune_rows au_at au_id (\<lambda>_. True) cutoff limit (m_audit d) of (b, rows) \<Rightarrow> (b, d\<lparr>m_audit := rows\<rparr>))"

definition prune_sessions :: "timestamp \<Rightarrow> nat \<Rightarrow> mdb \<Rightarrow> batch \<times> mdb" where
  "prune_sessions cutoff limit d =
     (case prune_rows session_ended_at s_id (\<lambda>_. True) cutoff limit (m_sessions d) of (b, rows) \<Rightarrow> (b, d\<lparr>m_sessions := rows\<rparr>))"

definition prune_tokens :: "timestamp \<Rightarrow> nat \<Rightarrow> mdb \<Rightarrow> batch \<times> mdb" where
  "prune_tokens cutoff limit d =
     (case prune_rows token_ended_at t_id (unused_token d) cutoff limit (m_tokens d) of (b, rows) \<Rightarrow> (b, d\<lparr>m_tokens := rows\<rparr>))"

definition prune_setups :: "timestamp \<Rightarrow> nat \<Rightarrow> mdb \<Rightarrow> batch \<times> mdb" where
  "prune_setups cutoff limit d =
     (case prune_rows su_expires_at su_account (\<lambda>_. True) cutoff limit (m_setups d) of (b, rows) \<Rightarrow> (b, d\<lparr>m_setups := rows\<rparr>))"

text \<open>A snapshot is older than a cutoff when its day is before the UTC day of the cutoff.\<close>

definition snapshot_midnight :: "snapshot_row \<Rightarrow> timestamp" where
  "snapshot_midnight r = sn_day r * day_micros"

definition prune_usage :: "timestamp \<Rightarrow> nat \<Rightarrow> snapshot_row list \<Rightarrow> batch \<times> snapshot_row list" where
  "prune_usage cutoff limit rows =
     prune_rows snapshot_midnight (\<lambda>r. (sn_day r, sn_storage r, sn_client r)) (\<lambda>_. True)
       ((cutoff div day_micros) * day_micros) limit rows"

definition prune :: "timestamp \<Rightarrow> stream \<Rightarrow> int \<Rightarrow> nat \<Rightarrow> log_db \<Rightarrow> batch \<times> log_db" where
  "prune now s days limit d =
     (let cutoff = now - days * day_micros; i = lo_identity d; h = lo_history d
      in case s of
        AuditEvents \<Rightarrow> (case prune_audit cutoff limit i of (b, i') \<Rightarrow> (b, d\<lparr>lo_identity := i'\<rparr>))
      | SecurityEvents \<Rightarrow> (case prune_rows se_at se_id (\<lambda>_. True) cutoff limit (hi_security h) of (b, rows) \<Rightarrow>
          (b, d\<lparr>lo_history := h\<lparr>hi_security := rows\<rparr>\<rparr>))
      | Invocations \<Rightarrow> (case prune_rows iv_at iv_id (\<lambda>_. True) cutoff limit (hi_invocations h) of (b, rows) \<Rightarrow>
          (b, d\<lparr>lo_history := h\<lparr>hi_invocations := rows\<rparr>\<rparr>))
      | Sessions \<Rightarrow> (case prune_sessions cutoff limit i of (b, i') \<Rightarrow> (b, d\<lparr>lo_identity := i'\<rparr>))
      | ApiTokens \<Rightarrow> (case prune_tokens cutoff limit i of (b, i') \<Rightarrow> (b, d\<lparr>lo_identity := i'\<rparr>))
      | PasswordSetup \<Rightarrow> (case prune_setups cutoff limit i of (b, i') \<Rightarrow> (b, d\<lparr>lo_identity := i'\<rparr>))
      | ObjectAccess \<Rightarrow> (case prune_rows (h_at \<circ> snd) fst (\<lambda>_. True) cutoff limit (lo_access d) of (b, rows) \<Rightarrow>
          (b, d\<lparr>lo_access := rows\<rparr>))
      | UsageRows \<Rightarrow> (case prune_usage cutoff limit (lo_usage d) of (b, rows) \<Rightarrow> (b, d\<lparr>lo_usage := rows\<rparr>)))"

text \<open>What is held back: \<open>backlog\<close> counts the rows a stream still has to prune and names the oldest.\<close>

record backlog_info =
  bk_stream :: string
  bk_days :: int
  bk_rows :: nat
  bk_oldest :: "timestamp option"

definition backlog_rows :: "('r \<Rightarrow> timestamp) \<Rightarrow> ('r \<Rightarrow> bool) \<Rightarrow> timestamp \<Rightarrow> 'r list \<Rightarrow> nat \<times> timestamp option" where
  "backlog_rows time guard cutoff rows =
     (let old = filter (prunable time guard cutoff) rows
      in (length old, if old = [] then None else Some (Min (time ` set old))))"

definition backlog :: "timestamp \<Rightarrow> stream \<Rightarrow> int \<Rightarrow> log_db \<Rightarrow> backlog_info" where
  "backlog now s days d =
     (let cutoff = now - days * day_micros; i = lo_identity d; h = lo_history d;
          (n, oldest) = (case s of
             AuditEvents \<Rightarrow> backlog_rows au_at (\<lambda>_. True) cutoff (m_audit i)
           | SecurityEvents \<Rightarrow> backlog_rows se_at (\<lambda>_. True) cutoff (hi_security h)
           | Invocations \<Rightarrow> backlog_rows iv_at (\<lambda>_. True) cutoff (hi_invocations h)
           | Sessions \<Rightarrow> backlog_rows session_ended_at (\<lambda>_. True) cutoff (m_sessions i)
           | ApiTokens \<Rightarrow> backlog_rows token_ended_at (unused_token i) cutoff (m_tokens i)
           | PasswordSetup \<Rightarrow> backlog_rows su_expires_at (\<lambda>_. True) cutoff (m_setups i)
           | ObjectAccess \<Rightarrow> backlog_rows (h_at \<circ> snd) (\<lambda>_. True) cutoff (lo_access d)
           | UsageRows \<Rightarrow> backlog_rows snapshot_midnight (\<lambda>_. True) ((cutoff div day_micros) * day_micros) (lo_usage d))
      in \<lparr>bk_stream = stream_name s, bk_days = days, bk_rows = n, bk_oldest = oldest\<rparr>)"

section \<open>The retention worker\<close>

record retention_policy =
  rp_audit_days :: int
  rp_security_days :: int
  rp_invocation_days :: int

definition retention_plan :: "retention_policy \<Rightarrow> (stream \<times> int) list" where
  "retention_plan p =
     [(AuditEvents, rp_audit_days p), (SecurityEvents, rp_security_days p), (Invocations, rp_invocation_days p),
      (Sessions, 1), (PasswordSetup, 1), (ApiTokens, 30), (ObjectAccess, 90), (UsageRows, 365)]"

definition PRUNE_BATCH :: nat where
  "PRUNE_BATCH = 1000"

record retention_report =
  rr_deleted :: nat
  rr_failed :: nat

text \<open>
  The attempts of one stream: each is at a time, and completes, fails or runs into the deadline of the
  stream. A failed batch is rolled back. The list ends where the deadline is certain to have passed.
\<close>

datatype attempt = Completes timestamp | Fails | TimesOut

fun prune_stream :: "stream \<Rightarrow> int \<Rightarrow> attempt list \<Rightarrow> nat \<Rightarrow> log_db \<Rightarrow> nat \<times> nat \<times> log_db" where
  "prune_stream s days [] n d = (n, 1, d)"
| "prune_stream s days (Fails # _) n d = (n, 1, d)"
| "prune_stream s days (TimesOut # _) n d = (n, 1, d)"
| "prune_stream s days (Completes now # rest) n d =
     (case prune now s days PRUNE_BATCH d of (b, d') \<Rightarrow>
        if ba_deleted b < PRUNE_BATCH \<or> ba_oldest b = None then (n + ba_deleted b, 0, d')
        else prune_stream s days rest (n + ba_deleted b) d')"

fun run_retention_plan :: "(stream \<times> int) list \<Rightarrow> (stream \<Rightarrow> attempt list) \<Rightarrow> retention_report \<Rightarrow> log_db
    \<Rightarrow> retention_report \<times> log_db" where
  "run_retention_plan [] attempts rr d = (rr, d)"
| "run_retention_plan ((s, days) # rest) attempts rr d =
     (case prune_stream s days (attempts s) 0 d of (n, failed, d') \<Rightarrow>
        run_retention_plan rest attempts \<lparr>rr_deleted = rr_deleted rr + n, rr_failed = rr_failed rr + failed\<rparr> d')"

definition run_retention :: "retention_policy \<Rightarrow> (stream \<Rightarrow> attempt list) \<Rightarrow> log_db \<Rightarrow> retention_report \<times> log_db" where
  "run_retention p attempts d = run_retention_plan (retention_plan p) attempts \<lparr>rr_deleted = 0, rr_failed = 0\<rparr> d"

section \<open>What a batch deletes\<close>

lemma prunable_taken:
  assumes "distinct (map key rows)"
  shows "r \<in> set (snd (delete_before time key guard cutoff limit rows)) \<longleftrightarrow>
    r \<in> set rows \<and> r \<notin> set (take limit (sort_key (\<lambda>r. (time r, key r)) (filter (prunable time guard cutoff) rows)))"
proof -
  have "set (take limit (sort_key (\<lambda>r. (time r, key r)) (filter (prunable time guard cutoff) rows))) \<subseteq> set rows"
    by (rule order_trans [OF set_take_subset]) auto
  then show ?thesis
    using key_unique [OF assms] by (auto simp: delete_before_def table_simps)
qed

text \<open>Only rows before the cutoff go, oldest first, at most a batch of them.\<close>

lemma delete_before_old:
  assumes "distinct (map key rows)" "r \<in> set rows" "r \<notin> set (snd (delete_before time key guard cutoff limit rows))"
  shows "prunable time guard cutoff r"
    "\<And>q. q \<in> set (snd (delete_before time key guard cutoff limit rows)) \<Longrightarrow> prunable time guard cutoff q \<Longrightarrow>
      (time r, key r) \<le> (time q, key q)"
proof -
  let ?f = "\<lambda>r. (time r, key r)"
  let ?S = "sort_key ?f (filter (prunable time guard cutoff) rows)"
  have r: "r \<in> set (take limit ?S)" using assms prunable_taken [OF assms(1)] by blast
  then show "prunable time guard cutoff r" by (auto dest: in_set_takeD)
  fix q assume "q \<in> set (snd (delete_before time key guard cutoff limit rows))" "prunable time guard cutoff q"
  then have "q \<in> set ?S" "q \<notin> set (take limit ?S)" using prunable_taken [OF assms(1)] by auto
  then have "q \<in> set (drop limit ?S)" by (metis append_take_drop_id UnE set_append)
  moreover have "sorted (map ?f (take limit ?S @ drop limit ?S))" by simp
  then have "\<forall>x \<in> set (take limit ?S). \<forall>y \<in> set (drop limit ?S). ?f x \<le> ?f y"
    unfolding map_append sorted_append by auto
  ultimately show "?f r \<le> ?f q" using r by blast
qed

lemma prune_rows_snd: "snd (prune_rows time key guard cutoff limit rows) = snd (delete_before time key guard cutoff limit rows)"
  by (simp add: prune_rows_def split: prod.splits)

lemma delete_before_where: "\<exists>p. snd (delete_before time key guard cutoff limit rows) = delete_where p rows"
  by (auto simp: delete_before_def)

end
