(* ===== verification/Identity_System.thy ===== *)
theory Identity_System
  imports Identity_Access Retention
begin

text \<open>
  The management identity as a transition system: the steps are the transactions of \<open>db/src/management\<close>
  and the pruning of their tables. A step is labelled with the hash that it may store, of a session or of
  a token; a run collects the labels of its steps. The clock of the database does not go back.
\<close>

section \<open>Steps\<close>

inductive identity_step :: "timestamp \<Rightarrow> string option \<Rightarrow> mdb \<Rightarrow> mdb \<Rightarrow> bool" for now :: timestamp where
  creating: "create_account now c i name r d = (x, d') \<Longrightarrow> identity_step now None d d'"
| changing: "change_account now c i change d = (x, d') \<Longrightarrow> identity_step now None d d'"
| token_login: "create_session now i request th h d = (x, d') \<Longrightarrow> identity_step now (Some h) d d'"
| password_login: "create_password_session now i request account g h d = (x, d') \<Longrightarrow> identity_step now (Some h) d d'"
| logout: "revoke_session now c account s d = (x, d') \<Longrightarrow> identity_step now None d d'"
| issuing: "issue_credential now c i account key d = (x, d') \<Longrightarrow> identity_step now (Some (nc_hash key)) d d'"
| revoking: "revoke_credential now c i d = (x, d') \<Longrightarrow> identity_step now None d d'"
| changing_password: "change_password now g request h verified new d = (x, d') \<Longrightarrow> identity_step now None d d'"
| initializing: "initialize_accounts now i g request login name h d = (x, d') \<Longrightarrow> identity_step now None d d'"
| recovering: "recover_password now g request i login h d = (x, d') \<Longrightarrow> identity_step now None d d'"
| setup_creating: "create_setup now i request h name r login th d = (x, d') \<Longrightarrow> identity_step now None d d'"
| setup_issuing: "issue_setup now request h i login th d = (x, d') \<Longrightarrow> identity_step now None d d'"
| setup_completing: "complete_setup now g request th h d = (x, d') \<Longrightarrow> identity_step now None d d'"
| own_issuing: "issue_personal now i request h key d = (x, d') \<Longrightarrow> identity_step now (Some (nc_hash key)) d d'"
| own_revoking: "revoke_personal now request h i d = (x, d') \<Longrightarrow> identity_step now None d d'"
| own_renaming: "rename_profile now request h name d = (x, d') \<Longrightarrow> identity_step now None d d'"
| admitting: "account_allowed now account p d = (x, d') \<Longrightarrow> identity_step now None d d'"
| admitting_anyone: "anonymous_allowed now d = (x, d') \<Longrightarrow> identity_step now None d d'"
| pruning_audit: "prune_audit cutoff n d = (b, d') \<Longrightarrow> identity_step now None d d'"
| pruning_sessions: "cutoff \<le> now \<Longrightarrow> prune_sessions cutoff n d = (b, d') \<Longrightarrow> identity_step now None d d'"
| pruning_tokens: "cutoff \<le> now \<Longrightarrow> prune_tokens cutoff n d = (b, d') \<Longrightarrow> identity_step now None d d'"
| pruning_setups: "cutoff \<le> now \<Longrightarrow> prune_setups cutoff n d = (b, d') \<Longrightarrow> identity_step now None d d'"

inductive identity_run :: "timestamp \<Rightarrow> mdb \<Rightarrow> string set \<Rightarrow> timestamp \<Rightarrow> mdb \<Rightarrow> bool" for t :: timestamp and d :: mdb where
  start: "identity_run t d {} t d"
| steps: "identity_run t d L t1 d1 \<Longrightarrow> t1 \<le> now \<Longrightarrow> identity_step now l d1 d2 \<Longrightarrow> identity_run t d (L \<union> set_option l) now d2"

definition empty_mdb :: mdb where
  "empty_mdb = \<lparr>m_accounts = [], m_tokens = [], m_passwords = [], m_setups = [], m_sessions = [], m_budgets = [],
     m_login_budget = (0, 0), m_audit = [], m_audit_next = 1\<rparr>"

section \<open>A transaction that reports an error changes nothing\<close>

lemma failed_revocations:
  "revoke_session now c account s d = (Inl e, d') \<Longrightarrow> d' = d"
  "revoke_credential now c i d = (Inl e, d') \<Longrightarrow> d' = d"
  by (auto simp: revoke_session_def revoke_credential_def Let_def split: if_splits)

lemma failed_transactions:
  "create_account now c i name r d = (Inl e, d') \<Longrightarrow> d' = d"
  "change_account now c i change d = (Inl e, d') \<Longrightarrow> d' = d"
  "create_session now i request th h d = (Inl f, d') \<Longrightarrow> d' = d"
  "create_password_session now i request account g h d = (Inl f, d') \<Longrightarrow> d' = d"
  "issue_credential now c i account key d = (Inl e, d') \<Longrightarrow> d' = d"
  "change_password now g request h verified new d = (Inl e, d') \<Longrightarrow> d' = d"
  "initialize_accounts now i g request login name ph d = (Inl e, d') \<Longrightarrow> d' = d"
  "recover_password now g request i login ph d = (Inl e, d') \<Longrightarrow> d' = d"
  "create_setup now i request h name r login th d = (Inl e, d') \<Longrightarrow> d' = d"
  "issue_setup now request h i login th d = (Inl e, d') \<Longrightarrow> d' = d"
  "complete_setup now g request th ph d = (Inl e, d') \<Longrightarrow> d' = d"
  "issue_personal now i request h key d = (Inl e, d') \<Longrightarrow> d' = d"
  unfolding create_account_def change_account_def create_session_def create_password_session_def issue_credential_def
    change_password_def initialize_accounts_def recover_password_def create_setup_def issue_setup_def complete_setup_def
    issue_personal_def
  by (erule atomically_Inl)+

lemmas failed_steps = failed_revocations failed_transactions

lemma failed_own_steps:
  "revoke_personal now request h i d = (Inl e, d') \<Longrightarrow> d' = d"
  "rename_profile now request h name d = (Inl e, d') \<Longrightarrow> d' = d"
  by (auto simp: revoke_personal_def rename_profile_def failed_steps split: sum.splits if_splits)

section \<open>Pruning\<close>

lemma prune_sessions_ok: "access_ok now d \<Longrightarrow> prune_sessions cutoff n d = (b, d') \<Longrightarrow> access_ok now d'"
  using delete_before_where [of session_ended_at s_id "\<lambda>_. True" cutoff n "m_sessions d"]
  by (auto simp: prune_sessions_def prune_rows_def intro: delete_sessions_ok split: prod.splits)

lemma prune_setups_ok: "access_ok now d \<Longrightarrow> prune_setups cutoff n d = (b, d') \<Longrightarrow> access_ok now d'"
  using delete_before_where [of su_expires_at su_account "\<lambda>_. True" cutoff n "m_setups d"]
  by (auto simp: prune_setups_def prune_rows_def intro: delete_setups_ok split: prod.splits)

lemma prune_tokens_rows:
  assumes "access_ok now d" "prune_tokens cutoff n d = (b, d')"
  obtains p where "d' = d\<lparr>m_tokens := delete_where p (m_tokens d)\<rparr>"
    "\<And>c. c \<in> set (m_tokens d) \<Longrightarrow> p c \<Longrightarrow> unused_token d c \<and> token_ended_at c < cutoff"
proof -
  let ?T = "snd (delete_before token_ended_at t_id (unused_token d) cutoff n (m_tokens d))"
  obtain p where p: "?T = delete_where p (m_tokens d)" using delete_before_where by blast
  have dist: "distinct (map t_id (m_tokens d))" using access_ok_parts(2) [OF assms(1)] by (simp add: tokens_ok_def)
  have "unused_token d c \<and> token_ended_at c < cutoff" if "c \<in> set (m_tokens d)" "p c" for c
  proof -
    have "c \<notin> set ?T" unfolding p using that by (simp add: table_simps)
    from delete_before_old(1) [OF dist that(1) this] show ?thesis by (simp add: prunable_def)
  qed
  moreover have "d' = d\<lparr>m_tokens := ?T\<rparr>"
    using assms(2) by (auto simp: prune_tokens_def prune_rows_def split: prod.splits)
  ultimately show ?thesis using p by (intro that [of p]) simp_all
qed

lemma prune_tokens_ok:
  assumes ok: "access_ok now d" and pr: "prune_tokens cutoff n d = (b, d')"
  shows "access_ok now d'"
proof -
  obtain p where d': "d' = d\<lparr>m_tokens := delete_where p (m_tokens d)\<rparr>"
    and un: "\<And>c. c \<in> set (m_tokens d) \<Longrightarrow> p c \<Longrightarrow> unused_token d c"
    using prune_tokens_rows [OF assms] by metis
  let ?T = "delete_where p (m_tokens d)"
  have keep: "c \<in> set ?T" if "c \<in> set (m_tokens d)" "s \<in> set (m_sessions d)" "s_credential s = Some (t_id c)" for c s
    using un [OF that(1)] that by (auto simp: table_simps unused_token_def exists_where_iff)
  have "session_anchored d' s" if s: "s \<in> set (m_sessions d)" "s_revoked_at s = None" for s
  proof -
    have "session_anchored d s" using access_ok_parts(6) [OF ok] s by (simp add: sessions_anchored_def)
    then show ?thesis
      using keep [OF _ s(1)] by (cases "s_method s") (auto simp: session_anchored_def d')
  qed
  then have "sessions_anchored d'" by (simp add: sessions_anchored_def d')
  moreover have "tokens_anchored d'"
    using access_ok_parts(7) [OF ok] by (auto simp: tokens_anchored_def d' table_simps)
  moreover have "tokens_ok (account_ids d) ?T"
    using access_ok_parts(2) [OF ok] by (auto simp: tokens_ok_def table_simps map_delete_where_distinct)
  moreover have "tokens_bounded now ?T"
    using access_ok_parts(9) [OF ok] unfolding tokens_bounded_def by (auto intro!: order_trans [OF count_delete_le])
  moreover have "sessions_ok (account_ids d) (token_owners d') (m_sessions d)"
  proof -
    have "(s_account s, c) \<in> token_owners d'" if "s \<in> set (m_sessions d)" "s_credential s = Some c" for s c
    proof -
      have "(s_account s, c) \<in> token_owners d"
        using access_ok_parts(5) [OF ok] that by (simp add: sessions_ok_def)
      then obtain t where "t \<in> set (m_tokens d)" "t_account t = s_account s" "t_id t = c" by (auto simp: token_owners_def)
      moreover from this keep [of t s] that have "t \<in> set ?T" by simp
      then have "(t_account t, t_id t) \<in> token_owners d'" by (simp add: token_owners_def d')
      ultimately show ?thesis by simp
    qed
    then show ?thesis using access_ok_parts(5) [OF ok] by (simp add: sessions_ok_def)
  qed
  ultimately show ?thesis
    using ok unfolding access_ok_def tables_ok_def
    by (simp add: d' account_ids_def admin_kept_def is_initialized_def password_ready_def)
qed

section \<open>Every step keeps the access rules\<close>

lemma same_tables_refl [simp]: "same_tables d d"
  by (simp add: same_tables_def)

lemma admission_tables:
  "account_allowed now i p d = (x, d') \<Longrightarrow> same_tables d d'"
  "anonymous_allowed now d = (x, d') \<Longrightarrow> same_tables d d'"
  by (auto simp: account_allowed_def anonymous_allowed_def same_tables_def Let_def split: if_splits)

lemma prune_audit_tables: "prune_audit cutoff n d = (b, d') \<Longrightarrow> same_tables d d'"
  by (auto simp: prune_audit_def same_tables_def split: prod.splits)

lemma step_ok:
  assumes "identity_step now l d d'" "access_ok now d"
  shows "access_ok now d'"
  using assms
proof cases
  case (creating c i name r x)
  with assms(2) show ?thesis by (cases x) (auto dest: failed_steps create_account_ok)
next
  case (changing c i change x)
  with assms(2) show ?thesis by (cases x) (auto dest: failed_steps change_account_ok)
next
  case (token_login i request th h x)
  with assms(2) show ?thesis by (cases x) (auto dest: failed_steps create_session_ok)
next
  case (password_login i request account g h x)
  with assms(2) show ?thesis by (cases x) (auto dest: failed_steps create_password_session_ok)
next
  case (logout c account s x)
  with assms(2) show ?thesis by (cases x) (auto dest: failed_steps revoke_session_ok)
next
  case (issuing c i account key x)
  with assms(2) show ?thesis by (cases x) (auto dest: failed_steps issue_credential_ok)
next
  case (revoking c i x)
  with assms(2) show ?thesis by (cases x) (auto dest: failed_steps revoke_credential_ok)
next
  case (changing_password g request h verified new x)
  with assms(2) show ?thesis by (cases x) (auto dest: failed_steps change_password_ok)
next
  case (initializing i g request login name h x)
  with assms(2) show ?thesis by (cases x) (auto dest: failed_steps initialize_accounts_ok)
next
  case (recovering g request i login h x)
  with assms(2) show ?thesis by (cases x) (auto dest: failed_steps recover_password_ok)
next
  case (setup_creating i request h name r login th x)
  with assms(2) show ?thesis by (cases x) (auto dest: failed_steps create_setup_ok)
next
  case (setup_issuing request h i login th x)
  with assms(2) show ?thesis by (cases x) (auto dest: failed_steps issue_setup_ok)
next
  case (setup_completing g request th h x)
  with assms(2) show ?thesis by (cases x) (auto dest: failed_steps complete_setup_ok)
next
  case (own_issuing i request h key x)
  with assms(2) show ?thesis by (cases x) (auto dest: failed_steps issue_personal_ok)
next
  case (own_revoking request h i x)
  with assms(2) show ?thesis by (cases x) (auto dest: failed_own_steps revoke_personal_ok)
next
  case (own_renaming request h name x)
  with assms(2) show ?thesis by (cases x) (auto dest: failed_own_steps rename_profile_ok)
qed (auto simp: access_ok_same dest: admission_tables prune_audit_tables prune_sessions_ok prune_tokens_ok prune_setups_ok)

lemma access_ok_empty: "access_ok t empty_mdb"
  by (simp add: access_ok_def tables_ok_def table_ok_defs empty_mdb_def sessions_anchored_def tokens_anchored_def
      sessions_bounded_def unrevoked_of_token_def unrevoked_of_password_def tokens_bounded_def count_where_def admin_kept_def)

lemma run_ok: "identity_run t d L t' d' \<Longrightarrow> access_ok t d \<Longrightarrow> access_ok t' d'"
  by (induction rule: identity_run.induct) (auto intro: step_ok access_ok_later)

section \<open>Sessions only age\<close>

definition aged :: "session_row list \<Rightarrow> session_row list \<Rightarrow> bool" where
  "aged S S' \<longleftrightarrow> (\<forall>s \<in> set S'. \<exists>r \<in> set S. s_hash s = s_hash r \<and> s_id s = s_id r \<and> s_account s = s_account r \<and>
     s_credential s = s_credential r \<and> (s_revoked_at r \<noteq> None \<longrightarrow> s_revoked_at s \<noteq> None))"

lemma aged_refl [simp]: "aged S S"
  by (auto simp: aged_def)

lemma aged_update: "aged S (update_where p (revoked t) S)"
  by (auto simp: aged_def set_update_where)

lemma aged_revoke: "aged (m_sessions d) (m_sessions (revoke_sessions t p d))"
  by (simp add: revoke_sessions_def revoked_eq aged_update)

lemma aged_delete: "aged S (delete_where p S)"
  by (auto simp: aged_def set_delete_where)

lemma aged_make_room: "aged (m_sessions d) (m_sessions (make_room t p d))"
  unfolding aged_def by (auto dest!: make_room_sessions)

lemma aged_withdrawn: "aged (m_sessions d) (m_sessions (access_withdrawn t i a del d))"
  by (auto simp: access_withdrawn_def Let_def revoke_tokens_def aged_revoke)

lemma sessions_untouched:
  "create_account now c i name r d = (Inr x1, d') \<Longrightarrow> m_sessions d' = m_sessions d"
  "issue_credential now c i account key d = (Inr x2, d') \<Longrightarrow> m_sessions d' = m_sessions d"
  "issue_personal now i request h key d = (Inr x2, d') \<Longrightarrow> m_sessions d' = m_sessions d"
  by (auto simp: create_account_def insert_account_def issue_credential_def issue_personal_def audit_simps
      elim!: try_effE insert_key_cases split: if_splits sum.splits prod.splits)

lemma setup_sessions_untouched:
  "insert_account i name r d = (Inr u, d1) \<Longrightarrow> m_sessions d1 = m_sessions d"
  "reserve_login i login d = (Inr u, d1) \<Longrightarrow> m_sessions d1 = m_sessions d"
  "reserve_or_match i login stored d = (Inr u, d1) \<Longrightarrow> m_sessions d1 = m_sessions d"
  "put_setup now i th d = (Inr e, d1) \<Longrightarrow> m_sessions d1 = m_sessions d"
  "set_password now p h g d = (Inr n, d1) \<Longrightarrow> m_sessions d1 = m_sessions d"
  "replace_password now g i login h d = (Inr u, d1) \<Longrightarrow> m_sessions d1 = m_sessions d"
  by (auto simp: insert_account_def reserve_login_def reserve_or_match_def put_setup_def set_password_def
      replace_password_def ret_ok_def Let_def elim!: try_effE split: if_splits option.splits)

lemma setup_steps_sessions:
  "create_setup now i request h name r login th d = (Inr x, d') \<Longrightarrow> m_sessions d' = m_sessions d"
  "issue_setup now request h i login th d = (Inr x, d') \<Longrightarrow> m_sessions d' = m_sessions d"
  "complete_setup now g request th ph d = (Inr y, d') \<Longrightarrow> m_sessions d' = m_sessions d"
  "initialize_accounts now i g request login name ph d = (Inr z, d') \<Longrightarrow> m_sessions d' = m_sessions d"
  by (auto simp: create_setup_def issue_setup_def complete_setup_def initialize_accounts_def Let_def audit_simps
      dest!: setup_sessions_untouched elim!: try_effE split: sum.splits option.splits if_splits)

lemma change_account_sessions:
  assumes "change_account now c i change d = (Inr x, d')"
  shows "aged (m_sessions d) (m_sessions d')"
proof -
  from assms obtain a where f: "find (\<lambda>a. a_id a = i \<and> a_deleted_at a = None) (m_accounts d) = Some a"
    by (auto simp: change_account_def split: option.splits)
  have r: "m_sessions d' = m_sessions d" if "rename_account now c i old raw d = (Inr x, d')" for old raw
    using that by (auto simp: rename_account_def Let_def split: if_splits prod.splits dest!: audited [where e' = 0 and x = NameMetadata])
      (auto simp: same_tables_def set_metadata_tables)
  have al: "aged (m_sessions d) (m_sessions d')" if "alter_account now c a role active deleted act d = (Inr x, d')" for role active deleted act
    using that aged_withdrawn [of d now "a_id a" active deleted]
    by (auto simp: alter_account_def set_account_eq Let_def split: if_splits prod.splits
        dest!: audited [where e' = 0 and x = NameMetadata]) (auto simp: same_tables_def set_metadata_tables)
  show ?thesis
    using assms f by (cases change) (auto simp: change_account_def intro: al dest!: r)
qed

lemma revocation_sessions:
  "revoke_session now c account s d = (Inr x, d') \<Longrightarrow> aged (m_sessions d) (m_sessions d')"
  "revoke_credential now c i d = (Inr y, d') \<Longrightarrow> aged (m_sessions d) (m_sessions d')"
  using aged_revoke [of "revoke_tokens now (\<lambda>t. t_id t = i) d" now "\<lambda>s. s_credential s = Some i"]
  by (auto simp: revoke_session_def revoke_credential_def Let_def audit_simps aged_revoke revoke_tokens_def split: if_splits)

lemma password_sessions:
  "change_password now g request h verified new d = (Inr x, d') \<Longrightarrow> aged (m_sessions d) (m_sessions d')"
  "recover_password now g request i login ph d = (Inr y, d') \<Longrightarrow> aged (m_sessions d) (m_sessions d')"
proof -
  show "aged (m_sessions d) (m_sessions d')" if c: "change_password now g request h verified new d = (Inr x, d')"
  proof -
    show ?thesis
    proof (cases x)
      case False
      with c show ?thesis by (auto dest: change_password_False)
    next
      case True
      with c have "change_password now g request h verified new d = (Inr True, d')" by simp
      then show ?thesis
      proof (cases rule: change_password_True)
        case (1 s n d1)
        then show ?thesis using aged_revoke [of d1] by (simp add: same_tables_def setup_sessions_untouched(5))
      qed
    qed
  qed
  show "aged (m_sessions d) (m_sessions d')" if r: "recover_password now g request i login ph d = (Inr y, d')"
  proof -
    obtain d1 where "replace_password now g i login ph d = (Inr (), d1)"
      and "m_sessions d' = m_sessions (revoke_sessions now (\<lambda>s. s_account s = i) (d1\<lparr>m_setups := delete_where (\<lambda>t. su_account t = i) (m_setups d1)\<rparr>))"
      using r by (auto simp: recover_password_def Let_def audit_simps revoke_tokens_def elim!: try_effE split: if_splits)
    then show ?thesis
      using setup_sessions_untouched(6) aged_revoke
      by (metis (no_types, lifting) mdb.select_convs(5) mdb.surjective mdb.update_convs(4))
  qed
qed

definition adds_session :: "string option \<Rightarrow> session_row list \<Rightarrow> session_row list \<Rightarrow> bool" where
  "adds_session l S S' \<longleftrightarrow> aged S S' \<or> (\<exists>A s. aged S A \<and> S' = A @ [s] \<and> l = Some (s_hash s))"

lemma aged_adds [intro]: "aged S S' \<Longrightarrow> adds_session l S S'"
  by (simp add: adds_session_def)

lemma adds_refl [simp]: "adds_session l S S"
  by (simp add: adds_session_def)

lemma login_sessions:
  "create_session now i request th h d = (Inr x, d') \<Longrightarrow> adds_session (Some h) (m_sessions d) (m_sessions d')"
  "create_password_session now i request account g h d = (Inr x, d') \<Longrightarrow> adds_session (Some h) (m_sessions d) (m_sessions d')"
proof -
  show "adds_session (Some h) (m_sessions d) (m_sessions d')" if "create_session now i request th h d = (Inr x, d')"
    using that
  proof (cases rule: create_session_cases)
    case (2 si d1 s cid c a c0)
    then show ?thesis by (auto simp: adds_session_def same_tables_def aged_make_room)
  qed auto
  show "adds_session (Some h) (m_sessions d) (m_sessions d')" if "create_password_session now i request account g h d = (Inr x, d')"
    using that
  proof (cases rule: create_password_session_cases)
    case (2 si d1 s)
    then show ?thesis by (auto simp: adds_session_def same_tables_def aged_make_room)
  qed auto
qed

lemma pruned_sessions:
  "prune_sessions cutoff n d = (b, d') \<Longrightarrow> aged (m_sessions d) (m_sessions d')"
  "prune_tokens cutoff n d = (b, d') \<Longrightarrow> m_sessions d' = m_sessions d"
  "prune_setups cutoff n d = (b, d') \<Longrightarrow> m_sessions d' = m_sessions d"
  using delete_before_where [of session_ended_at s_id "\<lambda>_. True" cutoff n "m_sessions d"]
  by (auto simp: prune_sessions_def prune_tokens_def prune_setups_def prune_rows_def aged_delete split: prod.splits)

lemma own_step_sessions:
  "revoke_personal now request h i d = (Inr x, d') \<Longrightarrow> aged (m_sessions d) (m_sessions d')"
  "rename_profile now request h name d = (Inr x, d') \<Longrightarrow> aged (m_sessions d) (m_sessions d')"
  by (auto simp: revoke_personal_def rename_profile_def split: sum.splits if_splits
      intro: revocation_sessions change_account_sessions)

lemma step_sessions:
  assumes "identity_step now l d d'"
  shows "adds_session l (m_sessions d) (m_sessions d')"
  using assms
proof cases
  case (creating c i name r x)
  then show ?thesis by (cases x) (auto dest: failed_steps sessions_untouched)
next
  case (changing c i change x)
  then show ?thesis by (cases x) (auto dest: failed_steps change_account_sessions)
next
  case (token_login i request th h x)
  then show ?thesis by (cases x) (auto dest: failed_steps login_sessions)
next
  case (password_login i request account g h x)
  then show ?thesis by (cases x) (auto dest: failed_steps login_sessions)
next
  case (logout c account s x)
  then show ?thesis by (cases x) (auto dest: failed_steps revocation_sessions)
next
  case (issuing c i account key x)
  then show ?thesis by (cases x) (auto dest: failed_steps sessions_untouched)
next
  case (revoking c i x)
  then show ?thesis by (cases x) (auto dest: failed_steps revocation_sessions)
next
  case (changing_password g request h verified new x)
  then show ?thesis by (cases x) (auto dest: failed_steps password_sessions)
next
  case (initializing i g request login name h x)
  then show ?thesis by (cases x) (auto dest: failed_steps setup_steps_sessions)
next
  case (recovering g request i login h x)
  then show ?thesis by (cases x) (auto dest: failed_steps password_sessions)
next
  case (setup_creating i request h name r login th x)
  then show ?thesis by (cases x) (auto dest: failed_steps setup_steps_sessions)
next
  case (setup_issuing request h i login th x)
  then show ?thesis by (cases x) (auto dest: failed_steps setup_steps_sessions)
next
  case (setup_completing g request th h x)
  then show ?thesis by (cases x) (auto dest: failed_steps setup_steps_sessions)
next
  case (own_issuing i request h key x)
  then show ?thesis by (cases x) (auto dest: failed_steps sessions_untouched)
next
  case (own_revoking request h i x)
  then show ?thesis by (cases x) (auto dest: failed_own_steps own_step_sessions)
next
  case (own_renaming request h name x)
  then show ?thesis by (cases x) (auto dest: failed_own_steps own_step_sessions)
qed (auto dest: admission_tables prune_audit_tables pruned_sessions simp: same_tables_def)

text \<open>A hash none of whose sessions is open stays so until it is stored again.\<close>

definition session_closed :: "string \<Rightarrow> mdb \<Rightarrow> bool" where
  "session_closed h d \<longleftrightarrow> (\<forall>s \<in> set (m_sessions d). s_hash s = h \<longrightarrow> s_revoked_at s \<noteq> None)"

lemma closed_step:
  assumes "identity_step now l d d'" "session_closed h d" "l \<noteq> Some h"
  shows "session_closed h d'"
proof -
  have aged: "\<forall>s \<in> set A. s_hash s = h \<longrightarrow> s_revoked_at s \<noteq> None" if "aged (m_sessions d) A" for A
    using that assms(2) by (fastforce simp: aged_def session_closed_def)
  from step_sessions [OF assms(1)] consider "aged (m_sessions d) (m_sessions d')"
    | A s where "aged (m_sessions d) A" "m_sessions d' = A @ [s]" "l = Some (s_hash s)"
    by (auto simp: adds_session_def)
  then show ?thesis
  proof cases
    case 1
    with aged show ?thesis by (simp add: session_closed_def)
  next
    case (2 A s)
    with aged [OF 2(1)] assms(3) show ?thesis by (auto simp: session_closed_def)
  qed
qed

lemma closed_run:
  assumes "identity_run t d L t' d'" "session_closed h d" "h \<notin> L"
  shows "session_closed h d'"
  using assms by (induction rule: identity_run.induct) (auto intro: closed_step)

lemma closed_refused: "session_closed h d \<Longrightarrow> session_identity now h d = None \<and> password_only_session now h d = None"
  by (auto simp: session_closed_def session_identity_def password_only_session_def session_unexpired_def find_None_iff
      split: option.splits dest!: find_where_Some)

section \<open>Tokens only age\<close>

definition aged_tokens :: "token_row list \<Rightarrow> token_row list \<Rightarrow> bool" where
  "aged_tokens T T' \<longleftrightarrow> (\<forall>c \<in> set T'. \<exists>b \<in> set T. t_hash c = t_hash b \<and> t_id c = t_id b \<and> t_account c = t_account b \<and>
     (t_revoked_at b \<noteq> None \<longrightarrow> t_revoked_at c \<noteq> None))"

definition adds_token :: "string option \<Rightarrow> token_row list \<Rightarrow> token_row list \<Rightarrow> bool" where
  "adds_token l T T' \<longleftrightarrow> aged_tokens T T' \<or> (\<exists>c. T' = T @ [c] \<and> l = Some (t_hash c))"

lemma aged_tokens_refl [simp]: "aged_tokens T T" "adds_token l T T"
  by (auto simp: aged_tokens_def adds_token_def)

lemma adds_aged_tokens [intro]: "aged_tokens T T' \<Longrightarrow> adds_token l T T'"
  by (simp add: adds_token_def)

lemma aged_tokens_revoke: "aged_tokens (m_tokens d) (m_tokens (revoke_tokens t p d))"
  by (auto simp: aged_tokens_def revoke_tokens_def revoked_token_eq set_update_where)

lemma aged_tokens_delete: "aged_tokens T (delete_where p T)"
  by (auto simp: aged_tokens_def set_delete_where)

lemma aged_tokens_used: "aged_tokens T (update_where p (\<lambda>c. c\<lparr>t_last_used_at := t\<rparr>) T)"
  by (auto simp: aged_tokens_def set_update_where)

lemma revoke_sessions_tokens [simp]: "m_tokens (revoke_sessions t p d) = m_tokens d"
  by (simp add: revoke_sessions_def)

lemma tokens_untouched:
  "insert_account i name r d = (Inr u, d1) \<Longrightarrow> m_tokens d1 = m_tokens d"
  "reserve_login i login d = (Inr u, d1) \<Longrightarrow> m_tokens d1 = m_tokens d"
  "reserve_or_match i login stored d = (Inr u, d1) \<Longrightarrow> m_tokens d1 = m_tokens d"
  "put_setup now i th d = (Inr e, d1) \<Longrightarrow> m_tokens d1 = m_tokens d"
  "set_password now p h g d = (Inr n, d1) \<Longrightarrow> m_tokens d1 = m_tokens d"
  "replace_password now g i login h d = (Inr u, d1) \<Longrightarrow> m_tokens d1 = m_tokens d"
  by (auto simp: insert_account_def reserve_login_def reserve_or_match_def put_setup_def set_password_def
      replace_password_def ret_ok_def Let_def elim!: try_effE split: if_splits option.splits)

lemma setup_steps_tokens:
  "create_account now c i name r d = (Inr x1, d') \<Longrightarrow> m_tokens d' = m_tokens d"
  "create_setup now i request h name r login th d = (Inr x, d') \<Longrightarrow> m_tokens d' = m_tokens d"
  "issue_setup now request h i login th d = (Inr x, d') \<Longrightarrow> m_tokens d' = m_tokens d"
  "complete_setup now g request th ph d = (Inr y, d') \<Longrightarrow> m_tokens d' = m_tokens d"
  "initialize_accounts now i g request login name ph d = (Inr z, d') \<Longrightarrow> m_tokens d' = m_tokens d"
  by (auto simp: create_account_def create_setup_def issue_setup_def complete_setup_def initialize_accounts_def Let_def audit_simps
      dest!: tokens_untouched elim!: try_effE split: sum.splits option.splits if_splits)

lemma change_account_tokens:
  assumes "change_account now c i change d = (Inr x, d')"
  shows "aged_tokens (m_tokens d) (m_tokens d')"
proof -
  from assms obtain a where f: "find (\<lambda>a. a_id a = i \<and> a_deleted_at a = None) (m_accounts d) = Some a"
    by (auto simp: change_account_def split: option.splits)
  have r: "m_tokens d' = m_tokens d" if "rename_account now c i old raw d = (Inr x, d')" for old raw
    using that by (auto simp: rename_account_def Let_def split: if_splits prod.splits dest!: audited [where e' = 0 and x = NameMetadata])
      (auto simp: same_tables_def set_metadata_tables)
  have w: "aged_tokens (m_tokens d) (m_tokens (access_withdrawn now j active deleted d))" for j active deleted
    using aged_tokens_revoke [of "revoke_sessions now (\<lambda>s. s_account s = j) d"] aged_tokens_revoke [of d]
    by (auto simp: access_withdrawn_def Let_def)
  have al: "aged_tokens (m_tokens d) (m_tokens d')" if "alter_account now c a role active deleted act d = (Inr x, d')" for role active deleted act
    using that w [of "a_id a" active deleted]
    by (auto simp: alter_account_def set_account_eq Let_def split: if_splits prod.splits
        dest!: audited [where e' = 0 and x = NameMetadata]) (auto simp: same_tables_def set_metadata_tables)
  show ?thesis
    using assms f by (cases change) (auto simp: change_account_def intro: al dest!: r)
qed

lemma issue_tokens:
  "issue_credential now c i account key d = (Inr cd, d') \<Longrightarrow> adds_token (Some (nc_hash key)) (m_tokens d) (m_tokens d')"
  "issue_personal now i request h key d = (Inr cd, d') \<Longrightarrow> adds_token (Some (nc_hash key)) (m_tokens d) (m_tokens d')"
  by (auto simp: issue_credential_def issue_personal_def audit_simps adds_token_def
      elim!: try_effE insert_key_cases split: sum.splits prod.splits)

lemma login_tokens:
  "create_session now i request th h d = (Inr x, d') \<Longrightarrow> aged_tokens (m_tokens d) (m_tokens d')"
  "create_password_session now i request account g h d = (Inr x, d') \<Longrightarrow> m_tokens d' = m_tokens d"
  by (auto elim!: create_session_cases create_password_session_cases simp: same_tables_def aged_tokens_used)

lemma revocation_tokens:
  "revoke_session now c account s d = (Inr x, d') \<Longrightarrow> m_tokens d' = m_tokens d"
  "revoke_credential now c i d = (Inr y, d') \<Longrightarrow> aged_tokens (m_tokens d) (m_tokens d')"
  using aged_tokens_revoke [of d now "\<lambda>t. t_id t = i"]
  by (auto simp: revoke_session_def revoke_credential_def Let_def audit_simps split: if_splits)

lemma password_tokens:
  "change_password now g request h verified new d = (Inr x, d') \<Longrightarrow> m_tokens d' = m_tokens d"
  "recover_password now g request i login ph d = (Inr y, d') \<Longrightarrow> aged_tokens (m_tokens d) (m_tokens d')"
proof -
  show "m_tokens d' = m_tokens d" if "change_password now g request h verified new d = (Inr x, d')"
    using that by (auto simp: change_password_def audit_simps elim!: try_effE split: option.splits if_splits
        dest!: tokens_untouched(5))
  show "aged_tokens (m_tokens d) (m_tokens d')" if r: "recover_password now g request i login ph d = (Inr y, d')"
  proof -
    have "m_tokens d' = m_tokens (revoke_tokens now (\<lambda>c. t_account c = i) d)"
      using r by (auto simp: recover_password_def Let_def audit_simps revoke_tokens_def elim!: try_effE split: if_splits
          dest!: tokens_untouched(6))
    then show ?thesis using aged_tokens_revoke [of d] by simp
  qed
qed

lemma own_step_tokens:
  "revoke_personal now request h i d = (Inr x, d') \<Longrightarrow> aged_tokens (m_tokens d) (m_tokens d')"
  "rename_profile now request h name d = (Inr x, d') \<Longrightarrow> aged_tokens (m_tokens d) (m_tokens d')"
  by (auto simp: revoke_personal_def rename_profile_def split: sum.splits if_splits
      intro: revocation_tokens change_account_tokens)

lemma pruned_tokens:
  "prune_sessions cutoff n d = (b, d') \<Longrightarrow> m_tokens d' = m_tokens d"
  "prune_tokens cutoff n d = (b, d') \<Longrightarrow> aged_tokens (m_tokens d) (m_tokens d')"
  "prune_setups cutoff n d = (b, d') \<Longrightarrow> m_tokens d' = m_tokens d"
  using delete_before_where [of token_ended_at t_id "unused_token d" cutoff n "m_tokens d"]
  by (auto simp: prune_sessions_def prune_tokens_def prune_setups_def prune_rows_def aged_tokens_delete split: prod.splits)

lemma step_tokens:
  assumes "identity_step now l d d'"
  shows "adds_token l (m_tokens d) (m_tokens d')"
  using assms
proof cases
  case (creating c i name r x)
  then show ?thesis by (cases x) (auto dest: failed_steps setup_steps_tokens)
next
  case (changing c i change x)
  then show ?thesis by (cases x) (auto dest: failed_steps change_account_tokens)
next
  case (token_login i request th h x)
  then show ?thesis by (cases x) (auto dest: failed_steps login_tokens)
next
  case (password_login i request account g h x)
  then show ?thesis by (cases x) (auto dest: failed_steps login_tokens)
next
  case (logout c account s x)
  then show ?thesis by (cases x) (auto dest: failed_steps revocation_tokens)
next
  case (issuing c i account key x)
  then show ?thesis by (cases x) (auto dest: failed_steps issue_tokens)
next
  case (revoking c i x)
  then show ?thesis by (cases x) (auto dest: failed_steps revocation_tokens)
next
  case (changing_password g request h verified new x)
  then show ?thesis by (cases x) (auto dest: failed_steps password_tokens)
next
  case (initializing i g request login name h x)
  then show ?thesis by (cases x) (auto dest: failed_steps setup_steps_tokens)
next
  case (recovering g request i login h x)
  then show ?thesis by (cases x) (auto dest: failed_steps password_tokens)
next
  case (setup_creating i request h name r login th x)
  then show ?thesis by (cases x) (auto dest: failed_steps setup_steps_tokens)
next
  case (setup_issuing request h i login th x)
  then show ?thesis by (cases x) (auto dest: failed_steps setup_steps_tokens)
next
  case (setup_completing g request th h x)
  then show ?thesis by (cases x) (auto dest: failed_steps setup_steps_tokens)
next
  case (own_issuing i request h key x)
  then show ?thesis by (cases x) (auto dest: failed_steps issue_tokens)
next
  case (own_revoking request h i x)
  then show ?thesis by (cases x) (auto dest: failed_own_steps own_step_tokens)
next
  case (own_renaming request h name x)
  then show ?thesis by (cases x) (auto dest: failed_own_steps own_step_tokens)
qed (auto dest: admission_tables prune_audit_tables pruned_tokens simp: same_tables_def)

definition token_closed :: "string \<Rightarrow> mdb \<Rightarrow> bool" where
  "token_closed h d \<longleftrightarrow> (\<forall>c \<in> set (m_tokens d). t_hash c = h \<longrightarrow> t_revoked_at c \<noteq> None)"

lemma token_closed_step:
  assumes "identity_step now l d d'" "token_closed h d" "l \<noteq> Some h"
  shows "token_closed h d'"
proof -
  from step_tokens [OF assms(1)] consider "aged_tokens (m_tokens d) (m_tokens d')"
    | c where "m_tokens d' = m_tokens d @ [c]" "l = Some (t_hash c)"
    by (auto simp: adds_token_def)
  then show ?thesis
  proof cases
    case 1
    with assms(2) show ?thesis by (fastforce simp: aged_tokens_def token_closed_def)
  next
    case (2 c)
    with assms(2,3) show ?thesis by (auto simp: token_closed_def)
  qed
qed

lemma token_closed_run:
  assumes "identity_run t d L t' d'" "token_closed h d" "h \<notin> L"
  shows "token_closed h d'"
  using assms by (induction rule: identity_run.induct) (auto intro: token_closed_step)

lemma token_closed_refused: "token_closed h d \<Longrightarrow> token_identity now h d = None"
  by (auto simp: token_closed_def token_identity_def token_live_def find_None_iff split: option.splits dest!: find_where_Some)

section \<open>Withdrawn access\<close>

text \<open>
  The transactions that withdraw access, with the sessions and the tokens that each ends: an account is
  deactivated or deleted, its password is changed or recovered, one session or one token is revoked.
\<close>

inductive withdraws :: "timestamp \<Rightarrow> (session_row \<Rightarrow> bool) \<Rightarrow> (token_row \<Rightarrow> bool) \<Rightarrow> mdb \<Rightarrow> mdb \<Rightarrow> bool" for now :: timestamp where
  deactivated: "change_account now c i (ChangeActive False) d = (Inr True, d') \<Longrightarrow>
    withdraws now (\<lambda>s. s_account s = i) (\<lambda>_. False) d d'"
| deleted: "change_account now c i DeleteAccount d = (Inr True, d') \<Longrightarrow>
    withdraws now (\<lambda>s. s_account s = i) (\<lambda>c. t_account c = i) d d'"
| new_password: "change_password now g request (s_hash s) verified new d = (Inr True, d') \<Longrightarrow> s \<in> set (m_sessions d) \<Longrightarrow>
    withdraws now (\<lambda>r. s_account r = s_account s) (\<lambda>_. False) d d'"
| recovered: "recover_password now g request i login h d = (Inr (), d') \<Longrightarrow>
    withdraws now (\<lambda>s. s_account s = i) (\<lambda>c. t_account c = i) d d'"
| logged_out: "revoke_session now c account i d = (Inr True, d') \<Longrightarrow>
    withdraws now (\<lambda>s. s_id s = i) (\<lambda>_. False) d d'"
| token_revoked: "revoke_credential now c i d = (Inr True, d') \<Longrightarrow>
    withdraws now (\<lambda>s. s_credential s = Some i) (\<lambda>c. t_id c = i) d d'"

text \<open>Nothing that a transaction withdraws is left open.\<close>

definition all_ended :: "(session_row \<Rightarrow> bool) \<Rightarrow> (token_row \<Rightarrow> bool) \<Rightarrow> mdb \<Rightarrow> bool" where
  "all_ended p q d \<longleftrightarrow> (\<forall>s \<in> set (m_sessions d). p s \<longrightarrow> s_revoked_at s \<noteq> None) \<and>
     (\<forall>c \<in> set (m_tokens d). q c \<longrightarrow> t_revoked_at c \<noteq> None)"

lemma all_ended_same: "same_tables d d' \<Longrightarrow> all_ended p q d' = all_ended p q d"
  by (simp add: all_ended_def same_tables_def)

lemma alter_ends:
  assumes ok: "access_ok now d" and alter: "alter_account now c a role False del act d = (Inr True, d')"
  shows "all_ended (\<lambda>s. s_account s = a_id a) (\<lambda>c. del \<and> t_account c = a_id a) d'"
proof -
  let ?w = "access_withdrawn now (a_id a) False del d"
  have "same_tables (set_account now (a_id a) role False del d) d'"
    using alter by (auto simp: alter_account_def Let_def audited split: if_splits prod.splits)
  then obtain A where "same_tables (?w\<lparr>m_accounts := A\<rparr>) d'"
    unfolding set_account_eq by blast
  moreover have "all_ended (\<lambda>s. s_account s = a_id a) (\<lambda>c. del \<and> t_account c = a_id a) (?w\<lparr>m_accounts := A\<rparr>)"
    using access_withdrawn_ok(2,3) [OF ok, of del False _ "a_id a"] by (auto simp: all_ended_def)
  ultimately show ?thesis by (simp add: all_ended_same)
qed

lemma withdraws_ends:
  assumes "withdraws now p q d d'" and ok: "access_ok now d"
  shows "all_ended p q d'"
  using assms(1)
proof cases
  case (deactivated c i)
  then obtain a where f: "find (\<lambda>a. a_id a = i \<and> a_deleted_at a = None) (m_accounts d) = Some a"
    by (auto simp: change_account_def split: option.splits)
  with deactivated(3) have "alter_account now c a (a_role a) False False ''account.active'' d = (Inr True, d')"
    by (auto simp: change_account_def)
  from alter_ends [OF ok this] exists_account(2) [OF ok f] show ?thesis by (simp add: deactivated)
next
  case (deleted c i)
  then obtain a where f: "find (\<lambda>a. a_id a = i \<and> a_deleted_at a = None) (m_accounts d) = Some a"
    by (auto simp: change_account_def split: option.splits)
  with deleted(3) have "alter_account now c a (a_role a) False True ''account.delete'' d = (Inr True, d')"
    by (auto simp: change_account_def)
  from alter_ends [OF ok this] exists_account(2) [OF ok f] show ?thesis by (simp add: deleted)
next
  case (new_password g request s verified new)
  from new_password(3) show ?thesis
  proof (cases rule: change_password_True)
    case (1 r n d1)
    have "r = s" using access_ok_parts(5) [OF ok] 1(1,2) new_password(4) by (auto simp: sessions_ok_def intro: key_unique)
    then have "all_ended p q (revoke_sessions now (\<lambda>r. s_account r = s_account s) d1)"
      using ended_sessions by (auto simp: all_ended_def new_password(1,2))
    with 1(8) \<open>r = s\<close> show ?thesis by (simp add: all_ended_same)
  qed
next
  case (recovered g request i login h)
  then obtain d1 where "same_tables (access_withdrawn now i False True d1) d'"
    by (auto simp: recover_password_def Let_def same_tables_def audit_simps access_withdrawn_def elim!: try_effE split: if_splits)
  moreover have "all_ended p q (access_withdrawn now i False True d1)"
    using no_session_left [of _ now "\<lambda>s. s_account s = i" d1]
      no_token_left [of _ now "\<lambda>c. t_account c = i" "revoke_sessions now (\<lambda>s. s_account s = i) d1"]
    by (auto simp: all_ended_def recovered(1,2) access_withdrawn_def Let_def revoke_tokens_def)
  ultimately show ?thesis by (simp add: all_ended_same)
next
  case (logged_out c account i)
  let ?d1 = "revoke_sessions now (\<lambda>s. s_id s = i \<and> s_account s = account) d"
  from logged_out(3) have st: "same_tables ?d1 d'" and ex: "\<exists>s \<in> set (m_sessions d). s_id s = i \<and> s_account s = account"
    by (auto simp: revoke_session_def Let_def same_tables_def audit_simps exists_where_iff split: if_splits)
  have "distinct (map s_id (m_sessions d))" using access_ok_parts(5) [OF ok] by (simp add: sessions_ok_def)
  note unique = key_unique [OF this]
  have "all_ended p q ?d1"
    unfolding all_ended_def logged_out(1,2)
  proof (intro conjI ballI impI)
    fix s assume s: "s \<in> set (m_sessions ?d1)" "s_id s = i"
    then obtain r where r: "r \<in> set (m_sessions d)" "s_id s = s_id r" "s_account s = s_account r"
      using aged_revoke [of d now "\<lambda>s. s_id s = i \<and> s_account s = account"] unfolding aged_def by blast
    obtain r' where "r' \<in> set (m_sessions d)" "s_id r' = i" "s_account r' = account" using ex by blast
    with unique [OF r(1)] r s(2) have "s_account s = account" by metis
    with s show "s_revoked_at s \<noteq> None" by (intro no_session_left [OF s(1)]) simp_all
  qed simp
  with st show ?thesis by (simp add: all_ended_same)
next
  case (token_revoked c i)
  let ?d1 = "revoke_sessions now (\<lambda>s. s_credential s = Some i) (revoke_tokens now (\<lambda>t. t_id t = i) d)"
  have "same_tables ?d1 d'"
    using token_revoked(3) by (auto simp: revoke_credential_def same_credential_audit split: if_splits)
  moreover have "all_ended p q ?d1"
    unfolding all_ended_def token_revoked(1,2) revoke_sessions_tokens
  proof (intro conjI ballI impI)
    fix s assume "s \<in> set (m_sessions ?d1)" "s_credential s = Some i"
    then show "s_revoked_at s \<noteq> None" by (rule no_session_left) simp
  next
    fix t assume "t \<in> set (m_tokens (revoke_tokens now (\<lambda>t. t_id t = i) d))" "t_id t = i"
    then show "t_revoked_at t \<noteq> None" by (rule no_token_left) simp
  qed
  ultimately show ?thesis by (simp add: all_ended_same)
qed

section \<open>Accounts stay\<close>

lemma accounts_kept:
  "insert_account i name r d = (Inr u, d1) \<Longrightarrow> account_ids d \<subseteq> account_ids d1"
  "reserve_login i login d = (Inr u, d1) \<Longrightarrow> account_ids d \<subseteq> account_ids d1"
  "reserve_or_match i login stored d = (Inr u, d1) \<Longrightarrow> account_ids d \<subseteq> account_ids d1"
  "put_setup now i th d = (Inr e, d1) \<Longrightarrow> account_ids d \<subseteq> account_ids d1"
  "set_password now p h g d = (Inr n, d1) \<Longrightarrow> account_ids d \<subseteq> account_ids d1"
  "replace_password now g i login h d = (Inr u, d1) \<Longrightarrow> account_ids d \<subseteq> account_ids d1"
  by (auto simp: account_ids_def insert_account_def reserve_login_def reserve_or_match_def put_setup_def set_password_def
      replace_password_def ret_ok_def Let_def elim!: try_effE split: if_splits option.splits)

lemma account_ids_audited [simp]:
  "account_ids (snd (record_audit now c act k i d)) = account_ids d" "account_ids (local_audit now r i act d) = account_ids d"
  "account_ids (d\<lparr>m_setups := U\<rparr>) = account_ids d" "account_ids (d\<lparr>m_sessions := S\<rparr>) = account_ids d"
  "account_ids (revoke_sessions now p d) = account_ids d" "account_ids (revoke_tokens now q d) = account_ids d"
  by (simp_all add: account_ids_def audit_simps revoke_sessions_def revoke_tokens_def)

lemma same_tables_ids: "same_tables d d' \<Longrightarrow> account_ids d' = account_ids d"
  by (simp add: same_tables_def account_ids_def)

lemma same_accounts:
  "create_session now i request th h d = (Inr x, d') \<Longrightarrow> account_ids d' = account_ids d"
  "create_password_session now i request account g h d = (Inr x, d') \<Longrightarrow> account_ids d' = account_ids d"
  "revoke_session now c account s d = (Inr y, d') \<Longrightarrow> account_ids d' = account_ids d"
  "issue_credential now c i account key d = (Inr cd, d') \<Longrightarrow> account_ids d' = account_ids d"
  "issue_personal now i request h key d = (Inr cd, d') \<Longrightarrow> account_ids d' = account_ids d"
  "revoke_credential now c i d = (Inr y, d') \<Longrightarrow> account_ids d' = account_ids d"
  by (auto elim!: create_session_cases create_password_session_cases insert_key_cases try_effE
      simp: same_tables_def account_ids_def revoke_session_def issue_credential_def issue_personal_def
        revoke_credential_def revoke_sessions_def revoke_tokens_def audit_simps Let_def
      split: if_splits sum.splits prod.splits)

lemma change_account_ids:
  assumes "change_account now c i change d = (Inr x, d')"
  shows "account_ids d' = account_ids d"
proof -
  from assms obtain a where f: "find (\<lambda>a. a_id a = i \<and> a_deleted_at a = None) (m_accounts d) = Some a"
    by (auto simp: change_account_def split: option.splits)
  have u: "a_id ` set (update_where p u (m_accounts d)) = account_ids d" if "\<And>a. a_id (u a) = a_id a" for p u
  proof -
    have "map a_id (update_where p u (m_accounts d)) = map a_id (m_accounts d)" by (rule map_update_where) (simp add: that)
    then show ?thesis by (metis account_ids_def set_map)
  qed
  have r: "account_ids d' = account_ids d" if "rename_account now c i old raw d = (Inr x, d')" for old raw
    using that u by (auto simp: rename_account_def Let_def split: if_splits prod.splits dest!: audited [where e' = 0 and x = NameMetadata])
      (simp_all add: same_tables_def set_metadata_tables account_ids_def)
  have al: "account_ids d' = account_ids d" if "alter_account now c a role active deleted act d = (Inr x, d')" for role active deleted act
    using that u
    by (auto simp: alter_account_def set_account_eq Let_def split: if_splits prod.splits
        dest!: audited [where e' = 0 and x = NameMetadata]) (simp_all add: same_tables_def set_metadata_tables account_ids_def)
  show ?thesis
    using assms f by (cases change) (auto simp: change_account_def dest!: al r)
qed

lemma password_step_ids:
  "change_password now g request h verified new d = (Inr x, d') \<Longrightarrow> account_ids d \<subseteq> account_ids d'"
  "recover_password now g request i login ph d = (Inr y, d') \<Longrightarrow> account_ids d \<subseteq> account_ids d'"
  "create_account now c i name r d = (Inr x1, d') \<Longrightarrow> account_ids d \<subseteq> account_ids d'"
  "create_setup now i request h name r login th d = (Inr x2, d') \<Longrightarrow> account_ids d \<subseteq> account_ids d'"
  "issue_setup now request h i login th d = (Inr x2, d') \<Longrightarrow> account_ids d \<subseteq> account_ids d'"
  "complete_setup now g request th ph d = (Inr x3, d') \<Longrightarrow> account_ids d \<subseteq> account_ids d'"
  "initialize_accounts now i g request login name ph d = (Inr x4, d') \<Longrightarrow> account_ids d \<subseteq> account_ids d'"
  by (auto simp: change_password_def recover_password_def create_account_def create_setup_def issue_setup_def complete_setup_def
      initialize_accounts_def Let_def elim!: try_effE split: option.splits sum.splits if_splits
      dest!: accounts_kept) blast+

lemma pruned_ids:
  "prune_sessions cutoff n d = (b, d') \<Longrightarrow> account_ids d' = account_ids d"
  "prune_tokens cutoff n d = (b, d') \<Longrightarrow> account_ids d' = account_ids d"
  "prune_setups cutoff n d = (b, d') \<Longrightarrow> account_ids d' = account_ids d"
  by (auto simp: prune_sessions_def prune_tokens_def prune_setups_def account_ids_def split: prod.splits)

lemma step_accounts:
  assumes "identity_step now l d d'"
  shows "account_ids d \<subseteq> account_ids d'"
  using assms
proof cases
  case (creating c i name r x)
  then show ?thesis by (cases x) (auto dest: failed_steps password_step_ids [THEN subsetD])
next
  case (changing c i change x)
  then show ?thesis by (cases x) (auto dest: failed_steps change_account_ids)
next
  case (token_login i request th h x)
  then show ?thesis by (cases x) (auto dest: failed_steps same_accounts)
next
  case (password_login i request account g h x)
  then show ?thesis by (cases x) (auto dest: failed_steps same_accounts)
next
  case (logout c account s x)
  then show ?thesis by (cases x) (auto dest: failed_steps same_accounts)
next
  case (issuing c i account key x)
  then show ?thesis by (cases x) (auto dest: failed_steps same_accounts)
next
  case (revoking c i x)
  then show ?thesis by (cases x) (auto dest: failed_steps same_accounts)
next
  case (changing_password g request h verified new x)
  then show ?thesis by (cases x) (auto dest: failed_steps password_step_ids [THEN subsetD])
next
  case (initializing i g request login name h x)
  then show ?thesis by (cases x) (auto dest: failed_steps password_step_ids [THEN subsetD])
next
  case (recovering g request i login h x)
  then show ?thesis by (cases x) (auto dest: failed_steps password_step_ids [THEN subsetD])
next
  case (setup_creating i request h name r login th x)
  then show ?thesis by (cases x) (auto dest: failed_steps password_step_ids [THEN subsetD])
next
  case (setup_issuing request h i login th x)
  then show ?thesis by (cases x) (auto dest: failed_steps password_step_ids [THEN subsetD])
next
  case (setup_completing g request th h x)
  then show ?thesis by (cases x) (auto dest: failed_steps password_step_ids [THEN subsetD])
next
  case (own_issuing i request h key x)
  then show ?thesis by (cases x) (auto dest: failed_steps same_accounts)
next
  case (own_revoking request h i x)
  then show ?thesis
    by (cases x) (auto simp: revoke_personal_def dest!: failed_steps same_accounts split: sum.splits if_splits)
next
  case (own_renaming request h name x)
  then show ?thesis
    by (cases x) (auto simp: rename_profile_def dest!: failed_steps change_account_ids split: sum.splits)
qed (auto dest!: admission_tables prune_audit_tables pruned_ids simp: same_tables_ids)

lemma run_accounts: "identity_run t d L t' d' \<Longrightarrow> account_ids d \<subseteq> account_ids d'"
  by (induction rule: identity_run.induct) (use step_accounts in blast)+

section \<open>An example run\<close>

text \<open>An installation is initialized, its administrator logs in with the password.\<close>

definition sample_hash :: "char \<Rightarrow> string" where
  "sample_hash c = replicate 64 c"

definition sample_password_hash :: string where
  "sample_password_hash = ''$argon2id$v=19$'' @ replicate 30 (CHR ''x'')"

definition sample_installed :: mdb where
  "sample_installed = snd (initialize_accounts 1000 1 2 3 ''admin'' ''Admin'' sample_password_hash empty_mdb)"

definition sample_session :: mdb where
  "sample_session = snd (create_password_session 2000 10 4 1 2 (sample_hash (CHR ''a'')) sample_installed)"

lemma sample_run: "identity_run 0 empty_mdb {sample_hash (CHR ''a'')} 2000 sample_session"
proof -
  have "identity_step 1000 None empty_mdb sample_installed"
    unfolding sample_installed_def by (rule identity_step.initializing [OF surjective_pairing])
  from identity_run.steps [OF identity_run.start [of 0] _ this]
  have "identity_run 0 empty_mdb {} 1000 sample_installed" by simp
  moreover have "identity_step 2000 (Some (sample_hash (CHR ''a''))) sample_installed sample_session"
    unfolding sample_session_def by (rule identity_step.password_login [OF surjective_pairing])
  ultimately show ?thesis using identity_run.steps [of 0 empty_mdb "{}" 1000 sample_installed 2000] by fastforce
qed

lemma sample_ok: "access_ok 2000 sample_session"
  by (rule run_ok [OF sample_run access_ok_empty])

lemma sample_installed_eq:
  "sample_installed = \<lparr>m_accounts = [\<lparr>a_id = 1, a_name = ''Admin'', a_role = Admin, a_active = True, a_deleted_at = None\<rparr>],
     m_tokens = [], m_passwords = [\<lparr>p_account = 1, p_login = ''admin'', p_hash = Some sample_password_hash,
       p_generation = Some 2, p_changed_at = Some 1000\<rparr>], m_setups = [], m_sessions = [], m_budgets = [],
     m_login_budget = (0, 0), m_audit = m_audit sample_installed, m_audit_next = m_audit_next sample_installed\<rparr>"
  by code_simp

lemma sample_accounts: "m_accounts sample_session =
    [\<lparr>a_id = 1, a_name = ''Admin'', a_role = Admin, a_active = True, a_deleted_at = None\<rparr>]"
  by code_simp

lemma sample_sessions: "m_sessions sample_session = [\<lparr>s_id = 10, s_hash = sample_hash (CHR ''a''), s_method = ByPassword,
    s_account = 1, s_credential = None, s_generation = Some 2, s_created_at = 2000, s_expires_at = 28800002000, s_revoked_at = None\<rparr>]"
  by code_simp

section \<open>Properties\<close>

text \<open>
  C34. The management tables stay well formed whatever the order of the transactions: keys are unique and
  references exist, and every session that is not revoked belongs to an active account and is backed by
  the unrevoked token it outlasts not, or by the current password of its account; an unrevoked token never
  belongs to a deleted account.
\<close>

theorem identity_tables_sound:
  assumes "identity_run 0 empty_mdb L t d"
  shows "tables_ok d \<and> sessions_anchored d \<and> tokens_anchored d"
  using run_ok [OF assms access_ok_empty] by (simp add: access_ok_def)

theorem identity_tables_sound_witness: "tables_ok sample_session \<and> sessions_anchored sample_session"
  using identity_tables_sound [OF sample_run] by simp

text \<open>
  C32. An installation never loses its last administrator: once it has an account, every later state has an
  active administrator with a password, however accounts are renamed, demoted, deactivated, deleted and
  recovered.
\<close>

theorem administrator_is_never_lost:
  assumes "identity_run 0 empty_mdb L t d" "m_accounts d \<noteq> []" "identity_run t d L' t' d'"
  shows "\<exists>a \<in> set (m_accounts d'). a_role a = Admin \<and> a_active a \<and> a_deleted_at a = None \<and>
    (\<exists>p \<in> set (m_passwords d'). p_account p = a_id a \<and> p_hash p \<noteq> None)"
proof -
  have ok: "access_ok t' d'" by (rule run_ok [OF assms(3) run_ok [OF assms(1) access_ok_empty]])
  have "account_ids d \<noteq> {}" using assms(2) by (simp add: account_ids_def)
  with run_accounts [OF assms(3)] have "m_accounts d' \<noteq> []" by (auto simp: account_ids_def)
  with access_ok_parts(10) [OF ok] show ?thesis
    by (auto simp: admin_kept_def is_initialized_def exists_where_iff live_admin_def password_ready_iff)
qed

theorem administrator_is_never_lost_witness:
  "\<exists>a \<in> set (m_accounts sample_session). a_role a = Admin \<and> a_active a"
proof -
  have "m_accounts sample_session \<noteq> []" by (simp add: sample_accounts)
  from administrator_is_never_lost [OF sample_run this identity_run.start] show ?thesis by blast
qed

lemma hash_ended:
  assumes ok: "access_ok now d" and w: "withdraws now p q d d'"
  shows "s \<in> set (m_sessions d) \<Longrightarrow> p s \<Longrightarrow> session_closed (s_hash s) d'"
    "c \<in> set (m_tokens d) \<Longrightarrow> q c \<Longrightarrow> token_closed (t_hash c) d'"
proof -
  have P: "p s' = p s" if "s_id s' = s_id s" "s_account s' = s_account s" "s_credential s' = s_credential s" for s s'
    using w that by cases auto
  have Q: "q c' = q c" if "t_id c' = t_id c" "t_account c' = t_account c" for c c'
    using w that by cases auto
  have ends: "all_ended p q d'" by (rule withdraws_ends [OF w ok])
  have aged: "aged (m_sessions d) (m_sessions d')"
    using w by cases (auto dest: change_account_sessions password_sessions revocation_sessions)
  have aged_t: "aged_tokens (m_tokens d) (m_tokens d')"
    using w by cases (auto dest: change_account_tokens password_tokens revocation_tokens)
  have keys: "distinct (map s_hash (m_sessions d))" "distinct (map t_hash (m_tokens d))"
    using access_ok_parts(2,5) [OF ok] by (simp_all add: sessions_ok_def tokens_ok_def)
  show "session_closed (s_hash s) d'" if s: "s \<in> set (m_sessions d)" "p s"
    unfolding session_closed_def
  proof (intro ballI impI)
    fix s' assume s': "s' \<in> set (m_sessions d')" "s_hash s' = s_hash s"
    obtain r where r: "r \<in> set (m_sessions d)" "s_hash s' = s_hash r" "s_id s' = s_id r" "s_account s' = s_account r"
        "s_credential s' = s_credential r" using aged s'(1) unfolding aged_def by blast
    have "r = s" using key_unique [OF keys(1) r(1) s(1)] r(2) s'(2) by simp
    with P [of s' r] r s(2) ends s'(1) show "s_revoked_at s' \<noteq> None" by (simp add: all_ended_def)
  qed
  show "token_closed (t_hash c) d'" if c: "c \<in> set (m_tokens d)" "q c"
    unfolding token_closed_def
  proof (intro ballI impI)
    fix c' assume c': "c' \<in> set (m_tokens d')" "t_hash c' = t_hash c"
    obtain r where r: "r \<in> set (m_tokens d)" "t_hash c' = t_hash r" "t_id c' = t_id r" "t_account c' = t_account r"
      using aged_t c'(1) unfolding aged_tokens_def by blast
    have "r = c" using key_unique [OF keys(2) r(1) c(1)] r(2) c'(2) by simp
    with Q [of c' r] r c(2) ends c'(1) show "t_revoked_at c' \<noteq> None" by (simp add: all_ended_def)
  qed
qed

text \<open>
  C33. Withdrawn access stays withdrawn: after an account is deactivated or deleted, its password changed or
  recovered, or a session or token revoked, none of the sessions and tokens concerned authenticates at any
  later time, whatever transactions follow (reactivation included), unless the same secret is stored again.
\<close>

theorem withdrawn_access_stays_withdrawn:
  assumes "identity_run 0 empty_mdb L0 t d" "t \<le> now" "withdraws now p q d d'" "identity_run now d' L t' d''"
  shows "(\<forall>s \<in> set (m_sessions d). p s \<and> s_hash s \<notin> L \<longrightarrow>
       session_identity t'' (s_hash s) d'' = None \<and> password_only_session t'' (s_hash s) d'' = None) \<and>
    (\<forall>c \<in> set (m_tokens d). q c \<and> t_hash c \<notin> L \<longrightarrow> token_identity t'' (t_hash c) d'' = None)"
proof -
  have ok: "access_ok now d" by (rule access_ok_later [OF run_ok [OF assms(1) access_ok_empty] assms(2)])
  show ?thesis
    using hash_ended [OF ok assms(3)] closed_run [OF assms(4)] token_closed_run [OF assms(4)] closed_refused token_closed_refused
    by blast
qed

lemma sample_logout: "withdraws 3000 (\<lambda>s. s_id s = 10) (\<lambda>_. False) sample_session
    (snd (revoke_session 3000 \<lparr>ac_actor = SystemActor, ac_request = 5, ac_surface = Console\<rparr> 1 10 sample_session))"
  by (rule withdraws.logged_out [where c = "\<lparr>ac_actor = SystemActor, ac_request = 5, ac_surface = Console\<rparr>" and account = 1], rule prod_eqI)
    (simp_all add: revoke_session_def Let_def exists_where_def sample_sessions)

theorem withdrawn_access_stays_withdrawn_witness:
  "session_identity 4000 (sample_hash (CHR ''a''))
     (snd (revoke_session 3000 \<lparr>ac_actor = SystemActor, ac_request = 5, ac_surface = Console\<rparr> 1 10 sample_session)) = None"
  using withdrawn_access_stays_withdrawn [OF sample_run _ sample_logout identity_run.start, of 4000]
  by (simp add: sample_sessions)

text \<open>
  C35. Looking a session up is exact: a session hash authenticates precisely when its row is neither revoked
  nor expired. The joins of the query on the account, the token and the password generation refuse nothing
  more, because every transaction that ends one of those also revokes the sessions that rest on it.
\<close>

theorem session_lookup_exact:
  assumes "identity_run 0 empty_mdb L t d"
  shows "session_identity now h d \<noteq> None \<longleftrightarrow>
    (\<exists>s \<in> set (m_sessions d). s_hash s = h \<and> s_revoked_at s = None \<and> now < s_expires_at s)"
proof
  assume "session_identity now h d \<noteq> None"
  then show "\<exists>s \<in> set (m_sessions d). s_hash s = h \<and> s_revoked_at s = None \<and> now < s_expires_at s"
    by (auto elim!: session_identity_Some simp: session_unexpired_def)
next
  assume "\<exists>s \<in> set (m_sessions d). s_hash s = h \<and> s_revoked_at s = None \<and> now < s_expires_at s"
  then obtain s where s: "s \<in> set (m_sessions d)" "s_hash s = h" "s_revoked_at s = None" "now < s_expires_at s" by blast
  have ok: "access_ok t d" by (rule run_ok [OF assms access_ok_empty])
  have an: "session_anchored d s" using access_ok_parts(6) [OF ok] s(1,3) by (simp add: sessions_anchored_def)
  have live: "live_account (s_account s) d \<noteq> None"
    using an by (auto simp: session_anchored_def live_account_def find_None_iff)
  have "session_backed now d s"
  proof (cases "s_method s")
    case ByToken
    obtain c where c: "c \<in> set (m_tokens d)" "Some (t_id c) = s_credential s" "t_account c = s_account s"
        "t_revoked_at c = None" "s_expires_at s \<le> t_expires_at c"
      using an ByToken by (auto simp: session_anchored_def)
    have "session_token s d = Some c"
    proof (cases "session_token s d")
      case None
      with c show ?thesis by (auto simp: session_token_def find_None_iff)
    next
      case (Some b)
      then have "b \<in> set (m_tokens d)" "t_id b = t_id c"
        using find_where_Some [OF Some [unfolded session_token_def]] c(2) by (metis option.inject)+
      with c(1) access_ok_parts(2) [OF ok] have "b = c" unfolding tokens_ok_def by (metis key_unique)
      with Some show ?thesis by simp
    qed
    moreover have "t_version c = 1" using access_ok_parts(2) [OF ok] c(1) by (simp add: tokens_ok_def)
    ultimately show ?thesis using ByToken c s(4) by (simp add: session_backed_def token_live_def)
  next
    case ByPassword
    obtain p where p: "p \<in> set (m_passwords d)" "p_account p = s_account s" "p_generation p = s_generation s"
      using an ByPassword by (auto simp: session_anchored_def)
    have "session_password s d = Some p"
    proof (cases "session_password s d")
      case None
      with p show ?thesis by (auto simp: session_password_def find_None_iff)
    next
      case (Some b)
      then have "b \<in> set (m_passwords d)" "p_account b = p_account p"
        using find_where_Some [OF Some [unfolded session_password_def]] p(2) by simp_all
      with p(1) access_ok_parts(3) [OF ok] have "b = p" unfolding passwords_ok_def by (metis key_unique)
      with Some show ?thesis by simp
    qed
    moreover have "s_generation s \<noteq> None"
      using access_ok_parts(5) [OF ok] s(1) ByPassword by (auto simp: sessions_ok_def session_shape_def)
    ultimately show ?thesis using ByPassword p by (simp add: session_backed_def)
  qed
  with s live have "find (\<lambda>s. s_hash s = h \<and> session_unexpired now s \<and> session_backed now d s \<and>
      live_account (s_account s) d \<noteq> None) (m_sessions d) \<noteq> None"
    by (auto simp: find_None_iff session_unexpired_def)
  then show "session_identity now h d \<noteq> None"
    by (auto simp: session_identity_def dest!: find_where_Some split: option.splits)
qed

theorem session_lookup_exact_witness: "session_identity 5000 (sample_hash (CHR ''a'')) sample_session \<noteq> None"
  using session_lookup_exact [OF sample_run, of 5000] by (simp add: sample_sessions)

text \<open>
  C36. Stolen or leaked secrets are bounded: in every reachable state a token has at most 64 open sessions, an
  account has at most 64 open password sessions and at most 32 usable tokens.
\<close>

theorem sessions_and_tokens_bounded:
  assumes "identity_run 0 empty_mdb L t d"
  shows "count_where (\<lambda>s. s_credential s = Some c \<and> s_revoked_at s = None) (m_sessions d) \<le> 64 \<and>
    count_where (\<lambda>s. (s_account s = a \<and> s_method s = ByPassword) \<and> s_revoked_at s = None) (m_sessions d) \<le> 64 \<and>
    count_where (\<lambda>c. t_account c = a \<and> unexpired_token t c) (m_tokens d) \<le> 32"
  using run_ok [OF assms access_ok_empty]
  by (simp add: access_ok_def sessions_bounded_def unrevoked_of_token_def unrevoked_of_password_def tokens_bounded_def TOKEN_LIMIT_def)

theorem sessions_and_tokens_bounded_witness:
  "count_where (\<lambda>s. (s_account s = 1 \<and> s_method s = ByPassword) \<and> s_revoked_at s = None) (m_sessions sample_session) \<le> 64"
  using sessions_and_tokens_bounded [OF sample_run] by blast

end
