(* ===== verification/Management_Access.thy ===== *)
theory Management_Access
  imports Management_Service Identity_System
begin

text \<open>
  What the management services guarantee whatever other transactions do between their steps: the tables
  of the identity change only in one transaction at the end of an operation, on behalf of a caller that is
  authenticated and authorized in that transaction, and after the password was verified where the
  operation asks for it.
\<close>

section \<open>Operations that leave the identity alone\<close>

text \<open>What others do between the steps, and changes of attempt budgets and audit records.\<close>

inductive others_only :: "service_env \<Rightarrow> mdb \<Rightarrow> mdb \<Rightarrow> bool" for E where
  idle_start: "others_only E d d"
| idle_other: "others_only E d d1 \<Longrightarrow> others_only E d (fst (ev_between E k (d1, h)))"
| idle_same: "others_only E d d1 \<Longrightarrow> same_tables d1 d2 \<Longrightarrow> others_only E d d2"

lemma others_only_trans: "others_only E d1 d2 \<Longrightarrow> others_only E d d1 \<Longrightarrow> others_only E d d2"
  by (induction rule: others_only.induct) (auto intro: others_only.intros)

lemma others_idle: "others_only E (sv_db v) (sv_db (others E k v))"
  using idle_other [OF idle_start [of E "sv_db v"], of k "sv_history v"]
  by (cases "ev_between E k (sv_db v, sv_history v)") (simp add: others_def)

definition idle :: "service_env \<Rightarrow> (service, service_error, 'a) eff \<Rightarrow> bool" where
  "idle E op \<longleftrightarrow> (\<forall>v. others_only E (sv_db v) (sv_db (snd (op v))))"

named_theorems idle_intros \<open>operations that leave the identity tables alone\<close>

lemma idleD: "idle E op \<Longrightarrow> op v = (r, v') \<Longrightarrow> others_only E (sv_db v) (sv_db v')"
  unfolding idle_def by (metis snd_conv)

lemma idle_try [idle_intros]:
  assumes "idle E op" "\<And>a. idle E (k a)"
  shows "idle E (try_eff op f k)"
  unfolding idle_def
proof
  fix v
  obtain r v1 where op: "op v = (r, v1)" by (cases "op v") simp
  note first = idleD [OF assms(1) op]
  show "others_only E (sv_db v) (sv_db (snd (try_eff op f k v)))"
  proof (cases r)
    case (Inl e)
    then show ?thesis using op first by simp
  next
    case (Inr a)
    have "others_only E (sv_db v1) (sv_db (snd (k a v1)))" using assms(2) by (simp add: idle_def)
    then show ?thesis using op Inr others_only_trans [OF _ first] by simp
  qed
qed

lemma idle_pure [idle_intros]: "idle E (pure_step r)" "idle E (require_some e x)" "idle E (admit b)" "idle E (ret_ok a)"
  "idle E (check_password E' k p h)" "idle E (canonical_login u)" "idle E (new_hash E' k l p)"
  by (simp_all add: idle_def pure_step_def require_some_def admit_def ret_ok_def check_password_def canonical_login_def
      new_hash_def idle_start)

lemma idle_if [idle_intros]: "idle E a \<Longrightarrow> idle E b \<Longrightarrow> idle E (if p then a else b)"
  by simp

lemma details_db [simp]: "sv_db (set_stage st v) = sv_db v" "sv_db (set_target t v) = sv_db v" "sv_db (set_method m v) = sv_db v"
  by (simp_all add: set_stage_def set_target_def set_method_def)

lemma idle_details [idle_intros]: "(\<And>v. sv_db (f v) = sv_db v) \<Longrightarrow> idle E (update_service f)"
  by (simp add: idle_def update_service_def idle_start)

lemma write_history_idle: "others_only E (sv_db v) (sv_db (write_history E k op v))"
  using others_idle [of E v k] by (simp add: write_history_def Let_def)

lemma record_security_idle: "others_only E (sv_db v) (sv_db (record_security E k c request sf reason v))"
  by (simp add: record_security_def write_history_idle)

lemma record_result_idle: "others_only E (sv_db v) (sv_db (record_result E c request sf e v))"
proof -
  define v1 where "v1 = (case c of
      Some ctx \<Rightarrow> if e \<noteq> None \<or> records_success (dt_operation (sv_details v))
        then write_history E INVOCATION_LOG (\<lambda>now. log_invocation now ctx (sv_details v) (fst (outcome_of e)) (snd (outcome_of e)) (ev_elapsed_ms E)) v
        else v
    | None \<Rightarrow> v)"
  have v1: "others_only E (sv_db v) (sv_db v1)"
    by (simp add: v1_def write_history_idle idle_start split: option.split)
  have "record_result E c request sf e v = (case reason_of (dt_stage (sv_details v)) e of
      None \<Rightarrow> v1 | Some reason \<Rightarrow> record_security E SECURITY_LOG c request sf reason v1)"
    unfolding record_result_def v1_def Let_def ..
  then show ?thesis using v1 others_only_trans [OF record_security_idle v1] by (simp split: option.split)
qed

lemma idle_reauthenticated [idle_intros]: "idle E (update_service (record_reauthenticated E request actor))"
  by (simp add: idle_def update_service_def record_reauthenticated_def record_security_idle)

lemma statement_idle:
  assumes "\<And>now d. same_tables d (snd (op now d))"
  shows "idle E (statement E k op)"
  unfolding idle_def
proof
  fix v
  let ?v = "others E k v"
  have same: "others_only E (sv_db v) (snd (op (ev_now E k) (sv_db ?v)))"
    by (rule idle_same [OF others_idle assms])
  show "others_only E (sv_db v) (sv_db (snd (statement E k op v)))"
    using same others_idle [of E v k] by (auto simp: statement_def Let_def split: prod.split link.split)
qed

lemma idle_reading [idle_intros]: "idle E (reading E k f)"
  unfolding reading_def by (rule statement_idle) (simp add: same_tables_def)

lemma account_allowed_same: "same_tables d (snd (account_allowed now a p d))"
  by (simp add: account_allowed_def Let_def same_tables_def)

lemma anonymous_allowed_same: "same_tables d (snd (anonymous_allowed now d))"
  by (simp add: anonymous_allowed_def same_tables_def)

lemma idle_budget [idle_intros]: "idle E (statement E k (\<lambda>now. account_allowed now a p))" "idle E (statement E k anonymous_allowed)"
  by (rule statement_idle account_allowed_same anonymous_allowed_same)+

lemma idle_login [idle_intros]: "idle E (login_row E user)" "idle E (login_budget E stored)"
  by (auto simp: login_row_def login_budget_def intro: idle_intros split: sum.split option.split)

lemma idle_verify [idle_intros]: "idle E (verify_current E k e h p r)" "idle E (reauthenticate E k h p r)" "idle E (reauthenticate_admin E k h p r)"
  unfolding reauthenticate_admin_def reauthenticate_def verify_current_def current_actor_def
  by (intro idle_intros; simp)+

section \<open>Successful steps\<close>

lemma try_InrE:
  assumes "try_eff op f k v = (Inr b, v')"
  obtains a v1 where "op v = (Inr a, v1)" "k a v1 = (Inr b, v')"
  using assms by (auto elim: try_effE)

lemma statement_InrE:
  assumes "statement E k op v = (Inr a, v')"
  obtains d where "op (ev_now E k) (sv_db (others E k v)) = (a, d)" "v' = (others E k v)\<lparr>sv_db := d\<rparr>"
  using assms by (auto simp: statement_def Let_def split: prod.splits link.splits)

lemma reading_InrE:
  assumes "reading E k f v = (Inr a, v')"
  shows "a = f (ev_now E k) (sv_db (others E k v))" "v' = others E k v"
  using assms by (auto simp: reading_def elim!: statement_InrE)

lemma in_transaction_InrE:
  assumes "in_transaction E k commits op v = (Inr a, v')"
  obtains d where "op (ev_now E k) (sv_db (others E k v)) = (Inr a, d)" "commits a \<Longrightarrow> v' = (others E k v)\<lparr>sv_db := d\<rparr>"
  using assms by (auto simp: in_transaction_def Let_def split: prod.splits sum.splits link.splits if_splits)

lemma in_transaction_Inl:
  assumes "in_transaction E k commits op v = (Inl e, v')" "e \<noteq> SvOutcomeUnknown"
  shows "v' = others E k v"
  using assms by (auto simp: in_transaction_def Let_def split: prod.splits sum.splits link.splits if_splits)

lemma require_Inr: "require_some e x v = (Inr a, v') \<Longrightarrow> x = Some a \<and> v' = v"
  by (auto simp: require_some_def pure_step_def split: option.splits)

lemma admit_Inr: "admit b v = (Inr u, v') \<Longrightarrow> b \<and> v' = v"
  by (auto simp: admit_def pure_step_def split: if_splits)

lemma check_password_True:
  assumes "check_password E k password h v = (Inr b, v')"
  shows "v' = v" "b \<Longrightarrow> \<exists>p. normalize_password (ev_lib E) password = Inr p \<and> pw_matches (ev_lib E) p h"
  using assms
  by (auto simp: check_password_def pure_step_def verify_password_def with_worker_def
      split: sum.splits password_error.splits worker.splits option.splits if_splits)


lemma new_hash_Inr:
  assumes "new_hash E k login password v = (Inr h, v')"
  shows "hash_password (ev_lib E) (ev_worker E k) (ev_salt E k) login password = Inr h" "v' = v"
  using assms by (auto simp: new_hash_def pure_step_def split: sum.splits)

section \<open>Login\<close>

lemma login_row_Inr:
  assumes "login_row E user v = (Inr (Some c), v')"
  obtains login where "username user = Inr login" "find_password login (sv_db (others E 0 v)) = Some c"
  using assms by (auto simp: login_row_def pure_step_def split: sum.splits dest: reading_InrE)

text \<open>What a granted password login has been through.\<close>

definition verified_login :: "service_env \<Rightarrow> string \<Rightarrow> string \<Rightarrow> service \<Rightarrow> password_credential \<Rightarrow> bool" where
  "verified_login E user password v c \<longleftrightarrow>
     (\<exists>login. username user = Inr login \<and> find_password login (sv_db (others E 0 v)) = Some c) \<and>
     (\<exists>d. fst (account_allowed (ev_now E 1) (pc_account c) Login d)) \<and>
     (\<exists>p. normalize_password (ev_lib E) password = Inr p \<and> pw_matches (ev_lib E) p (pc_hash c))"

lemma password_exchange_Inr:
  assumes "password_exchange E request user password session_hash v = (Inr session, v')"
  obtains c v1 d where "verified_login E user password v c" "others_only E (sv_db v) (sv_db v1)"
    "create_password_session (ev_now E 3) (ev_ids E 0) request (pc_account c) (pc_generation c) session_hash (sv_db v1) = (Inr (Some session), d)"
    "v' = v1\<lparr>sv_db := d\<rparr>"
proof -
  from assms obtain stored a allowed b b1 u verified b2 c b3 result w where 1: "login_row E user v = (Inr stored, a)"
    and 2: "login_budget E stored a = (Inr allowed, b)" and 3: "admit allowed b = (Inr u, b1)"
    and 4: "check_password E 2 password (case stored of None \<Rightarrow> DUMMY_HASH | Some c \<Rightarrow> pc_hash c) b1 = (Inr verified, b2)"
    and 5: "require_some SvUnauthenticated (if verified then stored else None) b2 = (Inr c, b3)"
    and 6: "in_transaction E 3 (\<lambda>x. x \<noteq> None) (\<lambda>now. create_password_session now (ev_ids E 0) request (pc_account c)
                 (pc_generation c) session_hash) b3 = (Inr result, w)"
    and 7: "require_some SvUnauthenticated result w = (Inr session, v')"
    unfolding password_exchange_def by (elim try_InrE) (rule that)
  have same: "b1 = b" "b2 = b" "b3 = b" "allowed" using admit_Inr [OF 3] check_password_True(1) [OF 4] require_Inr [OF 5] by simp_all
  have c: "verified" "stored = Some c" using require_Inr [OF 5] by (auto split: if_splits)
  obtain d where d: "create_password_session (ev_now E 3) (ev_ids E 0) request (pc_account c) (pc_generation c) session_hash
      (sv_db (others E 3 b)) = (Inr (Some session), d)" "v' = (others E 3 b)\<lparr>sv_db := d\<rparr>"
    using in_transaction_InrE [OF 6, of thesis] require_Inr [OF 7] same by auto
  have "others_only E (sv_db v) (sv_db b)"
    using idleD [OF idle_login(1) 1] idleD [OF idle_login(2) 2] others_only_trans by blast
  then have trace: "others_only E (sv_db v) (sv_db (others E 3 b))" by (rule others_only_trans [OF others_idle])
  obtain login where "username user = Inr login" "find_password login (sv_db (others E 0 v)) = Some c"
    using 1 c by (auto elim: login_row_Inr)
  moreover have "\<exists>d. fst (account_allowed (ev_now E 1) (pc_account c) Login d)"
  proof -
    have "statement E 1 (\<lambda>now. account_allowed now (pc_account c) Login) a = (Inr True, b)"
      using 2 same c by (simp add: login_budget_def)
    then show ?thesis by (elim statement_InrE) (metis fst_conv)
  qed
  moreover have "\<exists>p. normalize_password (ev_lib E) password = Inr p \<and> pw_matches (ev_lib E) p (pc_hash c)"
    using check_password_True(2) [OF 4] c by simp
  ultimately have "verified_login E user password v c" unfolding verified_login_def by blast
  then show ?thesis using that trace d by blast
qed

text \<open>Refused operations: unless the outcome of the commit is unknown, they leave the identity alone.\<close>

definition refuses_idly :: "service_env \<Rightarrow> (service, service_error, 'a) eff \<Rightarrow> bool" where
  "refuses_idly E op \<longleftrightarrow> (\<forall>v e v'. op v = (Inl e, v') \<longrightarrow> e \<noteq> SvOutcomeUnknown \<longrightarrow> others_only E (sv_db v) (sv_db v'))"

lemma refuses_idlyD: "refuses_idly E op \<Longrightarrow> op v = (Inl e, v') \<Longrightarrow> e \<noteq> SvOutcomeUnknown \<Longrightarrow> others_only E (sv_db v) (sv_db v')"
  by (simp add: refuses_idly_def)

lemma idle_refuses: "idle E op \<Longrightarrow> refuses_idly E op"
  using idleD by (fastforce simp: refuses_idly_def)

lemma refuses_try:
  assumes "idle E op" "\<And>a. refuses_idly E (k a)"
  shows "refuses_idly E (try_eff op id k)"
  unfolding refuses_idly_def
proof (intro allI impI)
  fix v e v' assume run: "try_eff op id k v = (Inl e, v')" and e: "e \<noteq> SvOutcomeUnknown"
  show "others_only E (sv_db v) (sv_db v')"
    using run
  proof (rule try_effE)
    fix x s1 assume "op v = (Inl x, s1)" "v' = s1"
    then show ?thesis using idleD [OF assms(1)] by blast
  next
    fix a s1 assume op: "op v = (Inr a, s1)" and "k a s1 = (Inl e, v')"
    then show ?thesis using others_only_trans [OF refuses_idlyD [OF assms(2) _ e] idleD [OF assms(1) op]] by blast
  qed
qed

lemma transaction_refuses:
  assumes "\<And>now d d' a. op now d = (Inr a, d') \<Longrightarrow> bad a \<Longrightarrow> d' = d"
    and "\<And>a v e v'. k a v = (Inl e, v') \<Longrightarrow> bad a \<and> sv_db v' = sv_db v"
  shows "refuses_idly E (try_eff (in_transaction E n commits op) id k)"
  unfolding refuses_idly_def
proof (intro allI impI)
  fix v e v' assume run: "try_eff (in_transaction E n commits op) id k v = (Inl e, v')" and e: "e \<noteq> SvOutcomeUnknown"
  show "others_only E (sv_db v) (sv_db v')"
    using run
  proof (rule try_effE)
    fix x s1 assume "in_transaction E n commits op v = (Inl x, s1)" "Inl e = (Inl (id x) :: service_error + 'b)" "v' = s1"
    then show ?thesis using in_transaction_Inl [of E n commits op v x s1] e others_idle by simp
  next
    fix a s1 assume t: "in_transaction E n commits op v = (Inr a, s1)" and k: "k a s1 = (Inl e, v')"
    then have "bad a" and v': "sv_db v' = sv_db s1" using assms(2) by blast+
    then have "sv_db s1 = sv_db (others E n v)"
      using t assms(1) by (auto simp: in_transaction_def Let_def split: prod.splits sum.splits link.splits if_splits)
    then show ?thesis using others_idle v' by simp
  qed
qed

lemma password_exchange_refuses: "refuses_idly E (password_exchange E request user password session_hash)"
  unfolding password_exchange_def
proof (rule refuses_try [OF idle_login(1)], rule refuses_try [OF idle_login(2)], rule refuses_try [OF idle_pure(3)],
    rule refuses_try [OF idle_pure(5)], rule refuses_try [OF idle_pure(2)])
  fix c
  show "refuses_idly E (try_eff (in_transaction E 3 (\<lambda>x. x \<noteq> None) (\<lambda>now. create_password_session now (ev_ids E 0) request
      (pc_account c) (pc_generation c) session_hash)) id (require_some SvUnauthenticated))"
    by (rule transaction_refuses [where bad = "\<lambda>x. x = None"])
      (auto simp: require_some_def pure_step_def split: option.splits elim: create_password_session_cases)
qed

lemma record_login_idle: "others_only E (sv_db v) (sv_db (record_login E request m r v))"
proof -
  have "others_only E (sv_db v) (sv_db (record_result E c request Console e (v\<lparr>sv_details := dt\<rparr>)))" for c e dt
    using record_result_idle [of E "v\<lparr>sv_details := dt\<rparr>" c request Console e] by simp
  moreover have "others_only E (sv_db w) (sv_db (record_security E FINAL_LOG c request Console x w))" for c x w
    by (rule record_security_idle)
  ultimately show ?thesis
    unfolding record_login_def Let_def
    by (cases r) (simp_all, blast intro: others_only_trans)
qed

text \<open>
  C38. A password login opens a session only for the account whose name and password were given: the name
  is in canonical form, the account's budget of attempts allowed the check, the password matches the hash
  stored with it, and the generation of that password is still the current one, on an active account, in
  the transaction that stores the session; nothing else changes the tables of the identity. A login that
  is refused changes them not at all. This holds whatever others do between the steps, for instance a
  recovery of the same password while it is being verified.
\<close>

theorem password_login_is_verified:
  assumes "login_password E request user password session_hash v = (r, v')"
  shows "case r of
      Inr session \<Rightarrow> (\<exists>c d1 d2. verified_login E user password v c \<and> others_only E (sv_db v) d1 \<and>
        generation_current (pc_account c) (pc_generation c) d1 \<and> si_account session = pc_account c \<and>
        create_password_session (ev_now E 3) (ev_ids E 0) request (pc_account c) (pc_generation c) session_hash d1 =
          (Inr (Some session), d2) \<and>
        others_only E d2 (sv_db v'))
    | Inl e \<Rightarrow> e = SvOutcomeUnknown \<or> others_only E (sv_db v) (sv_db v')"
proof (cases r)
  case (Inl e)
  obtain v1 where x: "password_exchange E request user password session_hash v = (Inl e, v1)"
    and v': "v' = record_login E request PasswordLogin r v1"
    using assms Inl by (auto simp: login_password_def split: prod.splits)
  show ?thesis
    using others_only_trans [OF record_login_idle refuses_idlyD [OF password_exchange_refuses x]] by (auto simp: Inl v')
next
  case (Inr session)
  obtain w where x: "password_exchange E request user password session_hash v = (Inr session, w)"
    and v': "v' = record_login E request PasswordLogin r w"
    using assms Inr by (auto simp: login_password_def split: prod.splits)
  from x obtain c v1 d where c: "verified_login E user password v c" "others_only E (sv_db v) (sv_db v1)"
    "create_password_session (ev_now E 3) (ev_ids E 0) request (pc_account c) (pc_generation c) session_hash (sv_db v1) = (Inr (Some session), d)"
    "w = v1\<lparr>sv_db := d\<rparr>"
    by (rule password_exchange_Inr)
  from c(3) have "generation_current (pc_account c) (pc_generation c) (sv_db v1) \<and> si_account session = pc_account c"
    by (cases rule: create_password_session_cases) (auto simp: insert_session_def split: if_splits)
  moreover have "others_only E d (sv_db v')" using record_login_idle [of E w] c(4) by (simp add: v')
  ultimately show ?thesis using c(1-3) Inr by auto
qed

section \<open>Re-authentication\<close>

text \<open>The session was live, its account had attempts left and the password matches the one stored for it.\<close>

definition reauthenticated_by :: "service_env \<Rightarrow> nat \<Rightarrow> string \<Rightarrow> string \<Rightarrow> mdb \<Rightarrow> identity \<Rightarrow> password_credential \<Rightarrow> bool" where
  "reauthenticated_by E k session_hash current d actor c \<longleftrightarrow>
     (\<exists>d1. others_only E d d1 \<and> session_identity (ev_now E k) session_hash d1 = Some actor) \<and>
     (\<exists>d1. others_only E d d1 \<and> fst (account_allowed (ev_now E (k + 1)) (id_account actor) Reauthentication d1)) \<and>
     (\<exists>d1. others_only E d d1 \<and> find_by_account (id_account actor) d1 = Some c) \<and>
     (\<exists>p. normalize_password (ev_lib E) current = Inr p \<and> pw_matches (ev_lib E) p (pc_hash c))"

lemma update_Inr: "update_service f v = (Inr u, v') \<Longrightarrow> v' = f v"
  by (simp add: update_service_def)

lemma ret_ok_value: "ret_ok a v = (Inr b, v') \<Longrightarrow> b = a \<and> v' = v"
  by (simp add: ret_ok_def)

lemma verify_current_Inr:
  assumes "verify_current E k none session_hash current request v = (Inr (actor, c), v')"
  shows "reauthenticated_by E k session_hash current (sv_db v) actor c"
proof -
  from assms obtain a u b allowed w u' w' found x c' x' verified y where 1: "current_actor E k session_hash v = (Inr actor, a)"
    and 2: "update_service (set_method PasswordLogin \<circ> set_stage AtReauthentication) a = (Inr u, b)"
    and 3: "statement E (k + 1) (\<lambda>now. account_allowed now (id_account actor) Reauthentication) b = (Inr allowed, w)"
    and 4: "admit allowed w = (Inr u', w')"
    and 5: "reading E (k + 2) (\<lambda>_. find_by_account (id_account actor)) w' = (Inr found, x)"
    and 6: "require_some none found x = (Inr c, x')"
    and 7: "check_password E k current (pc_hash c) x' = (Inr verified, y)" and 8: "verified"
    unfolding verify_current_def
    by (elim try_InrE) (auto simp: pure_step_def split: if_splits elim!: try_InrE dest!: ret_ok_value)
  from 1 obtain v1 f1 where 9: "update_service (set_stage AtAuthentication) v = (Inr u, v1)"
      "reading E k (\<lambda>now. session_identity now session_hash) v1 = (Inr f1, a)" "f1 = Some actor"
    unfolding current_actor_def by (elim try_InrE) (auto dest!: require_Inr)
  have v1: "sv_db v1 = sv_db v" using update_Inr [OF 9(1)] by simp
  have s1: "session_identity (ev_now E k) session_hash (sv_db (others E k v1)) = Some actor" and a: "a = others E k v1"
    using reading_InrE [OF 9(2)] 9(3) by simp_all
  have o1: "others_only E (sv_db v) (sv_db a)" using others_idle [of E v1 k] by (simp add: a v1)
  have b: "sv_db b = sv_db a" using update_Inr [OF 2] by simp
  have ow: "others_only E (sv_db v) (sv_db w)" using others_only_trans [OF idleD [OF idle_budget(1) 3]] o1 by (simp add: b)
  have w': "w' = w" "allowed" using admit_Inr [OF 4] by simp_all
  have f: "find_by_account (id_account actor) (sv_db (others E (k + 2) w)) = Some c" and x: "x' = others E (k + 2) w"
    using reading_InrE [OF 5] require_Inr [OF 6] w' by auto
  have "\<exists>d1. others_only E (sv_db v) d1 \<and> fst (account_allowed (ev_now E (k + 1)) (id_account actor) Reauthentication d1)"
  proof -
    have "fst (account_allowed (ev_now E (k + 1)) (id_account actor) Reauthentication (sv_db (others E (k + 1) b)))"
      using 3 w'(2) by (elim statement_InrE) simp
    moreover have "others_only E (sv_db v) (sv_db (others E (k + 1) b))"
      using others_only_trans [OF others_idle] o1 by (simp add: b)
    ultimately show ?thesis by blast
  qed
  moreover have "others_only E (sv_db v) (sv_db (others E k v1))" using o1 by (simp add: a)
  moreover have "others_only E (sv_db v) (sv_db (others E (k + 2) w))" by (rule others_only_trans [OF others_idle ow])
  ultimately show ?thesis
    unfolding reauthenticated_by_def using s1 f check_password_True(2) [OF 7] 8 by blast
qed

lemma reauthenticate_Inr:
  assumes "reauthenticate E k session_hash current request v = (Inr actor, v')"
  shows "\<exists>c. reauthenticated_by E k session_hash current (sv_db v) actor c"
proof -
  obtain x where "verify_current E k SvForbidden session_hash current request v = (Inr x, v')" "fst x = actor"
    using assms unfolding reauthenticate_def by (elim try_InrE) (auto dest!: ret_ok_value)
  then show ?thesis using verify_current_Inr by (cases x) force
qed

section \<open>Operations of a session\<close>

lemma session_operation_runs:
  assumes "session_operation E request session_hash dt work v = (r, v')"
  obtains v3 v4 where "others_only E (sv_db v) (sv_db v3)" "work v3 = (r, v4)" "others_only E (sv_db v4) (sv_db v')"
proof -
  obtain found v1 where read: "reading E 0 (\<lambda>now. session_identity now session_hash) (v\<lparr>sv_details := dt\<rparr>) = (found, v1)" by fastforce
  define v2 where "v2 = set_method SessionLogin v1"
  define v3 where "v3 = (case found of
              Inr (Some i) \<Rightarrow>
                if dt_target dt = None \<and> dt_operation dt \<noteq> ''identity.account.create''
                then set_target (Some (account_target (ev_uuid_text E) (id_account i))) (set_stage AtExecution v2)
                else set_stage AtExecution v2
            | _ \<Rightarrow> v2)"
  obtain r' v4 where w: "work v3 = (r', v4)" by fastforce
  define v5 where "v5 = (if error_of r' = Some SvOutcomeUnknown then set_stage AtCommit v4 else v4)"
  have "r' = r \<and> v' = record_result E (case found of Inr (Some i) \<Rightarrow> Some (identity_context i request Console) | _ \<Rightarrow> None)
      request Console (error_of r') v5"
    using assms unfolding session_operation_def Let_def read prod.case v2_def [symmetric] v3_def [symmetric] w v5_def [symmetric]
    unfolding prod.inject by blast
  then have run: "r' = r" "others_only E (sv_db v5) (sv_db v')" using record_result_idle [of E v5] by simp_all
  have "others_only E (sv_db v) (sv_db v1)" using idleD [OF idle_reading read] by simp
  moreover have "sv_db v3 = sv_db v1" by (simp add: v3_def v2_def split: sum.split option.split)
  moreover have "sv_db v5 = sv_db v4" by (simp add: v5_def)
  ultimately show ?thesis using that [of v3 v4] w run by simp
qed

lemma session_operation_refuses: "refuses_idly E work \<Longrightarrow> refuses_idly E (session_operation E request h dt work)"
  unfolding refuses_idly_def by (metis session_operation_runs others_only_trans)

definition password_change_work :: "service_env \<Rightarrow> uuid \<Rightarrow> string \<Rightarrow> string \<Rightarrow> string \<Rightarrow> (service, service_error, unit) eff" where
  "password_change_work E request session_hash current replacement =
     try_eff (verify_current E 1 SvUnauthenticated session_hash current request) id (\<lambda>(actor, credential).
     try_eff (update_service (set_stage AtValidation)) id (\<lambda>_.
     try_eff (check_password E 4 replacement (pc_hash credential)) id (\<lambda>same.
       if same then pure_step (Inl SvInvalidInput)
       else try_eff (new_hash E 5 (pc_login credential) replacement) id (\<lambda>h.
            try_eff (update_service (set_stage AtExecution)) id (\<lambda>_.
            try_eff (in_transaction E 6 (\<lambda>b. b) (\<lambda>now. change_password now (ev_ids E 0) request session_hash (pc_generation credential) h)) id (\<lambda>changed.
              require_some SvUnauthenticated (if changed then Some () else None)))))))"

lemma password_change_eq: "password_change E request h current replacement =
    session_operation E request h (new_details ''account.password_change'' AtAuthentication)
      (password_change_work E request h current replacement)"
  by (simp add: password_change_def password_change_work_def)

lemma password_change_refuses: "refuses_idly E (password_change E request session_hash current replacement)"
  unfolding password_change_eq
proof (rule session_operation_refuses, unfold password_change_work_def, rule refuses_try [OF idle_verify(1)])
  fix x :: "identity \<times> password_credential"
  obtain actor c where x: "x = (actor, c)" by fastforce
  have "refuses_idly E (try_eff (in_transaction E 6 (\<lambda>b. b) (\<lambda>now. change_password now (ev_ids E 0) request session_hash
      (pc_generation c) h)) id (\<lambda>changed. require_some SvUnauthenticated (if changed then Some () else None)))" for h
    by (rule transaction_refuses [where bad = "\<lambda>b. \<not> b"])
      (auto simp: require_some_def pure_step_def split: if_splits dest: change_password_False)
  then have "refuses_idly E (try_eff (new_hash E 5 (pc_login c) replacement) id (\<lambda>h.
            try_eff (update_service (set_stage AtExecution)) id (\<lambda>_.
            try_eff (in_transaction E 6 (\<lambda>b. b) (\<lambda>now. change_password now (ev_ids E 0) request session_hash (pc_generation c) h)) id (\<lambda>changed.
              require_some SvUnauthenticated (if changed then Some () else None)))))"
    by (intro refuses_try [OF idle_pure(7)] refuses_try [OF idle_details]) simp_all
  moreover have "refuses_idly E (pure_step (Inl SvInvalidInput) :: (service, service_error, unit) eff)"
    by (rule idle_refuses [OF idle_pure(1)])
  ultimately show "refuses_idly E (case x of (actor, credential) \<Rightarrow>
     try_eff (update_service (set_stage AtValidation)) id (\<lambda>_.
     try_eff (check_password E 4 replacement (pc_hash credential)) id (\<lambda>same.
       if same then pure_step (Inl SvInvalidInput)
       else try_eff (new_hash E 5 (pc_login credential) replacement) id (\<lambda>h.
            try_eff (update_service (set_stage AtExecution)) id (\<lambda>_.
            try_eff (in_transaction E 6 (\<lambda>b. b) (\<lambda>now. change_password now (ev_ids E 0) request session_hash (pc_generation credential) h)) id (\<lambda>changed.
              require_some SvUnauthenticated (if changed then Some () else None)))))))"
    unfolding x prod.case by (intro refuses_try [OF idle_details] refuses_try [OF idle_pure(5)]) simp_all
qed

lemma hash_password_Inr: "hash_password L w salt login password = Inr h \<Longrightarrow> \<exists>p. normalize_password L password = Inr p"
  by (auto simp: hash_password_def validate_new_def Let_def split: sum.splits if_splits)

lemma check_password_False:
  assumes "check_password E k password h v = (Inr False, v')" "normalize_password (ev_lib E) password = Inr p"
  shows "\<not> pw_matches (ev_lib E) p h"
  using assms
  by (auto simp: check_password_def pure_step_def verify_password_def with_worker_def
      split: sum.splits worker.splits option.splits if_splits)

lemma password_change_work_Inr:
  assumes "password_change_work E request session_hash current replacement v = (Inr result, v')"
  obtains actor c h p d0 d where "reauthenticated_by E 1 session_hash current (sv_db v) actor c"
    "hash_password (ev_lib E) (ev_worker E 5) (ev_salt E 5) (pc_login c) replacement = Inr h"
    "normalize_password (ev_lib E) replacement = Inr p" "\<not> pw_matches (ev_lib E) p (pc_hash c)"
    "others_only E (sv_db v) d0"
    "change_password (ev_now E 6) (ev_ids E 0) request session_hash (pc_generation c) h d0 = (Inr True, d)" "sv_db v' = d"
proof -
  from assms obtain x a where 1: "verify_current E 1 SvUnauthenticated session_hash current request v = (Inr x, a)"
    and "(case x of (actor, c) \<Rightarrow> try_eff (update_service (set_stage AtValidation)) id (\<lambda>_.
     try_eff (check_password E 4 replacement (pc_hash c)) id (\<lambda>same.
       if same then pure_step (Inl SvInvalidInput)
       else try_eff (new_hash E 5 (pc_login c) replacement) id (\<lambda>h.
            try_eff (update_service (set_stage AtExecution)) id (\<lambda>_.
            try_eff (in_transaction E 6 (\<lambda>b. b) (\<lambda>now. change_password now (ev_ids E 0) request session_hash (pc_generation c) h)) id (\<lambda>changed.
              require_some SvUnauthenticated (if changed then Some () else None))))))) a = (Inr result, v')"
    unfolding password_change_work_def by (rule try_InrE)
  moreover obtain actor c where x: "x = (actor, c)" by fastforce
  ultimately obtain u b same b1 where 2: "update_service (set_stage AtValidation) a = (Inr u, b)"
    and 3: "check_password E 4 replacement (pc_hash c) b = (Inr same, b1)"
    and rest: "(if same then pure_step (Inl SvInvalidInput)
       else try_eff (new_hash E 5 (pc_login c) replacement) id (\<lambda>h.
            try_eff (update_service (set_stage AtExecution)) id (\<lambda>_.
            try_eff (in_transaction E 6 (\<lambda>b. b) (\<lambda>now. change_password now (ev_ids E 0) request session_hash (pc_generation c) h)) id (\<lambda>changed.
              require_some SvUnauthenticated (if changed then Some () else None))))) b1 = (Inr result, v')"
    unfolding x prod.case by (auto elim!: try_InrE)
  have same: "\<not> same" using rest by (auto simp: pure_step_def)
  then obtain h b2 u' b3 changed where 4: "new_hash E 5 (pc_login c) replacement b1 = (Inr h, b2)"
    and 5: "update_service (set_stage AtExecution) b2 = (Inr u', b3)"
    and 6: "in_transaction E 6 (\<lambda>b. b) (\<lambda>now. change_password now (ev_ids E 0) request session_hash (pc_generation c) h) b3 = (Inr changed, v')"
    and 7: "changed"
    using rest by (auto elim!: try_InrE dest!: require_Inr split: if_splits)
  have db: "sv_db b3 = sv_db a"
    using update_Inr [OF 2] update_Inr [OF 5] check_password_True(1) [OF 3] new_hash_Inr(2) [OF 4] by simp
  obtain p where p: "normalize_password (ev_lib E) replacement = Inr p" using hash_password_Inr [OF new_hash_Inr(1) [OF 4]] ..
  obtain d where d: "change_password (ev_now E 6) (ev_ids E 0) request session_hash (pc_generation c) h (sv_db (others E 6 b3)) = (Inr True, d)"
      "sv_db v' = d"
    using in_transaction_InrE [OF 6, of thesis] 7 by auto
  have "others_only E (sv_db v) (sv_db (others E 6 b3))"
    using others_only_trans [OF others_idle] idleD [OF idle_verify(1) 1] by (simp add: db)
  moreover have "\<not> pw_matches (ev_lib E) p (pc_hash c)" using check_password_False [of E 4 replacement "pc_hash c" b b1 p] 3 same p by simp
  moreover have "reauthenticated_by E 1 session_hash current (sv_db v) actor c"
    using 1 unfolding x by (rule verify_current_Inr)
  ultimately show ?thesis using that [of actor c h p "sv_db (others E 6 b3)" d] new_hash_Inr(1) [OF 4] p d by blast
qed

text \<open>
  C39. A password change replaces all access by password: it succeeds only after the current password was
  verified against the stored one and the replacement was found to differ from it and to satisfy the
  policy; in one transaction it then stores the new hash for the account of the session, whose generation
  was still the verified one, and revokes every session of that account. A refused change leaves the
  tables of the identity alone.
\<close>

theorem password_change_replaces_access:
  assumes "password_change E request session_hash current replacement v = (r, v')"
  shows "case r of
      Inl e \<Rightarrow> e = SvOutcomeUnknown \<or> others_only E (sv_db v) (sv_db v')
    | Inr _ \<Rightarrow> (\<exists>actor c h p d1 d2 s.
        reauthenticated_by E 1 session_hash current (sv_db v) actor c \<and>
        hash_password (ev_lib E) (ev_worker E 5) (ev_salt E 5) (pc_login c) replacement = Inr h \<and>
        normalize_password (ev_lib E) replacement = Inr p \<and> \<not> pw_matches (ev_lib E) p (pc_hash c) \<and>
        others_only E (sv_db v) d1 \<and> s \<in> set (m_sessions d1) \<and> s_hash s = session_hash \<and>
        generation_current (s_account s) (pc_generation c) d1 \<and>
        change_password (ev_now E 6) (ev_ids E 0) request session_hash (pc_generation c) h d1 = (Inr True, d2) \<and>
        (\<forall>x \<in> set (m_sessions d2). s_account x = s_account s \<longrightarrow> s_revoked_at x \<noteq> None) \<and>
        others_only E d2 (sv_db v'))"
proof (cases r)
  case (Inl e)
  then show ?thesis using assms refuses_idlyD [OF password_change_refuses, of E request session_hash current replacement v e v'] by auto
next
  case (Inr result)
  from assms obtain v3 v4 where trace: "others_only E (sv_db v) (sv_db v3)" "others_only E (sv_db v4) (sv_db v')"
    and work: "password_change_work E request session_hash current replacement v3 = (Inr result, v4)"
    unfolding password_change_eq Inr by (rule session_operation_runs)
  from work obtain actor c h p d0 d where found: "reauthenticated_by E 1 session_hash current (sv_db v3) actor c"
    "hash_password (ev_lib E) (ev_worker E 5) (ev_salt E 5) (pc_login c) replacement = Inr h"
    "normalize_password (ev_lib E) replacement = Inr p" "\<not> pw_matches (ev_lib E) p (pc_hash c)"
    "others_only E (sv_db v3) d0"
    "change_password (ev_now E 6) (ev_ids E 0) request session_hash (pc_generation c) h d0 = (Inr True, d)" "sv_db v4 = d"
    by (rule password_change_work_Inr)
  from found(6) obtain s n d1 where s: "s \<in> set (m_sessions d0)" "s_hash s = session_hash"
      "generation_current (s_account s) (pc_generation c) d0"
    and same: "same_tables (revoke_sessions (ev_now E 6) (\<lambda>r. s_account r = s_account s) d1) d"
    by (rule change_password_True)
  have "m_sessions d = m_sessions (revoke_sessions (ev_now E 6) (\<lambda>r. s_account r = s_account s) d1)"
    using same by (simp add: same_tables_def)
  then have ended: "\<forall>x \<in> set (m_sessions d). s_account x = s_account s \<longrightarrow> s_revoked_at x \<noteq> None"
    using ended_sessions [of _ "ev_now E 6" "s_account s" d1] by simp
  have auth: "reauthenticated_by E 1 session_hash current (sv_db v) actor c"
    using found(1) others_only_trans [OF _ trace(1)] unfolding reauthenticated_by_def by blast
  have before: "others_only E (sv_db v) d0" by (rule others_only_trans [OF found(5) trace(1)])
  have after: "others_only E d (sv_db v')" using trace(2) found(7) by simp
  show ?thesis
    unfolding Inr sum.case
    by (rule exI [of _ actor], rule exI [of _ c], rule exI [of _ h], rule exI [of _ p], rule exI [of _ d0],
        rule exI [of _ d], rule exI [of _ s]) (intro conjI auth found(2-4,6) before s ended after)
qed

section \<open>Console commands\<close>

text \<open>
  The console's transaction: in it the proof resolves to a live identity, the policy allows the command's
  action on this surface, and the command is dispatched; a token is issued only in a password session whose
  password was verified before.
\<close>

definition authorized_change :: "service_env \<Rightarrow> (string \<Rightarrow> string) \<Rightarrow> proof_of_identity \<Rightarrow> surface \<Rightarrow> console_command
    \<Rightarrow> mdb \<Rightarrow> console_output \<Rightarrow> mdb \<Rightarrow> bool" where
  "authorized_change E lower pr sf c d1 out d2 \<longleftrightarrow> (\<exists>k i s ctx h.
     resolve_proof (ev_now E k) pr d1 = Some i \<and> authorize (id_caller i) sf (console_action c) = Inr s \<and>
     console_dispatch E lower (ev_now E k) h ctx i s c d1 = (Inr out, d2)) \<and>
     (case c of
        ConIssueCredential _ _ current \<Rightarrow> \<exists>sh d actor cr. pr = PasswordSessionProof sh \<and> reauthenticated_by E 1 sh current d actor cr
      | _ \<Rightarrow> True)"

text \<open>What \<open>console_run\<close> and \<open>console_execute\<close> both promise of the tables before and after.\<close>

definition console_contract :: "service_env \<Rightarrow> (string \<Rightarrow> string) \<Rightarrow> proof_of_identity \<Rightarrow> surface \<Rightarrow> console_command
    \<Rightarrow> mdb \<Rightarrow> service_error + console_output \<Rightarrow> mdb \<Rightarrow> bool" where
  "console_contract E lower pr sf c d r d' \<longleftrightarrow>
     (others_only E d d' \<or> (\<exists>d1 out d2. others_only E d d1 \<and> authorized_change E lower pr sf c d1 out d2 \<and> others_only E d2 d')) \<and>
     (case r of Inl _ \<Rightarrow> True | Inr out \<Rightarrow> \<exists>d1 d2. others_only E d d1 \<and> authorized_change E lower pr sf c d1 out d2)"

lemma contract_refused: "others_only E d d' \<Longrightarrow> console_contract E lower pr sf c d (Inl e) d'"
  by (simp add: console_contract_def)

lemma contract_before: "others_only E d0 d \<Longrightarrow> console_contract E lower pr sf c d r d' \<Longrightarrow> console_contract E lower pr sf c d0 r d'"
  unfolding console_contract_def by (cases r) (simp_all, (blast intro: others_only_trans)+)

lemma contract_after: "console_contract E lower pr sf c d r d1 \<Longrightarrow> others_only E d1 d2 \<Longrightarrow> console_contract E lower pr sf c d r d2"
  unfolding console_contract_def by (cases r) (simp_all, (blast intro: others_only_trans)+)

lemma console_finish_contract:
  assumes "console_finish E lower k ctx i s c v = (r, v')"
    and auth: "resolve_proof (ev_now E k) pr (sv_db v) = Some i" "authorize (id_caller i) sf (console_action c) = Inr s"
    and issue: "case c of
        ConIssueCredential _ _ current \<Rightarrow> \<exists>sh d actor cr. pr = PasswordSessionProof sh \<and> reauthenticated_by E 1 sh current d actor cr
      | _ \<Rightarrow> True"
  shows "console_contract E lower pr sf c (sv_db v) r (sv_db v')"
proof (cases "\<exists>late. ev_link E k = Broken late")
  case True
  then show ?thesis using assms(1) by (auto simp: console_finish_def intro!: contract_refused idle_start)
next
  case False
  let ?h = "sv_history (set_stage AtExecution v)"
  obtain x d where run: "console_dispatch E lower (ev_now E k) ?h ctx i s c (sv_db v) = (x, d)" by fastforce
  show ?thesis
  proof (cases x)
    case (Inl e)
    then show ?thesis using assms(1) False run by (auto simp: console_finish_def intro!: contract_refused idle_start)
  next
    case (Inr out)
    have change: "authorized_change E lower pr sf c (sv_db v) out d"
      unfolding authorized_change_def using auth issue run Inr by blast
    have "sv_db v' \<in> {sv_db v, d}" "r = Inr out \<or> (\<exists>e. r = Inl e)"
      using assms(1) False run Inr by (auto simp: console_finish_def Let_def split: link.splits if_splits)
    moreover have "\<exists>d1 d2. others_only E (sv_db v) d1 \<and> authorized_change E lower pr sf c d1 out d2"
      using change idle_start by blast
    moreover have "\<exists>d1 out d2. others_only E (sv_db v) d1 \<and> authorized_change E lower pr sf c d1 out d2 \<and> others_only E d2 d"
      using change idle_start by blast
    ultimately show ?thesis
      unfolding console_contract_def by (intro conjI) (auto simp only: insert_iff empty_iff intro: idle_start split: sum.split)
  qed
qed

lemma identify_Inr: "identify E k pr v = Inr i \<Longrightarrow> resolve_proof (ev_now E k) pr (sv_db v) = Some i"
  by (auto simp: identify_def split: if_splits option.splits)

lemma console_reissue_contract:
  assumes "console_reissue E lower pr sf ctx s current c request v = (r, v')" "c = ConIssueCredential account key current"
  shows "console_contract E lower pr sf c (sv_db v) r (sv_db v')"
proof (cases "\<exists>sh. pr = PasswordSessionProof sh \<and> ev_link E 0 = Answered")
  case False
  then show ?thesis
    using assms(1) by (auto simp: console_reissue_def intro!: contract_refused idle_start split: proof_of_identity.splits if_splits)
next
  case True
  then obtain sh where sh: "pr = PasswordSessionProof sh" and link: "ev_link E 0 = Answered" by blast
  obtain x a where re: "reauthenticate E 1 sh current request v = (x, a)" by fastforce
  have trace: "others_only E (sv_db v) (sv_db a)" by (rule idleD [OF idle_verify(2) re])
  let ?v = "others E 4 (set_stage AtAuthentication a)"
  have seen: "others_only E (sv_db v) (sv_db ?v)"
    using others_only_trans [OF others_idle [of E "set_stage AtAuthentication a" 4]] trace by simp
  show ?thesis
  proof (cases x)
    case (Inl e)
    then show ?thesis using assms(1) sh link re trace by (auto simp: console_reissue_def intro: contract_refused)
  next
    case (Inr actor)
    note run = assms(1) [unfolded console_reissue_def sh]
    show ?thesis
    proof (cases "identify E 4 pr ?v")
      case (Inl e)
      then show ?thesis using run sh link re Inr seen by (auto simp: Let_def intro: contract_refused)
    next
      case (Inr i)
      show ?thesis
      proof (cases "authorize (id_caller i) sf (console_action c) = Inr s")
        case False
        then show ?thesis using run sh link re \<open>x = Inr actor\<close> Inr seen by (auto simp: Let_def intro: contract_refused)
      next
        case True
        then have fin: "console_finish E lower 4 ctx i s c (set_stage AtAuthorization ?v) = (r, v')"
          using run sh link re \<open>x = Inr actor\<close> Inr by (simp add: Let_def)
        have issue: "case c of
            ConIssueCredential _ _ current \<Rightarrow> \<exists>sh d actor cr. pr = PasswordSessionProof sh \<and> reauthenticated_by E 1 sh current d actor cr
          | _ \<Rightarrow> True"
          using reauthenticate_Inr [of E 1 sh current request v actor a] re \<open>x = Inr actor\<close> sh assms(2) by auto
        have "console_contract E lower pr sf c (sv_db ?v) r (sv_db v')"
          using console_finish_contract [OF fin _ True issue] identify_Inr [OF Inr] by simp
        then show ?thesis by (rule contract_before [OF seen])
      qed
    qed
  qed
qed

lemma console_run_contract:
  assumes "console_run E lower pr sf c request v = (ctx, r, v')"
  shows "console_contract E lower pr sf c (sv_db v) r (sv_db v')"
proof (cases "identify E 0 pr (others E 0 v)")
  case (Inl e)
  then show ?thesis using assms by (auto simp: console_run_def Let_def intro!: contract_refused others_idle)
next
  case (Inr i)
  let ?ctx = "identity_context i request sf"
  define v3 where "v3 = (if c = ConLogout then set_target (map_option (session_target (ev_uuid_text E)) (id_session i))
      (set_stage AtAuthorization (others E 0 v)) else set_stage AtAuthorization (others E 0 v))"
  have db: "sv_db v3 = sv_db (others E 0 v)" by (simp add: v3_def)
  have seen: "others_only E (sv_db v) (sv_db v3)" unfolding db by (rule others_idle)
  have run: "(case authorize (id_caller i) sf (console_action c) of
              Inl _ \<Rightarrow> (Inl SvForbidden, v3)
            | Inr s \<Rightarrow> (case c of
                ConIssueCredential _ _ current \<Rightarrow> console_reissue E lower pr sf ?ctx s current c request v3
              | _ \<Rightarrow> console_finish E lower 0 ?ctx i s c v3)) = (r, v')"
    using assms Inr unfolding v3_def by (simp add: console_run_def Let_def)
  show ?thesis
  proof (cases "authorize (id_caller i) sf (console_action c)")
    case (Inl e)
    then show ?thesis using run seen by (auto intro: contract_refused)
  next
    case (Inr s)
    show ?thesis
    proof (cases "\<exists>account key current. c = ConIssueCredential account key current")
      case True
      then obtain account key current where c: "c = ConIssueCredential account key current" by blast
      then have "console_reissue E lower pr sf ?ctx s current c request v3 = (r, v')" using run Inr by simp
      from console_reissue_contract [OF this c] show ?thesis by (rule contract_before [OF seen])
    next
      case False
      then have fin: "console_finish E lower 0 ?ctx i s c v3 = (r, v')" using run Inr by (simp split: console_command.splits)
      have "case c of
            ConIssueCredential _ _ current \<Rightarrow> \<exists>sh d actor cr. pr = PasswordSessionProof sh \<and> reauthenticated_by E 1 sh current d actor cr
          | _ \<Rightarrow> True" using False by (cases c) auto
      from console_finish_contract [OF fin _ Inr this] identify_Inr [OF \<open>identify E 0 pr (others E 0 v) = Inr i\<close>]
      show ?thesis using contract_before [OF seen] by (simp add: db)
    qed
  qed
qed

lemma dispatch_reads:
  assumes "console_dispatch E lower now h ctx i s c d = (Inr out, d')" "\<not> is_mutation c"
  shows "d' = d"
  using assms by (cases c) (auto simp: console_dispatch_def is_mutation_def console_action_def Let_def split: sum.splits)

text \<open>
  C37. The console changes accounts, tokens and sessions only with authority: whatever others do meanwhile,
  the tables of the identity change at most once, in a transaction in which the presented proof resolves to
  a live account and the policy allows that caller the command's action on that surface; reading commands
  change nothing; and every answer, also of a read, comes from such a transaction. A token is issued only
  in a password session after its password was verified.
\<close>

theorem console_needs_authority:
  assumes "console_execute E lower pr sf c v = (r, v')"
  shows "(others_only E (sv_db v) (sv_db v') \<or>
      (is_mutation c \<and> (\<exists>d1 out d2. others_only E (sv_db v) d1 \<and> authorized_change E lower pr sf c d1 out d2 \<and>
        others_only E d2 (sv_db v')))) \<and>
    (case r of Inl _ \<Rightarrow> True
     | Inr out \<Rightarrow> \<exists>d1 d2. others_only E (sv_db v) d1 \<and> authorized_change E lower pr sf c d1 out d2)"
proof -
  define v0 where "v0 = v\<lparr>sv_details := (proof_details (console_name c) pr)\<lparr>dt_target := console_target (ev_uuid_text E) c\<rparr>\<rparr>"
  obtain ctx raw v1 where run: "console_run E lower pr sf c (ev_ids E 1) v0 = (ctx, raw, v1)" by (metis prod_cases3)
  have first: "console_contract E lower pr sf c (sv_db v) raw (sv_db v1)"
    using console_run_contract [OF run] by (simp add: v0_def)
  obtain v2 e where v2: "sv_db v2 = sv_db v1"
    and v': "v' = record_result E ctx (ev_ids E 1) sf e v2 \<or>
       v' = record_security E FINAL_LOG ctx (ev_ids E 1) sf ReasonSignedOut (record_result E ctx (ev_ids E 1) sf e v2)"
    and r: "r = raw \<or> (\<exists>x. r = Inl x)"
  proof -
    define r0 where "r0 = (if \<not> is_mutation c \<and> error_of raw = Some SvOutcomeUnknown then Inl SvUnavailable else raw)"
    define w where "w = (case r0 of
              Inr (OutAccount i) \<Rightarrow> set_target (Some (account_target (ev_uuid_text E) i)) v1
            | Inr (OutCredential x) \<Rightarrow> set_target (Some (credential_target (ev_uuid_text E) (cd_id x))) v1
            | Inl SvOutcomeUnknown \<Rightarrow> set_stage AtCommit v1
            | _ \<Rightarrow> v1)"
    have "sv_db w = sv_db v1" by (simp add: w_def split: sum.split console_output.split service_error.split)
    moreover have "r = r0 \<and> v' = (if console_name c = ''identity.session.logout'' \<and> r0 = Inr (OutChanged True)
          then record_security E FINAL_LOG ctx (ev_ids E 1) sf ReasonSignedOut (record_result E ctx (ev_ids E 1) sf (error_of r0) w)
          else record_result E ctx (ev_ids E 1) sf (error_of r0) w)"
      using assms unfolding console_execute_def Let_def v0_def [symmetric] run prod.case r0_def [symmetric] w_def [symmetric]
      by blast
    ultimately show thesis using that [of w "error_of r0"] by (auto simp: r0_def split: if_splits)
  qed
  have "others_only E (sv_db v1) (sv_db v')"
    using v' record_result_idle [of E v2 ctx "ev_ids E 1" sf e] others_only_trans [OF record_security_idle] by (auto simp: v2)
  then have "console_contract E lower pr sf c (sv_db v) raw (sv_db v')" by (rule contract_after [OF first])
  then have final: "console_contract E lower pr sf c (sv_db v) r (sv_db v')" using r by (auto simp: console_contract_def)
  have reads: "d2 = d1" if "authorized_change E lower pr sf c d1 out d2" "\<not> is_mutation c" for d1 out d2
    using that dispatch_reads unfolding authorized_change_def by blast
  show ?thesis
    using final reads others_only_trans unfolding console_contract_def by blast
qed


section \<open>A sample installation\<close>

text \<open>
  The administrator of \<open>sample_session\<close> (account 1, session 10) with a toy hash: a password matches the
  hash of the sample when it is this one.
\<close>

definition sample_password :: string where
  "sample_password = ''a long and good pass''"

definition sample_lib :: password_lib where
  "sample_lib = \<lparr>pw_nfc = (\<lambda>s. s), pw_lowercase = map ascii_lower,
     pw_phc = (\<lambda>h. Some \<lparr>ph_algorithm = ''argon2id'', ph_version = Some 19, ph_m_cost = 19456, ph_t_cost = 2, ph_p_cost = 1,
        ph_output_len = Some 32, ph_keyid = [], ph_data = [], ph_salt = Some ''salt''\<rparr>),
     pw_hash = (\<lambda>salt p. Some (''$argon2id$v=19$'' @ p @ replicate 30 (CHR ''y''))),
     pw_matches = (\<lambda>p h. p = sample_password \<and> h = sample_password_hash)\<rparr>"

definition sample_env :: service_env where
  "sample_env = \<lparr>ev_lib = sample_lib, ev_uuid_text = (\<lambda>i. replicate i (CHR ''1'')), ev_now = (\<lambda>k. 3000), ev_between = (\<lambda>k x. x),
     ev_link = (\<lambda>k. Answered), ev_worker = (\<lambda>k. Granted), ev_salt = (\<lambda>k. ''s''), ev_ids = (\<lambda>k. 20 + k),
     ev_written = (\<lambda>k. True), ev_sampling = (\<lambda>k. True), ev_elapsed_ms = 5\<rparr>"

definition sample_service :: service where
  "sample_service = \<lparr>sv_db = sample_session,
     sv_history = \<lparr>hi_invocations = [], hi_next_invocation = 1, hi_security = [], hi_next_security = 1\<rparr>,
     sv_details = new_details ''x'' AtAuthentication\<rparr>"

lemma sample_steps [simp]:
  "others sample_env k v = v"
  "ev_now sample_env k = 3000" "ev_link sample_env k = Answered" "ev_ids sample_env k = 20 + k" "ev_lib sample_env = sample_lib"
  "ev_worker sample_env k = Granted" "ev_salt sample_env k = ''s''"
  "statement sample_env k op v = (Inr (fst (op 3000 (sv_db v))), v\<lparr>sv_db := snd (op 3000 (sv_db v))\<rparr>)"
  "reading sample_env k f v = (Inr (f 3000 (sv_db v)), v)"
  by (simp_all add: others_def sample_env_def statement_def reading_def Let_def split: prod.splits)

lemma sample_transaction: "op 3000 (sv_db v) = (Inr a, d) \<Longrightarrow> in_transaction sample_env k commits op v = (Inr a, v\<lparr>sv_db := d\<rparr>)"
  by (simp add: in_transaction_def Let_def)

definition sample_credential :: password_credential where
  "sample_credential = \<lparr>pc_account = 1, pc_login = ''admin'', pc_hash = sample_password_hash, pc_generation = 2\<rparr>"

lemma sample_name: "username ''admin'' = Inr ''admin''"
proof -
  have "trim ''admin'' = ''admin''" by (rule trim_ascii) (simp_all add: printable_def code_def)
  then show ?thesis by (simp add: username_def ascii_lower_def is_ascii_alnum_def is_lower_def code_def)
qed

lemma sample_lookup: "find_password ''admin'' sample_session = Some sample_credential"
  by code_simp

lemma sample_budget: "account_allowed 3000 1 Login sample_session = (True, sample_session\<lparr>m_budgets := [\<lparr>b_account = 1, b_purpose = Login, b_window = 3000, b_attempts = 1\<rparr>]\<rparr>)"
  by code_simp

lemma sample_right: "verify_password sample_lib Granted sample_password sample_password_hash = Inr True"
  by (simp add: verify_password_def normalize_password_def sample_lib_def sample_password_def MAX_INPUT_BYTES_def MIN_CHARS_def
      MAX_CHARS_def char_count_def with_worker_def phc_supported_def code_def)

lemma sample_wrong: "verify_password sample_lib Granted ''not the password at all'' sample_password_hash = Inr False"
  by (simp add: verify_password_def normalize_password_def sample_lib_def sample_password_def MAX_INPUT_BYTES_def MIN_CHARS_def
      MAX_CHARS_def char_count_def with_worker_def phc_supported_def code_def)

definition sample_attempt :: mdb where
  "sample_attempt = sample_session\<lparr>m_budgets := [\<lparr>b_account = 1, b_purpose = Login, b_window = 3000, b_attempts = 1\<rparr>]\<rparr>"

lemma sample_opens: "\<exists>s. fst (create_password_session 3000 20 7 1 2 (sample_hash (CHR ''b'')) sample_attempt) = Inr (Some s)"
proof -
  have "(case fst (create_password_session 3000 20 7 1 2 (sample_hash (CHR ''b'')) sample_attempt) of
      Inr (Some s) \<Rightarrow> True | _ \<Rightarrow> False)" by code_simp
  then show ?thesis by (simp split: sum.splits option.splits)
qed

lemma try_pure [simp]: "try_eff (pure_step (Inr a)) f k v = k a v" "try_eff (pure_step (Inl e)) f k v = (Inl (f e), v)"
  by (simp_all add: try_eff_def pure_step_def)

lemma sample_exchange: "\<exists>s w. password_exchange sample_env 7 ''admin'' sample_password (sample_hash (CHR ''b'')) sample_service = (Inr s, w)"
proof -
  obtain s d where "create_password_session 3000 20 7 1 2 (sample_hash (CHR ''b'')) sample_attempt = (Inr (Some s), d)"
    using sample_opens by (metis prod.collapse)
  then show ?thesis
    by (simp add: password_exchange_def login_row_def login_budget_def sample_name sample_lookup sample_credential_def
        sample_budget sample_right sample_service_def admit_def pure_step_def check_password_def require_some_def
        sample_attempt_def in_transaction_def Let_def del: One_nat_def)
qed

lemma sample_refused: "\<exists>w. password_exchange sample_env 7 ''admin'' ''not the password at all'' h sample_service = (Inl SvUnauthenticated, w)"
  by (simp add: password_exchange_def login_row_def login_budget_def sample_name sample_lookup sample_credential_def
      sample_budget sample_wrong sample_service_def admit_def pure_step_def check_password_def require_some_def del: One_nat_def)

text \<open>The sample: the right password opens a session of account 1, the wrong one changes no table.\<close>

theorem password_login_is_verified_witness:
  "(\<exists>s v' c d1. login_password sample_env 7 ''admin'' sample_password (sample_hash (CHR ''b'')) sample_service = (Inr s, v') \<and>
      verified_login sample_env ''admin'' sample_password sample_service c \<and> generation_current (pc_account c) (pc_generation c) d1 \<and>
      si_account s = pc_account c) \<and>
   (\<exists>v'. login_password sample_env 7 ''admin'' ''not the password at all'' ''h'' sample_service = (Inl SvUnauthenticated, v') \<and>
      others_only sample_env sample_session (sv_db v'))"
proof (intro conjI)
  obtain s w where "password_exchange sample_env 7 ''admin'' sample_password (sample_hash (CHR ''b'')) sample_service = (Inr s, w)"
    using sample_exchange by blast
  then obtain v' where run: "login_password sample_env 7 ''admin'' sample_password (sample_hash (CHR ''b'')) sample_service = (Inr s, v')"
    by (simp add: login_password_def)
  then show "\<exists>s v' c d1. login_password sample_env 7 ''admin'' sample_password (sample_hash (CHR ''b'')) sample_service = (Inr s, v') \<and>
      verified_login sample_env ''admin'' sample_password sample_service c \<and> generation_current (pc_account c) (pc_generation c) d1 \<and>
      si_account s = pc_account c"
    using password_login_is_verified [OF run] unfolding sum.case by blast
  obtain w where "password_exchange sample_env 7 ''admin'' ''not the password at all'' ''h'' sample_service = (Inl SvUnauthenticated, w)"
    using sample_refused by blast
  then obtain v' where run: "login_password sample_env 7 ''admin'' ''not the password at all'' ''h'' sample_service = (Inl SvUnauthenticated, v')"
    by (simp add: login_password_def)
  have "sv_db sample_service = sample_session" by (simp add: sample_service_def)
  then show "\<exists>v'. login_password sample_env 7 ''admin'' ''not the password at all'' ''h'' sample_service = (Inl SvUnauthenticated, v') \<and>
      others_only sample_env sample_session (sv_db v')"
    using password_login_is_verified [OF run] run unfolding sum.case by auto
qed

definition sample_identity :: identity where
  "sample_identity = \<lparr>id_account = 1, id_credential = None, id_session = Some 10, 
     id_caller = \<lparr>c_actor = User Admin AccountActive, c_method = UserSession, c_credential_state = CredActive\<rparr>\<rparr>"

lemma sample_actor: "session_identity 3000 (sample_hash (CHR ''a'')) sample_session = Some sample_identity"
  by code_simp

definition sample_reattempt :: mdb where
  "sample_reattempt = sample_session\<lparr>m_budgets := [\<lparr>b_account = 1, b_purpose = Reauthentication, b_window = 3000, b_attempts = 1\<rparr>]\<rparr>"

lemma sample_found: "find_by_account 1 sample_reattempt = Some sample_credential"
  by code_simp

lemma sample_rebudget: "account_allowed 3000 1 Reauthentication sample_session = (True, sample_reattempt)"
  by code_simp

definition sample_replacement :: string where
  "sample_replacement = ''quite another password''"

definition sample_new_hash :: string where
  "sample_new_hash = ''$argon2id$v=19$'' @ sample_replacement @ replicate 30 (CHR ''y'')"

lemma sample_differs: "verify_password sample_lib Granted sample_replacement sample_password_hash = Inr False"
  by (simp add: verify_password_def normalize_password_def sample_lib_def sample_password_def sample_replacement_def
      MAX_INPUT_BYTES_def MIN_CHARS_def MAX_CHARS_def char_count_def with_worker_def phc_supported_def code_def)

lemma sample_hashed: "hash_password sample_lib Granted ''s'' ''admin'' sample_replacement = Inr sample_new_hash"
proof -
  have "trim sample_replacement = sample_replacement"
    by (rule trim_ascii) (simp_all add: sample_replacement_def printable_def code_def)
  moreover have "normalize_password sample_lib sample_replacement = Inr sample_replacement"
    by (simp add: normalize_password_def sample_lib_def sample_replacement_def
      MAX_INPUT_BYTES_def MIN_CHARS_def MAX_CHARS_def char_count_def code_def)
  moreover have "map ascii_lower sample_replacement = sample_replacement"
    by (simp add: sample_replacement_def ascii_lower_def code_def)
  moreover have "utf8_chars sample_replacement = map (\<lambda>c. [c]) sample_replacement"
    by (simp add: sample_replacement_def code_def)
  moreover have "sample_replacement \<notin> set COMMON_PASSWORDS" "sample_replacement \<noteq> ''admin''"
    by (simp_all add: sample_replacement_def COMMON_PASSWORDS_def)
  moreover have "\<not> (\<forall>c \<in> set (map (\<lambda>c. [c]) sample_replacement). c = hd (map (\<lambda>c. [c]) sample_replacement))"
    by (simp add: sample_replacement_def)
  ultimately show ?thesis
    by (simp add: hash_password_def sample_name validate_new_def Let_def with_worker_def sample_new_hash_def) (simp add: sample_lib_def)
qed

lemma sample_replaces: "\<exists>d. change_password 3000 20 7 (sample_hash (CHR ''a'')) 2 sample_new_hash sample_reattempt = (Inr True, d)"
proof -
  have "(case fst (change_password 3000 20 7 (sample_hash (CHR ''a'')) 2 sample_new_hash sample_reattempt) of
      Inr b \<Rightarrow> b | _ \<Rightarrow> False)" by code_simp
  then show ?thesis by (cases "change_password 3000 20 7 (sample_hash (CHR ''a'')) 2 sample_new_hash sample_reattempt")
      (auto split: sum.splits)
qed

lemma sample_recorded [simp]: "sv_db (record_reauthenticated sample_env request actor v) = sv_db v"
  by (simp add: record_reauthenticated_def record_security_def write_history_def Let_def)

lemma sample_parts [simp]: "id_account sample_identity = 1" "pc_hash sample_credential = sample_password_hash"
  "pc_login sample_credential = ''admin''" "pc_generation sample_credential = 2"
  by (simp_all add: sample_identity_def sample_credential_def)

lemma sample_verifies:
  assumes "sv_db v = sample_session"
  shows "\<exists>v'. verify_current sample_env 1 none (sample_hash (CHR ''a'')) sample_password 7 v = (Inr (sample_identity, sample_credential), v') \<and>
    sv_db v' = sample_reattempt"
  using assms
  by (simp add: verify_current_def current_actor_def update_service_def require_some_def check_password_def admit_def ret_ok_def
      sample_actor sample_found sample_rebudget sample_right pure_step_def del: One_nat_def)

lemma sample_change: "\<exists>v'. password_change sample_env 7 (sample_hash (CHR ''a'')) sample_password sample_replacement sample_service = (Inr (), v')"
proof -
  have work: "\<exists>v'. password_change_work sample_env 7 (sample_hash (CHR ''a'')) sample_password sample_replacement v = (Inr (), v')"
    if v: "sv_db v = sample_session" for v
  proof -
    obtain a where a: "verify_current sample_env 1 SvUnauthenticated (sample_hash (CHR ''a'')) sample_password 7 v =
        (Inr (sample_identity, sample_credential), a)" "sv_db a = sample_reattempt"
      using sample_verifies [OF v] by blast
    obtain d where "change_password 3000 20 7 (sample_hash (CHR ''a'')) 2 sample_new_hash sample_reattempt = (Inr True, d)"
      using sample_replaces by blast
    then show ?thesis
      using a by (simp add: password_change_work_def update_service_def check_password_def new_hash_def sample_differs
          sample_hashed require_some_def in_transaction_def Let_def del: One_nat_def) (simp add: pure_step_def)
  qed
  define dt where "dt = new_details ''account.password_change'' AtAuthentication"
  define v3 where "v3 = set_target (Some (account_target (ev_uuid_text sample_env) 1)) (set_stage AtExecution
      (set_method SessionLogin (sample_service\<lparr>sv_details := dt\<rparr>)))"
  have "fst (password_change sample_env 7 (sample_hash (CHR ''a'')) sample_password sample_replacement sample_service) =
      fst (password_change_work sample_env 7 (sample_hash (CHR ''a'')) sample_password sample_replacement v3)"
    by (simp add: password_change_eq session_operation_def Let_def sample_service_def sample_actor new_details_def v3_def dt_def
        split: prod.splits del: One_nat_def)
  moreover have "sv_db v3 = sample_session" by (simp add: v3_def sample_service_def)
  ultimately show ?thesis using work by (metis fst_conv prod.collapse)
qed

text \<open>The administrator of the sample replaces the password.\<close>

theorem password_change_replaces_access_witness:
  "\<exists>v' d1 d2 s. password_change sample_env 7 (sample_hash (CHR ''a'')) sample_password sample_replacement sample_service = (Inr (), v') \<and>
     others_only sample_env sample_session d1 \<and> s \<in> set (m_sessions d1) \<and> s_hash s = sample_hash (CHR ''a'') \<and>
     (\<forall>x \<in> set (m_sessions d2). s_account x = s_account s \<longrightarrow> s_revoked_at x \<noteq> None) \<and> others_only sample_env d2 (sv_db v')"
proof -
  obtain v' where run: "password_change sample_env 7 (sample_hash (CHR ''a'')) sample_password sample_replacement sample_service = (Inr (), v')"
    using sample_change by blast
  have db: "sv_db sample_service = sample_session" by (simp add: sample_service_def)
  show ?thesis using password_change_replaces_access [OF run] run unfolding sum.case db by blast
qed

definition sample_context :: audit_context where
  "sample_context = \<lparr>ac_actor = AccountActor 1 None (Some 10), ac_request = 21, ac_surface = Console\<rparr>"

lemma sample_creates: "\<exists>d. create_account 3000 sample_context 20 ''Bob'' Reader sample_session = (Inr 20, d) \<and> m_accounts d \<noteq> m_accounts sample_session"
proof -
  have "fst (create_account 3000 sample_context 20 ''Bob'' Reader sample_session) = Inr 20"
    "length (m_accounts (snd (create_account 3000 sample_context 20 ''Bob'' Reader sample_session))) = 2" by code_simp+
  then show ?thesis by (cases "create_account 3000 sample_context 20 ''Bob'' Reader sample_session") (auto simp: sample_accounts)
qed

lemma sample_resolves: "resolve_proof 3000 (SessionProof (sample_hash (CHR ''a''))) sample_session = Some sample_identity"
  "resolve_proof 3000 (SessionProof (sample_hash (CHR ''c''))) sample_session = None"
  by code_simp+

lemma sample_authority: "authorize (id_caller sample_identity) Console ManageIdentities = Inr Installation"
  by code_simp

lemma sample_console: "\<exists>v'. console_execute sample_env id (SessionProof (sample_hash (CHR ''a''))) Console (ConCreateAccount ''Bob'' Reader)
    sample_service = (Inr (OutAccount 20), v')"
proof -
  obtain d where "create_account 3000 sample_context 20 ''Bob'' Reader sample_session = (Inr 20, d)" using sample_creates by blast
  moreover have "identity_context sample_identity 21 Console = sample_context"
    by (simp add: identity_context_def sample_identity_def sample_context_def)
  ultimately show ?thesis
    by (simp add: console_execute_def console_run_def identify_def console_finish_def console_dispatch_def sample_service_def
        console_action_def sample_resolves sample_authority Let_def ret_ok_def error_of_def console_name_def del: One_nat_def)
qed

text \<open>The administrator of the sample creates an account; a token nobody knows is refused.\<close>

theorem console_needs_authority_witness:
  "(\<exists>v' d1 d2. console_execute sample_env id (SessionProof (sample_hash (CHR ''a''))) Console (ConCreateAccount ''Bob'' Reader)
       sample_service = (Inr (OutAccount 20), v') \<and> others_only sample_env sample_session d1 \<and>
     authorized_change sample_env id (SessionProof (sample_hash (CHR ''a''))) Console (ConCreateAccount ''Bob'' Reader) d1 (OutAccount 20) d2) \<and>
   fst (console_execute sample_env id (SessionProof (sample_hash (CHR ''c''))) Console (ConCreateAccount ''Bob'' Reader) sample_service) =
     Inl SvUnauthenticated"
proof
  obtain v' where run: "console_execute sample_env id (SessionProof (sample_hash (CHR ''a''))) Console (ConCreateAccount ''Bob'' Reader)
      sample_service = (Inr (OutAccount 20), v')" using sample_console by blast
  have db: "sv_db sample_service = sample_session" by (simp add: sample_service_def)
  show "\<exists>v' d1 d2. console_execute sample_env id (SessionProof (sample_hash (CHR ''a''))) Console (ConCreateAccount ''Bob'' Reader)
       sample_service = (Inr (OutAccount 20), v') \<and> others_only sample_env sample_session d1 \<and>
     authorized_change sample_env id (SessionProof (sample_hash (CHR ''a''))) Console (ConCreateAccount ''Bob'' Reader) d1 (OutAccount 20) d2"
    using console_needs_authority [OF run] run unfolding sum.case db by blast
  show "fst (console_execute sample_env id (SessionProof (sample_hash (CHR ''c''))) Console (ConCreateAccount ''Bob'' Reader) sample_service) =
      Inl SvUnauthenticated"
    by (simp add: console_execute_def console_run_def identify_def sample_service_def sample_resolves Let_def error_of_def
        console_name_def del: One_nat_def)
qed

end
