(* ===== verification/Tenancy.thy ===== *)
theory Tenancy
  imports S3_Multipart_Api
begin

text \<open>
  The isolation of clients on the S3 surface. \<open>only_file i\<close> describes a transaction that changes the
  rows of one file; \<open>for_client c\<close> one that changes files and keys of one client only; \<open>confined\<close>
  carries the latter through the handlers, step by step.
\<close>

section \<open>Transactions on one file\<close>

named_theorems only_file_intros

definition only_file :: "uuid \<Rightarrow> db \<Rightarrow> db \<Rightarrow> bool" where
  "only_file i d d' \<longleftrightarrow> (\<forall>j. j \<noteq> i \<longrightarrow> view d' j = view d j) \<and> object_keys d' = object_keys d \<and>
     map_option f_client (v_file (view d' i)) = map_option f_client (v_file (view d i))"

lemma only_file_refl [simp]: "only_file i d d"
  by (simp add: only_file_def)

lemma only_file_trans: "only_file i d d' \<Longrightarrow> only_file i d' d'' \<Longrightarrow> only_file i d d''"
  by (simp add: only_file_def)

lemma only_file_at:
  assumes "at_file d i v d'" "object_keys d' = object_keys d" "map_option f_client (v_file v) = map_option f_client (v_file (view d i))"
  shows "only_file i d d'"
  using assms by (simp add: only_file_def at_file_def del: view_simps)

lemma only_file_leases:
  assumes "\<And>l. l \<in> set (leases d) \<Longrightarrow> hit l \<Longrightarrow> le_file l = i" "\<And>l. hit l \<Longrightarrow> same_identity l (u l)"
  shows "only_file i d (d\<lparr>leases := update_where hit u (leases d)\<rparr>)"
proof -
  have "write_leases (d\<lparr>leases := update_where hit u (leases d)\<rparr>) j = write_leases d j" if "j \<noteq> i" for j
  proof -
    have "write_leases (d\<lparr>leases := update_where hit u (leases d)\<rparr>) j = update_where hit u (write_leases d j)"
      unfolding write_leases_def using assms(2) by (simp add: filter_update_where same_identity_def)
    also have "\<dots> = write_leases d j"
      using assms(1) that by (intro update_where_id) (auto simp: in_write_leases)
    finally show ?thesis .
  qed
  then show ?thesis by (simp add: only_file_def view_def)
qed

lemma only_file_parts:
  assumes "schema_ok d" "l \<in> set (leases d)" "le_id l = lease" "le_file l = i"
    "filter (\<lambda>p. lp_lease p \<noteq> lease) P = filter (\<lambda>p. lp_lease p \<noteq> lease) (lease_parts d)"
  shows "only_file i d (d\<lparr>lease_parts := P\<rparr>)"
proof -
  have "parts_of (write_leases d j) P = parts_of (write_leases d j) (lease_parts d)" if "j \<noteq> i" for j
  proof (rule parts_of_other_lease [OF assms(5)])
    show "lease \<notin> le_id ` set (write_leases d j)"
      using key_unique [OF schema_okD(3) [OF assms(1)] assms(2)] assms(3,4) that by (fastforce simp: in_write_leases)
  qed
  moreover have "write_leases (d\<lparr>lease_parts := P\<rparr>) j = write_leases d j" for j by (simp add: write_leases_def)
  ultimately show ?thesis by (simp add: only_file_def view_def)
qed

lemma claim_completion_only_file:
  assumes "db_ok d" "claim_completion now s d = (r, d')"
  shows "only_file (sp_file s) d d'"
  using assms
proof (cases rule: claim_completion_cases)
  case (claimed f u)
  then show ?thesis using claim_completion_frame [OF assms(2)] by (intro only_file_at [OF claimed(12)]) simp_all
qed simp

lemma extend_write_lease_only_file:
  assumes "extend_write_lease now lease ttl d = (r, d')" "\<And>l. l \<in> set (leases d) \<Longrightarrow> le_id l = lease \<Longrightarrow> le_file l = i"
  shows "only_file i d d'"
  using assms by (auto simp: extend_write_lease_def Let_def split: if_splits intro!: only_file_leases)

lemma claim_upload_part_only_file:
  assumes "db_ok d" "claim_upload_part now client key i lease n ttl d = (r, d')"
  shows "only_file i d d'"
proof (cases "d' = d")
  case False
  let ?hit = "\<lambda>l. le_id l = lease \<and> le_file l = i \<and> le_kind l = Write \<and> le_state l = Issued \<and> now < le_expires_at l"
  let ?d1 = "d\<lparr>leases := update_where ?hit (extend_lease (now + secs ttl)) (leases d)\<rparr>"
  from False assms(2) obtain P where P: "upsert_claim lease n (lease_parts ?d1) = Some P" "d' = ?d1\<lparr>lease_parts := P\<rparr>"
    "count_where ?hit (leases d) \<noteq> 0"
    by (auto simp: claim_upload_part_def Let_def split: if_splits option.splits)
  have one: "only_file i d ?d1" by (rule only_file_leases) auto
  have "schema_ok ?d1"
    using schema_touch_leases [OF db_okD(1) [OF assms(1)], of ?hit "extend_lease (now + secs ttl)"] by auto
  moreover obtain l where "l \<in> set (leases d)" "?hit l" using P(3) by (auto simp: count_where_0)
  then have "extend_lease (now + secs ttl) l \<in> set (leases ?d1)" "le_id (extend_lease (now + secs ttl) l) = lease"
    "le_file (extend_lease (now + secs ttl) l) = i"
    by (auto simp: set_update_where)
  ultimately have "only_file i ?d1 d'"
    unfolding P(2) by (rule only_file_parts) (rule upsert_claim_Some(1) [OF P(1)])
  with one show ?thesis by (rule only_file_trans)
qed simp

text \<open>Updates and deletions of the part rows that a claim of the file owns.\<close>

lemma owned_parts_only_file:
  assumes "schema_ok d" and "P = lease_parts d \<or> (\<exists>p \<in> set (lease_parts d). owned_claim d i lease n p)"
    and "filter (\<lambda>p. lp_lease p \<noteq> lease) P = filter (\<lambda>p. lp_lease p \<noteq> lease) (lease_parts d)"
  shows "only_file i d (d\<lparr>lease_parts := P\<rparr>)"
proof (cases "P = lease_parts d")
  case False
  with assms(2) obtain l where "l \<in> set (leases d)" "le_id l = lease" "le_file l = i"
    by (auto simp: owned_claim_def exists_where_iff)
  with assms(1) show ?thesis using assms(3) by (rule only_file_parts)
qed simp

lemma record_done_only_file:
  assumes "db_ok d" "record_done i lease n sz md5 d = (r, d')"
  shows "only_file i d d'"
proof (cases "d' = d")
  case False
  let ?hit = "owned_claim d i lease n" and ?u = "\<lambda>p. p\<lparr>lp_state := PartDone, lp_size := Some sz, lp_md5 := Some md5\<rparr>"
  from False assms(2) have d': "d' = d\<lparr>lease_parts := update_where ?hit ?u (lease_parts d)\<rparr>" "count_where ?hit (lease_parts d) \<noteq> 0"
    by (auto simp: record_done_def Let_def split: if_splits)
  show ?thesis
    unfolding d'(1)
  proof (rule owned_parts_only_file [OF db_okD(1) [OF assms(1)]])
    show "update_where ?hit ?u (lease_parts d) = lease_parts d \<or> (\<exists>p \<in> set (lease_parts d). ?hit p)"
      using d'(2) by (auto simp: count_where_0)
  qed (rule filter_outside; auto simp: owned_claim_def)
qed simp

lemma give_back_only_file:
  assumes "db_ok d" "give_back i lease n d = (r, d')"
  shows "only_file i d d'"
proof -
  have d': "d' = d\<lparr>lease_parts := given_back d i lease n\<rparr>" using assms(2) by (simp add: give_back_eq)
  show ?thesis
    unfolding d'
  proof (rule owned_parts_only_file [OF db_okD(1) [OF assms(1)]])
    show "given_back d i lease n = lease_parts d \<or> (\<exists>p \<in> set (lease_parts d). owned_claim d i lease n p)"
    proof (rule disjCI)
      assume none: "\<not> (\<exists>p \<in> set (lease_parts d). owned_claim d i lease n p)"
      then have "update_where (\<lambda>p. owned_claim d i lease n p \<and> lp_size p \<noteq> None \<and> lp_md5 p \<noteq> None)
          (\<lambda>p. p\<lparr>lp_state := PartDone\<rparr>) (lease_parts d) = lease_parts d"
        by (intro update_where_id) blast
      with none show "given_back d i lease n = lease_parts d"
        by (auto simp: given_back_def delete_where_def filter_id_conv)
    qed
    show "filter (\<lambda>p. lp_lease p \<noteq> lease) (given_back d i lease n) = filter (\<lambda>p. lp_lease p \<noteq> lease) (lease_parts d)"
      unfolding given_back_def
      by (subst filter_delete_outside, simp add: owned_claim_def) (rule filter_outside; auto simp: owned_claim_def)
  qed
qed

lemma finish_upload_part_only_file:
  assumes "db_ok d" "finish_upload_part i lease n sz md5 d = (r, d')"
  shows "only_file i d d'"
  using assms(2) record_done_only_file [OF assms(1)] by (auto simp: finish_upload_part_def split: if_splits)

lemma cancel_upload_part_only_file:
  assumes "db_ok d" "cancel_upload_part i lease n d = (r, d')"
  shows "only_file i d d'"
  using assms give_back_only_file by (simp add: cancel_upload_part_def)

lemma claim_abort_only_file:
  assumes "db_ok d" "claim_abort now c k i d = (r, d')"
  shows "only_file i d d'"
  using assms
proof (cases rule: claim_abort_cases)
  case (claimed f u)
  moreover have "object_keys d' = object_keys d"
    using assms(2) by (auto simp: claim_abort_def Let_def split: if_splits)
  ultimately show ?thesis by (intro only_file_at [OF claimed(9)]) simp_all
qed simp

lemma finalize_reclaimed_only_file:
  assumes "db_ok d" "finalize_reclaimed_upload i st d = (r, d')"
  shows "only_file i d d'"
  using assms
proof (cases rule: finalize_reclaimed_cases)
  case (reclaimed f u)
  moreover have "object_keys d' = object_keys d"
    using assms(2) by (auto simp: finalize_reclaimed_upload_def Let_def split: if_splits)
  ultimately show ?thesis by (intro only_file_at [OF reclaimed(7)]) simp_all
qed simp

lemma attach_upload_id_only_file:
  assumes "attach_upload_id lease upload_id d = (r, d')" "\<And>l. l \<in> set (leases d) \<Longrightarrow> le_id l = lease \<Longrightarrow> le_file l = i"
  shows "only_file i d d'"
  using assms by (auto simp: attach_upload_id_def same_identity_def intro!: only_file_leases)

lemma renewals_only_file:
  assumes "renew_ownership ow i now d = (r, d')"
  shows "only_file i d d'"
  using assms
  by (cases ow)
    (auto simp: renew_ownership_def renew_completion_lease_def s3_renew_completion_lease_def renew_completion_def
      renew_relay_part_lease_def renew_upload_part_lease_def renew_write_def issued_write_def Let_def same_identity_def
      split: if_splits intro!: only_file_leases)

section \<open>Transactions of one client\<close>

definition mine :: "string \<Rightarrow> db \<Rightarrow> uuid \<Rightarrow> bool" where
  "mine c d i \<longleftrightarrow> (case v_file (view d i) of None \<Rightarrow> True | Some f \<Rightarrow> f_client f = c)"

definition for_client :: "string \<Rightarrow> db \<Rightarrow> db \<Rightarrow> bool" where
  "for_client c d d' \<longleftrightarrow> db_ok d' \<and> (\<forall>j. \<not> mine c d j \<longrightarrow> view d' j = view d j) \<and> (\<forall>j. mine c d j \<longrightarrow> mine c d' j) \<and>
     (\<forall>c' k. c' \<noteq> c \<longrightarrow> get_key c' k d' = get_key c' k d)"

lemma for_client_refl [simp]: "for_client c d d \<longleftrightarrow> db_ok d"
  by (simp add: for_client_def)

lemma mine_same_view: "view d' j = view d j \<Longrightarrow> mine c d' j = mine c d j"
  by (simp add: mine_def del: view_simps)

lemma for_client_trans: "for_client c d d' \<Longrightarrow> for_client c d' d'' \<Longrightarrow> for_client c d d''"
  unfolding for_client_def by (metis mine_same_view)

lemma only_file_for_client:
  assumes "only_file i d d'" "mine c d i" "db_ok d'"
  shows "for_client c d d'"
proof -
  have "mine c d' i"
    using assms(1,2) unfolding only_file_def mine_def by (auto split: option.splits simp del: view_simps)
  moreover have "get_key c' k d' = get_key c' k d" for c' k
    using assms(1) by (simp add: only_file_def get_key_def)
  moreover have "j \<noteq> i \<Longrightarrow> view d' j = view d j" for j
    using assms(1) by (simp add: only_file_def)
  ultimately show ?thesis
    using assms(2,3) unfolding for_client_def by (metis mine_same_view)
qed

lemma detached_client: "v_file (detached now v) = Some f \<Longrightarrow> \<exists>g. v_file v = Some g \<and> f_client f = f_client g"
  by (auto simp: detached_def split: option.splits if_splits)

text \<open>A transaction that changes one file, a key of the client and the file this key named.\<close>

lemma keyed_for_client:
  assumes "db_ok d" "db_ok d'" "mine c d i" "mine c d' i"
    and "\<And>j. j \<noteq> i \<Longrightarrow> view d' j = (if gone = Some j then detached now (view d j) else view d j)"
    and "gone = None \<or> gone = get_key c k d" "\<And>c' k'. (c', k') \<noteq> (c, k) \<Longrightarrow> get_key c' k' d' = get_key c' k' d"
  shows "for_client c d d'"
proof -
  have gone: "mine c d j" if "gone = Some j" for j
  proof -
    have "get_key c k d = Some j" using that assms(6) by auto
    then obtain f where "v_file (view d j) = Some f" "f_client f = c"
      by (rule get_key_file [OF db_okD(1) [OF assms(1)]])
    then show ?thesis by (simp add: mine_def del: view_simps)
  qed
  have "view d' j = view d j" if "\<not> mine c d j" for j
    using assms(3,5) gone that by (cases "j = i") auto
  moreover have "mine c d' j" if "mine c d j" for j
  proof (cases "j = i")
    case False
    then show ?thesis
      using that assms(5) [OF False] detached_client [of now "view d j"]
      by (auto simp: mine_def split: option.splits if_splits simp del: view_simps)
  qed (simp add: assms(4))
  ultimately show ?thesis using assms(2,7) by (simp add: for_client_def)
qed

lemma finalize_upload_for_client:
  assumes "db_ok d" "finalize_upload now c k i m d = (r, d')" "mine c d i"
  shows "for_client c d d'"
  using assms(1,2)
proof (cases rule: finalize_upload_cases)
  case (lost f u sz etag j)
  then have "only_file i d d'" by (intro only_file_at [OF lost(5)]) simp_all
  then show ?thesis using assms(3) finalize_upload.keeps_db_ok [OF assms(1,2)] by (rule only_file_for_client)
next
  case (finalized f u sz etag gone)
  show ?thesis
  proof (rule keyed_for_client [OF assms(1) db_ok_sim [OF assms(1) finalized(8,9)] assms(3) _ finalized(7)])
    show "mine c d' i" using finalized(2,5) by (simp add: mine_def publishable_def)
    show "gone = None \<or> gone = get_key c k d"
      using finalized(3) by (auto simp: displaced_def split: option.splits if_splits)
    show "get_key c' k' d' = get_key c' k' d" if "(c', k') \<noteq> (c, k)" for c' k' using finalized(6) that by auto
  qed
qed (use assms in simp)

lemma delete_key_for_client:
  assumes "db_ok d" "delete_key now c k d = (r, d')"
  shows "for_client c d d'"
proof -
  note del = delete_key_replaces [OF db_okD(1) [OF assms(1)] assms(2)]
  note K = key_replacedD [OF conjunct2 [OF del]]
  obtain i where fresh: "i \<notin> f_id ` set (files d)"
    using ex_new_if_finite [of "f_id ` set (files d)"] by auto
  then have none: "v_file (view d i) = None" by (simp add: find_fresh)
  then have i: "mine c d i" by (simp add: mine_def del: view_simps)
  moreover have "get_key c k d \<noteq> Some i"
    using get_key_file [OF db_okD(1) [OF assms(1)], of c k i] none by fastforce
  with K(5) [of i] i have "mine c d' i" by (simp add: mine_def)
  ultimately show ?thesis
    by (rule keyed_for_client [OF assms(1) delete_key.keeps_db_ok [OF assms], of c i "get_key c k d" now k]) (use K(4,5) in auto)
qed

lemma create_upload_for_client:
  assumes "db_ok d" "create_upload ut ym now i l s key inm d = (r, d')"
  shows "for_client (cs_client s) d d'"
proof (cases "\<exists>f. r = Inr (Created f)")
  case True
  then obtain f where "create_upload ut ym now i l s key inm d = (Inr (Created f), d')" using assms(2) by auto
  note new = create_upload_new [OF assms(1) this]
  have "mine (cs_client s) d i" "mine (cs_client s) d' i" using new by (simp_all add: mine_def)
  then show ?thesis
    by (rule keyed_for_client [OF assms(1) conjunct1 [OF new], where gone = None and now = 0 and k = key]) (use new in auto)
next
  case False
  from assms show ?thesis
  proof (cases rule: create_upload_cases)
    case (session st g)
    with False show ?thesis by simp
  qed (use assms(1) in simp)
qed

lemma renew_ownership_keeps_db_ok:
  assumes "db_ok d" "renew_ownership ow i now d = (r, d')"
  shows "db_ok d'"
proof (cases ow)
  case NativeCompletion
  with assms(2) have "renew_completion_lease now i WRITE_LEASE_TTL d = (r, d')" by (simp add: renew_ownership_def)
  then show ?thesis by (rule renew_native_completion.keeps_db_ok [OF assms(1)])
next
  case (NativeUploadPart lease n)
  with assms(2) have "renew_relay_part_lease now i lease n WRITE_LEASE_TTL d = (r, d')" by (simp add: renew_ownership_def)
  then show ?thesis by (rule renew_relay_part_lease.keeps_db_ok [OF assms(1)])
next
  case S3Completion
  with assms(2) have "s3_renew_completion_lease now i WRITE_LEASE_TTL d = (r, d')" by (simp add: renew_ownership_def)
  then show ?thesis by (rule s3_renew_completion.keeps_db_ok [OF assms(1)])
next
  case (UploadPart lease n)
  with assms(2) have "renew_upload_part_lease now i lease n WRITE_LEASE_TTL d = (r, d')" by (simp add: renew_ownership_def)
  then show ?thesis by (rule renew_upload_part_lease.keeps_db_ok [OF assms(1)])
qed

lemma heartbeat_for_client:
  assumes "run_with_write_heartbeat fails ticks dropped i ow operation (d, w) = (x, d', w')" "db_ok d" "mine c d i"
  shows "for_client c d d'"
  using assms unfolding run_with_write_heartbeat_def
proof (induction ticks arbitrary: d)
  case Nil
  then show ?case by (auto split: prod.splits)
next
  case (Cons t ts)
  obtain go d1 where renewed: "still_owned fails ow i t d = (go, d1)" by fastforce
  have step: "for_client c d d1"
  proof (cases "fails t")
    case None
    obtain q d2 where q: "renew_ownership ow i t d = (q, d2)" by fastforce
    with renewed None have "d1 = d2" by (cases q) (auto simp: still_owned_def split: bool.splits)
    with only_file_for_client [OF renewals_only_file [OF q] Cons.prems(3) renew_ownership_keeps_db_ok [OF Cons.prems(2) q]]
    show ?thesis by simp
  next
    case (Some e)
    with renewed Cons.prems(2) show ?thesis by (simp add: still_owned_def)
  qed
  show ?case
  proof (cases go)
    case True
    with Cons.prems(1) renewed have "run_with_heartbeat (still_owned fails ow i) ts operation dropped (d1, w) = (x, d', w')"
      by simp
    moreover have "db_ok d1" "mine c d1 i" using step Cons.prems(3) by (simp_all add: for_client_def)
    ultimately show ?thesis using Cons.IH step for_client_trans by blast
  next
    case False
    with Cons.prems(1) renewed step show ?thesis by auto
  qed
qed

section \<open>Handlers, step by step\<close>

text \<open>
  \<open>confined c P op\<close>: started where \<open>P\<close> holds of the database, the handler \<open>op\<close> changes files and
  keys of client \<open>c\<close> only, whatever it answers. Reads and calls of the provider keep \<open>P\<close>; after a
  transaction only the ownership of the file at hand is known.
\<close>

definition confined :: "string \<Rightarrow> (db \<Rightarrow> bool) \<Rightarrow> (db \<times> 'w, 'e, 'a) eff \<Rightarrow> bool" where
  "confined c P op \<longleftrightarrow> (\<forall>d w r d' w'. db_ok d \<longrightarrow> P d \<longrightarrow> op (d, w) = (r, d', w') \<longrightarrow> for_client c d d')"

named_theorems confined_rules

lemma confinedI: "(\<And>d w r d' w'. db_ok d \<Longrightarrow> P d \<Longrightarrow> op (d, w) = (r, d', w') \<Longrightarrow> for_client c d d') \<Longrightarrow> confined c P op"
  unfolding confined_def by blast

lemma confinedD: "confined c P op \<Longrightarrow> op (d, w) = (r, d', w') \<Longrightarrow> db_ok d \<Longrightarrow> P d \<Longrightarrow> for_client c d d'"
  unfolding confined_def by blast

lemma confined_ret [confined_rules]: "confined c P (ret_ok a)" "confined c P (fail e)"
  by (auto simp: confined_def ret_ok_def fail_def)

lemma confined_pure [confined_rules]:
  assumes "\<And>a. r = Inr a \<Longrightarrow> confined c P (k a)"
  shows "confined c P (bind_eff (of_result r) k)"
  using assms by (cases r) (auto simp: confined_def bind_eff_def try_eff_def of_result_def)

lemma confined_world [confined_rules]:
  assumes "\<And>a. confined c P (k a)"
  shows "confined c P (bind_eff (on_world op) k)"
proof (rule confinedI)
  fix d w r d' w'
  assume "db_ok d" "P d" "bind_eff (on_world op) k (d, w) = (r, d', w')"
  then show "for_client c d d'"
    using confinedD [OF assms] by (auto simp: bind_eff_def try_eff_def on_world_def split: prod.splits sum.splits)
qed

lemma confined_step:
  assumes "confined c P op" "\<And>d w a d' w'. db_ok d \<Longrightarrow> P d \<Longrightarrow> op (d, w) = (Inr a, d', w') \<Longrightarrow> for_client c d d' \<Longrightarrow> Q a d'"
    and "\<And>a. confined c (Q a) (k a)"
  shows "confined c P (bind_eff op k)"
proof (rule confinedI)
  fix d w r d' w'
  assume ok: "db_ok d" "P d" and run: "bind_eff op k (d, w) = (r, d', w')"
  obtain q d1 w1 where op: "op (d, w) = (q, d1, w1)" using prod_cases3 by blast
  note first_step = confinedD [OF assms(1) op ok]
  show "for_client c d d'"
  proof (cases q)
    case (Inl e)
    with run op first_step show ?thesis by (simp add: bind_eff_def try_eff_def)
  next
    case (Inr a)
    with run op have "k a (d1, w1) = (r, d', w')" by (simp add: bind_eff_def try_eff_def)
    moreover have "db_ok d1" using first_step by (simp add: for_client_def)
    moreover have "Q a d1" using assms(2) [OF ok] op first_step Inr by simp
    ultimately have "for_client c d1 d'" using confinedD [OF assms(3)] by blast
    with first_step show ?thesis by (rule for_client_trans)
  qed
qed

lemma confined_bind:
  assumes "confined c P op" "\<And>a. confined c (\<lambda>d. mine c d i) (k a)" "\<And>d. P d \<Longrightarrow> mine c d i"
  shows "confined c P (bind_eff op k)"
  by (rule confined_step [OF assms(1) _ assms(2)]) (use assms(3) in \<open>auto simp: for_client_def\<close>)

lemma confined_s3_db:
  assumes "\<And>d r d'. db_ok d \<Longrightarrow> P d \<Longrightarrow> op d = (r, d') \<Longrightarrow> for_client c d d'"
  shows "confined c P (s3_db op)"
  unfolding confined_def s3_db_def on_db_def using assms by (auto split: prod.splits sum.splits)

text \<open>A handler that starts by reading the database.\<close>

lemma confined_read:
  assumes "\<And>d. confined c (\<lambda>x. x = d \<and> P x) (F d)"
  shows "confined c P (\<lambda>s. F (fst s) s)"
  unfolding confined_def using confinedD [OF assms] by simp

lemma confined_weaken: "confined c Q op \<Longrightarrow> (\<And>d. P d \<Longrightarrow> Q d) \<Longrightarrow> confined c P op"
  unfolding confined_def by blast

lemma confined_split [confined_rules]:
  "(\<And>a b. x = (a, b) \<Longrightarrow> confined c P (k a b)) \<Longrightarrow> confined c P (case x of (a, b) \<Rightarrow> k a b)"
  by (cases x) simp

lemma confined_Let [confined_rules]: "confined c P (F x) \<Longrightarrow> confined c P (Let x F)"
  by simp

section \<open>The handlers are confined\<close>

text \<open>What the handlers know of the file they work on.\<close>

definition holds_lease :: "string \<Rightarrow> uuid \<Rightarrow> uuid \<Rightarrow> db \<Rightarrow> bool" where
  "holds_lease c i lease d \<longleftrightarrow> mine c d i \<and> (\<forall>l \<in> set (leases d). le_id l = lease \<longrightarrow> le_file l = i)"

lemma holds_lease_mine: "holds_lease c i lease d \<Longrightarrow> mine c d i"
  by (simp add: holds_lease_def)

lemma create_upload_holds:
  assumes "db_ok d" "create_upload ut ym now i l s key inm d = (Inr (Created f), d')"
  shows "holds_lease (cs_client s) (cf_file_id f) (cf_lease_id f) d'"
  using assms
proof (cases rule: create_upload_cases)
  case (session st g)
  have "mine (cs_client s) d' (cf_file_id f)"
    using create_upload_new [OF assms] by (simp add: mine_def)
  then show ?thesis
    using session fresh_rowsD(4) [OF session(4)] by (auto simp: holds_lease_def with_file_def)
qed simp

lemma confined_only_file:
  assumes "\<And>d. P d \<Longrightarrow> mine c d i"
    and "\<And>d r d'. db_ok d \<Longrightarrow> P d \<Longrightarrow> op d = (r, d') \<Longrightarrow> only_file i d d' \<and> db_ok d'"
  shows "confined c P (s3_db op)"
  by (rule confined_s3_db) (use assms only_file_for_client in blast)

lemma confined_create:
  assumes "cs_client s = c" "\<And>f. confined c (holds_lease c (cf_file_id f) (cf_lease_id f)) (k f)"
  shows "confined c P (bind_eff (s3_db (create_upload ut ym now i l s key inm)) (\<lambda>outcome. case outcome of
      NoClient \<Rightarrow> fail e | Created f \<Rightarrow> k f))"
proof (rule confined_step [where Q = "\<lambda>outcome d. case outcome of NoClient \<Rightarrow> True
    | Created f \<Rightarrow> holds_lease c (cf_file_id f) (cf_lease_id f) d"])
  show "confined c P (s3_db (create_upload ut ym now i l s key inm))"
    using assms(1) create_upload_for_client by (auto intro: confined_s3_db)
next
  fix d w a d' w'
  assume "db_ok d" "s3_db (create_upload ut ym now i l s key inm) (d, w) = (Inr a, d', w')"
  then show "case a of NoClient \<Rightarrow> True | Created f \<Rightarrow> holds_lease c (cf_file_id f) (cf_lease_id f) d'"
    using create_upload_holds assms(1) by (auto split: create_outcome.splits)
next
  fix a
  show "confined c (\<lambda>d. case a of NoClient \<Rightarrow> True | Created f \<Rightarrow> holds_lease c (cf_file_id f) (cf_lease_id f) d)
      (case a of NoClient \<Rightarrow> fail e | Created f \<Rightarrow> k f)"
    using assms(2) confined_ret(2) by (cases a) auto
qed

lemma confined_claim_put [confined_rules]:
  assumes "\<And>d. P d \<Longrightarrow> mine c d (sp_file s)"
  shows "confined c P (claim_put now s)"
proof (rule confinedI)
  fix d r d' and w w' :: 'w
  assume a: "db_ok d" "P d" "claim_put now s (d, w) = (r, d', w')"
  obtain q d1 where run: "claim_completion now s d = (q, d1)" by fastforce
  with a(3) have "d' = d1"
    by (cases q) (auto simp: claim_put_def bind_eff_def try_eff_def s3_db_def on_db_def ret_ok_def fail_def split: if_splits)
  then show "for_client c d d'"
    using only_file_for_client [OF claim_completion_only_file [OF a(1) run] assms [OF a(2)]
        claim_completion.keeps_db_ok [OF a(1) run]] by simp
qed

lemma confined_heartbeat:
  assumes "\<And>d. P d \<Longrightarrow> mine c d i"
    and "\<And>s. finish s = (case run_with_write_heartbeat fails ticks dropped i ow operation s of (x, d, w) \<Rightarrow> (f x, d, w))"
  shows "confined c P finish"
proof (rule confinedI)
  fix d r d' w w'
  assume a: "db_ok d" "P d" "finish (d, w) = (r, d', w')"
  obtain x d1 w1 where run: "run_with_write_heartbeat fails ticks dropped i ow operation (d, w) = (x, d1, w1)"
    using prod_cases3 by blast
  with a(3) have "d' = d1" by (simp add: assms(2))
  then show "for_client c d d'" using heartbeat_for_client [OF run a(1) assms(1) [OF a(2)]] by simp
qed

lemma confined_store_put [confined_rules]:
  assumes "\<And>d. P d \<Longrightarrow> mine c d i"
  shows "confined c P (store_put A tm i b data key ct)"
  by (rule confined_heartbeat [where f = "\<lambda>x. case x of None \<Rightarrow> Inl (unavailable ''the upload lost completion ownership; retry'')
      | Some (Inl e) \<Rightarrow> Inl xml_storage_error | Some (Inr u) \<Rightarrow> Inr ()" and fails = "tm_fails tm" and ticks = "tm_ticks tm"
      and dropped = "tm_dropped tm" and ow = S3Completion
      and operation = "commit_temp_to_backend (ap_connections (sa_app A)) b data key ct", OF assms])
    (auto simp: store_put_def run_with_completion_heartbeat_def split: prod.splits option.splits sum.splits)

lemma confined_put_created:
  assumes "\<And>d. P d \<Longrightarrow> mine c d (cf_file_id f)"
  shows "confined c P (put_created A p c r n f)"
  unfolding put_created_def Let_def
  by (intro confined_rules confined_bind [where i = "cf_file_id f"] confined_s3_db)
    (auto intro: assms finalize_upload_for_client simp: finalize_single_upload_def)

lemma confined_put_object: "confined c P (put_object A p c r)"
  unfolding put_object_def Let_def
  by (intro confined_rules confined_create confined_put_created) (auto simp: put_spec_def intro: holds_lease_mine)

text \<open>A handler that starts by reading the database: the read is known of the database it starts from.\<close>

lemma confined_at:
  assumes "\<And>d w r d' w'. db_ok d \<Longrightarrow> P d \<Longrightarrow> op (d, w) = (r, d', w') \<Longrightarrow>
      \<exists>body. body (d, w) = (r, d', w') \<and> confined c (\<lambda>x. x = d \<and> P x) body"
  shows "confined c P op"
proof (rule confinedI)
  fix d w r d' w'
  assume a: "db_ok d" "P d" "op (d, w) = (r, d', w')"
  from assms [OF this] obtain body where body: "body (d, w) = (r, d', w')" "confined c (\<lambda>x. x = d \<and> P x) body" by blast
  show "for_client c d d'" by (rule confinedD [OF body(2,1) a(1)]) (simp add: a(2))
qed

lemma audit_read_for_client: "db_ok d \<Longrightarrow> for_client c d (audit_read now lease i storage client sz d)"
proof -
  assume ok: "db_ok d"
  obtain r d' where run: "issue_read_lease now lease i READ_LEASE_TTL None storage client sz d = (r, d')" by fastforce
  have "d' = d \<or> (leases d' = leases d @ [new_lease now (now + secs READ_LEASE_TTL) lease i Read None] \<and> files d' = files d \<and>
      locations d' = locations d \<and> lease_parts d' = lease_parts d \<and> uploads d' = uploads d \<and> object_keys d' = object_keys d)"
    using run by (auto simp: issue_read_lease_def split: if_splits)
  then have same: "view d' j = view d j" "get_key c' k d' = get_key c' k d" for j c' k
    by (auto simp: view_def write_leases_def get_key_def)
  have "for_client c d d'"
    unfolding for_client_def using issue_read_lease.keeps_db_ok [OF ok run] mine_same_view [OF same(1)] same by auto
  then show ?thesis by (simp add: audit_read_def run)
qed

lemma confined_audit: "confined c P (on_db (\<lambda>d. (r, audit_read now lease i storage client sz d)))"
  by (auto simp: confined_def on_db_def intro: audit_read_for_client)

lemma confined_get_object: "confined c P (get_object A g c r query)"
  unfolding get_object_def Let_def
  by (rule confined_at, intro exI conjI, assumption) (intro confined_rules confined_audit)

lemma confined_head_object: "confined c P (s3_head_object A c r query)"
  unfolding s3_head_object_def Let_def
  by (rule confined_at, intro exI conjI, assumption) (intro confined_rules)

lemma confined_delete_object: "confined c P (s3_delete_object now c r)"
proof (rule confinedI)
  fix d r' d' and w w' :: 'a
  assume a: "db_ok d" "s3_delete_object now c r (d, w) = (r', d', w')"
  obtain q d1 where run: "delete_key now c (rq_key r) d = (q, d1)" by fastforce
  with a(2) have "d' = d1"
    by (cases q) (auto simp: s3_delete_object_def bind_eff_def try_eff_def s3_db_def on_db_def ret_ok_def)
  then show "for_client c d d'" using delete_key_for_client [OF a(1) run] by simp
qed

lemma finalize_reclaimed_for_client:
  assumes "db_ok d" "mine c d i"
  shows "for_client c d (snd (discard_unstarted_upload i d))" "for_client c d (snd (finalize_abort i d))"
proof -
  have "for_client c d (snd (finalize_reclaimed_upload i st d))" if "transaction (finalize_reclaimed_upload i st)" for st
  proof -
    obtain r d' where run: "finalize_reclaimed_upload i st d = (r, d')" by fastforce
    from only_file_for_client [OF finalize_reclaimed_only_file [OF assms(1) run] assms(2) transaction.keeps_db_ok [OF that assms(1) run]]
    show ?thesis by (simp add: run)
  qed
  from this [OF discard_unstarted.transaction_axioms [unfolded discard_unstarted_upload_def]]
    this [OF finalize_abort.transaction_axioms [unfolded finalize_abort_def]]
  show "for_client c d (snd (discard_unstarted_upload i d))" "for_client c d (snd (finalize_abort i d))"
    by (simp_all add: discard_unstarted_upload_def finalize_abort_def)
qed

lemma claim_abort_for_client:
  assumes "db_ok d" "mine c d i"
  shows "for_client c d (snd (claim_abort now c k i d))"
proof -
  obtain r d' where run: "claim_abort now c k i d = (r, d')" by fastforce
  from only_file_for_client [OF claim_abort_only_file [OF assms(1) run] assms(2) claim_abort.keeps_db_ok [OF assms(1) run]]
  show ?thesis by (simp add: run)
qed

lemma attach_for_client:
  assumes "db_ok d" "holds_lease c i lease d"
  shows "for_client c d (snd (attach_upload_id lease u d))"
proof -
  obtain r d' where run: "attach_upload_id lease u d = (r, d')" by fastforce
  from assms(2) have "only_file i d d'" by (intro attach_upload_id_only_file [OF run]) (simp add: holds_lease_def)
  from only_file_for_client [OF this holds_lease_mine [OF assms(2)] attach_upload_id.keeps_db_ok [OF assms(1) run]]
  show ?thesis by (simp add: run)
qed

lemma confined_attach_session: "confined c (holds_lease c (cf_file_id f) (cf_lease_id f)) (attach_session A x c key f b upload_id)"
proof (rule confinedI)
  fix d r d' and w w' :: 'a
  assume a: "db_ok d" "holds_lease c (cf_file_id f) (cf_lease_id f) d" "attach_session A x c key f b upload_id (d, w) = (r, d', w')"
  obtain q d1 where d1: "(case cm_attach_fails x of Some e \<Rightarrow> (Inl e, d) | None \<Rightarrow> attach_upload_id (cf_lease_id f) upload_id d) = (q, d1)"
    by fastforce
  have step: "for_client c d d1"
    using d1 attach_for_client [OF a(1,2), of upload_id] a(1) by (cases "cm_attach_fails x") auto
  then have d1_ok: "db_ok d1" "mine c d1 (cf_file_id f)"
    using holds_lease_mine [OF a(2)] by (simp_all add: for_client_def)
  have "d' \<in> {d1, discard_unstarted_create (cf_file_id f) d1, schedule_create_cleanup (cm_cleanup_now x) c key (cf_file_id f) d1}"
    using a(3) d1 by (auto simp: attach_session_def split: sum.splits prod.splits)
  with finalize_reclaimed_for_client(1) [OF d1_ok] claim_abort_for_client [OF d1_ok] d1_ok(1)
  have "for_client c d1 d'" by (auto simp: discard_unstarted_create_def schedule_create_cleanup_def)
  with step show "for_client c d d'" by (rule for_client_trans)
qed

lemma confined_open_session: "confined c (holds_lease c (cf_file_id f) (cf_lease_id f)) (open_session_of A x c key content_type f)"
proof (rule confinedI)
  fix d r d' and w w' :: 'a
  assume a: "db_ok d" "holds_lease c (cf_file_id f) (cf_lease_id f) d" "open_session_of A x c key content_type f (d, w) = (r, d', w')"
  then consider "d' = discard_unstarted_create (cf_file_id f) d" | "d' = schedule_create_cleanup (cm_cleanup_now x) c key (cf_file_id f) d"
    | b u w1 where "attach_session A x c key f b u (d, w1) = (r, d', w')"
    by (auto simp: open_session_of_def split: sum.splits prod.splits)
  then show "for_client c d d'"
    using finalize_reclaimed_for_client(1) [OF a(1) holds_lease_mine [OF a(2)]] claim_abort_for_client [OF a(1) holds_lease_mine [OF a(2)]]
      confinedD [OF confined_attach_session _ a(1,2)]
    by cases (auto simp: discard_unstarted_create_def schedule_create_cleanup_def)
qed

lemma confined_create_multipart: "confined c P (s3_create_multipart A x c r)"
  unfolding s3_create_multipart_def Let_def
  by (intro confined_rules confined_create confined_step [OF confined_open_session, where Q = "\<lambda>_ _. True"])
    (auto simp: multipart_spec_def intro: confined_ret)

lemma resolve_session_holds:
  assumes "db_ok d" "resolve_session L c k u b d = Inr (i, file, lease)"
  shows "holds_lease c i (wl_lease_id lease) d"
proof -
  from assms(2) have a: "access c i d = Some file" and l: "write_lease d i = Some lease"
    by (auto simp: resolve_session_def split: option.splits if_splits)
  from db_okD(1) [OF assms(1)] a have "mine c d i"
    by (rule access_SomeD) (simp add: mine_def del: view_simps)
  moreover obtain r where r: "r \<in> set (leases d)" "le_file r = i" "le_id r = wl_lease_id lease"
    using l by (auto simp: write_lease_def dest: find_where_Some)
  then have "le_file l = i" if "l \<in> set (leases d)" "le_id l = wl_lease_id lease" for l
    using key_unique [OF schema_okD(3) [OF db_okD(1) [OF assms(1)]] that(1) r(1)] that(2) by simp
  ultimately show ?thesis by (simp add: holds_lease_def)
qed

lemma confined_extend [confined_rules]:
  assumes "\<And>d. P d \<Longrightarrow> holds_lease c i lease d"
  shows "confined c P (s3_db (extend_write_lease now lease ttl))"
proof (rule confined_only_file)
  show "\<And>d. P d \<Longrightarrow> mine c d i" using assms holds_lease_mine by blast
  show "only_file i d d' \<and> db_ok d'" if "db_ok d" "P d" "extend_write_lease now lease ttl d = (r, d')" for d r d'
    using extend_write_lease_only_file [OF that(3)] extend_write_lease.keeps_db_ok [OF that(1,3)] assms [OF that(2)]
    by (simp add: holds_lease_def)
qed

lemma confined_store_part [confined_rules]:
  assumes "\<And>d. P d \<Longrightarrow> mine c d i"
  shows "confined c P (store_part x i lease n physical)"
proof (rule confinedI)
  fix d r d' and w w' :: 'a
  assume a: "db_ok d" "P d" "store_part x i lease n physical (d, w) = (r, d', w')"
  obtain y d1 w1 where run: "run_with_write_heartbeat (pt_fails x) (pt_ticks x) (pt_dropped x) i (UploadPart lease n) physical (d, w) = (y, d1, w1)"
    using prod_cases3 by blast
  have step: "for_client c d d1" by (rule heartbeat_for_client [OF run a(1) assms [OF a(2)]])
  then have d1: "db_ok d1" "mine c d1 i" using assms [OF a(2)] by (simp_all add: for_client_def)
  obtain q d2 where c: "cancel_upload_part i lease n d1 = (q, d2)" by fastforce
  have "for_client c d1 d2"
    by (rule only_file_for_client [OF cancel_upload_part_only_file [OF d1(1) c] d1(2) cancel_upload_part.keeps_db_ok [OF d1(1) c]])
  moreover have "d' = d1 \<or> d' = d2"
    using a(3) run c by (auto simp: store_part_def run_with_upload_part_heartbeat_def split: option.splits sum.splits)
  ultimately show "for_client c d d'" using step d1(1) by (auto intro: for_client_trans)
qed

lemma confined_upload_part_to:
  assumes "\<And>d. P d \<Longrightarrow> holds_lease c i (wl_lease_id lease) d"
  shows "confined c P (upload_part_to A x c r n i file lease)"
proof -
  have claim: "confined c (\<lambda>d. mine c d i) (s3_db (claim_upload_part now c k i le n ttl))" for now k le ttl
    by (rule confined_only_file [where i = i]) (use claim_upload_part_only_file claim_upload_part.keeps_db_ok in blast)+
  have finish: "confined c (\<lambda>d. mine c d i) (s3_db (finish_upload_part i le n sz md5))" for le sz md5
    by (rule confined_only_file [where i = i]) (use finish_upload_part_only_file finish_upload_part.keeps_db_ok in blast)+
  show ?thesis
    unfolding upload_part_to_def Let_def
    by (intro confined_rules confined_bind [where i = i] claim finish) (auto intro: assms holds_lease_mine)
qed

lemma confined_upload_part: "confined c (\<lambda>_. True) (s3_upload_part A x c r n upload_id)"
proof (rule confined_at)
  fix d r' d' and w w' :: 'a
  assume ok: "db_ok d" and run: "s3_upload_part A x c r n upload_id (d, w) = (r', d', w')"
  show "\<exists>body. body (d, w) = (r', d', w') \<and> confined c (\<lambda>x. x = d \<and> True) body"
    by (intro exI conjI, rule run [unfolded s3_upload_part_def fst_conv])
      (intro confined_rules confined_upload_part_to, use resolve_session_holds [OF ok] in blast)
qed

lemma multipart_claim_is_claim:
  "begin_multipart_completion c k i d = MultipartReady guard \<Longrightarrow>
    multipart_claim now guard sz etag ttl d = claim_completion now \<lparr>sp_client = c, sp_key = k, sp_file = i, sp_multipart = True,
      sp_expected_size = sz, sp_expected_etag = etag, sp_ttl = ttl\<rparr> d"
  by (simp add: claim_completion_def)

lemma start_answer_Inr [simp]: "start_answer start = Inr guard \<longleftrightarrow> start = MultipartReady guard"
  by (cases start) (simp_all add: start_answer_def)

lemma confined_assemble [confined_rules]:
  assumes "\<And>d. P d \<Longrightarrow> mine c d i"
  shows "confined c P (assemble A tm i physical)"
  by (rule confined_heartbeat [where f = "\<lambda>x. case x of None \<Rightarrow> Inl (unavailable ''the upload lost completion ownership; retry'')
      | Some r \<Rightarrow> r" and fails = "tm_fails tm" and ticks = "tm_ticks tm" and dropped = "tm_dropped tm" and ow = S3Completion
      and operation = physical, OF assms])
    (auto simp: assemble_def run_with_completion_heartbeat_def split: prod.splits option.splits)

lemma confined_complete_session:
  assumes "\<And>d. P d \<Longrightarrow> mine c d i"
  shows "confined c P (complete_session A tm c r asked i file lease)"
proof (rule confined_at)
  fix d r' d' and w w' :: 'a
  assume a: "db_ok d" "P d" and run: "complete_session A tm c r asked i file lease (d, w) = (r', d', w')"
  have claim: "confined c (\<lambda>x. x = d \<and> P x) (s3_db (multipart_claim now guard sz etag ttl))"
    if "start_answer (begin_multipart_completion c (rq_key r) i d) = Inr guard" for now guard sz etag ttl
  proof (rule confined_only_file [where i = i])
    show "only_file i e e' \<and> db_ok e'" if "db_ok e" "e = d \<and> P e" "multipart_claim now guard sz etag ttl e = (q, e')" for e q e'
    proof -
      have "claim_completion now \<lparr>sp_client = c, sp_key = rq_key r, sp_file = i, sp_multipart = True,
          sp_expected_size = sz, sp_expected_etag = etag, sp_ttl = ttl\<rparr> e = (q, e')"
        using multipart_claim_is_claim [of c "rq_key r" i d guard now sz etag ttl] that(2,3) \<open>start_answer _ = _\<close> by simp
      from claim_completion_only_file [OF that(1) this] claim_completion.keeps_db_ok [OF that(1) this] show ?thesis by simp
    qed
  qed (use assms in simp)
  have publish: "confined c (\<lambda>x. mine c x i) (s3_db (finalize_multipart_upload now c (rq_key r) i))" for now
    by (rule confined_s3_db) (simp add: finalize_multipart_upload_def finalize_upload_for_client)
  show "\<exists>body. body (d, w) = (r', d', w') \<and> confined c (\<lambda>x. x = d \<and> P x) body"
    by (intro exI conjI, rule run [unfolded complete_session_def fst_conv])
      (intro confined_rules confined_bind [where i = i] claim publish, (assumption | simp add: assms)+)
qed

lemma confined_complete_multipart: "confined c (\<lambda>_. True) (s3_complete_multipart A tm c r upload_id payload_hash)"
proof (rule confined_at)
  fix d r' d' and w w' :: 'a
  assume ok: "db_ok d" and run: "s3_complete_multipart A tm c r upload_id payload_hash (d, w) = (r', d', w')"
  show "\<exists>body. body (d, w) = (r', d', w') \<and> confined c (\<lambda>x. x = d \<and> True) body"
    by (intro exI conjI, rule run [unfolded s3_complete_multipart_def fst_conv])
      (intro confined_rules confined_complete_session, use resolve_session_holds [OF ok] holds_lease_mine in blast)
qed

lemma confined_abort_multipart: "confined c (\<lambda>_. True) (s3_abort_multipart A now c r upload_id)"
proof (rule confined_at)
  fix d r' d' and w w' :: 'a
  assume ok: "db_ok d" and run: "s3_abort_multipart A now c r upload_id (d, w) = (r', d', w')"
  have claim: "confined c P (s3_db (claim_abort now c k i))" if "\<And>d. P d \<Longrightarrow> mine c d i" for P k i
    by (rule confined_s3_db) (metis claim_abort_for_client snd_conv that)
  have abort: "confined c (\<lambda>d. mine c d i) (s3_db (finalize_abort i))" for i
    by (rule confined_s3_db) (metis finalize_reclaimed_for_client(2) snd_conv)
  have mine: "mine c d i" if "resolve_session (sa_lib A) c (rq_key r) upload_id False d = Inr (i, fa, lease)" for i fa lease
    using resolve_session_holds [OF ok that] by (rule holds_lease_mine)
  have rest: "confined c (\<lambda>x. x = d \<and> True) (bind_eff (s3_db (claim_abort now c (rq_key r) i)) (\<lambda>claim.
     bind_eff (of_result (abort_answer claim)) (\<lambda>_.
     bind_eff (on_world (s3_world (cleanup_backend_upload (ap_connections (sa_app A)) b (fa_object_key fa) (wl_upload_id lease) True))) (\<lambda>_.
     bind_eff (s3_db (finalize_abort i)) (\<lambda>_. ret_ok (Reply 204 [] []))))))"
    if "resolve_session (sa_lib A) c (rq_key r) upload_id False d = Inr (i, fa, lease)" for i fa lease b
    by (intro confined_bind [where i = i] confined_rules claim abort) (use mine [OF that] in auto)
  show "\<exists>body. body (d, w) = (r', d', w') \<and> confined c (\<lambda>x. x = d \<and> True) body"
    by (intro exI conjI, rule run [unfolded s3_abort_multipart_def fst_conv])
      (intro confined_rules, simp only:, rule rest, assumption)
qed

lemma bind_of_result_Inl: "bind_eff (of_result (Inl e)) k s = (Inl e, s)"
  by (simp add: bind_eff_def try_eff_def of_result_def)

lemma confined_run_operation: "confined c (\<lambda>_. True) (run_operation A x c payload_hash r query operation)"
  unfolding run_operation_def
  by (cases operation)
    (simp_all add: confined_put_object confined_get_object confined_head_object confined_delete_object confined_create_multipart
      confined_upload_part confined_complete_multipart confined_abort_multipart)

section \<open>Isolation of clients\<close>

text \<open>
  C20. A request of the S3 surface acts for the client that signed it and for nobody else: whatever
  the operation, its answer and the moment at which it fails, no row of a file of another client and
  no key of another client changes, new files belong to the signer, and the database stays well
  formed. A request that does not authenticate, or that names another client's bucket, changes
  nothing at all, neither in the database nor at the provider.
\<close>

theorem requests_are_isolated:
  assumes "db_ok d" "dispatch A creds x r (d, w) = (answer, d', w')"
  shows "db_ok d' \<and>
    (case authenticate (ap_primitives (sa_app A)) (ap_crypto (sa_app A)) (sa_lib A) creds (di_now x) r of
       Inl e \<Rightarrow> answer = Inl e \<and> d' = d \<and> w' = w
     | Inr who \<Rightarrow>
         (\<forall>j f. v_file (view d j) = Some f \<longrightarrow> f_client f \<noteq> au_client_id who \<longrightarrow> view d' j = view d j) \<and>
         (\<forall>c k. c \<noteq> au_client_id who \<longrightarrow> get_key c k d' = get_key c k d) \<and>
         (\<forall>j f. v_file (view d j) = None \<longrightarrow> v_file (view d' j) = Some f \<longrightarrow> f_client f = au_client_id who) \<and>
         (rq_bucket r \<noteq> au_client_id who \<longrightarrow> d' = d \<and> w' = w))"
proof (cases "authenticate (ap_primitives (sa_app A)) (ap_crypto (sa_app A)) (sa_lib A) creds (di_now x) r")
  case (Inl e)
  with assms show ?thesis unfolding dispatch_def Let_def by (simp add: bind_of_result_Inl)
next
  case (Inr who)
  let ?c = "au_client_id who"
  have foreign: "d' = d \<and> w' = w" if "rq_bucket r \<noteq> ?c"
    using assms(2) Inr that unfolding dispatch_def Let_def
    by (simp add: bind_of_result bind_of_result_Inl reject_if_def)
  have "confined ?c (\<lambda>_. True) (dispatch A creds x r)"
    unfolding dispatch_def Let_def Inr by (intro confined_rules, simp) (intro confined_rules confined_run_operation)
  from confinedD [OF this assms(2,1)] have iso: "for_client ?c d d'" by simp
  then have "view d' j = view d j" if "v_file (view d j) = Some f" "f_client f \<noteq> ?c" for j f
    using that by (simp add: for_client_def mine_def del: view_simps)
  moreover have "f_client f = ?c" if "v_file (view d j) = None" "v_file (view d' j) = Some f" for j f
  proof -
    have "mine ?c d j" using that(1) by (simp add: mine_def del: view_simps)
    then have "mine ?c d' j" using iso by (simp add: for_client_def)
    with that(2) show ?thesis by (simp add: mine_def del: view_simps)
  qed
  ultimately show ?thesis using iso foreign by (auto simp: Inr for_client_def simp del: view_simps)
qed

definition demo_input :: "memory dispatch_input" where
  "demo_input = \<lparr>di_now = 1, di_put = demo_put, di_get = \<lparr>ge_now = 70, ge_lease_id = 41\<rparr>,
     di_create = \<lparr>cm_now = 1, cm_file_id = 21, cm_lease_id = 42, cm_attach_fails = None, cm_cleanup_now = 2\<rparr>,
     di_part = \<lparr>pt_extend = 1, pt_budget = budget_new 8388608, pt_spool_opens = True, pt_claim = 2, pt_ticks = [50],
       pt_fails = \<lambda>_. None, pt_dropped = id\<rparr>, di_timing = pu_timing demo_put\<rparr>"

theorem requests_are_isolated_witness:
  "let d' = fst (snd (dispatch memory_app demo_credentials demo_input (demo_request []) (demo_db, [])))
   in db_ok d' \<and> get_key ''c2'' ''k'' d' = None"
proof -
  obtain answer d' w' where run: "dispatch memory_app demo_credentials demo_input (demo_request []) (demo_db, []) = (answer, d', w')"
    using prod_cases3 by blast
  have who: "authenticate (ap_primitives (sa_app memory_app)) (ap_crypto (sa_app memory_app)) (sa_lib memory_app) demo_credentials
      (di_now demo_input) (demo_request []) = Inr \<lparr>au_client_id = ''c1'', au_payload_hash = ''UNSIGNED-PAYLOAD''\<rparr>"
    using demo_authenticated by (simp add: memory_app_def demo_input_def)
  have "get_key ''c2'' ''k'' demo_db = None" by (simp add: get_key_def demo_db_def key_of_def)
  with requests_are_isolated [OF demo_db_ok run] who show ?thesis by (simp add: run Let_def)
qed

end
