(* ===== verification/S3_Surface.thy ===== *)
theory S3_Surface
  imports Tenancy
begin

text \<open>
  What the multipart operations of the S3 surface guarantee when they answer with success: a part
  answered with an ETag is measured, stored and recorded; a completed upload is exactly the parts the
  client listed and the ledger measured.
\<close>

section \<open>UploadPart\<close>

lemma record_done_row:
  assumes "db_ok d" "record_done i lease n sz md5 d = (Inr True, d')"
  shows "Part_Ledger.ledger_entry lease n d' = Some \<lparr>lp_lease = lease, lp_no = n, lp_state = PartDone, lp_size = Some sz, lp_md5 = Some md5\<rparr>"
proof -
  let ?u = "\<lambda>p. p\<lparr>lp_state := PartDone, lp_size := Some sz, lp_md5 := Some md5\<rparr>"
  from assms(2) have d': "count_where (owned_claim d i lease n) (lease_parts d) \<noteq> 0"
    "d' = d\<lparr>lease_parts := update_where (owned_claim d i lease n) ?u (lease_parts d)\<rparr>"
    by (auto simp: record_done_def Let_def split: if_splits)
  then obtain p where p: "p \<in> set (lease_parts d)" "owned_claim d i lease n p" by (auto simp: count_where_0)
  have "find (\<lambda>x. (lp_lease x, lp_no x) = (lp_lease p, lp_no p)) (lease_parts d) = Some p"
    by (rule row_found [OF schema_okD(4) [OF db_okD(1) [OF assms(1)]] p(1)])
  moreover have "lp_lease p = lease" "lp_no p = n" using p(2) by (simp_all add: owned_claim_def)
  moreover have "find (part_key lease n) (update_where (owned_claim d i lease n) ?u (lease_parts d)) =
      map_option (\<lambda>p. if owned_claim d i lease n p then ?u p else p) (find (part_key lease n) (lease_parts d))"
    unfolding part_key_pair by (rule find_update_where) simp
  ultimately have "Part_Ledger.ledger_entry lease n d' = Some (?u p)"
    using p(2) by (simp add: Part_Ledger.ledger_entry_def d'(2) part_key_pair)
  then show ?thesis using \<open>lp_lease p = lease\<close> \<open>lp_no p = n\<close> by (cases p) simp
qed

lemma part_length_Some: "part_length L r = Some n \<Longrightarrow> content_length_of L r = Some n \<and> 0 \<le> n"
  by (auto simp: part_length_def split: option.splits if_splits)

lemma store_part_Inr:
  assumes "store_part x i lease n physical (d, w) = (Inr etag, d', w')" "db_ok d" "mine c d i"
  shows "db_ok d'"
proof -
  obtain y d1 w1 where run: "run_with_write_heartbeat (pt_fails x) (pt_ticks x) (pt_dropped x) i (UploadPart lease n) physical (d, w) = (y, d1, w1)"
    using prod_cases3 by blast
  have "d' = d1"
    using assms(1) run by (auto simp: store_part_def run_with_upload_part_heartbeat_def split: option.splits sum.splits)
  then show ?thesis using heartbeat_for_client [OF run assms(2,3)] by (simp add: for_client_def)
qed

text \<open>The operation of a heartbeat runs once, on the world as it was, and only if the ticks before it succeed.\<close>

lemma heartbeat_runs:
  "run_with_heartbeat renewal ticks operation dropped (d, w) = (Some a, d', w') \<Longrightarrow> operation w = (a, w')"
  by (induction ticks arbitrary: d) (auto split: prod.splits bool.splits)

lemma store_part_ran:
  assumes "store_part x i lease n physical (d, w) = (Inr etag, d', w')"
  shows "physical w = (Inr etag, w')"
  using assms heartbeat_runs unfolding store_part_def run_with_upload_part_heartbeat_def run_with_write_heartbeat_def
  by (fastforce split: prod.splits option.splits sum.splits)

lemma physical_part_Inr:
  assumes "physical_part A b key vendor n data md5 w = (Inr etag, w')"
  obtains u where "vendor = Some u" "upload_part_from_path (provider A b) (bucket_of b) key u n data w = (Inr etag, w')" "eq_ic etag md5"
  using assms by (auto simp: physical_part_def split: option.splits prod.splits sum.splits if_splits)

lemma claim_part_answer_Inr [simp]: "claim_part_answer c = Inr a \<longleftrightarrow> c = Claimed"
  by (cases c) (simp_all add: claim_part_answer_def)

text \<open>
  C23. A part answered with an ETag is safe: the whole body was received with the declared length and
  passed the request's checksums, the provider stored exactly those bytes as that part of the
  session's own upload and measured the same MD5, and the ledger of the session's lease records the
  length and the ETag of the part, ready for completion.
\<close>

theorem uploaded_part_is_recorded:
  assumes "db_ok d" "s3_upload_part A x client r n upload_id (d, w) = (Inr answer, d', w')"
  shows "\<exists>i a lease data e m b u etag.
      resolve_session (sa_lib A) client (rq_key r) upload_id False d = Inr (i, a, lease) \<and>
      content_length_of (sa_lib A) r = Some (int (length data)) \<and> delivered (rq_body r) = Some (data, e) \<and>
      m = measure_data (sl_hashes (sa_lib A)) True data \<and> verify_checksums (sa_lib A) (rq_headers r) m = None \<and>
      wl_upload_id lease = Some u \<and>
      upload_part_from_path (provider A b) (bucket_of b) (fa_object_key a) u n data w = (Inr etag, w') \<and> eq_ic etag (ms_md5_hex m) \<and>
      Part_Ledger.ledger_entry (wl_lease_id lease) n d' = Some \<lparr>lp_lease = wl_lease_id lease, lp_no = n, lp_state = PartDone,
        lp_size = Some (int (length data)), lp_md5 = Some etag\<rparr> \<and>
      answer = ok_with_etag (sa_lib A) (ms_md5_hex m) \<and> db_ok d'"
proof -
  let ?L = "sa_lib A"
  obtain i a lease where res: "resolve_session ?L client (rq_key r) upload_id False d = Inr (i, a, lease)"
    and run: "upload_part_to A x client r n i a lease (d, w) = (Inr answer, d', w')"
    using assms(2) unfolding s3_upload_part_def by (auto simp: run_simps split: prod.splits)
  note holds = resolve_session_holds [OF assms(1) res]
  obtain k b m data etag d1 d2 d3 where steps: "part_length ?L r = Some k"
    "extend_write_lease (pt_extend x) (wl_lease_id lease) WRITE_LEASE_TTL d = (Inr True, d1)"
    "receive_body ?L r k = Inr (m, data)"
    "claim_upload_part (pt_claim x) client (rq_key r) i (wl_lease_id lease) n WRITE_LEASE_TTL d1 = (Inr Claimed, d2)"
    "store_part x i (wl_lease_id lease) n (physical_part A b (fa_object_key a) (wl_upload_id lease) n data (ms_md5_hex m)) (d2, w) = (Inr etag, d3, w')"
    "finish_upload_part i (wl_lease_id lease) n (ms_written m) etag d3 = (Inr True, d')"
    "answer = ok_with_etag ?L (ms_md5_hex m)"
    using run unfolding upload_part_to_def Let_def
    by (auto simp: run_simps split: prod.splits)
  have "only_file i d d1"
    by (rule extend_write_lease_only_file [OF steps(2)]) (use holds in \<open>simp add: holds_lease_def\<close>)
  from only_file_for_client [OF this holds_lease_mine [OF holds] extend_write_lease.keeps_db_ok [OF assms(1) steps(2)]]
  have d1: "db_ok d1" "mine client d1 i"
    using holds_lease_mine [OF holds] by (simp_all add: for_client_def)
  have d2: "db_ok d2" "mine client d2 i"
    using only_file_for_client [OF claim_upload_part_only_file [OF d1(1) steps(4)] d1(2) claim_upload_part.keeps_db_ok [OF d1(1) steps(4)]] d1(2)
    by (simp_all add: for_client_def)
  have d3: "db_ok d3" by (rule store_part_Inr [OF steps(5) d2])
  obtain u where part: "wl_upload_id lease = Some u"
    "upload_part_from_path (provider A b) (bucket_of b) (fa_object_key a) u n data w = (Inr etag, w')" "eq_ic etag (ms_md5_hex m)"
    using physical_part_Inr [OF store_part_ran [OF steps(5)]] by blast
  have "record_done i (wl_lease_id lease) n (ms_written m) etag d3 = (Inr True, d')"
    using steps(6) by (auto simp: finish_upload_part_def split: if_splits)
  note row = record_done_row [OF d3 this]
  note m = receive_body_Inr [OF steps(3)]
  obtain e where e: "delivered (rq_body r) = Some (data, e)" using m by blast
  have sz: "ms_written m = int (length data)" using m by (simp add: measure_data_def)
  show ?thesis
    by (rule exI [of _ i], rule exI [of _ a], rule exI [of _ lease], rule exI [of _ data], rule exI [of _ e], rule exI [of _ m],
        rule exI [of _ b], rule exI [of _ u], rule exI [of _ etag])
      (use res part_length_Some [OF steps(1)] m e part row sz steps(7) finish_upload_part.keeps_db_ok [OF d3 steps(6)] in auto)
qed

section \<open>CompleteMultipartUpload\<close>

lemma checked_total_sum:
  assumes "list_all (\<lambda>x. 0 \<le> x) xs" "0 \<le> acc" "acc + sum_list xs < 2 ^ 63"
  shows "checked_total acc xs = Some (acc + sum_list xs)"
  using assms
proof (induction xs arbitrary: acc)
  case (Cons x xs)
  then have "0 \<le> x" "0 \<le> sum_list xs" by (auto simp: list_all_iff intro: sum_list_nonneg)
  with Cons show ?case by simp
qed simp

lemma reconcile_sizes:
  assumes "reconcile asked ledger = Inr completion"
  shows "list_all (\<lambda>x. 0 \<le> x) (map (\<lambda>(_, sz, _). sz) completion)"
proof -
  from assms have "list_all2 (part_answers ledger) asked completion"
    by (auto simp: reconcile_def reconcile_each_iff split: if_splits sum.splits)
  then show ?thesis by (induction rule: list_all2_induct) (auto simp: part_answers_def)
qed

lemma reconciled_Inr:
  assumes "reconciled a asked ledger = Inr completion"
  shows "reconcile asked ledger = Inr completion \<and> total_size completion \<le> size_bound a"
  using assms unfolding reconciled_def by (auto simp: and_then_Inr not_less)

lemma physical_complete_Inr:
  assumes "physical_complete A b key vendor completion expected w = (Inr etag, w')"
  obtains u etag' where "vendor = Some u" "complete_multipart (provider A b) (bucket_of b) key u (listed completion) w = (Inr etag', w')"
    "eq_ic etag' expected" "etag = expected"
proof (cases vendor)
  case None
  with assms show thesis by (simp add: physical_complete_def)
next
  case (Some u)
  obtain q w1 where run: "complete_multipart (provider A b) (bucket_of b) key u (listed completion) w = (q, w1)" by fastforce
  show thesis
  proof (cases q)
    case (Inl e)
    with assms Some run show thesis by (simp add: physical_complete_def)
  next
    case (Inr etag')
    with assms Some run have c: "eq_ic etag' expected" "etag = expected" "w1 = w'"
      by (auto simp: physical_complete_def split: if_splits)
    show thesis by (rule that [OF Some _ c(1,2)]) (use run Inr c(3) in simp)
  qed
qed

lemma claim_answer_Inr [simp]: "claim_answer c = Inr a \<longleftrightarrow> c = CompletionClaimed"
  by (cases c) (simp_all add: claim_answer_def)

text \<open>
  C24. CompleteMultipartUpload answers success only for exactly the upload the client described: the
  session is the client's own and free of running part uploads, the listed parts are parts of its
  ledger with their measured ETags, the provider assembled exactly these parts and returned their
  composite ETag, and in the final transaction the file became active with the sum of the measured
  sizes and the composite ETag, the key names it and the file it displaced is detached.
\<close>

theorem completed_upload_is_the_ledger:
  assumes "db_ok d" "s3_complete_multipart A tm client r upload_id payload_hash (d, w) = (Inr answer, d', w')"
  shows "\<exists>i a lease asked guard completion b u etag f.
      resolve_session (sa_lib A) client (rq_key r) upload_id True d = Inr (i, a, lease) \<and>
      complete_body (sa_lib A) r payload_hash = Inr asked \<and>
      begin_multipart_completion client (rq_key r) i d = MultipartReady guard \<and>
      reconcile asked (multipart_done_parts guard d) = Inr completion \<and> total_size completion \<le> size_bound a \<and>
      wl_upload_id lease = Some u \<and>
      complete_multipart (provider A b) (bucket_of b) (fa_object_key a) u (listed completion) w = (Inr etag, w') \<and>
      eq_ic etag (expected_etag_of A completion) \<and>
      answer = complete_result (rq_bucket r) (rq_key r) (expected_etag_of A completion) \<and> db_ok d' \<and>
      v_file (view d' i) = Some f \<and> f_client f = client \<and> f_state f = Active \<and> f_etag f = Some (expected_etag_of A completion) \<and>
      f_declared_size f = total_size completion \<and>
      (let sizes = map (\<lambda>(_, sz, _). sz) completion in sum_list sizes < 2 ^ 63 \<longrightarrow> f_declared_size f = sum_list sizes) \<and>
      (\<forall>c k. get_key c k d' = (if (c, k) = (client, rq_key r) then Some i else get_key c k d)) \<and>
      (\<forall>j. j \<noteq> i \<longrightarrow> view d' j =
         (if get_key client (rq_key r) d = Some j then detached (tm_finalize tm) (view d j) else view d j))"
proof -
  let ?L = "sa_lib A"
  obtain i a lease asked where res: "resolve_session ?L client (rq_key r) upload_id True d = Inr (i, a, lease)"
    "complete_body ?L r payload_hash = Inr asked"
    and run: "complete_session A tm client r asked i a lease (d, w) = (Inr answer, d', w')"
    using assms(2) unfolding s3_complete_multipart_def by (auto simp: run_simps split: prod.splits)
  obtain guard completion b d1 d2 etag gone where steps: "begin_multipart_completion client (rq_key r) i d = MultipartReady guard"
    "reconciled a asked (multipart_done_parts guard d) = Inr completion"
    "multipart_claim (tm_claim tm) guard (total_size completion) (expected_etag_of A completion) WRITE_LEASE_TTL d = (Inr CompletionClaimed, d1)"
    "assemble A tm i (physical_complete A b (fa_object_key a) (wl_upload_id lease) completion (expected_etag_of A completion)) (d1, w) = (Inr etag, d2, w')"
    "finalize_multipart_upload (tm_finalize tm) client (rq_key r) i d2 = (Inr (Finalized gone), d')"
    "answer = complete_result (rq_bucket r) (rq_key r) etag"
    using run unfolding complete_session_def Let_def by (auto simp: run_simps split: prod.splits)
  let ?s = "\<lparr>sp_client = client, sp_key = rq_key r, sp_file = i, sp_multipart = True, sp_expected_size = total_size completion,
      sp_expected_etag = expected_etag_of A completion, sp_ttl = WRITE_LEASE_TTL\<rparr>"
    and ?op = "physical_complete A b (fa_object_key a) (wl_upload_id lease) completion (expected_etag_of A completion)"
  have claim: "claim_completion (tm_claim tm) ?s d = (Inr CompletionClaimed, d1)"
    using steps(3) by (simp add: multipart_claim_is_claim [OF steps(1)])
  have hb: "run_with_completion_heartbeat (tm_fails tm) (tm_ticks tm) (tm_dropped tm) (sp_file ?s) ?op (d1, w) = (Some (Inr etag), d2, w')"
    using steps(4) by (auto simp: assemble_def split: prod.splits option.splits)
  have fin: "finalize_upload (tm_finalize tm) (sp_client ?s) (sp_key ?s) (sp_file ?s) (sp_multipart ?s) d2 = (Inr (Finalized gone), d')"
    using steps(5) by (simp add: finalize_multipart_upload_def)
  obtain f :: file_row and u :: upload_row where pub: "Some (Inr etag) = Some (fst (?op w))" "w' = snd (?op w)" "db_ok d'" "f_client f = client"
    "gone = (if u_if_none_match u then None else displaced (get_key client (rq_key r) d) i)"
    "u_if_none_match u \<Longrightarrow> get_key client (rq_key r) d = None"
    "v_file (view d' i) = Some (f\<lparr>f_state := Active, f_declared_size := total_size completion,
       f_etag := Some (expected_etag_of A completion), f_committed_at := Some (tm_finalize tm)\<rparr>)"
    "\<And>c k. get_key c k d' = (if (c, k) = (client, rq_key r) then Some i else get_key c k d)"
    "\<And>j. j \<noteq> i \<Longrightarrow> view d' j = (if gone = Some j then detached (tm_finalize tm) (view d j) else view d j)"
    by (rule claimed_and_published [OF assms(1) claim hb fin, unfolded completion_spec.select_convs]) blast
  have "?op w = (Inr etag, w')" using pub(1,2) by (cases "?op w") auto
  then obtain v etag' where built: "wl_upload_id lease = Some v"
    "complete_multipart (provider A b) (bucket_of b) (fa_object_key a) v (listed completion) w = (Inr etag', w')"
    "eq_ic etag' (expected_etag_of A completion)" "etag = expected_etag_of A completion"
    by (rule physical_complete_Inr)
  note rec = reconciled_Inr [OF steps(2)]
  have sum: "total_size completion = sum_list (map (\<lambda>(_, sz, _). sz) completion)"
    if "sum_list (map (\<lambda>(_, sz, _). sz) completion) < 2 ^ 63"
    using checked_total_sum [OF reconcile_sizes [OF conjunct1 [OF rec]], of 0] that by (simp add: total_size_def)
  have others: "view d' j = (if get_key client (rq_key r) d = Some j then detached (tm_finalize tm) (view d j) else view d j)"
    if "j \<noteq> i" for j
    using pub(9) [OF that] pub(5,6) that by (auto simp: displaced_def split: option.splits if_splits)
  show ?thesis
    by (rule exI [of _ i], rule exI [of _ a], rule exI [of _ lease], rule exI [of _ asked], rule exI [of _ guard],
        rule exI [of _ completion], rule exI [of _ b], rule exI [of _ v], rule exI [of _ etag'],
        rule exI [of _ "f\<lparr>f_state := Active, f_declared_size := total_size completion,
          f_etag := Some (expected_etag_of A completion), f_committed_at := Some (tm_finalize tm)\<rparr>"])
      (intro conjI allI impI res steps(1) conjunct1 [OF rec] conjunct2 [OF rec] built(1-3) pub(3,7,8) others;
        simp add: pub(4) steps(6) built(4) sum Let_def)
qed

section \<open>Witnesses\<close>

text \<open>The provider also takes parts and completes uploads; the XML parser knows one document.\<close>

definition parts_app :: "memory s3_app" where
  "parts_app = \<lparr>sa_app = sa_app memory_app\<lparr>ap_connections := \<lambda>_ _. memory_sdk\<lparr>
       sdk_upload_part := \<lambda>b k u n body w. (Inr (Some body), ((b, k @ show_int n), body) # w),
       sdk_complete := \<lambda>b k u ps w. (Inr (Some ''m-1''), w)\<rparr>\<rparr>,
     sa_lib = demo_lib\<lparr>sl_xml := \<lambda>_. Some (Element None ''CompleteMultipartUpload''
       [Element None ''Part'' [Element None ''PartNumber'' [XmlText ''1''], Element None ''ETag'' [XmlText ''m'']]])\<rparr>\<rparr>"

definition demo_part_request :: s3_request where
  "demo_part_request = \<lparr>rq_method = ''PUT'', rq_path = ''/c1/k'', rq_query = None, rq_headers = [(''content-length'', ''5'')],
     rq_bucket = ''c1'', rq_key = ''k'', rq_body = [Chunk 0 ''hello'' (WriteOk 0), BodyEnd 0 (WriteOk 0)]\<rparr>"

lemma demo_part: "fst (s3_upload_part parts_app (di_part demo_input) ''c1'' demo_part_request 2 ''u'' (demo_db, [])) = Inr (ok_with_etag demo_lib ''hello'')"
  by code_simp

lemma demo_session: "case resolve_session (sa_lib parts_app) ''c1'' ''k'' ''u'' True demo_db of Inl e \<Rightarrow> False
    | Inr (i, a, lease) \<Rightarrow> fst (complete_session parts_app (di_timing demo_input) ''c1'' demo_part_request [(1, ''m'')] i a lease (demo_db, [])) =
        Inr (complete_result ''c1'' ''k'' ''m-1'')"
  by code_simp

lemma demo_numbers: "parse_i32 ''1'' = Some 1" "trim_char (CHR 0x22) ''m'' = ''m''"
  by code_simp+

lemma demo_complete_body: "complete_body (sa_lib parts_app) demo_part_request ''UNSIGNED-PAYLOAD'' = Inr [(1, ''m'')]"
  by (simp add: complete_body_def parts_app_def demo_part_request_def COMPLETE_BODY_LIMIT_def payload_matches_def reject_if_def demo_lib_def
      parse_complete_multipart_def is_element_def part_field_def text_of_def trim_ascii printable_def code_def map_err_def demo_numbers)

lemma demo_complete: "fst (s3_complete_multipart parts_app (di_timing demo_input) ''c1'' demo_part_request ''u'' ''UNSIGNED-PAYLOAD'' (demo_db, [])) =
    Inr (complete_result ''c1'' ''k'' ''m-1'')"
proof -
  have "rq_key demo_part_request = ''k''" by (simp add: demo_part_request_def)
  with demo_session show ?thesis
    unfolding s3_complete_multipart_def fst_conv
    by (auto simp: bind_of_result bind_of_result_Inl demo_complete_body split: sum.splits)
qed

theorem uploaded_part_is_recorded_witness:
  "let run = s3_upload_part parts_app (di_part demo_input) ''c1'' demo_part_request 2 ''u'' (demo_db, []) in
   Part_Ledger.ledger_entry 15 2 (fst (snd run)) = Some \<lparr>lp_lease = 15, lp_no = 2, lp_state = PartDone, lp_size = Some 5, lp_md5 = Some ''hello''\<rparr>"
proof -
  obtain d' w' where run: "s3_upload_part parts_app (di_part demo_input) ''c1'' demo_part_request 2 ''u'' (demo_db, []) =
      (Inr (ok_with_etag demo_lib ''hello''), d', w')"
    using run_prod [OF demo_part] by (metis prod.collapse)
  have "case resolve_session (sa_lib parts_app) ''c1'' ''k'' ''u'' False demo_db of Inl e \<Rightarrow> False | Inr (i, a, lease) \<Rightarrow> wl_lease_id lease = 15"
    by code_simp
  moreover have "rq_key demo_part_request = ''k''" "delivered (rq_body demo_part_request) = Some (''hello'', 0)"
    by (simp_all add: demo_part_request_def)
  moreover have "upload_part_from_path (provider parts_app b) bucket key u 2 ''hello'' [] = (Inr etag, w) \<Longrightarrow> etag = ''hello''" for b bucket key u etag w
    by (simp add: upload_part_from_path_def parts_app_def memory_app_def strip_etag_def trim_char_def)
  ultimately show ?thesis
    using uploaded_part_is_recorded [OF demo_db_ok run] by (fastforce simp: run)
qed

theorem completed_upload_is_the_ledger_witness:
  "let run = s3_complete_multipart parts_app (di_timing demo_input) ''c1'' demo_part_request ''u'' ''UNSIGNED-PAYLOAD'' (demo_db, []) in
   get_key ''c1'' ''k'' (fst (snd run)) = Some 5 \<and> db_ok (fst (snd run))"
proof -
  obtain d' w' where run: "s3_complete_multipart parts_app (di_timing demo_input) ''c1'' demo_part_request ''u'' ''UNSIGNED-PAYLOAD'' (demo_db, []) =
      (Inr (complete_result ''c1'' ''k'' ''m-1''), d', w')"
    using run_prod [OF demo_complete] by (metis prod.collapse)
  have "case resolve_session (sa_lib parts_app) ''c1'' ''k'' ''u'' True demo_db of Inl e \<Rightarrow> False | Inr (i, a, lease) \<Rightarrow> i = 5"
    by code_simp
  moreover have "rq_key demo_part_request = ''k''" by (simp add: demo_part_request_def)
  ultimately show ?thesis
    using completed_upload_is_the_ledger [OF demo_db_ok run] by (auto simp: run)
qed

end
