(* ===== verification/Lease_Relay.thy ===== *)
theory Lease_Relay
  imports S3_Surface
begin

text \<open>
  \<open>api/src/lease_relay.rs\<close>: the bytes of a file pass through \<open>/blobs/{lease}\<close>, authorized by the
  secret of the lease alone. The times of the transactions, the outcome of opening the spool file, a
  free upload claim and the heartbeat's ticks are inputs; the text of an I/O error, which no answer shows, is
  left empty. Log events are left out.
\<close>

section \<open>Inputs\<close>

record secret_query =
  sq_secret :: string
  sq_filename :: "string option"
  sq_part :: "int option"

record 'w relay_input =
  ry_now :: timestamp
  ry_budget :: spool_budget
  ry_claim_free :: bool
  ry_spool_opens :: bool
  ry_claim :: timestamp
  ry_done :: timestamp
  ry_ticks :: "timestamp list"
  ry_fails :: "timestamp \<Rightarrow> db_error option"
  ry_dropped :: "'w \<Rightarrow> 'w"

definition SINGLE_UPLOAD_CLAIM_LIMIT :: nat where
  "SINGLE_UPLOAD_CLAIM_LIMIT = 4"

definition relay_db :: "(db, db_error, 'a) eff \<Rightarrow> (db \<times> 'w, api_error, 'a) eff" where
  "relay_db op = on_db (db_op op)"

section \<open>Authorization\<close>

definition invalid_lease :: api_error where
  "invalid_lease = Status 403 ''invalid or expired lease''"

definition relay_authorize :: "'w s3_app \<Rightarrow> timestamp \<Rightarrow> uuid \<Rightarrow> string \<Rightarrow> lease_kind \<Rightarrow> db \<Rightarrow> api_error + byte_lease" where
  "relay_authorize A now lease_id secret expected_kind d =
     (case byte_lease now lease_id (client_key_hash (ap_primitives (sa_app A)) secret) d of
        Some lease \<Rightarrow> if bl_kind lease = expected_kind then Inr lease else Inl invalid_lease
      | None \<Rightarrow> Inl invalid_lease)"

text \<open>The address of the lease's file and the backend that serves it.\<close>

definition relay_location :: "'w s3_app \<Rightarrow> byte_lease \<Rightarrow> api_error + string \<times> storage_backend" where
  "relay_location A lease = (case bl_location lease of
      None \<Rightarrow> Inl (not_found ''object not found'')
    | Some (okey, row) \<Rightarrow> map_sum id (\<lambda>b. (okey, b)) (to_backend (sa_app A) row))"

section \<open>Receiving\<close>

definition relay_spool_error :: "spool_error \<Rightarrow> api_error" where
  "relay_spool_error e = (case e of
      Idle \<Rightarrow> Status 408 ''upload stream idle for too long''
    | TooSlow \<Rightarrow> Status 408 ''upload stream exceeded its transfer time budget''
    | Deadline \<Rightarrow> Status 408 ''upload stream exceeded its transfer time budget''
    | Aborted \<Rightarrow> Status 400 ''upload stream aborted''
    | TooLarge \<Rightarrow> Status 413 ''upload exceeds the declared size''
    | Io \<Rightarrow> internal [])"

definition spool_measured :: "hashes \<Rightarrow> body_event list \<Rightarrow> int \<Rightarrow> api_error + (int \<times> string) \<times> string" where
  "spool_measured H body declared_size =
     (case spool_to_temp H body declared_size False of
        Inl e \<Rightarrow> Inl (relay_spool_error e)
      | Inr (m, data) \<Rightarrow>
          if ms_written m \<noteq> declared_size then Inl (Status 400 ''upload is smaller than the declared size'')
          else Inr ((ms_written m, ms_md5_hex m), data))"

definition spool_busy :: api_error where
  "spool_busy = Status 503 ''transfer spool capacity is busy; retry''"

section \<open>A single PUT\<close>

text \<open>While the claim is held: receive, compare, store. A claim that already has a measurement stores nothing.\<close>

definition relay_store :: "'w s3_app \<Rightarrow> 'w relay_input \<Rightarrow> byte_lease \<Rightarrow> relay_upload_claim \<Rightarrow> string \<Rightarrow> storage_backend
    \<Rightarrow> body_event list \<Rightarrow> (db \<times> 'w, api_error, int \<times> string) eff" where
  "relay_store A x lease c okey b body =
     bind_eff (of_result (reject_if (\<not> ry_spool_opens x) (internal []))) (\<lambda>_.
     bind_eff (of_result (spool_measured (sl_hashes (sa_lib A)) body (bl_declared_size lease))) (\<lambda>((written, md5_hex), data).
     bind_eff (of_result (reject_if (case ru_declared_md5 c of None \<Rightarrow> False | Some expected \<Rightarrow> \<not> eq_ic expected md5_hex)
         (bad_request ''uploaded content does not match declared md5''))) (\<lambda>_.
     case ru_recorded c of
       Some (sz, md5) \<Rightarrow>
         bind_eff (of_result (reject_if (sz \<noteq> written \<or> md5 \<noteq> md5_hex) (conflict ''upload already contains different content''))) (\<lambda>_.
         ret_ok (written, md5_hex))
     | None \<Rightarrow>
         bind_eff (on_world (world_op (commit_temp_to_backend (ap_connections (sa_app A)) b data okey (bl_content_type lease)))) (\<lambda>_.
         ret_ok (written, md5_hex)))))"

text \<open>A claim that is dropped gives its row lock back.\<close>

definition dropping :: "relay_upload_claim \<Rightarrow> (db \<times> 'w, api_error, 'a) eff \<Rightarrow> (db \<times> 'w, api_error, 'a) eff" where
  "dropping c op s = (case op s of
      (Inl e, (d, w)) \<Rightarrow> (Inl e, (relay_upload_drop c d, w))
    | (Inr a, s') \<Rightarrow> (Inr a, s'))"

definition upload_single :: "'w s3_app \<Rightarrow> 'w relay_input \<Rightarrow> uuid \<Rightarrow> byte_lease \<Rightarrow> int option \<Rightarrow> int \<Rightarrow> string \<Rightarrow> storage_backend
    \<Rightarrow> body_event list \<Rightarrow> (db \<times> 'w, api_error, s3_response) eff" where
  "upload_single A x lease_id lease part content_length okey b body =
     bind_eff (of_result (reject_if (part \<noteq> None) (bad_request ''part is only valid for multipart uploads''))) (\<lambda>_.
     bind_eff (of_result (reject_if (content_length \<noteq> bl_declared_size lease) (bad_request ''content-length must equal the declared size''))) (\<lambda>_.
     bind_eff (of_result (reject_if (fst (spool_try_acquire content_length (ry_budget x)) = None) spool_busy)) (\<lambda>_.
     bind_eff (of_result (reject_if (\<not> ry_claim_free x) (Status 503 ''upload claim capacity is busy; retry''))) (\<lambda>_.
     bind_eff (relay_db (claim_relay_upload (ry_claim x) (bl_file_id lease) lease_id)) (\<lambda>claimed.
     bind_eff (of_result (ok_or (conflict ''upload is busy or no longer writable'') claimed)) (\<lambda>c.
     bind_eff (dropping c (relay_store A x lease c okey b body)) (\<lambda>(written, md5_hex).
     bind_eff (relay_db (relay_upload_done (ry_done x) c written md5_hex WRITE_LEASE_TTL)) (\<lambda>_.
     ret_ok (ok_with_etag (sa_lib A) md5_hex)))))))))"

section \<open>A part\<close>

definition part_lost :: api_error where
  "part_lost = conflict ''part upload ownership was lost; retry the multipart upload''"

definition relay_part_answer :: "part_claim \<Rightarrow> api_error + unit" where
  "relay_part_answer claim = (case claim of
      Claimed \<Rightarrow> Inr ()
    | Busy \<Rightarrow> Inl (conflict ''another upload for this part is still in progress; retry'')
    | Unavailable \<Rightarrow> Inl (conflict ''multipart upload is no longer accepting parts''))"

definition relay_part_bytes :: "'w s3_app \<Rightarrow> storage_backend \<Rightarrow> string \<Rightarrow> string \<Rightarrow> int \<Rightarrow> string \<Rightarrow> string
    \<Rightarrow> ('w, api_error, string) eff" where
  "relay_part_bytes A b okey upload_id n data md5_hex =
     bind_eff (world_op (upload_part_from_path (provider A b) (bucket_of b) okey upload_id n data)) (\<lambda>vendor_etag.
       if eq_ic vendor_etag md5_hex then ret_ok vendor_etag
       else fail (Storage (ProviderMessage ''vendor part etag does not match measured md5'')))"

definition store_relay_part :: "'w relay_input \<Rightarrow> uuid \<Rightarrow> uuid \<Rightarrow> int \<Rightarrow> ('w, api_error, string) eff
    \<Rightarrow> (db \<times> 'w, api_error, string) eff" where
  "store_relay_part x i lease_id n physical s =
     (case run_with_native_upload_part_heartbeat (ry_fails x) (ry_ticks x) (ry_dropped x) i lease_id n physical s of
        (None, s') \<Rightarrow> (Inl part_lost, s')
      | (Some (Inl e), (d', w')) \<Rightarrow> (Inl e, (snd (cancel_relay_part i lease_id n d'), w'))
      | (Some (Inr etag), s') \<Rightarrow> (Inr etag, s'))"

text \<open>A part size of zero ends the task, in both computations.\<close>

definition relay_part_size :: "int \<Rightarrow> int \<Rightarrow> int option \<Rightarrow> api_error + int \<times> int" where
  "relay_part_size declared_size part_size part = (case part of
      None \<Rightarrow> Inl (bad_request ''part number required for multipart uploads'')
    | Some n \<Rightarrow> (case part_count (int64 declared_size) (int64 part_size) of
          None \<Rightarrow> Inl Panicked
        | Some count \<Rightarrow>
            if \<not> part_number_ok (int32 n) count then Inl (bad_request ''part number out of range'')
            else (case part_expected_size (int64 declared_size) (int64 part_size) (int32 n) of
                None \<Rightarrow> Inl Panicked
              | Some expected \<Rightarrow> Inr (n, sint expected))))"

definition relay_upload_part :: "'w s3_app \<Rightarrow> 'w relay_input \<Rightarrow> uuid \<Rightarrow> byte_lease \<Rightarrow> int \<Rightarrow> int option \<Rightarrow> int \<Rightarrow> string
    \<Rightarrow> storage_backend \<Rightarrow> body_event list \<Rightarrow> (db \<times> 'w, api_error, s3_response) eff" where
  "relay_upload_part A x lease_id lease part_size part content_length okey b body =
     (let i = bl_file_id lease in
      bind_eff (of_result (relay_part_size (bl_declared_size lease) part_size part)) (\<lambda>(n, expected).
      bind_eff (of_result (reject_if (content_length \<noteq> expected) (bad_request ''content-length must equal the part size''))) (\<lambda>_.
      bind_eff (of_result (reject_if (fst (spool_try_acquire expected (ry_budget x)) = None) spool_busy)) (\<lambda>_.
      bind_eff (of_result (reject_if (\<not> ry_spool_opens x) (internal []))) (\<lambda>_.
      bind_eff (of_result (spool_measured (sl_hashes (sa_lib A)) body expected)) (\<lambda>((written, md5_hex), data).
      bind_eff (of_result (ok_or (internal ''multipart lease has no upload id'') (bl_upload_id lease))) (\<lambda>upload_id.
      bind_eff (relay_db (claim_relay_part (ry_claim x) i lease_id n WRITE_LEASE_TTL)) (\<lambda>claim.
      bind_eff (of_result (relay_part_answer claim)) (\<lambda>_.
      bind_eff (store_relay_part x i lease_id n (relay_part_bytes A b okey upload_id n data md5_hex)) (\<lambda>vendor_etag.
      bind_eff (relay_db (finish_relay_part i lease_id n written vendor_etag)) (\<lambda>recorded.
      bind_eff (of_result (reject_if (\<not> recorded) part_lost)) (\<lambda>_.
      ret_ok (ok_with_etag (sa_lib A) md5_hex)))))))))))))"

section \<open>PUT and GET\<close>

definition relay_upload :: "'w s3_app \<Rightarrow> 'w relay_input \<Rightarrow> uuid \<Rightarrow> secret_query \<Rightarrow> headers \<Rightarrow> body_event list
    \<Rightarrow> (db \<times> 'w, api_error, s3_response) eff" where
  "relay_upload A x lease_id q hs body s =
     bind_eff (of_result (relay_authorize A (ry_now x) lease_id (sq_secret q) Write (fst s))) (\<lambda>lease.
     bind_eff (of_result (ok_or (Status 411 ''content-length required'')
         (Option.bind (header_str (sa_lib A) hs ''content-length'') parse_i64))) (\<lambda>content_length.
     bind_eff (of_result (relay_location A lease)) (\<lambda>(okey, b).
     case bl_part_size lease of
       Some part_size \<Rightarrow> relay_upload_part A x lease_id lease part_size (sq_part q) content_length okey b body
     | None \<Rightarrow> upload_single A x lease_id lease (sq_part q) content_length okey b body))) s"

definition download_headers :: "s3_lib \<Rightarrow> byte_lease \<Rightarrow> secret_query \<Rightarrow> int \<Rightarrow> headers" where
  "download_headers L lease q sz =
     (let ct = (case bl_content_type lease of None \<Rightarrow> ''application/octet-stream'' | Some ct \<Rightarrow> ct);
          hs = try_header L ''content-type'' ct (try_header L ''content-length'' (show_int sz) [])
      in case sq_filename q of
           None \<Rightarrow> hs
         | Some name \<Rightarrow>
             if name = [] then hs
             else try_header L ''content-disposition''
               (''attachment; filename*=UTF-8'' @ [CHR 0x27, CHR 0x27] @ rfc5987_encode name) hs)"

definition relay_download :: "'w s3_app \<Rightarrow> timestamp \<Rightarrow> uuid \<Rightarrow> secret_query \<Rightarrow> (db \<times> 'w, api_error, s3_response) eff" where
  "relay_download A now lease_id q s =
     bind_eff (of_result (relay_authorize A now lease_id (sq_secret q) Read (fst s))) (\<lambda>lease.
     bind_eff (of_result (relay_location A lease)) (\<lambda>(okey, b).
     bind_eff (on_world (world_op (open_read (provider A b) (bucket_of b) okey))) (\<lambda>found.
     bind_eff (of_result (ok_or (not_found ''object not found'') found)) (\<lambda>(bytes, sz).
     ret_ok (Reply 200 (download_headers (sa_lib A) lease q sz) bytes))))) s"

section \<open>Runs that end with an answer\<close>

lemma relay_db_Inr [simp]: "relay_db op (d, w) = (Inr a, d', w') \<longleftrightarrow> op d = (Inr a, d') \<and> w' = w"
  by (auto simp: relay_db_def db_op_def on_db_def split: prod.splits sum.splits)

lemma world_op_Inr [simp]: "on_world (world_op op) (d, w) = (Inr a, d', w') \<longleftrightarrow> op w = (Inr a, w') \<and> d' = d"
  by (auto simp: world_op_def on_world_def split: prod.splits sum.splits)

lemma dropping_Inr [simp]: "dropping c op s = (Inr a, s') \<longleftrightarrow> op s = (Inr a, s')"
  by (auto simp: dropping_def split: prod.splits sum.splits)

lemma relay_part_answer_Inr [simp]: "relay_part_answer c = Inr a \<longleftrightarrow> c = Claimed"
  by (cases c) (simp_all add: relay_part_answer_def)

lemma world_op_run [simp]: "world_op op w = (Inr a, w') \<longleftrightarrow> op w = (Inr a, w')"
  by (auto simp: world_op_def split: prod.splits sum.splits)

lemma spool_measured_Inr:
  assumes "spool_measured H body n = Inr ((sz, md5), data)"
  shows "(\<exists>e. delivered body = Some (data, e)) \<and> sz = int (length data) \<and> n = int (length data) \<and> md5 = hs_md5_hex H data"
proof -
  obtain q t where run: "receive_loop n (spool_deadline n) receive_start body = (q, t)" by fastforce
  obtain m where m: "spool_to_temp H body n False = Inr (m, data)" "ms_written m = n" "sz = ms_written m" "md5 = ms_md5_hex m"
    using assms unfolding spool_measured_def by (auto split: sum.splits if_splits)
  have "q = Inr data" "m = measure_data H False data"
    using m(1) run unfolding spool_to_temp_def by (simp_all split: sum.splits)
  with receive_loop_bounded [OF run receive_start_steady] m(2-4) show ?thesis
    by (auto simp: received_ok_def receive_start_def measure_data_def)
qed

lemma relay_store_Inr:
  assumes "relay_store A x lease c okey b body (d, w) = (Inr (sz, md5), d', w')"
  obtains data e where "d' = d" "delivered body = Some (data, e)" "sz = int (length data)"
    "int (length data) = bl_declared_size lease" "md5 = hs_md5_hex (sl_hashes (sa_lib A)) data"
    "if ru_recorded c = None
     then commit_temp_to_backend (ap_connections (sa_app A)) b data okey (bl_content_type lease) w = (Inr (), w')
     else w' = w \<and> ru_recorded c = Some (int (length data), md5)"
proof -
  from assms obtain z h data where m: "spool_measured (sl_hashes (sa_lib A)) body (bl_declared_size lease) = Inr ((z, h), data)"
    by (cases "spool_measured (sl_hashes (sa_lib A)) body (bl_declared_size lease)") (auto simp: relay_store_def bind_eff_Inr)
  have k: "d' = d \<and> z = sz \<and> h = md5 \<and> (if ru_recorded c = None
     then commit_temp_to_backend (ap_connections (sa_app A)) b data okey (bl_content_type lease) w = (Inr (), w')
     else w' = w \<and> ru_recorded c = Some (sz, md5))"
    using assms by (cases "ru_recorded c") (auto simp: relay_store_def bind_eff_Inr m split_paired_Ex)
  from spool_measured_Inr [OF m] k show thesis by (elim conjE exE, intro that) auto
qed

text \<open>Whatever the outcome, a single PUT gives its claim back.\<close>

lemma relay_store_db: "fst (snd (relay_store A x lease c okey b body (d, w))) = d"
  unfolding relay_store_def
  by (auto simp: bind_eff_def try_eff_def of_result_def ret_ok_def on_world_def split: sum.splits option.splits prod.splits)

lemma relay_upload_done_locks:
  "relay_upload_done t c sz md5 ttl d = (r, d') \<Longrightarrow> row_locks d' = remove1 (ru_file c) (row_locks d)"
  by (auto simp: relay_upload_done_def Let_def split: if_splits)

lemma claim_relay_upload_locks:
  assumes "claim_relay_upload wall i lease d = (r, d')"
  obtains "row_locks d' = row_locks d" "r = Inr None" | c where "r = Inr (Some c)" "ru_file c = i" "row_locks d' = i # row_locks d"
  using assms by (cases rule: claim_relay_upload_cases) auto

lemma upload_single_releases:
  "upload_single A x lease_id lease part n okey b body (d, w) = (r, d', w') \<Longrightarrow> row_locks d' = row_locks d"
proof -
  assume run: "upload_single A x lease_id lease part n okey b body (d, w) = (r, d', w')"
  obtain q d1 where c: "claim_relay_upload (ry_claim x) (bl_file_id lease) lease_id d = (q, d1)" by fastforce
  from c show ?thesis
  proof (cases rule: claim_relay_upload_locks)
    case 1
    with run c show ?thesis
      by (auto simp: upload_single_def bind_eff_def try_eff_def of_result_def relay_db_def on_db_def db_op_def ok_or_def
          reject_if_def split: sum.splits if_splits)
  next
    case (2 cl)
    obtain q2 d2 w2 where s: "relay_store A x lease cl okey b body (d1, w) = (q2, d2, w2)" by (metis surj_pair)
    have "d2 = d1" using relay_store_db [of A x lease cl okey b body d1 w] s by simp
    with run c 2 s show ?thesis
      by (cases q2)
        (auto simp: upload_single_def bind_eff_def try_eff_def of_result_def relay_db_def on_db_def db_op_def ok_or_def
          reject_if_def dropping_def ret_ok_def dest: relay_upload_done_locks split: sum.splits if_splits prod.splits)
  qed
qed

lemma heartbeat_db_ok:
  assumes "run_with_write_heartbeat fails ticks dropped i ow operation (d, w) = (x, d', w')" "db_ok d"
  shows "db_ok d'"
  using assms unfolding run_with_write_heartbeat_def
proof (induction ticks arbitrary: d)
  case (Cons t ts)
  obtain go d1 where renewed: "still_owned fails ow i t d = (go, d1)" by fastforce
  have "db_ok d1"
  proof (cases "fails t")
    case None
    obtain q d2 where q: "renew_ownership ow i t d = (q, d2)" by fastforce
    with renewed None have "d1 = d2" by (cases q) (auto simp: still_owned_def split: bool.splits)
    with renew_ownership_keeps_db_ok [OF Cons.prems(2) q] show ?thesis by simp
  next
    case (Some e)
    with renewed Cons.prems(2) show ?thesis by (simp add: still_owned_def)
  qed
  with Cons renewed show ?case by (cases go) (auto split: prod.splits)
qed (auto split: prod.splits)

lemma store_relay_part_Inr:
  assumes "store_relay_part x i lease_id n physical (d, w) = (Inr etag, d', w')" "db_ok d"
  shows "db_ok d'" "physical w = (Inr etag, w')"
proof -
  obtain y d1 w1 where run: "run_with_write_heartbeat (ry_fails x) (ry_ticks x) (ry_dropped x) i (NativeUploadPart lease_id n) physical (d, w) = (y, d1, w1)"
    using prod_cases3 by blast
  have y: "y = Some (Inr etag)" "d1 = d'" "w1 = w'"
    using assms(1) run by (auto simp: store_relay_part_def run_with_native_upload_part_heartbeat_def split: option.splits sum.splits)
  show "db_ok d'" using heartbeat_db_ok [OF run assms(2)] y by simp
  show "physical w = (Inr etag, w')" using heartbeat_runs [OF run [unfolded run_with_write_heartbeat_def y]] .
qed

lemma relay_part_bytes_Inr:
  assumes "relay_part_bytes A b okey u n data md5 w = (Inr etag, w')"
  shows "upload_part_from_path (provider A b) (bucket_of b) okey u n data w = (Inr etag, w') \<and> eq_ic etag md5"
  using assms by (auto simp: relay_part_bytes_def bind_eff_Inr split: if_splits)

section \<open>What an accepted PUT guarantees\<close>

definition recorded_as :: "uuid \<Rightarrow> int \<Rightarrow> string \<Rightarrow> db \<Rightarrow> bool" where
  "recorded_as lease_id sz md5 d \<longleftrightarrow>
     exists_where (\<lambda>l. le_id l = lease_id \<and> le_uploaded_size l = Some sz \<and> le_uploaded_md5 l = Some md5) (leases d)"

lemma relay_authorize_Inr:
  assumes "relay_authorize A now lease_id secret kind d = Inr lease"
  shows "byte_lease now lease_id (client_key_hash (ap_primitives (sa_app A)) secret) d = Some lease" "bl_kind lease = kind"
  using assms by (auto simp: relay_authorize_def split: option.splits if_splits)

lemma relay_upload_done_records:
  assumes "relay_upload_done t c sz md5 ttl d = (Inr (), d')" "exists_where (\<lambda>l. le_id l = ru_lease_id c) (leases d)"
  shows "recorded_as (ru_lease_id c) sz md5 d'"
proof -
  have "leases d' = update_where (\<lambda>l. le_id l = ru_lease_id c) (\<lambda>l. l\<lparr>le_uploaded_size := Some sz, le_uploaded_md5 := Some md5,
      le_expires_at := max (le_expires_at l) (t + secs ttl)\<rparr>) (leases d)"
    using assms(1) by (auto simp: relay_upload_done_def Let_def split: if_splits)
  moreover obtain l where "l \<in> set (leases d)" "le_id l = ru_lease_id c" using assms(2) by (auto simp: exists_where_iff)
  ultimately have "l\<lparr>le_uploaded_size := Some sz, le_uploaded_md5 := Some md5,
      le_expires_at := max (le_expires_at l) (t + secs ttl)\<rparr> \<in> set (leases d')"
    by (auto simp: set_update_where image_iff intro!: bexI [of _ l])
  then show ?thesis
    unfolding recorded_as_def exists_where_iff by (rule bexI [rotated]) (simp add: \<open>le_id l = ru_lease_id c\<close>)
qed

lemma upload_single_Inr:
  assumes "db_ok d" "upload_single A x lease_id lease part n okey b body (d, w) = (Inr answer, d', w')"
  obtains data e where "delivered body = Some (data, e)" "int (length data) = bl_declared_size lease"
    "answer = ok_with_etag (sa_lib A) (hs_md5_hex (sl_hashes (sa_lib A)) data)"
    "recorded_as lease_id (int (length data)) (hs_md5_hex (sl_hashes (sa_lib A)) data) d'" "db_ok d'"
    "commit_temp_to_backend (ap_connections (sa_app A)) b data okey (bl_content_type lease) w = (Inr (), w') \<or>
     w' = w \<and> recorded_as lease_id (int (length data)) (hs_md5_hex (sl_hashes (sa_lib A)) data) d"
proof -
  from assms(2) obtain c sz md5 d1 d2 w2 where steps:
    "claim_relay_upload (ry_claim x) (bl_file_id lease) lease_id d = (Inr (Some c), d1)"
    "relay_store A x lease c okey b body (d1, w) = (Inr (sz, md5), d2, w2)"
    "relay_upload_done (ry_done x) c sz md5 WRITE_LEASE_TTL d2 = (Inr (), d')"
    "w' = w2" "answer = ok_with_etag (sa_lib A) md5"
    unfolding upload_single_def by (auto simp: run_simps)
  obtain data e where put: "d2 = d1" "delivered body = Some (data, e)" "sz = int (length data)"
    "int (length data) = bl_declared_size lease" "md5 = hs_md5_hex (sl_hashes (sa_lib A)) data"
    "if ru_recorded c = None
     then commit_temp_to_backend (ap_connections (sa_app A)) b data okey (bl_content_type lease) w = (Inr (), w2)
     else w2 = w \<and> ru_recorded c = Some (int (length data), md5)"
    using steps(2) by (rule relay_store_Inr)
  from steps(1) obtain l where l: "ru_lease_id c = lease_id" "ru_recorded c = zip_option (le_uploaded_size l) (le_uploaded_md5 l)"
    "l \<in> set (leases d)" "le_id l = lease_id" "leases d1 = leases d"
    by (cases rule: claim_relay_upload_cases) (auto dest!: find_where_Some)
  have "exists_where (\<lambda>l. le_id l = ru_lease_id c) (leases d2)" using l put(1) by (auto simp: exists_where_iff)
  note rec = relay_upload_done_records [OF steps(3) this]
  have "recorded_as lease_id (int (length data)) md5 d" if "ru_recorded c = Some (int (length data), md5)"
    using that l by (auto simp: recorded_as_def exists_where_iff zip_option_def split: option.splits)
  moreover have "db_ok d'"
    using relay_upload_done.keeps_db_ok [OF _ steps(3)] claim_relay_upload.keeps_db_ok [OF assms(1) steps(1)] put(1) by simp
  ultimately show thesis
    using put steps(4,5) rec l(1) by (intro that [of data e]) (auto split: if_splits)
qed

lemma relay_upload_part_Inr:
  assumes "db_ok d" "relay_upload_part A x lease_id lease part_size part n okey b body (d, w) = (Inr answer, d', w')"
  obtains data e k u etag where "delivered body = Some (data, e)"
    "relay_part_size (bl_declared_size lease) part_size part = Inr (k, int (length data))"
    "answer = ok_with_etag (sa_lib A) (hs_md5_hex (sl_hashes (sa_lib A)) data)" "bl_upload_id lease = Some u"
    "upload_part_from_path (provider A b) (bucket_of b) okey u k data w = (Inr etag, w')"
    "eq_ic etag (hs_md5_hex (sl_hashes (sa_lib A)) data)" "db_ok d'"
    "Part_Ledger.ledger_entry lease_id k d' = Some \<lparr>lp_lease = lease_id, lp_no = k, lp_state = PartDone,
       lp_size = Some (int (length data)), lp_md5 = Some etag\<rparr>"
proof -
  let ?i = "bl_file_id lease"
  from assms(2) obtain k expected sz md5 data u d1 d2 etag where steps:
    "relay_part_size (bl_declared_size lease) part_size part = Inr (k, expected)"
    "spool_measured (sl_hashes (sa_lib A)) body expected = Inr ((sz, md5), data)" "bl_upload_id lease = Some u"
    "claim_relay_part (ry_claim x) ?i lease_id k WRITE_LEASE_TTL d = (Inr Claimed, d1)"
    "store_relay_part x ?i lease_id k (relay_part_bytes A b okey u k data md5) (d1, w) = (Inr etag, d2, w')"
    "finish_relay_part ?i lease_id k sz etag d2 = (Inr True, d')" "answer = ok_with_etag (sa_lib A) md5"
    unfolding relay_upload_part_def Let_def by (auto simp: run_simps split: prod.splits)
  note m = spool_measured_Inr [OF steps(2)]
  note st = store_relay_part_Inr [OF steps(5) claim_relay_part.keeps_db_ok [OF assms(1) steps(4)]]
  note sent = relay_part_bytes_Inr [OF st(2)]
  have "record_done ?i lease_id k sz etag d2 = (Inr True, d')"
    using steps(6) by (auto simp: finish_relay_part_def split: if_splits)
  note row = record_done_row [OF st(1) this]
  obtain e where "delivered body = Some (data, e)" using m by blast
  with m sent row steps(1,3,7) finish_relay_part.keeps_db_ok [OF st(1) steps(6)] show thesis
    by (intro that [of data e k u etag]) auto
qed

text \<open>
  C30. A relayed PUT that is answered with an ETag is authorized and durable: the secret in the URL hashes to
  the one recorded for a live write lease of a pending file; the whole body was received, with exactly
  the declared length (of the file, or of the part); the provider stored those bytes at the lease's address, unless the same
  content had been recorded before; and the database records length and MD5, ready for commit or completion.
\<close>

theorem relay_upload_is_recorded:
  assumes "db_ok d" "relay_upload A x lease_id q hs body (d, w) = (Inr answer, d', w')"
  shows "\<exists>lease l f data e okey b md5.
    l \<in> set (leases d) \<and> le_id l = lease_id \<and> le_kind l = Write \<and> le_state l = Issued \<and> ry_now x < le_expires_at l \<and>
    le_secret_hash l = Some (client_key_hash (ap_primitives (sa_app A)) (sq_secret q)) \<and>
    v_file (view d (le_file l)) = Some f \<and> f_state f = Pending \<and>
    relay_authorize A (ry_now x) lease_id (sq_secret q) Write d = Inr lease \<and> relay_location A lease = Inr (okey, b) \<and>
    delivered body = Some (data, e) \<and> md5 = hs_md5_hex (sl_hashes (sa_lib A)) data \<and>
    answer = ok_with_etag (sa_lib A) md5 \<and> db_ok d' \<and>
    (case bl_part_size lease of
       None \<Rightarrow> int (length data) = f_declared_size f \<and> recorded_as lease_id (int (length data)) md5 d' \<and>
         row_locks d' = row_locks d \<and>
         (commit_temp_to_backend (ap_connections (sa_app A)) b data okey (bl_content_type lease) w = (Inr (), w') \<or>
          w' = w \<and> recorded_as lease_id (int (length data)) md5 d)
     | Some part_size \<Rightarrow> (\<exists>n u etag.
         relay_part_size (f_declared_size f) part_size (sq_part q) = Inr (n, int (length data)) \<and>
         upload_part_from_path (provider A b) (bucket_of b) okey u n data w = (Inr etag, w') \<and> eq_ic etag md5 \<and>
         bl_upload_id lease = Some u \<and>
         Part_Ledger.ledger_entry lease_id n d' = Some \<lparr>lp_lease = lease_id, lp_no = n, lp_state = PartDone,
           lp_size = Some (int (length data)), lp_md5 = Some etag\<rparr>))"
proof -
  from assms(2) obtain lease n okey b where auth: "relay_authorize A (ry_now x) lease_id (sq_secret q) Write d = Inr lease"
    and loc: "relay_location A lease = Inr (okey, b)"
    and run: "(case bl_part_size lease of
       Some part_size \<Rightarrow> relay_upload_part A x lease_id lease part_size (sq_part q) n okey b body
     | None \<Rightarrow> upload_single A x lease_id lease (sq_part q) n okey b body) (d, w) = (Inr answer, d', w')"
    unfolding relay_upload_def by (auto simp: run_simps)
  note a = relay_authorize_Inr [OF auth]
  from byte_lease_sound [OF assms(1) a(1)] a(2) obtain l f where l: "l \<in> set (leases d)" "le_id l = lease_id"
    "le_secret_hash l = Some (client_key_hash (ap_primitives (sa_app A)) (sq_secret q))" "le_state l = Issued"
    "ry_now x < le_expires_at l" "le_kind l = Write"
    and f: "v_file (view d (le_file l)) = Some f" "bl_declared_size lease = f_declared_size f" "f_state f = Pending" by auto
  show ?thesis
  proof (cases "bl_part_size lease")
    case None
    with run have single: "upload_single A x lease_id lease (sq_part q) n okey b body (d, w) = (Inr answer, d', w')" by simp
    note locks = upload_single_releases [OF single]
    from assms(1) single show ?thesis
    proof (cases rule: upload_single_Inr)
      case (1 data e)
      show ?thesis
        by (rule exI [of _ lease], rule exI [of _ l], rule exI [of _ f], rule exI [of _ data], rule exI [of _ e],
            rule exI [of _ okey], rule exI [of _ b], rule exI [of _ "hs_md5_hex (sl_hashes (sa_lib A)) data"])
          (use 1 l f auth loc None locks in simp)
    qed
  next
    case (Some part_size)
    with run have "relay_upload_part A x lease_id lease part_size (sq_part q) n okey b body (d, w) = (Inr answer, d', w')" by simp
    with assms(1) show ?thesis
    proof (cases rule: relay_upload_part_Inr)
      case (1 data e k u etag)
      show ?thesis
        by (rule exI [of _ lease], rule exI [of _ l], rule exI [of _ f], rule exI [of _ data], rule exI [of _ e],
            rule exI [of _ okey], rule exI [of _ b], rule exI [of _ "hs_md5_hex (sl_hashes (sa_lib A)) data"])
          (use 1 l f auth loc Some in auto)
    qed
  qed
qed

text \<open>
  C31. Without the lease's own secret nothing moves and nothing is learnt: unless a live lease of the
  wanted kind records the hash of the presented secret, a PUT and a GET both answer with the same refusal,
  whether the lease does not exist, has another secret, has ended or is of the other kind, and change nothing.
\<close>

theorem relay_is_closed_without_secret:
  assumes "db_ok d"
    and "\<not> exists_where (\<lambda>l. le_id l = lease_id \<and> le_state l = Issued \<and> now < le_expires_at l \<and> le_kind l = kind \<and>
      le_secret_hash l = Some (client_key_hash (ap_primitives (sa_app A)) (sq_secret q))) (leases d)"
  shows "case kind of
      Write \<Rightarrow> relay_upload A (x\<lparr>ry_now := now\<rparr>) lease_id q hs body (d, w) = (Inl invalid_lease, (d, w))
    | Read \<Rightarrow> relay_download A now lease_id q (d, w) = (Inl invalid_lease, (d, w))"
proof -
  have "relay_authorize A now lease_id (sq_secret q) kind d = Inl invalid_lease"
  proof (cases "byte_lease now lease_id (client_key_hash (ap_primitives (sa_app A)) (sq_secret q)) d")
    case (Some b)
    with byte_lease_sound [OF assms(1) Some] assms(2) show ?thesis
      by (auto simp: relay_authorize_def exists_where_iff)
  qed (simp add: relay_authorize_def)
  then show ?thesis
    by (cases kind) (simp_all add: relay_upload_def relay_download_def bind_eff_def try_eff_def of_result_def)
qed

section \<open>Witnesses\<close>

definition demo_relay :: "memory relay_input" where
  "demo_relay = \<lparr>ry_now = 1, ry_budget = budget_new 8388608, ry_claim_free = True, ry_spool_opens = True, ry_claim = 2,
     ry_done = 3, ry_ticks = [], ry_fails = \<lambda>_. None, ry_dropped = id\<rparr>"

definition demo_relay_query :: secret_query where
  "demo_relay_query = \<lparr>sq_secret = replicate 64 CHR ''0'', sq_filename = None, sq_part = None\<rparr>"

abbreviation demo_relayed :: "(api_error + s3_response) \<times> db \<times> memory" where
  "demo_relayed \<equiv> relay_upload memory_app demo_relay 11 demo_relay_query [(''content-length'', ''5'')]
     [Chunk 0 ''hello'' (WriteOk 0), BodyEnd 0 (WriteOk 0)] (demo_db, [])"

lemma demo_relayed_ok: "fst demo_relayed = Inr (ok_with_etag demo_lib ''hello'')"
  by code_simp

theorem relay_upload_is_recorded_witness:
  "\<exists>md5. recorded_as 11 5 md5 (fst (snd demo_relayed))"
proof -
  obtain d' w' where run: "demo_relayed = (Inr (ok_with_etag demo_lib ''hello''), d', w')"
    using run_prod [OF demo_relayed_ok] by (metis surj_pair)
  have p: "\<forall>b. byte_lease 1 11 (client_key_hash (ap_primitives (sa_app memory_app)) (replicate 64 CHR ''0'')) demo_db = Some b \<longrightarrow> bl_part_size b = None"
  proof -
    have "(case byte_lease 1 11 (client_key_hash (ap_primitives (sa_app memory_app)) (replicate 64 CHR ''0'')) demo_db of
        None \<Rightarrow> True | Some b \<Rightarrow> bl_part_size b = None)" by code_simp
    then show ?thesis by (auto split: option.splits)
  qed
  from relay_upload_is_recorded [OF demo_db_ok run]
  have "\<exists>lease data e. relay_authorize memory_app (ry_now demo_relay) 11 (sq_secret demo_relay_query) Write demo_db = Inr lease \<and>
    delivered [Chunk 0 ''hello'' (WriteOk 0), BodyEnd 0 (WriteOk 0)] = Some (data, e) \<and>
    (bl_part_size lease = None \<longrightarrow> recorded_as 11 (int (length data)) (hs_md5_hex (sl_hashes (sa_lib memory_app)) data) d')"
    by (elim exE conjE) (intro exI conjI impI, assumption, assumption, auto simp only: option.case)
  then obtain lease data e where
    a: "relay_authorize memory_app (ry_now demo_relay) 11 (sq_secret demo_relay_query) Write demo_db = Inr lease"
    and b: "delivered [Chunk 0 ''hello'' (WriteOk 0), BodyEnd 0 (WriteOk 0)] = Some (data, e)"
    and c: "bl_part_size lease = None \<longrightarrow> recorded_as 11 (int (length data)) (hs_md5_hex (sl_hashes (sa_lib memory_app)) data) d'"
    by (elim exE conjE) (rule that)
  from relay_authorize_Inr(1) [OF a] p have "bl_part_size lease = None" by (auto simp: demo_relay_def demo_relay_query_def)
  with c have "recorded_as 11 (int (length data)) (hs_md5_hex (sl_hashes (sa_lib memory_app)) data) d'" by simp
  moreover from b have "int (length data) = 5" by auto
  ultimately have "recorded_as 11 5 (hs_md5_hex (sl_hashes (sa_lib memory_app)) data) d'" by simp
  then show ?thesis unfolding run by auto
qed

theorem relay_is_closed_without_secret_witness:
  "relay_upload memory_app (demo_relay\<lparr>ry_now := 1\<rparr>) 11 (demo_relay_query\<lparr>sq_secret := ''x''\<rparr>) [] [] (demo_db, []) =
     (Inl invalid_lease, (demo_db, []))"
proof -
  have "\<not> exists_where (\<lambda>l. le_id l = 11 \<and> le_state l = Issued \<and> 1 < le_expires_at l \<and> le_kind l = Write \<and>
      le_secret_hash l = Some (client_key_hash (ap_primitives (sa_app memory_app)) (sq_secret (demo_relay_query\<lparr>sq_secret := ''x''\<rparr>)))) (leases demo_db)"
    by code_simp
  from relay_is_closed_without_secret [OF demo_db_ok this, of demo_relay "[]" "[]" "[]"] show ?thesis by simp
qed

end
