(* ===== verification/Upload_Recovery.thy ===== *)
theory Upload_Recovery
  imports S3_Uploads
begin

text \<open>
  \<open>db/src/upload_recovery.rs\<close>: the retry claim that the recovery jobs of upload completion and
  cleanup record before they call the provider. \<open>wall\<close> is \<open>grove_time.wall_now()\<close>, read once.
\<close>

section \<open>Operation\<close>

datatype upload_job = NativeComplete | NativeCleanup | S3Complete | S3Cleanup

fun job_protocol :: "upload_job \<Rightarrow> protocol" where
  "job_protocol NativeComplete = Native"
| "job_protocol NativeCleanup = Native"
| "job_protocol S3Complete = S3"
| "job_protocol S3Cleanup = S3"

fun job_state :: "upload_job \<Rightarrow> upload_state" where
  "job_state NativeComplete = Completing"
| "job_state S3Complete = Completing"
| "job_state NativeCleanup = Cleaning"
| "job_state S3Cleanup = Cleaning"

definition job_due :: "timestamp \<Rightarrow> db \<Rightarrow> upload_job \<Rightarrow> upload_row \<Rightarrow> bool" where
  "job_due wall d job u \<longleftrightarrow> in_state (job_protocol job) (job_state job) u \<and> u_recovery_after u \<le> wall \<and>
     (job_state job = Cleaning \<or>
      exists_where (\<lambda>le. issued_write (u_file u) le \<and> le_expires_at le < wall) (leases d))"

definition claim_job :: "timestamp \<Rightarrow> uuid \<Rightarrow> upload_job \<Rightarrow> nat \<Rightarrow> (db, db_error, bool) eff" where
  "claim_job wall i job retry_secs d =
     (let hit = (\<lambda>u. u_file u = i \<and> job_due wall d job u) in
      if \<not> pending d i then (Inr False, d)
      else (Inr (count_where hit (uploads d) = 1),
            d\<lparr>uploads := update_where hit (\<lambda>u. u\<lparr>u_recovery_after := wall + secs (int retry_secs)\<rparr>) (uploads d)\<rparr>))"

section \<open>As a move\<close>

lemma upload_count_1: "schema_ok d \<Longrightarrow>
    count_where (\<lambda>u. u_file u = i \<and> q u) (uploads d) = 1 \<longleftrightarrow> (\<exists>u. v_upload (view d i) = Some u \<and> q u)"
  using count_by_key_le_1 [OF schema_okD(5), of d i q] upload_count [of d i q]
  by (auto simp: le_Suc_eq)

lemma claim_job_cases:
  assumes "db_ok d" "claim_job wall i job retry d = (r, d')"
  obtains (skipped) "r = Inr False" "d' = d" "\<And>u. v_upload (view d i) = Some u \<Longrightarrow> \<not> job_due wall d job u"
  | (claimed) f u where "r = Inr True" "v_file (view d i) = Some f" "f_state f = Pending" "v_upload (view d i) = Some u"
      "job_due wall d job u"
      "at_file d i ((view d i)\<lparr>v_upload := Some (u\<lparr>u_recovery_after := wall + secs (int retry)\<rparr>)\<rparr>) d'"
proof -
  note ok = db_okD(1) [OF assms(1)]
  let ?u = "\<lambda>u. u\<lparr>u_recovery_after := wall + secs (int retry)\<rparr>"
  show thesis
  proof (cases "\<exists>u. v_upload (view d i) = Some u \<and> job_due wall d job u")
    case True
    then obtain u where u: "v_upload (view d i) = Some u" "job_due wall d job u" by blast
    obtain f where f: "v_file (view d i) = Some f" "f_state f = Pending"
      using db_okD(2) [OF assms(1), of i] u(1) by (rule view_ok_upload)
    then have "pending d i" unfolding pending_view [OF ok] by blast
    moreover have "count_where (\<lambda>u. u_file u = i \<and> job_due wall d job u) (uploads d) = 1"
      unfolding upload_count_1 [OF ok] using u by blast
    ultimately have d': "r = Inr True" "d' = d\<lparr>uploads := update_where (\<lambda>u. u_file u = i \<and> job_due wall d job u) ?u (uploads d)\<rparr>"
      using assms(2) by (simp_all add: claim_job_def Let_def)
    have "at_file d i ((view d i)\<lparr>v_upload := Some (?u u)\<rparr>) d'"
      unfolding d' at_file_def using ok u by (auto simp: at_file_simps)
    with d'(1) f u show thesis by (intro claimed)
  next
    case False
    have n: "update_where (\<lambda>u. u_file u = i \<and> job_due wall d job u) ?u (uploads d) = uploads d"
      by (rule update_where_none) (use upload_count [OF ok, of i "job_due wall d job"] False in \<open>auto simp: count_where_0\<close>)
    have "count_where (\<lambda>u. u_file u = i \<and> job_due wall d job u) (uploads d) \<noteq> 1"
      unfolding upload_count_1 [OF ok] using False .
    then have "r = Inr False" "d' = d" using assms(2) n by (auto simp: claim_job_def Let_def split: if_splits)
    with False show thesis by (intro skipped) auto
  qed
qed

interpretation claim_job: transaction "claim_job wall i job retry" for wall i job retry
proof
  fix d r d'
  assume ok: "db_ok d" and run: "claim_job wall i job retry d = (r, d')"
  have "sim d d' \<and> schema_ok d'"
    using ok run
  proof (cases rule: claim_job_cases)
    case (claimed f u)
    from claimed(6) vstep.touch_upload [OF claimed(4)] show ?thesis by (rule at_file_move)
  qed (use ok in \<open>simp add: db_okD\<close>)
  then show "sim d d'" "schema_ok d'" by auto
qed (auto simp: claim_job_def Let_def split: if_splits)

section \<open>One worker per retry interval\<close>

text \<open>
  A recovery job of a file is attempted once per retry interval: a claim succeeds exactly when
  the upload is in the job's state, due, and (for a completion) its owner's lease has expired; it
  then defers every further claim of the same job until the retry time, and changes nothing else.
\<close>

theorem recovery_claim_exclusive:
  assumes "db_ok d" "claim_job wall i job retry d = (r, d1)" "wall' < wall + secs (int retry)"
  shows "(r = Inr True \<longleftrightarrow> (\<exists>u. v_upload (view d i) = Some u \<and> job_due wall d job u)) \<and>
    (r = Inr True \<longrightarrow> fst (claim_job wall' i job' retry' d1) = Inr False) \<and> (r \<noteq> Inr True \<longrightarrow> r = Inr False \<and> d1 = d) \<and>
    (\<forall>j. j = i \<or> view d1 j = view d j)"
  using assms(1,2)
proof (cases rule: claim_job_cases)
  case (claimed f u)
  have ok1: "db_ok d1" by (rule claim_job.keeps_db_ok [OF assms(1,2)])
  obtain r2 d2 where run: "claim_job wall' i job' retry' d1 = (r2, d2)" by fastforce
  from ok1 run have "r2 = Inr False"
  proof (cases rule: claim_job_cases)
    case second: (claimed f' u')
    have "u' = u\<lparr>u_recovery_after := wall + secs (int retry)\<rparr>"
      using second(4) at_fileD(2) [OF claimed(6)] by simp
    with second(5) assms(3) show ?thesis by (simp add: job_due_def)
  qed
  with claimed run at_fileD(3) [OF claimed(6)] show ?thesis by auto
qed auto

theorem recovery_claim_exclusive_witness:
  "fst (claim_job 200 4 S3Complete 60 demo_db) = Inr True \<and>
   fst (claim_job 300 4 S3Complete 60 (snd (claim_job 200 4 S3Complete 60 demo_db))) = Inr False"
proof -
  have a: "fst (claim_job 200 4 S3Complete 60 demo_db) = Inr True" by code_simp
  show ?thesis
    using a recovery_claim_exclusive [OF demo_db_ok run_prod [OF a], of 300 S3Complete 60] by (simp add: secs_def)
qed

end
