(* ===== verification/Reconciler.thy ===== *)
theory Reconciler
  imports Usage Native_Commit Upload_Recovery S3_Auth
begin

text \<open>
  \<open>api/src/reconciler.rs\<close> and its modules: the background jobs that finish, reopen or clean up what
  the request paths left behind, the retry claim each of them takes first, and the schedule that
  passes over them. A step runs over the database and the outside world. While a provider call is
  in progress other transactions may run: \<open>re_meanwhile\<close> says what they did, and \<open>re_elapsed\<close>
  that the call reached its deadline and what it had done by then. The log is left out.
\<close>

section \<open>The report of a job and what surrounds a run\<close>

record job_report =
  processed :: nat
  failed :: nat
  skipped :: nat

definition default_report :: job_report where
  "default_report = \<lparr>processed = 0, failed = 0, skipped = 0\<rparr>"

definition count_processed :: "nat \<Rightarrow> job_report \<Rightarrow> job_report" where
  "count_processed n r = r\<lparr>processed := processed r + n\<rparr>"

definition count_failed :: "job_report \<Rightarrow> job_report" where
  "count_failed r = r\<lparr>failed := failed r + 1\<rparr>"

definition count_skipped :: "job_report \<Rightarrow> job_report" where
  "count_skipped r = r\<lparr>skipped := skipped r + 1\<rparr>"

text \<open>What every job does with an attempt's result: transitions count, lost races do not, errors fail.\<close>

definition settle_report :: "'e + bool \<Rightarrow> job_report \<Rightarrow> job_report" where
  "settle_report r rep = (case r of Inl _ \<Rightarrow> count_failed rep | Inr True \<Rightarrow> count_processed 1 rep | Inr False \<Rightarrow> rep)"

definition BATCH_LIMIT :: nat where
  "BATCH_LIMIT = 20"

definition RECOVERY_RETRY :: nat where
  "RECOVERY_RETRY = 30"

definition TEMP_MAX_AGE :: int where
  "TEMP_MAX_AGE = 48 * 3600"

definition LEASE_RETENTION :: int where
  "LEASE_RETENTION = 24 * 3600"

definition FILE_RETENTION :: int where
  "FILE_RETENTION = 90 * 24 * 3600"

record 'w recovery_env =
  re_app :: "'w app"
  re_scan_fails :: bool
  re_scanned_at :: timestamp
  re_claimed_at :: "uuid \<Rightarrow> timestamp"
  re_finished_at :: "uuid \<Rightarrow> timestamp"
  re_elapsed :: "uuid \<Rightarrow> ('w \<Rightarrow> 'w) option"
  re_meanwhile :: "uuid \<Rightarrow> db \<Rightarrow> db"
  re_snapshots_meanwhile :: "snapshot_row list \<Rightarrow> snapshot_row list"

datatype recovery_error =
    TimedOut
  | NotRegistered string
  | BadBackend core_error
  | ProviderFailed provider_error
  | DbFailed db_error

type_synonym 'w recovery_state = "db \<times> 'w"
type_synonym 'w recovery_step = "job_report \<Rightarrow> 'w recovery_state \<Rightarrow> job_report \<times> 'w recovery_state"

section \<open>Retry claims and bounded I/O\<close>

definition begin_claimed :: "(db, db_error, bool) eff \<Rightarrow> job_report \<Rightarrow> 'w recovery_state \<Rightarrow> bool \<times> job_report \<times> 'w recovery_state" where
  "begin_claimed claim rep s = (case on_db claim s of
      (Inr claimed, s') \<Rightarrow> (claimed, (if claimed then rep else count_skipped rep), s')
    | (Inl e, s') \<Rightarrow> (False, count_failed rep, s'))"

definition begin_recovery :: "'w recovery_env \<Rightarrow> uuid \<Rightarrow> upload_job \<Rightarrow> job_report \<Rightarrow> 'w recovery_state
    \<Rightarrow> bool \<times> job_report \<times> 'w recovery_state" where
  "begin_recovery E i job = begin_claimed (claim_job (re_claimed_at E i) i job RECOVERY_RETRY)"

definition begin_file_recovery :: "'w recovery_env \<Rightarrow> uuid \<Rightarrow> recovery_job \<Rightarrow> job_report \<Rightarrow> 'w recovery_state
    \<Rightarrow> bool \<times> job_report \<times> 'w recovery_state" where
  "begin_file_recovery E i job = begin_claimed (claim_recovery (re_claimed_at E i) i job RECOVERY_RETRY)"

definition recovery_io :: "'w recovery_env \<Rightarrow> uuid \<Rightarrow> ('w recovery_state, recovery_error, 'a) eff
    \<Rightarrow> ('w recovery_state, recovery_error, 'a) eff" where
  "recovery_io E i operation s = (case re_elapsed E i of
      Some partly \<Rightarrow> (Inl TimedOut, (re_meanwhile E i (fst s), partly (snd s)))
    | None \<Rightarrow> (case operation s of (r, s') \<Rightarrow> (r, (re_meanwhile E i (fst s'), snd s'))))"

text \<open>A candidate: claim it, then act; a candidate that is not claimed is left to its retry time.\<close>

definition recovering :: "(job_report \<Rightarrow> 'w recovery_state \<Rightarrow> bool \<times> job_report \<times> 'w recovery_state)
    \<Rightarrow> ('w recovery_state, 'e, bool) eff \<Rightarrow> 'w recovery_step" where
  "recovering begin act rep s = (case begin rep s of
      (False, rep1, s1) \<Rightarrow> (rep1, s1)
    | (True, rep1, s1) \<Rightarrow> (case act s1 of (r, s2) \<Rightarrow> (settle_report r rep1, s2)))"

text \<open>The loop over the candidates of one scan.\<close>

fun over_candidates :: "('c \<Rightarrow> 'w recovery_step) \<Rightarrow> 'c list \<Rightarrow> 'w recovery_step" where
  "over_candidates step [] rep s = (rep, s)"
| "over_candidates step (c # cs) rep s = (case step c rep s of (rep1, s1) \<Rightarrow> over_candidates step cs rep1 s1)"

definition scanned :: "'w recovery_env \<Rightarrow> (db \<Rightarrow> 'c list) \<Rightarrow> ('c \<Rightarrow> 'w recovery_step)
    \<Rightarrow> 'w recovery_state \<Rightarrow> job_report \<times> 'w recovery_state" where
  "scanned E scan step s =
     (if re_scan_fails E then (count_failed default_report, s)
      else over_candidates step (scan (fst s)) default_report s)"

section \<open>Looking at the storage\<close>

definition get_storage :: "string \<Rightarrow> db \<Rightarrow> storage_row option" where
  "get_storage st d = find (\<lambda>s. st_id s = st) (storages d)"

definition backend_of_row :: "'w recovery_env \<Rightarrow> storage_row \<Rightarrow> recovery_error + storage_backend" where
  "backend_of_row E row = map_err BadBackend (backend_from_row (ap_primitives (re_app E)) (ap_crypto (re_app E)) row)"

definition registered_backend :: "'w recovery_env \<Rightarrow> string \<Rightarrow> 'w recovery_state \<Rightarrow> recovery_error + storage_backend" where
  "registered_backend E st s = (case get_storage st (fst s) of
      None \<Rightarrow> Inl (NotRegistered st)
    | Some row \<Rightarrow> backend_of_row E row)"

definition provider_call :: "('w, provider_error, 'a) eff \<Rightarrow> ('w recovery_state, recovery_error, 'a) eff" where
  "provider_call op = try_eff (on_world op) ProviderFailed ret_ok"

definition db_call :: "(db, db_error, 'a) eff \<Rightarrow> ('w recovery_state, recovery_error, 'a) eff" where
  "db_call op = try_eff (on_db op) DbFailed ret_ok"

definition sweep_object :: "'w recovery_env \<Rightarrow> sweep_candidate \<Rightarrow> ('w recovery_state, recovery_error, unit) eff" where
  "sweep_object E c s = (case registered_backend E (sw_storage_id c) s of
      Inl e \<Rightarrow> (Inl e, s)
    | Inr b \<Rightarrow> provider_call (cleanup_backend_upload (ap_connections (re_app E)) b (sw_object_key c) (sw_upload_id c) (sw_multipart c)) s)"

definition observe_object :: "'w recovery_env \<Rightarrow> storage_backend \<Rightarrow> string
    \<Rightarrow> ('w recovery_state, recovery_error, object_observation option) eff" where
  "observe_object E b key = provider_call (observe_backend_object (ap_connections (re_app E)) b key)"

section \<open>Observe\<close>

definition observed_upload :: "'w recovery_env \<Rightarrow> storage_backend \<Rightarrow> observed_commit_candidate
    \<Rightarrow> ('w recovery_state, recovery_error, (int \<times> string) option) eff" where
  "observed_upload E b c =
     (if is_relay b
      then db_call (\<lambda>d. case recorded_upload (oc_file_id c) d of
             None \<Rightarrow> (Inr None, d)
           | Some (sz, Some md5) \<Rightarrow> (Inr (Some (sz, md5)), d)
           | Some (sz, None) \<Rightarrow> (Inl DecodeError, d))
      else recovery_io E (oc_file_id c)
             (provider_call (head_object (ap_connections (re_app E) (sb_spec b) InternalAddress) (bucket_of b) (oc_object_key c))))"

definition declared_as :: "observed_commit_candidate \<Rightarrow> int \<Rightarrow> string \<Rightarrow> bool" where
  "declared_as c sz etag \<longleftrightarrow> sz = oc_declared_size c \<and>
     (case oc_declared_md5 c of None \<Rightarrow> True | Some declared \<Rightarrow> eq_ic declared etag)"

definition observe_commit :: "'w recovery_env \<Rightarrow> observed_commit_candidate \<Rightarrow> ('w recovery_state, recovery_error, bool) eff" where
  "observe_commit E c s = (case backend_of_row E (oc_storage c) of
      Inl e \<Rightarrow> (Inl e, s)
    | Inr b \<Rightarrow> bind_eff (observed_upload E b c) (\<lambda>seen. case seen of
          None \<Rightarrow> ret_ok False
        | Some (sz, etag) \<Rightarrow>
            if \<not> declared_as c sz etag then ret_ok False
            else db_call (finalize_commit (re_finished_at E (oc_file_id c)) (oc_file_id c) etag)) s)"

definition observe_step :: "'w recovery_env \<Rightarrow> observed_commit_candidate \<Rightarrow> 'w recovery_step" where
  "observe_step E c = recovering (begin_file_recovery E (oc_file_id c) Observe) (observe_commit E c)"

section \<open>Native completions\<close>

definition act_native :: "'w recovery_env \<Rightarrow> completion_candidate \<Rightarrow> completion_action \<Rightarrow> (db, db_error, bool) eff" where
  "act_native E c action = (let i = cc_file_id c; now = re_finished_at E i in case action of
      Finalize \<Rightarrow> finalize_completion now i (cc_expected_etag c)
    | Reopen \<Rightarrow> reopen_completion now i WRITE_LEASE_TTL
    | completion_action.Cleanup \<Rightarrow> claim_cleanup now i)"

definition recover_native :: "'w recovery_env \<Rightarrow> completion_candidate \<Rightarrow> ('w recovery_state, recovery_error, bool) eff" where
  "recover_native E c s = (case registered_backend E (cc_storage_id c) s of
      Inl e \<Rightarrow> (Inl e, s)
    | Inr b \<Rightarrow> (case recovery_io E (cc_file_id c) (observe_object E b (cc_object_key c)) s of (observation, s1) \<Rightarrow>
        (case completion_action (cc_expected_size c) (cc_expected_etag c) True observation of
           Inl e \<Rightarrow> (Inl e, s1)
         | Inr action \<Rightarrow> db_call (act_native E c action) s1)))"

definition native_step :: "'w recovery_env \<Rightarrow> completion_candidate \<Rightarrow> 'w recovery_step" where
  "native_step E c = recovering (begin_recovery E (cc_file_id c) NativeComplete) (recover_native E c)"

section \<open>S3 completions\<close>

definition observe_s3_completion :: "'w recovery_env \<Rightarrow> s3_completion_candidate
    \<Rightarrow> ('w recovery_state, recovery_error, object_observation option) eff" where
  "observe_s3_completion E c s = (case registered_backend E (sc_storage_id c) s of
      Inl e \<Rightarrow> (Inl e, s)
    | Inr b \<Rightarrow> observe_object E b (sc_object_key c) s)"

definition finalize_answered :: "finalize_outcome \<Rightarrow> bool" where
  "finalize_answered f = (case f of Finalized _ \<Rightarrow> True | NotPending \<Rightarrow> False | PreconditionFailed \<Rightarrow> True)"

definition act_s3 :: "'w recovery_env \<Rightarrow> s3_completion_candidate \<Rightarrow> completion_action \<Rightarrow> (db, db_error, bool) eff" where
  "act_s3 E c action = (let i = sc_file_id c; now = re_finished_at E i in case action of
      Finalize \<Rightarrow> bind_eff (if sc_multipart c then finalize_multipart_upload now (sc_client_id c) (sc_key c) i
                           else finalize_single_upload now (sc_client_id c) (sc_key c) i) (\<lambda>f. ret_ok (finalize_answered f))
    | Reopen \<Rightarrow> s3_reopen_completion now i WRITE_LEASE_TTL
    | completion_action.Cleanup \<Rightarrow> mark_completion_aborting now i)"

definition recover_s3 :: "'w recovery_env \<Rightarrow> s3_completion_candidate \<Rightarrow> ('w recovery_state, recovery_error, bool) eff" where
  "recover_s3 E c s = (case recovery_io E (sc_file_id c) (observe_s3_completion E c) s of (observation, s1) \<Rightarrow>
     (case completion_action (sc_expected_size c) (sc_expected_etag c) (sc_multipart c) observation of
        Inl e \<Rightarrow> (Inl e, s1)
      | Inr action \<Rightarrow> db_call (act_s3 E c action) s1))"

definition s3_step :: "'w recovery_env \<Rightarrow> s3_completion_candidate \<Rightarrow> 'w recovery_step" where
  "s3_step E c = recovering (begin_recovery E (sc_file_id c) S3Complete) (recover_s3 E c)"

section \<open>Cleanups, expiry and reclamation\<close>

definition clean_then :: "'w recovery_env \<Rightarrow> sweep_candidate \<Rightarrow> (db, db_error, bool) eff
    \<Rightarrow> ('w recovery_state, (recovery_error, recovery_error) cleanup_error, bool) eff" where
  "clean_then E c finalize = cleanup_then_finalize (recovery_io E (sw_file_id c) (sweep_object E c)) (db_call finalize)"

definition native_cleanup_step :: "'w recovery_env \<Rightarrow> sweep_candidate \<Rightarrow> 'w recovery_step" where
  "native_cleanup_step E c = recovering (begin_recovery E (sw_file_id c) NativeCleanup) (clean_then E c (finalize_cleanup (sw_file_id c)))"

definition s3_cleanup_step :: "'w recovery_env \<Rightarrow> sweep_candidate \<Rightarrow> 'w recovery_step" where
  "s3_cleanup_step E c = recovering (begin_recovery E (sw_file_id c) S3Cleanup) (clean_then E c (finalize_abort (sw_file_id c)))"

definition reclaim_cleanup_step :: "'w recovery_env \<Rightarrow> sweep_candidate \<Rightarrow> 'w recovery_step" where
  "reclaim_cleanup_step E c = recovering (begin_file_recovery E (sw_file_id c) Reclaim) (clean_then E c (finalize_reclaim_cleanup c))"

definition purge_step :: "'w recovery_env \<Rightarrow> sweep_candidate \<Rightarrow> 'w recovery_step" where
  "purge_step E c = recovering (begin_file_recovery E (sw_file_id c) Purge) (clean_then E c (finalize_purge c))"

text \<open>Expiry and reclamation only decide: one transaction per candidate, with no claim before it.\<close>

definition deciding :: "(db, db_error, bool) eff \<Rightarrow> 'w recovery_step" where
  "deciding op rep s = (case on_db op s of (r, s') \<Rightarrow> (settle_report r rep, s'))"

definition s3_expire_step :: "'w recovery_env \<Rightarrow> uuid \<Rightarrow> 'w recovery_step" where
  "s3_expire_step E i = deciding (claim_expired_abort (re_finished_at E i) i)"

definition reclaim_step :: "'w recovery_env \<Rightarrow> sweep_candidate \<Rightarrow> 'w recovery_step" where
  "reclaim_step E c = deciding (finalize_reclaim (re_finished_at E (sw_file_id c)) c)"

text \<open>Retention is one statement per run; it reports the rows it settled.\<close>

definition retiring :: "'w recovery_env \<Rightarrow> (db, db_error, nat) eff \<Rightarrow> 'w recovery_state \<Rightarrow> job_report \<times> 'w recovery_state" where
  "retiring E op s =
     (if re_scan_fails E then (count_failed default_report, s)
      else case on_db op s of
        (Inl e, s') \<Rightarrow> (count_failed default_report, s')
      | (Inr n, s') \<Rightarrow> (count_processed n default_report, s'))"

section \<open>The jobs\<close>

datatype job =
    JobObserve | JobNativeComplete | JobNativeCleanup | JobS3Complete | JobS3Expire | JobS3Cleanup | JobReclaim
  | JobReclaimCleanup | JobPurge | JobReadLeases | JobPruneLeases | JobPruneFiles | JobSnapshot

definition record_daily_snapshot :: "'w recovery_env \<Rightarrow> int \<Rightarrow> db \<Rightarrow> snapshot_row list \<Rightarrow> job_report \<times> snapshot_row list" where
  "record_daily_snapshot E yesterday d snaps =
     (if re_scan_fails E then (count_failed default_report, snaps)
      else case record_snapshot (re_snapshots_meanwhile E) (re_scanned_at E) yesterday d snaps of
        (Inl e, snaps') \<Rightarrow> (count_failed default_report, snaps')
      | (Inr n, snaps') \<Rightarrow> (count_processed n default_report, snaps'))"

text \<open>Every job but the last works on files only.\<close>

fun run_file_job :: "'w recovery_env \<Rightarrow> job \<Rightarrow> 'w recovery_state \<Rightarrow> job_report \<times> 'w recovery_state" where
  "run_file_job E JobObserve s = scanned E (\<lambda>d. observed_commit_candidates (re_scanned_at E) BATCH_LIMIT d (\<lambda>i. re_meanwhile E i d)) (observe_step E) s"
| "run_file_job E JobNativeComplete s = scanned E (completion_candidates (re_scanned_at E) BATCH_LIMIT) (native_step E) s"
| "run_file_job E JobNativeCleanup s = scanned E (completion_cleanup_candidates (re_scanned_at E) BATCH_LIMIT) (native_cleanup_step E) s"
| "run_file_job E JobS3Complete s = scanned E (s3_completion_candidates (re_scanned_at E) BATCH_LIMIT) (s3_step E) s"
| "run_file_job E JobS3Expire s = scanned E (expired_open_uploads (re_scanned_at E) BATCH_LIMIT) (s3_expire_step E) s"
| "run_file_job E JobS3Cleanup s = scanned E (cleanup_candidates (re_scanned_at E) BATCH_LIMIT) (s3_cleanup_step E) s"
| "run_file_job E JobReclaim s = scanned E (expired_pending (re_scanned_at E) BATCH_LIMIT) (reclaim_step E) s"
| "run_file_job E JobReclaimCleanup s = scanned E (reclaim_cleanup_candidates (re_scanned_at E) BATCH_LIMIT) (reclaim_cleanup_step E) s"
| "run_file_job E JobPurge s = scanned E (purgeable (re_scanned_at E) BATCH_LIMIT) (purge_step E) s"
| "run_file_job E JobReadLeases s = retiring E (expire_read_leases (re_scanned_at E) BATCH_LIMIT) s"
| "run_file_job E JobPruneLeases s = retiring E (prune_terminal_leases (re_scanned_at E) LEASE_RETENTION BATCH_LIMIT) s"
| "run_file_job E JobPruneFiles s = retiring E (prune_terminal_files (re_scanned_at E) FILE_RETENTION BATCH_LIMIT) s"
| "run_file_job E JobSnapshot s = (default_report, s)"

definition run_job :: "'w recovery_env \<Rightarrow> job \<Rightarrow> 'w recovery_state \<times> snapshot_row list
    \<Rightarrow> job_report \<times> 'w recovery_state \<times> snapshot_row list" where
  "run_job E job x = (case x of (s, snaps) \<Rightarrow>
     if job = JobSnapshot
     then (case record_daily_snapshot E (day_of (re_scanned_at E) - 1) (fst s) snaps of (rep, snaps') \<Rightarrow> (rep, s, snaps'))
     else (case run_file_job E job s of (rep, s') \<Rightarrow> (rep, s', snaps)))"

section \<open>Whatever the jobs do keeps the files' invariant\<close>

text \<open>
  A step is well behaved when it takes a consistent database to a consistent one by moves of the file
  life cycle. What other transactions do meanwhile is assumed to be of that kind, as each of them is.
\<close>

named_theorems keeps_rules \<open>steps that keep the database consistent\<close>

definition moves :: "db \<Rightarrow> db \<Rightarrow> bool" where
  "moves d d' \<longleftrightarrow> (db_ok d \<longrightarrow> db_ok d' \<and> sim d d')"

lemma moves_refl [simp]: "moves d d"
  by (simp add: moves_def)

lemma moves_trans: "moves d d' \<Longrightarrow> moves d' d'' \<Longrightarrow> moves d d''"
  by (auto simp: moves_def intro: sim_trans)


definition env_ok :: "'w recovery_env \<Rightarrow> bool" where
  "env_ok E \<longleftrightarrow> (\<forall>i d. moves d (re_meanwhile E i d))"

definition keeps :: "('w recovery_state \<Rightarrow> 'r \<times> 'w recovery_state) \<Rightarrow> bool" where
  "keeps op \<longleftrightarrow> (\<forall>s r s'. op s = (r, s') \<longrightarrow> moves (fst s) (fst s'))"

lemma keepsI: "(\<And>s r s'. op s = (r, s') \<Longrightarrow> moves (fst s) (fst s')) \<Longrightarrow> keeps op"
  by (simp add: keeps_def)

lemma keepsD: "keeps op \<Longrightarrow> op s = (r, s') \<Longrightarrow> moves (fst s) (fst s')"
  unfolding keeps_def by blast

context transaction
begin

lemma run_moves: "op d = (r, d') \<Longrightarrow> moves d d'"
  by (auto simp: moves_def intro: keeps_db_ok simulates)

lemma keeps_on_db: "keeps (on_db op)"
  by (rule keepsI) (auto simp: on_db_def split: prod.splits dest: run_moves)

lemma keeps_db_call: "keeps (db_call op)"
  by (rule keepsI) (auto simp: db_call_def ret_ok_def elim!: try_effE dest: keepsD [OF keeps_on_db])

end

lemma keeps_ret [keeps_rules]: "keeps (ret_ok a)"
  by (rule keepsI) (simp add: ret_ok_def)

lemma keeps_provider [keeps_rules]: "keeps (provider_call op)"
  by (rule keepsI) (auto simp: provider_call_def ret_ok_def on_world_def elim!: try_effE split: prod.splits)

lemma keeps_answer [keeps_rules]: "keeps (\<lambda>s. (r, s))"
  by (rule keepsI) simp

lemma keeps_read: "(\<And>d. snd (op d) = d) \<Longrightarrow> keeps (db_call op)"
  by (rule keepsI) (auto simp: db_call_def ret_ok_def on_db_def elim!: try_effE split: prod.splits, (metis moves_refl snd_conv)+)

lemma keeps_try [keeps_rules]: "keeps op \<Longrightarrow> (\<And>a. keeps (k a)) \<Longrightarrow> keeps (try_eff op w k)"
  by (rule keepsI) (auto elim!: try_effE dest: keepsD intro: moves_trans)

lemma keeps_bind [keeps_rules]: "keeps op \<Longrightarrow> (\<And>a. keeps (k a)) \<Longrightarrow> keeps (bind_eff op k)"
  unfolding bind_eff_def by (rule keeps_try)

lemma keeps_io [keeps_rules]: "env_ok E \<Longrightarrow> keeps op \<Longrightarrow> keeps (recovery_io E i op)"
  by (rule keepsI)
    (auto simp: recovery_io_def env_ok_def split: option.splits prod.splits dest!: keepsD intro: moves_trans)

lemma keeps_at: "(\<And>s. \<exists>op. keeps op \<and> f s = op s) \<Longrightarrow> keeps f"
  unfolding keeps_def by metis

lemma keeps_sum [keeps_rules]: "(\<And>e. keeps (f e)) \<Longrightarrow> (\<And>a. keeps (g a)) \<Longrightarrow> keeps (case x of Inl e \<Rightarrow> f e | Inr a \<Rightarrow> g a)"
  by (cases x) auto

lemma keeps_option [keeps_rules]: "keeps f \<Longrightarrow> (\<And>a. keeps (g a)) \<Longrightarrow> keeps (case x of None \<Rightarrow> f | Some a \<Rightarrow> g a)"
  by (cases x) auto

lemma keeps_pair [keeps_rules]: "(\<And>a b. keeps (f a b)) \<Longrightarrow> keeps (case x of (a, b) \<Rightarrow> f a b)"
  by (cases x) auto

lemma keeps_if [keeps_rules]: "keeps f \<Longrightarrow> keeps g \<Longrightarrow> keeps (if b then f else g)"
  by simp

lemma keeps_sweep [keeps_rules]: "keeps (sweep_object E c)"
proof (rule keeps_at)
  fix s
  show "\<exists>op. keeps op \<and> sweep_object E c s = op s"
    unfolding sweep_object_def
    by (cases "registered_backend E (sw_storage_id c) s"; simp only: sum.case) (rule exI, rule conjI [OF _ refl], rule keeps_rules)+
qed

lemma keeps_observe_s3 [keeps_rules]: "keeps (observe_s3_completion E c)"
proof (rule keeps_at)
  fix s
  show "\<exists>op. keeps op \<and> observe_s3_completion E c s = op s"
    unfolding observe_s3_completion_def observe_object_def
    by (cases "registered_backend E (sc_storage_id c) s"; simp only: sum.case) (rule exI, rule conjI [OF _ refl], rule keeps_rules)+
qed

lemma keeps_clean [keeps_rules]:
  "env_ok E \<Longrightarrow> keeps (db_call finalize :: 'w recovery_state \<Rightarrow> _) \<Longrightarrow> keeps (clean_then (E :: 'w recovery_env) c finalize)"
  unfolding clean_then_def cleanup_then_finalize_def by (intro keeps_rules)

lemma keeps_act_s3: "keeps (db_call (act_s3 E c action))"
proof (rule keepsI)
  fix s s' r
  assume run: "db_call (act_s3 E c action) s = (r, s')"
  then obtain r1 where "act_s3 E c action (fst s) = (r1, fst s')"
    by (auto simp: db_call_def on_db_def ret_ok_def elim!: try_effE split: prod.splits)
  then show "moves (fst s) (fst s')"
    unfolding act_s3_def Let_def finalize_multipart_upload_def finalize_single_upload_def bind_eff_def
    by (cases action)
      (auto simp: ret_ok_def elim!: try_effE dest: finalize_upload.run_moves s3_reopen.run_moves mark_aborting.run_moves split: if_splits)
qed

lemma keeps_act_native: "keeps (db_call (act_native E c action))"
  by (cases action) (simp_all add: act_native_def Let_def finalize_completion.keeps_db_call reopen_completion.keeps_db_call claim_cleanup.keeps_db_call)

lemma keeps_observed [keeps_rules]: "env_ok E \<Longrightarrow> keeps (observed_upload E b c)"
  unfolding observed_upload_def
  by (intro keeps_if keeps_read keeps_io keeps_provider) (auto split: option.splits)

lemma keeps_observe_commit: "env_ok E \<Longrightarrow> keeps (observe_commit E c)"
proof (rule keeps_at)
  fix s
  assume env: "env_ok E"
  have "keeps (bind_eff (observed_upload E b c) (\<lambda>seen. case seen of
          None \<Rightarrow> ret_ok False
        | Some (sz, etag) \<Rightarrow>
            if \<not> declared_as c sz etag then ret_ok False
            else db_call (finalize_commit (re_finished_at E (oc_file_id c)) (oc_file_id c) etag)))" for b
    by (intro keeps_rules env finalize_commit.keeps_db_call)
  then show "\<exists>op. keeps op \<and> observe_commit E c s = op s"
    unfolding observe_commit_def
    by (cases "backend_of_row E (oc_storage c)"; simp only: sum.case)
      (rule exI, rule conjI [OF _ refl], (rule keeps_answer | assumption))+
qed

lemma keeps_recover_s3: "env_ok E \<Longrightarrow> keeps (recover_s3 E c)"
proof (rule keepsI)
  fix s r s'
  assume env: "env_ok E" and run: "recover_s3 E c s = (r, s')"
  obtain obs s1 where io: "recovery_io E (sc_file_id c) (observe_s3_completion E c) s = (obs, s1)" by (rule prod.exhaust)
  have "moves (fst s) (fst s1)" by (rule keepsD [OF keeps_io [OF env keeps_observe_s3] io])
  moreover have "moves (fst s1) (fst s')"
    using run by (cases "completion_action (sc_expected_size c) (sc_expected_etag c) (sc_multipart c) obs")
      (auto simp: recover_s3_def io dest: keepsD [OF keeps_act_s3])
  ultimately show "moves (fst s) (fst s')" by (rule moves_trans)
qed

lemma keeps_observe_object: "keeps (observe_object E b key)"
  unfolding observe_object_def by (rule keeps_provider)

lemma keeps_recover_native: "env_ok E \<Longrightarrow> keeps (recover_native E c)"
proof (rule keepsI)
  fix s r s'
  assume env: "env_ok E" and run: "recover_native E c s = (r, s')"
  show "moves (fst s) (fst s')"
  proof (cases "registered_backend E (cc_storage_id c) s")
    case (Inr b)
    obtain obs s1 where io: "recovery_io E (cc_file_id c) (observe_object E b (cc_object_key c)) s = (obs, s1)" by (rule prod.exhaust)
    have "moves (fst s) (fst s1)" by (rule keepsD [OF keeps_io [OF env keeps_observe_object] io])
    moreover have "moves (fst s1) (fst s')"
      using run by (cases "completion_action (cc_expected_size c) (cc_expected_etag c) True obs")
        (auto simp: recover_native_def Inr io dest: keepsD [OF keeps_act_native])
    ultimately show ?thesis by (rule moves_trans)
  qed (use run in \<open>simp add: recover_native_def\<close>)
qed

text \<open>A step over a candidate, and the loop over all of them.\<close>

definition step_ok :: "'w recovery_step \<Rightarrow> bool" where
  "step_ok step \<longleftrightarrow> (\<forall>rep s rep' s'. step rep s = (rep', s') \<longrightarrow> moves (fst s) (fst s') \<and>
     processed rep' + failed rep' + skipped rep' \<le> Suc (processed rep + failed rep + skipped rep))"

lemma step_okD:
  assumes "step_ok step" "step rep s = (rep', s')"
  shows "moves (fst s) (fst s')"
    "processed rep' + failed rep' + skipped rep' \<le> Suc (processed rep + failed rep + skipped rep)"
  using assms unfolding step_ok_def by blast+

lemma settle_report_counts:
  "processed (settle_report r rep) + failed (settle_report r rep) + skipped (settle_report r rep)
     \<le> Suc (processed rep + failed rep + skipped rep)"
  by (auto simp: settle_report_def count_failed_def count_processed_def split: sum.splits bool.splits)

lemma begin_claimed_outcome:
  assumes "keeps (on_db claim :: 'w recovery_state \<Rightarrow> _)" "begin_claimed claim rep (s :: 'w recovery_state) = (b, rep1, s1)"
  shows "moves (fst s) (fst s1)" "b \<Longrightarrow> rep1 = rep"
    "processed rep1 + failed rep1 + skipped rep1 \<le> Suc (processed rep + failed rep + skipped rep)"
  using assms(2) keepsD [OF assms(1)]
  by (auto simp: begin_claimed_def count_failed_def count_skipped_def split: prod.splits sum.splits if_splits)

lemma step_ok_recovering:
  assumes "keeps (on_db claim :: 'w recovery_state \<Rightarrow> _)" "keeps (act :: 'w recovery_state \<Rightarrow> _)"
  shows "step_ok (recovering (begin_claimed claim) act)"
  unfolding step_ok_def
proof (intro allI impI)
  fix rep s rep' s'
  assume run: "recovering (begin_claimed claim) act rep s = (rep', s')"
  obtain b rep1 s1 where b: "begin_claimed claim rep s = (b, rep1, s1)" by (metis surj_pair)
  note o = begin_claimed_outcome [OF assms(1) b]
  show "moves (fst s) (fst s') \<and> processed rep' + failed rep' + skipped rep' \<le> Suc (processed rep + failed rep + skipped rep)"
  proof (cases b)
    case True
    obtain r s2 where a: "act s1 = (r, s2)" by (rule prod.exhaust)
    from run b True a have "rep' = settle_report r rep1" "s' = s2" by (simp_all add: recovering_def)
    moreover from o(2) True have "rep1 = rep" by blast
    ultimately show ?thesis using moves_trans [OF o(1) keepsD [OF assms(2) a]] settle_report_counts [of r rep] by simp
  next
    case False
    with run b o show ?thesis by (simp add: recovering_def)
  qed
qed

lemma step_ok_deciding: "keeps (on_db op :: 'w recovery_state \<Rightarrow> _) \<Longrightarrow> step_ok (deciding op :: 'w recovery_step)"
  unfolding step_ok_def
proof (intro allI impI)
  fix rep s rep' s'
  assume op: "keeps (on_db op :: 'w recovery_state \<Rightarrow> _)" and run: "(deciding op :: 'w recovery_step) rep s = (rep', s')"
  obtain r s1 where o: "on_db op s = (r, s1)" by (rule prod.exhaust)
  with run have "rep' = settle_report r rep" "s' = s1" by (simp_all add: deciding_def)
  with keepsD [OF op o] settle_report_counts [of r rep]
  show "moves (fst s) (fst s') \<and> processed rep' + failed rep' + skipped rep' \<le> Suc (processed rep + failed rep + skipped rep)"
    by simp
qed

lemmas begin_defs = begin_recovery_def begin_file_recovery_def

lemma file_steps_ok:
  assumes "env_ok E"
  shows "step_ok (observe_step E o')" "step_ok (native_step E n)" "step_ok (native_cleanup_step E c)" "step_ok (s3_step E t)"
    "step_ok (s3_expire_step E i)" "step_ok (s3_cleanup_step E c)" "step_ok (reclaim_step E c)"
    "step_ok (reclaim_cleanup_step E c)" "step_ok (purge_step E c)"
  unfolding observe_step_def native_step_def native_cleanup_step_def s3_step_def s3_expire_step_def s3_cleanup_step_def
    reclaim_step_def reclaim_cleanup_step_def purge_step_def begin_defs
  by (intro step_ok_recovering step_ok_deciding claim_job.keeps_on_db claim_recovery.keeps_on_db
      keeps_observe_commit keeps_recover_native keeps_recover_s3 keeps_clean assms finalize_cleanup.keeps_db_call
      finalize_abort.keeps_db_call finalize_reclaim_cleanup.keeps_db_call finalize_purge.keeps_db_call
      claim_expired_abort.keeps_on_db finalize_reclaim.keeps_on_db)+

lemma over_candidates_ok:
  assumes "\<And>c. step_ok (step c)" "over_candidates step cs rep s = (rep', s')"
  shows "moves (fst s) (fst s') \<and>
    processed rep' + failed rep' + skipped rep' \<le> length cs + (processed rep + failed rep + skipped rep)"
  using assms(2)
proof (induction cs arbitrary: rep s)
  case (Cons c cs)
  obtain rep1 s1 where one: "step c rep s = (rep1, s1)" by (rule prod.exhaust)
  with Cons.prems have "over_candidates step cs rep1 s1 = (rep', s')" by simp
  from Cons.IH [OF this] step_okD [OF assms(1) one] show ?case by (auto intro: moves_trans)
qed simp

lemma scanned_ok:
  assumes "\<And>c. step_ok (step c)" "scanned E scan step s = (rep, s')" "length (scan (fst s)) \<le> n" "1 \<le> n"
  shows "moves (fst s) (fst s') \<and> processed rep + failed rep + skipped rep \<le> n"
  using assms(2,3,4) over_candidates_ok [OF assms(1), where cs = "scan (fst s)" and rep = default_report and s = s]
  by (fastforce simp: scanned_def default_report_def count_failed_def split: if_splits)

section \<open>Nothing is released before the storage is clean\<close>

lemma sweep_success:
  assumes "recovery_io E i (sweep_object E c) s = (Inr (), s1)"
  shows "\<exists>b. registered_backend E (sw_storage_id c) s = Inr b \<and> re_elapsed E i = None \<and>
    cleanup_backend_upload (ap_connections (re_app E)) b (sw_object_key c) (sw_upload_id c) (sw_multipart c) (snd s) = (Inr (), snd s1)"
  using assms
  by (auto simp: recovery_io_def sweep_object_def provider_call_def on_world_def ret_ok_def try_eff_def
      split: option.splits sum.splits prod.splits)

lemma clean_then_release:
  assumes "metadata_release db_ok finalize recorded" "clean_then E c finalize s = (r, s')"
    and io: "recovery_io E (sw_file_id c) (sweep_object E c) s = (q, s1)" and ok: "db_ok (fst s1)"
  shows "if r = Inr True then q = Inr () \<and> snd s' = snd s1 \<and> recorded (fst s1) \<and> \<not> recorded (fst s') else s' = s1"
proof (cases q)
  case (Inl e)
  with assms(2) io show ?thesis by (auto simp: clean_then_def cleanup_then_finalize_def)
next
  case (Inr u)
  obtain rf d' where f: "finalize (fst s1) = (rf, d')" by (rule prod.exhaust)
  note law = metadata_release.release_failed [OF assms(1), of "fst s1"] metadata_release.release_lost [OF assms(1), of "fst s1"]
    metadata_release.release_won [OF assms(1) ok]
  have "r = (case rf of Inl e \<Rightarrow> Inl (Metadata (DbFailed e)) | Inr b \<Rightarrow> Inr b)" "s' = (d', snd s1)"
    using assms(2) io f Inr
    by (cases s1; auto simp: clean_then_def cleanup_then_finalize_def db_call_def on_db_def ret_ok_def try_eff_def split: sum.splits)+
  with f law Inr show ?thesis by (cases s1; cases rf) auto
qed


section \<open>What a recovered completion rests on\<close>

lemma db_call_run: "db_call op s = (r, s') \<longleftrightarrow>
    (\<exists>q. op (fst s) = (q, fst s') \<and> snd s' = snd s \<and> r = map_err DbFailed q)"
  by (cases s; cases s'; cases "op (fst s)"; cases "fst (op (fst s))")
    (auto simp: db_call_def on_db_def ret_ok_def try_eff_def map_err_def)

abbreviation phase_of :: "'w recovery_state \<Rightarrow> uuid \<Rightarrow> phase" where
  "phase_of s i \<equiv> phase (view (fst s) i)"

lemma phase_cases [simp]:
  "v_file v = Some f \<Longrightarrow> f_state f = Pending \<Longrightarrow> v_upload v = Some u \<Longrightarrow> u_state u = Completing \<Longrightarrow> phase v = Completion"
  "v_file v = Some f \<Longrightarrow> f_state f = Active \<Longrightarrow> phase v = Live"
  "v_file v = Some f \<Longrightarrow> f_state f = Pending \<Longrightarrow> v_upload v = Some u \<Longrightarrow> u_state u = Open \<Longrightarrow> phase v = Uploading"
  "v_file v = Some f \<Longrightarrow> f_state f = Pending \<Longrightarrow> v_upload v = None \<Longrightarrow> phase v = Uploading"
  "v_file v = Some f \<Longrightarrow> f_state f = Pending \<Longrightarrow> v_upload v = Some u \<Longrightarrow> u_state u = Cleaning \<Longrightarrow> phase v = phase.Cleanup"
  by (simp_all add: phase_def completing_def cleaning_def)

lemma act_s3_phases:
  assumes "db_ok d" "act_s3 E c action d = (r, d')"
  shows "d' = d \<or> phase (view d (sc_file_id c)) = Completion \<and>
    (case action of
       Finalize \<Rightarrow> phase (view d' (sc_file_id c)) = Live \<or>
         phase (view d' (sc_file_id c)) = phase.Cleanup \<and> (\<exists>j. get_key (sc_client_id c) (sc_key c) d = Some j)
     | Reopen \<Rightarrow> phase (view d' (sc_file_id c)) = Uploading
     | completion_action.Cleanup \<Rightarrow> phase (view d' (sc_file_id c)) = phase.Cleanup)"
proof (cases action)
  case Finalize
  let ?f = "finalize_upload (re_finished_at E (sc_file_id c)) (sc_client_id c) (sc_key c) (sc_file_id c) (sc_multipart c)"
  obtain q where "?f d = (q, d')"
    using assms(2) Finalize
    by (auto simp: act_s3_def Let_def finalize_multipart_upload_def finalize_single_upload_def bind_eff_def ret_ok_def
        elim!: try_effE split: if_splits)
  with assms(1) show ?thesis
    by (cases rule: finalize_upload_cases) (auto simp: Finalize publishable_def at_file_fields to_cleaning_def)
next
  case Reopen
  then have "s3_reopen_completion (re_finished_at E (sc_file_id c)) (sc_file_id c) WRITE_LEASE_TTL d = (r, d')"
    using assms(2) by (simp add: act_s3_def Let_def)
  with assms(1) show ?thesis
    by (cases rule: s3_reopen_cases) (auto simp: Reopen in_state_def at_file_fields)
next
  case Cleanup
  then have "mark_completion_aborting (re_finished_at E (sc_file_id c)) (sc_file_id c) d = (r, d')"
    using assms(2) by (simp add: act_s3_def Let_def)
  with assms(1) show ?thesis
    by (cases rule: mark_aborting_cases) (auto simp: Cleanup in_state_def at_file_fields to_cleaning_def)
qed


section \<open>Every job keeps the files consistent\<close>

lemma length_concat_le: "(\<And>x. x \<in> set xs \<Longrightarrow> length (f x) \<le> 1) \<Longrightarrow> length (concat (map f xs)) \<le> length xs"
  by (induction xs) (auto, fastforce)

lemma candidates_bounded:
  "length (observed_commit_candidates now n d later) \<le> n" "length (completion_candidates now n d) \<le> n"
  "length (completion_cleanup_candidates now n d) \<le> n" "length (s3_completion_candidates now n d) \<le> n"
  "length (expired_open_uploads now n d) \<le> n" "length (cleanup_candidates now n d) \<le> n"
  "length (expired_pending now n d) \<le> n" "length (reclaim_cleanup_candidates now n d) \<le> n" "length (purgeable now n d) \<le> n"
proof -
  let ?rows = "take n (sort_key (\<lambda>(f, l). (f_recovery_after f, f_id f)) (observable now d))"
  have "length (observed_commit_candidates now n d later) \<le> length ?rows"
    unfolding observed_commit_candidates_def
    by (rule length_concat_le) (auto simp del: take_map split: option.splits)
  also have "\<dots> \<le> n" by simp
  finally show "length (observed_commit_candidates now n d later) \<le> n" .
qed (simp_all add: completion_candidates_def completion_cleanup_candidates_def s3_completion_candidates_def
    expired_open_uploads_def cleanup_candidates_def expired_pending_def reclaim_cleanup_candidates_def purgeable_def)

lemma scanned_batch:
  assumes "scanned E scan step s = (rep, s')" "\<And>c. step_ok (step c)" "\<And>d. length (scan d) \<le> BATCH_LIMIT"
  shows "moves (fst s) (fst s') \<and> processed rep + failed rep + skipped rep \<le> BATCH_LIMIT"
  using scanned_ok [OF assms(2,1,3)] by (simp add: BATCH_LIMIT_def)

lemma retiring_ok:
  assumes "keeps (on_db op :: 'w recovery_state \<Rightarrow> _)" "retiring E op (s :: 'w recovery_state) = (rep, s')"
  shows "moves (fst s) (fst s')"
  using assms(2) keepsD [OF assms(1)] by (auto simp: retiring_def split: if_splits prod.splits sum.splits)

definition per_candidate :: "job \<Rightarrow> bool" where
  "per_candidate job \<longleftrightarrow> job \<notin> {JobReadLeases, JobPruneLeases, JobPruneFiles, JobSnapshot}"

lemma run_file_job_ok:
  assumes "env_ok E" "run_file_job E job s = (rep, s')"
  shows "moves (fst s) (fst s') \<and> (per_candidate job \<longrightarrow> processed rep + failed rep + skipped rep \<le> BATCH_LIMIT)"
proof -
  note once = retiring_ok [OF expire_read_leases.keeps_on_db] retiring_ok [OF prune_terminal_leases.keeps_on_db]
    retiring_ok [OF prune_terminal_files.keeps_on_db]
  from assms(2) show ?thesis
    by (cases job)
      (simp_all add: per_candidate_def,
        (erule scanned_batch, rule file_steps_ok [OF assms(1)], rule candidates_bounded | drule once, assumption)+)
qed

text \<open>
  C28. No job of the reconciler breaks a file: whatever the candidates were, however the provider
  answered or timed out, and whatever other transactions did meanwhile, a run takes a consistent database to a
  consistent one by moves of the file life cycle; and a run that works per candidate attempts at most a batch.
\<close>

theorem reconciler_keeps_files:
  assumes "db_ok d" "env_ok E" "run_job E job ((d, w), snaps) = (rep, (d', w'), snaps')"
  shows "db_ok d' \<and> sim d d' \<and> (per_candidate job \<longrightarrow> processed rep + failed rep + skipped rep \<le> 20)"
proof (cases "job = JobSnapshot")
  case True
  with assms show ?thesis by (auto simp: run_job_def per_candidate_def split: prod.splits)
next
  case False
  with assms(3) have "run_file_job E job (d, w) = (rep, (d', w'))" by (auto simp: run_job_def split: prod.splits)
  from run_file_job_ok [OF assms(2) this] assms(1) show ?thesis by (simp add: moves_def BATCH_LIMIT_def)
qed

section \<open>The schedule\<close>

definition JOBS :: "job list" where
  "JOBS = [JobObserve, JobNativeComplete, JobNativeCleanup, JobS3Complete, JobS3Expire, JobS3Cleanup, JobReclaim,
     JobReclaimCleanup, JobPurge, JobReadLeases, JobPruneLeases, JobPruneFiles, JobSnapshot]"

definition next_job :: "job list \<Rightarrow> job \<times> job list" where
  "next_job remaining = (case remaining of j # js \<Rightarrow> (j, js) | [] \<Rightarrow> (hd JOBS, tl JOBS))"

text \<open>
  \<open>Schedule::run\<close>, \<open>n\<close> iterations of it. A job either ends or is cancelled with the pass, which then starts
  no other; the position is advanced before the job runs.
\<close>

fun schedule_run :: "(job \<Rightarrow> 's \<Rightarrow> bool \<times> 's) \<Rightarrow> nat \<Rightarrow> job list \<Rightarrow> 's \<Rightarrow> job list \<times> 's" where
  "schedule_run run 0 remaining s = (remaining, s)"
| "schedule_run run (Suc n) remaining s = (case next_job remaining of (selected, rest) \<Rightarrow>
     (case run selected s of
        (True, s') \<Rightarrow> schedule_run run n rest s'
      | (False, s') \<Rightarrow> (rest, s')))"

text \<open>
  One turn of the loop of \<open>run\<close>: the advisory lock decides whether this process runs the jobs; what the
  pass ends with is reported.
\<close>

datatype pass_end = PassDone | PassSkipped | PassFailed | PassTimedOut | Stopped

datatype advisory_lock = LockError | LockHeld | LockTaken

record pass_input =
  pi_shutdown :: bool
  pi_elapsed_before :: bool
  pi_spool_failed :: bool
  pi_lock :: advisory_lock
  pi_stops_by_shutdown :: bool
  pi_commits :: bool

definition reconciler_pass :: "pass_input \<Rightarrow> (job \<Rightarrow> 's \<Rightarrow> bool \<times> 's) \<Rightarrow> job list \<Rightarrow> 's \<Rightarrow> pass_end \<times> job list \<times> 's" where
  "reconciler_pass I run remaining s =
     (if pi_shutdown I then (Stopped, remaining, s)
      else if pi_elapsed_before I then (PassTimedOut, remaining, s)
      else case pi_lock I of
        LockError \<Rightarrow> (PassFailed, remaining, s)
      | LockHeld \<Rightarrow> ((if pi_spool_failed I then PassFailed else PassSkipped), remaining, s)
      | LockTaken \<Rightarrow>
          (case schedule_run (\<lambda>j (_, s). case run j s of (ended, s') \<Rightarrow> (ended, (ended, s'))) (length JOBS) remaining (True, s) of
             (rest, (ended, s')) \<Rightarrow>
               ((if \<not> ended then (if pi_stops_by_shutdown I then Stopped else PassTimedOut)
                 else if pi_commits I then PassDone else PassFailed), rest, s')))"

text \<open>A run of the worker: passes that took the lock, each with its own behaviour of the jobs.\<close>

definition logged :: "(job \<Rightarrow> 's \<Rightarrow> bool \<times> 's) \<Rightarrow> job \<Rightarrow> 's \<times> job list \<Rightarrow> bool \<times> 's \<times> job list" where
  "logged run j x = (case x of (s, started) \<Rightarrow> (case run j s of (ended, s') \<Rightarrow> (ended, (s', started @ [j]))))"

fun passes :: "(job \<Rightarrow> 's \<Rightarrow> bool \<times> 's) list \<Rightarrow> job list \<Rightarrow> 's \<times> job list \<Rightarrow> job list \<times> 's \<times> job list" where
  "passes [] remaining x = (remaining, x)"
| "passes (run # runs) remaining x = (case schedule_run (logged run) (length JOBS) remaining x of
     (rest, x') \<Rightarrow> passes runs rest x')"

definition rounds :: "nat \<Rightarrow> nat \<Rightarrow> job list" where
  "rounds q r = concat (replicate q JOBS) @ take r JOBS"

definition position :: "nat \<Rightarrow> job list" where
  "position r = (if r = 0 then [] else drop r JOBS)"

lemma JOBS_length [simp]: "length JOBS = 13"
  by (simp add: JOBS_def)

lemma next_position:
  assumes "r < 13"
  shows "\<exists>r' q'. next_job (position r) = (JOBS ! r, position r') \<and> r' < 13 \<and> rounds q r @ [JOBS ! r] = rounds (q + q') r'"
proof (cases "r = 12")
  case True
  have "take 12 JOBS @ [JOBS ! 12] = JOBS" by (simp add: JOBS_def)
  then have "rounds q 12 @ [JOBS ! 12] = rounds (q + 1) 0"
    by (simp add: rounds_def replicate_append_same [symmetric])
  moreover have "next_job (position 12) = (JOBS ! 12, position 0)" by (simp add: position_def next_job_def JOBS_def)
  ultimately show ?thesis using True by (intro exI [of _ 0] exI [of _ 1]) simp
next
  case False
  with assms have r: "Suc r < length JOBS" by simp
  have "next_job (position r) = (JOBS ! r, position (Suc r))"
  proof (cases "r = 0")
    case True
    then show ?thesis by (simp add: position_def next_job_def JOBS_def)
  next
    case nz: False
    have "drop r JOBS = JOBS ! r # drop (Suc r) JOBS" using r by (intro Cons_nth_drop_Suc [symmetric]) simp
    with nz show ?thesis by (simp add: position_def next_job_def)
  qed
  moreover have "rounds q r @ [JOBS ! r] = rounds q (Suc r)"
    using r by (simp add: rounds_def take_Suc_conv_app_nth)
  ultimately show ?thesis using r by (intro exI [of _ "Suc r"] exI [of _ 0]) simp
qed

lemma schedule_run_rounds:
  assumes "schedule_run (logged run) n (position r) (s, rounds q r) = (rest, (s', started))" "r < 13" "0 < n"
  shows "\<exists>q' r'. rest = position r' \<and> started = rounds q' r' \<and> r' < 13 \<and> length (rounds q r) < length started"
  using assms
proof (induction n arbitrary: r q s)
  case (Suc n)
  obtain r1 q1 where nxt: "next_job (position r) = (JOBS ! r, position r1)" "r1 < 13" "rounds q r @ [JOBS ! r] = rounds (q + q1) r1"
    using next_position [OF Suc.prems(2), of q] by blast
  obtain ended s1 where run: "run (JOBS ! r) s = (ended, s1)" by (rule prod.exhaust)
  have len: "length (rounds q r) < length (rounds (q + q1) r1)" unfolding nxt(3) [symmetric] by simp
  show ?case
  proof (cases "ended \<and> 0 < n")
    case True
    with Suc.prems(1) nxt run have "schedule_run (logged run) n (position r1) (s1, rounds (q + q1) r1) = (rest, (s', started))"
      by (simp add: logged_def [of run "JOBS ! r"])
    from Suc.IH [OF this nxt(2)] True len show ?thesis by fastforce
  next
    case False
    with Suc.prems(1) nxt run have "rest = position r1" "started = rounds (q + q1) r1"
      by (cases ended; simp add: logged_def)+
    with nxt(2) len show ?thesis by blast
  qed
qed simp

lemma passes_rounds:
  assumes "passes runs (position r) (s, rounds q r) = (rest, (s', started))" "r < 13"
  shows "\<exists>q' r'. started = rounds q' r' \<and> r' < 13 \<and> length (rounds q r) + length runs \<le> length started"
  using assms
proof (induction runs arbitrary: r q s)
  case (Cons run runs)
  obtain rest1 s1 started1 where one: "schedule_run (logged run) (length JOBS) (position r) (s, rounds q r) = (rest1, (s1, started1))"
    by (metis surj_pair)
  from schedule_run_rounds [OF one Cons.prems(2)] obtain q1 r1
    where 1: "rest1 = position r1" "started1 = rounds q1 r1" "r1 < 13" "length (rounds q r) < length started1" by auto
  from Cons.prems(1) one 1 have "passes runs (position r1) (s1, rounds q1 r1) = (rest, (s', started))" by simp
  from Cons.IH [OF this 1(3)] 1 show ?case by fastforce
qed auto

text \<open>
  C29. No job starves. However long the jobs take and wherever the passes are cancelled, the jobs are
  started in the fixed cyclic order, every pass starts at least one, and after \<open>n\<close> passes every
  job has been started at least \<open>n div 13\<close> times: a slow job cannot monopolize the worker.
\<close>

theorem no_job_starves:
  assumes "passes runs [] (s, []) = (rest, (s', started))"
  shows "(\<exists>q r. started = rounds q r \<and> r < 13) \<and> length runs \<le> length started \<and> length runs div 13 \<le> count_list started j"
proof -
  have "passes runs (position 0) (s, rounds 0 0) = (rest, (s', started))"
    using assms by (simp add: position_def rounds_def)
  from passes_rounds [OF this] obtain q r where r: "started = rounds q r" "r < 13" "length runs \<le> length started"
    by (auto simp: rounds_def)
  have len: "length started = 13 * q + r" using r(1,2) by (simp add: rounds_def length_concat sum_list_replicate)
  have one: "count_list JOBS j = 1" by (cases j) (simp_all add: JOBS_def)
  have "count_list (concat (replicate q JOBS)) j = q"
    by (induction q) (simp_all add: one)
  then have "q \<le> count_list started j" by (simp add: r(1) rounds_def)
  moreover have "length runs div 13 \<le> q"
  proof -
    have "length runs div 13 \<le> (13 * q + r) div 13" using r(3) len by (intro div_le_mono) simp
    also have "\<dots> = q" using r(2) by simp
    finally show ?thesis .
  qed
  ultimately show ?thesis using r by auto
qed

theorem no_job_starves_witness:
  "let (rest, s, started) = passes [\<lambda>j s. (j \<noteq> JobNativeComplete, s), \<lambda>_ s. (True, s)] [] ((), [])
   in length started = 15 \<and> started = rounds 1 2"
proof -
  have run: "passes [\<lambda>j s. (j \<noteq> JobNativeComplete, s), \<lambda>_ s. (True, s)] [] ((), []) =
      ([JobNativeCleanup, JobS3Complete, JobS3Expire, JobS3Cleanup, JobReclaim, JobReclaimCleanup, JobPurge,
        JobReadLeases, JobPruneLeases, JobPruneFiles, JobSnapshot], ((), rounds 1 2))"
    by (simp add: logged_def JOBS_def next_job_def rounds_def)
  have "2 div 13 \<le> count_list (rounds 1 2) JobPurge" using no_job_starves [OF run, of JobPurge] by simp
  then show ?thesis unfolding run by (simp add: rounds_def)
qed

section \<open>Witnesses\<close>

text \<open>The example's provider, with deletion, and no other transaction in between.\<close>

definition demo_env :: "unit recovery_env" where
  "demo_env = \<lparr>re_app = demo_app\<lparr>ap_connections := \<lambda>_ _. demo_sdk\<lparr>
       sdk_head := \<lambda>b k w. (Inr \<lparr>ho_length = Some 5, ho_etag = Some ''e''\<rparr>, w), sdk_delete := \<lambda>b k w. (Inr (), w)\<rparr>\<rparr>,
     re_scan_fails = False, re_scanned_at = 200, re_claimed_at = \<lambda>_. 200, re_finished_at = \<lambda>_. 201,
     re_elapsed = \<lambda>_. None, re_meanwhile = \<lambda>_ d. d, re_snapshots_meanwhile = id\<rparr>"

lemma demo_env_ok: "env_ok demo_env"
  by (simp add: env_ok_def demo_env_def)

definition demo_purge :: sweep_candidate where
  "demo_purge = candidate_from (9, ''s1'', l_object_key (demo_location 9))"


definition demo_candidate :: s3_completion_candidate where
  "demo_candidate = hd (s3_completion_candidates 200 20 demo_db)"


theorem reconciler_keeps_files_witness:
  "processed (fst (run_job demo_env JobS3Complete ((demo_db, ()), []))) = 2 \<and>
   db_ok (fst (fst (snd (run_job demo_env JobS3Complete ((demo_db, ()), [])))))"
proof -
  have p: "processed (fst (run_job demo_env JobS3Complete ((demo_db, ()), []))) = 2" by code_simp
  obtain rep d' snaps' where run: "run_job demo_env JobS3Complete ((demo_db, ()), []) = (rep, (d', ()), snaps')"
    by (metis surj_pair unit.exhaust)
  from reconciler_keeps_files [OF demo_db_ok demo_env_ok run] p show ?thesis by (simp add: run)
qed

end
