(* ===== verification/Spec2Isabelle.thy ===== *)
theory Spec2Isabelle
  imports Registry_Access Management_Access Lease_Relay Reconciler Object_Policy Management_Policy Files_Access S3_Credentials
begin

text \<open>
  A verification library for grove-storage (the Rust workspace \<open>src/backend/crates\<close>).

  \<^bold>\<open>The program.\<close> The server keeps the metadata of files in PostgreSQL and their bytes in external
  S3-compatible storages. A client creates a file and uploads it, directly to the storage through a
  signed URL or through the server, as one object or in parts; a commit turns the pending file into an
  active one; reads are signed or relayed. The same files can be used through an S3 surface. Background
  jobs reclaim what was abandoned, finish or undo what was interrupted and purge what was deleted. A
  management plane with accounts, sessions and tokens administers storages, clients and keys. Paths below
  are relative to \<open>src/backend/crates\<close>.

  \<^bold>\<open>State and steps.\<close> A table is a list of rows (\<open>Prelude\<close>), a row a record, an enumerated column a
  datatype; \<open>Schema\<close> has the record \<open>db\<close> of the tables of file transfer, \<open>Identity_Schema\<close> the record \<open>mdb\<close>
  of the schema \<open>management\<close>, \<open>Telemetry\<close> the history tables, \<open>Registry\<close> those of the registry. A transaction
  is a function from a state to an error or a value with the new state (type \<open>eff\<close>); it is one step,
  because the code takes the row locks or the advisory lock first. Handlers and jobs compose such steps
  with calls of the storage and, where others can act in between, with functions that stand for what the
  others do. \<open>Tables\<close> states in the locale \<open>transaction\<close> what every transaction promises: it keeps the
  keys, each file makes at most one move of the life cycle of \<open>Lifecycle\<close>, and an error changes nothing.
  Every transaction below interprets it.

  \<^bold>\<open>File transfer.\<close>
  \<^item> \<open>Object_Policy\<close> (\<open>object-policy\<close>): part geometry on wrapping 64-bit words, upload checks.
  \<^item> \<open>Object_Service\<close> (\<open>object-service\<close>): the orders of effects of completion, creation and cleanup, over
    operations given as arguments; the ports are the locales \<open>metadata_release\<close>, \<open>single_commit_port\<close>,
    \<open>multipart_commit_port\<close>, interpreted in \<open>Files_Sweep\<close>, \<open>Files_Completion\<close>, \<open>S3_Uploads\<close>, \<open>Native_Commit\<close>.
  \<^item> \<open>Files_Create\<close>, \<open>Files_Commit\<close>, \<open>Files_Completion\<close>, \<open>Files_Multipart\<close>, \<open>Part_Ledger\<close>, \<open>Files_Sweep\<close>,
    \<open>Files_Access\<close> (\<open>db/src/files\<close>), \<open>Upload_Recovery\<close> (\<open>db/src/upload_recovery.rs\<close>), \<open>S3_Keys\<close>, \<open>S3_Uploads\<close>,
    \<open>S3_Credentials\<close> (\<open>db/src/s3_registry\<close>), \<open>Usage\<close> (\<open>db/src/usage.rs\<close>): the transactions. \<open>S3_Publication\<close>
    has what the sessions promise: exclusive claims, atomic publication, undoing an interrupted completion.
  \<^item> \<open>Storage_Access\<close> (\<open>api/src/storage_access.rs\<close>, \<open>infra/src/s3_io.rs\<close>), \<open>S3_Provider\<close>
    (\<open>storage-provider/src/s3.rs\<close>), \<open>Core_Crypto\<close> (\<open>core/src/crypto.rs\<close>, \<open>hash.rs\<close>): from a registry row to
    the storage, with the provider's answers read the way the code reads them.
  \<^item> \<open>Api_Error\<close>, \<open>Lease\<close>, \<open>Native_Api\<close>, \<open>Native_Commit\<close>, \<open>Lease_Relay\<close>, \<open>Spool\<close> (\<open>api/src\<close>): the handlers of
    \<open>/v1/files\<close> and \<open>/blobs\<close>, the heartbeat that keeps an upload owned, and the bounded receive loop.
  \<^item> \<open>S3_Protocol\<close> (\<open>s3-protocol\<close>), \<open>S3_Http\<close>, \<open>S3_Auth\<close>, \<open>S3_Objects\<close>, \<open>S3_Multipart_Api\<close>, \<open>S3_Surface\<close>
    (\<open>api/src/s3\<close>): signatures, routing and the object and multipart operations. \<open>Tenancy\<close> shows that a
    request touches only rows and keys of the client that signed it.
  \<^item> \<open>Reconciler\<close> (\<open>api/src/reconciler\<close>): the thirteen jobs and their cyclic schedule.

  \<^bold>\<open>Management.\<close>
  \<^item> \<open>Management_Policy\<close> (\<open>management-policy\<close>): the pure authorization decision.
  \<^item> \<open>Identity_Schema\<close>, \<open>Identity\<close>, \<open>Identity_Queries\<close>, \<open>Telemetry\<close> (\<open>db/src/management\<close>): lookups, transactions,
    reads and the history streams; \<open>Retention\<close> (\<open>db/src/retention.rs\<close>, \<open>management-service/src/retention.rs\<close>).
  \<^item> \<open>Identity_Access\<close> and \<open>Identity_System\<close>: the invariant \<open>access_ok\<close>, kept by every transaction, and the
    transition system whose steps are the transactions and the retention of the management tables.
  \<^item> \<open>Passwords\<close> (\<open>management-service/src/passwords.rs\<close>, \<open>local_accounts.rs\<close>), \<open>Command_Catalog\<close>
    (\<open>management-command\<close>) and \<open>Registry\<close> (\<open>db/src/registry.rs\<close>). \<open>Registry_Access\<close> shows what registry writes
    (with those of \<open>s3_registry/credentials.rs\<close> and \<open>management/resource_metadata.rs\<close>) and file transfer keep
    together, as the relation \<open>registry_write\<close>.
  \<^item> \<open>Management_Service\<close> (\<open>management-service/src\<close>: \<open>lib.rs\<close>, \<open>command.rs\<close>, \<open>dispatch.rs\<close>, \<open>sessions.rs\<close>,
    \<open>password_setups.rs\<close>, \<open>password_changes.rs\<close>, \<open>personal_tokens.rs\<close>, \<open>profile.rs\<close>, \<open>logging.rs\<close>): the
    operations between the transports and the transactions, as numbered steps on the database with an
    environment that decides what others do between them and where a connection breaks.
    \<open>Management_Access\<close>: what they guarantee whatever the environment does.

  \<^bold>\<open>What the lemmas show.\<close> For the tables: keys, references and checks hold in every reachable state, and
  each file follows the life cycle pending, active, deleted or reclaimed with the lease, session and parts
  that belong to its phase. For uploads: a file becomes active only on a measured object of the declared
  size, publication is atomic, one owner at a time completes or cleans up, an interrupted step is retried
  or undone and the address of an object is forgotten only after the storage confirmed that it is gone. For
  requests: who signed what is decided on exactly the bytes that are executed, clients are isolated, sizes
  and times are bounded. For the jobs: each keeps the tables consistent and none starves. For management:
  an administrator always remains, withdrawn access stays withdrawn, sessions and tokens are bounded, the
  services change the tables only for a caller who is authenticated, authorized and, where asked for,
  verified by password, and no registry write moves or drops a storage that holds objects.

  \<^bold>\<open>Parameters and hypotheses.\<close> The crates the workspace only calls are arguments: HMAC, SHA-256, MD5,
  AES-GCM, HKDF, Argon2 and the PHC parser, base64 and hex, percent decoding, the XML parser, chrono and
  the text of a uuid, Unicode normalization and case mapping, the S3 SDK, random identifiers, JSON text.
  Hypotheses about them are stated in the theorem that uses them (such as that opening a sealed secret
  gives it back, or that a hash is injective on two given inputs) and each such theorem has a witness with
  a concrete instance. A transaction reads \<open>transaction_now\<close> and \<open>wall_now\<close> once, as arguments.

  \<^bold>\<open>Bounds and fuel.\<close> No definition of the model uses fuel that could hide non-termination: loops over
  pages of a provider are \<open>partial_function (option)\<close>, so not returning is the value \<open>None\<close>, and the
  bounded ones (\<open>abort_multipart_by_key\<close>, the receive loop, retries) recurse on the bound that the code
  itself has. Columns and counters that are only compared are \<open>int\<close> or \<open>nat\<close>; arithmetic that can wrap
  (part geometry) is on words; casts that can fail (\<open>bigint\<close>) are branches.

  \<^bold>\<open>Simplifications.\<close> \<open>LIMIT\<close> without \<open>ORDER BY\<close> takes rows in table order; \<open>ORDER BY\<close> on text is byte order.
  \<open>FOR UPDATE\<close> and the advisory lock of management make transactions steps; only the relay upload holds
  its row lock across a transfer, and its locks are the field \<open>row_locks\<close>. A read that the database does
  not answer is left out except where the code's reaction to it matters (the reconciler's scans and
  claims, the heartbeat). A commit whose outcome is unknown is a step only in \<open>Management_Service\<close>. Columns
  that no statement reads are left out.

  \<^bold>\<open>Not modelled.\<close> The process around the program: \<open>api/src/main.rs\<close>, \<open>shutdown.rs\<close>, \<open>routes.rs\<close>, CORS,
  OpenAPI, the console's static files, MCP, logging, metrics, log retention and status pages; the HTTP
  routes and cookies of the management plane (\<open>api/src/accounts\<close>, \<open>commands\<close>, \<open>routes/management\<close>);
  the execution of the registry commands (\<open>management-service/src/resources\<close>);
  \<open>api/src/storage_registration\<close>; configuration parsing; the CLI; the frontend. They transport requests,
  format answers or start the parts that are modelled.
\<close>

end
